(* ===== verification/Fw_Prelude.thy ===== *)
theory Fw_Prelude
  imports Main "HOL-Library.Word" "HOL-Library.Monad_Syntax"
begin

text \<open>
  Shared vocabulary of the development: the machine integer types of the firmware, the
  partial-execution monad, bit masks used as ring moduli, and the generic lemmas on words,
  lists and options that the component theories use.

  Execution model. A C function that may dereference NULL, index an array out of range or
  fail an \<^verbatim>\<open>adf_os_assert\<close> is a function into an \<^typ>\<open>'a option\<close>: \<open>None\<close> means that the C
  program has no defined continuation (undefined behaviour or a halted CPU), \<open>Some\<close> carries
  the returned value and the new state. Error codes and NULL results that the C code itself
  returns and tests are ordinary values and never \<open>None\<close>.
\<close>

unbundle bit_operations_syntax

section \<open>Machine integers\<close>

type_synonym u8 = "8 word"
type_synonym u16 = "16 word"
type_synonym u32 = "32 word"
type_synonym u64 = "64 word"

named_theorems mask_simps \<open>masks of the form 2 ^ n - 1 read as remainders\<close>
named_theorems run_simps \<open>unfolding of the partial-execution combinators\<close>

lemma unat_and_mask: "unat (x AND mask n :: 'a::len word) = unat x mod 2 ^ n"
proof -
  have "unat (x AND mask n) = unat (take_bit n x)"
    by (simp only: take_bit_eq_mask)
  also have "\<dots> = take_bit n (unat x)"
    by (rule unsigned_take_bit_eq)
  also have "\<dots> = unat x mod 2 ^ n"
    by (rule take_bit_eq_mod)
  finally show ?thesis .
qed

lemma unat_and_127 [mask_simps]: "unat (x AND 127 :: u32) = unat x mod 128"
  using unat_and_mask [of x 7] by (simp add: mask_eq_exp_minus_1)

lemma unat_and_4095 [mask_simps]: "unat (x AND 4095 :: u32) = unat x mod 4096"
  using unat_and_mask [of x 12] by (simp add: mask_eq_exp_minus_1)

lemma unat_and_4095_u16 [mask_simps]: "unat (x AND 4095 :: u16) = unat x mod 4096"
  using unat_and_mask [of x 12] by (simp add: mask_eq_exp_minus_1)

lemma unat_and_31 [mask_simps]: "unat (x AND 31 :: u32) = unat x mod 32"
  using unat_and_mask [of x 5] by (simp add: mask_eq_exp_minus_1)

lemma unat_drop_bit_5: "unat (drop_bit 5 x :: u32) = unat x div 32"
  by (subst unat_drop_bit_eq) (simp add: drop_bit_eq_div)

lemma unat_eqI: "unat a = unat b \<Longrightarrow> a = (b :: 'a::len word)"
  by (rule unsigned_word_eqI)

lemma unat_eq_iff: "a = (b :: 'a::len word) \<longleftrightarrow> unat a = unat b"
  by (auto intro: unat_eqI)

text \<open>C's integer promotions never lose bits.\<close>

lemma unat_ucast_widen:
  assumes "LENGTH('a) \<le> LENGTH('b)"
  shows "unat (ucast (x :: 'a::len word) :: 'b::len word) = unat x"
proof -
  have "unat x < 2 ^ LENGTH('b)"
    using unsigned_less [of x] assms by (meson less_le_trans one_le_numeral power_increasing)
  then show ?thesis
    by (simp add: unsigned_ucast_eq take_bit_nat_eq_self)
qed

lemma unat_ucast_16_32 [simp]: "unat (ucast (x :: u16) :: u32) = unat x"
  by (rule unat_ucast_widen) simp

lemma unat_ucast_8_32 [simp]: "unat (ucast (x :: u8) :: u32) = unat x"
  by (rule unat_ucast_widen) simp

lemma unat_ucast_8_16 [simp]: "unat (ucast (x :: u8) :: u16) = unat x"
  by (rule unat_ucast_widen) simp

lemma unat_u8_less: "unat (x :: u8) < 256"
  using unsigned_less [of x] by simp

lemma unat_u16_less: "unat (x :: u16) < 65536"
  using unsigned_less [of x] by simp

lemma unat_u32_less: "unat (x :: u32) < 4294967296"
  using unsigned_less [of x] by simp

lemma u32_zeroI: "(\<And>j. j < 32 \<Longrightarrow> \<not> bit (x :: u32) j) \<Longrightarrow> x = 0"
  by (rule bit_word_eqI) simp

section \<open>Ring indices\<close>

lemma add_mod_inj:
  assumes "(h + i) mod m = (h + j) mod m" "i < m" "j < (m::nat)"
  shows "i = j"
proof -
  have "int m dvd int i - int j"
    using assms(1) by (metis add_diff_cancel_left mod_eq_dvd_iff of_nat_add of_nat_mod)
  moreover have "\<bar>int i - int j\<bar> < int m"
    using assms(2,3) by linarith
  ultimately show ?thesis
    using zdvd_not_zless [of "\<bar>int i - int j\<bar>" "int m"] by auto
qed

lemma add_ring_distance:
  assumes "h < m" "t < (m::nat)"
  shows "(h + (t + m - h) mod m) mod m = t"
  using assms by (simp add: mod_add_right_eq)

lemma upt_0_Suc: "[0..<Suc n] = 0 # map Suc [0..<n]"
  by (simp only: map_Suc_upt upt_conv_Cons zero_less_Suc)

lemma ring_distance_cases:
  assumes "h < m" "t < (m::nat)"
  shows "(t + m - h) mod m = (if h \<le> t then t - h else t + m - h)"
proof (cases "h \<le> t")
  case True
  then have "t + m - h = (t - h) + m" by simp
  then have "(t + m - h) mod m = (t - h) mod m" by (simp only: mod_add_self2)
  then show ?thesis using True assms by simp
next
  case False
  then show ?thesis using assms by simp
qed

lemma ring_distance_Suc:
  assumes "h < m" "t < (m::nat)" "h \<noteq> t"
  shows "Suc ((t + m - (h + 1) mod m) mod m) = (t + m - h) mod m"
proof (cases "h + 1 < m")
  case True
  then show ?thesis
    using assms ring_distance_cases [of h m t] ring_distance_cases [of "h + 1" m t]
    by (auto simp del: add_Suc_right)
next
  case False
  then have "h + 1 = m" using assms(1) by simp
  then show ?thesis using assms ring_distance_cases [of h m t] by auto
qed

lemma and_push_bit_1: "(x AND push_bit n 1 \<noteq> 0) = bit (x :: 'a::len word) n"
  by (simp add: and_exp_eq_0_iff_not_bit)

section \<open>Partial execution\<close>

text \<open>A loop over a list whose body may have no defined result.\<close>

fun foldM :: "('s \<Rightarrow> 'a \<Rightarrow> 's option) \<Rightarrow> 's \<Rightarrow> 'a list \<Rightarrow> 's option" where
  "foldM f s [] = Some s"
| "foldM f s (x # xs) = do { s \<leftarrow> f s x; foldM f s xs }"

lemma foldM_append: "foldM f s (xs @ ys) = do { s \<leftarrow> foldM f s xs; foldM f s ys }"
  by (induction xs arbitrary: s) (simp_all split: Option.bind_split)

text \<open>A check that the C code relies on: NULL test, array bound or \<^verbatim>\<open>adf_os_assert\<close>.\<close>

definition require :: "bool \<Rightarrow> unit option" where
  [run_simps]: "require P = (if P then Some () else None)"

definition at :: "'a list \<Rightarrow> nat \<Rightarrow> 'a option" where
  "at xs i = (if i < length xs then Some (xs ! i) else None)"

lemma at_Some_iff [run_simps]: "at xs i = Some x \<longleftrightarrow> i < length xs \<and> x = xs ! i"
  by (auto simp: at_def)

section \<open>Partial correctness of option computations\<close>

text \<open>
  \<open>pred_option Q r\<close> says that \<open>r\<close> satisfies \<open>Q\<close> if it is a value; it distributes over the bind.
\<close>

lemma pred_option_bind: "pred_option Q (Option.bind r f) = pred_option (\<lambda>x. pred_option Q (f x)) r"
  by (cases r) simp_all

lemma pred_optionI: "(\<And>x. r = Some x \<Longrightarrow> Q x) \<Longrightarrow> pred_option Q r"
  by (cases r) simp_all

lemma pred_optionD: "pred_option Q r \<Longrightarrow> r = Some x \<Longrightarrow> Q x"
  by simp

lemma pred_option_iff: "pred_option Q r = (\<forall>x. r = Some x \<longrightarrow> Q x)"
  by (cases r) simp_all

lemma pred_option_mono_strong: "pred_option P r \<Longrightarrow> (\<And>x. r = Some x \<Longrightarrow> P x \<Longrightarrow> Q x) \<Longrightarrow> pred_option Q r"
  by (cases r) simp_all

lemma pred_option_bindI:
  "pred_option P r \<Longrightarrow> (\<And>x. r = Some x \<Longrightarrow> P x \<Longrightarrow> pred_option Q (f x)) \<Longrightarrow> pred_option Q (Option.bind r f)"
  by (cases r) simp_all

lemma pred_option_bind_any:
  "(\<And>x. r = Some x \<Longrightarrow> pred_option Q (f x)) \<Longrightarrow> pred_option Q (Option.bind r f)"
  by (cases r) simp_all

lemma pred_option_if: "pred_option Q (if b then x else y) = (if b then pred_option Q x else pred_option Q y)"
  by simp

lemma pred_option_require: "pred_option Q (Option.bind (require b) f) = (b \<longrightarrow> pred_option Q (f ()))"
  by (simp add: require_def)

lemmas wp_simps = pred_option_bind pred_option_if

end
