(* ===== verification/Fw_Mem.thy ===== *)
theory Fw_Mem
  imports Fw_Prelude "HOL-Library.Multiset"
begin

text \<open>
  The memory of the buffer subsystem and its lowest layer: the start-up allocator
  (\<^verbatim>\<open>cmnos_allocram.c\<close>), the free list of buffer headers (\<^verbatim>\<open>vbuf.c\<close>) and the free list of
  buffer descriptors (\<^verbatim>\<open>vdesc.c\<close>).

  Addresses are 32-bit words and NULL is 0. The structures \<^verbatim>\<open>VBUF\<close> and \<^verbatim>\<open>VDESC\<close> live in two
  partial maps from addresses to records, the payload bytes in a byte-addressed memory; the
  global contexts of the modules are fields of the same state record. Reading or writing a
  structure through NULL or through an address that holds none has no result (\<open>None\<close>).
\<close>

type_synonym addr = u32

abbreviation (input) NULL :: addr where "NULL \<equiv> 0"

section \<open>State\<close>

record VBUF =
  desc_list :: addr
  next_buf :: addr
  buf_length :: u16
  ctx :: "u8 list"

record VDESC =
  next_desc :: addr
  buf_addr :: addr
  buf_size :: u16
  data_offset :: u16
  data_size :: u16
  control :: u16
  hw_desc_buf :: "u8 list"

abbreviation (input) SIZEOF_VBUF :: u32 where "SIZEOF_VBUF \<equiv> 32"
abbreviation (input) SIZEOF_VDESC :: u32 where "SIZEOF_VDESC \<equiv> 36"

record fw_mem =
  vbufs :: "addr \<rightharpoonup> VBUF"
  vdescs :: "addr \<rightharpoonup> VDESC"
  bytes :: "addr \<Rightarrow> u8"
  allocram_current_addr :: u32
  allocram_remaining_bytes :: u32
  free_buf_head :: addr
  nVbufNum :: u32
  free_vdesc_head :: addr
  bufQ :: "addr list"

definition rd_vbuf :: "fw_mem \<Rightarrow> addr \<Rightarrow> VBUF option" where
  "rd_vbuf m p = (if p = NULL then None else vbufs m p)"

definition upd_vbuf :: "addr \<Rightarrow> (VBUF \<Rightarrow> VBUF) \<Rightarrow> fw_mem \<Rightarrow> fw_mem option" where
  "upd_vbuf p f m = do { v \<leftarrow> rd_vbuf m p; Some (m\<lparr>vbufs := (vbufs m)(p \<mapsto> f v)\<rparr>) }"

definition rd_vdesc :: "fw_mem \<Rightarrow> addr \<Rightarrow> VDESC option" where
  "rd_vdesc m p = (if p = NULL then None else vdescs m p)"

definition upd_vdesc :: "addr \<Rightarrow> (VDESC \<Rightarrow> VDESC) \<Rightarrow> fw_mem \<Rightarrow> fw_mem option" where
  "upd_vdesc p f m = do { d \<leftarrow> rd_vdesc m p; Some (m\<lparr>vdescs := (vdescs m)(p \<mapsto> f d)\<rparr>) }"

section \<open>Start-up allocation\<close>

definition A_ROUND_UP :: "u32 \<Rightarrow> u32 \<Rightarrow> u32" where
  "A_ROUND_UP x y = ((x + (y - 1)) div y) * y"

definition cmnos_allocram_init :: "addr \<Rightarrow> u32 \<Rightarrow> fw_mem \<Rightarrow> fw_mem" where
  "cmnos_allocram_init arena_start arena_sz m =
     m\<lparr>allocram_current_addr := arena_start, allocram_remaining_bytes := arena_sz\<rparr>"

text \<open>The failing branch ends in \<^verbatim>\<open>adf_os_assert(0)\<close>.\<close>

definition cmnos_allocram :: "u32 \<Rightarrow> fw_mem \<Rightarrow> (addr \<times> fw_mem) option" where
  "cmnos_allocram nbytes m =
     (let ptr = allocram_current_addr m;
          nbytes = A_ROUND_UP nbytes 4
      in if nbytes \<le> allocram_remaining_bytes m
         then Some (ptr, m\<lparr>allocram_remaining_bytes := allocram_remaining_bytes m - nbytes,
                           allocram_current_addr := allocram_current_addr m + nbytes\<rparr>)
         else None)"

section \<open>Buffer headers\<close>

text \<open>
  The storage that \<^verbatim>\<open>A_ALLOCRAM\<close> returns is not initialised; \<open>junk\<close> is what it happens to
  contain, and only the fields that the code writes are known afterwards.
\<close>

definition vbuf_new :: "VBUF \<Rightarrow> addr \<Rightarrow> fw_mem \<Rightarrow> (addr \<times> fw_mem) option" where
  "vbuf_new junk next m = do {
     (vbuf, m) \<leftarrow> cmnos_allocram SIZEOF_VBUF m;
     require (vbuf \<noteq> NULL);
     let m = m\<lparr>vbufs := (vbufs m)(vbuf \<mapsto> junk\<lparr>next_buf := next, desc_list := NULL\<rparr>)\<rparr>;
     Some (vbuf, m\<lparr>free_buf_head := vbuf\<rparr>) }"

definition vbuf_init :: "VBUF \<Rightarrow> nat \<Rightarrow> fw_mem \<Rightarrow> fw_mem option" where
  "vbuf_init junk nBuf m = do {
     (_, m) \<leftarrow> vbuf_new junk NULL m;
     m \<leftarrow> foldM (\<lambda>m i. do { (_, m) \<leftarrow> vbuf_new junk (free_buf_head m) m; Some m }) m [1..<nBuf];
     Some (m\<lparr>nVbufNum := of_nat nBuf\<rparr>) }"

definition vbuf_alloc_vbuf :: "fw_mem \<Rightarrow> (addr \<times> fw_mem) option" where
  "vbuf_alloc_vbuf m =
     (if free_buf_head m \<noteq> NULL then do {
        let allocBuf = free_buf_head m;
        let m = m\<lparr>nVbufNum := nVbufNum m - 1\<rparr>;
        b \<leftarrow> rd_vbuf m allocBuf;
        let m = m\<lparr>free_buf_head := next_buf b\<rparr>;
        m \<leftarrow> upd_vbuf allocBuf (next_buf_update (\<lambda>_. NULL)) m;
        Some (allocBuf, m) }
      else Some (NULL, m))"

definition vbuf_free_vbuf :: "addr \<Rightarrow> fw_mem \<Rightarrow> fw_mem option" where
  "vbuf_free_vbuf buf m = do {
     m \<leftarrow> upd_vbuf buf (next_buf_update (\<lambda>_. free_buf_head m)) m;
     let m = m\<lparr>free_buf_head := buf\<rparr>;
     Some (m\<lparr>nVbufNum := nVbufNum m + 1\<rparr>) }"

section \<open>Buffer descriptors\<close>

definition vdesc_new :: "VDESC \<Rightarrow> addr \<Rightarrow> fw_mem \<Rightarrow> (addr \<times> fw_mem) option" where
  "vdesc_new junk next m = do {
     (vdesc, m) \<leftarrow> cmnos_allocram SIZEOF_VDESC m;
     require (vdesc \<noteq> NULL);
     let m = m\<lparr>vdescs := (vdescs m)(vdesc \<mapsto> junk\<lparr>next_desc := next, control := 0\<rparr>)\<rparr>;
     Some (vdesc, m\<lparr>free_vdesc_head := vdesc\<rparr>) }"

definition vdesc_init :: "VDESC \<Rightarrow> nat \<Rightarrow> fw_mem \<Rightarrow> fw_mem option" where
  "vdesc_init junk nDesc m = do {
     (_, m) \<leftarrow> vdesc_new junk NULL m;
     foldM (\<lambda>m i. do { (_, m) \<leftarrow> vdesc_new junk (free_vdesc_head m) m; Some m }) m [1..<nDesc] }"

definition vdesc_alloc_desc :: "fw_mem \<Rightarrow> (addr \<times> fw_mem) option" where
  "vdesc_alloc_desc m =
     (if free_vdesc_head m \<noteq> NULL then do {
        let allocDesc = free_vdesc_head m;
        d \<leftarrow> rd_vdesc m allocDesc;
        let m = m\<lparr>free_vdesc_head := next_desc d\<rparr>;
        m \<leftarrow> upd_vdesc allocDesc (next_desc_update (\<lambda>_. NULL)) m;
        Some (allocDesc, m) }
      else Some (NULL, m))"

definition vdesc_get_hw_desc :: "fw_mem \<Rightarrow> addr \<Rightarrow> u8 list option" where
  "vdesc_get_hw_desc m desc = do { d \<leftarrow> rd_vdesc m desc; Some (hw_desc_buf d) }"

text \<open>
  Field by field, in the order of the code: every field is written in \<^verbatim>\<open>dest\<close> and then in
  \<^verbatim>\<open>src\<close>, so the definition is also right when both are the same descriptor. The links and the
  hardware descriptors stay.
\<close>

definition vdesc_swap_vdesc :: "addr \<Rightarrow> addr \<Rightarrow> fw_mem \<Rightarrow> fw_mem option" where
  "vdesc_swap_vdesc dest src m = do {
     d \<leftarrow> rd_vdesc m dest; s \<leftarrow> rd_vdesc m src;
     m \<leftarrow> upd_vdesc dest (buf_size_update (\<lambda>_. buf_size s)) m;
     m \<leftarrow> upd_vdesc src (buf_size_update (\<lambda>_. buf_size d)) m;
     m \<leftarrow> upd_vdesc dest (data_offset_update (\<lambda>_. data_offset s)) m;
     m \<leftarrow> upd_vdesc src (data_offset_update (\<lambda>_. data_offset d)) m;
     m \<leftarrow> upd_vdesc dest (data_size_update (\<lambda>_. data_size s)) m;
     m \<leftarrow> upd_vdesc src (data_size_update (\<lambda>_. data_size d)) m;
     m \<leftarrow> upd_vdesc dest (control_update (\<lambda>_. control s)) m;
     m \<leftarrow> upd_vdesc src (control_update (\<lambda>_. control d)) m;
     m \<leftarrow> upd_vdesc dest (buf_addr_update (\<lambda>_. buf_addr s)) m;
     upd_vdesc src (buf_addr_update (\<lambda>_. buf_addr d)) m }"

section \<open>Linked lists in memory\<close>

text \<open>
  \<open>chain nx p xs\<close>: following the links \<open>nx\<close> from \<open>p\<close> to NULL passes exactly the nodes \<open>xs\<close>.
\<close>

fun chain :: "(addr \<Rightarrow> addr option) \<Rightarrow> addr \<Rightarrow> addr list \<Rightarrow> bool" where
  "chain nx p [] \<longleftrightarrow> p = NULL"
| "chain nx p (x # xs) \<longleftrightarrow> p = x \<and> x \<noteq> NULL \<and> (case nx x of None \<Rightarrow> False | Some q \<Rightarrow> chain nx q xs)"

definition vb_next :: "(addr \<rightharpoonup> VBUF) \<Rightarrow> addr \<Rightarrow> addr option" where
  "vb_next bs p = map_option next_buf (bs p)"

definition vd_next :: "(addr \<rightharpoonup> VDESC) \<Rightarrow> addr \<Rightarrow> addr option" where
  "vd_next ds p = map_option next_desc (ds p)"

lemma chain_cong: "(\<And>x. x \<in> set xs \<Longrightarrow> nx x = nx' x) \<Longrightarrow> chain nx p xs = chain nx' p xs"
  by (induction xs arbitrary: p) (auto split: option.splits)

lemma chain_not_NULL: "chain nx p xs \<Longrightarrow> NULL \<notin> set xs"
  by (induction xs arbitrary: p) (auto split: option.splits)

lemma chain_NULL [simp]: "chain nx NULL xs \<longleftrightarrow> xs = []"
  by (cases xs) auto

lemma chain_dom: "chain nx p xs \<Longrightarrow> x \<in> set xs \<Longrightarrow> \<exists>q. nx x = Some q"
  by (induction xs arbitrary: p) (auto split: option.splits)

lemma chain_append:
  "chain nx p (xs @ x # ys) \<Longrightarrow> chain nx x (x # ys)"
proof (induction xs arbitrary: p)
  case (Cons a xs)
  then obtain q where "chain nx q (xs @ x # ys)" by (auto split: option.splits)
  then show ?case by (rule Cons.IH)
qed auto

lemma chain_unique: "chain nx p xs \<Longrightarrow> chain nx p ys \<Longrightarrow> xs = ys"
proof (induction xs arbitrary: p ys)
  case Nil
  then show ?case by (cases ys) auto
next
  case (Cons x xs)
  then show ?case by (cases ys) (auto split: option.splits)
qed

lemma chain_distinct: "chain nx p xs \<Longrightarrow> distinct xs"
proof (induction xs arbitrary: p)
  case Nil
  show ?case by simp
next
  case (Cons x xs)
  have "x \<notin> set xs"
  proof
    assume "x \<in> set xs"
    then obtain as bs where "xs = as @ x # bs" by (meson split_list)
    then have "chain nx x (x # bs)" "chain nx x (x # xs)"
      using Cons.prems chain_append [of nx p "x # as" x bs] by auto
    then have "x # bs = x # xs" by (rule chain_unique)
    then show False using \<open>xs = as @ x # bs\<close> by simp
  qed
  moreover have "distinct xs" using Cons by (auto split: option.splits)
  ultimately show ?case by simp
qed

lemma chain_head: "p \<noteq> NULL \<Longrightarrow> chain nx p xs \<Longrightarrow> \<exists>ys. xs = p # ys"
  by (cases xs) auto

lemma chain_fun_upd_notin: "x \<notin> set xs \<Longrightarrow> chain (nx(x := v)) p xs = chain nx p xs"
  by (rule chain_cong) auto

lemma chain_snoc:
  assumes "chain nx p xs" "xs \<noteq> []" "x \<noteq> NULL" "x \<notin> set xs"
  shows "chain (nx(x \<mapsto> NULL, last xs \<mapsto> x)) p (xs @ [x])"
  using assms
proof (induction xs arbitrary: p)
  case (Cons y ys)
  then obtain q where q: "nx y = Some q" "p = y" "y \<noteq> NULL" "chain nx q ys"
    by (auto split: option.splits)
  have d: "distinct (y # ys)" using Cons.prems(1) by (rule chain_distinct)
  show ?case
  proof (cases "ys = []")
    case True
    then show ?thesis using q Cons.prems by auto
  next
    case False
    then have "y \<noteq> last ys" using d by auto
    then show ?thesis using Cons.IH [OF q(4) False] Cons.prems q False by auto
  qed
qed simp

section \<open>Memory lemmas\<close>

named_theorems mem_simps \<open>reading and writing structures\<close>

lemma rd_vbuf_Some [mem_simps]: "rd_vbuf m p = Some v \<longleftrightarrow> p \<noteq> NULL \<and> vbufs m p = Some v"
  by (simp add: rd_vbuf_def)

lemma rd_vdesc_Some [mem_simps]: "rd_vdesc m p = Some d \<longleftrightarrow> p \<noteq> NULL \<and> vdescs m p = Some d"
  by (simp add: rd_vdesc_def)

lemma upd_vbuf_Some [mem_simps]: "p \<noteq> NULL \<Longrightarrow> vbufs m p = Some v \<Longrightarrow>
    upd_vbuf p f m = Some (m\<lparr>vbufs := (vbufs m)(p \<mapsto> f v)\<rparr>)"
  by (simp add: upd_vbuf_def rd_vbuf_def)

lemma upd_vdesc_Some [mem_simps]: "p \<noteq> NULL \<Longrightarrow> vdescs m p = Some d \<Longrightarrow>
    upd_vdesc p f m = Some (m\<lparr>vdescs := (vdescs m)(p \<mapsto> f d)\<rparr>)"
  by (simp add: upd_vdesc_def rd_vdesc_def)

lemma vb_next_upd [simp]: "vb_next (bs(p \<mapsto> v)) = (vb_next bs)(p \<mapsto> next_buf v)"
  by (auto simp: vb_next_def)

lemma vd_next_upd [simp]: "vd_next (ds(p \<mapsto> d)) = (vd_next ds)(p \<mapsto> next_desc d)"
  by (auto simp: vd_next_def)

lemma chain_vb_Cons: "chain (vb_next bs) p (x # xs) \<longleftrightarrow>
    p = x \<and> x \<noteq> NULL \<and> (\<exists>v. bs x = Some v \<and> chain (vb_next bs) (next_buf v) xs)"
  by (cases "bs x") (simp_all add: vb_next_def [of bs x])

lemma chain_vd_Cons: "chain (vd_next ds) p (x # xs) \<longleftrightarrow>
    p = x \<and> x \<noteq> NULL \<and> (\<exists>d. ds x = Some d \<and> chain (vd_next ds) (next_desc d) xs)"
  by (cases "ds x") (simp_all add: vd_next_def [of ds x])

section \<open>Interface of a pool of objects\<close>

text \<open>
  Several modules keep their unused objects on a linked list from which clients take and to
  which they return. The interface speaks of the list of free objects only; the clients'
  theorem is that no sequence of requests loses an object or hands one out twice.
\<close>

datatype pool_op = Alloc | Free nat

fun pool_run :: "('s \<Rightarrow> (addr \<times> 's) option) \<Rightarrow> (addr \<Rightarrow> 's \<Rightarrow> 's option) \<Rightarrow> pool_op list \<Rightarrow>
    addr list \<Rightarrow> 's \<Rightarrow> (addr list \<times> 's) option" where
  "pool_run alloc free [] held s = Some (held, s)"
| "pool_run alloc free (Alloc # ops) held s = do {
     (p, s) \<leftarrow> alloc s;
     pool_run alloc free ops (if p = NULL then held else p # held) s }"
| "pool_run alloc free (Free i # ops) held s =
     (if i < length held then do {
        s \<leftarrow> free (held ! i) s;
        pool_run alloc free ops (take i held @ drop (Suc i) held) s }
      else pool_run alloc free ops held s)"

locale alloc_pool =
  fixes content :: "'s \<Rightarrow> addr list \<Rightarrow> bool"
    and alloc :: "'s \<Rightarrow> (addr \<times> 's) option"
  assumes content_nodes: "content s xs \<Longrightarrow> distinct xs \<and> NULL \<notin> set xs"
    and alloc_Nil: "content s [] \<Longrightarrow> alloc s = Some (NULL, s)"
    and alloc_Cons: "content s (x # xs) \<Longrightarrow> \<exists>s'. alloc s = Some (x, s') \<and> content s' xs"
begin

lemma alloc_fresh:
  assumes "content s xs" "alloc s = Some (p, s')" "p \<noteq> NULL"
  shows "\<exists>ys. xs = p # ys \<and> content s' ys \<and> p \<notin> set ys"
proof (cases xs)
  case Nil
  then show ?thesis using assms alloc_Nil by auto
next
  case (Cons x ys)
  then show ?thesis using assms alloc_Cons [of s x ys] content_nodes [of s xs] by auto
qed

end

locale object_pool = alloc_pool +
  fixes free :: "addr \<Rightarrow> 's \<Rightarrow> 's option"
    and owned :: "'s \<Rightarrow> addr \<Rightarrow> bool"
  assumes free_law: "content s xs \<Longrightarrow> owned s x \<Longrightarrow> x \<notin> set xs \<Longrightarrow>
      \<exists>s'. free x s = Some s' \<and> content s' (x # xs)"
    and alloc_owned: "content s (x # xs) \<Longrightarrow> alloc s = Some (x, s') \<Longrightarrow> owned s' x"
    and alloc_keeps: "alloc s = Some (p, s') \<Longrightarrow> owned s x \<Longrightarrow> x \<noteq> p \<Longrightarrow> owned s' x"
    and free_keeps: "free p s = Some s' \<Longrightarrow> owned s x \<Longrightarrow> x \<noteq> p \<Longrightarrow> owned s' x"
begin

lemma free_alloc:
  assumes "content s xs" "owned s x" "x \<notin> set xs"
  shows "\<exists>s1 s2. free x s = Some s1 \<and> alloc s1 = Some (x, s2) \<and> content s2 xs"
  using free_law [OF assms] alloc_Cons by blast

lemma run_alloc:
  assumes "content s xs" "distinct (held @ xs)" "\<forall>p\<in>set held. owned s p"
  shows "\<exists>p s' ys. alloc s = Some (p, s') \<and> content s' ys \<and>
    mset ((if p = NULL then held else p # held) @ ys) = mset (held @ xs) \<and>
    (\<forall>q\<in>set (if p = NULL then held else p # held). owned s' q)"
proof (cases xs)
  case Nil
  then show ?thesis using assms alloc_Nil [of s] by auto
next
  case (Cons x ys)
  with assms(1) obtain s' where s': "alloc s = Some (x, s')" "content s' ys"
    using alloc_Cons by blast
  have "x \<noteq> NULL" "owned s' x"
    using content_nodes [OF assms(1)] alloc_owned [of s x ys s'] s'(1) assms(1) Cons by auto
  moreover have "x \<notin> set held" using assms(2) Cons by auto
  moreover from this have "\<forall>q\<in>set held. owned s' q" using assms(3) alloc_keeps [OF s'(1)] by metis
  ultimately show ?thesis using s' Cons by auto
qed

lemma run_conserves:
  assumes "content s xs" "distinct (held @ xs)" "\<forall>p\<in>set held. owned s p"
  shows "\<exists>held' s' xs'. pool_run alloc free ops held s = Some (held', s') \<and> content s' xs' \<and>
           mset (held' @ xs') = mset (held @ xs) \<and> (\<forall>p\<in>set held'. owned s' p)"
  using assms
proof (induction ops arbitrary: s xs held)
  case Nil
  then show ?case by auto
next
  case (Cons op ops)
  show ?case
  proof (cases op)
    case Alloc
    from run_alloc [OF Cons.prems] obtain p s1 ys where
      1: "alloc s = Some (p, s1)" "content s1 ys"
        "mset ((if p = NULL then held else p # held) @ ys) = mset (held @ xs)"
        "\<forall>q\<in>set (if p = NULL then held else p # held). owned s1 q"
      by blast
    have "distinct ((if p = NULL then held else p # held) @ ys)"
      using Cons.prems(2) mset_eq_imp_distinct_iff [OF 1(3)] by blast
    from Cons.IH [OF 1(2) this 1(4)] show ?thesis
      using 1(1,3) Alloc by simp
  next
    case (Free i)
    show ?thesis
    proof (cases "i < length held")
      case False
      then show ?thesis using Free Cons by simp
    next
      case True
      let ?h = "take i held @ drop (Suc i) held"
      have h: "held = take i held @ held ! i # drop (Suc i) held"
        using True by (rule id_take_nth_drop)
      have m: "mset (?h @ held ! i # xs) = mset (held @ xs)"
        by (subst (4) h) simp
      have d: "distinct (?h @ held ! i # xs)"
        using Cons.prems(2) mset_eq_imp_distinct_iff [OF m] by blast
      have "owned s (held ! i)" using Cons.prems(3) True by simp
      moreover have "held ! i \<notin> set xs" using d by simp
      ultimately obtain s1 where s1: "free (held ! i) s = Some s1" "content s1 (held ! i # xs)"
        using free_law [OF Cons.prems(1)] by blast
      have "\<forall>p\<in>set ?h. owned s p \<and> p \<noteq> held ! i"
        using Cons.prems(3) d by (auto dest: in_set_takeD in_set_dropD)
      then have "\<forall>p\<in>set ?h. owned s1 p" using free_keeps [OF s1(1)] by blast
      from Cons.IH [OF s1(2) d this, unfolded m] show ?thesis using s1(1) True Free by simp
    qed
  qed
qed

end

section \<open>The free lists satisfy the interface\<close>

definition vbuf_pool :: "fw_mem \<Rightarrow> addr list \<Rightarrow> bool" where
  "vbuf_pool m xs \<longleftrightarrow> chain (vb_next (vbufs m)) (free_buf_head m) xs \<and> nVbufNum m = of_nat (length xs)"

definition vbuf_at :: "fw_mem \<Rightarrow> addr \<Rightarrow> bool" where
  "vbuf_at m p \<longleftrightarrow> p \<noteq> NULL \<and> vbufs m p \<noteq> None"

definition vdesc_pool :: "fw_mem \<Rightarrow> addr list \<Rightarrow> bool" where
  "vdesc_pool m xs \<longleftrightarrow> chain (vd_next (vdescs m)) (free_vdesc_head m) xs"

lemma vbuf_alloc_Cons:
  assumes "vbuf_pool m (x # xs)"
  shows "\<exists>v. vbufs m x = Some v \<and> x \<noteq> NULL \<and> x \<notin> set xs \<and>
      vbuf_alloc_vbuf m = Some (x, m\<lparr>nVbufNum := nVbufNum m - 1,
           free_buf_head := next_buf v, vbufs := (vbufs m)(x \<mapsto> v\<lparr>next_buf := NULL\<rparr>)\<rparr>) \<and>
      vbuf_pool (m\<lparr>nVbufNum := nVbufNum m - 1,
           free_buf_head := next_buf v, vbufs := (vbufs m)(x \<mapsto> v\<lparr>next_buf := NULL\<rparr>)\<rparr>) xs"
proof -
  from assms obtain v where v: "vbufs m x = Some v" "free_buf_head m = x" "x \<noteq> NULL"
    "chain (vb_next (vbufs m)) (next_buf v) xs" "nVbufNum m = of_nat (length (x # xs))"
    by (auto simp: vbuf_pool_def vb_next_def split: option.splits)
  have "x \<notin> set xs"
    using assms chain_distinct [of "vb_next (vbufs m)" _ "x # xs"] by (auto simp: vbuf_pool_def)
  then show ?thesis
    using v by (simp add: vbuf_alloc_vbuf_def rd_vbuf_def upd_vbuf_def vbuf_pool_def chain_fun_upd_notin)
qed

lemma vbuf_free_Cons:
  assumes "vbuf_pool m xs" "vbufs m x = Some v" "x \<noteq> NULL" "x \<notin> set xs"
  shows "vbuf_free_vbuf x m = Some (m\<lparr>vbufs := (vbufs m)(x \<mapsto> v\<lparr>next_buf := free_buf_head m\<rparr>),
           free_buf_head := x, nVbufNum := nVbufNum m + 1\<rparr>)"
    "vbuf_pool (m\<lparr>vbufs := (vbufs m)(x \<mapsto> v\<lparr>next_buf := free_buf_head m\<rparr>),
           free_buf_head := x, nVbufNum := nVbufNum m + 1\<rparr>) (x # xs)"
  using assms
  by (simp_all add: vbuf_free_vbuf_def rd_vbuf_def upd_vbuf_def vbuf_pool_def chain_fun_upd_notin)

lemma vbuf_pool_at:
  assumes "vbuf_pool m xs" "x \<in> set xs"
  shows "vbuf_at m x"
  using assms chain_dom [of "vb_next (vbufs m)" _ xs x] chain_not_NULL [of "vb_next (vbufs m)" _ xs]
  by (auto simp: vbuf_pool_def vbuf_at_def vb_next_def)

lemma vbuf_alloc_keeps: "vbuf_alloc_vbuf m = Some (p, m') \<Longrightarrow> vbuf_at m x \<Longrightarrow> vbuf_at m' x"
  by (auto simp: vbuf_alloc_vbuf_def upd_vbuf_def vbuf_at_def Let_def split: if_splits Option.bind_splits)

lemma vbuf_free_keeps: "vbuf_free_vbuf p m = Some m' \<Longrightarrow> vbuf_at m x \<Longrightarrow> vbuf_at m' x"
  by (auto simp: vbuf_free_vbuf_def upd_vbuf_def vbuf_at_def Let_def split: if_splits Option.bind_splits)

interpretation vbuf: object_pool vbuf_pool vbuf_alloc_vbuf vbuf_free_vbuf vbuf_at
proof unfold_locales
  show "distinct xs \<and> NULL \<notin> set xs" if "vbuf_pool m xs" for m xs
    using that chain_distinct chain_not_NULL by (auto simp: vbuf_pool_def)
  show "vbuf_alloc_vbuf m = Some (NULL, m)" if "vbuf_pool m []" for m
    using that by (simp add: vbuf_pool_def vbuf_alloc_vbuf_def)
  show "\<exists>m'. vbuf_alloc_vbuf m = Some (x, m') \<and> vbuf_pool m' xs" if "vbuf_pool m (x # xs)" for m x xs
    using vbuf_alloc_Cons [OF that] by blast
  show "\<exists>m'. vbuf_free_vbuf x m = Some m' \<and> vbuf_pool m' (x # xs)"
    if "vbuf_pool m xs" "vbuf_at m x" "x \<notin> set xs" for m x xs
    using that(2) vbuf_free_Cons [OF that(1) _ _ that(3)] by (auto simp: vbuf_at_def)
  show "vbuf_at m' x" if "vbuf_pool m (x # xs)" "vbuf_alloc_vbuf m = Some (x, m')" for m x xs m'
    using vbuf_alloc_keeps [OF that(2)] vbuf_pool_at [OF that(1)] by simp
qed (auto intro: vbuf_alloc_keeps vbuf_free_keeps)

interpretation vdesc: alloc_pool vdesc_pool vdesc_alloc_desc
proof unfold_locales
  show nodes: "distinct xs \<and> NULL \<notin> set xs" if "vdesc_pool m xs" for m xs
    using that chain_distinct chain_not_NULL by (auto simp: vdesc_pool_def)
  show "vdesc_alloc_desc m = Some (NULL, m)" if "vdesc_pool m []" for m
    using that by (simp add: vdesc_pool_def vdesc_alloc_desc_def)
  show "\<exists>m'. vdesc_alloc_desc m = Some (x, m') \<and> vdesc_pool m' xs" if p: "vdesc_pool m (x # xs)" for m x xs
  proof -
    from p obtain d where d: "vdescs m x = Some d" "free_vdesc_head m = x" "x \<noteq> NULL"
      "chain (vd_next (vdescs m)) (next_desc d) xs"
      by (auto simp: vdesc_pool_def vd_next_def split: option.splits)
    moreover have "x \<notin> set xs" using nodes [OF p] by simp
    ultimately show ?thesis
      by (simp add: vdesc_alloc_desc_def rd_vdesc_def upd_vdesc_def vdesc_pool_def chain_fun_upd_notin)
  qed
qed


section \<open>Initialisation of the header pool\<close>

lemma A_ROUND_UP_VBUF: "A_ROUND_UP SIZEOF_VBUF 4 = 32"
  by code_simp

lemma vbuf_new_pool:
  assumes "chain (vb_next (vbufs m)) next xs" "allocram_current_addr m \<notin> set xs"
    "allocram_current_addr m \<noteq> NULL" "32 \<le> allocram_remaining_bytes m"
  shows "\<exists>m'. vbuf_new junk next m = Some (allocram_current_addr m, m') \<and>
           chain (vb_next (vbufs m')) (free_buf_head m') (allocram_current_addr m # xs) \<and>
           allocram_current_addr m' = allocram_current_addr m + 32 \<and>
           allocram_remaining_bytes m' = allocram_remaining_bytes m - 32"
  using assms
  by (simp add: vbuf_new_def cmnos_allocram_def A_ROUND_UP_VBUF require_def chain_fun_upd_notin)

text \<open>The \<open>i\<close>-th header of the arena.\<close>

definition vbuf_slot :: "addr \<Rightarrow> nat \<Rightarrow> addr" where
  "vbuf_slot start i = start + 32 * of_nat i"

lemma unat_vbuf_slot:
  assumes "unat start + 32 * n < 2 ^ 32" "i \<le> n"
  shows "unat (vbuf_slot start i) = unat start + 32 * i"
  using assms by (simp add: vbuf_slot_def unat_word_ariths unat_of_nat)

lemma vbuf_slot_Suc: "vbuf_slot start (Suc i) = vbuf_slot start i + 32"
  by (simp add: vbuf_slot_def algebra_simps)

lemma vbuf_init_loop:
  assumes "unat start + 32 * n < 2 ^ 32" "start \<noteq> NULL" "32 * n \<le> unat (allocram_remaining_bytes m0)"
    "allocram_current_addr m0 = start" "1 \<le> k" "k \<le> n"
  shows "\<exists>m. (do { (_, m) \<leftarrow> vbuf_new junk NULL m0;
              foldM (\<lambda>m i. do { (_, m) \<leftarrow> vbuf_new junk (free_buf_head m) m; Some m }) m [1..<k] }) = Some m \<and>
           chain (vb_next (vbufs m)) (free_buf_head m) (rev (map (vbuf_slot start) [0..<k])) \<and>
           allocram_current_addr m = vbuf_slot start k \<and>
           unat (allocram_remaining_bytes m) = unat (allocram_remaining_bytes m0) - 32 * k"
  using assms(5,6)
proof (induction k rule: nat_induct_at_least)
  case base
  have "32 \<le> allocram_remaining_bytes m0" using assms(3) base by (simp add: word_le_nat_alt)
  moreover from this have "unat (allocram_remaining_bytes m0 - 32) = unat (allocram_remaining_bytes m0) - 32"
    by (simp add: unat_sub_if_size word_le_nat_alt)
  ultimately show ?case
    using vbuf_new_pool [of m0 NULL "[]" junk] assms(2,4)
    by (auto simp: vbuf_slot_def)
next
  case (Suc k)
  then obtain m where m: "(do { (_, m) \<leftarrow> vbuf_new junk NULL m0;
        foldM (\<lambda>m i. do { (_, m) \<leftarrow> vbuf_new junk (free_buf_head m) m; Some m }) m [1..<k] }) = Some m"
    "chain (vb_next (vbufs m)) (free_buf_head m) (rev (map (vbuf_slot start) [0..<k]))"
    "allocram_current_addr m = vbuf_slot start k"
    "unat (allocram_remaining_bytes m) = unat (allocram_remaining_bytes m0) - 32 * k"
    by auto
  have "vbuf_slot start k \<noteq> vbuf_slot start i" if "i < k" for i
    using unat_vbuf_slot [OF assms(1), of k] unat_vbuf_slot [OF assms(1), of i] that Suc.prems
    by (auto simp: unat_eq_iff)
  then have fresh: "vbuf_slot start k \<notin> set (rev (map (vbuf_slot start) [0..<k]))"
    by (simp add: image_iff)
  have nn: "vbuf_slot start k \<noteq> NULL"
    using unat_vbuf_slot [OF assms(1), of k] Suc.prems assms(2) by (auto simp: unat_eq_iff)
  have r: "32 \<le> allocram_remaining_bytes m"
    using m(4) assms(3) Suc.prems by (simp add: word_le_nat_alt)
  then have "unat (allocram_remaining_bytes m - 32) = unat (allocram_remaining_bytes m) - 32"
    by (simp add: unat_sub_if_size word_le_nat_alt)
  moreover from vbuf_new_pool [OF m(2), of junk] obtain m' where
    "vbuf_new junk (free_buf_head m) m = Some (vbuf_slot start k, m')"
    "chain (vb_next (vbufs m')) (free_buf_head m') (rev (map (vbuf_slot start) [0..<Suc k]))"
    "allocram_current_addr m' = vbuf_slot start (Suc k)"
    "allocram_remaining_bytes m' = allocram_remaining_bytes m - 32"
    using fresh nn r m(3) by (auto simp: vbuf_slot_Suc)
  ultimately show ?case
    using m(1,4) Suc.hyps by (auto simp: foldM_append split: Option.bind_splits)
qed

text \<open>
  \<^verbatim>\<open>_vbuf_init\<close> on an arena that has room turns it into a free list of
  \<open>nBuf\<close> pairwise distinct, non-NULL headers, whatever the RAM contained.
\<close>

theorem vbuf_init_pool:
  assumes "1 \<le> nBuf" "allocram_current_addr m \<noteq> NULL"
    and "unat (allocram_current_addr m) + 32 * nBuf < 2 ^ 32"
    and "32 * nBuf \<le> unat (allocram_remaining_bytes m)"
  shows "\<exists>m'. vbuf_init junk nBuf m = Some m' \<and>
           vbuf_pool m' (rev (map (vbuf_slot (allocram_current_addr m)) [0..<nBuf]))"
proof -
  from vbuf_init_loop [OF assms(3,2,4) refl assms(1) order.refl, of junk] obtain m1 where
    "(do { (_, m) \<leftarrow> vbuf_new junk NULL m;
        foldM (\<lambda>m i. do { (_, m) \<leftarrow> vbuf_new junk (free_buf_head m) m; Some m }) m [1..<nBuf] }) = Some m1"
    "chain (vb_next (vbufs m1)) (free_buf_head m1) (rev (map (vbuf_slot (allocram_current_addr m)) [0..<nBuf]))"
    by blast
  then show ?thesis
    by (auto simp: vbuf_init_def vbuf_pool_def split: Option.bind_splits)
qed

text \<open>
  The free list of buffer headers never loses or duplicates a header: after any
  sequence of \<^verbatim>\<open>VBUF_alloc_vbuf\<close> and \<^verbatim>\<open>VBUF_free_vbuf\<close> calls, starting from \<open>xs\<close> free headers,
  every call has succeeded, and the headers held by the clients and the free ones together are
  those of the start.
\<close>

theorem vbuf_pool_conserved:
  assumes "vbuf_pool m xs"
  shows "\<exists>held m' xs'. pool_run vbuf_alloc_vbuf vbuf_free_vbuf ops [] m = Some (held, m') \<and>
           vbuf_pool m' xs' \<and> mset (held @ xs') = mset xs \<and> distinct (held @ xs')"
proof -
  have d: "distinct xs" using vbuf.content_nodes [OF assms] by simp
  then obtain held m' xs' where
    "pool_run vbuf_alloc_vbuf vbuf_free_vbuf ops [] m = Some (held, m')" "vbuf_pool m' xs'"
    and e: "mset (held @ xs') = mset xs"
    using vbuf.run_conserves [OF assms, of "[]" ops] by auto
  then show ?thesis using d mset_eq_imp_distinct_iff [OF e] by blast
qed

text \<open>
  \<^verbatim>\<open>_vdesc_swap_vdesc\<close> exchanges the buffers of two descriptors and leaves the
  links between descriptors and the hardware descriptors in place; with both arguments the
  same descriptor it changes nothing.
\<close>

theorem vdesc_swap_vdesc_exchanges:
  assumes "dest \<noteq> NULL" "src \<noteq> NULL" "vdescs m dest = Some d" "vdescs m src = Some s"
  shows "vdesc_swap_vdesc dest src m = Some (m\<lparr>vdescs := (vdescs m)
    (dest \<mapsto> s\<lparr>next_desc := next_desc d, hw_desc_buf := hw_desc_buf d\<rparr>,
     src \<mapsto> d\<lparr>next_desc := next_desc s, hw_desc_buf := hw_desc_buf s\<rparr>)\<rparr>)"
proof (cases "dest = src")
  case True
  then show ?thesis using assms by (simp add: vdesc_swap_vdesc_def upd_vdesc_def rd_vdesc_def)
next
  case False
  then show ?thesis
    using assms by (cases d, cases s) (simp add: vdesc_swap_vdesc_def upd_vdesc_def rd_vdesc_def fun_upd_twist)
qed

section \<open>A small memory\<close>

text \<open>Two headers on the free list, two descriptors in use, an arena of 1000 bytes.\<close>

definition vbuf0 :: VBUF where
  "vbuf0 = \<lparr>desc_list = NULL, next_buf = NULL, buf_length = 0, ctx = replicate 20 0\<rparr>"

definition vdesc0 :: VDESC where
  "vdesc0 = \<lparr>next_desc = NULL, buf_addr = 0x4000, buf_size = 64, data_offset = 8, data_size = 16,
     control = 0, hw_desc_buf = replicate 20 0\<rparr>"

definition mem0 :: fw_mem where
  "mem0 = \<lparr>vbufs = [0x1000 \<mapsto> vbuf0\<lparr>next_buf := 0x1020\<rparr>, 0x1020 \<mapsto> vbuf0],
     vdescs = [0x2000 \<mapsto> vdesc0\<lparr>next_desc := 0x2024\<rparr>, 0x2024 \<mapsto> vdesc0\<lparr>buf_addr := 0x5000\<rparr>],
     bytes = (\<lambda>_. 0), allocram_current_addr = 0x8000, allocram_remaining_bytes = 1000,
     free_buf_head = 0x1000, nVbufNum = 2, free_vdesc_head = NULL, bufQ = replicate 10 NULL\<rparr>"

lemma mem0_pool: "vbuf_pool mem0 [0x1000, 0x1020]"
  by (simp add: vbuf_pool_def mem0_def vb_next_def vbuf0_def)

theorem vbuf_init_pool_witness:
  "\<exists>m'. vbuf_init vbuf0 3 mem0 = Some m' \<and> vbuf_pool m' [0x8040, 0x8020, 0x8000]"
  using vbuf_init_pool [of 3 mem0 vbuf0]
  by (simp add: mem0_def vbuf_slot_def upt_rec numeral_3_eq_3)

theorem vbuf_pool_conserved_witness:
  "\<exists>held m' xs'. pool_run vbuf_alloc_vbuf vbuf_free_vbuf [Alloc, Alloc, Alloc, Free 0] [] mem0 =
     Some (held, m') \<and> vbuf_pool m' xs' \<and> mset (held @ xs') = {#0x1000, 0x1020#}"
  using vbuf_pool_conserved [OF mem0_pool, of "[Alloc, Alloc, Alloc, Free 0]"]
  by (simp add: add_mset_commute) blast

theorem vdesc_swap_vdesc_exchanges_witness:
  "(do { m \<leftarrow> vdesc_swap_vdesc 0x2000 0x2024 mem0; d \<leftarrow> vdescs m 0x2000;
         Some (next_desc d, buf_addr d) }) = Some (0x2024, 0x5000)"
  using vdesc_swap_vdesc_exchanges [of "0x2000" "0x2024" mem0] by (simp add: mem0_def vdesc0_def)

end
