(* ===== verification/Nbuf.thy ===== *)
theory Nbuf
  imports Fw_Mem
begin

text \<open>
  Network buffers (\<^verbatim>\<open>adf_nbuf.c\<close>): a buffer is a header (\<^verbatim>\<open>VBUF\<close>) with a chain of descriptors
  (\<^verbatim>\<open>VDESC\<close>), each owning a data window \<^verbatim>\<open>data_offset .. data_offset + data_size\<close> inside its
  storage. The operations move the ends of that window, queue buffers through their headers,
  and merge or split descriptor chains. Sizes passed as \<^verbatim>\<open>adf_os_size_t\<close> are 32 bits wide and
  truncated by the assignments to the 16-bit fields.
\<close>

section \<open>Data windows\<close>

definition adf_nbuf_alloc :: "u32 \<Rightarrow> u32 \<Rightarrow> fw_mem \<Rightarrow> (addr \<times> fw_mem) option" where
  "adf_nbuf_alloc sz reserve m = do {
     (buf, m) \<leftarrow> vbuf_alloc_vbuf m;
     if buf \<noteq> NULL then do {
       (desc, m) \<leftarrow> vdesc_alloc_desc m;
       (a, m) \<leftarrow> cmnos_allocram sz m;
       m \<leftarrow> upd_vdesc desc (\<lambda>d. d\<lparr>buf_addr := a, buf_size := ucast sz, next_desc := NULL,
              data_offset := ucast reserve, data_size := 0, control := 0\<rparr>) m;
       m \<leftarrow> upd_vbuf buf (\<lambda>b. b\<lparr>desc_list := desc, buf_length := 0\<rparr>) m;
       Some (buf, m) }
     else Some (buf, m) }"

partial_function (option) desc_last :: "fw_mem \<Rightarrow> addr \<Rightarrow> addr option" where
  "desc_last m desc = do {
     d \<leftarrow> rd_vdesc m desc;
     if next_desc d \<noteq> NULL then desc_last m (next_desc d) else Some desc }"

definition adf_nbuf_last :: "fw_mem \<Rightarrow> addr \<Rightarrow> addr option" where
  "adf_nbuf_last m buf = do { b \<leftarrow> rd_vbuf m buf; desc_last m (desc_list b) }"

definition adf_nbuf_push_head :: "addr \<Rightarrow> u32 \<Rightarrow> fw_mem \<Rightarrow> (addr \<times> fw_mem) option" where
  "adf_nbuf_push_head buf len m = do {
     b \<leftarrow> rd_vbuf m buf;
     m \<leftarrow> upd_vdesc (desc_list b) (\<lambda>d. d\<lparr>data_offset := data_offset d - ucast len,
                                        data_size := data_size d + ucast len\<rparr>) m;
     m \<leftarrow> upd_vbuf buf (\<lambda>b. b\<lparr>buf_length := buf_length b + ucast len\<rparr>) m;
     d \<leftarrow> rd_vdesc m (desc_list b);
     Some (buf_addr d + ucast (data_offset d), m) }"

definition adf_nbuf_pull_head :: "addr \<Rightarrow> u32 \<Rightarrow> fw_mem \<Rightarrow> (addr \<times> fw_mem) option" where
  "adf_nbuf_pull_head buf len m = do {
     b \<leftarrow> rd_vbuf m buf;
     m \<leftarrow> upd_vdesc (desc_list b) (\<lambda>d. d\<lparr>data_offset := data_offset d + ucast len,
                                        data_size := data_size d - ucast len\<rparr>) m;
     m \<leftarrow> upd_vbuf buf (\<lambda>b. b\<lparr>buf_length := buf_length b - ucast len\<rparr>) m;
     d \<leftarrow> rd_vdesc m (desc_list b);
     Some (buf_addr d + ucast (data_offset d), m) }"

definition adf_nbuf_put_tail :: "addr \<Rightarrow> u32 \<Rightarrow> fw_mem \<Rightarrow> (addr \<times> fw_mem) option" where
  "adf_nbuf_put_tail buf len m = do {
     last_desc \<leftarrow> adf_nbuf_last m buf;
     d \<leftarrow> rd_vdesc m last_desc;
     let tail = buf_addr d + ucast (data_offset d) + ucast (data_size d);
     m \<leftarrow> upd_vdesc last_desc (\<lambda>d. d\<lparr>data_size := data_size d + ucast len\<rparr>) m;
     m \<leftarrow> upd_vbuf buf (\<lambda>b. b\<lparr>buf_length := buf_length b + ucast len\<rparr>) m;
     Some (tail, m) }"

definition adf_nbuf_trim_tail :: "addr \<Rightarrow> u32 \<Rightarrow> fw_mem \<Rightarrow> fw_mem option" where
  "adf_nbuf_trim_tail buf len m = do {
     last_desc \<leftarrow> adf_nbuf_last m buf;
     m \<leftarrow> upd_vdesc last_desc (\<lambda>d. d\<lparr>data_size := data_size d - ucast len\<rparr>) m;
     upd_vbuf buf (\<lambda>b. b\<lparr>buf_length := buf_length b - ucast len\<rparr>) m }"

definition adf_nbuf_headroom :: "fw_mem \<Rightarrow> addr \<Rightarrow> u32 option" where
  "adf_nbuf_headroom m buf = do {
     b \<leftarrow> rd_vbuf m buf; d \<leftarrow> rd_vdesc m (desc_list b); Some (ucast (data_offset d)) }"

text \<open>The operands are promoted to \<^verbatim>\<open>int\<close> before the subtraction and the result is returned
  as \<^verbatim>\<open>a_uint32_t\<close>.\<close>

definition adf_nbuf_tailroom :: "fw_mem \<Rightarrow> addr \<Rightarrow> u32 option" where
  "adf_nbuf_tailroom m buf = do {
     last_desc \<leftarrow> adf_nbuf_last m buf; d \<leftarrow> rd_vdesc m last_desc;
     Some (ucast (buf_size d) - ucast (data_offset d) - ucast (data_size d)) }"

definition adf_nbuf_len :: "fw_mem \<Rightarrow> addr \<Rightarrow> u32 option" where
  "adf_nbuf_len m buf = do { b \<leftarrow> rd_vbuf m buf; Some (ucast (buf_length b)) }"

definition adf_nbuf_peek_header :: "fw_mem \<Rightarrow> addr \<Rightarrow> (addr \<times> u32) option" where
  "adf_nbuf_peek_header m buf = do {
     b \<leftarrow> rd_vbuf m buf; d \<leftarrow> rd_vdesc m (desc_list b);
     Some (buf_addr d + ucast (data_offset d), ucast (data_size d)) }"

definition adf_nbuf_get_priv :: "fw_mem \<Rightarrow> addr \<Rightarrow> u8 list option" where
  "adf_nbuf_get_priv m buf = do { b \<leftarrow> rd_vbuf m buf; Some (ctx b) }"

text \<open>
  The scatter-gather list of a buffer, filled front to back (\<^verbatim>\<open>__adf_nbuf_frag_info\<close> and, through
  the DMA map, \<^verbatim>\<open>__adf_nbuf_dmamap_info\<close>); \<^verbatim>\<open>nsegs\<close> is its length. The arrays have 4 entries and 1
  entry, and no check stands before the store: an entry behind the end has no result.
\<close>

abbreviation (input) ADF_OS_MAX_SGLIST :: nat where "ADF_OS_MAX_SGLIST \<equiv> 4"
abbreviation (input) ADF_OS_MAX_SCATTER :: nat where "ADF_OS_MAX_SCATTER \<equiv> 1"

partial_function (option) frag_info_loop ::
  "nat \<Rightarrow> fw_mem \<Rightarrow> addr \<Rightarrow> (addr \<times> u16) list \<Rightarrow> (addr \<times> u16) list option" where
  "frag_info_loop n m desc sg =
     (if desc \<noteq> NULL then do {
        d \<leftarrow> rd_vdesc m desc;
        require (length sg < n);
        frag_info_loop n m (next_desc d) (sg @ [(buf_addr d + ucast (data_offset d), data_size d)]) }
      else Some sg)"

definition adf_nbuf_frag_info :: "fw_mem \<Rightarrow> addr \<Rightarrow> (addr \<times> u16) list option" where
  "adf_nbuf_frag_info m buf = do { b \<leftarrow> rd_vbuf m buf; frag_info_loop ADF_OS_MAX_SGLIST m (desc_list b) [] }"

definition adf_nbuf_dmamap_info :: "fw_mem \<Rightarrow> addr \<Rightarrow> (addr \<times> u16) list option" where
  "adf_nbuf_dmamap_info m bmap_buf = do {
     b \<leftarrow> rd_vbuf m bmap_buf; frag_info_loop ADF_OS_MAX_SCATTER m (desc_list b) [] }"

section \<open>Queues\<close>

record nbuf_qhead =
  q_head :: addr
  q_tail :: addr
  q_len :: u32

definition adf_nbuf_queue_init :: nbuf_qhead where
  "adf_nbuf_queue_init = \<lparr>q_head = NULL, q_tail = NULL, q_len = 0\<rparr>"

definition adf_nbuf_queue_add :: "nbuf_qhead \<Rightarrow> addr \<Rightarrow> fw_mem \<Rightarrow> (nbuf_qhead \<times> fw_mem) option" where
  "adf_nbuf_queue_add qhead buf m = do {
     let qhead = qhead\<lparr>q_len := q_len qhead + 1\<rparr>;
     m \<leftarrow> upd_vbuf buf (next_buf_update (\<lambda>_. NULL)) m;
     (qhead, m) \<leftarrow>
       (if q_head qhead = NULL then Some (qhead\<lparr>q_head := buf\<rparr>, m)
        else do { m \<leftarrow> upd_vbuf (q_tail qhead) (next_buf_update (\<lambda>_. buf)) m; Some (qhead, m) });
     Some (qhead\<lparr>q_tail := buf\<rparr>, m) }"

definition adf_nbuf_queue_remove :: "nbuf_qhead \<Rightarrow> fw_mem \<Rightarrow> (addr \<times> nbuf_qhead \<times> fw_mem) option" where
  "adf_nbuf_queue_remove qhead m =
     (if q_head qhead \<noteq> NULL then do {
        let qhead = qhead\<lparr>q_len := q_len qhead - 1\<rparr>;
        let b0 = q_head qhead;
        qhead \<leftarrow>
          (if q_head qhead = q_tail qhead then Some (qhead\<lparr>q_head := NULL, q_tail := NULL\<rparr>)
           else do { b \<leftarrow> rd_vbuf m b0; Some (qhead\<lparr>q_head := next_buf b\<rparr>) });
        m \<leftarrow> upd_vbuf b0 (next_buf_update (\<lambda>_. NULL)) m;
        Some (b0, qhead, m) }
      else Some (NULL, qhead, m))"

definition adf_nbuf_queue_len :: "nbuf_qhead \<Rightarrow> u32" where
  "adf_nbuf_queue_len qhead = q_len qhead"

definition adf_nbuf_queue_first :: "nbuf_qhead \<Rightarrow> addr" where
  "adf_nbuf_queue_first qhead = q_head qhead"

definition adf_nbuf_queue_next :: "fw_mem \<Rightarrow> addr \<Rightarrow> addr option" where
  "adf_nbuf_queue_next m buf = do { b \<leftarrow> rd_vbuf m buf; Some (next_buf b) }"

definition adf_nbuf_is_queue_empty :: "nbuf_qhead \<Rightarrow> bool" where
  "adf_nbuf_is_queue_empty qhead \<longleftrightarrow> q_len qhead = 0"

section \<open>Merging and splitting\<close>

partial_function (option) frm_frag_loop ::
    "nbuf_qhead \<Rightarrow> u32 \<Rightarrow> u16 \<Rightarrow> addr \<Rightarrow> fw_mem \<Rightarrow> (nbuf_qhead \<times> u32 \<times> u16 \<times> fw_mem) option" where
  "frm_frag_loop qhead cnt total_len vdesc_prev m = do {
     (buf_tmp, qhead, m) \<leftarrow> adf_nbuf_queue_remove qhead m;
     if buf_tmp \<noteq> NULL then do {
       let cnt = cnt + 1;
       b \<leftarrow> rd_vbuf m buf_tmp;
       let total_len = total_len + buf_length b;
       m \<leftarrow> (if vdesc_prev \<noteq> NULL then upd_vdesc vdesc_prev (next_desc_update (\<lambda>_. desc_list b)) m
             else Some m);
       vdesc_prev \<leftarrow> desc_last m (desc_list b);
       m \<leftarrow> upd_vbuf buf_tmp (\<lambda>b. b\<lparr>desc_list := NULL, buf_length := 0\<rparr>) m;
       m \<leftarrow> vbuf_free_vbuf buf_tmp m;
       frm_frag_loop qhead cnt total_len vdesc_prev m }
     else Some (qhead, cnt, total_len, m) }"

definition adf_nbuf_create_frm_frag :: "nbuf_qhead \<Rightarrow> fw_mem \<Rightarrow> (addr \<times> nbuf_qhead \<times> fw_mem) option" where
  "adf_nbuf_create_frm_frag qhead m = do {
     let len = adf_nbuf_queue_len qhead;
     (buf_head, m) \<leftarrow> vbuf_alloc_vbuf m;
     let buf_tmp = adf_nbuf_queue_first qhead;
     require (buf_head \<noteq> NULL);
     require (buf_tmp \<noteq> NULL);
     b \<leftarrow> rd_vbuf m buf_tmp;
     m \<leftarrow> upd_vbuf buf_head (desc_list_update (\<lambda>_. desc_list b)) m;
     (qhead, cnt, total_len, m) \<leftarrow> frm_frag_loop qhead 0 0 NULL m;
     require (cnt = len);
     m \<leftarrow> upd_vbuf buf_head (buf_length_update (\<lambda>_. total_len)) m;
     Some (buf_head, qhead, m) }"

partial_function (option) split_loop :: "nbuf_qhead \<Rightarrow> addr \<Rightarrow> fw_mem \<Rightarrow> (nbuf_qhead \<times> fw_mem) option" where
  "split_loop qhead desc_tmp m =
     (if desc_tmp \<noteq> NULL then do {
        (buf_tmp, m) \<leftarrow> vbuf_alloc_vbuf m;
        require (buf_tmp \<noteq> NULL);
        d \<leftarrow> rd_vdesc m desc_tmp;
        m \<leftarrow> upd_vbuf buf_tmp (\<lambda>b. b\<lparr>desc_list := desc_tmp, buf_length := data_size d,
                                      next_buf := NULL\<rparr>) m;
        (qhead, m) \<leftarrow> adf_nbuf_queue_add qhead buf_tmp m;
        d \<leftarrow> rd_vdesc m desc_tmp;
        b \<leftarrow> rd_vbuf m buf_tmp;
        m \<leftarrow> upd_vdesc (desc_list b) (next_desc_update (\<lambda>_. NULL)) m;
        split_loop qhead (next_desc d) m }
      else Some (qhead, m))"

definition adf_nbuf_split_to_frag :: "addr \<Rightarrow> fw_mem \<Rightarrow> (nbuf_qhead \<times> fw_mem) option" where
  "adf_nbuf_split_to_frag buf m = do {
     b \<leftarrow> rd_vbuf m buf;
     (qhead, m) \<leftarrow> split_loop adf_nbuf_queue_init (desc_list b) m;
     m \<leftarrow> upd_vbuf buf (\<lambda>b. b\<lparr>desc_list := NULL, buf_length := 0\<rparr>) m;
     m \<leftarrow> vbuf_free_vbuf buf m;
     Some (qhead, m) }"

section \<open>Descriptor chains\<close>

lemma desc_last_chain:
  "chain (vd_next (vdescs m)) p xs \<Longrightarrow> xs \<noteq> [] \<Longrightarrow> desc_last m p = Some (last xs)"
proof (induction xs arbitrary: p)
  case (Cons x xs)
  then obtain d where d: "vdescs m x = Some d" "p = x" "x \<noteq> NULL" "chain (vd_next (vdescs m)) (next_desc d) xs"
    by (auto simp: chain_vd_Cons simp del: chain.simps(2))
  show ?case
  proof (cases "xs = []")
    case True
    then show ?thesis using d by (subst desc_last.simps) (simp add: rd_vdesc_def)
  next
    case False
    then have "next_desc d \<noteq> NULL" using d(4) by auto
    then show ?thesis using Cons.IH [OF d(4) False] d False
      by (subst desc_last.simps) (simp add: rd_vdesc_def)
  qed
qed simp

lemma frag_info_loop_chain:
  assumes "chain (vd_next (vdescs m)) p xs"
  shows "frag_info_loop n m p sg = (if length sg + length xs \<le> n \<or> xs = []
           then Some (sg @ map (\<lambda>x. case vdescs m x of Some d \<Rightarrow>
             (buf_addr d + ucast (data_offset d), data_size d) | None \<Rightarrow> (NULL, 0)) xs) else None)"
  using assms
proof (induction xs arbitrary: p sg)
  case Nil
  then show ?case by (subst frag_info_loop.simps) simp
next
  case (Cons x xs)
  then obtain d where d: "vdescs m x = Some d" "p = x" "x \<noteq> NULL" "chain (vd_next (vdescs m)) (next_desc d) xs"
    by (auto simp: chain_vd_Cons simp del: chain.simps(2))
  then show ?case using Cons.IH [OF d(4)]
    by (subst frag_info_loop.simps) (auto simp: rd_vdesc_def require_def)
qed

lemma chain_link:
  assumes "chain nx p xs" "chain nx q ys" "xs \<noteq> []" "set xs \<inter> set ys = {}"
  shows "chain (nx(last xs \<mapsto> q)) p (xs @ ys)"
  using assms
proof (induction xs arbitrary: p)
  case (Cons x xs)
  then obtain r where r: "nx x = Some r" "p = x" "x \<noteq> NULL" "chain nx r xs"
    by (auto split: option.splits)
  have ys: "chain (nx(last (x # xs) \<mapsto> q)) q ys"
    using Cons.prems(2,4) by (subst chain_fun_upd_notin) (auto dest: last_in_set)
  show ?case
  proof (cases "xs = []")
    case True
    then show ?thesis using r ys by (simp add: fun_upd_def)
  next
    case False
    then have "x \<noteq> last xs" using chain_distinct [OF Cons.prems(1)] by auto
    then show ?thesis using Cons.IH [OF r(4) Cons.prems(2) False] Cons.prems(4) r False by simp
  qed
qed simp


section \<open>Interface of a queue of buffers\<close>

text \<open>
  \<open>rep s q xs\<close>: in state \<open>s\<close> the queue head \<open>q\<close> stands for the buffers \<open>xs\<close>, first to last.
\<close>

fun queue_drain :: "('q \<Rightarrow> 's \<Rightarrow> (addr \<times> 'q \<times> 's) option) \<Rightarrow> nat \<Rightarrow> 'q \<Rightarrow> 's \<Rightarrow> (addr list \<times> 'q \<times> 's) option" where
  "queue_drain remove 0 q s = Some ([], q, s)"
| "queue_drain remove (Suc n) q s = do {
     (p, q, s) \<leftarrow> remove q s;
     (ps, q, s) \<leftarrow> queue_drain remove n q s;
     Some (p # ps, q, s) }"

fun queue_fill :: "('q \<Rightarrow> addr \<Rightarrow> 's \<Rightarrow> ('q \<times> 's) option) \<Rightarrow> addr list \<Rightarrow> 'q \<Rightarrow> 's \<Rightarrow> ('q \<times> 's) option" where
  "queue_fill add [] q s = Some (q, s)"
| "queue_fill add (p # ps) q s = do { (q, s) \<leftarrow> add q p s; queue_fill add ps q s }"

locale buf_queue =
  fixes rep :: "'s \<Rightarrow> 'q \<Rightarrow> addr list \<Rightarrow> bool"
    and add :: "'q \<Rightarrow> addr \<Rightarrow> 's \<Rightarrow> ('q \<times> 's) option"
    and remove :: "'q \<Rightarrow> 's \<Rightarrow> (addr \<times> 'q \<times> 's) option"
    and avail :: "'s \<Rightarrow> addr \<Rightarrow> bool"
  assumes add_law: "rep s q xs \<Longrightarrow> avail s x \<Longrightarrow> x \<notin> set xs \<Longrightarrow>
      \<exists>q' s'. add q x s = Some (q', s') \<and> rep s' q' (xs @ [x]) \<and> (\<forall>y. avail s y \<longrightarrow> avail s' y)"
    and remove_Nil: "rep s q [] \<Longrightarrow> remove q s = Some (NULL, q, s)"
    and remove_Cons: "rep s q (x # xs) \<Longrightarrow>
      \<exists>q' s'. remove q s = Some (x, q', s') \<and> rep s' q' xs \<and> (\<forall>y. avail s y \<longrightarrow> avail s' y)"
begin

lemma fill:
  assumes "rep s q xs" "\<forall>x\<in>set ys. avail s x" "distinct (xs @ ys)"
  shows "\<exists>q' s'. queue_fill add ys q s = Some (q', s') \<and> rep s' q' (xs @ ys)"
  using assms
proof (induction ys arbitrary: s q xs)
  case Nil
  then show ?case by auto
next
  case (Cons y ys)
  then obtain q1 s1 where 1: "add q y s = Some (q1, s1)" "rep s1 q1 (xs @ [y])" "\<forall>z. avail s z \<longrightarrow> avail s1 z"
    using add_law [of s q xs y] by auto
  then have "\<forall>x\<in>set ys. avail s1 x" "distinct ((xs @ [y]) @ ys)" using Cons.prems by auto
  from Cons.IH [OF 1(2) this] show ?case using 1(1) by auto
qed

lemma drain:
  assumes "rep s q xs" "n \<le> length xs"
  shows "\<exists>q' s'. queue_drain remove n q s = Some (take n xs, q', s') \<and> rep s' q' (drop n xs)"
  using assms
proof (induction n arbitrary: s q xs)
  case 0
  then show ?case by auto
next
  case (Suc n)
  then obtain x ys where xs: "xs = x # ys" by (cases xs) auto
  with Suc.prems obtain q1 s1 where 1: "remove q s = Some (x, q1, s1)" "rep s1 q1 ys"
    using remove_Cons [of s q x ys] by auto
  from Suc.IH [OF 1(2)] show ?case using Suc.prems(2) 1(1) xs by auto
qed

lemma fifo:
  assumes "rep s q []" "\<forall>x\<in>set ys. avail s x" "distinct ys"
  shows "\<exists>q1 s1 q2 s2. queue_fill add ys q s = Some (q1, s1) \<and>
           queue_drain remove (length ys) q1 s1 = Some (ys, q2, s2) \<and> rep s2 q2 []"
proof -
  from fill [OF assms(1,2)] assms(3) obtain q1 s1 where
    1: "queue_fill add ys q s = Some (q1, s1)" "rep s1 q1 ys" by auto
  from drain [OF 1(2) order.refl] 1(1) show ?thesis by auto
qed

end

section \<open>The linked queue satisfies the interface\<close>

definition nbuf_queue :: "fw_mem \<Rightarrow> nbuf_qhead \<Rightarrow> addr list \<Rightarrow> bool" where
  "nbuf_queue m q xs \<longleftrightarrow> chain (vb_next (vbufs m)) (q_head q) xs \<and>
     q_tail q = (if xs = [] then NULL else last xs) \<and> q_len q = of_nat (length xs)"

lemma nbuf_queue_init: "nbuf_queue m adf_nbuf_queue_init []"
  by (simp add: nbuf_queue_def adf_nbuf_queue_init_def)

lemma nbuf_queue_at: "nbuf_queue m q xs \<Longrightarrow> x \<in> set xs \<Longrightarrow> vbuf_at m x"
  using chain_dom [of "vb_next (vbufs m)" _ xs x] chain_not_NULL [of "vb_next (vbufs m)" _ xs]
  by (auto simp: nbuf_queue_def vbuf_at_def vb_next_def)

text \<open>What a removal does to the memory: only the link of the removed header changes.\<close>

lemma queue_remove_Cons:
  assumes "nbuf_queue m q (x # xs)"
  shows "\<exists>v q'. vbufs m x = Some v \<and> x \<noteq> NULL \<and> x \<notin> set xs \<and>
    adf_nbuf_queue_remove q m = Some (x, q', m\<lparr>vbufs := (vbufs m)(x \<mapsto> v\<lparr>next_buf := NULL\<rparr>)\<rparr>) \<and>
    nbuf_queue (m\<lparr>vbufs := (vbufs m)(x \<mapsto> v\<lparr>next_buf := NULL\<rparr>)\<rparr>) q' xs"
proof -
  from assms obtain v where v: "vbufs m x = Some v" "q_head q = x" "x \<noteq> NULL"
    "chain (vb_next (vbufs m)) (next_buf v) xs" "q_tail q = last (x # xs)" "q_len q = of_nat (length xs) + 1"
    by (auto simp: nbuf_queue_def vb_next_def split: option.splits)
  have d: "x \<notin> set xs"
    using assms chain_distinct [of "vb_next (vbufs m)" _ "x # xs"] by (auto simp: nbuf_queue_def)
  show ?thesis
  proof (cases "xs = []")
    case True
    then show ?thesis
      using v by (simp add: adf_nbuf_queue_remove_def nbuf_queue_def rd_vbuf_def upd_vbuf_def)
  next
    case False
    then have "q_head q \<noteq> q_tail q" using v d by auto
    then show ?thesis
      using v d False
      by (simp add: adf_nbuf_queue_remove_def nbuf_queue_def rd_vbuf_def upd_vbuf_def chain_fun_upd_notin)
  qed
qed

lemma queue_add_snoc:
  assumes "nbuf_queue m q xs" "vbuf_at m x" "x \<notin> set xs"
  shows "\<exists>q' bs. adf_nbuf_queue_add q x m = Some (q', m\<lparr>vbufs := bs\<rparr>) \<and>
    nbuf_queue (m\<lparr>vbufs := bs\<rparr>) q' (xs @ [x]) \<and>
    (\<forall>y. map_option (next_buf_update (\<lambda>_. NULL)) (bs y) =
         map_option (next_buf_update (\<lambda>_. NULL)) (vbufs m y)) \<and>
    (\<forall>y. y \<notin> set (xs @ [x]) \<longrightarrow> bs y = vbufs m y)"
proof -
  obtain v where v: "vbufs m x = Some v" "x \<noteq> NULL" using assms(2) by (auto simp: vbuf_at_def)
  show ?thesis
  proof (cases "xs = []")
    case True
    then show ?thesis
      using v assms(1)
      by (intro exI [of _ "q\<lparr>q_len := 1, q_head := x, q_tail := x\<rparr>"]
          exI [of _ "(vbufs m)(x \<mapsto> v\<lparr>next_buf := NULL\<rparr>)"])
        (auto simp: adf_nbuf_queue_add_def nbuf_queue_def rd_vbuf_def upd_vbuf_def)
  next
    case False
    let ?l = "last xs"
    have l: "?l \<in> set xs" "?l \<noteq> x" "q_tail q = ?l" "q_head q \<noteq> NULL"
      using False assms by (auto simp: nbuf_queue_def)
    then obtain w where w: "vbufs m ?l = Some w" "?l \<noteq> NULL"
      using nbuf_queue_at [OF assms(1) l(1)] by (auto simp: vbuf_at_def)
    let ?bs = "(vbufs m)(x \<mapsto> v\<lparr>next_buf := NULL\<rparr>, ?l \<mapsto> w\<lparr>next_buf := x\<rparr>)"
    have "chain (vb_next ?bs) (q_head q) (xs @ [x])"
      using chain_snoc [of "vb_next (vbufs m)" "q_head q" xs x] assms(1,3) False v(2)
      by (simp add: nbuf_queue_def)
    then show ?thesis
      using v w l False assms(1)
      by (intro exI [of _ "q\<lparr>q_len := q_len q + 1, q_tail := x\<rparr>"] exI [of _ ?bs])
        (auto simp: adf_nbuf_queue_add_def nbuf_queue_def rd_vbuf_def upd_vbuf_def)
  qed
qed

interpretation nbufq: buf_queue nbuf_queue adf_nbuf_queue_add adf_nbuf_queue_remove vbuf_at
proof unfold_locales
  show "\<exists>q' m'. adf_nbuf_queue_add q x m = Some (q', m') \<and> nbuf_queue m' q' (xs @ [x]) \<and>
      (\<forall>y. vbuf_at m y \<longrightarrow> vbuf_at m' y)"
    if "nbuf_queue m q xs" "vbuf_at m x" "x \<notin> set xs" for m q xs x
  proof -
    from queue_add_snoc [OF that] obtain q' bs where
      "adf_nbuf_queue_add q x m = Some (q', m\<lparr>vbufs := bs\<rparr>)" "nbuf_queue (m\<lparr>vbufs := bs\<rparr>) q' (xs @ [x])"
      "\<forall>y. map_option (next_buf_update (\<lambda>_. NULL)) (bs y) =
         map_option (next_buf_update (\<lambda>_. NULL)) (vbufs m y)"
      by blast
    moreover from this(3) have "\<forall>y. vbuf_at m y \<longrightarrow> vbuf_at (m\<lparr>vbufs := bs\<rparr>) y"
      by (simp add: vbuf_at_def) (metis option.map_disc_iff option.distinct(1) not_Some_eq)
    ultimately show ?thesis by blast
  qed
  show "adf_nbuf_queue_remove q m = Some (NULL, q, m)" if "nbuf_queue m q []" for m q
    using that by (simp add: nbuf_queue_def adf_nbuf_queue_remove_def)
  show "\<exists>q' m'. adf_nbuf_queue_remove q m = Some (x, q', m') \<and> nbuf_queue m' q' xs \<and>
      (\<forall>y. vbuf_at m y \<longrightarrow> vbuf_at m' y)" if "nbuf_queue m q (x # xs)" for m q x xs
    using queue_remove_Cons [OF that] by (auto simp: vbuf_at_def)
qed


section \<open>Merging a queue of buffers into one\<close>

definition nbuf_descs :: "fw_mem \<Rightarrow> addr \<Rightarrow> addr list \<Rightarrow> bool" where
  "nbuf_descs m b ds \<longleftrightarrow> (case vbufs m b of None \<Rightarrow> False
     | Some v \<Rightarrow> chain (vd_next (vdescs m)) (desc_list v) ds)"

definition nbuf_length :: "fw_mem \<Rightarrow> addr \<Rightarrow> u16" where
  "nbuf_length m b = (case vbufs m b of None \<Rightarrow> 0 | Some v \<Rightarrow> buf_length v)"

text \<open>The descriptor maps agree in everything but the links.\<close>

definition same_data :: "fw_mem \<Rightarrow> fw_mem \<Rightarrow> bool" where
  "same_data m m' \<longleftrightarrow> bytes m' = bytes m \<and>
     (\<forall>x. map_option (next_desc_update (\<lambda>_. NULL)) (vdescs m' x) =
          map_option (next_desc_update (\<lambda>_. NULL)) (vdescs m x))"

lemma same_data_refl [simp]: "same_data m m"
  by (simp add: same_data_def)

lemma same_data_trans: "same_data m m' \<Longrightarrow> same_data m' m'' \<Longrightarrow> same_data m m''"
  by (simp add: same_data_def)

text \<open>The memory after one turn of the merging loop has taken buffer \<open>x\<close>.\<close>

definition link_desc :: "addr \<Rightarrow> addr \<Rightarrow> (addr \<rightharpoonup> VDESC) \<Rightarrow> addr \<rightharpoonup> VDESC" where
  "link_desc prev t ds = (if prev = NULL then ds else
     case ds prev of None \<Rightarrow> ds | Some d \<Rightarrow> ds(prev \<mapsto> d\<lparr>next_desc := t\<rparr>))"

lemma link_desc_chain: "prev \<notin> set xs \<Longrightarrow> chain (vd_next (link_desc prev t ds)) p xs = chain (vd_next ds) p xs"
  by (simp add: link_desc_def chain_fun_upd_notin split: option.split)

definition frag_taken :: "addr \<Rightarrow> VBUF \<Rightarrow> addr \<Rightarrow> fw_mem \<Rightarrow> fw_mem" where
  "frag_taken x v prev m =
     m\<lparr>vdescs := link_desc prev (desc_list v) (vdescs m),
       vbufs := (vbufs m)(x \<mapsto> v\<lparr>desc_list := NULL, buf_length := 0, next_buf := free_buf_head m\<rparr>),
       free_buf_head := x, nVbufNum := nVbufNum m + 1\<rparr>"

lemma frm_frag_step:
  assumes "nbuf_queue m q (x # bs)" "vbufs m x = Some v" "chain (vd_next (vdescs m)) (desc_list v) ds" "ds \<noteq> []"
    "prev = NULL \<or> (\<exists>d. vdescs m prev = Some d \<and> prev \<notin> set ds)"
  shows "\<exists>q'. frm_frag_loop q cnt tot prev m =
      frm_frag_loop q' (cnt + 1) (tot + buf_length v) (last ds) (frag_taken x v prev m) \<and>
    nbuf_queue (frag_taken x v prev m) q' bs"
proof -
  from queue_remove_Cons [OF assms(1)] assms(2) obtain q' where
    q': "x \<noteq> NULL" "x \<notin> set bs"
      "adf_nbuf_queue_remove q m = Some (x, q', m\<lparr>vbufs := (vbufs m)(x \<mapsto> v\<lparr>next_buf := NULL\<rparr>)\<rparr>)"
      "nbuf_queue (m\<lparr>vbufs := (vbufs m)(x \<mapsto> v\<lparr>next_buf := NULL\<rparr>)\<rparr>) q' bs"
    by auto
  let ?m1 = "m\<lparr>vbufs := (vbufs m)(x \<mapsto> v\<lparr>next_buf := NULL\<rparr>)\<rparr>"
  let ?ds = "link_desc prev (desc_list v) (vdescs m)"
  have link: "(if prev \<noteq> NULL then upd_vdesc prev (next_desc_update (\<lambda>_. desc_list v)) ?m1 else Some ?m1)
      = Some (?m1\<lparr>vdescs := ?ds\<rparr>)"
    using assms(5) by (auto simp: link_desc_def upd_vdesc_def rd_vdesc_def)
  have np: "prev \<notin> set ds" using assms(5) chain_not_NULL [OF assms(3)] by auto
  have last: "desc_last (?m1\<lparr>vdescs := ?ds\<rparr>) (desc_list v) = Some (last ds)"
    using assms(3,4) np by (intro desc_last_chain) (simp_all add: link_desc_chain)
  have "nbuf_queue (frag_taken x v prev m) q' bs"
    using q'(2,4) by (simp add: nbuf_queue_def frag_taken_def chain_fun_upd_notin)
  moreover have "frm_frag_loop q cnt tot prev m =
      frm_frag_loop q' (cnt + 1) (tot + buf_length v) (last ds) (frag_taken x v prev m)"
    using q'(1,3) link last
    by (subst frm_frag_loop.simps)
      (simp add: rd_vbuf_def upd_vbuf_def vbuf_free_vbuf_def frag_taken_def cong: if_cong split del: if_split)
  ultimately show ?thesis by blast
qed

lemma frag_taken_pool:
  assumes "vbuf_pool m fs" "vbufs m x = Some v" "x \<noteq> NULL" "x \<notin> set fs"
  shows "vbuf_pool (frag_taken x v prev m) (x # fs)"
  using assms by (simp add: vbuf_pool_def frag_taken_def chain_fun_upd_notin)

lemma frag_taken_same_data: "same_data m (frag_taken x v prev m)"
  by (auto simp: same_data_def frag_taken_def link_desc_def split: option.splits)

lemma frag_taken_chain:
  assumes "chain (vd_next (vdescs m)) p ds" "prev \<notin> set ds"
  shows "chain (vd_next (vdescs (frag_taken x v prev m))) p ds"
  using assms by (simp add: frag_taken_def link_desc_chain)

lemma frag_taken_descs:
  assumes "nbuf_descs m b ds" "b \<noteq> x" "prev \<notin> set ds"
  shows "nbuf_descs (frag_taken x v prev m) b ds"
  using assms by (auto simp: nbuf_descs_def frag_taken_def link_desc_chain split: option.splits)

lemma frag_taken_link:
  assumes "chain (vd_next (vdescs m)) h done" "done \<noteq> []" "chain (vd_next (vdescs m)) (desc_list v) ds"
    "set done \<inter> set ds = {}"
  shows "chain (vd_next (vdescs (frag_taken x v (last done) m))) h (done @ ds)"
proof -
  have "last done \<in> set done" using assms(2) by simp
  then obtain d where "vdescs m (last done) = Some d" "last done \<noteq> NULL"
    using chain_dom [OF assms(1)] chain_not_NULL [OF assms(1)] by (fastforce simp: vd_next_def)
  then show ?thesis using chain_link [OF assms(1,3,2,4)] by (simp add: frag_taken_def link_desc_def)
qed


lemma frm_frag_loop_merges:
  assumes "nbuf_queue m q bs" "vbuf_pool m fs" "set bs \<inter> set fs = {}"
    "list_all2 (nbuf_descs m) bs dss" "[] \<notin> set dss" "distinct (done @ concat dss)"
    "if done = [] then dss \<noteq> [] \<longrightarrow> h = hd (hd dss) else chain (vd_next (vdescs m)) h done"
    "prev = (if done = [] then NULL else last done)"
  shows "\<exists>q' m'. frm_frag_loop q cnt tot prev m =
      Some (q', cnt + of_nat (length bs), tot + (\<Sum>b\<leftarrow>bs. nbuf_length m b), m') \<and>
    nbuf_queue m' q' [] \<and> vbuf_pool m' (rev bs @ fs) \<and>
    (done @ concat dss \<noteq> [] \<longrightarrow> chain (vd_next (vdescs m')) h (done @ concat dss)) \<and>
    (\<forall>x. x \<notin> set bs \<longrightarrow> vbufs m' x = vbufs m x) \<and> same_data m m'"
  using assms
proof (induction bs arbitrary: m q fs dss "done" prev cnt tot)
  case Nil
  then show ?case
    using nbufq.remove_Nil [OF Nil.prems(1)] by (subst frm_frag_loop.simps) auto
next
  case (Cons x bs)
  from Cons.prems(4) obtain ds dss' where dss: "dss = ds # dss'" "nbuf_descs m x ds"
    "list_all2 (nbuf_descs m) bs dss'" by (auto simp: list_all2_Cons1)
  then obtain v where v: "vbufs m x = Some v" "chain (vd_next (vdescs m)) (desc_list v) ds"
    by (auto simp: nbuf_descs_def split: option.splits)
  have ne: "ds \<noteq> []" "[] \<notin> set dss'" using Cons.prems(5) dss(1) by auto
  have at: "x \<noteq> NULL" "x \<notin> set bs"
    using queue_remove_Cons [OF Cons.prems(1)] by auto
  let ?m = "frag_taken x v prev m"
  have prev: "prev = NULL \<or> (prev \<in> set done \<and> (\<exists>d. vdescs m prev = Some d))"
    using Cons.prems(7,8) chain_dom [of "vd_next (vdescs m)" h "done"]
    by (auto simp: vd_next_def split: if_splits dest: last_in_set)
  have "prev = NULL \<or> (\<exists>d. vdescs m prev = Some d \<and> prev \<notin> set ds)"
    using prev Cons.prems(6) dss(1) by auto
  from frm_frag_step [OF Cons.prems(1) v ne(1) this] obtain q' where
    q': "frm_frag_loop q cnt tot prev m =
      frm_frag_loop q' (cnt + 1) (tot + buf_length v) (last ds) ?m" "nbuf_queue ?m q' bs" by blast
  have pool: "vbuf_pool ?m (x # fs)"
    using Cons.prems(2,3) v at by (intro frag_taken_pool) auto
  have keep: "\<And>b es. b \<in> set bs \<Longrightarrow> es \<in> set dss' \<Longrightarrow> nbuf_descs m b es \<Longrightarrow> nbuf_descs ?m b es"
  proof -
    fix b es assume b: "b \<in> set bs" "es \<in> set dss'" "nbuf_descs m b es"
    have "NULL \<notin> set es" using b(3) by (auto simp: nbuf_descs_def split: option.splits dest: chain_not_NULL)
    then have "prev \<notin> set es" using prev Cons.prems(6) dss(1) b(2) by auto
    then show "nbuf_descs ?m b es" using b at by (intro frag_taken_descs) auto
  qed
  have all: "list_all2 (nbuf_descs ?m) bs dss'"
    by (rule list.rel_mono_strong [OF dss(3)]) (rule keep)
  have head: "chain (vd_next (vdescs ?m)) h (done @ ds)"
  proof (cases "done = []")
    case True
    then have "h = desc_list v" using Cons.prems(7) dss(1) ne(1) v(2) by (cases ds) auto
    then show ?thesis using True v(2) Cons.prems(8) by (simp add: frag_taken_def link_desc_def)
  next
    case False
    moreover have "set done \<inter> set ds = {}" using Cons.prems(6) dss(1) by auto
    ultimately show ?thesis using frag_taken_link [OF _ False v(2)] Cons.prems(7,8) by simp
  qed
  have "nbuf_length ?m b = nbuf_length m b" if "b \<in> set bs" for b
    using that at by (auto simp: nbuf_length_def frag_taken_def)
  then have sum: "(\<Sum>b\<leftarrow>bs. nbuf_length ?m b) = (\<Sum>b\<leftarrow>bs. nbuf_length m b)"
    by (simp cong: map_cong)
  have d: "set bs \<inter> set (x # fs) = {}" using Cons.prems(3) at by auto
  have e: "distinct ((done @ ds) @ concat dss')" using Cons.prems(6) dss(1) by simp
  have f: "if done @ ds = [] then dss' \<noteq> [] \<longrightarrow> h = hd (hd dss') else chain (vd_next (vdescs ?m)) h (done @ ds)"
    using head ne(1) by simp
  have g: "last ds = (if done @ ds = [] then NULL else last (done @ ds))"
    using ne(1) by simp
  have ne': "(done @ ds) @ concat dss' \<noteq> []" using ne(1) by simp
  from Cons.IH [OF q'(2) pool d all ne(2) e f g, of "cnt + 1" "tot + buf_length v"] ne'
  obtain q2 m2 where 2: "frm_frag_loop q' (cnt + 1) (tot + buf_length v) (last ds) ?m =
      Some (q2, cnt + 1 + of_nat (length bs), tot + buf_length v + (\<Sum>b\<leftarrow>bs. nbuf_length ?m b), m2)"
    "nbuf_queue m2 q2 []" "vbuf_pool m2 (rev bs @ x # fs)"
    "chain (vd_next (vdescs m2)) h ((done @ ds) @ concat dss')"
    "\<forall>y. y \<notin> set bs \<longrightarrow> vbufs m2 y = vbufs ?m y" "same_data ?m m2"
    by blast
  have "\<forall>y. y \<notin> set (x # bs) \<longrightarrow> vbufs m2 y = vbufs m y"
    using 2(5) by (simp add: frag_taken_def)
  moreover have "same_data m m2" using 2(6) frag_taken_same_data same_data_trans by blast
  ultimately show ?case
    using q'(1) 2(1-4) v(1) by (simp add: sum dss(1) nbuf_length_def [of m x] add.assoc)
qed


lemma nbuf_queue_upd_other:
  "x \<notin> set xs \<Longrightarrow> vbufs m' = (vbufs m)(x \<mapsto> v) \<Longrightarrow> nbuf_queue m' q xs = nbuf_queue m q xs"
  by (simp add: nbuf_queue_def chain_fun_upd_notin)

lemma create_frm_frag_merges:
  assumes "nbuf_queue m q bs" "bs \<noteq> []" "vbuf_pool m (f # fs)" "set bs \<inter> set (f # fs) = {}"
    "list_all2 (nbuf_descs m) bs dss" "[] \<notin> set dss" "distinct (concat dss)"
  shows "\<exists>q' m'. adf_nbuf_create_frm_frag q m = Some (f, q', m') \<and> nbuf_queue m' q' [] \<and>
    vbuf_pool m' (rev bs @ fs) \<and> nbuf_descs m' f (concat dss) \<and>
    nbuf_length m' f = (\<Sum>b\<leftarrow>bs. nbuf_length m b) \<and> same_data m m'"
proof -
  from vbuf_alloc_Cons [OF assms(3)] obtain v where v: "vbufs m f = Some v" "f \<noteq> NULL" "f \<notin> set fs"
    "vbuf_alloc_vbuf m = Some (f, m\<lparr>nVbufNum := nVbufNum m - 1, free_buf_head := next_buf v,
        vbufs := (vbufs m)(f \<mapsto> v\<lparr>next_buf := NULL\<rparr>)\<rparr>)"
    "vbuf_pool (m\<lparr>nVbufNum := nVbufNum m - 1, free_buf_head := next_buf v,
        vbufs := (vbufs m)(f \<mapsto> v\<lparr>next_buf := NULL\<rparr>)\<rparr>) fs"
    by blast
  obtain b bs' where bs: "bs = b # bs'" using assms(2) by (cases bs) auto
  then obtain ds dss' where dss: "dss = ds # dss'" "nbuf_descs m b ds" using assms(5) by (auto simp: list_all2_Cons1)
  then obtain w where w: "vbufs m b = Some w" "chain (vd_next (vdescs m)) (desc_list w) ds"
    by (auto simp: nbuf_descs_def split: option.splits)
  have ds: "ds \<noteq> []" using assms(6) dss(1) by auto
  then have h: "desc_list w = hd (hd dss)" using w(2) dss(1) by (cases ds) auto
  have qb: "q_head q = b" "b \<noteq> NULL" "q_len q = of_nat (length bs)"
    using assms(1) by (auto simp: nbuf_queue_def bs)
  have fb: "f \<noteq> b" "f \<notin> set bs" using assms(4) bs by auto
  let ?m = "m\<lparr>nVbufNum := nVbufNum m - 1, free_buf_head := next_buf v,
        vbufs := (vbufs m)(f \<mapsto> v\<lparr>next_buf := NULL, desc_list := desc_list w\<rparr>)\<rparr>"
  have q: "nbuf_queue ?m q bs" using assms(1) fb(2) nbuf_queue_upd_other by simp
  have pool: "vbuf_pool ?m fs" using v(3,5) by (simp add: vbuf_pool_def)
  have len: "nbuf_length ?m x = nbuf_length m x" "nbuf_descs ?m x es = nbuf_descs m x es" if "x \<in> set bs" for x es
    using that fb(2) by (auto simp: nbuf_length_def nbuf_descs_def split: option.splits)
  have all: "list_all2 (nbuf_descs ?m) bs dss"
    by (rule list.rel_mono_strong [OF assms(5)]) (simp add: len)
  have d: "set bs \<inter> set fs = {}" "distinct ([] @ concat dss)" using assms(4,7) by auto
  have h': "if ([] :: addr list) = [] then dss \<noteq> [] \<longrightarrow> desc_list w = hd (hd dss)
      else chain (vd_next (vdescs ?m)) (desc_list w) []" using h by simp
  have sum: "(\<Sum>x\<leftarrow>bs. nbuf_length ?m x) = (\<Sum>x\<leftarrow>bs. nbuf_length m x)"
    using len(1) by (simp cong: map_cong)
  from frm_frag_loop_merges [OF q pool d(1) all assms(6) d(2) h', of NULL 0 0] ds dss(1)
  obtain q' m' where m': "frm_frag_loop q 0 0 NULL ?m =
      Some (q', of_nat (length bs), (\<Sum>x\<leftarrow>bs. nbuf_length m x), m')"
    "nbuf_queue m' q' []" "vbuf_pool m' (rev bs @ fs)" "chain (vd_next (vdescs m')) (desc_list w) (concat dss)"
    "\<forall>x. x \<notin> set bs \<longrightarrow> vbufs m' x = vbufs ?m x" "same_data ?m m'"
    by (auto simp: sum)
  have mf: "vbufs m' f = Some (v\<lparr>next_buf := NULL, desc_list := desc_list w\<rparr>)"
    using m'(5) fb(2) by simp
  let ?m' = "m'\<lparr>vbufs := (vbufs m')(f \<mapsto> v\<lparr>next_buf := NULL, desc_list := desc_list w,
      buf_length := (\<Sum>x\<leftarrow>bs. nbuf_length m x)\<rparr>)\<rparr>"
  have run: "adf_nbuf_create_frm_frag q m = Some (f, q', ?m')"
    using v(1,2,4) w(1) qb fb m'(1) mf
    by (simp add: adf_nbuf_create_frm_frag_def adf_nbuf_queue_len_def adf_nbuf_queue_first_def require_def
        rd_vbuf_def upd_vbuf_def)
  have "vbuf_pool ?m' (rev bs @ fs)" using m'(3) v(3) fb(2) by (simp add: vbuf_pool_def chain_fun_upd_notin)
  moreover have "same_data m ?m'" using m'(6) by (simp add: same_data_def)
  ultimately show ?thesis using run m'(2,4) by (simp add: nbuf_queue_def nbuf_descs_def nbuf_length_def)
qed

section \<open>Splitting a buffer into its descriptors\<close>

definition desc_size :: "fw_mem \<Rightarrow> addr \<Rightarrow> u16" where
  "desc_size m d = (case vdescs m d of None \<Rightarrow> 0 | Some v \<Rightarrow> data_size v)"

lemma same_data_desc_size: "same_data m m' \<Longrightarrow> desc_size m' d = desc_size m d"
proof -
  assume "same_data m m'"
  then have "map_option (next_desc_update (\<lambda>_. NULL)) (vdescs m' d) =
      map_option (next_desc_update (\<lambda>_. NULL)) (vdescs m d)" by (simp add: same_data_def)
  then show ?thesis
    by (cases "vdescs m' d"; cases "vdescs m d") (auto simp: desc_size_def dest: arg_cong [of _ _ data_size])
qed

text \<open>The headers agree in everything but the links.\<close>

definition same_link :: "VBUF option \<Rightarrow> VBUF option \<Rightarrow> bool" where
  "same_link a b \<longleftrightarrow> map_option (next_buf_update (\<lambda>_. NULL)) a = map_option (next_buf_update (\<lambda>_. NULL)) b"

lemma same_link_refl [simp]: "same_link a a" by (simp add: same_link_def)

lemma next_buf_cleared: "u\<lparr>next_buf := n\<rparr> = v\<lparr>next_buf := n\<rparr> \<Longrightarrow>
    desc_list u = desc_list v \<and> buf_length u = buf_length v"
  by (cases u, cases v) simp

lemma same_link_fields:
  assumes "same_link a (Some v)"
  obtains u where "a = Some u" "desc_list u = desc_list v" "buf_length u = buf_length v"
  using assms by (cases a) (auto simp: same_link_def dest: next_buf_cleared)

lemma split_step:
  assumes "nbuf_queue m q xs" "vbuf_pool m (f # fs)" "f \<notin> set xs" "set xs \<inter> set fs = {}"
    "chain (vd_next (vdescs m)) p (d # ds)"
  shows "\<exists>q' m' n. split_loop q p m = split_loop q' n m' \<and>
    nbuf_queue m' q' (xs @ [f]) \<and> vbuf_pool m' fs \<and> chain (vd_next (vdescs m')) n ds \<and>
    (\<forall>y. y \<noteq> f \<longrightarrow> same_link (vbufs m' y) (vbufs m y)) \<and> (\<forall>y. y \<notin> set xs \<longrightarrow> y \<noteq> f \<longrightarrow> vbufs m' y = vbufs m y) \<and>
    (\<forall>y. y \<noteq> d \<longrightarrow> vdescs m' y = vdescs m y) \<and> nbuf_descs m' f [d] \<and> nbuf_length m' f = desc_size m d \<and>
    same_data m m'"
proof -
  from vbuf_alloc_Cons [OF assms(2)] obtain v where v: "vbufs m f = Some v" "f \<noteq> NULL" "f \<notin> set fs"
    "vbuf_alloc_vbuf m = Some (f, m\<lparr>nVbufNum := nVbufNum m - 1, free_buf_head := next_buf v,
        vbufs := (vbufs m)(f \<mapsto> v\<lparr>next_buf := NULL\<rparr>)\<rparr>)"
    "vbuf_pool (m\<lparr>nVbufNum := nVbufNum m - 1, free_buf_head := next_buf v,
        vbufs := (vbufs m)(f \<mapsto> v\<lparr>next_buf := NULL\<rparr>)\<rparr>) fs"
    by blast
  from assms(5) obtain D where D: "p = d" "d \<noteq> NULL" "vdescs m d = Some D"
    "chain (vd_next (vdescs m)) (next_desc D) ds"
    by (auto simp: chain_vd_Cons simp del: chain.simps(2))
  have dn: "d \<notin> set ds" using chain_distinct [OF assms(5)] by simp
  let ?f = "v\<lparr>desc_list := d, buf_length := data_size D, next_buf := NULL\<rparr>"
  let ?m = "m\<lparr>nVbufNum := nVbufNum m - 1, free_buf_head := next_buf v, vbufs := (vbufs m)(f \<mapsto> ?f)\<rparr>"
  have q: "nbuf_queue ?m q xs" using assms(1,3) nbuf_queue_upd_other by simp
  have "vbuf_at ?m f" using v(2) by (simp add: vbuf_at_def)
  from queue_add_snoc [OF q this assms(3)] obtain q' bs where
    b: "adf_nbuf_queue_add q f ?m = Some (q', ?m\<lparr>vbufs := bs\<rparr>)" "nbuf_queue (?m\<lparr>vbufs := bs\<rparr>) q' (xs @ [f])"
      "\<forall>y. same_link (bs y) (vbufs ?m y)" "\<forall>y. y \<notin> set (xs @ [f]) \<longrightarrow> bs y = vbufs ?m y"
    unfolding same_link_def by blast
  from b(3) have "same_link (bs f) (vbufs ?m f)" by blast
  then have "same_link (bs f) (Some ?f)" by simp
  then obtain u where u: "bs f = Some u" "desc_list u = d" "buf_length u = data_size D"
    by (rule same_link_fields) simp
  let ?m' = "?m\<lparr>vbufs := bs, vdescs := (vdescs m)(d \<mapsto> D\<lparr>next_desc := NULL\<rparr>)\<rparr>"
  have run: "split_loop q p m = split_loop q' (next_desc D) ?m'"
    using v(1,2,4) D b(1) u
    by (subst split_loop.simps) (simp add: require_def rd_vbuf_def upd_vbuf_def rd_vdesc_def upd_vdesc_def)
  have "chain (vb_next bs) (next_buf v) fs"
  proof -
    have "chain (vb_next bs) (next_buf v) fs = chain (vb_next (vbufs m)) (next_buf v) fs"
      using b(4) assms(4) v(3) by (intro chain_cong) (auto simp: vb_next_def)
    then show ?thesis using v(3,5) by (simp add: vbuf_pool_def chain_fun_upd_notin)
  qed
  then have pool: "vbuf_pool ?m' fs" using v(5) by (simp add: vbuf_pool_def)
  have "same_data m ?m'" using D(3) by (simp add: same_data_def)
  moreover have "nbuf_descs ?m' f [d]" using u D(2) by (simp add: nbuf_descs_def)
  moreover have "nbuf_length ?m' f = desc_size m d" using u D(3) by (simp add: nbuf_length_def desc_size_def)
  moreover have "chain (vd_next (vdescs ?m')) (next_desc D) ds" using D(4) dn by (simp add: chain_fun_upd_notin)
  moreover have "\<forall>y. y \<noteq> f \<longrightarrow> same_link (vbufs ?m' y) (vbufs m y)"
    using b(3) by (auto dest: spec split: if_splits)
  moreover have "nbuf_queue ?m' q' (xs @ [f])" using b(2) by (simp add: nbuf_queue_def)
  ultimately show ?thesis using run pool b(4) by (intro exI conjI) auto
qed


lemma same_link_descs:
  assumes "same_link (vbufs m' y) (vbufs m y)" "nbuf_descs m y [d]" "vdescs m' d = vdescs m d"
  shows "nbuf_descs m' y [d]" "nbuf_length m' y = nbuf_length m y"
proof -
  from assms(2) obtain v where v: "vbufs m y = Some v" "chain (vd_next (vdescs m)) (desc_list v) [d]"
    by (auto simp: nbuf_descs_def split: option.splits)
  from assms(1) obtain u where u: "vbufs m' y = Some u" "desc_list u = desc_list v" "buf_length u = buf_length v"
    unfolding v(1) by (rule same_link_fields)
  show "nbuf_descs m' y [d]" using v(2) u assms(3) by (simp add: nbuf_descs_def chain_vd_Cons del: chain.simps(2))
  show "nbuf_length m' y = nbuf_length m y" using v(1) u by (simp add: nbuf_length_def)
qed

lemma split_loop_fragments:
  assumes "nbuf_queue m q xs" "vbuf_pool m (fs @ gs)" "length fs = length ds" "set xs \<inter> set (fs @ gs) = {}"
    "chain (vd_next (vdescs m)) p ds"
  shows "\<exists>q' m'. split_loop q p m = Some (q', m') \<and> nbuf_queue m' q' (xs @ fs) \<and> vbuf_pool m' gs \<and>
    list_all2 (nbuf_descs m') fs (map (\<lambda>d. [d]) ds) \<and> map (nbuf_length m') fs = map (desc_size m) ds \<and>
    (\<forall>y. y \<notin> set fs \<longrightarrow> same_link (vbufs m' y) (vbufs m y)) \<and>
    (\<forall>y. y \<notin> set xs \<longrightarrow> y \<notin> set fs \<longrightarrow> vbufs m' y = vbufs m y) \<and>
    (\<forall>y. y \<notin> set ds \<longrightarrow> vdescs m' y = vdescs m y) \<and> same_data m m'"
  using assms
proof (induction ds arbitrary: m q xs fs p)
  case Nil
  then show ?case by (subst split_loop.simps) auto
next
  case (Cons d ds)
  from Cons.prems(3) obtain f fs' where fs: "fs = f # fs'" by (cases fs) auto
  have dist: "distinct (fs @ gs)" "d \<notin> set ds"
    using vbuf.content_nodes [OF Cons.prems(2)] chain_distinct [OF Cons.prems(5)] by auto
  have pool: "vbuf_pool m (f # (fs' @ gs))" using Cons.prems(2) fs by simp
  have fx: "f \<notin> set xs" "set xs \<inter> set (fs' @ gs) = {}" using Cons.prems(4) fs by auto
  from split_step [OF Cons.prems(1) pool fx Cons.prems(5)] obtain q1 m1 n where
    1: "split_loop q p m = split_loop q1 n m1" "nbuf_queue m1 q1 (xs @ [f])" "vbuf_pool m1 (fs' @ gs)"
      "chain (vd_next (vdescs m1)) n ds" "\<forall>y. y \<noteq> f \<longrightarrow> same_link (vbufs m1 y) (vbufs m y)"
      "\<forall>y. y \<notin> set xs \<longrightarrow> y \<noteq> f \<longrightarrow> vbufs m1 y = vbufs m y"
      "\<forall>y. y \<noteq> d \<longrightarrow> vdescs m1 y = vdescs m y" "nbuf_descs m1 f [d]" "nbuf_length m1 f = desc_size m d"
      "same_data m m1"
    by blast
  have "length fs' = length ds" "set (xs @ [f]) \<inter> set (fs' @ gs) = {}"
    using Cons.prems(3) fs fx dist(1) by auto
  from Cons.IH [OF 1(2,3) this 1(4)] obtain q2 m2 where
    2: "split_loop q1 n m1 = Some (q2, m2)" "nbuf_queue m2 q2 ((xs @ [f]) @ fs')" "vbuf_pool m2 gs"
      "list_all2 (nbuf_descs m2) fs' (map (\<lambda>d. [d]) ds)" "map (nbuf_length m2) fs' = map (desc_size m1) ds"
      "\<forall>y. y \<notin> set fs' \<longrightarrow> same_link (vbufs m2 y) (vbufs m1 y)"
      "\<forall>y. y \<notin> set (xs @ [f]) \<longrightarrow> y \<notin> set fs' \<longrightarrow> vbufs m2 y = vbufs m1 y"
      "\<forall>y. y \<notin> set ds \<longrightarrow> vdescs m2 y = vdescs m1 y" "same_data m1 m2"
    by blast
  have ff: "f \<notin> set fs'" using dist(1) fs by simp
  have f2: "nbuf_descs m2 f [d]" "nbuf_length m2 f = desc_size m d"
    using same_link_descs [of m2 f m1 d] 2(6,8) ff dist(2) 1(8,9) by auto
  have sd: "same_data m m2" using 1(10) 2(9) by (rule same_data_trans)
  have lens: "map (desc_size m1) ds = map (desc_size m) ds"
    using same_data_desc_size [OF 1(10)] by simp
  have link: "\<forall>y. y \<notin> set fs \<longrightarrow> same_link (vbufs m2 y) (vbufs m y)"
    using 1(5) 2(6) fs by (auto simp: same_link_def)
  have r1: "\<forall>y. y \<notin> set xs \<longrightarrow> y \<notin> set fs \<longrightarrow> vbufs m2 y = vbufs m y" using 1(6) 2(7) fs by auto
  have r2: "\<forall>y. y \<notin> set (d # ds) \<longrightarrow> vdescs m2 y = vdescs m y" using 1(7) 2(8) by auto
  show ?case
    using 1(1) 2(1-5) f2 sd link r1 r2 lens
    by (intro exI [of _ q2] exI [of _ m2]) (simp add: fs)
qed

lemma split_to_frag_splits:
  assumes "vbufs m b = Some v" "b \<noteq> NULL" "nbuf_descs m b ds" "vbuf_pool m (fs @ gs)"
    "length fs = length ds" "b \<notin> set (fs @ gs)"
  shows "\<exists>q' m'. adf_nbuf_split_to_frag b m = Some (q', m') \<and> nbuf_queue m' q' fs \<and>
    vbuf_pool m' (b # gs) \<and> list_all2 (nbuf_descs m') fs (map (\<lambda>d. [d]) ds) \<and>
    map (nbuf_length m') fs = map (desc_size m) ds \<and> same_data m m'"
proof -
  have c: "chain (vd_next (vdescs m)) (desc_list v) ds" using assms(1,3) by (simp add: nbuf_descs_def)
  from split_loop_fragments [OF nbuf_queue_init assms(4,5) _ c] obtain q1 m1 where
    1: "split_loop adf_nbuf_queue_init (desc_list v) m = Some (q1, m1)" "nbuf_queue m1 q1 fs" "vbuf_pool m1 gs"
      "list_all2 (nbuf_descs m1) fs (map (\<lambda>d. [d]) ds)" "map (nbuf_length m1) fs = map (desc_size m) ds"
      "\<forall>y. y \<notin> set fs \<longrightarrow> vbufs m1 y = vbufs m y" "same_data m m1"
    by auto
  let ?m = "m1\<lparr>vbufs := (vbufs m1)(b \<mapsto> v\<lparr>desc_list := NULL, buf_length := 0, next_buf := free_buf_head m1\<rparr>),
       free_buf_head := b, nVbufNum := nVbufNum m1 + 1\<rparr>"
  have run: "adf_nbuf_split_to_frag b m = Some (q1, ?m)"
    using 1(1,6) assms(1,2,6)
    by (simp add: adf_nbuf_split_to_frag_def rd_vbuf_def upd_vbuf_def vbuf_free_vbuf_def)
  have q: "nbuf_queue ?m q1 fs" using 1(2) assms(6) nbuf_queue_upd_other [of b fs] by simp
  have p: "vbuf_pool ?m (b # gs)" using 1(3) assms(2,6) by (simp add: vbuf_pool_def chain_fun_upd_notin)
  have same: "nbuf_descs ?m x es = nbuf_descs m1 x es" "nbuf_length ?m x = nbuf_length m1 x" if "x \<in> set fs" for x es
    using that assms(6) by (auto simp: nbuf_descs_def nbuf_length_def split: option.splits)
  have "list_all2 (nbuf_descs ?m) fs (map (\<lambda>d. [d]) ds)"
    by (rule list.rel_mono_strong [OF 1(4)]) (simp add: same)
  moreover have "map (nbuf_length ?m) fs = map (desc_size m) ds"
    using 1(5) same(2) by (metis (no_types, lifting) map_cong)
  moreover have "same_data m ?m" using 1(7) by (simp add: same_data_def)
  ultimately show ?thesis using run q p by blast
qed

section \<open>Scatter-gather lists\<close>

definition desc_seg :: "fw_mem \<Rightarrow> addr \<Rightarrow> addr \<times> u16" where
  "desc_seg m x = (case vdescs m x of Some d \<Rightarrow> (buf_addr d + ucast (data_offset d), data_size d)
                   | None \<Rightarrow> (NULL, 0))"

lemma frag_info_descs: "b \<noteq> NULL \<Longrightarrow> nbuf_descs m b ds \<Longrightarrow>
    adf_nbuf_frag_info m b = (if length ds \<le> ADF_OS_MAX_SGLIST then Some (map (desc_seg m) ds) else None)"
  using frag_info_loop_chain [of m _ ds ADF_OS_MAX_SGLIST "[]"]
  by (auto simp: adf_nbuf_frag_info_def nbuf_descs_def rd_vbuf_def desc_seg_def [abs_def] split: option.splits)

lemma next_desc_cleared: "u\<lparr>next_desc := n\<rparr> = v\<lparr>next_desc := n\<rparr> \<Longrightarrow>
    buf_addr u = buf_addr v \<and> data_offset u = data_offset v \<and> data_size u = data_size v"
  by (cases u, cases v) simp

lemma same_data_seg:
  assumes "same_data m m'"
  shows "desc_seg m' = desc_seg m"
proof
  fix d
  have "map_option (next_desc_update (\<lambda>_. NULL)) (vdescs m' d) =
      map_option (next_desc_update (\<lambda>_. NULL)) (vdescs m d)" using assms by (simp add: same_data_def)
  then show "desc_seg m' d = desc_seg m d"
    by (cases "vdescs m' d"; cases "vdescs m d") (auto simp: desc_seg_def dest: next_desc_cleared)
qed

section \<open>Properties of network buffers\<close>

text \<open>
  The buffer queue is first-in first-out: filling an empty queue with distinct
  buffers and removing as many returns exactly these buffers in this order and leaves the
  queue empty.
\<close>

theorem nbuf_queue_fifo:
  assumes "\<forall>b\<in>set bs. vbuf_at m b" "distinct bs"
  shows "\<exists>q1 m1 q2 m2. queue_fill adf_nbuf_queue_add bs adf_nbuf_queue_init m = Some (q1, m1) \<and>
           queue_drain adf_nbuf_queue_remove (length bs) q1 m1 = Some (bs, q2, m2) \<and> nbuf_queue m2 q2 []"
  using nbufq.fifo [OF nbuf_queue_init assms] .

text \<open>
  Property C7. \<^verbatim>\<open>__adf_nbuf_create_frm_frag\<close> terminates and merges the queued buffers: the new
  buffer has the concatenated descriptor chain and the sum of the lengths (modulo 2^16); its
  scatter-gather list is the concatenation of the data windows, as long as the four entries of the list
  hold it; the queue is empty, the headers of the merged buffers are back on the free list, and no
  descriptor's data window has changed.
\<close>

theorem create_frm_frag_correct:
  assumes "nbuf_queue m q bs" "bs \<noteq> []" "vbuf_pool m (f # fs)" "set bs \<inter> set (f # fs) = {}"
    and "list_all2 (nbuf_descs m) bs dss" "[] \<notin> set dss" "distinct (concat dss)"
  shows "\<exists>q' m'. adf_nbuf_create_frm_frag q m = Some (f, q', m') \<and>
    nbuf_descs m' f (concat dss) \<and> map (desc_seg m') (concat dss) = concat (map (map (desc_seg m)) dss) \<and>
    adf_nbuf_frag_info m' f =
      (if (\<Sum>ds\<leftarrow>dss. length ds) \<le> 4 then Some (concat (map (map (desc_seg m)) dss)) else None) \<and>
    nbuf_length m' f = (\<Sum>b\<leftarrow>bs. nbuf_length m b) \<and>
    nbuf_queue m' q' [] \<and> vbuf_pool m' (rev bs @ fs) \<and> same_data m m'"
proof -
  have n: "f \<noteq> NULL" using vbuf.content_nodes [OF assms(3)] by auto
  from create_frm_frag_merges [OF assms] obtain q' m' where
    m': "adf_nbuf_create_frm_frag q m = Some (f, q', m')" "nbuf_queue m' q' []" "vbuf_pool m' (rev bs @ fs)"
      "nbuf_descs m' f (concat dss)" "nbuf_length m' f = (\<Sum>b\<leftarrow>bs. nbuf_length m b)" "same_data m m'"
    by blast
  moreover have "map (desc_seg m') (concat dss) = concat (map (map (desc_seg m)) dss)"
    by (simp add: same_data_seg [OF m'(6)] map_concat)
  moreover have "adf_nbuf_frag_info m' f =
      (if (\<Sum>ds\<leftarrow>dss. length ds) \<le> 4 then Some (concat (map (map (desc_seg m)) dss)) else None)"
    using frag_info_descs [OF n m'(4)] same_data_seg [OF m'(6)] by (simp add: map_concat length_concat)
  ultimately show ?thesis by blast
qed

text \<open>
  \<^verbatim>\<open>__adf_nbuf_split_to_frag\<close> terminates and produces one queued buffer per
  descriptor, in order, each of the length of its descriptor's data, and returns the header of
  the split buffer to the free list.
\<close>

theorem split_to_frag_correct:
  assumes "vbufs m b = Some v" "b \<noteq> NULL" "nbuf_descs m b ds"
    and "vbuf_pool m (fs @ gs)" "length fs = length ds" "b \<notin> set (fs @ gs)"
  shows "\<exists>q' m'. adf_nbuf_split_to_frag b m = Some (q', m') \<and> nbuf_queue m' q' fs \<and>
    map (adf_nbuf_frag_info m') fs = map (\<lambda>d. Some [desc_seg m d]) ds \<and>
    map (nbuf_length m') fs = map (desc_size m) ds \<and> vbuf_pool m' (b # gs) \<and> same_data m m'"
proof -
  from split_to_frag_splits [OF assms] obtain q' m' where
    m': "adf_nbuf_split_to_frag b m = Some (q', m')" "nbuf_queue m' q' fs" "vbuf_pool m' (b # gs)"
      "list_all2 (nbuf_descs m') fs (map (\<lambda>d. [d]) ds)" "map (nbuf_length m') fs = map (desc_size m) ds"
      "same_data m m'"
    by blast
  have n: "NULL \<notin> set fs" using m'(2) chain_not_NULL by (auto simp: nbuf_queue_def)
  have "map (adf_nbuf_frag_info m') fs = map (\<lambda>d. Some [desc_seg m d]) ds"
  proof (rule nth_equalityI)
    fix i assume "i < length (map (adf_nbuf_frag_info m') fs)"
    then have i: "i < length fs" "i < length ds" using assms(5) by auto
    then have "nbuf_descs m' (fs ! i) [ds ! i]" using list_all2_nthD [OF m'(4) i(1)] by simp
    moreover have "fs ! i \<noteq> NULL" using n i nth_mem by metis
    ultimately show "map (adf_nbuf_frag_info m') fs ! i = map (\<lambda>d. Some [desc_seg m d]) ds ! i"
      using i frag_info_descs [of "fs ! i"] same_data_seg [OF m'(6)] by simp
  qed (simp add: assms(5))
  with m' show ?thesis by blast
qed


section \<open>Data windows stay inside their storage\<close>

definition desc_ok :: "VDESC \<Rightarrow> bool" where
  "desc_ok d \<longleftrightarrow> unat (data_offset d) + unat (data_size d) \<le> unat (buf_size d)"

lemma unat_ucast_32_16: "unat len < 65536 \<Longrightarrow> unat (ucast (len :: u32) :: u16) = unat len"
  by (simp add: unsigned_ucast_eq take_bit_nat_eq_self)

lemma unat_add_u16: "unat x + unat y < 65536 \<Longrightarrow> unat (x + y :: u16) = unat x + unat y"
  by (simp add: unat_word_ariths)

lemma unat_sub_u16: "unat y \<le> unat x \<Longrightarrow> unat (x - y :: u16) = unat x - unat y"
  by (simp add: unat_sub_if_size)

text \<open>
  Reserving \<open>len\<close> bytes in front of the data (\<^verbatim>\<open>adf_nbuf_push_head\<close>) when the
  headroom suffices: the pointer returned is \<open>len\<close> bytes before the old data, the window grows
  by exactly \<open>len\<close> and stays inside the storage, its end does not move; and pulling the same
  number of bytes again restores the memory exactly.
\<close>

theorem push_head_pull_head:
  assumes "b \<noteq> NULL" "vbufs m b = Some v" "desc_list v \<noteq> NULL" "vdescs m (desc_list v) = Some d"
    and "desc_ok d" "unat len \<le> unat (data_offset d)"
  shows "\<exists>m' d'. adf_nbuf_push_head b len m = Some (buf_addr d + ucast (data_offset d) - len, m') \<and>
    vdescs m' (desc_list v) = Some d' \<and> desc_ok d' \<and>
    unat (data_size d') = unat (data_size d) + unat len \<and>
    unat (data_offset d') + unat (data_size d') = unat (data_offset d) + unat (data_size d) \<and>
    adf_nbuf_len m' b = Some (ucast (buf_length v + ucast len)) \<and>
    adf_nbuf_pull_head b len m' = Some (buf_addr d + ucast (data_offset d), m)"
proof -
  let ?d = "d\<lparr>data_offset := data_offset d - ucast len, data_size := data_size d + ucast len\<rparr>"
  let ?m = "m\<lparr>vdescs := (vdescs m)(desc_list v \<mapsto> ?d),
      vbufs := (vbufs m)(b \<mapsto> v\<lparr>buf_length := buf_length v + ucast len\<rparr>)\<rparr>"
  have l: "unat (ucast len :: u16) = unat len"
    using assms(6) unat_u16_less [of "data_offset d"] by (intro unat_ucast_32_16) simp
  have o: "unat (data_offset d - ucast len) = unat (data_offset d) - unat len"
    using l assms(6) by (simp add: unat_sub_u16)
  have z: "unat (data_size d + ucast len) = unat (data_size d) + unat len"
    using l assms(5,6) unat_u16_less [of "buf_size d"]
    by (subst unat_add_u16) (simp_all add: desc_ok_def)
  have p: "ucast (data_offset d - ucast len) = (ucast (data_offset d) - len :: u32)"
    using o assms(6) by (intro unat_eqI) (simp add: unat_sub_if_size)
  have "adf_nbuf_push_head b len m = Some (buf_addr d + ucast (data_offset d) - len, ?m)"
    using assms(1-4) p by (simp add: adf_nbuf_push_head_def mem_simps rd_vbuf_def rd_vdesc_def)
  moreover have "adf_nbuf_pull_head b len ?m = Some (buf_addr d + ucast (data_offset d), m)"
    using assms(1-4) by (simp add: adf_nbuf_pull_head_def mem_simps rd_vbuf_def rd_vdesc_def fun_upd_idem)
  moreover have "adf_nbuf_len ?m b = Some (ucast (buf_length v + ucast len))"
    using assms(1) by (simp add: adf_nbuf_len_def rd_vbuf_def)
  ultimately show ?thesis
    using assms(5,6) o z by (intro exI [of _ ?m] exI [of _ ?d]) (simp add: desc_ok_def)
qed

text \<open>
  Appending \<open>len\<close> bytes (\<^verbatim>\<open>adf_nbuf_put_tail\<close>) acts on the last descriptor of the
  chain: the pointer returned is the old end of its data, its window grows by exactly \<open>len\<close> and
  stays inside the storage if the tailroom reported by \<^verbatim>\<open>adf_nbuf_tailroom\<close> suffices, the
  tailroom shrinks by \<open>len\<close>, and trimming the same number of bytes restores the memory exactly.
\<close>

theorem put_tail_trim_tail:
  assumes "b \<noteq> NULL" "vbufs m b = Some v" "nbuf_descs m b (ds @ [l])" "vdescs m l = Some d"
    and "desc_ok d" "adf_nbuf_tailroom m b = Some room" "len \<le> room"
  shows "\<exists>m' d'. adf_nbuf_put_tail b len m = Some (buf_addr d + ucast (data_offset d) + ucast (data_size d), m') \<and>
    vdescs m' l = Some d' \<and> desc_ok d' \<and> data_offset d' = data_offset d \<and>
    unat (data_size d') = unat (data_size d) + unat len \<and>
    adf_nbuf_tailroom m' b = Some (room - len) \<and> adf_nbuf_trim_tail b len m' = Some m"
proof -
  let ?d = "d\<lparr>data_size := data_size d + ucast len\<rparr>"
  let ?v = "v\<lparr>buf_length := buf_length v + ucast len\<rparr>"
  let ?m = "m\<lparr>vdescs := (vdescs m)(l \<mapsto> ?d), vbufs := (vbufs m)(b \<mapsto> ?v)\<rparr>"
  have c: "chain (vd_next (vdescs m)) (desc_list v) (ds @ [l])" using assms(2,3) by (simp add: nbuf_descs_def)
  have l: "l \<noteq> NULL" using chain_not_NULL [OF c] by auto
  have same: "vd_next (vdescs ?m) = vd_next (vdescs m)" using assms(4) by (auto simp: vd_next_def)
  have last: "adf_nbuf_last m b = Some l" "adf_nbuf_last ?m b = Some l"
    using desc_last_chain [OF c] desc_last_chain [of ?m "desc_list v" "ds @ [l]"] c assms(1,2) same
    by (simp_all add: adf_nbuf_last_def rd_vbuf_def)
  have room: "room = ucast (buf_size d) - ucast (data_offset d) - ucast (data_size d)"
    using assms(4,6) last(1) l by (simp add: adf_nbuf_tailroom_def rd_vdesc_def)
  then have ur: "unat room = unat (buf_size d) - unat (data_offset d) - unat (data_size d)"
    using assms(5) by (simp add: unat_sub_if_size desc_ok_def)
  then have len: "unat (data_offset d) + unat (data_size d) + unat len \<le> unat (buf_size d)"
    using assms(5,7) by (simp add: word_le_nat_alt desc_ok_def)
  then have "unat (ucast len :: u16) = unat len"
    using unat_u16_less [of "buf_size d"] by (intro unat_ucast_32_16) simp
  then have z: "unat (data_size d + ucast len) = unat (data_size d) + unat len"
    using len unat_u16_less [of "buf_size d"] by (subst unat_add_u16) simp_all
  have "adf_nbuf_put_tail b len m = Some (buf_addr d + ucast (data_offset d) + ucast (data_size d), ?m)"
    using assms(1,2,4) l last(1) by (simp add: adf_nbuf_put_tail_def mem_simps rd_vdesc_def)
  moreover have "adf_nbuf_trim_tail b len ?m = Some m"
    using assms(1,2,4) l last(2) by (simp add: adf_nbuf_trim_tail_def mem_simps fun_upd_idem)
  moreover have "ucast (data_size d + ucast len) = (ucast (data_size d) + len :: u32)"
    using z unat_u32_less len unat_u16_less [of "buf_size d"]
    by (intro unat_eqI) (simp add: unat_word_ariths)
  then have "adf_nbuf_tailroom ?m b = Some (room - len)"
    using l last(2) room by (simp add: adf_nbuf_tailroom_def rd_vdesc_def algebra_simps)
  ultimately show ?thesis
    using len z by (intro exI [of _ ?m] exI [of _ ?d]) (simp add: desc_ok_def)
qed

section \<open>Two buffers\<close>

text \<open>Two buffers of one descriptor each are queued, one header is free.\<close>

definition mem2 :: fw_mem where
  "mem2 = mem0\<lparr>vbufs := [0x1000 \<mapsto> vbuf0, 0x1020 \<mapsto> vbuf0\<lparr>desc_list := 0x2000, buf_length := 16, next_buf := 0x1040\<rparr>,
       0x1040 \<mapsto> vbuf0\<lparr>desc_list := 0x2024, buf_length := 16\<rparr>],
     vdescs := [0x2000 \<mapsto> vdesc0, 0x2024 \<mapsto> vdesc0\<lparr>buf_addr := 0x5000\<rparr>], nVbufNum := 1\<rparr>"

definition queue2 :: nbuf_qhead where
  "queue2 = \<lparr>q_head = 0x1020, q_tail = 0x1040, q_len = 2\<rparr>"

lemma mem2_facts:
  "nbuf_queue mem2 queue2 [0x1020, 0x1040]" "vbuf_pool mem2 [0x1000]"
  "nbuf_descs mem2 0x1020 [0x2000]" "nbuf_descs mem2 0x1040 [0x2024]"
  "vbufs mem2 0x1020 = Some (vbuf0\<lparr>desc_list := 0x2000, buf_length := 16, next_buf := 0x1040\<rparr>)"
  "vdescs mem2 0x2000 = Some vdesc0"
  by (simp_all add: mem2_def mem0_def queue2_def vbuf_pool_def nbuf_queue_def nbuf_descs_def vb_next_def
      vd_next_def vbuf0_def vdesc0_def)

theorem nbuf_queue_fifo_witness:
  "\<exists>q1 m1 q2 m2. queue_fill adf_nbuf_queue_add [0x1040, 0x1020] adf_nbuf_queue_init mem2 = Some (q1, m1) \<and>
     queue_drain adf_nbuf_queue_remove (Suc (Suc 0)) q1 m1 = Some ([0x1040, 0x1020], q2, m2)"
proof -
  have "\<forall>b\<in>set [0x1040, 0x1020]. vbuf_at mem2 b" by (simp add: vbuf_at_def mem2_def)
  from nbuf_queue_fifo [OF this] show ?thesis
    by (auto simp del: queue_fill.simps queue_drain.simps)
qed

theorem create_frm_frag_correct_witness:
  "\<exists>q' m'. adf_nbuf_create_frm_frag queue2 mem2 = Some (0x1000, q', m') \<and>
     adf_nbuf_frag_info m' 0x1000 = Some [(0x4008, 16), (0x5008, 16)] \<and> nbuf_length m' 0x1000 = 32 \<and>
     vbuf_pool m' [0x1040, 0x1020]"
proof -
  have seg: "desc_seg mem2 0x2000 = (0x4008, 16)" "desc_seg mem2 0x2024 = (0x5008, 16)"
    "nbuf_length mem2 0x1020 = 16" "nbuf_length mem2 0x1040 = 16"
    by (simp_all add: desc_seg_def mem2_def vdesc0_def nbuf_length_def)
  show ?thesis
    using create_frm_frag_correct [of mem2 queue2 "[0x1020, 0x1040]" "0x1000" "[]" "[[0x2000], [0x2024]]"]
      mem2_facts by (simp add: seg) blast
qed

theorem split_to_frag_correct_witness:
  "\<exists>q' m'. adf_nbuf_split_to_frag 0x1020 mem2 = Some (q', m') \<and> nbuf_queue m' q' [0x1000] \<and>
     vbuf_pool m' [0x1020]"
  using split_to_frag_correct [of mem2 "0x1020" _ "[0x2000]" "[0x1000]" "[]"] mem2_facts by auto

theorem push_head_pull_head_witness:
  "\<exists>m'. adf_nbuf_push_head 0x1020 8 mem2 = Some (0x4000, m') \<and>
        adf_nbuf_pull_head 0x1020 8 m' = Some (0x4008, mem2)"
  using push_head_pull_head [OF _ mem2_facts(5), of vdesc0 8] mem2_facts(6)
  by (auto simp: desc_ok_def vdesc0_def)

theorem put_tail_trim_tail_witness:
  "\<exists>m'. adf_nbuf_put_tail 0x1020 40 mem2 = Some (0x4018, m') \<and> adf_nbuf_trim_tail 0x1020 40 m' = Some mem2"
proof -
  have "adf_nbuf_tailroom mem2 0x1020 = Some 40"
    using desc_last_chain [of mem2 "0x2000" "[0x2000]"] mem2_facts(3,5,6)
    by (simp add: adf_nbuf_tailroom_def adf_nbuf_last_def rd_vbuf_def rd_vdesc_def nbuf_descs_def vdesc0_def)
  with put_tail_trim_tail [OF _ mem2_facts(5), of "[]" "0x2000" vdesc0 40 40] mem2_facts(3,6) show ?thesis
    by (auto simp: desc_ok_def vdesc0_def)
qed

end
