(* ===== verification/Buf_Pool.thy ===== *)
theory Buf_Pool
  imports Nbuf
begin

text \<open>
  The static buffer pools (\<^verbatim>\<open>buf_pool_static.c\<close>): per pool identifier a stack of buffers, each a
  header with one descriptor, linked through \<^verbatim>\<open>next_buf\<close>. The HTC control messages, the WMI
  replies and events and the receive path take their buffers from here.
\<close>

abbreviation (input) POOL_ID_HTC_CONTROL :: nat where "POOL_ID_HTC_CONTROL \<equiv> 0"
abbreviation (input) POOL_ID_WMI_SVC_CMD_REPLY :: nat where "POOL_ID_WMI_SVC_CMD_REPLY \<equiv> 1"
abbreviation (input) POOL_ID_WMI_SVC_EVENT :: nat where "POOL_ID_WMI_SVC_EVENT \<equiv> 2"
abbreviation (input) POOL_ID_WLAN_RX_BUF :: nat where "POOL_ID_WLAN_RX_BUF \<equiv> 3"
abbreviation (input) POOL_ID_MAX :: nat where "POOL_ID_MAX \<equiv> 10"

section \<open>The operations\<close>

definition buf_pool_static_init :: "fw_mem \<Rightarrow> fw_mem" where
  "buf_pool_static_init m = m\<lparr>bufQ := fold (\<lambda>i q. q[i := NULL]) [0..<POOL_ID_MAX] (bufQ m)\<rparr>"

definition pool_put :: "nat \<Rightarrow> addr \<Rightarrow> fw_mem \<Rightarrow> fw_mem option" where
  "pool_put poolId buf m = do {
     h \<leftarrow> at (bufQ m) poolId;
     if h = NULL then Some (m\<lparr>bufQ := (bufQ m)[poolId := buf]\<rparr>)
     else do {
       m \<leftarrow> upd_vbuf buf (next_buf_update (\<lambda>_. h)) m;
       Some (m\<lparr>bufQ := (bufQ m)[poolId := buf]\<rparr>) } }"

definition buf_pool_create_one :: "nat \<Rightarrow> u32 \<Rightarrow> fw_mem \<Rightarrow> fw_mem option" where
  "buf_pool_create_one poolId nSize m = do {
     (buf, m) \<leftarrow> vbuf_alloc_vbuf m;
     (desc, m) \<leftarrow> vdesc_alloc_desc m;
     (a, m) \<leftarrow> cmnos_allocram nSize m;
     m \<leftarrow> upd_vdesc desc (\<lambda>d. d\<lparr>buf_addr := a, buf_size := ucast nSize, data_offset := 0, data_size := 0\<rparr>) m;
     m \<leftarrow> upd_vbuf buf (\<lambda>b. b\<lparr>buf_length := 0, desc_list := desc\<rparr>) m;
     pool_put poolId buf m }"

definition buf_pool_static_create_pool :: "nat \<Rightarrow> nat \<Rightarrow> u32 \<Rightarrow> fw_mem \<Rightarrow> fw_mem option" where
  "buf_pool_static_create_pool poolId nItems nSize m =
     foldM (\<lambda>m i. buf_pool_create_one poolId nSize m) m [0..<nItems]"

definition buf_pool_static_alloc_buf :: "nat \<Rightarrow> u32 \<Rightarrow> fw_mem \<Rightarrow> (addr \<times> fw_mem) option" where
  "buf_pool_static_alloc_buf poolId reserve m = do {
     buf \<leftarrow> at (bufQ m) poolId;
     if buf \<noteq> NULL then do {
       b \<leftarrow> rd_vbuf m buf;
       let m = m\<lparr>bufQ := (bufQ m)[poolId := next_buf b]\<rparr>;
       m \<leftarrow> upd_vbuf buf (next_buf_update (\<lambda>_. NULL)) m;
       m \<leftarrow> upd_vdesc (desc_list b) (\<lambda>d. d\<lparr>data_offset := ucast reserve, data_size := 0\<rparr>) m;
       m \<leftarrow> upd_vbuf buf (buf_length_update (\<lambda>_. 0)) m;
       Some (buf, m) }
     else Some (NULL, m) }"

definition buf_pool_static_alloc_buf_align :: "nat \<Rightarrow> u32 \<Rightarrow> u32 \<Rightarrow> fw_mem \<Rightarrow> (addr \<times> fw_mem) option" where
  "buf_pool_static_alloc_buf_align poolId reserve align m = buf_pool_static_alloc_buf poolId reserve m"

definition buf_pool_static_free_buf :: "nat \<Rightarrow> addr \<Rightarrow> fw_mem \<Rightarrow> fw_mem option" where
  "buf_pool_static_free_buf poolId buf m = pool_put poolId buf m"

section \<open>The pools satisfy the pool interface\<close>

definition pool_buf :: "fw_mem \<Rightarrow> addr \<Rightarrow> bool" where
  "pool_buf m x \<longleftrightarrow> x \<noteq> NULL \<and> (case vbufs m x of None \<Rightarrow> False
     | Some v \<Rightarrow> desc_list v \<noteq> NULL \<and> vdescs m (desc_list v) \<noteq> None)"

text \<open>
  A buffer in the hands of a client. Its link is NULL: \<^verbatim>\<open>_buf_pool_static_free_buf\<close> relies on
  that when the pool is empty, because it then does not write the link.
\<close>

definition pool_held :: "fw_mem \<Rightarrow> addr \<Rightarrow> bool" where
  "pool_held m x \<longleftrightarrow> pool_buf m x \<and> map_option next_buf (vbufs m x) = Some NULL"

definition pool_content :: "nat \<Rightarrow> fw_mem \<Rightarrow> addr list \<Rightarrow> bool" where
  "pool_content i m xs \<longleftrightarrow> i < length (bufQ m) \<and> chain (vb_next (vbufs m)) (bufQ m ! i) xs \<and>
     (\<forall>x\<in>set xs. pool_buf m x)"

lemma pool_buf_Some:
  "pool_buf m x \<longleftrightarrow> x \<noteq> NULL \<and> (\<exists>v d. vbufs m x = Some v \<and> desc_list v \<noteq> NULL \<and> vdescs m (desc_list v) = Some d)"
  by (auto simp: pool_buf_def split: option.splits)

text \<open>The memory after a successful allocation.\<close>

definition pool_taken :: "nat \<Rightarrow> u32 \<Rightarrow> addr \<Rightarrow> VBUF \<Rightarrow> VDESC \<Rightarrow> fw_mem \<Rightarrow> fw_mem" where
  "pool_taken i reserve x v d m = m\<lparr>bufQ := (bufQ m)[i := next_buf v],
     vdescs := (vdescs m)(desc_list v \<mapsto> d\<lparr>data_offset := ucast reserve, data_size := 0\<rparr>),
     vbufs := (vbufs m)(x \<mapsto> v\<lparr>next_buf := NULL, buf_length := 0\<rparr>)\<rparr>"

lemma pool_alloc_taken:
  assumes "pool_content i m (x # xs)"
  shows "\<exists>v d. vbufs m x = Some v \<and> desc_list v \<noteq> NULL \<and> vdescs m (desc_list v) = Some d \<and> x \<noteq> NULL \<and>
    buf_pool_static_alloc_buf i r m = Some (x, pool_taken i r x v d m) \<and>
    pool_content i (pool_taken i r x v d m) xs"
proof -
  from assms obtain v d where v: "vbufs m x = Some v" "desc_list v \<noteq> NULL" "vdescs m (desc_list v) = Some d"
    "x \<noteq> NULL" "bufQ m ! i = x" "i < length (bufQ m)" "chain (vb_next (vbufs m)) (next_buf v) xs"
    by (auto simp: pool_content_def pool_buf_Some chain_vb_Cons simp del: chain.simps(2))
  have d: "x \<notin> set xs"
    using assms chain_distinct [of "vb_next (vbufs m)" _ "x # xs"] by (auto simp: pool_content_def)
  have "buf_pool_static_alloc_buf i r m = Some (x, pool_taken i r x v d m)"
    using v by (simp add: buf_pool_static_alloc_buf_def at_def rd_vbuf_def upd_vbuf_def upd_vdesc_def
        rd_vdesc_def pool_taken_def)
  moreover have "pool_content i (pool_taken i r x v d m) xs"
    using v d assms by (auto simp: pool_content_def pool_taken_def chain_fun_upd_notin pool_buf_Some)
  ultimately show ?thesis using v by blast
qed

lemma pool_put_Cons:
  assumes "pool_content i m xs" "pool_held m x" "x \<notin> set xs"
  shows "\<exists>v. vbufs m x = Some v \<and> next_buf v = NULL \<and>
    buf_pool_static_free_buf i x m = Some (m\<lparr>vbufs := (vbufs m)(x \<mapsto> v\<lparr>next_buf := bufQ m ! i\<rparr>),
      bufQ := (bufQ m)[i := x]\<rparr>) \<and>
    pool_content i (m\<lparr>vbufs := (vbufs m)(x \<mapsto> v\<lparr>next_buf := bufQ m ! i\<rparr>), bufQ := (bufQ m)[i := x]\<rparr>) (x # xs)"
proof -
  from assms(2) obtain v d where v: "vbufs m x = Some v" "next_buf v = NULL" "x \<noteq> NULL" "desc_list v \<noteq> NULL"
    "vdescs m (desc_list v) = Some d"
    by (auto simp: pool_held_def pool_buf_Some)
  have idem: "(vbufs m)(x \<mapsto> v\<lparr>next_buf := NULL\<rparr>) = vbufs m"
    using v(1,2) by (cases v) (auto simp: fun_eq_iff)
  have "buf_pool_static_free_buf i x m = Some (m\<lparr>vbufs := (vbufs m)(x \<mapsto> v\<lparr>next_buf := bufQ m ! i\<rparr>),
      bufQ := (bufQ m)[i := x]\<rparr>)"
    using v assms(1) idem
    by (auto simp: buf_pool_static_free_buf_def pool_put_def at_def pool_content_def upd_vbuf_def rd_vbuf_def)
  moreover have "pool_content i (m\<lparr>vbufs := (vbufs m)(x \<mapsto> v\<lparr>next_buf := bufQ m ! i\<rparr>),
      bufQ := (bufQ m)[i := x]\<rparr>) (x # xs)"
    using v assms(1,3) by (auto simp: pool_content_def chain_fun_upd_notin pool_buf_Some)
  ultimately show ?thesis using v by blast
qed

lemma pool_alloc_keeps:
  assumes "buf_pool_static_alloc_buf i r m = Some (p, m')" "pool_held m x" "x \<noteq> p"
  shows "pool_held m' x"
  using assms
  by (auto simp: buf_pool_static_alloc_buf_def upd_vbuf_def upd_vdesc_def rd_vbuf_def rd_vdesc_def pool_held_def
      pool_buf_Some Let_def split: Option.bind_splits if_splits)

lemma pool_free_keeps:
  assumes "buf_pool_static_free_buf i p m = Some m'" "pool_held m x" "x \<noteq> p"
  shows "pool_held m' x"
  using assms
  by (auto simp: buf_pool_static_free_buf_def pool_put_def upd_vbuf_def rd_vbuf_def pool_held_def
      pool_buf_Some split: Option.bind_splits if_splits)

interpretation bufpool: object_pool "pool_content i" "buf_pool_static_alloc_buf i r"
  "buf_pool_static_free_buf i" pool_held for i r
proof unfold_locales
  show "distinct xs \<and> NULL \<notin> set xs" if "pool_content i m xs" for m xs
    using that chain_distinct chain_not_NULL by (auto simp: pool_content_def)
  show "buf_pool_static_alloc_buf i r m = Some (NULL, m)" if "pool_content i m []" for m
    using that by (simp add: pool_content_def buf_pool_static_alloc_buf_def at_def)
  show "\<exists>m'. buf_pool_static_alloc_buf i r m = Some (x, m') \<and> pool_content i m' xs"
    if "pool_content i m (x # xs)" for m x xs
    using pool_alloc_taken [OF that, of r] by blast
  show "\<exists>m'. buf_pool_static_free_buf i x m = Some m' \<and> pool_content i m' (x # xs)"
    if "pool_content i m xs" "pool_held m x" "x \<notin> set xs" for m x xs
    using pool_put_Cons [OF that] by blast
  show "pool_held m' x" if "pool_content i m (x # xs)" "buf_pool_static_alloc_buf i r m = Some (x, m')" for m x xs m'
    using pool_alloc_taken [OF that(1), of r] that(2) by (auto simp: pool_taken_def pool_held_def pool_buf_Some)
qed (fact pool_alloc_keeps pool_free_keeps)+

text \<open>
  Property C8. A buffer pool never loses or duplicates a buffer: whatever sequence of
  \<^verbatim>\<open>BUF_Pool_alloc_buf\<close> and \<^verbatim>\<open>BUF_Pool_free_buf\<close> calls the clients make, every call succeeds, and
  the buffers held and the buffers in the pool together are those of the start.
\<close>

theorem buf_pool_conserved:
  assumes "pool_content i m xs"
  shows "\<exists>held m' xs'.
    pool_run (buf_pool_static_alloc_buf i r) (buf_pool_static_free_buf i) ops [] m = Some (held, m') \<and>
    pool_content i m' xs' \<and> mset (held @ xs') = mset xs \<and> distinct (held @ xs')"
proof -
  have d: "distinct xs" using bufpool.content_nodes [OF assms] by simp
  then obtain held m' xs' where
    "pool_run (buf_pool_static_alloc_buf i r) (buf_pool_static_free_buf i) ops [] m = Some (held, m')"
    "pool_content i m' xs'" and e: "mset (held @ xs') = mset xs"
    using bufpool.run_conserves [OF assms, of "[]" r ops] by auto
  then show ?thesis using d mset_eq_imp_distinct_iff [OF e] by blast
qed

text \<open>
  A successful allocation from a pool returns an empty buffer with the headroom
  asked for: length 0, link NULL, and a data window of size 0 at offset \<open>reserve\<close>.
\<close>

theorem buf_pool_alloc_fresh:
  assumes "pool_content i m (x # xs)" "unat r < 65536"
  shows "\<exists>m'. buf_pool_static_alloc_buf i r m = Some (x, m') \<and> pool_content i m' xs \<and> pool_held m' x \<and>
    adf_nbuf_headroom m' x = Some r \<and> adf_nbuf_len m' x = Some 0"
proof -
  from pool_alloc_taken [OF assms(1), of r] obtain v d where
    "vbufs m x = Some v" "desc_list v \<noteq> NULL" "vdescs m (desc_list v) = Some d" "x \<noteq> NULL"
    "buf_pool_static_alloc_buf i r m = Some (x, pool_taken i r x v d m)"
    "pool_content i (pool_taken i r x v d m) xs"
    by blast
  moreover have "ucast (ucast r :: u16) = r"
    using assms(2) by (intro unat_eqI) (simp add: unat_ucast_32_16)
  ultimately show ?thesis
    by (simp add: pool_taken_def pool_held_def pool_buf_Some adf_nbuf_headroom_def adf_nbuf_len_def
        rd_vbuf_def rd_vdesc_def)
qed

definition mem_pool :: fw_mem where
  "mem_pool = mem2\<lparr>vbufs := (vbufs mem2)(0x1000 \<mapsto> vbuf0, 0x1040 \<mapsto> vbuf0\<lparr>desc_list := 0x2024\<rparr>),
     bufQ := (replicate 10 NULL)[1 := 0x1020]\<rparr>"

lemma mem_pool_content: "pool_content POOL_ID_WMI_SVC_CMD_REPLY mem_pool [0x1020, 0x1040]"
  by (simp add: pool_content_def mem_pool_def mem2_def mem0_def vb_next_def pool_buf_def vbuf0_def vdesc0_def)

theorem buf_pool_conserved_witness:
  "\<exists>held m' xs'. pool_run (buf_pool_static_alloc_buf 1 12) (buf_pool_static_free_buf 1)
       [Alloc, Alloc, Free 1, Alloc, Alloc] [] mem_pool = Some (held, m') \<and>
     pool_content 1 m' xs' \<and> mset (held @ xs') = {#0x1020, 0x1040#}"
  using buf_pool_conserved [OF mem_pool_content, of 12 "[Alloc, Alloc, Free 1, Alloc, Alloc]"]
  by (simp add: add_mset_commute del: pool_run.simps) blast

theorem buf_pool_alloc_fresh_witness:
  "\<exists>m'. buf_pool_static_alloc_buf 1 12 mem_pool = Some (0x1020, m') \<and> adf_nbuf_headroom m' 0x1020 = Some 12"
  using buf_pool_alloc_fresh [OF mem_pool_content, of 12] by auto

end
