(* ===== verification/Htc.thy ===== *)
theory Htc
  imports Buf_Pool
begin

text \<open>
  The host-target communication layer (\<^verbatim>\<open>htc.c\<close>): endpoints with credit-based flow control on
  top of the host interface (HIF). The state is the \<^verbatim>\<open>HTC_CONTEXT\<close>, the buffer memory and the
  log of the calls HTC makes into the HIF, newest last. The answers of the HIF and the
  callbacks that the services register through function pointers are the fields of a record
  \<open>htc_env\<close>, an argument of the operations; the callbacks are themselves partial state
  transformers, so they may call back into HTC. \<open>app\<close> is the
  state of the services above HTC, which HTC itself never touches.

  The firmware runs on a big-endian core: \<^verbatim>\<open>adf_os_htons\<close> and \<^verbatim>\<open>adf_os_ntohs\<close> are the identity and a
  16-bit field is stored high byte first.
\<close>

section \<open>Byte access\<close>

definition wr8 :: "addr \<Rightarrow> u8 \<Rightarrow> fw_mem \<Rightarrow> fw_mem" where
  "wr8 a v m = m\<lparr>bytes := (bytes m)(a := v)\<rparr>"

definition wr16 :: "addr \<Rightarrow> u16 \<Rightarrow> fw_mem \<Rightarrow> fw_mem" where
  "wr16 a v m = wr8 (a + 1) (ucast v) (wr8 a (ucast (drop_bit 8 v)) m)"

definition rd8 :: "fw_mem \<Rightarrow> addr \<Rightarrow> u8" where
  "rd8 m a = bytes m a"

definition rd16 :: "fw_mem \<Rightarrow> addr \<Rightarrow> u16" where
  "rd16 m a = push_bit 8 (ucast (bytes m a)) OR ucast (bytes m (a + 1))"

definition mem_zero :: "addr \<Rightarrow> nat \<Rightarrow> fw_mem \<Rightarrow> fw_mem" where
  "mem_zero a n m = m\<lparr>bytes := (\<lambda>x. if unat (x - a) < n then 0 else bytes m x)\<rparr>"

section \<open>State\<close>

datatype svc = Control_Service | Service nat

record HTC_ENDPOINT =
  CreditsToReturn :: u16
  pService :: "svc option"
  CreditReturnThreshhold :: u16
  CreditsConsumed :: u16
  ConnectionFlags :: u16
  PendingCreditReports :: int
  DownLinkPipeID :: u8
  UpLinkPipeID :: u8

record HTC_SERVICE =
  ServiceID :: u16
  ServiceFlags :: u16
  MaxSvcMsgSize :: u16

datatype hif_call =
    HIF_send_buffer u8 addr
  | HIF_return_recv_buf u8 addr
  | HIF_config_pipe u8 u8
  | HIF_start

text \<open>
  \<open>services\<close> are the service objects the modules own, \<open>pServiceList\<close> the indices of the
  registered ones from the head of the linked list on.
\<close>

record 'a htc =
  Endpoints :: "HTC_ENDPOINT list"
  EpHostNeedsCreditMap :: u32
  EpCreditPendingMap :: u32
  CurrentEpIndex :: nat
  services :: "HTC_SERVICE list"
  pServiceList :: "nat list"
  RecvBufferSize :: u32
  StateFlags :: u32
  TotalCredits :: int
  TotalCreditsAssigned :: int
  MaxEpPendingCreditRpts :: int
  mem :: fw_mem
  hif_log :: "hif_call list"
  app :: 'a

record 'a htc_env =
  HIF_get_max_msg_len :: "u8 \<Rightarrow> u32"
  HIF_get_reserved_headroom :: u32
  HIF_is_pipe_supported :: "u8 \<Rightarrow> bool"
  HIF_default_pipes :: "u8 \<times> u8"
  ProcessConnect :: "nat \<Rightarrow> nat \<Rightarrow> addr \<Rightarrow> u8 \<Rightarrow> addr \<Rightarrow> 'a htc \<Rightarrow> (u8 \<times> u8 \<times> 'a htc) option"
  ProcessRecvMsg :: "nat \<Rightarrow> nat \<Rightarrow> addr \<Rightarrow> addr \<Rightarrow> 'a htc \<Rightarrow> 'a htc option"
  ProcessSendBufferComplete :: "nat \<Rightarrow> nat \<Rightarrow> addr \<Rightarrow> 'a htc \<Rightarrow> 'a htc option"
  SetupCompleteCb :: "('a htc \<Rightarrow> 'a htc option) option"

abbreviation (input) ENDPOINT_MAX :: nat where "ENDPOINT_MAX \<equiv> 22"
abbreviation (input) HTC_HDR_LENGTH :: u32 where "HTC_HDR_LENGTH \<equiv> 8"
abbreviation (input) HTC_STATE_SETUP_COMPLETE :: u32 where "HTC_STATE_SETUP_COMPLETE \<equiv> 1"
abbreviation (input) HTC_SEND_CREDIT_UPDATE_SOON :: u32 where "HTC_SEND_CREDIT_UPDATE_SOON \<equiv> 2"
abbreviation (input) HTC_FLAGS_CREDIT_RPT :: u8 where "HTC_FLAGS_CREDIT_RPT \<equiv> 0x20"
abbreviation (input) HTC_FLAGS_BUF_HDR :: u8 where "HTC_FLAGS_BUF_HDR \<equiv> 0x40"

definition log_hif :: "hif_call \<Rightarrow> 'a htc \<Rightarrow> 'a htc" where
  "log_hif c s = s\<lparr>hif_log := hif_log s @ [c]\<rparr>"

section \<open>Credit thresholds\<close>

text \<open>\<^verbatim>\<open>A_INT16\<close> arithmetic: the sum wraps at 16 bits, the shifts are arithmetic.\<close>

definition AdjustCreditThreshold :: "HTC_ENDPOINT \<Rightarrow> HTC_ENDPOINT" where
  "AdjustCreditThreshold ep =
     (let creditsOutstanding = CreditsToReturn ep + CreditsConsumed ep;
          level = ConnectionFlags ep AND 3;
          creditsOutstanding =
            (if level = 0 then word_of_int (sint creditsOutstanding div 4)
             else if level = 1 then word_of_int (sint creditsOutstanding div 2)
             else if level = 2 then word_of_int (sint creditsOutstanding * 3 div 4)
             else creditsOutstanding)
      in ep\<lparr>CreditReturnThreshhold := creditsOutstanding\<rparr>)"

definition CHECK_AND_ADJUST_CREDIT_THRESHOLD :: "HTC_ENDPOINT \<Rightarrow> HTC_ENDPOINT" where
  "CHECK_AND_ADJUST_CREDIT_THRESHOLD ep =
     (if ConnectionFlags ep AND 4 \<noteq> 0 then AdjustCreditThreshold ep else ep)"

section \<open>Control buffers\<close>

definition HTC_GetReservedHeadroom :: "'a htc_env \<Rightarrow> u32" where
  "HTC_GetReservedHeadroom env = HTC_HDR_LENGTH + HIF_get_reserved_headroom env"

definition HTCAllocMsgBuffer :: "'a htc_env \<Rightarrow> 'a htc \<Rightarrow> (addr \<times> 'a htc) option" where
  "HTCAllocMsgBuffer env s = do {
     (p, m) \<leftarrow> buf_pool_static_alloc_buf POOL_ID_HTC_CONTROL (HTC_GetReservedHeadroom env) (mem s);
     Some (p, s\<lparr>mem := m\<rparr>) }"

definition HTCFreeMsgBuffer :: "addr \<Rightarrow> 'a htc \<Rightarrow> 'a htc option" where
  "HTCFreeMsgBuffer buf s = do {
     m \<leftarrow> buf_pool_static_free_buf POOL_ID_HTC_CONTROL buf (mem s);
     Some (s\<lparr>mem := m\<rparr>) }"

section \<open>Sending\<close>

text \<open>
  The loop of \<^verbatim>\<open>_HTC_SendMsg\<close> that appends credit reports. \<open>room\<close> and \<open>total\<close> are C ints that
  stay far below 2^31; a shift by 32 or more has no defined value.
\<close>

function trailer_loop :: "addr \<Rightarrow> addr \<Rightarrow> nat \<Rightarrow> int \<Rightarrow> u32 \<Rightarrow> int \<Rightarrow> 'a htc \<Rightarrow> (u32 \<times> int \<times> 'a htc) option" where
  "trailer_loop buf pRecHdr i room creditsPendingMap totalReportBytes s =
     (if creditsPendingMap \<noteq> 0 \<and> room \<ge> 2 then
        if i \<ge> 32 then None
        else let compareMask = push_bit i 1 in
          if compareMask AND creditsPendingMap \<noteq> 0 then do {
            (pCreditRpt, m) \<leftarrow> adf_nbuf_put_tail buf 2 (mem s);
            let creditsPendingMap = creditsPendingMap AND NOT compareMask;
            ep \<leftarrow> at (Endpoints s) i;
            let m = wr8 pCreditRpt (of_nat i) m;
            let m = wr8 (pCreditRpt + 1) (ucast (CreditsToReturn ep)) m;
            let ep = CHECK_AND_ADJUST_CREDIT_THRESHOLD (ep\<lparr>CreditsToReturn := 0\<rparr>);
            let m = wr8 (pRecHdr + 1) (rd8 m (pRecHdr + 1) + 2) m;
            let s = s\<lparr>mem := m, Endpoints := (Endpoints s)[i := ep]\<rparr>;
            if room - 2 < 2 then Some (creditsPendingMap, totalReportBytes + 2, s)
            else trailer_loop buf pRecHdr (i + 1) (room - 2) creditsPendingMap (totalReportBytes + 2) s }
          else trailer_loop buf pRecHdr (i + 1) room creditsPendingMap totalReportBytes s
      else Some (creditsPendingMap, totalReportBytes, s))"
  by auto
termination
  by (relation "measure (\<lambda>(_, _, i, _). 32 - i)") auto

declare trailer_loop.simps [simp del]

text \<open>
  The \<^verbatim>\<open>do { ... } while (FALSE)\<close> block: how many bytes are appended. \<^verbatim>\<open>roomForPipeMaxLen\<close> is
  unsigned, so the test for a negative value never succeeds and is the identity.
\<close>

definition HTC_append_trailer :: "'a htc_env \<Rightarrow> nat \<Rightarrow> addr \<Rightarrow> addr \<Rightarrow> 'a htc \<Rightarrow> (int \<times> 'a htc) option" where
  "HTC_append_trailer env EndpointID pBuffers pHTCHdr s = do {
     ep \<leftarrow> at (Endpoints s) EndpointID;
     let pipeMaxLen = HIF_get_max_msg_len env (DownLinkPipeID ep);
     headroom \<leftarrow> adf_nbuf_headroom (mem s) pBuffers;
     len \<leftarrow> adf_nbuf_len (mem s) pBuffers;
     let roomForPipeMaxLen = pipeMaxLen - headroom - len;
     tailroom \<leftarrow> adf_nbuf_tailroom (mem s) pBuffers;
     let room = sint (if tailroom < roomForPipeMaxLen then tailroom else roomForPipeMaxLen);
     if room < 4 then Some (0, s)
     else if EpCreditPendingMap s = 0 then Some (0, s)
     else do {
       (pRecHdr, m) \<leftarrow> adf_nbuf_put_tail pBuffers 2 (mem s);
       let m = wr8 pRecHdr 1 m;
       let m = wr8 (pRecHdr + 1) 0 m;
       (creditsPendingMap, totalReportBytes, s) \<leftarrow>
         trailer_loop pBuffers pRecHdr 0 (room - 2) (EpCreditPendingMap s) 2 (s\<lparr>mem := m\<rparr>);
       let s = s\<lparr>EpCreditPendingMap := creditsPendingMap\<rparr>;
       let m = wr8 (pHTCHdr + 4) (word_of_int totalReportBytes) (mem s);
       let m = wr8 (pHTCHdr + 1) (rd8 m (pHTCHdr + 1) OR 2) m;
       Some (totalReportBytes, s\<lparr>mem := m\<rparr>) } }"

definition HTC_SendMsg :: "'a htc_env \<Rightarrow> nat \<Rightarrow> addr \<Rightarrow> 'a htc \<Rightarrow> 'a htc option" where
  "HTC_SendMsg env EndpointID pBuffers s = do {
     totsz \<leftarrow> adf_nbuf_len (mem s) pBuffers;
     (pHTCHdr, m) \<leftarrow> adf_nbuf_push_head pBuffers HTC_HDR_LENGTH (mem s);
     m \<leftarrow> upd_vbuf pBuffers (\<lambda>b. b\<lparr>ctx := (ctx b)[1 := ctx b ! 1 OR HTC_FLAGS_BUF_HDR,
                                               0 := of_nat EndpointID]\<rparr>) m;
     let m = wr8 (pHTCHdr + 1) 0 m;
     let m = wr8 pHTCHdr (of_nat EndpointID) m;
     (added, s) \<leftarrow> HTC_append_trailer env EndpointID pBuffers pHTCHdr (s\<lparr>mem := m\<rparr>);
     let m = wr16 (pHTCHdr + 2) (word_of_int (uint totsz + added)) (mem s);
     ep \<leftarrow> at (Endpoints s) EndpointID;
     Some (log_hif (HIF_send_buffer (DownLinkPipeID ep) pBuffers) (s\<lparr>mem := m\<rparr>)) }"

text \<open>A report owed to one endpoint is counted in that endpoint and marked in the buffer's context.\<close>

definition mark_credit_buffer :: "nat option \<Rightarrow> addr \<Rightarrow> 'a htc \<Rightarrow> 'a htc option" where
  "mark_credit_buffer pEndpoint pCredBuffer s =
     (case pEndpoint of None \<Rightarrow> Some s
      | Some i \<Rightarrow> do {
          ep \<leftarrow> at (Endpoints s) i;
          m \<leftarrow> upd_vbuf pCredBuffer
            (\<lambda>b. b\<lparr>ctx := (ctx b)[1 := of_nat i OR HTC_FLAGS_CREDIT_RPT]\<rparr>) (mem s);
          Some (s\<lparr>Endpoints := (Endpoints s)[i :=
                    ep\<lparr>PendingCreditReports := PendingCreditReports ep + 1\<rparr>], mem := m\<rparr>) })"

definition send_credit_report :: "'a htc_env \<Rightarrow> nat option \<Rightarrow> 'a htc \<Rightarrow> 'a htc option" where
  "send_credit_report env pEndpoint s = do {
     (pCredBuffer, s) \<leftarrow> HTCAllocMsgBuffer env s;
     if pCredBuffer = NULL
     then Some (s\<lparr>StateFlags := StateFlags s OR HTC_SEND_CREDIT_UPDATE_SOON\<rparr>)
     else do {
       s \<leftarrow> mark_credit_buffer pEndpoint pCredBuffer s;
       HTC_SendMsg env 0 pCredBuffer s } }"

definition HTCCheckAndSendCreditReport :: "'a htc_env \<Rightarrow> u32 \<Rightarrow> nat option \<Rightarrow> 'a htc \<Rightarrow> 'a htc option" where
  "HTCCheckAndSendCreditReport env EpMask pEndpoint s =
     (if EpHostNeedsCreditMap s AND EpMask = 0 then Some s
      else if EpCreditPendingMap s AND EpMask = 0 then Some s
      else do {
        held \<leftarrow> (case pEndpoint of None \<Rightarrow> Some 0
          | Some i \<Rightarrow> do {
              ep \<leftarrow> at (Endpoints s) i;
              Some (if CreditReturnThreshhold ep \<noteq> 0 \<and>
                       sint (CreditsToReturn ep) < sint (CreditReturnThreshhold ep) then (1 :: nat)
                    else if PendingCreditReports ep \<ge> MaxEpPendingCreditRpts s then 2 else 0) });
        if held = 1 then Some s
        else if held = 2 then Some (s\<lparr>StateFlags := StateFlags s OR HTC_SEND_CREDIT_UPDATE_SOON\<rparr>)
        else send_credit_report env pEndpoint s })"

section \<open>Returning receive buffers\<close>

definition ReturnBuffers :: "'a htc_env \<Rightarrow> nat \<Rightarrow> addr \<Rightarrow> bool \<Rightarrow> 'a htc \<Rightarrow> 'a htc option" where
  "ReturnBuffers env EndpointID pBuffers sendCreditFlag s = do {
     (_, m) \<leftarrow> adf_nbuf_push_head pBuffers HTC_HDR_LENGTH (mem s);
     ep \<leftarrow> at (Endpoints s) EndpointID;
     let s = log_hif (HIF_return_recv_buf (UpLinkPipeID ep) pBuffers) (s\<lparr>mem := m\<rparr>);
     if StateFlags s AND HTC_STATE_SETUP_COMPLETE \<noteq> 0 then do {
       let epCreditMask = push_bit EndpointID 1;
       let s = s\<lparr>Endpoints := (Endpoints s)[EndpointID :=
                   ep\<lparr>CreditsToReturn := CreditsToReturn ep + 1,
                      CreditsConsumed := CreditsConsumed ep - 1\<rparr>],
                 EpCreditPendingMap := EpCreditPendingMap s OR epCreditMask\<rparr>;
       if sendCreditFlag then HTCCheckAndSendCreditReport env epCreditMask (Some EndpointID) s
       else Some s }
     else Some (s\<lparr>TotalCredits := TotalCredits s + 1\<rparr>) }"

definition HTC_ReturnBuffers :: "'a htc_env \<Rightarrow> nat \<Rightarrow> addr \<Rightarrow> 'a htc \<Rightarrow> 'a htc option" where
  "HTC_ReturnBuffers env EndpointID pBuffers s = ReturnBuffers env EndpointID pBuffers True s"

partial_function (option) return_list_loop :: "'a htc_env \<Rightarrow> nat \<Rightarrow> addr \<Rightarrow> 'a htc \<Rightarrow> 'a htc option" where
  "return_list_loop env EndpointID netbuf s =
     (if netbuf \<noteq> NULL then do {
        n \<leftarrow> adf_nbuf_queue_next (mem s) netbuf;
        s \<leftarrow> ReturnBuffers env EndpointID netbuf False s;
        return_list_loop env EndpointID n s }
      else Some s)"

definition HTC_ReturnBuffersList :: "'a htc_env \<Rightarrow> nat \<Rightarrow> nbuf_qhead \<Rightarrow> 'a htc \<Rightarrow> 'a htc option" where
  "HTC_ReturnBuffersList env EndpointID bufHead s = do {
     s \<leftarrow> return_list_loop env EndpointID (adf_nbuf_queue_first bufHead) s;
     require (EndpointID < length (Endpoints s));
     HTCCheckAndSendCreditReport env (push_bit EndpointID 1) (Some EndpointID) s }"

section \<open>Setup\<close>

definition HTC_RegisterService :: "nat \<Rightarrow> 'a htc \<Rightarrow> 'a htc" where
  "HTC_RegisterService i s = s\<lparr>pServiceList := i # pServiceList s\<rparr>"

definition HTC_Ready :: "'a htc_env \<Rightarrow> 'a htc \<Rightarrow> 'a htc option" where
  "HTC_Ready env s = do {
     (pBuffer, s) \<leftarrow> HTCAllocMsgBuffer env s;
     (p, m) \<leftarrow> adf_nbuf_put_tail pBuffer 8 (mem s);
     let m = mem_zero p 8 m;
     let m = wr16 p 1 m;
     let m = wr16 (p + 4) (ucast (RecvBufferSize s)) m;
     let m = wr16 (p + 2) (word_of_int (TotalCredits s)) m;
     let m = wr8 (p + 6) (of_nat ENDPOINT_MAX) m;
     HTC_SendMsg env 0 pBuffer (s\<lparr>mem := m\<rparr>) }"

text \<open>The search in \<^verbatim>\<open>HTCProcessConnectMsg\<close>: the number of endpoints is tested before each match.\<close>

datatype svc_search = Svc_Not_Found | Svc_No_Resources | Svc_Found nat

fun find_service :: "HTC_SERVICE list \<Rightarrow> nat \<Rightarrow> u16 \<Rightarrow> nat list \<Rightarrow> svc_search option" where
  "find_service svcs cur sid [] = Some Svc_Not_Found"
| "find_service svcs cur sid (i # is) =
     (if cur \<ge> ENDPOINT_MAX then Some Svc_No_Resources
      else do {
        sv \<leftarrow> at svcs i;
        if sid = ServiceID sv then Some (Svc_Found i) else find_service svcs cur sid is })"

definition bind_endpoint :: "nat \<Rightarrow> addr \<Rightarrow> 'a htc \<Rightarrow> 'a htc option" where
  "bind_endpoint i pMsg s = do {
     let cur = CurrentEpIndex s;
     ep \<leftarrow> at (Endpoints s) cur;
     sv \<leftarrow> at (services s) i;
     Some (s\<lparr>Endpoints := (Endpoints s)[cur := ep\<lparr>pService := Some (Service i),
                 ConnectionFlags := rd16 (mem s) (pMsg + 4), DownLinkPipeID := rd8 (mem s) (pMsg + 6),
                 UpLinkPipeID := rd8 (mem s) (pMsg + 7)\<rparr>],
             services := (services s)[i := sv\<lparr>ServiceFlags := ServiceFlags sv OR 1\<rparr>],
             CurrentEpIndex := cur + 1\<rparr>) }"

definition HTCProcessConnectMsg :: "'a htc_env \<Rightarrow> addr \<Rightarrow> 'a htc \<Rightarrow> 'a htc option" where
  "HTCProcessConnectMsg env pMsg s = do {
     let serviceId = rd16 (mem s) (pMsg + 2);
     (pBuffer, s) \<leftarrow> HTCAllocMsgBuffer env s;
     (p, m) \<leftarrow> adf_nbuf_put_tail pBuffer 10 (mem s);
     let m = mem_zero p 10 m;
     let m = wr16 p 3 m;
     let m = wr16 (p + 2) serviceId m;
     let s = s\<lparr>mem := m\<rparr>;
     r \<leftarrow> find_service (services s) (CurrentEpIndex s) serviceId (pServiceList s);
     (connectStatus, s) \<leftarrow>
       (case r of
          Svc_Not_Found \<Rightarrow> Some (1, s)
        | Svc_No_Resources \<Rightarrow> Some (3, s)
        | Svc_Found i \<Rightarrow> do {
            let metaLen = rd8 (mem s) (pMsg + 8);
            let pMetaDataIN = (if metaLen \<noteq> 0 then pMsg + 10 else NULL);
            (st, metaDataOutLen, s) \<leftarrow> ProcessConnect env i (CurrentEpIndex s) pMetaDataIN metaLen (p + 10) s;
            if st = 0 then do {
              sv \<leftarrow> at (services s) i;
              let m = wr8 (p + 8) metaDataOutLen (mem s);
              let m = wr8 (p + 5) (of_nat (CurrentEpIndex s)) m;
              let m = wr16 (p + 6) (MaxSvcMsgSize sv) m;
              s \<leftarrow> bind_endpoint i pMsg (s\<lparr>mem := m\<rparr>);
              Some (st, s) }
            else Some (st, s) });
     HTC_SendMsg env 0 pBuffer (s\<lparr>mem := wr8 (p + 4) connectStatus (mem s)\<rparr>) }"

definition HTCProcessConfigPipeMsg :: "'a htc_env \<Rightarrow> addr \<Rightarrow> 'a htc \<Rightarrow> 'a htc option" where
  "HTCProcessConfigPipeMsg env pMsg s = do {
     (pBuffer, s) \<leftarrow> HTCAllocMsgBuffer env s;
     (p, m) \<leftarrow> adf_nbuf_put_tail pBuffer 4 (mem s);
     let m = mem_zero p 4 m;
     let m = wr16 p 6 m;
     let pipe = rd8 m (pMsg + 2);
     let m = wr8 (p + 2) pipe m;
     let count = rd8 m (pMsg + 3);
     let s = s\<lparr>mem := m\<rparr>;
     let (status, s) =
       (if \<not> HIF_is_pipe_supported env pipe then (1, s)
        else if TotalCreditsAssigned s + uint count \<le> TotalCredits s
        then (0, log_hif (HIF_config_pipe pipe count)
                   (s\<lparr>TotalCreditsAssigned := TotalCreditsAssigned s + uint count\<rparr>))
        else (2, s));
     HTC_SendMsg env 0 pBuffer (s\<lparr>mem := wr8 (p + 3) status (mem s)\<rparr>) }"

section \<open>Control service and dispatch\<close>

definition HTCControlSvcProcessMsg :: "'a htc_env \<Rightarrow> nat \<Rightarrow> addr \<Rightarrow> addr \<Rightarrow> 'a htc \<Rightarrow> 'a htc option" where
  "HTCControlSvcProcessMsg env EndpointID hdr_buf pBuffers s = do {
     require (hdr_buf = NULL);
     (pMsg, _) \<leftarrow> adf_nbuf_peek_header (mem s) pBuffers;
     let msgid = rd16 (mem s) pMsg;
     let setupComplete = (msgid = 4);
     s \<leftarrow> (if msgid = 2 then HTCProcessConnectMsg env pMsg s
           else if msgid = 5 then HTCProcessConfigPipeMsg env pMsg s
           else Some s);
     s \<leftarrow> (if StateFlags s AND HTC_STATE_SETUP_COMPLETE \<noteq> 0
           then HTC_ReturnBuffers env 0 pBuffers s
           else do {
             (_, m) \<leftarrow> adf_nbuf_push_head pBuffers HTC_HDR_LENGTH (mem s);
             ep \<leftarrow> at (Endpoints s) EndpointID;
             Some (log_hif (HIF_return_recv_buf (UpLinkPipeID ep) pBuffers) (s\<lparr>mem := m\<rparr>)) });
     if setupComplete then do {
       let s = s\<lparr>StateFlags := StateFlags s OR HTC_STATE_SETUP_COMPLETE\<rparr>;
       (case SetupCompleteCb env of None \<Rightarrow> Some s | Some f \<Rightarrow> f s) }
     else Some s }"

definition HTCControlSvcProcessSendComplete :: "'a htc_env \<Rightarrow> addr \<Rightarrow> 'a htc \<Rightarrow> 'a htc option" where
  "HTCControlSvcProcessSendComplete env pBuffers s = do {
     c \<leftarrow> adf_nbuf_get_priv (mem s) pBuffers;
     s \<leftarrow> (if c ! 1 AND HTC_FLAGS_CREDIT_RPT \<noteq> 0 then do {
             let e = unat (c ! 1 AND 0x1F);
             ep \<leftarrow> at (Endpoints s) e;
             Some (s\<lparr>Endpoints := (Endpoints s)[e :=
                       ep\<lparr>PendingCreditReports := PendingCreditReports ep - 1\<rparr>]\<rparr>) }
           else Some s);
     s \<leftarrow> HTCFreeMsgBuffer pBuffers s;
     if StateFlags s AND HTC_SEND_CREDIT_UPDATE_SOON \<noteq> 0 then
       HTCCheckAndSendCreditReport env (- 1) None
         (s\<lparr>StateFlags := StateFlags s AND NOT HTC_SEND_CREDIT_UPDATE_SOON\<rparr>)
     else Some s }"

definition HTCSendDoneHandler :: "'a htc_env \<Rightarrow> addr \<Rightarrow> 'a htc \<Rightarrow> 'a htc option" where
  "HTCSendDoneHandler env buf s = do {
     c \<leftarrow> adf_nbuf_get_priv (mem s) buf;
     let current_eid = unat (c ! 0);
     (_, m) \<leftarrow> adf_nbuf_pull_head buf HTC_HDR_LENGTH (mem s);
     let s = s\<lparr>mem := m\<rparr>;
     ep \<leftarrow> at (Endpoints s) current_eid;
     sv \<leftarrow> pService ep;
     (case sv of
        Control_Service \<Rightarrow> HTCControlSvcProcessSendComplete env buf s
      | Service i \<Rightarrow> ProcessSendBufferComplete env i current_eid buf s) }"

text \<open>
  \<^verbatim>\<open>RedistributeCredit\<close> is empty, so a frame with that flag is dropped. The endpoint number of
  the frame is not compared with \<^verbatim>\<open>ENDPOINT_MAX\<close> by the code; a larger one indexes behind the
  array.
\<close>

definition account_received :: "nat \<Rightarrow> u8 \<Rightarrow> 'a htc \<Rightarrow> 'a htc option" where
  "account_received eid flags s = do {
     ep \<leftarrow> at (Endpoints s) eid;
     let eidMask = push_bit eid 1;
     let ep = (if StateFlags s AND HTC_STATE_SETUP_COMPLETE \<noteq> 0
               then ep\<lparr>CreditsConsumed := CreditsConsumed ep + 1\<rparr> else ep);
     Some (if flags AND 1 \<noteq> 0
           then s\<lparr>Endpoints := (Endpoints s)[eid := CHECK_AND_ADJUST_CREDIT_THRESHOLD ep],
                  EpHostNeedsCreditMap := EpHostNeedsCreditMap s OR eidMask\<rparr>
           else s\<lparr>Endpoints := (Endpoints s)[eid := ep\<lparr>CreditReturnThreshhold := 0\<rparr>],
                  EpHostNeedsCreditMap := EpHostNeedsCreditMap s AND NOT eidMask\<rparr>) }"

definition dispatch_received :: "'a htc_env \<Rightarrow> nat \<Rightarrow> addr \<Rightarrow> addr \<Rightarrow> 'a htc \<Rightarrow> 'a htc option" where
  "dispatch_received env eid hdr_buf buffer s = do {
     ep \<leftarrow> at (Endpoints s) eid;
     sv \<leftarrow> pService ep;
     (case sv of
        Control_Service \<Rightarrow> HTCControlSvcProcessMsg env eid hdr_buf buffer s
      | Service i \<Rightarrow> ProcessRecvMsg env i eid hdr_buf buffer s) }"

definition HTCMsgRecvHandler :: "'a htc_env \<Rightarrow> addr \<Rightarrow> addr \<Rightarrow> 'a htc \<Rightarrow> 'a htc option" where
  "HTCMsgRecvHandler env hdr_buf buffer s = do {
     let tmp_nbuf = (if hdr_buf = NULL then buffer else hdr_buf);
     (pHTCHdr, _) \<leftarrow> adf_nbuf_peek_header (mem s) tmp_nbuf;
     let eid = unat (rd8 (mem s) pHTCHdr);
     let flags = rd8 (mem s) (pHTCHdr + 1);
     if flags AND 4 \<noteq> 0 then Some s
     else do {
       s \<leftarrow> account_received eid flags s;
       (_, m) \<leftarrow> adf_nbuf_pull_head tmp_nbuf HTC_HDR_LENGTH (mem s);
       s \<leftarrow> dispatch_received env eid hdr_buf buffer (s\<lparr>mem := m\<rparr>);
       HTCCheckAndSendCreditReport env (push_bit eid 1) (Some eid) s } }"

definition HTC_ENDPOINT_zero :: HTC_ENDPOINT where
  "HTC_ENDPOINT_zero = \<lparr>CreditsToReturn = 0, pService = None, CreditReturnThreshhold = 0,
     CreditsConsumed = 0, ConnectionFlags = 0, PendingCreditReports = 0, DownLinkPipeID = 0,
     UpLinkPipeID = 0\<rparr>"

definition HTC_Init :: "'a htc_env \<Rightarrow> 'a \<Rightarrow> HTC_SERVICE list \<Rightarrow> u32 \<Rightarrow> int \<Rightarrow> fw_mem \<Rightarrow> 'a htc option" where
  "HTC_Init env a svcs creditSize creditNumber m = do {
     let (ul, dl) = HIF_default_pipes env;
     let s = \<lparr>Endpoints = (replicate ENDPOINT_MAX HTC_ENDPOINT_zero)[0 := HTC_ENDPOINT_zero
                \<lparr>pService := Some Control_Service, UpLinkPipeID := ul, DownLinkPipeID := dl\<rparr>],
              EpHostNeedsCreditMap = 0, EpCreditPendingMap = 0, CurrentEpIndex = 1,
              services = svcs, pServiceList = [], RecvBufferSize = creditSize, StateFlags = 0,
              TotalCredits = creditNumber, TotalCreditsAssigned = 0, MaxEpPendingCreditRpts = 3,
              mem = m, hif_log = [], app = a\<rparr>;
     let s = log_hif (HIF_config_pipe ul 1) s;
     m \<leftarrow> buf_pool_static_create_pool POOL_ID_HTC_CONTROL 4 64 (mem s);
     Some (log_hif HIF_start (s\<lparr>mem := m\<rparr>)) }"

end
