(* ===== verification/Htc_Send.thy ===== *)
theory Htc_Send
  imports Htc
begin

text \<open>
  What \<^verbatim>\<open>_HTC_SendMsg\<close> puts on the wire: the frame header, the unchanged payload and a trailer
  with the credit reports that fit. The lemmas follow the report loop turn by turn; the
  properties state the message bytes, and that a host which decodes them obtains exactly the
  credits the firmware gives up.
\<close>

section \<open>Appending to a buffer\<close>

lemma nbuf_descs_frame: "vbufs m' = vbufs m \<Longrightarrow> vdescs m' = vdescs m \<Longrightarrow> nbuf_descs m' = nbuf_descs m"
  by (intro ext) (simp add: nbuf_descs_def split: option.split)

text \<open>\<open>tail_desc m b ds l v d\<close>: buffer \<open>b\<close> has the descriptors \<open>ds @ [l]\<close>, and \<open>v\<close>, \<open>d\<close> are its
  header and its last descriptor.\<close>

definition tail_desc :: "fw_mem \<Rightarrow> addr \<Rightarrow> addr list \<Rightarrow> addr \<Rightarrow> VBUF \<Rightarrow> VDESC \<Rightarrow> bool" where
  "tail_desc m b ds l v d \<longleftrightarrow> b \<noteq> NULL \<and> vbufs m b = Some v \<and> nbuf_descs m b (ds @ [l]) \<and> vdescs m l = Some d"

definition desc_tail :: "VDESC \<Rightarrow> addr" where
  "desc_tail d = buf_addr d + ucast (data_offset d) + ucast (data_size d)"

definition desc_grow :: "u16 \<Rightarrow> VDESC \<Rightarrow> VDESC" where
  "desc_grow n d = d\<lparr>data_size := data_size d + n\<rparr>"

definition vbuf_grow :: "u16 \<Rightarrow> VBUF \<Rightarrow> VBUF" where
  "vbuf_grow n v = v\<lparr>buf_length := buf_length v + n\<rparr>"

definition mem_grow :: "addr \<Rightarrow> addr \<Rightarrow> u16 \<Rightarrow> fw_mem \<Rightarrow> fw_mem" where
  "mem_grow b l n m = m\<lparr>vdescs := (vdescs m)(l := map_option (desc_grow n) (vdescs m l)),
                        vbufs := (vbufs m)(b := map_option (vbuf_grow n) (vbufs m b))\<rparr>"

lemma desc_grow_add: "desc_grow n (desc_grow k d) = desc_grow (k + n) d"
  by (simp add: desc_grow_def add.assoc)

lemma desc_grow_sel [simp]: "buf_addr (desc_grow n d) = buf_addr d" "data_offset (desc_grow n d) = data_offset d"
  "data_size (desc_grow n d) = data_size d + n" "next_desc (desc_grow n d) = next_desc d"
  "buf_size (desc_grow n d) = buf_size d"
  by (simp_all add: desc_grow_def)

lemma tail_desc_last:
  assumes "tail_desc m b ds l v d"
  shows "adf_nbuf_last m b = Some l" "l \<noteq> NULL"
proof -
  have c: "chain (vd_next (vdescs m)) (desc_list v) (ds @ [l])" "b \<noteq> NULL" "vbufs m b = Some v"
    using assms by (auto simp: tail_desc_def nbuf_descs_def)
  show "adf_nbuf_last m b = Some l"
    using desc_last_chain [OF c(1)] c(2,3) by (simp add: adf_nbuf_last_def rd_vbuf_def)
  show "l \<noteq> NULL" using chain_not_NULL [OF c(1)] by auto
qed

lemma put_tail_eq:
  assumes "tail_desc m b ds l v d"
  shows "adf_nbuf_put_tail b len m = Some (desc_tail d, mem_grow b l (ucast len) m)"
    "tail_desc (mem_grow b l n m) b ds l (vbuf_grow n v) (desc_grow n d)"
proof -
  note L = tail_desc_last [OF assms]
  show "adf_nbuf_put_tail b len m = Some (desc_tail d, mem_grow b l (ucast len) m)"
    using assms L by (simp add: adf_nbuf_put_tail_def tail_desc_def mem_simps rd_vdesc_def desc_tail_def mem_grow_def
        desc_grow_def vbuf_grow_def)
  have "vd_next (vdescs (mem_grow b l n m)) = vd_next (vdescs m)"
    using assms by (auto simp: mem_grow_def vd_next_def fun_eq_iff tail_desc_def)
  then show "tail_desc (mem_grow b l n m) b ds l (vbuf_grow n v) (desc_grow n d)"
    using assms by (auto simp: tail_desc_def nbuf_descs_def vbuf_grow_def) (auto simp: mem_grow_def vbuf_grow_def)
qed

lemma tail_desc_wr8 [simp]: "tail_desc (wr8 a x m) b ds l v d = tail_desc m b ds l v d"
  by (simp add: tail_desc_def wr8_def nbuf_descs_frame [of "m\<lparr>bytes := _\<rparr>" m])

lemma tail_desc_mem: "mem s' = m \<Longrightarrow> tail_desc m b ds l v d \<Longrightarrow> tail_desc (mem s') b ds l v d"
  by simp

lemma desc_tail_grow: 
  assumes "unat (data_size d) + unat n < 65536"
  shows "desc_tail (desc_grow n d) = desc_tail d + ucast n"
proof -
  have "ucast (data_size d + n) = (ucast (data_size d) + ucast n :: u32)"
    using assms unat_u32_less by (intro unat_eqI) (simp add: unat_word_ariths)
  then show ?thesis by (simp add: desc_tail_def)
qed

section \<open>The credit report loop\<close>

definition rd_bytes :: "fw_mem \<Rightarrow> addr \<Rightarrow> nat \<Rightarrow> u8 list" where
  "rd_bytes m a n = map (\<lambda>k. bytes m (a + of_nat k)) [0..<n]"

lemma rd_bytes_Suc: "rd_bytes m a (Suc n) = bytes m a # rd_bytes m (a + 1) n"
  by (simp add: rd_bytes_def upt_0_Suc comp_def add.assoc del: upt_Suc)

lemma rd_bytes_cong:
  assumes "\<And>k. k < n \<Longrightarrow> bytes m (a + of_nat k) = bytes m' (a + of_nat k)"
  shows "rd_bytes m a n = rd_bytes m' a n"
  using assms by (simp add: rd_bytes_def)

text \<open>The endpoints whose credits a trailer with \<open>room\<close> bytes for reports carries: the pending
  ones from \<open>i\<close> on in ascending order, as many as fit.\<close>

definition pending_eps :: "nat \<Rightarrow> u32 \<Rightarrow> nat list" where
  "pending_eps i pend = filter (bit pend) [i..<32]"

definition reported_eps :: "nat \<Rightarrow> int \<Rightarrow> u32 \<Rightarrow> nat list" where
  "reported_eps i room pend = take (nat room div 2) (pending_eps i pend)"

definition report_bytes :: "HTC_ENDPOINT list \<Rightarrow> nat list \<Rightarrow> u8 list" where
  "report_bytes eps is = concat (map (\<lambda>i. [of_nat i, ucast (CreditsToReturn (eps ! i))]) is)"

definition ep_reported :: "HTC_ENDPOINT \<Rightarrow> HTC_ENDPOINT" where
  "ep_reported ep = CHECK_AND_ADJUST_CREDIT_THRESHOLD (ep\<lparr>CreditsToReturn := 0\<rparr>)"

definition eps_reported :: "nat list \<Rightarrow> HTC_ENDPOINT list \<Rightarrow> HTC_ENDPOINT list" where
  "eps_reported is eps = map (\<lambda>j. if j \<in> set is then ep_reported (eps ! j) else eps ! j) [0..<length eps]"

lemma pending_eps_Cons: "i < 32 \<Longrightarrow> pending_eps i pend = (if bit pend i then i # pending_eps (Suc i) pend
    else pending_eps (Suc i) pend)"
  by (simp add: pending_eps_def upt_conv_Cons)

lemma pending_eps_clear: "j < i \<Longrightarrow> pending_eps i (pend AND NOT (push_bit j 1)) = pending_eps i pend"
  by (auto simp: pending_eps_def bit_simps intro!: filter_cong)

lemma pending_eps_end: "32 \<le> i \<Longrightarrow> pending_eps i pend = []"
  by (simp add: pending_eps_def)

lemma u32_nonzero_bit: "x \<noteq> (0 :: u32) \<Longrightarrow> \<exists>j<32. bit x j"
  using u32_zeroI [of x] by blast


lemma bytes_wr8 [simp]: "bytes (wr8 a x m) = (bytes m)(a := x)"
  by (simp add: wr8_def)

lemma bytes_mem_grow [simp]: "bytes (mem_grow b l n m) = bytes m"
  by (simp add: mem_grow_def)

text \<open>One turn of the loop that reports endpoint \<open>i\<close>.\<close>

definition report_one :: "addr \<Rightarrow> addr \<Rightarrow> addr \<Rightarrow> addr \<Rightarrow> nat \<Rightarrow> 'a htc \<Rightarrow> 'a htc" where
  "report_one buf l t pRec i s =
     (let m = wr8 (t + 1) (ucast (CreditsToReturn (Endpoints s ! i))) (wr8 t (of_nat i) (mem_grow buf l 2 (mem s)))
      in s\<lparr>mem := wr8 (pRec + 1) (bytes m (pRec + 1) + 2) m,
           Endpoints := (Endpoints s)[i := ep_reported (Endpoints s ! i)]\<rparr>)"

lemma trailer_loop_report:
  assumes "tail_desc (mem s) buf ds l v d" "i < length (Endpoints s)" "i < 32" "bit pend i" "2 \<le> room"
  shows "trailer_loop buf pRec i room pend tot s =
    (if room - 2 < 2 then Some (pend AND NOT (push_bit i 1), tot + 2, report_one buf l (desc_tail d) pRec i s)
     else trailer_loop buf pRec (Suc i) (room - 2) (pend AND NOT (push_bit i 1)) (tot + 2)
            (report_one buf l (desc_tail d) pRec i s))"
proof -
  have p: "pend \<noteq> 0" "push_bit i 1 AND pend \<noteq> 0"
    using assms(4) and_push_bit_1 [of pend i] by (auto simp: and.commute)
  have "adf_nbuf_put_tail buf 2 (mem s) = Some (desc_tail d, mem_grow buf l 2 (mem s))"
    using put_tail_eq(1) [OF assms(1), of 2] by simp
  then show ?thesis
    using assms(2,3,5) p
    by (subst trailer_loop.simps)
      (simp add: at_def report_one_def Let_def rd8_def ep_reported_def del: push_bit_of_1)
qed

lemma trailer_loop_skip:
  assumes "i < 32" "\<not> bit pend i"
  shows "trailer_loop buf pRec i room pend tot s =
    (if pend \<noteq> 0 \<and> 2 \<le> room then trailer_loop buf pRec (Suc i) room pend tot s else Some (pend, tot, s))"
proof -
  have p: "push_bit i 1 AND pend = 0"
    using assms(2) and_push_bit_1 [of pend i] by (auto simp: and.commute)
  show ?thesis
    using assms(1) by (subst trailer_loop.simps) (simp add: p del: push_bit_of_1)
qed

text \<open>What a run of the loop that reports the endpoints \<open>is\<close> changes.\<close>

definition reported :: "addr \<Rightarrow> addr \<Rightarrow> addr \<Rightarrow> addr \<Rightarrow> nat list \<Rightarrow> 'a htc \<Rightarrow> 'a htc \<Rightarrow> bool" where
  "reported buf l t pRec is s s' \<longleftrightarrow>
     (\<exists>bs. s' = s\<lparr>mem := (mem_grow buf l (2 * of_nat (length is)) (mem s))\<lparr>bytes := bs\<rparr>,
               Endpoints := eps_reported is (Endpoints s)\<rparr> \<and>
       rd_bytes (mem s') t (2 * length is) = report_bytes (Endpoints s) is \<and>
       bs (pRec + 1) = bytes (mem s) (pRec + 1) + 2 * of_nat (length is) \<and>
       (\<forall>a. 2 * length is \<le> unat (a - t) \<longrightarrow> a \<noteq> pRec + 1 \<longrightarrow> bs a = bytes (mem s) a))"

lemma eps_reported_Nil [simp]: "eps_reported [] eps = eps"
  by (simp add: eps_reported_def map_nth)

lemma length_eps_reported [simp]: "length (eps_reported is eps) = length eps"
  by (simp add: eps_reported_def)

lemma nth_eps_reported: "j < length eps \<Longrightarrow> eps_reported is eps ! j =
    (if j \<in> set is then ep_reported (eps ! j) else eps ! j)"
  by (simp add: eps_reported_def)

lemma mem_grow_0: "mem_grow b l 0 m = m"
proof -
  have "desc_grow 0 = id" "vbuf_grow 0 = id" by (auto simp: desc_grow_def vbuf_grow_def)
  then show ?thesis by (simp add: mem_grow_def option.map_id)
qed

lemma mem_grow_mem_grow: "mem_grow b l n (mem_grow b l k m) = mem_grow b l (k + n) m"
proof -
  have "desc_grow n \<circ> desc_grow k = desc_grow (k + n)" "vbuf_grow n \<circ> vbuf_grow k = vbuf_grow (k + n)"
    by (auto simp: desc_grow_def vbuf_grow_def add.assoc)
  then show ?thesis by (simp add: mem_grow_def option.map_comp)
qed

lemma mem_grow_wr8: "mem_grow b l n (wr8 a x m) = wr8 a x (mem_grow b l n m)"
  by (simp add: mem_grow_def wr8_def)

lemma wr8_set_bytes [simp]: "(wr8 a x m)\<lparr>bytes := bs\<rparr> = m\<lparr>bytes := bs\<rparr>"
  by (simp add: wr8_def)

lemma reported_Nil: "reported buf l t pRec [] s s"
  unfolding reported_def
  by (rule exI [of _ "bytes (mem s)"]) (simp add: rd_bytes_def report_bytes_def mem_grow_0)

lemma report_bytes_cong:
  "(\<And>j. j \<in> set is \<Longrightarrow> CreditsToReturn (eps ! j) = CreditsToReturn (eps' ! j)) \<Longrightarrow>
   report_bytes eps is = report_bytes eps' is"
  by (simp add: report_bytes_def cong: map_cong)

lemma unat_offset: "k < 4294967296 \<Longrightarrow> unat (t + of_nat k - t :: u32) = k"
  by (simp add: unat_of_nat)

lemma ne_offset: "0 < k \<Longrightarrow> k < 4294967296 \<Longrightarrow> (t :: u32) + of_nat k \<noteq> t"
  using unat_offset [of k t] by auto


lemma reported_Cons:
  assumes "reported buf l (t + 2) pRec is (report_one buf l t pRec i s) s'" "t = pRec + 2 + of_nat k"
    "i < length (Endpoints s)" "i \<notin> set is" "k + 2 * length is < 1000"
  shows "reported buf l t pRec (i # is) s s'"
proof -
  let ?s1 = "report_one buf l t pRec i s" and ?n = "length is"
  from assms(1) obtain bs where bs: "s' = ?s1\<lparr>mem := (mem_grow buf l (2 * of_nat ?n) (mem ?s1))\<lparr>bytes := bs\<rparr>,
        Endpoints := eps_reported is (Endpoints ?s1)\<rparr>"
    "rd_bytes (mem s') (t + 2) (2 * ?n) = report_bytes (Endpoints ?s1) is"
    "bs (pRec + 1) = bytes (mem ?s1) (pRec + 1) + 2 * of_nat ?n"
    "\<forall>a. 2 * ?n \<le> unat (a - (t + 2)) \<longrightarrow> a \<noteq> pRec + 1 \<longrightarrow> bs a = bytes (mem ?s1) a"
    unfolding reported_def by blast
  have b1: "bytes (mem ?s1) = (bytes (mem s))(t := of_nat i, t + 1 := ucast (CreditsToReturn (Endpoints s ! i)),
      pRec + 1 := bytes (mem s) (pRec + 1) + 2)"
  proof -
    have "t + 1 \<noteq> pRec + 1" "t \<noteq> pRec + 1"
      using ne_offset [of "k + 2" "pRec + 1"] ne_offset [of "k + 1" "pRec + 1"] assms(5)
      by (simp_all add: assms(2) algebra_simps)
    then show ?thesis by (simp add: report_one_def Let_def)
  qed
  have tt: "t \<noteq> pRec + 1" "t + 1 \<noteq> pRec + 1" "t \<noteq> t + 1"
    using ne_offset [of "k + 2" "pRec + 1"] ne_offset [of "k + 1" "pRec + 1"] ne_offset [of 1 t] assms(5)
    by (simp_all add: assms(2) algebra_simps)
  have neg: "unat (0 - 2 :: u32) = 4294967294" "unat (0 - 1 :: u32) = 4294967295"
    by (subst unat_sub_if_size, simp add: word_size)+
  have "t - (t + 2) = 0 - 2" "t + 1 - (t + 2) = 0 - 1" by (simp_all add: algebra_simps)
  then have far: "unat (t - (t + 2)) = 4294967294" "unat (t + 1 - (t + 2)) = 4294967295"
    by (simp_all only: neg)
  have two: "bs t = of_nat i" "bs (t + 1) = ucast (CreditsToReturn (Endpoints s ! i))"
    using bs(4) far tt assms(5) b1 by auto
  have rest: "report_bytes (Endpoints ?s1) is = report_bytes (Endpoints s) is"
    using assms(3,4) by (intro report_bytes_cong) (auto simp: report_one_def Let_def nth_list_update)
  have rd: "rd_bytes (mem s') t (2 * length (i # is)) = report_bytes (Endpoints s) (i # is)"
    using bs(1,2) two rest by (simp add: rd_bytes_Suc report_bytes_def add.assoc)
  have len: "bs (pRec + 1) = bytes (mem s) (pRec + 1) + 2 * of_nat (length (i # is))"
    using bs(3) b1 by (simp add: algebra_simps)
  have out: "bs a = bytes (mem s) a" if a: "2 * length (i # is) \<le> unat (a - t)" "a \<noteq> pRec + 1" for a
  proof -
    have "unat (a - (t + 2)) = unat (a - t) - 2"
      using a(1) by (simp add: diff_diff_eq [symmetric] unat_sub_if_size)
    then have "bs a = bytes (mem ?s1) a" using a bs(4) by simp
    moreover have "a \<noteq> t" "a \<noteq> t + 1" using a(1) by auto
    ultimately show ?thesis using b1 a(2) by simp
  qed
  have eps: "eps_reported is (Endpoints ?s1) = eps_reported (i # is) (Endpoints s)"
    using assms(3,4) by (auto simp: eps_reported_def report_one_def Let_def nth_list_update intro!: map_cong)
  have "s' = s\<lparr>mem := (mem_grow buf l (2 * of_nat (length (i # is))) (mem s))\<lparr>bytes := bs\<rparr>,
      Endpoints := eps_reported (i # is) (Endpoints s)\<rparr>"
    using bs(1) unfolding eps
    by (simp add: report_one_def Let_def mem_grow_wr8 mem_grow_mem_grow distrib_left)
  then show ?thesis using rd len out unfolding reported_def by blast
qed


lemma reported_eps_take:
  "2 \<le> room \<Longrightarrow> take (nat room div 2) (x # xs) = x # take (nat (room - 2) div 2) xs"
proof -
  assume "2 \<le> room"
  then have "nat room div 2 = Suc (nat (room - 2) div 2)" by (simp add: nat_diff_distrib)
  then show ?thesis by simp
qed

lemma reported_eps_room: "room < 2 \<Longrightarrow> reported_eps i room pend = []"
  by (simp add: reported_eps_def)

definition pend_cleared :: "nat list \<Rightarrow> u32 \<Rightarrow> u32" where
  "pend_cleared is pend = fold (\<lambda>i p. p AND NOT (push_bit i 1)) is pend"

lemma bit_pend_cleared: "bit (pend_cleared is pend) j \<longleftrightarrow> bit pend j \<and> j \<notin> set is"
  unfolding pend_cleared_def
proof (induction "is" arbitrary: pend)
  case (Cons i "is")
  then show ?case by (auto simp: bit_simps dest: bit_imp_le_length)
qed simp

lemma pending_eps_zero_iff:
  assumes "\<forall>j<i. \<not> bit pend j"
  shows "pending_eps i pend = [] \<longleftrightarrow> pend = 0"
proof
  assume e: "pending_eps i pend = []"
  show "pend = 0"
  proof (rule u32_zeroI)
    fix j :: nat assume "j < 32"
    then show "\<not> bit pend j" using e assms by (cases "j < i") (auto simp: pending_eps_def filter_empty_conv)
  qed
qed (simp add: pending_eps_def)

lemma set_pending_eps: "set (pending_eps i pend) = {j. i \<le> j \<and> j < 32 \<and> bit pend j}"
  by (auto simp: pending_eps_def)

lemma set_reported_eps: "j \<in> set (reported_eps i room pend) \<Longrightarrow> i \<le> j \<and> j < 32 \<and> bit pend j"
  by (auto simp: reported_eps_def set_pending_eps dest: in_set_takeD)

lemma length_reported_eps: "length (reported_eps i room pend) \<le> 32 - i" "2 * length (reported_eps i room pend) \<le> nat room"
proof -
  have "length (pending_eps i pend) \<le> 32 - i"
    using length_filter_le [of "bit pend" "[i..<32]"] by (simp add: pending_eps_def)
  then show "length (reported_eps i room pend) \<le> 32 - i" by (simp add: reported_eps_def)
  have "length (reported_eps i room pend) \<le> nat room div 2" by (simp add: reported_eps_def)
  then show "2 * length (reported_eps i room pend) \<le> nat room" by linarith
qed

lemma trailer_loop_reports:
  assumes "tail_desc (mem s) buf ds l v d" "\<forall>j. bit pend j \<longrightarrow> j < length (Endpoints s)" "\<forall>j<i. \<not> bit pend j"
    "i \<le> 32" "desc_tail d = pRec + 2 + of_nat k" "k + 2 * (32 - i) < 1000"
    "int (unat (data_size d)) + room < 65536" "0 \<le> room"
  shows "\<exists>s'. trailer_loop buf pRec i room pend tot s =
      Some (pend_cleared (reported_eps i room pend) pend, tot + 2 * int (length (reported_eps i room pend)), s') \<and>
    reported buf l (desc_tail d) pRec (reported_eps i room pend) s s'"
  using assms
proof (induction "32 - i" arbitrary: i room pend tot s v d k)
  case 0
  then have "pend = 0" using pending_eps_end [of i pend] pending_eps_zero_iff by simp
  then show ?case
    using reported_Nil
    by (subst trailer_loop.simps) (simp add: reported_eps_def pending_eps_def pend_cleared_def)
next
  case (Suc n)
  then have i: "i < 32" by simp
  show ?case
  proof (cases "bit pend i \<and> 2 \<le> room")
    case False
    then show ?thesis
    proof (cases "pend \<noteq> 0 \<and> 2 \<le> room")
      case True
      then have nb: "\<not> bit pend i" using False by simp
      have r: "reported_eps i room pend = reported_eps (Suc i) room pend"
        using i nb by (simp add: reported_eps_def pending_eps_Cons)
      have "n = 32 - Suc i" "\<forall>j<Suc i. \<not> bit pend j" "k + 2 * (32 - Suc i) < 1000"
        using Suc.hyps(2) Suc.prems(3,6) nb by (auto simp: less_Suc_eq)
      with Suc.hyps(1) [of "Suc i" s v d pend k room tot] Suc.prems i show ?thesis
        using trailer_loop_skip [OF i nb, of buf pRec room tot s] True by (simp add: r)
    next
      case nr: False
      have "reported_eps i room pend = []"
        using nr reported_eps_room by (auto simp: reported_eps_def pending_eps_def)
      then show ?thesis
        using nr reported_Nil by (subst trailer_loop.simps) (auto simp: pend_cleared_def)
    qed
  next
    case True
    let ?p = "pend AND NOT (push_bit i 1)" and ?s = "report_one buf l (desc_tail d) pRec i s"
    have iE: "i < length (Endpoints s)" using Suc.prems(2) True by simp
    note step = trailer_loop_report [OF Suc.prems(1) iE i, of pend room pRec tot]
    have "unat (2 :: u16) = 2" by simp
    then have sz: "unat (data_size d) + unat (2 :: u16) < 65536" using Suc.prems(7) True by linarith
    have r: "reported_eps i room pend = i # reported_eps (Suc i) (room - 2) ?p"
      using True i by (simp add: reported_eps_def pending_eps_Cons reported_eps_take pending_eps_clear
          del: push_bit_of_1)
    have ni: "i \<notin> set (reported_eps (Suc i) (room - 2) ?p)" by (auto dest: set_reported_eps)
    have pc: "pend_cleared (i # is) pend = pend_cleared is ?p" for "is" by (simp add: pend_cleared_def)
    have td: "tail_desc (mem ?s) buf ds l (vbuf_grow 2 v) (desc_grow 2 d)"
      using put_tail_eq(2) [OF Suc.prems(1), of 2] by (simp add: report_one_def Let_def)
    have dt: "desc_tail (desc_grow 2 d) = desc_tail d + 2" using desc_tail_grow [OF sz] by simp
    have ln: "k + 2 * length (reported_eps (Suc i) (room - 2) ?p) < 1000"
      using length_reported_eps(1) [of "Suc i" "room - 2" ?p] Suc.prems(6) by linarith
    have "\<exists>s'. (if room - 2 < 2 then Some (?p, tot + 2, ?s)
        else trailer_loop buf pRec (Suc i) (room - 2) ?p (tot + 2) ?s) =
        Some (pend_cleared (reported_eps (Suc i) (room - 2) ?p) ?p,
          tot + 2 + 2 * int (length (reported_eps (Suc i) (room - 2) ?p)), s') \<and>
      reported buf l (desc_tail d + 2) pRec (reported_eps (Suc i) (room - 2) ?p) ?s s'"
    proof (cases "room - 2 < 2")
      case True
      then show ?thesis using reported_Nil by (auto simp: reported_eps_room pend_cleared_def)
    next
      case False
      have h: "n = 32 - Suc i" "\<forall>j. bit ?p j \<longrightarrow> j < length (Endpoints ?s)" "\<forall>j<Suc i. \<not> bit ?p j"
        "Suc i \<le> 32" "desc_tail (desc_grow 2 d) = pRec + 2 + of_nat (k + 2)" "k + 2 + 2 * (32 - Suc i) < 1000"
        "int (unat (data_size (desc_grow 2 d))) + (room - 2) < 65536" "0 \<le> room - 2"
        using Suc.hyps(2) Suc.prems(2,3,5,6,7) i False sz unat_add_u16 [OF sz]
        by (auto simp: bit_simps less_Suc_eq report_one_def Let_def dt)
      from Suc.hyps(1) [OF h(1) td h(2-8), of "tot + 2"] show ?thesis using False dt by simp
    qed
    then obtain s' where s': "trailer_loop buf pRec i room pend tot s =
        Some (pend_cleared (reported_eps (Suc i) (room - 2) ?p) ?p,
          tot + 2 + 2 * int (length (reported_eps (Suc i) (room - 2) ?p)), s')"
      "reported buf l (desc_tail d + 2) pRec (reported_eps (Suc i) (room - 2) ?p) ?s s'"
      using step True by auto
    from reported_Cons [OF s'(2) Suc.prems(5) iE ni ln] s'(1) show ?thesis
      by (simp add: r pc)
  qed
qed


section \<open>Sending a message\<close>

text \<open>The room for reports that \<^verbatim>\<open>_HTC_SendMsg\<close> computes for a buffer of one descriptor, in
  terms of the buffer before the header is pushed.\<close>

definition report_room :: "u32 \<Rightarrow> VBUF \<Rightarrow> VDESC \<Rightarrow> int" where
  "report_room pipeMaxLen v d =
     (let tailroom = ucast (buf_size d) - ucast (data_offset d) - ucast (data_size d);
          roomForPipe = pipeMaxLen - ucast (data_offset d) - ucast (buf_length v)
      in sint (if tailroom < roomForPipe then tailroom else roomForPipe))"

definition msg_reports :: "u32 \<Rightarrow> VBUF \<Rightarrow> VDESC \<Rightarrow> u32 \<Rightarrow> nat list" where
  "msg_reports pipeMaxLen v d pend =
     (if report_room pipeMaxLen v d < 4 then [] else reported_eps 0 (report_room pipeMaxLen v d - 2) pend)"

text \<open>Pushing the header, on a buffer of one descriptor.\<close>

definition desc_push :: "VDESC \<Rightarrow> VDESC" where
  "desc_push d = d\<lparr>data_offset := data_offset d - 8, data_size := data_size d + 8\<rparr>"

definition msg_pushed :: "nat \<Rightarrow> addr \<Rightarrow> addr \<Rightarrow> VBUF \<Rightarrow> VDESC \<Rightarrow> fw_mem \<Rightarrow> fw_mem" where
  "msg_pushed eid buf l v d m = m\<lparr>vdescs := (vdescs m)(l \<mapsto> desc_push d),
     vbufs := (vbufs m)(buf \<mapsto> v\<lparr>buf_length := buf_length v + 8,
        ctx := (ctx v)[1 := ctx v ! 1 OR HTC_FLAGS_BUF_HDR, 0 := of_nat eid]\<rparr>)\<rparr>"

definition msg_hdr :: "VDESC \<Rightarrow> addr" where
  "msg_hdr d = buf_addr d + ucast (data_offset d - 8)"

lemma msg_pushed_tail:
  assumes "tail_desc m buf [] l v d"
  shows "tail_desc (msg_pushed eid buf l v d m) buf [] l
    (v\<lparr>buf_length := buf_length v + 8, ctx := (ctx v)[1 := ctx v ! 1 OR HTC_FLAGS_BUF_HDR, 0 := of_nat eid]\<rparr>)
    (desc_push d)"
  using assms
  by (auto simp: tail_desc_def msg_pushed_def nbuf_descs_def desc_push_def vd_next_def)

lemma ucast_ucast_16: "ucast (ucast (x :: u16) :: u32) = x"
  by (rule unat_eqI) (simp add: unat_ucast_32_16 unat_u16_less)

lemma HTC_SendMsg_pushed:
  assumes "tail_desc (mem s) buf [] l v d" "eid < length (Endpoints s)"
  shows "HTC_SendMsg env eid buf s = do {
     (added, s) \<leftarrow> HTC_append_trailer env eid buf (msg_hdr d)
        (s\<lparr>mem := wr8 (msg_hdr d) (of_nat eid) (wr8 (msg_hdr d + 1) 0 (msg_pushed eid buf l v d (mem s)))\<rparr>);
     ep \<leftarrow> at (Endpoints s) eid;
     Some (log_hif (HIF_send_buffer (DownLinkPipeID ep) buf)
        (s\<lparr>mem := wr16 (msg_hdr d + 2) (word_of_int (uint (buf_length v) + added)) (mem s)\<rparr>)) }"
proof -
  have b: "buf \<noteq> NULL" "vbufs (mem s) buf = Some v" "l \<noteq> NULL" "desc_list v = l" "vdescs (mem s) l = Some d"
    using assms(1) tail_desc_last(2) [OF assms(1)] by (auto simp: tail_desc_def nbuf_descs_def)
  have len: "adf_nbuf_len (mem s) buf = Some (ucast (buf_length v))" using b by (simp add: adf_nbuf_len_def rd_vbuf_def)
  have push: "(do { (p, m) \<leftarrow> adf_nbuf_push_head buf HTC_HDR_LENGTH (mem s);
      m \<leftarrow> upd_vbuf buf (\<lambda>b. b\<lparr>ctx := (ctx b)[1 := ctx b ! 1 OR HTC_FLAGS_BUF_HDR, 0 := of_nat eid]\<rparr>) m;
      Some (p, m) }) = Some (msg_hdr d, msg_pushed eid buf l v d (mem s))"
    using b by (simp add: adf_nbuf_push_head_def mem_simps rd_vbuf_def rd_vdesc_def msg_hdr_def msg_pushed_def desc_push_def)
  then obtain p m1 where p: "adf_nbuf_push_head buf HTC_HDR_LENGTH (mem s) = Some (p, m1)"
    "upd_vbuf buf (\<lambda>b. b\<lparr>ctx := (ctx b)[1 := ctx b ! 1 OR HTC_FLAGS_BUF_HDR, 0 := of_nat eid]\<rparr>) m1 =
      Some (msg_pushed eid buf l v d (mem s))" "p = msg_hdr d"
    by (auto split: Option.bind_splits)
  show ?thesis
    unfolding HTC_SendMsg_def len p(1) by (simp add: p(2,3) [unfolded One_nat_def] ucast_ucast_16)
qed

lemma push_rooms:
  assumes "tail_desc (mem s) buf [] l v d" "desc_ok d" "8 \<le> unat (data_offset d)"
    "tail_desc (mem s') buf [] l v' (desc_push d)" "buf_length v' = buf_length v + 8" "unat (buf_length v) + 8 < 65536"
  shows "\<exists>h n t. adf_nbuf_headroom (mem s') buf = Some h \<and> adf_nbuf_len (mem s') buf = Some n \<and>
    adf_nbuf_tailroom (mem s') buf = Some t \<and>
    sint (if t < pm - h - n then t else pm - h - n) = report_room pm v d"
proof -
  have b: "buf \<noteq> NULL" "vbufs (mem s') buf = Some v'" "l \<noteq> NULL" "desc_list v' = l" "vdescs (mem s') l = Some (desc_push d)"
    using assms(4) tail_desc_last(2) [OF assms(4)] by (auto simp: tail_desc_def nbuf_descs_def)
  have h: "ucast (data_offset d - 8) = (ucast (data_offset d) - 8 :: u32)"
    using assms(3) by (intro unat_eqI) (simp add: unat_sub_u16 unat_sub_if_size)
  have n: "ucast (buf_length v + 8) = (ucast (buf_length v) + 8 :: u32)"
    using assms(6) by (intro unat_eqI) (simp add: unat_add_u16 unat_word_ariths)
  have "unat (data_size d) + 8 < 65536" using assms(2,3) unat_u16_less [of "buf_size d"] by (simp add: desc_ok_def)
  then have z: "ucast (data_size d + 8) = (ucast (data_size d) + 8 :: u32)"
    by (intro unat_eqI) (simp add: unat_add_u16 unat_word_ariths)
  have "adf_nbuf_headroom (mem s') buf = Some (ucast (data_offset d) - 8)"
    "adf_nbuf_len (mem s') buf = Some (ucast (buf_length v) + 8)"
    "adf_nbuf_tailroom (mem s') buf = Some (ucast (buf_size d) - ucast (data_offset d) - ucast (data_size d))"
    using b h n z assms(5) tail_desc_last(1) [OF assms(4)]
    by (simp_all add: adf_nbuf_headroom_def adf_nbuf_len_def adf_nbuf_tailroom_def rd_vbuf_def rd_vdesc_def desc_push_def)
  moreover have "pm - (ucast (data_offset d) - 8) - (ucast (buf_length v) + 8) =
      pm - ucast (data_offset d) - (ucast (buf_length v) :: u32)" by simp
  then show ?thesis
    using calculation by (intro exI conjI) (assumption | simp only: report_room_def Let_def)+
qed

lemma sint_le_unat: "sint (x :: u32) \<le> int (unat x)"
proof -
  have "- (2 ^ 31) \<le> (0 :: int)" "0 \<le> uint x" by simp_all
  then have "- (2 ^ 31) \<le> uint x" by linarith
  then show ?thesis by (simp add: sint_uint signed_take_bit_int_less_eq_self_iff)
qed

lemma report_room_bound:
  assumes "desc_ok d" "0 \<le> report_room pm v d"
  shows "report_room pm v d \<le> int (unat (buf_size d)) - int (unat (data_offset d)) - int (unat (data_size d))"
proof -
  let ?t = "ucast (buf_size d) - ucast (data_offset d) - ucast (data_size d) :: u32"
  let ?p = "pm - ucast (data_offset d) - ucast (buf_length v)"
  let ?r = "if ?t < ?p then ?t else ?p"
  have t: "unat ?t = unat (buf_size d) - unat (data_offset d) - unat (data_size d)"
    using assms(1) by (simp add: unat_sub_if_size desc_ok_def)
  have "unat ?r \<le> unat ?t" by (auto simp: word_less_nat_alt)
  moreover have "sint ?r \<le> int (unat ?r)"
    by (rule sint_le_unat)
  ultimately have "sint ?r \<le> int (unat ?t)" by linarith
  then have "report_room pm v d \<le> int (unat ?t)" by (simp only: report_room_def Let_def)
  then show ?thesis using t assms(1) unfolding desc_ok_def by linarith
qed


lemma append_trailer_none:
  assumes "tail_desc (mem s) buf [] l v d" "desc_ok d" "8 \<le> unat (data_offset d)"
    "tail_desc (mem s') buf [] l v' (desc_push d)" "buf_length v' = buf_length v + 8" "unat (buf_length v) + 8 < 65536"
    "at (Endpoints s') eid = Some ep"
    "report_room (HIF_get_max_msg_len env (DownLinkPipeID ep)) v d < 4 \<or> EpCreditPendingMap s' = 0"
  shows "HTC_append_trailer env eid buf hdr s' = Some (0, s')"
proof -
  from push_rooms [OF assms(1-6), of "HIF_get_max_msg_len env (DownLinkPipeID ep)"] obtain h n t where
    r: "adf_nbuf_headroom (mem s') buf = Some h" "adf_nbuf_len (mem s') buf = Some n"
      "adf_nbuf_tailroom (mem s') buf = Some t"
      "sint (if t < HIF_get_max_msg_len env (DownLinkPipeID ep) - h - n then t
         else HIF_get_max_msg_len env (DownLinkPipeID ep) - h - n) =
       report_room (HIF_get_max_msg_len env (DownLinkPipeID ep)) v d"
    by blast
  show ?thesis
  proof (cases "report_room (HIF_get_max_msg_len env (DownLinkPipeID ep)) v d < 4")
    case True
    then show ?thesis by (simp add: HTC_append_trailer_def assms(7) r(1-3) r(4) split del: if_split)
  next
    case False
    then have "EpCreditPendingMap s' = 0" using assms(8) by simp
    then show ?thesis using False by (simp add: HTC_append_trailer_def assms(7) r(1-3) r(4) split del: if_split)
  qed
qed

lemma append_trailer_some:
  fixes env :: "'a htc_env"
  assumes "tail_desc (mem s) buf [] l v d" "desc_ok d" "8 \<le> unat (data_offset d)"
    "tail_desc (mem s') buf [] l v' (desc_push d)" "buf_length v' = buf_length v + 8" "unat (buf_length v) + 8 < 65536"
    "at (Endpoints s') eid = Some ep" "\<forall>j. bit (EpCreditPendingMap s') j \<longrightarrow> j < length (Endpoints s')"
  defines "room \<equiv> report_room (HIF_get_max_msg_len env (DownLinkPipeID ep)) v d"
  defines "is \<equiv> reported_eps 0 (room - 2) (EpCreditPendingMap s')"
  defines "t \<equiv> desc_tail (desc_push d)"
  assumes "4 \<le> room" "EpCreditPendingMap s' \<noteq> 0"
  shows "\<exists>s2. reported buf l (t + 2) t is
       (s'\<lparr>mem := wr8 (t + 1) 0 (wr8 t 1 (mem_grow buf l 2 (mem s')))\<rparr>) s2 \<and>
    HTC_append_trailer env eid buf hdr s' = Some (2 + 2 * int (length is),
      s2\<lparr>EpCreditPendingMap := pend_cleared is (EpCreditPendingMap s'),
         mem := wr8 (hdr + 1) (bytes (wr8 (hdr + 4) (2 + 2 * of_nat (length is)) (mem s2)) (hdr + 1) OR 2)
                  (wr8 (hdr + 4) (2 + 2 * of_nat (length is)) (mem s2))\<rparr>)"
proof -
  from push_rooms [OF assms(1-6), of "HIF_get_max_msg_len env (DownLinkPipeID ep)"] obtain h n tr where
    r: "adf_nbuf_headroom (mem s') buf = Some h" "adf_nbuf_len (mem s') buf = Some n"
      "adf_nbuf_tailroom (mem s') buf = Some tr"
      "sint (if tr < HIF_get_max_msg_len env (DownLinkPipeID ep) - h - n then tr
         else HIF_get_max_msg_len env (DownLinkPipeID ep) - h - n) = room"
    unfolding room_def by blast
  note put = put_tail_eq [OF assms(4)]
  let ?m = "wr8 (t + 1) 0 (wr8 t 1 (mem_grow buf l 2 (mem s')))"
  let ?s1 = "s'\<lparr>mem := ?m\<rparr>"
  have bound: "int (unat (data_offset d)) + int (unat (data_size d)) + room < 65536"
    using report_room_bound [OF assms(2), of "HIF_get_max_msg_len env (DownLinkPipeID ep)" v]
      unat_u16_less [of "buf_size d"] assms(12) unfolding room_def by linarith
  have "unat (8 :: u16) = 8" "unat (2 :: u16) = 2" by simp_all
  note two = this
  have s8: "unat (data_size d + 8) = unat (data_size d) + 8"
    using bound assms(3,12) two unat_add_u16 [of "data_size d" 8] by linarith
  have z: "unat (data_size (desc_push d)) = unat (data_size d) + 8" by (simp add: desc_push_def s8)
  have sz: "unat (data_size (desc_push d)) + unat (2 :: u16) < 65536" using bound assms(3,12) two z by linarith
  have dt: "desc_tail (desc_grow 2 (desc_push d)) = t + 2" using desc_tail_grow [OF sz] by (simp add: t_def)
  have td: "tail_desc (mem ?s1) buf [] l (vbuf_grow 2 v') (desc_grow 2 (desc_push d))"
    using put(2) [of 2] by simp
  have rm: "int (unat (data_size (desc_grow 2 (desc_push d)))) + (room - 2) < 65536" "0 \<le> room - 2"
    using bound z two assms(3,12) unat_add_u16 [OF sz] by (simp_all only: desc_grow_sel)
  have pre: "\<forall>j. bit (EpCreditPendingMap s') j \<longrightarrow> j < length (Endpoints ?s1)"
    "\<forall>j<0. \<not> bit (EpCreditPendingMap s') j" "0 \<le> (32 :: nat)"
    "desc_tail (desc_grow 2 (desc_push d)) = t + 2 + of_nat 0" "0 + 2 * (32 - 0) < (1000 :: nat)"
    using assms(8) dt by simp_all
  from trailer_loop_reports [OF td pre rm, of 2, folded is_def, unfolded dt]
  obtain s2 where s2: "trailer_loop buf t 0 (room - 2) (EpCreditPendingMap s') 2 ?s1 =
      Some (pend_cleared is (EpCreditPendingMap s'), 2 + 2 * int (length is), s2)"
    "reported buf l (t + 2) t is ?s1 s2"
    by blast
  have p1: "adf_nbuf_put_tail buf 2 (mem s') = Some (t, mem_grow buf l 2 (mem s'))"
    using put(1) [of 2] by (simp add: t_def)
  have "HTC_append_trailer env eid buf hdr s' = Some (2 + 2 * int (length is),
      s2\<lparr>EpCreditPendingMap := pend_cleared is (EpCreditPendingMap s'),
         mem := wr8 (hdr + 1) (bytes (wr8 (hdr + 4) (2 + 2 * of_nat (length is)) (mem s2)) (hdr + 1) OR 2)
                  (wr8 (hdr + 4) (2 + 2 * of_nat (length is)) (mem s2))\<rparr>)"
    using assms(12,13) s2(1)
    by (simp add: HTC_append_trailer_def assms(7) r(1-3) r(4) p1 rd8_def Let_def split del: if_split cong: if_cong)
  with s2(2) show ?thesis by blast
qed


lemma rd_bytes_frame:
  assumes "\<And>x. unat (x - a) < n \<Longrightarrow> bytes m x = bytes m' x" "n < 4294967296"
  shows "rd_bytes m a n = rd_bytes m' a n"
  using assms by (intro rd_bytes_cong) (simp add: unat_of_nat)

text \<open>An address at distance \<open>8\<close> or more from \<open>h\<close> is none of the written header bytes.\<close>

lemma hdr_addr_ne:
  assumes "8 \<le> unat (x - h :: u32)"
  shows "x \<noteq> h" "x \<noteq> h + 1" "x \<noteq> h + 2" "x \<noteq> h + 3" "x \<noteq> h + 4"
  using assms by auto

lemma unat_sub_below: "unat y < k \<Longrightarrow> k < 4294967296 \<Longrightarrow> unat (y - of_nat k :: u32) = unat y + 4294967296 - k"
  by (subst unat_sub_if_size) (simp add: word_size unat_of_nat)

lemma unat_hdr_off:
  assumes "unat (x - (h + 8) :: u32) < 65000"
  shows "unat (x - h) = unat (x - (h + 8)) + 8"
proof -
  have "unat (y + 8 :: u32) = unat y + 8" if "unat y < 65000" for y
    using that by (simp add: unat_word_ariths)
  from this [OF assms] show ?thesis by simp
qed

lemma rd16_wr16: "rd16 (wr16 a x m) a = x"
proof -
  have "push_bit 8 (ucast (ucast (drop_bit 8 x) :: u8)) OR ucast (ucast x :: u8) = x"
    by (rule bit_word_eqI) (auto simp: bit_simps)
  then show ?thesis by (simp add: rd16_def wr16_def)
qed

lemma bytes_wr16: "bytes (wr16 a x m) y = (if y = a + 1 then ucast x else if y = a then ucast (drop_bit 8 x) else bytes m y)"
  by (auto simp: wr16_def)


text \<open>
  The message a host sees after \<^verbatim>\<open>_HTC_SendMsg\<close> of a buffer with header \<open>v\<close> and descriptor
  \<open>d\<close>: header at \<open>h\<close>, the payload, then the trailer with the reports \<open>is\<close>.
\<close>

definition trailer_len :: "nat list \<Rightarrow> nat" where
  "trailer_len is = (if is = [] then 0 else 2 + 2 * length is)"

definition trailer_bytes :: "HTC_ENDPOINT list \<Rightarrow> nat list \<Rightarrow> u8 list" where
  "trailer_bytes eps is = (if is = [] then [] else [1, 2 * of_nat (length is)] @ report_bytes eps is)"

definition htc_message :: "nat \<Rightarrow> VBUF \<Rightarrow> VDESC \<Rightarrow> HTC_ENDPOINT list \<Rightarrow> nat list \<Rightarrow> fw_mem \<Rightarrow> fw_mem \<Rightarrow> bool" where
  "htc_message eid v d eps is m m' \<longleftrightarrow>
     (let h = msg_hdr d; n = unat (data_size d) in
      rd8 m' h = of_nat eid \<and> rd8 m' (h + 1) = (if is = [] then 0 else 2) \<and>
      rd16 m' (h + 2) = buf_length v + of_nat (trailer_len is) \<and>
      (is \<noteq> [] \<longrightarrow> rd8 m' (h + 4) = of_nat (trailer_len is)) \<and>
      rd_bytes m' (h + 8) n = rd_bytes m (h + 8) n \<and>
      rd_bytes m' (h + 8 + of_nat n) (trailer_len is) = trailer_bytes eps is)"

lemma msg_tail_addr:
  assumes "unat (data_size d) + 8 < 65536"
  shows "desc_tail (desc_push d) = msg_hdr d + 8 + of_nat (unat (data_size d))"
proof -
  have "ucast (data_size d + 8) = (ucast (data_size d) + 8 :: u32)"
    using assms by (intro unat_eqI) (simp add: unat_add_u16 unat_word_ariths)
  then show ?thesis by (simp add: desc_tail_def msg_hdr_def desc_push_def)
qed

lemma htc_message_none:
  assumes "unat (data_size d) + 8 < 65000"
    and "bytes m' = bytes (wr16 (msg_hdr d + 2) (buf_length v) (wr8 (msg_hdr d) (of_nat eid) (wr8 (msg_hdr d + 1) 0 m)))"
  shows "htc_message eid v d eps [] m m'"
proof -
  let ?h = "msg_hdr d" and ?n = "unat (data_size d)"
  let ?m = "wr8 ?h (of_nat eid) (wr8 (?h + 1) 0 m)"
  have e: "rd16 m' (?h + 2) = rd16 (wr16 (?h + 2) (buf_length v) ?m) (?h + 2)"
    by (simp add: rd16_def assms(2))
  have "bytes m' x = bytes m x" if "unat (x - (?h + 8)) < ?n" for x
  proof -
    have "unat (x - ?h) = unat (x - (?h + 8)) + 8"
      using that unat_hdr_off [of x ?h] assms(1) by linarith
    then have "8 \<le> unat (x - ?h)" by simp
    then show ?thesis using hdr_addr_ne [of x ?h] by (simp add: assms(2) bytes_wr16 add.assoc)
  qed
  then have "rd_bytes m' (?h + 8) ?n = rd_bytes m (?h + 8) ?n"
    using assms(1) by (intro rd_bytes_frame) simp_all
  then show ?thesis
    by (simp add: htc_message_def Let_def trailer_len_def trailer_bytes_def e rd16_wr16)
      (simp add: rd8_def assms(2) bytes_wr16 rd_bytes_def)
qed

lemma htc_message_some:
  assumes "unat (data_size d) + 8 < 60000" "is \<noteq> []" "length is \<le> 32"
    and m1: "bytes m1 = bytes (wr8 (desc_tail (desc_push d) + 1) 0 (wr8 (desc_tail (desc_push d)) 1
         (wr8 (msg_hdr d) (of_nat eid) (wr8 (msg_hdr d + 1) 0 m))))"
    and bs: "rd_bytes m2 (desc_tail (desc_push d) + 2) (2 * length is) = report_bytes eps is"
      "bytes m2 (desc_tail (desc_push d) + 1) = bytes m1 (desc_tail (desc_push d) + 1) + 2 * of_nat (length is)"
      "\<And>a. 2 * length is \<le> unat (a - (desc_tail (desc_push d) + 2)) \<Longrightarrow> a \<noteq> desc_tail (desc_push d) + 1 \<Longrightarrow>
        bytes m2 a = bytes m1 a"
    and m': "bytes m' = bytes (wr16 (msg_hdr d + 2) (buf_length v + of_nat (trailer_len is))
        (wr8 (msg_hdr d + 1) (bytes (wr8 (msg_hdr d + 4) (2 + 2 * of_nat (length is)) m2) (msg_hdr d + 1) OR 2)
          (wr8 (msg_hdr d + 4) (2 + 2 * of_nat (length is)) m2)))"
  shows "htc_message eid v d eps is m m'"
proof -
  let ?h = "msg_hdr d" and ?n = "unat (data_size d)" and ?k = "length is"
  let ?t = "desc_tail (desc_push d)"
  have t: "?t = ?h + 8 + of_nat ?n" using assms(1) by (intro msg_tail_addr) simp
  have th: "?t - ?h = of_nat (8 + ?n)" "?t + 1 - ?h = of_nat (9 + ?n)" by (simp_all add: t)
  have ut: "unat (?t - ?h) = 8 + ?n" "unat (?t + 1 - ?h) = 9 + ?n"
    unfolding th using assms(1) by (simp_all add: unat_of_nat del: of_nat_add of_nat_numeral)
  have before: "bytes m2 x = bytes m1 x" "x \<noteq> ?t" "x \<noteq> ?t + 1" if "unat (x - ?h) < 8 + ?n" for x
  proof -
    show ne: "x \<noteq> ?t" "x \<noteq> ?t + 1" using that ut by auto
    have "x - (?t + 2) = (x - ?h) - of_nat (10 + ?n)" by (simp add: t)
    moreover have "unat (of_nat (10 + ?n) :: u32) = 10 + ?n"
      using assms(1) by (simp add: unat_of_nat del: of_nat_add of_nat_numeral)
    ultimately have "unat (x - (?t + 2)) = unat (x - ?h) + 4294967296 - (10 + ?n)"
      using that assms(1) unat_sub_below [of "x - ?h" "10 + ?n"] by (simp only:)
    then show "bytes m2 x = bytes m1 x" using bs(3) [of x] ne assms(1,3) by simp
  qed
  have hd: "bytes m2 ?h = of_nat eid" "bytes m2 (?h + 1) = 0"
    using before [of ?h] before [of "?h + 1"] by (simp_all add: m1)
  have off8: "8 \<le> unat (x - ?h)" if "unat (x - (?h + 8)) < 65000" for x
    using unat_hdr_off [OF that] by linarith
  have m'x: "bytes m' x = bytes m2 x" if "unat (x - (?h + 8)) < 65000" for x
    using hdr_addr_ne [OF off8 [OF that]] by (simp add: m' bytes_wr16 add.assoc)
  have pay: "bytes m' x = bytes m x" if "unat (x - (?h + 8)) < ?n" for x
  proof -
    have o: "unat (x - ?h) = unat (x - (?h + 8)) + 8"
      using that assms(1) unat_hdr_off [of x ?h] by linarith
    then show ?thesis
      using m'x [of x] that assms(1) before [of x] hdr_addr_ne [of x ?h] by (simp add: m1)
  qed
  have r1: "rd_bytes m' (?h + 8) ?n = rd_bytes m (?h + 8) ?n"
    using assms(1) pay by (intro rd_bytes_frame) simp_all
  have neg: "unat (0 - 2 :: u32) = 4294967294" by (subst unat_sub_if_size) (simp add: word_size)
  have "?t - (?t + 2) = 0 - 2" by simp
  then have "bytes m2 ?t = 1"
    using bs(3) [of ?t] assms(3) neg by (simp add: m1)
  moreover have "bytes m2 (?t + 1) = 2 * of_nat ?k" using bs(2) by (simp add: m1)
  ultimately have tr: "rd_bytes m2 ?t (2 + 2 * ?k) = [1, 2 * of_nat ?k] @ report_bytes eps is"
    using bs(1) by (simp add: rd_bytes_Suc add.assoc)
  have "bytes m' x = bytes m2 x" if "unat (x - ?t) < 2 + 2 * ?k" for x
  proof (rule m'x)
    have "unat (y + z :: u32) \<le> unat y + unat z" for y z by (simp add: unat_word_ariths)
    from this [of "x - ?t" "ucast (data_size d)"] have "unat ((x - ?t) + ucast (data_size d)) < 65000"
      using that assms(1,3) by simp
    moreover have "(x - ?t) + ucast (data_size d) = x - (?h + 8)" by (simp add: t)
    ultimately show "unat (x - (?h + 8)) < 65000" by simp
  qed
  then have "rd_bytes m' ?t (2 + 2 * ?k) = rd_bytes m2 ?t (2 + 2 * ?k)"
    using assms(3) by (intro rd_bytes_frame) simp_all
  moreover have "rd16 m' (?h + 2) = buf_length v + of_nat (trailer_len is)"
  proof -
    have "rd16 m' (?h + 2) = rd16 (wr16 (?h + 2) (buf_length v + of_nat (trailer_len is))
        (wr8 (?h + 1) (bytes (wr8 (?h + 4) (2 + 2 * of_nat ?k) m2) (?h + 1) OR 2)
          (wr8 (?h + 4) (2 + 2 * of_nat ?k) m2))) (?h + 2)"
      by (simp add: rd16_def m')
    then show ?thesis by (simp only: rd16_wr16)
  qed
  ultimately show ?thesis
    using assms(2) r1 tr hd
    by (simp add: htc_message_def Let_def t trailer_bytes_def rd8_def)
      (simp add: m' bytes_wr16 trailer_len_def add.assoc)
qed


lemma ep_reported_sel [simp]: "DownLinkPipeID (ep_reported ep) = DownLinkPipeID ep"
  "UpLinkPipeID (ep_reported ep) = UpLinkPipeID ep" "pService (ep_reported ep) = pService ep"
  "CreditsToReturn (ep_reported ep) = 0" "CreditsConsumed (ep_reported ep) = CreditsConsumed ep"
  "PendingCreditReports (ep_reported ep) = PendingCreditReports ep"
  by (simp_all add: ep_reported_def CHECK_AND_ADJUST_CREDIT_THRESHOLD_def AdjustCreditThreshold_def Let_def)

lemma pend_cleared_Nil [simp]: "pend_cleared [] pend = pend"
  by (simp add: pend_cleared_def)

lemma reported_eps_0: "reported_eps i room 0 = []"
  by (simp add: reported_eps_def pending_eps_def)

lemma reported_eps_nonempty: "2 \<le> room \<Longrightarrow> pend \<noteq> 0 \<Longrightarrow> reported_eps 0 room pend \<noteq> []"
  using pending_eps_zero_iff [of 0 pend] by (auto simp: reported_eps_def)

lemma HTC_SendMsg_run:
  fixes env :: "'a htc_env"
  assumes td: "tail_desc (mem s) buf [] l v d" and ok: "desc_ok d" "8 \<le> unat (data_offset d)"
    "unat (buf_length v) + 8 < 65536" "unat (data_size d) + 8 < 60000"
    and ep: "at (Endpoints s) eid = Some ep" and pend: "\<forall>j. bit (EpCreditPendingMap s) j \<longrightarrow> j < length (Endpoints s)"
  defines "is \<equiv> msg_reports (HIF_get_max_msg_len env (DownLinkPipeID ep)) v d (EpCreditPendingMap s)"
  shows "\<exists>m'. HTC_SendMsg env eid buf s = Some (s\<lparr>mem := m', Endpoints := eps_reported is (Endpoints s),
        EpCreditPendingMap := pend_cleared is (EpCreditPendingMap s),
        hif_log := hif_log s @ [HIF_send_buffer (DownLinkPipeID ep) buf]\<rparr>) \<and>
      htc_message eid v d (Endpoints s) is (mem s) m' \<and>
      (\<exists>bs. m' = (mem_grow buf l (of_nat (trailer_len is)) (msg_pushed eid buf l v d (mem s)))\<lparr>bytes := bs\<rparr>)"
proof -
  let ?h = "msg_hdr d" and ?pm = "HIF_get_max_msg_len env (DownLinkPipeID ep)" and ?p = "EpCreditPendingMap s"
  let ?m0 = "wr8 ?h (of_nat eid) (wr8 (?h + 1) 0 (msg_pushed eid buf l v d (mem s)))"
  let ?s0 = "s\<lparr>mem := ?m0\<rparr>"
  have eid: "eid < length (Endpoints s)" "ep = Endpoints s ! eid" using ep by (simp_all add: at_Some_iff)
  note run = HTC_SendMsg_pushed [OF td eid(1), of env]
  have td0: "tail_desc (mem ?s0) buf [] l (v\<lparr>buf_length := buf_length v + 8,
      ctx := (ctx v)[1 := ctx v ! 1 OR HTC_FLAGS_BUF_HDR, 0 := of_nat eid]\<rparr>) (desc_push d)"
    using msg_pushed_tail [OF td, of eid] by simp
  show ?thesis
  proof (cases "report_room ?pm v d < 4 \<or> ?p = 0")
    case True
    then have isn: "is = []" by (auto simp: is_def msg_reports_def reported_eps_0)
    have tr: "HTC_append_trailer env eid buf ?h ?s0 = Some (0, ?s0)"
      using True ep by (intro append_trailer_none [OF td ok(1,2) td0 _ ok(3)]) simp_all
    let ?m' = "wr16 (?h + 2) (buf_length v) ?m0"
    have "HTC_SendMsg env eid buf s = Some (s\<lparr>mem := ?m', hif_log := hif_log s @ [HIF_send_buffer (DownLinkPipeID ep) buf]\<rparr>)"
      unfolding run tr using ep by (simp add: log_hif_def)
    moreover have "htc_message eid v d (Endpoints s) [] (mem s) ?m'"
      using ok(4) by (intro htc_message_none) (simp_all add: msg_pushed_def wr16_def)
    moreover have "?m' = (msg_pushed eid buf l v d (mem s))\<lparr>bytes := bytes ?m'\<rparr>" by (simp add: wr16_def wr8_def)
    ultimately show ?thesis unfolding isn by (auto simp: trailer_len_def mem_grow_0)
  next
    case False
    let ?is = "reported_eps 0 (report_room ?pm v d - 2) ?p" and ?t = "desc_tail (desc_push d)"
    have isn: "is = ?is" "?is \<noteq> []" "length ?is \<le> 32"
      using False reported_eps_nonempty length_reported_eps(1) [of 0] by (auto simp: is_def msg_reports_def)
    have pend0: "\<forall>j. bit (EpCreditPendingMap ?s0) j \<longrightarrow> j < length (Endpoints ?s0)" using pend by simp
    have ep0: "at (Endpoints ?s0) eid = Some ep" using ep by simp
    from append_trailer_some [OF td ok(1,2) td0 _ ok(3) ep0 pend0, of env ?h] False obtain s2 where
      s2: "reported buf l (?t + 2) ?t ?is (?s0\<lparr>mem := wr8 (?t + 1) 0 (wr8 ?t 1 (mem_grow buf l 2 ?m0))\<rparr>) s2"
      "HTC_append_trailer env eid buf ?h ?s0 = Some (2 + 2 * int (length ?is),
        s2\<lparr>EpCreditPendingMap := pend_cleared ?is ?p,
         mem := wr8 (?h + 1) (bytes (wr8 (?h + 4) (2 + 2 * of_nat (length ?is)) (mem s2)) (?h + 1) OR 2)
                  (wr8 (?h + 4) (2 + 2 * of_nat (length ?is)) (mem s2))\<rparr>)"
      by auto
    let ?m1 = "wr8 (?t + 1) 0 (wr8 ?t 1 (mem_grow buf l 2 ?m0))"
    from s2(1) obtain bs where bs: "s2 = s\<lparr>mem := (mem_grow buf l (2 * of_nat (length ?is)) ?m1)\<lparr>bytes := bs\<rparr>,
          Endpoints := eps_reported ?is (Endpoints s)\<rparr>"
      "rd_bytes (mem s2) (?t + 2) (2 * length ?is) = report_bytes (Endpoints s) ?is"
      "bs (?t + 1) = bytes ?m1 (?t + 1) + 2 * of_nat (length ?is)"
      "\<forall>a. 2 * length ?is \<le> unat (a - (?t + 2)) \<longrightarrow> a \<noteq> ?t + 1 \<longrightarrow> bs a = bytes ?m1 a"
      unfolding reported_def by auto
    have tl: "trailer_len ?is = 2 + 2 * length ?is" using isn(2) by (simp add: trailer_len_def)
    let ?m' = "wr16 (?h + 2) (buf_length v + of_nat (trailer_len ?is))
        (wr8 (?h + 1) (bytes (wr8 (?h + 4) (2 + 2 * of_nat (length ?is)) (mem s2)) (?h + 1) OR 2)
          (wr8 (?h + 4) (2 + 2 * of_nat (length ?is)) (mem s2)))"
    have "HTC_SendMsg env eid buf s = Some (s\<lparr>mem := ?m', Endpoints := eps_reported ?is (Endpoints s),
        EpCreditPendingMap := pend_cleared ?is ?p,
        hif_log := hif_log s @ [HIF_send_buffer (DownLinkPipeID ep) buf]\<rparr>)"
    proof -
      have "at (Endpoints s2) eid = Some (if eid \<in> set ?is then ep_reported ep else ep)"
        using bs(1) eid by (simp add: at_def nth_eps_reported)
      then show ?thesis unfolding run s2(2) using bs(1) by (simp add: log_hif_def tl)
    qed
    moreover have "htc_message eid v d (Endpoints s) ?is (mem s) ?m'"
      using ok(4) isn(2,3) bs(2-4) bs(1)
      by (intro htc_message_some [of d ?is ?m1 _ _ "mem s2"]) (simp_all add: msg_pushed_def)
    moreover have "?m' = (mem_grow buf l (of_nat (trailer_len ?is)) (msg_pushed eid buf l v d (mem s)))\<lparr>bytes := bytes ?m'\<rparr>"
    proof -
      have "mem s2 = (mem_grow buf l (of_nat (trailer_len ?is)) (msg_pushed eid buf l v d (mem s)))\<lparr>bytes := bs\<rparr>"
        using bs(1) by (simp add: tl mem_grow_wr8 mem_grow_mem_grow)
      then show ?thesis by (simp add: wr16_def wr8_def)
    qed
    ultimately show ?thesis unfolding isn(1) by blast
  qed
qed

section \<open>What the host decodes\<close>

fun parse_reports :: "u8 list \<Rightarrow> (nat \<times> nat) list" where
  "parse_reports (e # c # r) = (unat e, unat c) # parse_reports r"
| "parse_reports _ = []"

text \<open>The host finds the trailer at the end of the payload, its length in control byte 0.\<close>

definition host_credits :: "fw_mem \<Rightarrow> addr \<Rightarrow> (nat \<times> nat) list" where
  "host_credits m h =
     (if rd8 m (h + 1) AND 2 = 0 then []
      else let tl = unat (rd8 m (h + 4));
               start = h + 8 + of_nat (unat (rd16 m (h + 2)) - tl);
               t = rd_bytes m start tl
           in if t ! 0 = 1 then parse_reports (take (unat (t ! 1)) (drop 2 t)) else [])"

lemma parse_report_bytes:
  assumes "\<forall>i\<in>set is. i < 256" "\<forall>i\<in>set is. unat (CreditsToReturn (eps ! i)) < 256"
  shows "parse_reports (report_bytes eps is) = map (\<lambda>i. (i, unat (CreditsToReturn (eps ! i)))) is"
  using assms
proof (induction "is")
  case (Cons i "is")
  have "unat (ucast (CreditsToReturn (eps ! i)) :: u8) = unat (CreditsToReturn (eps ! i))"
    using Cons.prems(2) by (simp add: unsigned_ucast_eq take_bit_nat_eq_self)
  moreover have "unat (of_nat i :: u8) = i" using Cons.prems(1) by (simp add: unat_of_nat)
  ultimately show ?case using Cons by (simp add: report_bytes_def)
qed (simp add: report_bytes_def)

lemma length_report_bytes: "length (report_bytes eps is) = 2 * length is"
  by (induction "is") (simp_all add: report_bytes_def)

lemma host_credits_message:
  assumes "htc_message eid v d eps is m m'" "buf_length v = data_size d" "unat (data_size d) < 60000"
    "length is \<le> 32" "\<forall>i\<in>set is. i < 256" "\<forall>i\<in>set is. unat (CreditsToReturn (eps ! i)) < 256"
  shows "host_credits m' (msg_hdr d) = map (\<lambda>i. (i, unat (CreditsToReturn (eps ! i)))) is"
proof (cases "is = []")
  case True
  then show ?thesis using assms(1) by (simp add: htc_message_def Let_def host_credits_def)
next
  case False
  let ?k = "length is"
  have tl: "trailer_len is = 2 + 2 * ?k" using False by (simp add: trailer_len_def)
  have msg: "rd8 m' (msg_hdr d + 1) = 2" "rd16 m' (msg_hdr d + 2) = data_size d + of_nat (2 + 2 * ?k)"
    "rd8 m' (msg_hdr d + 4) = of_nat (2 + 2 * ?k)"
    "rd_bytes m' (msg_hdr d + 8 + of_nat (unat (data_size d))) (2 + 2 * ?k) =
      [1, 2 * of_nat ?k] @ report_bytes eps is"
    using assms(1,2) False unfolding htc_message_def Let_def tl trailer_bytes_def by simp_all
  have u4: "unat (of_nat (2 + 2 * ?k) :: u8) = 2 + 2 * ?k"
    using assms(4) by (subst unat_of_nat) simp
  have "unat (of_nat (2 + 2 * ?k) :: u16) = 2 + 2 * ?k"
    using assms(4) by (subst unat_of_nat) simp
  then have u2: "unat (data_size d + of_nat (2 + 2 * ?k)) = unat (data_size d) + (2 + 2 * ?k)"
    using assms(3,4) unat_add_u16 [of "data_size d" "of_nat (2 + 2 * ?k)"] by linarith
  have "unat (of_nat (2 * ?k) :: u8) = 2 * ?k" using assms(4) by (subst unat_of_nat) simp
  then have u1: "unat (2 * of_nat ?k :: u8) = 2 * ?k" by simp
  have start: "unat (rd16 m' (msg_hdr d + 2)) - unat (rd8 m' (msg_hdr d + 4)) = unat (data_size d)"
    unfolding msg(2,3) u4 u2 by simp
  have "host_credits m' (msg_hdr d) = parse_reports (report_bytes eps is)"
    unfolding host_credits_def Let_def start
    by (simp only: msg(1,3,4) u4) (simp add: u1 length_report_bytes)
  then show ?thesis using parse_report_bytes assms(5,6) by simp
qed

lemma msg_reports_props:
  assumes "\<forall>j. bit pend j \<longrightarrow> j < n"
  shows "\<And>i. i \<in> set (msg_reports pm v d pend) \<Longrightarrow> i < n" "length (msg_reports pm v d pend) \<le> 32"
    "distinct (msg_reports pm v d pend)"
proof -
  show "i < n" if "i \<in> set (msg_reports pm v d pend)" for i
    using that assms set_reported_eps [of i 0] by (simp add: msg_reports_def split: if_splits)
  show "length (msg_reports pm v d pend) \<le> 32"
    using length_reported_eps(1) [of 0] by (simp add: msg_reports_def)
  have "distinct (reported_eps 0 room pend)" for room
    unfolding reported_eps_def pending_eps_def by (intro distinct_take distinct_filter distinct_upt)
  then show "distinct (msg_reports pm v d pend)" by (simp add: msg_reports_def)
qed

section \<open>Properties of sending\<close>

text \<open>
  Property C4. Sending a message buffer of one descriptor with at least eight bytes of
  headroom always succeeds. The frame handed to the HIF has the endpoint number, the payload
  unchanged, and, if there is room in the buffer and on the pipe, a trailer that reports the
  pending credits of endpoints in ascending order, as many as fit; the length field covers
  payload and trailer. Reported endpoints have no credits left to return and are no longer
  marked pending; all others are untouched.
\<close>

theorem HTC_SendMsg_correct:
  fixes env :: "'a htc_env"
  assumes "tail_desc (mem s) buf [] l v d" "desc_ok d" "8 \<le> unat (data_offset d)"
    and "unat (buf_length v) + 8 < 65536" "unat (data_size d) + 8 < 60000"
    and "at (Endpoints s) eid = Some ep" "\<forall>j. bit (EpCreditPendingMap s) j \<longrightarrow> j < length (Endpoints s)"
  defines "is \<equiv> msg_reports (HIF_get_max_msg_len env (DownLinkPipeID ep)) v d (EpCreditPendingMap s)"
  shows "\<exists>s'. HTC_SendMsg env eid buf s = Some s' \<and> htc_message eid v d (Endpoints s) is (mem s) (mem s') \<and>
    Endpoints s' = eps_reported is (Endpoints s) \<and>
    (\<forall>j. bit (EpCreditPendingMap s') j \<longleftrightarrow> bit (EpCreditPendingMap s) j \<and> j \<notin> set is) \<and>
    hif_log s' = hif_log s @ [HIF_send_buffer (DownLinkPipeID ep) buf]"
proof -
  from HTC_SendMsg_run [OF assms(1-7), of env, folded is_def] obtain m' where
    "HTC_SendMsg env eid buf s = Some (s\<lparr>mem := m', Endpoints := eps_reported is (Endpoints s),
        EpCreditPendingMap := pend_cleared is (EpCreditPendingMap s),
        hif_log := hif_log s @ [HIF_send_buffer (DownLinkPipeID ep) buf]\<rparr>)"
    "htc_message eid v d (Endpoints s) is (mem s) m'"
    by blast
  then show ?thesis by (simp add: bit_pend_cleared)
qed

text \<open>
  Property C3. Credits are neither lost nor invented by a message: what the host decodes from
  the trailer is a list of distinct endpoints with credits, and for every endpoint the credits
  it had to return before are those it still has to return plus those the host received
  (provided every count fits the one-byte field of the report).
\<close>

theorem HTC_SendMsg_credits:
  fixes env :: "'a htc_env"
  assumes "tail_desc (mem s) buf [] l v d" "desc_ok d" "8 \<le> unat (data_offset d)"
    and "buf_length v = data_size d" "unat (data_size d) + 8 < 60000" "length (Endpoints s) = ENDPOINT_MAX"
    and "at (Endpoints s) eid = Some ep" "\<forall>j. bit (EpCreditPendingMap s) j \<longrightarrow> j < length (Endpoints s)"
    and "\<forall>ep\<in>set (Endpoints s). unat (CreditsToReturn ep) < 256"
  shows "\<exists>s'. HTC_SendMsg env eid buf s = Some s' \<and> distinct (map fst (host_credits (mem s') (msg_hdr d))) \<and>
    (\<forall>j<ENDPOINT_MAX. unat (CreditsToReturn (Endpoints s ! j)) = unat (CreditsToReturn (Endpoints s' ! j)) +
       sum_list (map snd (filter (\<lambda>r. fst r = j) (host_credits (mem s') (msg_hdr d)))))"
proof -
  let ?is = "msg_reports (HIF_get_max_msg_len env (DownLinkPipeID ep)) v d (EpCreditPendingMap s)"
  have l: "unat (buf_length v) + 8 < 65536" using assms(4,5) by simp
  from HTC_SendMsg_run [OF assms(1-3) l assms(5,7,8), of env] obtain m' where
    run: "HTC_SendMsg env eid buf s = Some (s\<lparr>mem := m', Endpoints := eps_reported ?is (Endpoints s),
        EpCreditPendingMap := pend_cleared ?is (EpCreditPendingMap s),
        hif_log := hif_log s @ [HIF_send_buffer (DownLinkPipeID ep) buf]\<rparr>)"
      "htc_message eid v d (Endpoints s) ?is (mem s) m'"
    by blast
  note mem = msg_reports_props [OF assms(8)]
  have host: "host_credits m' (msg_hdr d) = map (\<lambda>i. (i, unat (CreditsToReturn (Endpoints s ! i)))) ?is"
  proof (rule host_credits_message [OF run(2) assms(4)])
    show "\<forall>i\<in>set ?is. i < 256" "\<forall>i\<in>set ?is. unat (CreditsToReturn (Endpoints s ! i)) < 256"
      using mem(1) assms(6,9) by (fastforce intro: nth_mem)+
  qed (use mem(2) assms(5) in simp_all)
  have one: "sum_list (map snd (filter (\<lambda>r. fst r = j) (map (\<lambda>i. (i, f i)) is))) = (if j \<in> set is then f j else 0)"
    if "distinct is" for j :: nat and f :: "nat \<Rightarrow> nat" and "is"
    using that by (induction "is") auto
  show ?thesis
    using run(1) host mem(3) assms(6)
    by (auto simp: comp_def one nth_eps_reported)
qed


section \<open>A message with two reports\<close>

definition env0 :: "unit htc_env" where
  "env0 = \<lparr>HIF_get_max_msg_len = (\<lambda>_. 64), HIF_get_reserved_headroom = 0,
     HIF_is_pipe_supported = (\<lambda>_. True), HIF_default_pipes = (4, 3),
     ProcessConnect = (\<lambda>i e a n b s. Some (0, 0, s)), ProcessRecvMsg = (\<lambda>i e h b s. Some s),
     ProcessSendBufferComplete = (\<lambda>i e b s. Some s), SetupCompleteCb = None\<rparr>"

definition htc0 :: "unit htc" where
  "htc0 = \<lparr>Endpoints = (replicate ENDPOINT_MAX HTC_ENDPOINT_zero)
       [1 := HTC_ENDPOINT_zero\<lparr>CreditsToReturn := 2\<rparr>, 5 := HTC_ENDPOINT_zero\<lparr>CreditsToReturn := 3\<rparr>],
     EpHostNeedsCreditMap = 0, EpCreditPendingMap = push_bit 1 1 OR push_bit 5 1, CurrentEpIndex = 6, services = [],
     pServiceList = [], RecvBufferSize = 64, StateFlags = 1, TotalCredits = 10,
     TotalCreditsAssigned = 0, MaxEpPendingCreditRpts = 3, mem = mem2, hif_log = [], app = ()\<rparr>"

lemma htc0_tail:
  "tail_desc (mem htc0) 0x1020 [] 0x2000 (vbuf0\<lparr>desc_list := 0x2000, buf_length := 16, next_buf := 0x1040\<rparr>) vdesc0"
  using mem2_facts(3,5,6) by (simp add: tail_desc_def htc0_def)

lemma htc0_pending: "bit (EpCreditPendingMap htc0) j \<longleftrightarrow> j = 1 \<or> j = 5"
  by (auto simp: htc0_def bit_simps simp del: push_bit_of_1)

lemma htc0_reports: "pending_eps 0 (EpCreditPendingMap htc0) = [1, 5]"
  by (simp add: pending_eps_def htc0_pending upt_rec cong: filter_cong)

lemma htc0_room:
  "report_room 64 (vbuf0\<lparr>desc_list := 0x2000, buf_length := 16, next_buf := 0x1040\<rparr>) vdesc0 = 40"
  by (simp add: report_room_def vdesc0_def)

lemma htc0_facts:
  "desc_ok vdesc0" "8 \<le> unat (data_offset vdesc0)" "unat (data_size vdesc0) + 8 < 60000"
  "data_size vdesc0 = 16" "length (Endpoints htc0) = 22"
  "at (Endpoints htc0) 0 = Some HTC_ENDPOINT_zero" "\<forall>j. bit (EpCreditPendingMap htc0) j \<longrightarrow> j < length (Endpoints htc0)"
  by (auto simp: desc_ok_def vdesc0_def htc0_pending) (auto simp: htc0_def at_def)

theorem HTC_SendMsg_correct_witness:
  "\<exists>s'. HTC_SendMsg env0 0 0x1020 htc0 = Some s' \<and> hif_log s' = [HIF_send_buffer 0 0x1020] \<and>
        \<not> bit (EpCreditPendingMap s') 1"
proof -
  have "msg_reports 64 (vbuf0\<lparr>desc_list := 0x2000, buf_length := 16, next_buf := 0x1040\<rparr>) vdesc0
      (EpCreditPendingMap htc0) = [1, 5]"
    by (simp add: msg_reports_def htc0_room reported_eps_def htc0_reports)
  then show ?thesis
    using HTC_SendMsg_correct [OF htc0_tail htc0_facts(1,2) _ htc0_facts(3,6,7), of env0]
    by (auto simp: env0_def HTC_ENDPOINT_zero_def vbuf0_def) (simp add: htc0_def)
qed

theorem HTC_SendMsg_credits_witness:
  "\<exists>s'. HTC_SendMsg env0 0 0x1020 htc0 = Some s' \<and>
     2 = unat (CreditsToReturn (Endpoints s' ! 1)) +
       sum_list (map snd (filter (\<lambda>r. fst r = 1) (host_credits (mem s') (msg_hdr vdesc0))))"
proof -
  have "\<forall>ep\<in>set (Endpoints htc0). unat (CreditsToReturn ep) < 256" by code_simp
  moreover have "unat (CreditsToReturn (Endpoints htc0 ! 1)) = 2" by code_simp
  ultimately show ?thesis
    using HTC_SendMsg_credits [OF htc0_tail htc0_facts(1,2) _ htc0_facts(3,5,6,7), of env0]
    by (auto simp: htc0_facts(4) dest!: spec [of _ "1 :: nat"])
qed

end
