(* ===== verification/Htc_Inv.thy ===== *)
theory Htc_Inv
  imports Htc_Send
begin

text \<open>
  The invariant of the HTC context and its preservation by every entry point: endpoints that
  owe credits are marked pending, endpoint numbers are handed out in order, the credits
  assigned to pipes never exceed the total, and no endpoint has more outstanding credit
  reports than allowed. The services' callbacks are required to keep the invariant (locale
  \<open>htc_client\<close>); the operations of HTC that they may call do.
\<close>

definition svc_ok :: "nat \<Rightarrow> nat \<Rightarrow> nat \<Rightarrow> svc option \<Rightarrow> bool" where
  "svc_ok cur n j sv =
     (case sv of None \<Rightarrow> True
      | Some Control_Service \<Rightarrow> j = 0
      | Some (Service i) \<Rightarrow> 0 < j \<and> j < cur \<and> i < n)"

definition ep_ok :: "'a htc \<Rightarrow> nat \<Rightarrow> bool" where
  "ep_ok s j \<longleftrightarrow>
     (CreditsToReturn (Endpoints s ! j) \<noteq> 0 \<longrightarrow> bit (EpCreditPendingMap s) j) \<and>
     PendingCreditReports (Endpoints s ! j) \<le> MaxEpPendingCreditRpts s \<and>
     svc_ok (CurrentEpIndex s) (length (services s)) j (pService (Endpoints s ! j))"

definition htc_inv :: "'a htc \<Rightarrow> bool" where
  "htc_inv s \<longleftrightarrow> length (Endpoints s) = ENDPOINT_MAX \<and>
     (\<forall>j. bit (EpCreditPendingMap s) j \<longrightarrow> j < ENDPOINT_MAX) \<and> (\<forall>j<ENDPOINT_MAX. ep_ok s j) \<and>
     1 \<le> CurrentEpIndex s \<and> CurrentEpIndex s \<le> ENDPOINT_MAX \<and>
     pService (Endpoints s ! 0) = Some Control_Service \<and>
     0 \<le> TotalCreditsAssigned s \<and> TotalCreditsAssigned s \<le> TotalCredits s \<and>
     MaxEpPendingCreditRpts s = 3"

section \<open>Updates that keep the invariant\<close>

lemma ep_ok_frame [simp]:
  "ep_ok (s\<lparr>mem := m\<rparr>) = ep_ok s" "ep_ok (s\<lparr>hif_log := l\<rparr>) = ep_ok s" "ep_ok (s\<lparr>StateFlags := f\<rparr>) = ep_ok s"
  "ep_ok (s\<lparr>EpHostNeedsCreditMap := h\<rparr>) = ep_ok s" "ep_ok (s\<lparr>TotalCredits := n\<rparr>) = ep_ok s"
  "ep_ok (s\<lparr>TotalCreditsAssigned := n\<rparr>) = ep_ok s" "ep_ok (s\<lparr>app := a\<rparr>) = ep_ok s"
  "ep_ok (s\<lparr>pServiceList := p\<rparr>) = ep_ok s"
  by (simp_all add: ep_ok_def fun_eq_iff)

lemma htc_inv_frame [simp]:
  "htc_inv (s\<lparr>mem := m\<rparr>) = htc_inv s" "htc_inv (s\<lparr>hif_log := l\<rparr>) = htc_inv s"
  "htc_inv (s\<lparr>StateFlags := f\<rparr>) = htc_inv s" "htc_inv (s\<lparr>EpHostNeedsCreditMap := h\<rparr>) = htc_inv s"
  "htc_inv (s\<lparr>app := a\<rparr>) = htc_inv s" "htc_inv (s\<lparr>pServiceList := p\<rparr>) = htc_inv s"
  by (simp_all add: htc_inv_def)

lemma htc_inv_credits:
  "htc_inv s \<Longrightarrow> htc_inv (s\<lparr>TotalCredits := TotalCredits s + 1\<rparr>)"
  "htc_inv s \<Longrightarrow> 0 \<le> n \<Longrightarrow> TotalCreditsAssigned s + n \<le> TotalCredits s \<Longrightarrow>
     htc_inv (s\<lparr>TotalCreditsAssigned := TotalCreditsAssigned s + n\<rparr>)"
  by (simp_all add: htc_inv_def)

lemma htc_inv_log [simp]: "htc_inv (log_hif c s) = htc_inv s"
  by (simp add: log_hif_def)

text \<open>An endpoint's counters change, the pending map gains or loses that endpoint only.\<close>

lemma htc_inv_ep:
  assumes "htc_inv s" "at (Endpoints s) i = Some ep" "pService ep' = pService ep"
    "PendingCreditReports ep' \<le> MaxEpPendingCreditRpts s"
    "CreditsToReturn ep' \<noteq> 0 \<longrightarrow> bit pend i" "\<forall>j. j \<noteq> i \<longrightarrow> bit pend j = bit (EpCreditPendingMap s) j"
  shows "htc_inv (s\<lparr>Endpoints := (Endpoints s)[i := ep'], EpCreditPendingMap := pend\<rparr>)"
proof -
  have i: "i < 22" "ep = Endpoints s ! i" using assms(1,2) by (auto simp: htc_inv_def at_Some_iff)
  have b: "j < 22" if "bit pend j" for j
    using that assms(1,6) i(1) by (cases "j = i") (auto simp: htc_inv_def)
  have "ep_ok (s\<lparr>Endpoints := (Endpoints s)[i := ep'], EpCreditPendingMap := pend\<rparr>) j" if "j < 22" for j
  proof (cases "j = i")
    case True
    have "ep_ok s i" using assms(1) i(1) by (simp add: htc_inv_def)
    then show ?thesis using True assms i by (simp add: ep_ok_def htc_inv_def)
  next
    case False
    have "ep_ok s j" using assms(1) that by (simp add: htc_inv_def)
    then show ?thesis using False assms(6) by (simp add: ep_ok_def)
  qed
  then show ?thesis
    using assms(1,3) b i by (auto simp: htc_inv_def nth_list_update)
qed

lemma htc_inv_ep_same:
  assumes "htc_inv s" "at (Endpoints s) i = Some ep" "pService ep' = pService ep"
    "PendingCreditReports ep' \<le> MaxEpPendingCreditRpts s" "CreditsToReturn ep' = CreditsToReturn ep \<or> CreditsToReturn ep' = 0"
  shows "htc_inv (s\<lparr>Endpoints := (Endpoints s)[i := ep']\<rparr>)"
proof -
  have "i < 22" "ep = Endpoints s ! i" using assms(1,2) by (auto simp: htc_inv_def at_Some_iff)
  then have "ep_ok s i" using assms(1) by (simp add: htc_inv_def)
  then have "CreditsToReturn ep' \<noteq> 0 \<longrightarrow> bit (EpCreditPendingMap s) i"
    using assms(5) \<open>ep = Endpoints s ! i\<close> by (auto simp: ep_ok_def)
  from htc_inv_ep [OF assms(1-4) this] show ?thesis by simp
qed

lemma htc_inv_pending:
  "htc_inv s \<Longrightarrow> at (Endpoints s) i = Some ep \<Longrightarrow> PendingCreditReports ep \<le> MaxEpPendingCreditRpts s"
  by (auto simp: htc_inv_def ep_ok_def at_Some_iff)

lemma CHECK_AND_ADJUST_sel [simp]:
  "pService (CHECK_AND_ADJUST_CREDIT_THRESHOLD ep) = pService ep"
  "PendingCreditReports (CHECK_AND_ADJUST_CREDIT_THRESHOLD ep) = PendingCreditReports ep"
  "CreditsToReturn (CHECK_AND_ADJUST_CREDIT_THRESHOLD ep) = CreditsToReturn ep"
  by (simp_all add: CHECK_AND_ADJUST_CREDIT_THRESHOLD_def AdjustCreditThreshold_def Let_def)

section \<open>The operations keep the invariant\<close>

lemma trailer_loop_inv:
  "trailer_loop buf pRec i room pend tot s = Some (pend', tot', s') \<Longrightarrow>
   htc_inv (s\<lparr>EpCreditPendingMap := pend\<rparr>) \<Longrightarrow> htc_inv (s'\<lparr>EpCreditPendingMap := pend'\<rparr>)"
proof (induction buf pRec i room pend tot s rule: trailer_loop.induct)
  case (1 buf pRec i room pend tot s)
  show ?case
  proof (cases "pend \<noteq> 0 \<and> 2 \<le> room \<and> i < 32")
    case False
    with "1.prems"(1) have "pend' = pend" "s' = s"
      by (subst (asm) trailer_loop.simps, auto split: if_splits)+
    then show ?thesis using "1.prems"(2) by simp
  next
    case pos: True
    then have c: "pend \<noteq> 0 \<and> 2 \<le> room" "\<not> 32 \<le> i" by auto
    show ?thesis
    proof (cases "bit pend i")
      case False
      then have m: "\<not> push_bit i 1 AND pend \<noteq> 0" using and_push_bit_1 [of pend i] by (simp add: and.commute)
      have "trailer_loop buf pRec (i + 1) room pend tot s = Some (pend', tot', s')"
        using "1.prems"(1) trailer_loop_skip [of i pend buf pRec room tot s] False pos by simp
      from "1.IH"(2) [OF c refl m this "1.prems"(2)] show ?thesis .
    next
      case True
      then have m: "push_bit i 1 AND pend \<noteq> 0" using and_push_bit_1 [of pend i] by (simp add: and.commute)
      let ?p = "pend AND NOT (push_bit i 1)"
      from "1.prems"(1) c m obtain t m1 ep where
        put: "adf_nbuf_put_tail buf 2 (mem s) = Some (t, m1)" and ep: "at (Endpoints s) i = Some ep"
        by (subst (asm) trailer_loop.simps) (auto simp: Let_def split: Option.bind_splits if_splits simp del: push_bit_of_1)
      let ?m = "wr8 (t + 1) (ucast (CreditsToReturn ep)) (wr8 t (of_nat i) m1)"
      let ?e = "CHECK_AND_ADJUST_CREDIT_THRESHOLD (ep\<lparr>CreditsToReturn := 0\<rparr>)"
      let ?s = "s\<lparr>mem := wr8 (pRec + 1) (rd8 ?m (pRec + 1) + 2) ?m, Endpoints := (Endpoints s)[i := ?e]\<rparr>"
      have r: "trailer_loop buf pRec i room pend tot s = (if room - 2 < 2 then Some (?p, tot + 2, ?s)
          else trailer_loop buf pRec (i + 1) (room - 2) ?p (tot + 2) ?s)"
        using c m put ep by (subst trailer_loop.simps) (simp add: Let_def del: push_bit_of_1)
      have "htc_inv ((s\<lparr>EpCreditPendingMap := pend\<rparr>)\<lparr>Endpoints := (Endpoints (s\<lparr>EpCreditPendingMap := pend\<rparr>))[i := ?e],
          EpCreditPendingMap := ?p\<rparr>)"
        using "1.prems"(2) ep htc_inv_pending [OF "1.prems"(2), of i ep]
        by (intro htc_inv_ep) (auto simp: bit_simps dest: bit_imp_le_length)
      then have inv: "htc_inv (?s\<lparr>EpCreditPendingMap := ?p\<rparr>)" by (auto simp: htc_inv_def ep_ok_def)
      show ?thesis
      proof (cases "room - 2 < 2")
        case True
        then show ?thesis using "1.prems"(1) r inv by auto
      next
        case False
        then show ?thesis
          using "1.IH"(1) [OF c refl m put refl refl ep refl refl refl refl refl False _ inv] "1.prems"(1) r by simp
      qed
    qed
  qed
qed

lemma append_trailer_cases:
  assumes "HTC_append_trailer env eid buf h s = Some (n, s')"
  obtains "s' = s"
  | p r m pend' tot s2 m' where "trailer_loop buf p 0 r (EpCreditPendingMap s) 2 (s\<lparr>mem := m\<rparr>) = Some (pend', tot, s2)"
      "s' = s2\<lparr>EpCreditPendingMap := pend', mem := m'\<rparr>"
proof -
  obtain ep where ep: "at (Endpoints s) eid = Some ep"
    using assms by (auto simp: HTC_append_trailer_def split: Option.bind_splits)
  obtain hr len tr where r: "adf_nbuf_headroom (mem s) buf = Some hr" "adf_nbuf_len (mem s) buf = Some len"
    "adf_nbuf_tailroom (mem s) buf = Some tr"
    using assms by (auto simp: HTC_append_trailer_def ep Let_def split: Option.bind_splits)
  let ?room = "sint (if tr < HIF_get_max_msg_len env (DownLinkPipeID ep) - hr - len then tr
      else HIF_get_max_msg_len env (DownLinkPipeID ep) - hr - len)"
  show ?thesis
  proof (cases "?room < 4 \<or> EpCreditPendingMap s = 0")
    case True
    then have "HTC_append_trailer env eid buf h s = Some (0, s)"
      by (cases "?room < 4") (simp_all add: HTC_append_trailer_def ep r split del: if_split)
    then show ?thesis using assms that(1) by simp
  next
    case False
    then obtain p b pend' tot s2 where
      "trailer_loop buf p 0 (?room - 2) (EpCreditPendingMap s) 2 (s\<lparr>mem := wr8 (p + 1) 0 (wr8 p 1 b)\<rparr>) =
        Some (pend', tot, s2)"
      "s' = s2\<lparr>EpCreditPendingMap := pend', mem := wr8 (h + 1)
         (rd8 (wr8 (h + 4) (word_of_int tot) (mem s2)) (h + 1) OR 2) (wr8 (h + 4) (word_of_int tot) (mem s2))\<rparr>"
      using assms
      by (simp add: HTC_append_trailer_def ep r Let_def split del: if_split) (auto split: Option.bind_splits)
    then show ?thesis by (rule that(2))
  qed
qed

lemma append_trailer_inv:
  assumes "HTC_append_trailer env eid buf h s = Some (n, s')" "htc_inv s"
  shows "htc_inv s'"
  using assms(1)
proof (cases rule: append_trailer_cases)
  case 1
  then show ?thesis using assms(2) by simp
next
  case (2 p r m pend' tot s2 m')
  have "htc_inv (s\<lparr>mem := m, EpCreditPendingMap := EpCreditPendingMap s\<rparr>)" using assms(2) by simp
  from trailer_loop_inv [OF 2(1)] this show ?thesis using 2(2) by simp
qed


lemma HTC_SendMsg_pred:
  assumes "htc_inv s"
  shows "pred_option htc_inv (HTC_SendMsg env eid buf s)"
  unfolding HTC_SendMsg_def Let_def wp_simps
  using assms by (auto simp: wp_simps pred_option_iff split: Option.bind_splits dest!: append_trailer_inv)

lemma HTCAllocMsgBuffer_upd: "HTCAllocMsgBuffer env s = Some (p, s') \<Longrightarrow> \<exists>m. s' = s\<lparr>mem := m\<rparr>"
  by (auto simp: HTCAllocMsgBuffer_def split: Option.bind_splits)

lemma HTCFreeMsgBuffer_upd: "HTCFreeMsgBuffer b s = Some s' \<Longrightarrow> \<exists>m. s' = s\<lparr>mem := m\<rparr>"
  by (auto simp: HTCFreeMsgBuffer_def split: Option.bind_splits)

lemma mark_credit_buffer_inv:
  assumes "htc_inv s" "\<And>i ep. pe = Some i \<Longrightarrow> at (Endpoints s) i = Some ep \<Longrightarrow>
     PendingCreditReports ep < MaxEpPendingCreditRpts s"
  shows "pred_option htc_inv (mark_credit_buffer pe b s)"
proof (cases pe)
  case None
  then show ?thesis using assms(1) by (simp add: mark_credit_buffer_def)
next
  case (Some i)
  have "htc_inv (s\<lparr>Endpoints := (Endpoints s)[i := ep\<lparr>PendingCreditReports := PendingCreditReports ep + 1\<rparr>], mem := m\<rparr>)"
    if ep: "at (Endpoints s) i = Some ep" for ep m
  proof -
    have "htc_inv (s\<lparr>Endpoints := (Endpoints s)[i := ep\<lparr>PendingCreditReports := PendingCreditReports ep + 1\<rparr>]\<rparr>)"
      using assms(2) [OF Some ep] by (intro htc_inv_ep_same [OF assms(1) ep]) simp_all
    then show ?thesis by simp
  qed
  then show ?thesis by (auto simp: Some mark_credit_buffer_def wp_simps intro!: pred_optionI)
qed

lemma send_credit_report_inv:
  assumes "htc_inv s" "\<And>i ep. pe = Some i \<Longrightarrow> at (Endpoints s) i = Some ep \<Longrightarrow>
     PendingCreditReports ep < MaxEpPendingCreditRpts s"
  shows "pred_option htc_inv (send_credit_report env pe s)"
proof (cases "HTCAllocMsgBuffer env s")
  case None
  then show ?thesis by (simp add: send_credit_report_def)
next
  case (Some r)
  from HTCAllocMsgBuffer_upd [of env s "fst r" "snd r"] Some obtain m where s1: "snd r = s\<lparr>mem := m\<rparr>" by auto
  have "pred_option htc_inv (mark_credit_buffer pe (fst r) (snd r))"
    by (rule mark_credit_buffer_inv) (use assms s1 in simp_all)
  then have "pred_option (\<lambda>s. pred_option htc_inv (HTC_SendMsg env 0 (fst r) s)) (mark_credit_buffer pe (fst r) (snd r))"
    by (rule pred_option_mono_strong) (rule HTC_SendMsg_pred)
  then show ?thesis using assms(1) s1 by (simp add: send_credit_report_def Some case_prod_unfold wp_simps)
qed

lemma credit_report_inv:
  assumes "htc_inv s"
  shows "pred_option htc_inv (HTCCheckAndSendCreditReport env em pe s)"
proof (cases pe)
  case None
  have "pred_option htc_inv (send_credit_report env None s)"
    by (rule send_credit_report_inv [OF assms]) simp
  then show ?thesis using assms by (simp add: HTCCheckAndSendCreditReport_def None)
next
  case (Some i)
  show ?thesis
  proof (cases "at (Endpoints s) i")
    case None
    then show ?thesis using assms Some by (simp add: HTCCheckAndSendCreditReport_def)
  next
    case (Some ep)
    have "PendingCreditReports ep < MaxEpPendingCreditRpts s \<Longrightarrow> pred_option htc_inv (send_credit_report env pe s)"
      by (rule send_credit_report_inv [OF assms]) (use Some \<open>pe = Some i\<close> in auto)
    then show ?thesis using assms by (simp add: HTCCheckAndSendCreditReport_def Some \<open>pe = Some i\<close>)
  qed
qed

lemma ReturnBuffers_inv:
  assumes s: "htc_inv s"
  shows "pred_option htc_inv (ReturnBuffers env eid buf f s)"
proof -
  let ?s = "\<lambda>m ep. log_hif (HIF_return_recv_buf (UpLinkPipeID ep) buf) (s\<lparr>mem := m\<rparr>)"
  let ?e = "\<lambda>ep. ep\<lparr>CreditsToReturn := CreditsToReturn ep + 1, CreditsConsumed := CreditsConsumed ep - 1\<rparr>"
  let ?t = "\<lambda>m ep. (?s m ep)\<lparr>Endpoints := (Endpoints (?s m ep))[eid := ?e ep],
     EpCreditPendingMap := EpCreditPendingMap (?s m ep) OR push_bit eid 1\<rparr>"
  have t: "htc_inv (?t m ep)" if ep: "at (Endpoints s) eid = Some ep" for m ep
  proof -
    have e: "eid < 22" using ep s by (simp add: at_Some_iff htc_inv_def)
    have 1: "htc_inv (?s m ep)" "at (Endpoints (?s m ep)) eid = Some ep" using s ep by (simp_all add: log_hif_def)
    from htc_inv_pending [OF this] have "PendingCreditReports ep \<le> MaxEpPendingCreditRpts (?s m ep)" .
    with e show ?thesis by (intro htc_inv_ep [OF 1]) (simp_all add: bit_simps)
  qed
  have r: "pred_option htc_inv (HTCCheckAndSendCreditReport env (push_bit eid 1) (Some eid) (?t m ep))"
    if "at (Endpoints s) eid = Some ep" for m ep
    by (rule credit_report_inv [OF t [OF that]])
  have u: "htc_inv ((?s m ep)\<lparr>TotalCredits := TotalCredits (?s m ep) + 1\<rparr>)" for m ep
    by (rule htc_inv_credits) (simp add: s)
  show ?thesis
  proof (cases "do { (x, m) \<leftarrow> adf_nbuf_push_head buf HTC_HDR_LENGTH (mem s); ep \<leftarrow> at (Endpoints s) eid; Some (m, ep) }")
    case None
    then show ?thesis by (auto simp: ReturnBuffers_def split: Option.bind_splits)
  next
    case (Some r')
    then obtain x m ep where put: "adf_nbuf_push_head buf HTC_HDR_LENGTH (mem s) = Some (x, m)"
      and ep: "at (Endpoints s) eid = Some ep"
      by (auto split: Option.bind_splits)
    show ?thesis
      using t [OF ep, of m] r [OF ep, of m] u [of ep m] unfolding ReturnBuffers_def put ep Let_def
      by (cases f) (simp_all add: log_hif_def del: push_bit_of_1)
  qed
qed

lemma return_list_loop_inv:
  assumes "return_list_loop env eid p s = Some s'"
  shows "htc_inv s \<longrightarrow> htc_inv s'"
  using _ assms
proof (rule return_list_loop.raw_induct [where P = "\<lambda>env eid p s s'. htc_inv s \<longrightarrow> htc_inv s'"], goal_cases)
  case (1 f env eid p s s')
  show ?case
  proof (cases "p = NULL")
    case True
    then show ?thesis using 1 by simp
  next
    case False
    then obtain n s1 where "ReturnBuffers env eid p False s = Some s1" "f env eid n s1 = Some s'"
      using 1(2) by (auto split: Option.bind_splits)
    then show ?thesis using 1(1) pred_optionD [OF ReturnBuffers_inv] by blast
  qed
qed

lemma HTC_ReturnBuffersList_inv:
  assumes "htc_inv s"
  shows "pred_option htc_inv (HTC_ReturnBuffersList env eid q s)"
  using assms
  by (auto simp: HTC_ReturnBuffersList_def pred_option_iff wp_simps split: Option.bind_splits
      dest!: return_list_loop_inv pred_optionD [OF credit_report_inv, rotated])

lemma HTC_Ready_inv:
  assumes "htc_inv s"
  shows "pred_option htc_inv (HTC_Ready env s)"
  using assms
  by (auto simp: HTC_Ready_def pred_option_iff wp_simps Let_def split: Option.bind_splits
      dest!: HTCAllocMsgBuffer_upd pred_optionD [OF HTC_SendMsg_pred, rotated])

lemma bind_endpoint_inv:
  assumes "htc_inv s"
  shows "pred_option htc_inv (bind_endpoint i p s)"
proof (rule pred_optionI)
  fix s'
  let ?cur = "CurrentEpIndex s"
  assume "bind_endpoint i p s = Some s'"
  then have i: "i < length (services s)" "?cur < length (Endpoints s)"
    and s': "s' = s\<lparr>Endpoints := (Endpoints s)[?cur := (Endpoints s ! ?cur)\<lparr>pService := Some (Service i),
                 ConnectionFlags := rd16 (mem s) (p + 4), DownLinkPipeID := rd8 (mem s) (p + 6),
                 UpLinkPipeID := rd8 (mem s) (p + 7)\<rparr>],
             services := (services s)[i := (services s ! i)\<lparr>ServiceFlags := ServiceFlags (services s ! i) OR 1\<rparr>],
             CurrentEpIndex := ?cur + 1\<rparr>"
    by (auto simp: bind_endpoint_def Let_def at_Some_iff split: Option.bind_splits)
  have "ep_ok s' j" if j: "j < 22" for j
  proof -
    have o: "ep_ok s j" using assms j by (simp add: htc_inv_def)
    show ?thesis
    proof (cases "j = ?cur")
      case True
      then show ?thesis using o i assms by (simp add: s' ep_ok_def svc_ok_def htc_inv_def)
    next
      case False
      then show ?thesis using o by (auto simp: s' ep_ok_def svc_ok_def split: option.splits svc.splits)
    qed
  qed
  then show "htc_inv s'" using assms i by (auto simp: s' htc_inv_def)
qed

lemma HTCProcessConfigPipeMsg_inv:
  assumes "htc_inv s"
  shows "pred_option htc_inv (HTCProcessConfigPipeMsg env p s)"
proof -
  have "htc_inv (s\<lparr>TotalCreditsAssigned := TotalCreditsAssigned s + uint (c :: u8), mem := m, hif_log := l\<rparr>)"
    if "TotalCreditsAssigned s + uint c \<le> TotalCredits s" for c m l
    using htc_inv_credits(2) [OF assms _ that] by simp
  then show ?thesis
    using assms
    by (auto simp: HTCProcessConfigPipeMsg_def pred_option_iff wp_simps Let_def log_hif_def split: Option.bind_splits
        if_splits dest!: HTCAllocMsgBuffer_upd pred_optionD [OF HTC_SendMsg_pred, rotated])
qed

lemma HTCControlSvcProcessSendComplete_inv:
  assumes "htc_inv s"
  shows "pred_option htc_inv (HTCControlSvcProcessSendComplete env p s)"
proof -
  have "htc_inv (s\<lparr>Endpoints := (Endpoints s)[e := ep\<lparr>PendingCreditReports := PendingCreditReports ep - 1\<rparr>]\<rparr>)"
    if "at (Endpoints s) e = Some ep" for e ep
    using htc_inv_pending [OF assms that] by (intro htc_inv_ep_same [OF assms that]) simp_all
  then show ?thesis
    using assms
    by (auto simp: HTCControlSvcProcessSendComplete_def pred_option_iff wp_simps Let_def split: Option.bind_splits
        if_splits dest!: HTCFreeMsgBuffer_upd pred_optionD [OF credit_report_inv, rotated])
qed

lemma account_received_inv:
  assumes s: "htc_inv s"
  shows "pred_option htc_inv (account_received i fl s)"
proof -
  have "htc_inv (s\<lparr>Endpoints := (Endpoints s)[i := ep'], EpHostNeedsCreditMap := n\<rparr>)"
    if ep: "at (Endpoints s) i = Some ep" and e: "pService ep' = pService ep"
      "CreditsToReturn ep' = CreditsToReturn ep" "PendingCreditReports ep' = PendingCreditReports ep" for ep ep' n
  proof -
    have "htc_inv (s\<lparr>Endpoints := (Endpoints s)[i := ep']\<rparr>)"
      using e htc_inv_pending [OF s ep] by (intro htc_inv_ep_same [OF s ep]) simp_all
    then show ?thesis by simp
  qed
  then show ?thesis by (auto simp: account_received_def Let_def pred_option_iff split: Option.bind_splits)
qed

section \<open>Entry points that call into the services\<close>

text \<open>
  What HTC needs of the functions that the services register: each keeps the invariant of the
  context when it returns.
\<close>

locale htc_client =
  fixes env :: "'a htc_env"
  assumes connect_keeps: "htc_inv s \<Longrightarrow> pred_option (\<lambda>(_, _, s'). htc_inv s') (ProcessConnect env i e d l r s)"
    and recv_keeps: "htc_inv s \<Longrightarrow> pred_option htc_inv (ProcessRecvMsg env i e h b s)"
    and complete_keeps: "htc_inv s \<Longrightarrow> pred_option htc_inv (ProcessSendBufferComplete env i e b s)"
    and setup_keeps: "SetupCompleteCb env = Some f \<Longrightarrow> htc_inv s \<Longrightarrow> pred_option htc_inv (f s)"
begin

lemma connect_result:
  "ProcessConnect env i e d l r s = Some (st, n, s') \<Longrightarrow> htc_inv s \<Longrightarrow> htc_inv s'"
  using connect_keeps [of s i e d l r] by simp

lemma bind_service_keeps:
  assumes "htc_inv s"
  shows "pred_option (\<lambda>(_, s'). htc_inv s') (do {
            (st, metaDataOutLen, s) \<leftarrow> ProcessConnect env i e d l r s;
            if st = 0 then do {
              sv \<leftarrow> at (services s) i;
              s \<leftarrow> bind_endpoint i pMsg (s\<lparr>mem := f sv metaDataOutLen s\<rparr>);
              Some (st, s) }
            else Some (st, s) })"
  using assms
  by (auto simp: pred_option_iff split: Option.bind_splits if_splits
      dest!: connect_result pred_optionD [OF bind_endpoint_inv, rotated])

lemma HTCProcessConnectMsg_keeps:
  assumes "htc_inv s"
  shows "pred_option htc_inv (HTCProcessConnectMsg env p s)"
  unfolding HTCProcessConnectMsg_def Let_def
  using assms
  by (auto simp: pred_option_iff split: Option.bind_splits svc_search.splits if_splits
      dest!: HTCAllocMsgBuffer_upd connect_result pred_optionD [OF bind_endpoint_inv, rotated]
        pred_optionD [OF HTC_SendMsg_pred, rotated])

lemma control_dispatch_keeps:
  assumes "htc_inv s"
  shows "pred_option htc_inv (if msgid = 2 then HTCProcessConnectMsg env p s
    else if msgid = 5 then HTCProcessConfigPipeMsg env p s else Some s)"
  using HTCProcessConnectMsg_keeps [OF assms] HTCProcessConfigPipeMsg_inv [OF assms] assms by simp

lemma setup_complete_keeps:
  assumes "htc_inv s"
  shows "pred_option htc_inv (case SetupCompleteCb env of None \<Rightarrow> Some s | Some f \<Rightarrow> f s)"
  using setup_keeps [OF _ assms] assms by (simp split: option.split)

lemma control_return_keeps:
  assumes "htc_inv s"
  shows "pred_option htc_inv (if c then HTC_ReturnBuffers env 0 b s
    else do {
      (_, m) \<leftarrow> adf_nbuf_push_head b 8 (mem s);
      ep \<leftarrow> at (Endpoints s) e;
      Some (log_hif (HIF_return_recv_buf (UpLinkPipeID ep) b) (s\<lparr>mem := m\<rparr>)) })"
  using ReturnBuffers_inv [OF assms] assms
  by (cases c) (simp_all add: HTC_ReturnBuffers_def pred_option_iff split: Option.bind_splits prod.splits)

lemma HTCControlSvcProcessMsg_keeps:
  assumes "htc_inv s"
  shows "pred_option htc_inv (HTCControlSvcProcessMsg env e h b s)"
  unfolding HTCControlSvcProcessMsg_def Let_def
proof (intro pred_option_bind_any, clarify, rule pred_option_bindI [OF control_dispatch_keeps [OF assms]],
    rule pred_option_bindI [OF control_return_keeps])
  fix s' :: "'a htc" and c
  assume "htc_inv s'"
  then show "pred_option htc_inv (if c then case SetupCompleteCb env of
        None \<Rightarrow> Some (s'\<lparr>StateFlags := StateFlags s' OR 1\<rparr>)
      | Some f \<Rightarrow> f (s'\<lparr>StateFlags := StateFlags s' OR 1\<rparr>) else Some s')"
    using setup_complete_keeps [of "s'\<lparr>StateFlags := StateFlags s' OR 1\<rparr>"] by simp
qed

lemma HTCSendDoneHandler_keeps:
  assumes "htc_inv s"
  shows "pred_option htc_inv (HTCSendDoneHandler env b s)"
  unfolding HTCSendDoneHandler_def Let_def
  using assms
  by (auto simp: pred_option_iff split: Option.bind_splits svc.splits
      dest!: pred_optionD [OF HTCControlSvcProcessSendComplete_inv, rotated]
        pred_optionD [OF complete_keeps, rotated])

lemma dispatch_received_keeps:
  assumes "htc_inv s"
  shows "pred_option htc_inv (dispatch_received env e h b s)"
  unfolding dispatch_received_def
proof (intro pred_option_bind_any)
  fix sv
  show "pred_option htc_inv (case sv of Control_Service \<Rightarrow> HTCControlSvcProcessMsg env e h b s
      | Service i \<Rightarrow> ProcessRecvMsg env i e h b s)"
    by (cases sv) (use HTCControlSvcProcessMsg_keeps [OF assms] recv_keeps [OF assms] in auto)
qed

lemma HTCMsgRecvHandler_keeps:
  assumes s: "htc_inv s"
  shows "pred_option htc_inv (HTCMsgRecvHandler env h b s)"
proof -
  have "pred_option htc_inv (do { s \<leftarrow> account_received eid flags s;
       (_, m) \<leftarrow> adf_nbuf_pull_head t HTC_HDR_LENGTH (mem s);
       s \<leftarrow> dispatch_received env eid h b (s\<lparr>mem := m\<rparr>);
       HTCCheckAndSendCreditReport env (push_bit eid 1) (Some eid) s })" for eid flags t
  proof (rule pred_option_bindI [OF account_received_inv [OF s]], rule pred_option_bind_any, clarify)
    fix s' :: "'a htc" and m
    assume "htc_inv s'"
    then have "htc_inv (s'\<lparr>mem := m\<rparr>)" by simp
    from dispatch_received_keeps [OF this] show "pred_option htc_inv (do {
       s \<leftarrow> dispatch_received env eid h b (s'\<lparr>mem := m\<rparr>);
       HTCCheckAndSendCreditReport env (push_bit eid 1) (Some eid) s })"
      by (rule pred_option_bindI) (rule credit_report_inv)
  qed
  then show ?thesis
    unfolding HTCMsgRecvHandler_def Let_def
    by (intro pred_option_bind_any, clarify, simp only: pred_option_if) (simp add: s del: push_bit_of_1)
qed

end

section \<open>Services as sequences of calls\<close>

text \<open>
  Whatever a service computes, HTC sees of it the calls it makes, between which it may change
  its own state and the memory. A list of such actions, chosen by the service from the state in
  which it is called, stands for a service whose code is not modelled here.
\<close>

datatype 'a htc_call =
    Call_SendMsg nat addr
  | Call_ReturnBuffers nat addr
  | Call_ReturnBuffersList nat nbuf_qhead
  | Call_Local fw_mem 'a

fun run_call :: "'a htc_env \<Rightarrow> 'a htc_call \<Rightarrow> 'a htc \<Rightarrow> 'a htc option" where
  "run_call env (Call_SendMsg e b) s = HTC_SendMsg env e b s"
| "run_call env (Call_ReturnBuffers e b) s = HTC_ReturnBuffers env e b s"
| "run_call env (Call_ReturnBuffersList e q) s = HTC_ReturnBuffersList env e q s"
| "run_call env (Call_Local m a) s = Some (s\<lparr>mem := m, app := a\<rparr>)"

definition run_calls :: "'a htc_env \<Rightarrow> 'a htc_call list \<Rightarrow> 'a htc \<Rightarrow> 'a htc option" where
  "run_calls env cs s = foldM (\<lambda>s c. run_call env c s) s cs"

lemma run_call_inv: "htc_inv s \<Longrightarrow> pred_option htc_inv (run_call env c s)"
  by (cases c) (simp_all add: HTC_SendMsg_pred ReturnBuffers_inv HTC_ReturnBuffers_def HTC_ReturnBuffersList_inv)

lemma run_calls_inv: "htc_inv s \<Longrightarrow> pred_option htc_inv (run_calls env cs s)"
  unfolding run_calls_def
  by (induction cs arbitrary: s) (auto simp: pred_option_bind intro!: pred_option_mono_strong [OF run_call_inv])

section \<open>Reachable states\<close>

text \<open>
  The entry points of HTC in any order: the start-up calls of the firmware, the HIF callbacks for
  received and sent buffers, and calls made by the services.
\<close>

inductive htc_step :: "'a htc_env \<Rightarrow> 'a htc \<Rightarrow> 'a htc \<Rightarrow> bool" for env where
  register: "i < length (services s) \<Longrightarrow> htc_step env s (HTC_RegisterService i s)"
| ready: "HTC_Ready env s = Some s' \<Longrightarrow> htc_step env s s'"
| received: "HTCMsgRecvHandler env h b s = Some s' \<Longrightarrow> htc_step env s s'"
| sent: "HTCSendDoneHandler env b s = Some s' \<Longrightarrow> htc_step env s s'"
| service: "run_call env c s = Some s' \<Longrightarrow> htc_step env s s'"

inductive htc_reachable :: "'a htc_env \<Rightarrow> int \<Rightarrow> 'a htc \<Rightarrow> bool" for env creditNumber where
  init: "HTC_Init env a svcs creditSize creditNumber m = Some s \<Longrightarrow> htc_reachable env creditNumber s"
| step: "htc_reachable env creditNumber s \<Longrightarrow> htc_step env s s' \<Longrightarrow> htc_reachable env creditNumber s'"

lemma HTC_Init_inv:
  assumes "HTC_Init env a svcs creditSize n m = Some s" "0 \<le> n"
  shows "htc_inv s"
proof -
  have e: "HTC_Init env a svcs creditSize n m = Some s \<Longrightarrow> \<exists>ul dl m' l. s =
    \<lparr>Endpoints = (replicate ENDPOINT_MAX HTC_ENDPOINT_zero)[0 := HTC_ENDPOINT_zero
                \<lparr>pService := Some Control_Service, UpLinkPipeID := ul, DownLinkPipeID := dl\<rparr>],
              EpHostNeedsCreditMap = 0, EpCreditPendingMap = 0, CurrentEpIndex = 1,
              services = svcs, pServiceList = [], RecvBufferSize = creditSize, StateFlags = 0,
              TotalCredits = n, TotalCreditsAssigned = 0, MaxEpPendingCreditRpts = 3,
              mem = m', hif_log = l, app = a\<rparr>"
    by (auto simp: HTC_Init_def Let_def log_hif_def split: prod.splits Option.bind_splits)
  then obtain ul dl m' l where s: "s =
    \<lparr>Endpoints = (replicate ENDPOINT_MAX HTC_ENDPOINT_zero)[0 := HTC_ENDPOINT_zero
                \<lparr>pService := Some Control_Service, UpLinkPipeID := ul, DownLinkPipeID := dl\<rparr>],
              EpHostNeedsCreditMap = 0, EpCreditPendingMap = 0, CurrentEpIndex = 1,
              services = svcs, pServiceList = [], RecvBufferSize = creditSize, StateFlags = 0,
              TotalCredits = n, TotalCreditsAssigned = 0, MaxEpPendingCreditRpts = 3,
              mem = m', hif_log = l, app = a\<rparr>"
    using assms(1) by blast
  have "ep_ok s j" if "j < 22" for j
    using that by (cases "j = 0") (simp_all add: s ep_ok_def svc_ok_def HTC_ENDPOINT_zero_def)
  then show ?thesis using assms(2) by (simp add: htc_inv_def s)
qed

context htc_client
begin

lemma step_keeps:
  assumes "htc_step env s s'" "htc_inv s"
  shows "htc_inv s'"
  using assms(1)
proof (cases rule: htc_step.cases)
  case (register i)
  then show ?thesis using assms(2) by (simp add: HTC_RegisterService_def)
next
  case ready
  then show ?thesis using pred_optionD [OF HTC_Ready_inv [OF assms(2)]] by simp
next
  case (received h b)
  then show ?thesis using pred_optionD [OF HTCMsgRecvHandler_keeps [OF assms(2)]] by simp
next
  case (sent b)
  then show ?thesis using pred_optionD [OF HTCSendDoneHandler_keeps [OF assms(2)]] by simp
next
  case (service c)
  then show ?thesis using pred_optionD [OF run_call_inv [OF assms(2)]] by simp
qed

lemma reachable_inv: "htc_reachable env n s \<Longrightarrow> 0 \<le> n \<Longrightarrow> htc_inv s"
  by (induction rule: htc_reachable.induct) (auto intro: HTC_Init_inv step_keeps)

end

text \<open>Services given by the calls they make; they form a client whatever those are.\<close>

record 'a svc_calls =
  on_connect :: "nat \<Rightarrow> nat \<Rightarrow> addr \<Rightarrow> u8 \<Rightarrow> addr \<Rightarrow> 'a htc \<Rightarrow> u8 \<times> u8 \<times> 'a htc_call list"
  on_recv :: "nat \<Rightarrow> nat \<Rightarrow> addr \<Rightarrow> addr \<Rightarrow> 'a htc \<Rightarrow> 'a htc_call list"
  on_complete :: "nat \<Rightarrow> nat \<Rightarrow> addr \<Rightarrow> 'a htc \<Rightarrow> 'a htc_call list"
  on_setup :: "'a htc \<Rightarrow> 'a htc_call list"

definition calls_env :: "'a svc_calls \<Rightarrow> 'a htc_env \<Rightarrow> 'a htc_env" where
  "calls_env svc hif = hif\<lparr>
     ProcessConnect := (\<lambda>i e d l r s. case on_connect svc i e d l r s of (st, n, cs) \<Rightarrow>
        map_option (\<lambda>s. (st, n, s)) (run_calls hif cs s)),
     ProcessRecvMsg := (\<lambda>i e h b s. run_calls hif (on_recv svc i e h b s) s),
     ProcessSendBufferComplete := (\<lambda>i e b s. run_calls hif (on_complete svc i e b s) s),
     SetupCompleteCb := Some (\<lambda>s. run_calls hif (on_setup svc s) s)\<rparr>"

interpretation calls: htc_client "calls_env svc hif" for svc :: "'a svc_calls" and hif
  by unfold_locales
    (auto simp: calls_env_def option.pred_map comp_def run_calls_inv split: prod.split)

text \<open>
  Property C5. In every state that HTC reaches from its initialisation, whatever frames the
  host sends, in whatever order buffers complete and whatever the services do: an endpoint that
  owes credits is marked in the pending map and the map marks real endpoints only, no endpoint
  has more than three credit reports under way, endpoints from \<open>CurrentEpIndex\<close> on are unused, and
  the credits assigned to pipes do not exceed the total.
\<close>

theorem htc_reachable_safe:
  assumes "htc_reachable (calls_env svc hif) creditNumber s" "0 \<le> creditNumber"
  shows "length (Endpoints s) = ENDPOINT_MAX \<and>
    (\<forall>j<ENDPOINT_MAX. (CreditsToReturn (Endpoints s ! j) \<noteq> 0 \<longrightarrow> bit (EpCreditPendingMap s) j) \<and>
       PendingCreditReports (Endpoints s ! j) \<le> 3 \<and>
       (CurrentEpIndex s \<le> j \<longrightarrow> pService (Endpoints s ! j) = None)) \<and>
    (\<forall>j. bit (EpCreditPendingMap s) j \<longrightarrow> j < ENDPOINT_MAX) \<and>
    pService (Endpoints s ! 0) = Some Control_Service \<and>
    0 \<le> TotalCreditsAssigned s \<and> TotalCreditsAssigned s \<le> TotalCredits s"
proof -
  have inv: "htc_inv s" by (rule calls.reachable_inv [OF assms])
  have "(CreditsToReturn (Endpoints s ! j) \<noteq> 0 \<longrightarrow> bit (EpCreditPendingMap s) j) \<and>
       PendingCreditReports (Endpoints s ! j) \<le> 3 \<and>
       (CurrentEpIndex s \<le> j \<longrightarrow> pService (Endpoints s ! j) = None)" if "j < ENDPOINT_MAX" for j
  proof -
    have "ep_ok s j" "MaxEpPendingCreditRpts s = 3" "1 \<le> CurrentEpIndex s" using inv that by (simp_all add: htc_inv_def)
    then show ?thesis
      by (cases "pService (Endpoints s ! j)"; cases "the (pService (Endpoints s ! j))")
        (auto simp: ep_ok_def svc_ok_def)
  qed
  then show ?thesis using inv by (simp add: htc_inv_def)
qed

section \<open>A boot\<close>

definition boot_mem :: "fw_mem option" where
  "boot_mem = do {
     let m = buf_pool_static_init (cmnos_allocram_init 0x10000 4096 (mem0\<lparr>bufQ := replicate 10 NULL\<rparr>));
     m \<leftarrow> vbuf_init vbuf0 5 m;
     vdesc_init vdesc0 5 m }"

definition svc_idle :: "unit svc_calls" where
  "svc_idle = \<lparr>on_connect = (\<lambda>i e d l r s. (0, 0, [])), on_recv = (\<lambda>i e h b s. [Call_ReturnBuffers e b]),
     on_complete = (\<lambda>i e b s. []), on_setup = (\<lambda>s. [])\<rparr>"

lemma boot_ok:
  "case boot_mem of None \<Rightarrow> False | Some m \<Rightarrow>
     \<not> Option.is_none (HTC_Init (calls_env svc_idle env0) () [] 64 20 m)"
  by code_simp

theorem htc_reachable_safe_witness:
  "\<exists>m s. boot_mem = Some m \<and> HTC_Init (calls_env svc_idle env0) () [] 64 20 m = Some s \<and>
     TotalCreditsAssigned s \<le> TotalCredits s \<and> PendingCreditReports (Endpoints s ! 5) \<le> 3"
proof -
  from boot_ok obtain m s where m: "boot_mem = Some m" "HTC_Init (calls_env svc_idle env0) () [] 64 20 m = Some s"
    by (auto simp: Option.is_none_def split: option.splits)
  from htc_reachable_safe [OF htc_reachable.init [OF m(2)]] m show ?thesis by (intro exI [of _ m] exI [of _ s]) simp
qed

end
