(* ===== verification/Wmi.thy ===== *)
theory Wmi
  imports Htc_Inv
begin

text \<open>
  The wireless module interface (\<^verbatim>\<open>wmi_svc.c\<close>), the service that carries commands from the host
  and replies and events to it. \<^verbatim>\<open>WMI_SVC_CONTEXT\<close> is the application state of the HTC model;
  the driver extends it. Command handlers are numbers, the functions behind them an argument of
  the receive handler. A dispatch table is the list of its entries (\<^verbatim>\<open>NumberOfEntries\<close> is its
  length) and the linked list of tables is a list, in the order of registration.
\<close>

section \<open>State\<close>

record WMI_DISPATCH_ENTRY =
  pCmdHandler :: "nat option"
  CmdID :: u16
  CheckLength :: u16

record WMI_DISPATCH_TABLE =
  pContext :: nat
  pTable :: "WMI_DISPATCH_ENTRY list"

record WMI_SVC_CONTEXT =
  PendingEvents :: int
  ControlEp :: u8
  pDispatch :: "WMI_DISPATCH_TABLE list"

type_synonym 'b wmi_st = "'b WMI_SVC_CONTEXT_scheme htc"

type_synonym 'b cmd_handler =
  "nat \<Rightarrow> nat \<Rightarrow> u16 \<Rightarrow> u16 \<Rightarrow> addr \<Rightarrow> int \<Rightarrow> 'b wmi_st \<Rightarrow> 'b wmi_st option"

datatype WMI_EVT_CLASS = WMI_EVT_CLASS_NONE | WMI_EVT_CLASS_CMD_EVENT | WMI_EVT_CLASS_CMD_REPLY

definition evt_class_bytes :: "WMI_EVT_CLASS \<Rightarrow> u8 list" where
  "evt_class_bytes c = (case c of WMI_EVT_CLASS_NONE \<Rightarrow> [0xFF, 0xFF, 0xFF, 0xFF]
     | WMI_EVT_CLASS_CMD_EVENT \<Rightarrow> [0, 0, 0, 0] | WMI_EVT_CLASS_CMD_REPLY \<Rightarrow> [0, 0, 0, 1])"

text \<open>\<^verbatim>\<open>WMI_BUF_CONTEXT\<close>: the two bytes of HTC, then the event class as a 32-bit int at offset 4.\<close>

definition set_EventClass :: "WMI_EVT_CLASS \<Rightarrow> u8 list \<Rightarrow> u8 list" where
  "set_EventClass c xs = take 4 xs @ evt_class_bytes c @ drop 8 xs"

definition is_cmd_event :: "u8 list \<Rightarrow> bool" where
  "is_cmd_event xs = (take 4 (drop 4 xs) = evt_class_bytes WMI_EVT_CLASS_CMD_EVENT)"

section \<open>Dispatch of commands\<close>

text \<open>
  The first entry with the command's number decides in its table. If it fails the length check,
  or has no handler, the search goes on in the next table.
\<close>

fun scan_entries :: "WMI_DISPATCH_ENTRY list \<Rightarrow> u16 \<Rightarrow> int \<Rightarrow> nat option" where
  "scan_entries [] cmd len = None"
| "scan_entries (e # es) cmd len =
     (if CmdID e = cmd
      then if CheckLength e \<noteq> 0 \<and> len < uint (CheckLength e) then None else pCmdHandler e
      else scan_entries es cmd len)"

fun scan_tables :: "WMI_DISPATCH_TABLE list \<Rightarrow> u16 \<Rightarrow> int \<Rightarrow> (nat \<times> nat) option" where
  "scan_tables [] cmd len = None"
| "scan_tables (t # ts) cmd len =
     (case scan_entries (pTable t) cmd len of
        Some h \<Rightarrow> Some (pContext t, h)
      | None \<Rightarrow> scan_tables ts cmd len)"

definition WMI_RegisterDispatchTable :: "WMI_DISPATCH_TABLE \<Rightarrow> 'b wmi_st \<Rightarrow> 'b wmi_st" where
  "WMI_RegisterDispatchTable t s = s\<lparr>app := (app s)\<lparr>pDispatch := pDispatch (app s) @ [t]\<rparr>\<rparr>"

definition WMI_dispatch :: "'b cmd_handler \<Rightarrow> addr \<Rightarrow> 'b wmi_st \<Rightarrow> 'b wmi_st option" where
  "WMI_dispatch handler pHTCBuf s = do {
     len \<leftarrow> adf_nbuf_len (mem s) pHTCBuf;
     if len < 4 then Some s
     else do {
       (anbdata, _) \<leftarrow> adf_nbuf_peek_header (mem s) pHTCBuf;
       let dlen = sint (len - 4);
       let cmd = rd16 (mem s) anbdata;
       let seq = rd16 (mem s) (anbdata + 2);
       (case scan_tables (pDispatch (app s)) cmd dlen of
          None \<Rightarrow> Some s
        | Some (context, h) \<Rightarrow> handler h context cmd seq (anbdata + 4) dlen s) } }"

definition WMIRecvMessageHandler :: "'b WMI_SVC_CONTEXT_scheme htc_env \<Rightarrow> 'b cmd_handler \<Rightarrow> nat \<Rightarrow>
    addr \<Rightarrow> addr \<Rightarrow> 'b wmi_st \<Rightarrow> 'b wmi_st option" where
  "WMIRecvMessageHandler env handler EndPt hdr_buf pHTCBuf s = do {
     require (hdr_buf = NULL);
     s \<leftarrow> WMI_dispatch handler pHTCBuf s;
     HTC_ReturnBuffers env EndPt pHTCBuf s }"

section \<open>Replies and events\<close>

definition evt_pool :: "WMI_EVT_CLASS \<Rightarrow> nat" where
  "evt_pool c = (if c = WMI_EVT_CLASS_CMD_EVENT then POOL_ID_WMI_SVC_EVENT else POOL_ID_WMI_SVC_CMD_REPLY)"

definition WMI_AllocEvent :: "'b WMI_SVC_CONTEXT_scheme htc_env \<Rightarrow> WMI_EVT_CLASS \<Rightarrow> 'b wmi_st \<Rightarrow>
    (addr \<times> 'b wmi_st) option" where
  "WMI_AllocEvent env EventClass s = do {
     (buf, m) \<leftarrow> buf_pool_static_alloc_buf (evt_pool EventClass) (4 + HTC_GetReservedHeadroom env) (mem s);
     if buf \<noteq> NULL then do {
       m \<leftarrow> upd_vbuf buf (ctx_update (set_EventClass EventClass)) m;
       Some (buf, s\<lparr>mem := m\<rparr>) }
     else Some (buf, s\<lparr>mem := m\<rparr>) }"

definition WMI_SendEvent :: "'b WMI_SVC_CONTEXT_scheme htc_env \<Rightarrow> addr \<Rightarrow> u16 \<Rightarrow> u16 \<Rightarrow> 'b wmi_st \<Rightarrow>
    'b wmi_st option" where
  "WMI_SendEvent env pEvt EventId SeqNo s = do {
     (pBuffer, m) \<leftarrow> adf_nbuf_push_head pEvt 4 (mem s);
     let m = wr16 pBuffer EventId m;
     let m = wr16 (pBuffer + 2) SeqNo m;
     HTC_SendMsg env (unat (ControlEp (app s))) pEvt (s\<lparr>mem := m\<rparr>) }"

definition WMI_SendCompleteHandler :: "addr \<Rightarrow> 'b wmi_st \<Rightarrow> 'b wmi_st option" where
  "WMI_SendCompleteHandler pHTCBuf s = do {
     c \<leftarrow> adf_nbuf_get_priv (mem s) pHTCBuf;
     m \<leftarrow> buf_pool_static_free_buf
            (if is_cmd_event c then POOL_ID_WMI_SVC_EVENT else POOL_ID_WMI_SVC_CMD_REPLY) pHTCBuf (mem s);
     Some (s\<lparr>mem := m\<rparr>) }"

section \<open>Setup\<close>

definition WMIServiceConnect :: "nat \<Rightarrow> 'b wmi_st \<Rightarrow> (u8 \<times> u8 \<times> 'b wmi_st) option" where
  "WMIServiceConnect eid s = Some (0, 0, s\<lparr>app := (app s)\<lparr>ControlEp := of_nat eid\<rparr>\<rparr>)"

text \<open>The service object of WMI is the one with number \<open>i\<close>; the driver owns the others.\<close>

definition WMI_Init :: "nat \<Rightarrow> nat \<Rightarrow> nat \<Rightarrow> 'b wmi_st \<Rightarrow> 'b wmi_st option" where
  "WMI_Init i MaxCmdReplyEvts MaxEventEvts s = do {
     let s = s\<lparr>app := (app s)\<lparr>pDispatch := []\<rparr>\<rparr>;
     m \<leftarrow> buf_pool_static_create_pool POOL_ID_WMI_SVC_CMD_REPLY MaxCmdReplyEvts 112 (mem s);
     m \<leftarrow> buf_pool_static_create_pool POOL_ID_WMI_SVC_EVENT MaxEventEvts 112 m;
     sv \<leftarrow> at (services s) i;
     Some (HTC_RegisterService i (s\<lparr>services := (services s)[i := sv\<lparr>MaxSvcMsgSize := 1540, ServiceID := 0x0100\<rparr>],
                                    mem := m\<rparr>)) }"

definition WMI_GetPendingEventsCount :: "'b wmi_st \<Rightarrow> int" where
  "WMI_GetPendingEventsCount s = PendingEvents (app s)"

definition WMI_GetControlEp :: "'b wmi_st \<Rightarrow> int" where
  "WMI_GetControlEp s = uint (ControlEp (app s))"

text \<open>
  The HTC environment with WMI installed as service \<open>i\<close>; \<open>base\<close> answers for the HIF and serves
  the other services.
\<close>

definition wmi_env :: "'b WMI_SVC_CONTEXT_scheme htc_env \<Rightarrow> nat \<Rightarrow> 'b cmd_handler \<Rightarrow>
    'b WMI_SVC_CONTEXT_scheme htc_env" where
  "wmi_env base i handler = base\<lparr>
     ProcessConnect := (\<lambda>j eid d l r s. if j = i then WMIServiceConnect eid s
        else ProcessConnect base j eid d l r s),
     ProcessRecvMsg := (\<lambda>j eid h b s. if j = i then WMIRecvMessageHandler base handler eid h b s
        else ProcessRecvMsg base j eid h b s),
     ProcessSendBufferComplete := (\<lambda>j eid b s. if j = i then WMI_SendCompleteHandler b s
        else ProcessSendBufferComplete base j eid b s)\<rparr>"

end
