(* ===== verification/Rate_Tables.thy ===== *)
theory Rate_Tables
  imports Fw_Prelude
begin

text \<open>
  The rate tables of the rate control (\<^verbatim>\<open>ratectrl11n.h\<close>, \<^verbatim>\<open>ar5416Phy.c\<close>): one row per rate, for the
  AR9271 (K2), the AR7010 (Merlin) and the 5 GHz band. The two RSSI columns, which no code reads,
  are left out.
\<close>

abbreviation (input) WLAN_PHY_CCK :: u8 where "WLAN_PHY_CCK \<equiv> 0"
abbreviation (input) WLAN_PHY_OFDM :: u8 where "WLAN_PHY_OFDM \<equiv> 2"
abbreviation (input) WLAN_RC_PHY_HT_20_SS :: u8 where "WLAN_RC_PHY_HT_20_SS \<equiv> 4"
abbreviation (input) WLAN_RC_PHY_HT_20_DS :: u8 where "WLAN_RC_PHY_HT_20_DS \<equiv> 5"
abbreviation (input) WLAN_RC_PHY_HT_40_SS :: u8 where "WLAN_RC_PHY_HT_40_SS \<equiv> 6"
abbreviation (input) WLAN_RC_PHY_HT_40_DS :: u8 where "WLAN_RC_PHY_HT_40_DS \<equiv> 7"
abbreviation (input) WLAN_RC_PHY_HT_20_SS_HGI :: u8 where "WLAN_RC_PHY_HT_20_SS_HGI \<equiv> 8"
abbreviation (input) WLAN_RC_PHY_HT_20_DS_HGI :: u8 where "WLAN_RC_PHY_HT_20_DS_HGI \<equiv> 9"
abbreviation (input) WLAN_RC_PHY_HT_40_SS_HGI :: u8 where "WLAN_RC_PHY_HT_40_SS_HGI \<equiv> 10"
abbreviation (input) WLAN_RC_PHY_HT_40_DS_HGI :: u8 where "WLAN_RC_PHY_HT_40_DS_HGI \<equiv> 11"
abbreviation (input) WLAN_RC_PHY_MAX :: nat where "WLAN_RC_PHY_MAX \<equiv> 12"

abbreviation (input) TRUE_20 :: u32 where "TRUE_20 \<equiv> 2"
abbreviation (input) TRUE_40 :: u32 where "TRUE_40 \<equiv> 4"
abbreviation (input) TRUE_ALL :: u32 where "TRUE_ALL \<equiv> 7"
abbreviation (input) WLAN_RC_HT_FLAG :: u32 where "WLAN_RC_HT_FLAG \<equiv> 8"

record rc11n_info =
  valid :: u32
  validSingleStream :: u32
  validSTBC :: u32
  phy :: u8
  rateKbps :: u32
  userRateKbps :: u32
  rateCode :: u8
  shortPreamble :: u8
  dot11Rate :: u8
  controlRate :: u8
  baseIndex :: u8
  cw40Index :: u8
  sgiIndex :: u8
  htIndex :: u8
  txChainMask_2ch :: u8
  txChainMask_3ch :: u8
  max4msframelen :: u32
  uapsdvalid :: u32

record RATE_TABLE_11N =
  rateCount :: u8
  probeInterval :: u8
  rssiReduceInterval :: u8
  initialRateMax :: u8
  info :: "rc11n_info list"

definition rate :: "u32 \<Rightarrow> u32 \<Rightarrow> u32 \<Rightarrow> u8 \<Rightarrow> u32 \<Rightarrow> u32 \<Rightarrow> u8 \<Rightarrow> u8 \<Rightarrow> u8 \<Rightarrow> u8 \<Rightarrow> u8 \<Rightarrow> u8 \<Rightarrow> u8 \<Rightarrow> u8 \<Rightarrow>
    u8 \<Rightarrow> u8 \<Rightarrow> u32 \<Rightarrow> u32 \<Rightarrow> rc11n_info" where
  "rate v ss stbc p kbps ukbps code pre dot11 ctrl base cw40 sgi ht c2 c3 max4 uapsd =
     \<lparr>valid = v, validSingleStream = ss, validSTBC = stbc, phy = p, rateKbps = kbps, userRateKbps = ukbps,
      rateCode = code, shortPreamble = pre, dot11Rate = dot11, controlRate = ctrl, baseIndex = base,
      cw40Index = cw40, sgiIndex = sgi, htIndex = ht, txChainMask_2ch = c2, txChainMask_3ch = c3,
      max4msframelen = max4, uapsdvalid = uapsd\<rparr>"

section \<open>The tables\<close>

definition ar5416_11ngRateTable_k2 :: RATE_TABLE_11N where
  "ar5416_11ngRateTable_k2 = \<lparr>rateCount = 54, probeInterval = 100, rssiReduceInterval = 50,
    initialRateMax = 8, info = [
    rate TRUE_ALL TRUE_ALL 0 WLAN_PHY_CCK 1000 900 27 0 2 0 0 0 0 0 3 7 0 1,
    rate TRUE_ALL TRUE_ALL 0 WLAN_PHY_CCK 2000 1900 26 4 4 1 1 1 1 1 3 7 0 0,
    rate TRUE_ALL TRUE_ALL 0 WLAN_PHY_CCK 5500 4900 25 4 11 2 2 2 2 2 3 7 0 0,
    rate TRUE_ALL TRUE_ALL 0 WLAN_PHY_CCK 11000 8100 24 4 22 3 3 3 3 3 3 7 0 1,
    rate 0 0 0 WLAN_PHY_OFDM 6000 5400 11 0 12 4 4 4 4 4 3 7 0 0,
    rate 0 0 0 WLAN_PHY_OFDM 9000 7800 15 0 18 4 5 5 5 5 3 7 0 0,
    rate 1 1 0 WLAN_PHY_OFDM 12000 10100 10 0 24 6 6 6 6 6 3 7 0 0,
    rate 1 1 0 WLAN_PHY_OFDM 18000 14100 14 0 36 6 7 7 7 7 3 7 0 0,
    rate 1 1 0 WLAN_PHY_OFDM 24000 17700 9 0 48 8 8 8 8 8 3 7 0 1,
    rate 1 1 0 WLAN_PHY_OFDM 36000 23700 13 0 72 8 9 9 9 9 3 7 0 0,
    rate 1 1 0 WLAN_PHY_OFDM 48000 27400 8 0 96 8 10 10 10 10 1 1 0 0,
    rate 1 1 0 WLAN_PHY_OFDM 54000 30900 12 0 108 8 11 11 11 11 1 1 0 1,
    rate 0 0 0 WLAN_RC_PHY_HT_20_SS 6500 6400 128 0 0 4 12 33 12 33 3 7 3216 1,
    rate TRUE_20 TRUE_20 0 WLAN_RC_PHY_HT_20_SS 13000 12700 129 0 1 6 13 34 13 34 3 7 6434 1,
    rate TRUE_20 TRUE_20 0 WLAN_RC_PHY_HT_20_SS 19500 18800 130 0 2 6 14 35 14 35 3 7 9650 0,
    rate TRUE_20 TRUE_20 0 WLAN_RC_PHY_HT_20_SS 26000 25000 131 0 3 8 15 36 15 36 3 7 12868 0,
    rate TRUE_20 TRUE_20 0 WLAN_RC_PHY_HT_20_SS 39000 36700 132 0 4 8 16 37 17 38 3 7 19304 1,
    rate 0 TRUE_20 0 WLAN_RC_PHY_HT_20_SS_HGI 43300 39200 132 0 4 8 16 37 17 38 3 7 21460 1,
    rate 0 TRUE_20 0 WLAN_RC_PHY_HT_20_SS 52000 48100 133 0 5 8 18 39 19 40 1 1 25740 0,
    rate 0 TRUE_20 0 WLAN_RC_PHY_HT_20_SS_HGI 57800 52300 133 0 5 8 18 39 19 40 1 1 28620 0,
    rate 0 TRUE_20 0 WLAN_RC_PHY_HT_20_SS 58500 53500 134 0 6 8 20 41 21 42 1 1 28956 0,
    rate 0 TRUE_20 0 WLAN_RC_PHY_HT_20_SS_HGI 65000 58800 134 0 6 8 20 41 21 42 1 1 32200 0,
    rate 0 TRUE_20 0 WLAN_RC_PHY_HT_20_SS 65000 58801 135 0 7 8 22 43 23 44 1 1 32200 1,
    rate 0 TRUE_20 0 WLAN_RC_PHY_HT_20_SS_HGI 72200 65400 135 0 7 8 22 43 23 44 1 1 35750 1,
    rate TRUE_20 0 0 WLAN_RC_PHY_HT_20_DS 52000 48100 139 0 11 8 24 45 24 45 3 7 25736 0,
    rate TRUE_20 0 0 WLAN_RC_PHY_HT_20_DS 78000 69500 140 0 12 8 25 46 26 47 3 7 38600 1,
    rate 0 0 0 WLAN_RC_PHY_HT_20_DS_HGI 86700 78400 140 0 12 8 25 46 26 47 3 7 42890 1,
    rate TRUE_20 0 0 WLAN_RC_PHY_HT_20_DS 104000 89500 141 0 13 8 27 48 28 49 3 5 51472 0,
    rate 0 0 0 WLAN_RC_PHY_HT_20_DS_HGI 115600 103900 141 0 13 8 27 48 28 49 3 5 57190 0,
    rate TRUE_20 0 0 WLAN_RC_PHY_HT_20_DS 117000 105200 142 0 14 8 29 50 30 51 3 5 57890 0,
    rate 0 0 0 WLAN_RC_PHY_HT_20_DS_HGI 130000 116090 142 0 14 8 29 50 30 51 3 5 64320 0,
    rate TRUE_20 0 0 WLAN_RC_PHY_HT_20_DS 130000 116100 143 0 15 8 31 52 32 53 3 5 64320 1,
    rate TRUE_20 0 0 WLAN_RC_PHY_HT_20_DS_HGI 144400 128100 143 0 15 8 31 52 32 53 3 5 71490 1,
    rate TRUE_40 TRUE_40 0 WLAN_RC_PHY_HT_40_SS 13500 13200 128 0 0 8 12 33 33 33 3 7 6684 1,
    rate TRUE_40 TRUE_40 0 WLAN_RC_PHY_HT_40_SS 27500 25900 129 0 1 8 13 34 34 34 3 7 13368 1,
    rate TRUE_40 TRUE_40 0 WLAN_RC_PHY_HT_40_SS 40500 38600 130 0 2 8 14 35 35 35 3 7 20052 0,
    rate TRUE_40 TRUE_40 0 WLAN_RC_PHY_HT_40_SS 54000 49800 131 0 3 8 15 36 36 36 3 7 26738 0,
    rate TRUE_40 TRUE_40 0 WLAN_RC_PHY_HT_40_SS 81500 72200 132 0 4 8 16 37 38 38 3 7 40104 1,
    rate 0 TRUE_40 0 WLAN_RC_PHY_HT_40_SS_HGI 90000 81500 132 0 4 8 16 37 38 38 3 7 44590 1,
    rate 0 TRUE_40 0 WLAN_RC_PHY_HT_40_SS 108000 92900 133 0 5 8 18 39 40 40 1 1 53476 0,
    rate 0 TRUE_40 0 WLAN_RC_PHY_HT_40_SS_HGI 120000 102100 133 0 5 8 18 39 40 40 1 1 59450 0,
    rate 0 TRUE_40 0 WLAN_RC_PHY_HT_40_SS 121500 102700 134 0 6 8 20 41 42 42 1 1 60156 0,
    rate 0 TRUE_40 0 WLAN_RC_PHY_HT_40_SS_HGI 135000 111900 134 0 6 8 20 41 42 42 1 1 66840 0,
    rate 0 TRUE_40 0 WLAN_RC_PHY_HT_40_SS 135000 112000 135 0 7 8 22 43 44 44 1 1 66840 1,
    rate 0 TRUE_40 0 WLAN_RC_PHY_HT_40_SS_HGI 150000 122000 135 0 7 8 22 43 44 44 1 1 74200 1,
    rate TRUE_40 0 0 WLAN_RC_PHY_HT_40_DS 108000 92500 139 0 11 8 24 45 45 45 3 7 53440 0,
    rate TRUE_40 0 0 WLAN_RC_PHY_HT_40_DS 162000 130300 140 0 12 8 25 46 47 47 3 7 80160 1,
    rate 0 0 0 WLAN_RC_PHY_HT_40_DS_HGI 180000 156900 140 0 12 8 25 46 47 47 3 7 89090 1,
    rate TRUE_40 0 0 WLAN_RC_PHY_HT_40_DS 216000 162800 141 0 13 8 27 48 49 49 3 5 106880 0,
    rate 0 0 0 WLAN_RC_PHY_HT_40_DS_HGI 240000 178000 141 0 13 8 27 48 49 49 3 5 118790 0,
    rate TRUE_40 0 0 WLAN_RC_PHY_HT_40_DS 243000 178200 142 0 14 8 29 50 51 51 3 5 120240 0,
    rate 0 0 0 WLAN_RC_PHY_HT_40_DS_HGI 270000 192050 142 0 14 8 29 50 51 51 3 5 133600 0,
    rate TRUE_40 0 0 WLAN_RC_PHY_HT_40_DS 270000 192100 143 0 15 8 31 52 53 53 3 5 133600 0,
    rate TRUE_40 0 0 WLAN_RC_PHY_HT_40_DS_HGI 300000 207000 143 0 15 8 31 52 53 53 3 5 148400 1]\<rparr>"

definition ar5416_11ngRateTable_merlin :: RATE_TABLE_11N where
  "ar5416_11ngRateTable_merlin = \<lparr>rateCount = 46, probeInterval = 50, rssiReduceInterval = 50,
    initialRateMax = 8, info = [
    rate TRUE_ALL TRUE_ALL TRUE_ALL WLAN_PHY_CCK 1000 900 27 0 2 0 0 0 0 0 3 7 0 1,
    rate TRUE_ALL TRUE_ALL TRUE_ALL WLAN_PHY_CCK 2000 1900 26 4 4 1 1 1 1 1 3 7 0 0,
    rate TRUE_ALL TRUE_ALL TRUE_ALL WLAN_PHY_CCK 5500 4900 25 4 11 2 2 2 2 2 3 7 0 0,
    rate TRUE_ALL TRUE_ALL TRUE_ALL WLAN_PHY_CCK 11000 8100 24 4 22 3 3 3 3 3 3 7 0 1,
    rate 0 0 0 WLAN_PHY_OFDM 6000 5400 11 0 12 4 4 4 4 4 3 7 0 0,
    rate 0 0 0 WLAN_PHY_OFDM 9000 7800 15 0 18 4 5 5 5 5 3 7 0 0,
    rate 1 1 1 WLAN_PHY_OFDM 12000 10100 10 0 24 6 6 6 6 6 3 7 0 0,
    rate 1 1 1 WLAN_PHY_OFDM 18000 14100 14 0 36 6 7 7 7 7 3 7 0 0,
    rate 1 1 1 WLAN_PHY_OFDM 24000 17700 9 0 48 8 8 8 8 8 3 7 0 1,
    rate 1 1 1 WLAN_PHY_OFDM 36000 23700 13 0 72 8 9 9 9 9 3 7 0 0,
    rate 1 1 1 WLAN_PHY_OFDM 48000 27400 8 0 96 8 10 10 10 10 1 1 0 0,
    rate 1 1 1 WLAN_PHY_OFDM 54000 30900 12 0 108 8 11 11 11 11 1 1 0 1,
    rate 0 0 0 WLAN_RC_PHY_HT_20_SS 6500 6400 128 0 0 4 12 28 12 28 3 7 3216 1,
    rate TRUE_20 TRUE_20 TRUE_20 WLAN_RC_PHY_HT_20_SS 13000 12700 129 0 1 6 13 29 13 29 3 7 6434 1,
    rate TRUE_20 TRUE_20 TRUE_20 WLAN_RC_PHY_HT_20_SS 19500 18800 130 0 2 6 14 30 14 30 3 7 9650 0,
    rate TRUE_20 TRUE_20 TRUE_20 WLAN_RC_PHY_HT_20_SS 26000 25000 131 0 3 8 15 31 15 31 3 7 12868 0,
    rate TRUE_20 TRUE_20 TRUE_20 WLAN_RC_PHY_HT_20_SS 39000 36700 132 0 4 8 16 32 16 32 3 7 19304 1,
    rate 0 TRUE_20 TRUE_20 WLAN_RC_PHY_HT_20_SS 52000 48100 133 0 5 8 17 33 17 33 1 1 25740 0,
    rate 0 TRUE_20 TRUE_20 WLAN_RC_PHY_HT_20_SS 58500 53500 134 0 6 8 18 34 18 34 1 1 28956 0,
    rate 0 TRUE_20 0 WLAN_RC_PHY_HT_20_SS 65000 59000 135 0 7 8 19 35 19 36 1 1 32180 1,
    rate 0 0 0 WLAN_RC_PHY_HT_20_DS 13000 12700 136 0 8 4 20 37 20 37 3 7 6430 1,
    rate 0 0 0 WLAN_RC_PHY_HT_20_DS 26000 24800 137 0 9 6 21 38 21 38 3 7 12860 0,
    rate 0 0 0 WLAN_RC_PHY_HT_20_DS 39000 36600 138 0 10 6 22 39 22 39 3 7 19300 1,
    rate TRUE_20 0 0 WLAN_RC_PHY_HT_20_DS 52000 48100 139 0 11 8 23 40 23 40 3 7 25736 0,
    rate TRUE_20 0 TRUE_20 WLAN_RC_PHY_HT_20_DS 78000 69500 140 0 12 8 24 41 24 41 3 7 38600 1,
    rate TRUE_20 0 TRUE_20 WLAN_RC_PHY_HT_20_DS 104000 89500 141 0 13 8 25 42 25 42 3 5 51472 0,
    rate TRUE_20 0 TRUE_20 WLAN_RC_PHY_HT_20_DS 117000 98900 142 0 14 8 26 43 26 44 3 5 57890 0,
    rate TRUE_20 0 TRUE_20 WLAN_RC_PHY_HT_20_DS 130000 108300 143 0 15 8 27 44 27 45 3 5 64320 1,
    rate TRUE_40 TRUE_40 TRUE_40 WLAN_RC_PHY_HT_40_SS 13500 13200 128 0 0 8 12 28 28 28 3 7 6684 1,
    rate TRUE_40 TRUE_40 TRUE_40 WLAN_RC_PHY_HT_40_SS 27500 25900 129 0 1 8 13 29 29 29 3 7 13368 1,
    rate TRUE_40 TRUE_40 TRUE_40 WLAN_RC_PHY_HT_40_SS 40500 38600 130 0 2 8 14 30 30 30 3 7 20052 0,
    rate TRUE_40 TRUE_40 TRUE_40 WLAN_RC_PHY_HT_40_SS 54000 49800 131 0 3 8 15 31 31 31 3 7 26738 0,
    rate TRUE_40 TRUE_40 TRUE_40 WLAN_RC_PHY_HT_40_SS 81500 72200 132 0 4 8 16 32 32 32 3 7 40104 1,
    rate 0 TRUE_40 TRUE_40 WLAN_RC_PHY_HT_40_SS 108000 92900 133 0 5 8 17 33 33 33 1 1 53476 0,
    rate 0 TRUE_40 TRUE_40 WLAN_RC_PHY_HT_40_SS 121500 102700 134 0 6 8 18 34 34 34 1 1 60156 0,
    rate 0 TRUE_40 0 WLAN_RC_PHY_HT_40_SS 135000 112000 135 0 7 8 19 35 36 36 1 1 66840 1,
    rate 0 TRUE_40 0 WLAN_RC_PHY_HT_40_SS_HGI 150000 122000 135 0 7 8 19 35 36 36 1 1 74200 1,
    rate 0 0 0 WLAN_RC_PHY_HT_40_DS 27000 25800 136 0 8 8 20 37 37 37 3 7 13360 1,
    rate 0 0 0 WLAN_RC_PHY_HT_40_DS 54000 49800 137 0 9 8 21 38 38 38 3 7 26720 0,
    rate 0 0 0 WLAN_RC_PHY_HT_40_DS 81000 71900 138 0 10 8 22 39 39 39 3 7 40080 1,
    rate TRUE_40 0 0 WLAN_RC_PHY_HT_40_DS 108000 92500 139 0 11 8 23 40 40 40 3 7 53440 0,
    rate TRUE_40 0 TRUE_40 WLAN_RC_PHY_HT_40_DS 162000 130300 140 0 12 8 24 41 41 41 3 7 80160 1,
    rate TRUE_40 0 TRUE_40 WLAN_RC_PHY_HT_40_DS 216000 162800 141 0 13 8 25 42 42 42 3 5 106880 0,
    rate TRUE_40 0 TRUE_40 WLAN_RC_PHY_HT_40_DS 243000 178200 142 0 14 8 26 43 43 43 3 5 120240 0,
    rate TRUE_40 0 TRUE_40 WLAN_RC_PHY_HT_40_DS 270000 192100 143 0 15 8 27 44 45 45 3 5 133600 0,
    rate TRUE_40 0 TRUE_40 WLAN_RC_PHY_HT_40_DS_HGI 300000 207000 143 0 15 8 27 44 45 45 3 5 148400 1]\<rparr>"

definition ar5416_11naRateTable :: RATE_TABLE_11N where
  "ar5416_11naRateTable = \<lparr>rateCount = 42, probeInterval = 50, rssiReduceInterval = 50,
    initialRateMax = 8, info = [
    rate 1 1 1 WLAN_PHY_OFDM 6000 5400 11 0 12 0 0 0 0 0 3 7 0 1,
    rate 1 1 1 WLAN_PHY_OFDM 9000 7800 15 0 18 0 1 1 1 1 3 7 0 0,
    rate 1 1 1 WLAN_PHY_OFDM 12000 10000 10 0 24 2 2 2 2 2 3 7 0 1,
    rate 1 1 1 WLAN_PHY_OFDM 18000 13900 14 0 36 2 3 3 3 3 3 7 0 0,
    rate 1 1 1 WLAN_PHY_OFDM 24000 17300 9 0 48 4 4 4 4 4 3 7 0 1,
    rate 1 1 1 WLAN_PHY_OFDM 36000 23000 13 0 72 4 5 5 5 5 3 7 0 0,
    rate 1 1 1 WLAN_PHY_OFDM 48000 27400 8 0 96 4 6 6 6 6 1 1 0 0,
    rate 1 1 1 WLAN_PHY_OFDM 54000 29300 12 0 108 4 7 7 7 7 1 1 0 1,
    rate TRUE_20 TRUE_20 TRUE_20 WLAN_RC_PHY_HT_20_SS 6500 6400 128 0 0 0 8 24 8 24 3 7 3216 1,
    rate TRUE_20 TRUE_20 TRUE_20 WLAN_RC_PHY_HT_20_SS 13000 12700 129 0 1 2 9 25 9 25 3 7 6434 1,
    rate TRUE_20 TRUE_20 TRUE_20 WLAN_RC_PHY_HT_20_SS 19500 18800 130 0 2 2 10 26 10 26 3 7 9650 0,
    rate TRUE_20 TRUE_20 TRUE_20 WLAN_RC_PHY_HT_20_SS 26000 25000 131 0 3 4 11 27 11 27 3 7 12868 0,
    rate TRUE_20 TRUE_20 TRUE_20 WLAN_RC_PHY_HT_20_SS 39000 36700 132 0 4 4 12 28 12 28 3 7 19304 1,
    rate 0 TRUE_20 TRUE_20 WLAN_RC_PHY_HT_20_SS 52000 48100 133 0 5 4 13 29 13 29 1 1 25740 0,
    rate 0 TRUE_20 TRUE_20 WLAN_RC_PHY_HT_20_SS 58500 53500 134 0 6 4 14 30 14 30 1 1 28956 0,
    rate 0 TRUE_20 0 WLAN_RC_PHY_HT_20_SS 65000 59000 135 0 7 4 15 31 15 32 1 1 32180 1,
    rate 0 0 0 WLAN_RC_PHY_HT_20_DS 13000 12700 136 0 8 0 16 33 16 33 3 7 6430 1,
    rate 0 0 0 WLAN_RC_PHY_HT_20_DS 26000 24800 137 0 9 2 17 34 17 34 3 7 12860 0,
    rate 0 0 0 WLAN_RC_PHY_HT_20_DS 39000 36600 138 0 10 2 18 35 18 35 3 7 19300 1,
    rate TRUE_20 0 0 WLAN_RC_PHY_HT_20_DS 52000 48100 139 0 11 4 19 36 19 36 3 7 25736 0,
    rate TRUE_20 0 TRUE_20 WLAN_RC_PHY_HT_20_DS 78000 69500 140 0 12 4 20 37 20 37 3 7 38600 1,
    rate TRUE_20 0 TRUE_20 WLAN_RC_PHY_HT_20_DS 104000 89500 141 0 13 4 21 38 21 38 3 5 51472 0,
    rate TRUE_20 0 TRUE_20 WLAN_RC_PHY_HT_20_DS 117000 98900 142 0 14 4 22 39 22 39 3 5 57890 0,
    rate TRUE_20 0 TRUE_20 WLAN_RC_PHY_HT_20_DS 130000 108300 143 0 15 4 23 40 23 41 3 5 64320 1,
    rate TRUE_40 TRUE_40 TRUE_40 WLAN_RC_PHY_HT_40_SS 13500 13200 128 0 0 0 8 24 24 24 3 7 6684 1,
    rate TRUE_40 TRUE_40 TRUE_40 WLAN_RC_PHY_HT_40_SS 27500 25900 129 0 1 2 9 25 25 25 3 7 13368 1,
    rate TRUE_40 TRUE_40 TRUE_40 WLAN_RC_PHY_HT_40_SS 40500 38600 130 0 2 2 10 26 26 26 3 7 20052 0,
    rate TRUE_40 TRUE_40 TRUE_40 WLAN_RC_PHY_HT_40_SS 54000 49800 131 0 3 4 11 27 27 27 3 7 26738 0,
    rate TRUE_40 TRUE_40 TRUE_40 WLAN_RC_PHY_HT_40_SS 81500 72200 132 0 4 4 12 28 28 28 3 7 40104 1,
    rate 0 TRUE_40 TRUE_40 WLAN_RC_PHY_HT_40_SS 108000 92900 133 0 5 4 13 29 29 29 1 1 53476 0,
    rate 0 TRUE_40 TRUE_40 WLAN_RC_PHY_HT_40_SS 121500 102700 134 0 6 4 14 30 30 30 1 1 60156 0,
    rate 0 TRUE_40 0 WLAN_RC_PHY_HT_40_SS 135000 112000 135 0 7 4 15 31 32 32 1 1 66840 1,
    rate 0 TRUE_40 0 WLAN_RC_PHY_HT_40_SS_HGI 150000 122000 135 0 7 8 15 31 32 32 1 1 65535 1,
    rate 0 0 0 WLAN_RC_PHY_HT_40_DS 27000 25800 136 0 8 0 16 33 33 33 3 7 13360 1,
    rate 0 0 0 WLAN_RC_PHY_HT_40_DS 54000 49800 137 0 9 2 17 34 34 34 3 7 26720 0,
    rate 0 0 0 WLAN_RC_PHY_HT_40_DS 81000 71900 138 0 10 2 18 35 35 35 3 7 40080 1,
    rate TRUE_40 0 0 WLAN_RC_PHY_HT_40_DS 108000 92500 139 0 11 4 19 36 36 36 3 7 53440 0,
    rate TRUE_40 0 TRUE_40 WLAN_RC_PHY_HT_40_DS 162000 130300 140 0 12 4 20 37 37 37 3 7 80160 1,
    rate TRUE_40 0 TRUE_40 WLAN_RC_PHY_HT_40_DS 216000 162800 141 0 13 4 21 38 38 38 3 5 106880 0,
    rate TRUE_40 0 TRUE_40 WLAN_RC_PHY_HT_40_DS 243000 178200 142 0 14 4 22 39 39 39 3 5 120240 0,
    rate TRUE_40 0 TRUE_40 WLAN_RC_PHY_HT_40_DS 270000 192100 143 0 15 4 23 40 41 41 3 5 133600 1,
    rate TRUE_40 0 TRUE_40 WLAN_RC_PHY_HT_40_DS_HGI 300000 207000 143 0 15 4 23 40 41 41 3 5 148400 1]\<rparr>"

section \<open>Well-formed tables\<close>

text \<open>
  The number of rates is that of the rows, the PHY type is one of the twelve, and the indices of
  a row stay inside the table and lead to rows of the same bit rate family: the base row is its
  own base and every variant of a rate has the same 802.11 rate value and the same base.
\<close>

definition row_ok :: "rc11n_info list \<Rightarrow> rc11n_info \<Rightarrow> bool" where
  "row_ok rows r \<longleftrightarrow> unat (phy r) < WLAN_RC_PHY_MAX \<and>
     (\<forall>i\<in>set [baseIndex r, cw40Index r, sgiIndex r, htIndex r].
        unat i < length rows \<and> dot11Rate (rows ! unat i) = dot11Rate r \<and>
        baseIndex (rows ! unat i) = baseIndex r)"

definition rate_table_ok :: "RATE_TABLE_11N \<Rightarrow> bool" where
  "rate_table_ok rt \<longleftrightarrow> length (info rt) = unat (rateCount rt) \<and> list_all (row_ok (info rt)) (info rt)"

text \<open>
  The tables of the AR9271 and of the 5 GHz band are well formed, and in that of
  the AR7010 exactly one row is not: row 26 (MCS 14, 20 MHz), whose index for 40 MHz with short
  guard interval is 44, an MCS 15 row, instead of 43.
\<close>

theorem rate_tables_well_formed:
  "rate_table_ok ar5416_11ngRateTable_k2 \<and> rate_table_ok ar5416_11naRateTable \<and>
   length (info ar5416_11ngRateTable_merlin) = unat (rateCount ar5416_11ngRateTable_merlin) \<and>
   filter (\<lambda>i. \<not> row_ok (info ar5416_11ngRateTable_merlin) (info ar5416_11ngRateTable_merlin ! i)) [0..<46] = [26] \<and>
   dot11Rate (info ar5416_11ngRateTable_merlin ! 26) = 14 \<and>
   dot11Rate (info ar5416_11ngRateTable_merlin ! unat (htIndex (info ar5416_11ngRateTable_merlin ! 26))) = 15"
  by code_simp

end
