(* ===== verification/Tx_State.thy ===== *)
theory Tx_State
  imports Fw_Prelude
begin

text \<open>
  Data of the transmit path (\<^verbatim>\<open>target_firmware/wlan/if_athvar.h\<close>): the software transmit
  buffer \<^verbatim>\<open>ath_tx_buf\<close> with its \<^verbatim>\<open>ath_buf_state\<close>, the per-node per-TID aggregation state
  \<^verbatim>\<open>ath_atx_tid\<close> and the macros on them. Pointers to objects of the static arrays of the
  softc are the index of the object; NULL is \<open>None\<close>. A tail queue (\<^verbatim>\<open>asf_tailq\<close>) is the
  list of its elements from first to last.
\<close>

section \<open>Constants\<close>

definition IEEE80211_SEQ_SEQ_SHIFT :: nat where "IEEE80211_SEQ_SEQ_SHIFT = 4"

abbreviation (input) WME_MAX_BA :: nat where "WME_MAX_BA \<equiv> 64"
abbreviation (input) ATH_TID_MAX_BUFS :: nat where "ATH_TID_MAX_BUFS \<equiv> 128"
abbreviation (input) OWLMAX_RETRIES :: u8 where "OWLMAX_RETRIES \<equiv> 10"

section \<open>Transmit buffers\<close>

datatype comp_fn = Comp_Normal | Comp_Aggr | Comp_Bar

text \<open>
  \<^verbatim>\<open>struct ath_rc_series\<close> (\<^verbatim>\<open>if_athrate.h\<close>): one entry of a multi-rate retry series.
\<close>

record ath_rc_series =
  rcs_rix :: u8
  rcs_tries :: u8
  rcs_tx_chainmask :: u8
  rcs_flags :: u8
  rcs_max4msframelen :: u32
  rcs_txrateKbps :: u32

type_synonym bufref = nat
type_synonym nbufref = nat

record ath_tx_buf =
  bf_comp :: "comp_fn option"
  bf_pktlen :: u16
  bf_seqno :: u16
  bf_keytype :: u8
  bf_ndelim :: u8
  bf_nframes :: u8
  bf_tidno :: u8
  bf_al :: u16
  bf_rcs :: "ath_rc_series list"
  bf_txq :: nat
  bf_retries :: u8
  bf_ismcast :: bool
  bf_isaggr :: bool
  bf_isretried :: bool
  bf_node :: "nat option"
  bf_skbhead :: "nbufref list"
  bf_next :: "bufref option"
  bf_endpt :: u8
  bf_cookie :: u8
  bf_hdrlen :: u8
  bf_keyix :: u8
  bf_atype :: u8
  bf_protmode :: u8
  bf_shpream :: bool
  bf_skb :: "nbufref option"
  bf_lastds :: bufref
  bf_flags :: u16
  vap_index :: u8

section \<open>Per-TID aggregation state\<close>

record ath_atx_tid =
  tidno :: u32
  seq_start :: u16
  seq_next :: u16
  baw_size :: u16
  baw_head :: u32
  baw_tail :: u32
  tx_buf_bitmap :: "u32 list"
  buf_q :: "bufref list"
  paused :: u8
  sched :: u8
  flag :: u8
  incomp :: u8

abbreviation (input) TID_CLEANUP_INPROGRES :: u8 where "TID_CLEANUP_INPROGRES \<equiv> 1"
abbreviation (input) TID_AGGR_ENABLED :: u8 where "TID_AGGR_ENABLED \<equiv> 2"
abbreviation (input) TID_REINITIALIZE :: u8 where "TID_REINITIALIZE \<equiv> 4"

text \<open>
  \<^verbatim>\<open>INCR(_l, _sz)\<close> increments and then masks. \<^verbatim>\<open>seq_start\<close> is 16 bits wide, the ring
  indices \<^verbatim>\<open>baw_head\<close> and \<^verbatim>\<open>baw_tail\<close> are \<^verbatim>\<open>a_int32_t\<close>.
\<close>

definition INCR_seq :: "u16 \<Rightarrow> u16" where
  "INCR_seq l = (l + 1) AND 4095"

definition INCR_baw :: "u32 \<Rightarrow> u32" where
  "INCR_baw l = (l + 1) AND 127"

definition SEQNO_FROM_BF_SEQNO :: "u16 \<Rightarrow> u32" where
  "SEQNO_FROM_BF_SEQNO x = drop_bit IEEE80211_SEQ_SEQ_SHIFT (ucast x)"

definition ATH_BA_INDEX :: "u32 \<Rightarrow> u32 \<Rightarrow> u32" where
  "ATH_BA_INDEX st sq = (sq - st) AND 4095"

definition BAW_WITHIN :: "u16 \<Rightarrow> u16 \<Rightarrow> u32 \<Rightarrow> bool" where
  "BAW_WITHIN st bawsz sq \<longleftrightarrow> (sq - ucast st) AND 4095 < ucast bawsz"

text \<open>
  The bitmap macros of \<^verbatim>\<open>if_athvar.h\<close>. Every index the code passes is masked with 127, so
  the word index is below 4, the length of the array.
\<close>

definition TX_BUF_BITMAP_SET :: "u32 list \<Rightarrow> u32 \<Rightarrow> u32 list" where
  "TX_BUF_BITMAP_SET bm i =
     bm[unat (drop_bit 5 i) := bm ! unat (drop_bit 5 i) OR push_bit (unat (i AND 31)) 1]"

definition TX_BUF_BITMAP_CLR :: "u32 list \<Rightarrow> u32 \<Rightarrow> u32 list" where
  "TX_BUF_BITMAP_CLR bm i =
     bm[unat (drop_bit 5 i) := bm ! unat (drop_bit 5 i) AND NOT (push_bit (unat (i AND 31)) 1)]"

definition TX_BUF_BITMAP_IS_SET :: "u32 list \<Rightarrow> u32 \<Rightarrow> bool" where
  "TX_BUF_BITMAP_IS_SET bm i \<longleftrightarrow> (bm ! unat (drop_bit 5 i)) AND push_bit (unat (i AND 31)) 1 \<noteq> 0"

section \<open>Lemmas on the macros\<close>

lemma unat_INCR_baw: "unat (INCR_baw l) = (unat l + 1) mod 128"
proof -
  have "unat (INCR_baw l) = unat (l + 1) mod 128"
    by (simp add: INCR_baw_def mask_simps)
  also have "\<dots> = ((unat l + 1) mod 4294967296) mod 128"
    by (simp add: unat_word_ariths)
  also have "\<dots> = (unat l + 1) mod 128"
    by (simp add: mod_mod_cancel)
  finally show ?thesis .
qed

lemma unat_INCR_seq: "unat (INCR_seq l) = (unat l + 1) mod 4096"
proof -
  have "unat (INCR_seq l) = unat (l + 1) mod 4096"
    by (simp add: INCR_seq_def mask_simps)
  also have "\<dots> = ((unat l + 1) mod 65536) mod 4096"
    by (simp add: unat_word_ariths)
  also have "\<dots> = (unat l + 1) mod 4096"
    by (simp add: mod_mod_cancel)
  finally show ?thesis .
qed

lemma TX_BUF_BITMAP_IS_SET_bit:
  "TX_BUF_BITMAP_IS_SET bm i = bit (bm ! (unat i div 32)) (unat i mod 32)"
  by (simp add: TX_BUF_BITMAP_IS_SET_def and_push_bit_1 unat_drop_bit_5 mask_simps
      del: push_bit_of_1)

lemma length_TX_BUF_BITMAP [simp]:
  "length (TX_BUF_BITMAP_SET bm i) = length bm"
  "length (TX_BUF_BITMAP_CLR bm i) = length bm"
  by (simp_all add: TX_BUF_BITMAP_SET_def TX_BUF_BITMAP_CLR_def)

lemma div_mod_32_eq: "i div 32 = j div 32 \<Longrightarrow> i mod 32 = j mod 32 \<Longrightarrow> i = (j::nat)"
  by (metis div_mult_mod_eq)

lemma bit_index_eq: "i = (j :: u32) \<longleftrightarrow> unat i div 32 = unat j div 32 \<and> unat i mod 32 = unat j mod 32"
  using div_mod_32_eq [of "unat i" "unat j"] by (auto simp: word_unat_eq_iff [of i j])

lemma TX_BUF_BITMAP_IS_SET_SET:
  assumes "unat i < 32 * length bm"
  shows "TX_BUF_BITMAP_IS_SET (TX_BUF_BITMAP_SET bm i) j \<longleftrightarrow> i = j \<or> TX_BUF_BITMAP_IS_SET bm j"
proof -
  have k: "unat i div 32 < length bm" using assms by (simp add: less_mult_imp_div_less mult.commute)
  have "TX_BUF_BITMAP_SET bm i =
      bm[unat i div 32 := bm ! (unat i div 32) OR push_bit (unat i mod 32) 1]"
    by (simp only: TX_BUF_BITMAP_SET_def unat_drop_bit_5 mask_simps)
  then show ?thesis
    using k
    by (cases "unat i div 32 = unat j div 32")
      (auto simp: TX_BUF_BITMAP_IS_SET_bit bit_index_eq [of i j] bit_or_iff bit_exp_iff)
qed

lemma TX_BUF_BITMAP_IS_SET_CLR:
  assumes "unat i < 32 * length bm"
  shows "TX_BUF_BITMAP_IS_SET (TX_BUF_BITMAP_CLR bm i) j \<longleftrightarrow> i \<noteq> j \<and> TX_BUF_BITMAP_IS_SET bm j"
proof -
  have k: "unat i div 32 < length bm" using assms by (simp add: less_mult_imp_div_less mult.commute)
  have "TX_BUF_BITMAP_CLR bm i =
      bm[unat i div 32 := bm ! (unat i div 32) AND NOT (push_bit (unat i mod 32) 1)]"
    by (simp only: TX_BUF_BITMAP_CLR_def unat_drop_bit_5 mask_simps)
  then show ?thesis
    using k
    by (cases "unat i div 32 = unat j div 32")
      (auto simp: TX_BUF_BITMAP_IS_SET_bit bit_index_eq [of i j] bit_and_iff bit_not_iff
        bit_exp_iff)
qed

end
