(* ===== verification/Ratectrl.thy ===== *)
theory Ratectrl
  imports Rate_Tables Tx_State
begin

text \<open>
  The transmit rate control (\<^verbatim>\<open>ratectrl_11n_ln.c\<close>): which rates a peer may be sent at, the packet
  error rate kept for each, the choice of a rate and of the retry series, and the update from the
  transmit status. The state is that of one node; the rate table is the one of the current mode
  and \<open>merlin\<close> tells the two firmware images apart (\<^verbatim>\<open>MAGPIE_MERLIN\<close>, otherwise the K2 image, which is
  built with \<^verbatim>\<open>ATH_ENABLE_WLAN_FOR_K2\<close>). An access outside an array has no result. The functions are
  modelled for a node that has a rate state, on which all of them but one dereference the pointer
  unchecked.
\<close>

section \<open>State\<close>

definition MAX_TX_RATE_TBL :: "bool \<Rightarrow> nat" where
  "MAX_TX_RATE_TBL merlin = (if merlin then 46 else 54)"

definition RATE_TABLE_11N_SIZE :: "bool \<Rightarrow> nat" where
  "RATE_TABLE_11N_SIZE merlin = (if merlin then 64 else 54)"

record TX_RATE_CTRL =
  per :: "u8 list"
  rateTableSize :: u8
  probeRate :: u8
  probeTime :: u32
  hwMaxRetryPktCnt :: u8
  maxValidRate :: u8
  validRateIndex :: "u8 list"
  perDownTime :: u32
  rcPhyMode :: u8
  rateMaxPhy :: u8

text \<open>\<^verbatim>\<open>struct atheros_node\<close> begins with the rate control state, to which the code casts it.\<close>

record atheros_node = TX_RATE_CTRL +
  lastRateKbps :: u32
  stbc :: u8

record atheros_softc =
  tx_chainmask :: u32
  currentTxRateKbps :: u32
  currentTxRateIndex :: u32

record PHY_STATE_CTRL =
  validPhyRateCount :: "u8 list"
  validPhyRateIndex :: "u8 list list"

record ieee80211_rateset =
  rs_nrates :: u8
  rs_rates :: "u8 list"

record ieee80211_rate =
  rates :: ieee80211_rateset
  htrates :: ieee80211_rateset

abbreviation (input) WLAN_RC_DS_FLAG :: u32 where "WLAN_RC_DS_FLAG \<equiv> 1"
abbreviation (input) WLAN_RC_40_FLAG :: u32 where "WLAN_RC_40_FLAG \<equiv> 2"
abbreviation (input) WLAN_RC_HT40_SGI_FLAG :: u32 where "WLAN_RC_HT40_SGI_FLAG \<equiv> 4"
abbreviation (input) WLAN_RC_WEP_TKIP_FLAG :: u32 where "WLAN_RC_WEP_TKIP_FLAG \<equiv> 0x100"
abbreviation (input) ATH_RC_DS_FLAG :: u8 where "ATH_RC_DS_FLAG \<equiv> 1"
abbreviation (input) ATH_RC_CW40_FLAG :: u8 where "ATH_RC_CW40_FLAG \<equiv> 2"
abbreviation (input) ATH_RC_HT40_SGI_FLAG :: u8 where "ATH_RC_HT40_SGI_FLAG \<equiv> 4"
abbreviation (input) ATH_RC_RTSCTS_FLAG :: u8 where "ATH_RC_RTSCTS_FLAG \<equiv> 0x10"
abbreviation (input) ATH_RC_TX_STBC_FLAG :: u8 where "ATH_RC_TX_STBC_FLAG \<equiv> 0x20"
abbreviation (input) ATH_RC_PROBE_ALLOWED :: u32 where "ATH_RC_PROBE_ALLOWED \<equiv> 1"
abbreviation (input) ATH_RC_MINRATE_LASTRATE :: u32 where "ATH_RC_MINRATE_LASTRATE \<equiv> 2"

section \<open>Classes of PHY types\<close>

definition WLAN_RC_PHY_DS :: "u8 \<Rightarrow> bool" where
  "WLAN_RC_PHY_DS p \<longleftrightarrow> p \<in> {WLAN_RC_PHY_HT_20_DS, WLAN_RC_PHY_HT_40_DS, WLAN_RC_PHY_HT_20_DS_HGI, WLAN_RC_PHY_HT_40_DS_HGI}"

definition WLAN_RC_PHY_40 :: "u8 \<Rightarrow> bool" where
  "WLAN_RC_PHY_40 p \<longleftrightarrow> p \<in> {WLAN_RC_PHY_HT_40_SS, WLAN_RC_PHY_HT_40_DS, WLAN_RC_PHY_HT_40_SS_HGI, WLAN_RC_PHY_HT_40_DS_HGI}"

definition WLAN_RC_PHY_SGI :: "u8 \<Rightarrow> bool" where
  "WLAN_RC_PHY_SGI p \<longleftrightarrow> p \<in> {WLAN_RC_PHY_HT_20_SS_HGI, WLAN_RC_PHY_HT_20_DS_HGI, WLAN_RC_PHY_HT_40_SS_HGI, WLAN_RC_PHY_HT_40_DS_HGI}"

definition WLAN_RC_PHY_HT :: "u8 \<Rightarrow> bool" where
  "WLAN_RC_PHY_HT p \<longleftrightarrow> WLAN_RC_PHY_HT_20_SS \<le> p"

definition WLAN_RC_CAP_MODE :: "u32 \<Rightarrow> u32" where
  "WLAN_RC_CAP_MODE capflag =
     (if capflag AND WLAN_RC_HT_FLAG \<noteq> 0 then if capflag AND WLAN_RC_40_FLAG \<noteq> 0 then TRUE_40 else TRUE_20 else 1)"

definition WLAN_RC_PHY_HT_VALID :: "u32 \<Rightarrow> u32 \<Rightarrow> bool" where
  "WLAN_RC_PHY_HT_VALID v capflag \<longleftrightarrow>
     (v AND TRUE_20 \<noteq> 0 \<and> capflag AND WLAN_RC_40_FLAG = 0) \<or> (v AND TRUE_40 \<noteq> 0 \<and> capflag AND WLAN_RC_40_FLAG \<noteq> 0)"

definition rcIsValidPhyRate :: "u8 \<Rightarrow> u32 \<Rightarrow> bool \<Rightarrow> bool" where
  "rcIsValidPhyRate p capflag ignoreCW =
     (if WLAN_RC_PHY_HT p \<and> capflag AND WLAN_RC_HT_FLAG = 0 then False
      else if WLAN_RC_PHY_DS p \<and> capflag AND WLAN_RC_DS_FLAG = 0 then False
      else if WLAN_RC_PHY_SGI p \<and> capflag AND WLAN_RC_HT40_SGI_FLAG = 0 then False
      else if \<not> ignoreCW \<and> WLAN_RC_PHY_HT p \<and> WLAN_RC_PHY_40 p \<and> capflag AND WLAN_RC_40_FLAG = 0 then False
      else if \<not> ignoreCW \<and> WLAN_RC_PHY_HT p \<and> \<not> WLAN_RC_PHY_40 p \<and> capflag AND WLAN_RC_40_FLAG \<noteq> 0 then False
      else True)"

section \<open>Sorting the valid rates\<close>

definition sort_rate :: "bool \<Rightarrow> rc11n_info \<Rightarrow> u32" where
  "sort_rate merlin r = (if merlin then rateKbps r else userRateKbps r)"

definition sort_step :: "bool \<Rightarrow> RATE_TABLE_11N \<Rightarrow> u8 list \<Rightarrow> nat \<Rightarrow> u8 list option" where
  "sort_step merlin rt v j = do {
     a \<leftarrow> at v j;
     b \<leftarrow> at v (j + 1);
     ra \<leftarrow> at (info rt) (unat a);
     rb \<leftarrow> at (info rt) (unat b);
     Some (if sort_rate merlin ra > sort_rate merlin rb then v[j := b, j + 1 := a] else v) }"

definition rcSortValidRates :: "bool \<Rightarrow> RATE_TABLE_11N \<Rightarrow> 'a TX_RATE_CTRL_scheme \<Rightarrow> 'a TX_RATE_CTRL_scheme option" where
  "rcSortValidRates merlin rt pRc = do {
     v \<leftarrow> foldM (\<lambda>v i. foldM (sort_step merlin rt) v [0..<i]) (validRateIndex pRc)
            (rev [1..<unat (maxValidRate pRc - 1) + 1]);
     Some (pRc\<lparr>validRateIndex := v\<rparr>) }"

section \<open>Iterators over the valid rates\<close>

text \<open>The first \<open>maxValidRate\<close> entries are the valid rates; more than the array holds is an overrun.\<close>

definition valid_rates :: "'a TX_RATE_CTRL_scheme \<Rightarrow> u8 list option" where
  "valid_rates pRc = do {
     require (unat (maxValidRate pRc) \<le> length (validRateIndex pRc));
     Some (take (unat (maxValidRate pRc)) (validRateIndex pRc)) }"

fun next_rate :: "u8 \<Rightarrow> u8 list \<Rightarrow> u8 option" where
  "next_rate cur (a # b # r) = (if a = cur then Some b else next_rate cur (b # r))"
| "next_rate cur r = None"

fun lower_rate :: "u8 \<Rightarrow> u8 list \<Rightarrow> u8 option" where
  "lower_rate cur (a # b # r) = (if b = cur then Some a else lower_rate cur (b # r))"
| "lower_rate cur r = None"

definition rcGetNextValidTxRate :: "'a TX_RATE_CTRL_scheme \<Rightarrow> u8 \<Rightarrow> (bool \<times> u8) option" where
  "rcGetNextValidTxRate pRc cur = do {
     v \<leftarrow> valid_rates pRc;
     Some (case next_rate cur v of Some r \<Rightarrow> (True, r) | None \<Rightarrow> (False, 0)) }"

text \<open>Without a lower rate the location given by the caller keeps its value, \<open>nextIndex\<close> here.\<close>

definition rcGetNextLowerValidTxRate :: "'a TX_RATE_CTRL_scheme \<Rightarrow> u8 \<Rightarrow> u8 \<Rightarrow> (bool \<times> u8) option" where
  "rcGetNextLowerValidTxRate pRc cur nextIndex = do {
     v \<leftarrow> valid_rates pRc;
     Some (case lower_rate cur v of Some r \<Rightarrow> (True, r) | None \<Rightarrow> (False, nextIndex)) }"

section \<open>Which rates are valid\<close>

definition set_at :: "'a list \<Rightarrow> nat \<Rightarrow> 'a \<Rightarrow> 'a list option" where
  "set_at xs i x = (if i < length xs then Some (xs[i := x]) else None)"

definition rcInitValidTxMask :: "'a TX_RATE_CTRL_scheme \<Rightarrow> 'a TX_RATE_CTRL_scheme option" where
  "rcInitValidTxMask pRc = do {
     v \<leftarrow> foldM (\<lambda>v i. set_at v i 0) (validRateIndex pRc) [0..<unat (rateTableSize pRc)];
     Some (pRc\<lparr>validRateIndex := v\<rparr>) }"

definition rcSetValidTxMask :: "u8 \<Rightarrow> bool \<Rightarrow> 'a TX_RATE_CTRL_scheme \<Rightarrow> 'a TX_RATE_CTRL_scheme option" where
  "rcSetValidTxMask index validTxRate pRc = do {
     v \<leftarrow> set_at (validRateIndex pRc) (unat index) (if validTxRate then 1 else 0);
     Some (pRc\<lparr>validRateIndex := v\<rparr>) }"

text \<open>The state of the three functions: the node, the lists per PHY type and the highest index so far.\<close>

type_synonym 'a sib_state = "'a TX_RATE_CTRL_scheme \<times> PHY_STATE_CTRL \<times> u8"

definition sib_add_rate :: "u8 \<Rightarrow> u8 \<Rightarrow> 'a sib_state \<Rightarrow> 'a sib_state option" where
  "sib_add_rate p i = (\<lambda>(pRc, c, hi). do {
     n \<leftarrow> at (validPhyRateCount c) (unat p);
     row \<leftarrow> at (validPhyRateIndex c) (unat p);
     row \<leftarrow> set_at row (unat n) i;
     pRc \<leftarrow> rcSetValidTxMask i True pRc;
     Some (pRc, c\<lparr>validPhyRateCount := (validPhyRateCount c)[unat p := n + 1],
                  validPhyRateIndex := (validPhyRateIndex c)[unat p := row]\<rparr>, max hi i) })"

definition rcSibInitValidRates :: "RATE_TABLE_11N \<Rightarrow> u32 \<Rightarrow> 'a sib_state \<Rightarrow> 'a sib_state option" where
  "rcSibInitValidRates rt capflag st =
     foldM (\<lambda>st i. do {
         r \<leftarrow> at (info rt) i;
         let v = (if capflag AND WLAN_RC_DS_FLAG = 0 then validSingleStream r else valid r);
         if (ucast v :: u8) = 1 \<and> rcIsValidPhyRate (phy r) capflag False
         then sib_add_rate (phy r) (of_nat i) st else Some st }) st [0..<unat (rateCount rt)]"

definition sib_valid :: "bool \<Rightarrow> u8 \<Rightarrow> u32 \<Rightarrow> rc11n_info \<Rightarrow> u32" where
  "sib_valid merlin st capflag r =
     (if merlin \<and> st \<noteq> 0 then validSTBC r
      else if capflag AND WLAN_RC_DS_FLAG = 0 then validSingleStream r else valid r)"

text \<open>The loops over the rate set and, inside, the rate table, with the test of each as an argument.\<close>

definition sib_rates :: "(u8 \<Rightarrow> rc11n_info \<Rightarrow> bool) \<Rightarrow> RATE_TABLE_11N \<Rightarrow> ieee80211_rateset \<Rightarrow> u32 \<Rightarrow>
    'a sib_state \<Rightarrow> 'a sib_state option" where
  "sib_rates match rt rs capflag st =
     foldM (\<lambda>st i. do {
         x \<leftarrow> at (rs_rates rs) i;
         foldM (\<lambda>st j. do {
             r \<leftarrow> at (info rt) j;
             if match x r \<and> rcIsValidPhyRate (phy r) capflag False
             then sib_add_rate (phy r) (of_nat j) st else Some st }) st [0..<unat (rateCount rt)] })
       st [0..<unat (rs_nrates rs)]"

definition rcSibSetValidRates :: "bool \<Rightarrow> RATE_TABLE_11N \<Rightarrow> u8 \<Rightarrow> ieee80211_rateset \<Rightarrow> u32 \<Rightarrow> 'a sib_state \<Rightarrow>
    'a sib_state option" where
  "rcSibSetValidRates merlin rt st_bc =
     (\<lambda>rs capflag. sib_rates (\<lambda>x r. x AND 0x7F = dot11Rate r AND 0x7F \<and>
        sib_valid merlin st_bc capflag r AND WLAN_RC_CAP_MODE capflag = WLAN_RC_CAP_MODE capflag \<and>
        \<not> WLAN_RC_PHY_HT (phy r)) rt rs capflag)"

definition rcSibSetValidHtRates :: "bool \<Rightarrow> RATE_TABLE_11N \<Rightarrow> u8 \<Rightarrow> ieee80211_rateset \<Rightarrow> u32 \<Rightarrow> 'a sib_state \<Rightarrow>
    'a sib_state option" where
  "rcSibSetValidHtRates merlin rt st_bc =
     (\<lambda>rs capflag. sib_rates (\<lambda>x r. let v = ucast (ucast (sib_valid merlin st_bc capflag r) :: u8) in
        x AND 0x7F = dot11Rate r AND 0x7F \<and> WLAN_RC_PHY_HT (phy r) \<and> WLAN_RC_PHY_HT_VALID v capflag \<and>
        \<not> (dot11Rate r = 15 \<and> v AND TRUE_20 \<noteq> 0 \<and> capflag AND WLAN_RC_WEP_TKIP_FLAG \<noteq> 0)) rt rs capflag)"

text \<open>
  The loop that gathers the rates by PHY type: \<open>k\<close> counts the entries, and the highest rate of the
  last PHY type that the table allows initially is \<^verbatim>\<open>rateMaxPhy\<close> (the row is not empty there).
\<close>

definition sib_gather :: "RATE_TABLE_11N \<Rightarrow> PHY_STATE_CTRL \<Rightarrow> 'a TX_RATE_CTRL_scheme \<times> nat \<Rightarrow> nat \<Rightarrow>
    ('a TX_RATE_CTRL_scheme \<times> nat) option" where
  "sib_gather rt c = (\<lambda>(pRc, k) i. do {
     n \<leftarrow> at (validPhyRateCount c) i;
     row \<leftarrow> at (validPhyRateIndex c) i;
     require (unat n \<le> length row);
     v \<leftarrow> foldM (\<lambda>v j. set_at v (k + j) (row ! j)) (validRateIndex pRc) [0..<unat n];
     let pRc = pRc\<lparr>validRateIndex := v\<rparr>;
     Some (if \<not> rcIsValidPhyRate (of_nat i) (ucast (initialRateMax rt)) True \<or> n = 0 then pRc
           else pRc\<lparr>rateMaxPhy := row ! (unat n - 1)\<rparr>, k + unat n) })"

definition phy_state_0 :: "bool \<Rightarrow> PHY_STATE_CTRL" where
  "phy_state_0 merlin = \<lparr>validPhyRateCount = replicate WLAN_RC_PHY_MAX 0,
     validPhyRateIndex = replicate WLAN_RC_PHY_MAX (replicate (MAX_TX_RATE_TBL merlin) 0)\<rparr>"

text \<open>
  \<^verbatim>\<open>rcSibUpdate_ht\<close>. With fewer than four valid rates the code reads in front of
  \<^verbatim>\<open>validRateIndex\<close>.
\<close>

definition rcSibUpdate_ht :: "bool \<Rightarrow> RATE_TABLE_11N \<Rightarrow> u32 \<Rightarrow> bool \<Rightarrow> ieee80211_rate option \<Rightarrow> atheros_node \<Rightarrow>
    atheros_node option" where
  "rcSibUpdate_ht merlin rt capflag keepState pRateSet an = do {
     let an = an\<lparr>rateTableSize := of_nat (MAX_TX_RATE_TBL merlin)\<rparr>;
     p \<leftarrow> (if keepState then Some (per an)
           else foldM (\<lambda>p i. set_at p i 0) (per an) [0..<unat (rateTableSize an)]);
     an \<leftarrow> rcInitValidTxMask (an\<lparr>per := p\<rparr>);
     let an = an\<lparr>rcPhyMode := ucast (capflag AND WLAN_RC_40_FLAG)\<rparr>;
     (an, c, hi) \<leftarrow>
       (case pRateSet of
          None \<Rightarrow> rcSibInitValidRates rt capflag (an, phy_state_0 merlin, 0)
        | Some rs \<Rightarrow>
            if rs_nrates (rates rs) = 0
            then rcSibInitValidRates rt capflag (an, phy_state_0 merlin, 0)
            else do {
              (an, c, hi) \<leftarrow> rcSibSetValidRates merlin rt (stbc an) (rates rs) capflag (an, phy_state_0 merlin, 0);
              (an, c, htHi) \<leftarrow>
                (if capflag AND WLAN_RC_HT_FLAG \<noteq> 0
                 then rcSibSetValidHtRates merlin rt (stbc an) (htrates rs) capflag (an, c, 0)
                 else Some (an, c, 0));
              Some (an, c, max hi htHi) });
     let an = an\<lparr>rateTableSize := hi + 1, rateMaxPhy := 0\<rparr>;
     (an, k) \<leftarrow> foldM (sib_gather rt c) (an, 0) [0..<WLAN_RC_PHY_MAX];
     require (4 \<le> k);
     r \<leftarrow> at (validRateIndex an) (k - 4);
     rcSortValidRates merlin rt (an\<lparr>rateMaxPhy := r, maxValidRate := of_nat k\<rparr>) }"

definition ath_rate_newassoc_11n :: "bool \<Rightarrow> RATE_TABLE_11N \<Rightarrow> bool \<Rightarrow> u32 \<Rightarrow> ieee80211_rate \<Rightarrow> atheros_node \<Rightarrow>
    atheros_node option" where
  "ath_rate_newassoc_11n merlin rt isnew capflag rs an =
     (if isnew then
        rcSibUpdate_ht merlin rt capflag False (Some rs)
          (if merlin then an\<lparr>stbc := (if capflag AND ucast ATH_RC_TX_STBC_FLAG \<noteq> 0 then 1 else 0)\<rparr> else an)
      else Some an)"

definition ath_rate_node_update :: "bool \<Rightarrow> RATE_TABLE_11N \<Rightarrow> bool \<Rightarrow> u32 \<Rightarrow> ieee80211_rate \<Rightarrow> atheros_node \<Rightarrow>
    atheros_node option" where
  "ath_rate_node_update merlin rt isnew capflag rs an = ath_rate_newassoc_11n merlin rt isnew capflag rs an"

definition ath_rate_newstate :: "bool \<Rightarrow> RATE_TABLE_11N \<Rightarrow> u32 \<Rightarrow> u32 \<Rightarrow> ieee80211_rate \<Rightarrow>
    atheros_softc \<Rightarrow> atheros_node \<Rightarrow> (atheros_softc \<times> atheros_node) option" where
  "ath_rate_newstate merlin rt ic_tx_chainmask capflag rs asc an = do {
     let asc = asc\<lparr>tx_chainmask := ic_tx_chainmask\<rparr>;
     an \<leftarrow> ath_rate_newassoc_11n merlin rt True capflag rs an;
     Some (asc, an) }"

definition ath_rate_attach :: atheros_softc where
  "ath_rate_attach = \<lparr>tx_chainmask = 1, currentTxRateKbps = 0, currentTxRateIndex = 0\<rparr>"

section \<open>Choosing a rate\<close>

text \<open>
  The loop of \<^verbatim>\<open>rcRateFind_ht\<close>, from the highest valid rate down. The throughput is the user rate
  times 100 less the error rate, in 32 bits; the break compares it with the bare user rate.
\<close>

fun find_best :: "RATE_TABLE_11N \<Rightarrow> 'a TX_RATE_CTRL_scheme \<Rightarrow> nat list \<Rightarrow> u32 \<Rightarrow> u8 \<Rightarrow> u8 option" where
  "find_best rt pRc [] bestThruput bestRate = Some bestRate"
| "find_best rt pRc (i # is) bestThruput bestRate = do {
     r \<leftarrow> at (validRateIndex pRc) i;
     if r > rateMaxPhy pRc then find_best rt pRc is bestThruput bestRate
     else do {
       row \<leftarrow> at (info rt) (unat r);
       if bestThruput \<ge> userRateKbps row then Some bestRate
       else do {
         p \<leftarrow> at (per pRc) (unat r);
         let perThres = (if p < 12 then 12 else p);
         let thisThruput = userRateKbps row * word_of_int (100 - uint perThres);
         if bestThruput \<le> thisThruput then find_best rt pRc is thisThruput r
         else find_best rt pRc is bestThruput bestRate } } }"

definition rcRateFind_ht :: "RATE_TABLE_11N \<Rightarrow> u32 \<Rightarrow> bool \<Rightarrow> atheros_softc \<Rightarrow> atheros_node \<Rightarrow>
    (u8 \<times> bool \<times> atheros_softc \<times> atheros_node) option" where
  "rcRateFind_ht rt nowMsec probeAllowed asc an = do {
     let maxIndex = maxValidRate an - 1;
     r \<leftarrow> find_best rt an (rev [0..<nat (sint maxIndex + 1)]) 0 0;
     (r, isProbing, an) \<leftarrow>
       (if r \<ge> rateMaxPhy an \<and> probeAllowed then do {
          (found, nextRate) \<leftarrow> rcGetNextValidTxRate an (rateMaxPhy an);
          if found \<and> nowMsec - probeTime an > ucast (probeInterval rt) \<and> 1 \<le> hwMaxRetryPktCnt an
          then Some (nextRate, True, an\<lparr>probeRate := nextRate, probeTime := nowMsec, hwMaxRetryPktCnt := 0\<rparr>)
          else Some (rateMaxPhy an, False, an) }
        else Some (r, False, an));
     let r = (if uint r > uint (rateTableSize an) - 1 then rateTableSize an - 1 else r);
     if \<not> isProbing then do {
       row \<leftarrow> at (info rt) (unat r);
       Some (r, isProbing, asc\<lparr>currentTxRateKbps := rateKbps row, currentTxRateIndex := ucast r\<rparr>,
             an\<lparr>lastRateKbps := rateKbps row\<rparr>) }
     else Some (r, isProbing, asc, an) }"

section \<open>The retry series\<close>

definition rcRateSetseries :: "bool \<Rightarrow> RATE_TABLE_11N \<Rightarrow> u8 \<Rightarrow> u8 \<Rightarrow> bool \<Rightarrow> u32 \<Rightarrow> u8 \<Rightarrow> ath_rc_series option" where
  "rcRateSetseries merlin rt tries rix rtsctsenable chainmask st_bc = do {
     r \<leftarrow> at (info rt) (unat rix);
     let flags = (if rtsctsenable then ATH_RC_RTSCTS_FLAG else 0) OR
                 (if WLAN_RC_PHY_DS (phy r) then ATH_RC_DS_FLAG else 0) OR
                 (if WLAN_RC_PHY_40 (phy r) then ATH_RC_CW40_FLAG else 0) OR
                 (if WLAN_RC_PHY_SGI (phy r) then ATH_RC_HT40_SGI_FLAG else 0);
     let flags = (if merlin \<and> st_bc \<noteq> 0 \<and> rateCode r \<ge> 0x80 \<and> rateCode r \<le> 0x87
                  then flags OR ATH_RC_TX_STBC_FLAG else flags);
     let chains = (if merlin then
                     if chainmask = 7 then txChainMask_3ch r
                     else if chainmask = 1 then 1 else txChainMask_2ch r
                   else 1);
     Some \<lparr>rcs_rix = baseIndex r, rcs_tries = tries, rcs_tx_chainmask = chains, rcs_flags = flags,
           rcs_max4msframelen = max4msframelen r, rcs_txrateKbps = rateKbps r\<rparr> }"

text \<open>At most \<open>n\<close> steps down in the list of valid rates, fewer when the lowest is reached.\<close>

fun step_down :: "'a TX_RATE_CTRL_scheme \<Rightarrow> nat \<Rightarrow> u8 \<Rightarrow> u8 option" where
  "step_down pRc 0 rix = Some rix"
| "step_down pRc (Suc n) rix = do {
     (found, nextIndex) \<leftarrow> rcGetNextLowerValidTxRate pRc rix rix;
     if found then step_down pRc n nextIndex else Some rix }"

definition rcRateGetIndex :: "bool \<Rightarrow> 'a TX_RATE_CTRL_scheme \<Rightarrow> u8 \<Rightarrow> u16 \<Rightarrow> bool \<Rightarrow> u8 option" where
  "rcRateGetIndex merlin pRc rix stepDown minRate =
     step_down pRc (if minRate then RATE_TABLE_11N_SIZE merlin else unat stepDown) rix"

text \<open>
  The loop that fills in the lower rates; \<open>ss\<close> is the array of the caller. A number of tries is
  truncated to eight bits.
\<close>

definition series_step :: "bool \<Rightarrow> RATE_TABLE_11N \<Rightarrow> atheros_softc \<Rightarrow> atheros_node \<Rightarrow> int \<Rightarrow> int \<Rightarrow> u16 \<Rightarrow> u32 \<Rightarrow> u8 \<Rightarrow>
    ath_rc_series list \<times> u8 \<Rightarrow> nat \<Rightarrow> (ath_rc_series list \<times> u8) option" where
  "series_step merlin rt asc an numTries numRates stepDnInc rcflag tryPerRate = (\<lambda>(ss, nrix) i. do {
     let is_last = (int i + 1 = numRates);
     let tryNum = (if is_last then word_of_int (numTries - uint tryPerRate * int i) else tryPerRate);
     let minRate = (is_last \<and> rcflag AND ATH_RC_MINRATE_LASTRATE \<noteq> 0);
     nrix \<leftarrow> rcRateGetIndex merlin an nrix stepDnInc minRate;
     x \<leftarrow> rcRateSetseries merlin rt tryNum nrix True (tx_chainmask asc) (stbc an);
     ss \<leftarrow> set_at ss i x;
     Some (ss, nrix) })"

text \<open>The corrections for low rates in 11NG mode: \<open>i\<close> is the number of entries filled in.\<close>

definition series_fixup :: "bool \<Rightarrow> rc11n_info \<Rightarrow> nat \<Rightarrow> ath_rc_series list \<Rightarrow> ath_rc_series list option" where
  "series_fixup mode_11ng row i ss =
     (if mode_11ng then do {
        ss \<leftarrow> (if i = 4 \<and> ((dot11Rate row = 2 \<and> phy row = WLAN_RC_PHY_HT_40_SS) \<or>
                           (dot11Rate row = 3 \<and> phy row = WLAN_RC_PHY_HT_20_SS))
               then do {
                 s2 \<leftarrow> at ss 2;
                 s3 \<leftarrow> at ss 3;
                 Some (ss[3 := s3\<lparr>rcs_rix := rcs_rix s2, rcs_flags := rcs_flags s2,
                                  rcs_max4msframelen := rcs_max4msframelen s2\<rparr>]) }
               else Some ss);
        if dot11Rate row \<le> 3 then do {
          s0 \<leftarrow> at ss 0;
          Some (ss[0 := s0\<lparr>rcs_flags := rcs_flags s0 OR ATH_RC_RTSCTS_FLAG\<rparr>]) }
        else Some ss }
      else Some ss)"

definition rcRateFind_11n :: "bool \<Rightarrow> bool \<Rightarrow> RATE_TABLE_11N \<Rightarrow> u32 \<Rightarrow> int \<Rightarrow> int \<Rightarrow> u16 \<Rightarrow> u32 \<Rightarrow> ath_rc_series list \<Rightarrow>
    atheros_softc \<Rightarrow> atheros_node \<Rightarrow> (ath_rc_series list \<times> bool \<times> atheros_softc \<times> atheros_node) option" where
  "rcRateFind_11n merlin mode_11ng rt nowMsec numTries numRates stepDnInc rcflag ss asc an = do {
     let probeAllowed = (rcflag AND ATH_RC_PROBE_ALLOWED \<noteq> 0);
     (rix, isProbe, asc, an) \<leftarrow> rcRateFind_ht rt nowMsec probeAllowed asc an;
     (ss, i, nrix) \<leftarrow>
       (if probeAllowed \<and> isProbe then do {
          x \<leftarrow> rcRateSetseries merlin rt 1 rix False (tx_chainmask asc) (stbc an);
          ss \<leftarrow> set_at ss 0 x;
          nrix \<leftarrow> rcRateGetIndex merlin an rix 1 False;
          Some (ss, 1, nrix) }
        else Some (ss, 0 :: nat, rix));
     require (numRates > 0 \<and> numTries \<ge> 0);
     let tryPerRate = word_of_int (numTries div numRates);
     x \<leftarrow> rcRateSetseries merlin rt tryPerRate nrix False (tx_chainmask asc) (stbc an);
     ss \<leftarrow> set_at ss i x;
     (ss, nrix) \<leftarrow> foldM (series_step merlin rt asc an numTries numRates stepDnInc rcflag tryPerRate)
                    (ss, nrix) [i + 1..<nat numRates];
     row \<leftarrow> at (info rt) (unat rix);
     ss \<leftarrow> series_fixup mode_11ng row (max (i + 1) (nat numRates)) ss;
     Some (ss, isProbe, asc, an) }"

definition ath_rate_findrate_11n :: "bool \<Rightarrow> bool \<Rightarrow> RATE_TABLE_11N \<Rightarrow> u32 \<Rightarrow> int \<Rightarrow> int \<Rightarrow> u16 \<Rightarrow> u32 \<Rightarrow> ath_rc_series list \<Rightarrow>
    atheros_softc \<Rightarrow> atheros_node \<Rightarrow> (ath_rc_series list \<times> bool \<times> atheros_softc \<times> atheros_node) option" where
  "ath_rate_findrate_11n merlin mode_11ng rt nowMsec numTries numRates stepDnInc rcflag ss asc an =
     (if numRates = 0 \<or> numTries = 0 then Some (ss, False, asc, an)
      else rcRateFind_11n merlin mode_11ng rt nowMsec numTries numRates stepDnInc rcflag ss asc an)"

section \<open>Learning from the transmit status\<close>

definition nRetry2PerLookup :: "int list" where
  "nRetry2PerLookup = [0, 25, 50, 75, 80, 83, 85, 87, 88, 90]"

text \<open>The error rate of the rate that was used, after the first part of \<^verbatim>\<open>rcUpdate_ht\<close>.\<close>

definition new_per :: "int \<Rightarrow> int \<Rightarrow> u16 \<Rightarrow> u16 \<Rightarrow> u8 \<Rightarrow> u8 option" where
  "new_per Xretries retries nFrames nBad p =
     (if Xretries \<noteq> 0 then
        if Xretries = 1 then Some (if p + 30 > 100 then 100 else p + 30)
        else Some (word_of_int (uint p - uint p div 8 + 100 div 8))
      else do {
        let retries = min retries 9;
        require (0 \<le> retries);
        if nBad \<noteq> 0 then
          Some (if nFrames > 0
                then word_of_int (uint p - uint p div 8 +
                       100 * (retries * uint nFrames + uint nBad) div (uint nFrames * (retries + 1)) div 8)
                else p)
        else Some (word_of_int (uint p - uint p div 8 + nRetry2PerLookup ! nat retries div 8)) })"

text \<open>What a success means for a probe and for the count of packets without retries.\<close>

definition probe_result :: "RATE_TABLE_11N \<Rightarrow> u32 \<Rightarrow> int \<Rightarrow> int \<Rightarrow> u16 \<Rightarrow> u16 \<Rightarrow> 'a TX_RATE_CTRL_scheme \<Rightarrow>
    'a TX_RATE_CTRL_scheme option" where
  "probe_result rt nowMsec txRate retries nFrames nBad pRc = do {
     let retries = min retries 9;
     pRc \<leftarrow>
       (if probeRate pRc \<noteq> 0 \<and> uint (probeRate pRc) = txRate then
          if retries > 0 \<or> 2 * uint nBad > uint nFrames then Some (pRc\<lparr>probeRate := 0\<rparr>)
          else do {
            p \<leftarrow> at (per pRc) (unat (probeRate pRc));
            Some (pRc\<lparr>rateMaxPhy := probeRate pRc,
                      per := (if p > 30 then (per pRc)[unat (probeRate pRc) := 20] else per pRc),
                      probeRate := 0,
                      probeTime := nowMsec - ucast (probeInterval rt div 2)\<rparr>) }
        else Some pRc);
     Some (if retries > 0 then pRc\<lparr>hwMaxRetryPktCnt := 0\<rparr>
           else if txRate = uint (rateMaxPhy pRc) \<and> hwMaxRetryPktCnt pRc < 255
           then pRc\<lparr>hwMaxRetryPktCnt := hwMaxRetryPktCnt pRc + 1\<rparr>
           else pRc) }"

text \<open>Down the rates of the same PHY type, then up to the highest rate, the error rates are made monotone.\<close>

fun lower_pers :: "RATE_TABLE_11N \<Rightarrow> u8 \<Rightarrow> nat \<Rightarrow> u8 list \<Rightarrow> u8 list option" where
  "lower_pers rt ph 0 ps = Some ps"
| "lower_pers rt ph (Suc r) ps = do {
     row \<leftarrow> at (info rt) r;
     if phy row \<noteq> ph then Some ps
     else do {
       a \<leftarrow> at ps r;
       b \<leftarrow> at ps (r + 1);
       lower_pers rt ph r (if a > b then ps[r := b] else ps) } }"

definition raise_per :: "u8 list \<Rightarrow> nat \<Rightarrow> u8 list option" where
  "raise_per ps r = do {
     a \<leftarrow> at ps r;
     b \<leftarrow> at ps (r + 1);
     Some (if b < a then ps[r + 1 := a] else ps) }"

definition reduce_per :: "u8 list \<Rightarrow> nat \<Rightarrow> u8 list option" where
  "reduce_per ps r = do { p \<leftarrow> at ps r; Some (ps[r := word_of_int (7 * uint p div 8)]) }"

definition rcUpdate_ht :: "RATE_TABLE_11N \<Rightarrow> u32 \<Rightarrow> int \<Rightarrow> int \<Rightarrow> int \<Rightarrow> u16 \<Rightarrow> u16 \<Rightarrow> atheros_node \<Rightarrow>
    atheros_node option" where
  "rcUpdate_ht rt nowMsec txRate Xretries retries nFrames nBad an =
     (if txRate < 0 then Some an
      else do {
        let tx = nat txRate;
        lastPer \<leftarrow> at (per an) tx;
        p \<leftarrow> new_per Xretries retries nFrames nBad lastPer;
        let an = an\<lparr>per := (per an)[tx := p]\<rparr>;
        an \<leftarrow> (if Xretries \<noteq> 0
               then Some (if uint (probeRate an) = txRate then an\<lparr>probeRate := 0\<rparr> else an)
               else probe_result rt nowMsec txRate retries nFrames nBad an);
        row \<leftarrow> at (info rt) tx;
        an \<leftarrow> (if (per an ! tx) \<ge> 55 \<and> txRate > 0 then do {
                 rowMax \<leftarrow> at (info rt) (unat (rateMaxPhy an));
                 if rateKbps row \<le> rateKbps rowMax then do {
                   (_, r) \<leftarrow> rcGetNextLowerValidTxRate an (word_of_int txRate) (rateMaxPhy an);
                   Some (an\<lparr>rateMaxPhy := r, probeTime := nowMsec\<rparr>) }
                 else Some an }
               else Some an);
        ps \<leftarrow> (if (per an ! tx) < lastPer then lower_pers rt (phy row) tx (per an) else Some (per an));
        ps \<leftarrow> foldM raise_per ps [tx..<unat (rateTableSize an) - 1];
        if nowMsec - perDownTime an \<ge> ucast (rssiReduceInterval rt)
        then do {
          ps \<leftarrow> foldM reduce_per ps [0..<unat (rateTableSize an)];
          Some (an\<lparr>per := ps, perDownTime := nowMsec\<rparr>) }
        else Some (an\<lparr>per := ps\<rparr>) })"

definition series_rix :: "RATE_TABLE_11N \<Rightarrow> ath_rc_series \<Rightarrow> u8 option" where
  "series_rix rt s = do {
     row \<leftarrow> at (info rt) (unat (rcs_rix s));
     Some (if rcs_flags s AND ATH_RC_CW40_FLAG \<noteq> 0 \<and> rcs_flags s AND ATH_RC_HT40_SGI_FLAG \<noteq> 0 then htIndex row
           else if rcs_flags s AND ATH_RC_HT40_SGI_FLAG \<noteq> 0 then sgiIndex row
           else if rcs_flags s AND ATH_RC_CW40_FLAG \<noteq> 0 then cw40Index row
           else baseIndex row) }"

definition cw_changed :: "'a TX_RATE_CTRL_scheme \<Rightarrow> ath_rc_series \<Rightarrow> bool" where
  "cw_changed pRc s \<longleftrightarrow> rcs_flags s AND ATH_RC_CW40_FLAG \<noteq> 0 \<and> rcPhyMode pRc \<noteq> rcs_flags s AND ATH_RC_CW40_FLAG"

text \<open>The intermediate series that failed; \<open>True\<close> in the result means that the function returns early.\<close>

fun failed_series :: "RATE_TABLE_11N \<Rightarrow> u32 \<Rightarrow> int \<Rightarrow> int \<Rightarrow> ath_rc_series list \<Rightarrow> atheros_node \<Rightarrow>
    (bool \<times> atheros_node) option" where
  "failed_series rt nowMsec Xretries nFrames [] an = Some (False, an)"
| "failed_series rt nowMsec Xretries nFrames (s # ss) an =
     (if rcs_tries s = 0 then failed_series rt nowMsec Xretries nFrames ss an
      else if cw_changed an s then Some (True, an)
      else do {
        rix \<leftarrow> series_rix rt s;
        an \<leftarrow> rcUpdate_ht rt nowMsec (uint rix) (if Xretries \<noteq> 0 then 1 else 2) (uint (rcs_tries s))
               (word_of_int nFrames) (word_of_int nFrames) an;
        failed_series rt nowMsec Xretries nFrames ss an })"

definition rcUpdate_11n :: "RATE_TABLE_11N \<Rightarrow> u32 \<Rightarrow> nat \<Rightarrow> int \<Rightarrow> ath_rc_series list \<Rightarrow> int \<Rightarrow> int \<Rightarrow> int \<Rightarrow>
    atheros_node \<Rightarrow> atheros_node option" where
  "rcUpdate_11n rt nowMsec finalTSIdx Xretries rcs nFrames nBad long_retry an = do {
     require (finalTSIdx < length rcs);
     (early, an) \<leftarrow> failed_series rt nowMsec Xretries nFrames (take finalTSIdx rcs) an;
     if early then Some an
     else do {
       let Xretries = (if finalTSIdx = 0 \<and> rcs_tries (rcs ! 0) = 1 \<and> Xretries = 1 then 2 else Xretries);
       let s = rcs ! finalTSIdx;
       if cw_changed an s then Some an
       else do {
         rix \<leftarrow> series_rix rt s;
         rcUpdate_ht rt nowMsec (uint rix) Xretries long_retry (word_of_int nFrames) (word_of_int nBad) an } } }"

end
