(* ===== verification/Rate_Sort.thy ===== *)
theory Rate_Sort
  imports Ratectrl "HOL-Library.Multiset"
begin

text \<open>
  The exchange sort of the valid rates is the stable library sort by bit rate: each exchange of
  neighbours with strictly decreasing keys keeps the order of equal keys, and each pass of the
  outer loop brings the largest remaining key into place.
\<close>

definition swapped :: "('a \<Rightarrow> 'k::linorder) \<Rightarrow> 'a list \<Rightarrow> nat \<Rightarrow> 'a list" where
  "swapped k v j = (if k (v ! j) > k (v ! Suc j) then v[j := v ! Suc j, Suc j := v ! j] else v)"

lemma swapped_split:
  assumes "Suc j < length v"
  obtains a b pre post where "v = pre @ a # b # post" "length pre = j"
    "swapped k v j = (if k a > k b then pre @ b # a # post else v)"
proof -
  have "v = take j v @ v ! j # v ! Suc j # drop (Suc (Suc j)) v"
    using assms by (simp add: Cons_nth_drop_Suc id_take_nth_drop)
  moreover from this have "swapped k v j = (if k (v ! j) > k (v ! Suc j)
      then take j v @ v ! Suc j # v ! j # drop (Suc (Suc j)) v else v)"
    using assms by (auto simp: swapped_def upd_conv_take_nth_drop Cons_nth_drop_Suc list_update_append
        take_Suc_conv_app_nth split: nat.splits)
  ultimately show ?thesis using that [of "take j v"] assms by simp
qed

text \<open>What an exchange keeps: length, elements, and the subsequence of every key.\<close>

definition same_content :: "('a \<Rightarrow> 'k) \<Rightarrow> 'a list \<Rightarrow> 'a list \<Rightarrow> bool" where
  "same_content k v w \<longleftrightarrow> length w = length v \<and> mset w = mset v \<and>
     (\<forall>c. filter (\<lambda>x. c = k x) w = filter (\<lambda>x. c = k x) v)"

lemma same_content_refl [simp]: "same_content k v v"
  by (simp add: same_content_def)

lemma same_content_trans: "same_content k v w \<Longrightarrow> same_content k w x \<Longrightarrow> same_content k v x"
  by (simp add: same_content_def)

lemma swapped_content:
  assumes "Suc j < length v"
  shows "same_content k v (swapped k v j)"
proof -
  obtain a b pre post where "v = pre @ a # b # post" "swapped k v j = (if k a > k b then pre @ b # a # post else v)"
    using swapped_split [OF assms, of k] by metis
  then show ?thesis by (auto simp: same_content_def)
qed

lemma swapped_nth:
  assumes "Suc j < length v"
  shows "k (swapped k v j ! Suc j) = max (k (v ! j)) (k (v ! Suc j))" "k (swapped k v j ! j) \<le> k (swapped k v j ! Suc j)"
    "\<And>i. i < j \<Longrightarrow> swapped k v j ! i = v ! i" "\<And>i. Suc j < i \<Longrightarrow> swapped k v j ! i = v ! i"
  using assms by (auto simp: swapped_def max_def not_less)

text \<open>The pass over the first \<open>i + 1\<close> places.\<close>

lemma swapped_take:
  assumes "Suc j < n" "n \<le> length v"
  shows "swapped k (take n v) j = take n (swapped k v j)" "drop n (swapped k v j) = drop n v"
  using assms by (auto simp: swapped_def take_update_swap)

fun pass :: "('a \<Rightarrow> 'k::linorder) \<Rightarrow> 'a list \<Rightarrow> nat \<Rightarrow> 'a list" where
  "pass k v 0 = v"
| "pass k v (Suc i) = swapped k (pass k v i) i"

lemma pass_props:
  assumes "i < length v"
  shows "same_content k v (pass k v i) \<and> (\<forall>j\<le>i. k (pass k v i ! j) \<le> k (pass k v i ! i)) \<and>
    (\<forall>j>i. pass k v i ! j = v ! j)"
  using assms
proof (induction i)
  case (Suc i)
  let ?w = "pass k v i"
  from Suc have IH: "same_content k v ?w" "\<forall>j\<le>i. k (?w ! j) \<le> k (?w ! i)" "\<forall>j>i. ?w ! j = v ! j" by auto
  have l: "Suc i < length ?w" using Suc.prems IH(1) by (simp add: same_content_def)
  have "k (swapped k ?w i ! j) \<le> k (swapped k ?w i ! Suc i)" if j: "j \<le> Suc i" for j
  proof -
    consider "j < i" | "j = i" | "j = Suc i" using j by linarith
    then show ?thesis
    proof cases
      case 1
      then show ?thesis using IH(2) swapped_nth(1) [OF l, of k] swapped_nth(3) [OF l 1, of k] by (simp add: le_max_iff_disj)
    next
      case 2
      then show ?thesis using swapped_nth(2) [OF l] by simp
    qed simp
  qed
  then show ?case using IH swapped_content [OF l, of k] swapped_nth(4) [OF l] same_content_trans by auto
qed auto

fun passes :: "('a \<Rightarrow> 'k::linorder) \<Rightarrow> 'a list \<Rightarrow> nat \<Rightarrow> 'a list" where
  "passes k v 0 = v"
| "passes k v (Suc i) = passes k (pass k v (Suc i)) i"

text \<open>Everything behind place \<open>i\<close> is in place.\<close>

definition placed :: "('a \<Rightarrow> 'k::linorder) \<Rightarrow> nat \<Rightarrow> 'a list \<Rightarrow> bool" where
  "placed k i v \<longleftrightarrow> (\<forall>p q. p < q \<longrightarrow> q < length v \<longrightarrow> i < q \<longrightarrow> k (v ! p) \<le> k (v ! q))"

lemma pass_placed:
  fixes v :: "'a list" and k :: "'a \<Rightarrow> 'k::linorder"
  assumes "placed k (Suc i) v" "Suc i < length v"
  shows "placed k i (pass k v (Suc i))"
  unfolding placed_def
proof (intro allI impI)
  fix p q
  let ?w = "pass k v (Suc i)"
  note w = pass_props [OF assms(2), of k]
  assume pq: "p < q" "q < length ?w" "i < q"
  have len: "length ?w = length v" using w by (simp add: same_content_def)
  show "k (?w ! p) \<le> k (?w ! q)"
  proof (cases "q = Suc i")
    case True
    then show ?thesis using w pq by auto
  next
    case q: False
    then have q': "?w ! q = v ! q" "Suc i < q" using w pq by auto
    show ?thesis
    proof (cases "Suc i < p")
      case True
      then show ?thesis using w q' pq len assms(1) by (auto simp: placed_def)
    next
      case False
      have d: "drop (Suc (Suc i)) ?w = drop (Suc (Suc i)) v"
        using w len by (intro nth_equalityI) auto
      have m: "mset xs = mset (take n xs) + mset (drop n xs)" for n and xs :: "'a list"
        by (metis append_take_drop_id mset_append)
      have "mset ?w = mset v" using w by (simp add: same_content_def)
      then have "mset (take (Suc (Suc i)) ?w) = mset (take (Suc (Suc i)) v)"
        using m [of ?w "Suc (Suc i)"] m [of v "Suc (Suc i)"] d by simp
      then have "set (take (Suc (Suc i)) ?w) = set (take (Suc (Suc i)) v)" by (rule mset_eq_setD)
      moreover have "?w ! p \<in> set (take (Suc (Suc i)) ?w)"
        using False len assms(2) by (auto simp: in_set_conv_nth intro!: exI [of _ p])
      ultimately obtain p' where "p' < Suc (Suc i)" "?w ! p = v ! p'"
        by (auto simp: in_set_conv_nth)
      moreover have "k (v ! p') \<le> k (v ! q)"
        using assms(1) \<open>p' < Suc (Suc i)\<close> q'(2) pq(2) len unfolding placed_def by simp
      ultimately show ?thesis using q'(1) by simp
    qed
  qed
qed

lemma passes_props:
  "i < length v \<Longrightarrow> placed k i v \<Longrightarrow> same_content k v (passes k v i) \<and> placed k 0 (passes k v i)"
proof (induction i arbitrary: v)
  case (Suc i)
  note w = pass_props [OF Suc.prems(1), of k]
  have "i < length (pass k v (Suc i))" using w Suc.prems by (simp add: same_content_def)
  from Suc.IH [OF this pass_placed [OF Suc.prems(2,1)]] w show ?case
    using same_content_trans by (simp del: pass.simps) blast
qed simp

lemma passes_sort:
  assumes "v \<noteq> []"
  shows "passes k v (length v - 1) = sort_key k v"
proof -
  have "length v - 1 < length v" "placed k (length v - 1) v" using assms by (auto simp: placed_def)
  from passes_props [OF this] have s: "same_content k v (passes k v (length v - 1))"
    "placed k 0 (passes k v (length v - 1))" by auto
  have "sorted (map k (passes k v (length v - 1)))"
    using s(2) by (auto simp: sorted_iff_nth_mono_less placed_def)
  then show ?thesis using s(1) by (intro properties_for_sort_key [symmetric]) (auto simp: same_content_def)
qed

section \<open>The loops of the code\<close>

definition rate_key :: "bool \<Rightarrow> RATE_TABLE_11N \<Rightarrow> u8 \<Rightarrow> u32" where
  "rate_key merlin rt x = sort_rate merlin (info rt ! unat x)"

lemma sort_step_swapped:
  assumes "Suc j < n" "n \<le> length v" "\<forall>x\<in>set (take n v). unat x < length (info rt)"
  shows "sort_step merlin rt v j = Some (swapped (rate_key merlin rt) v j)"
proof -
  have "v ! j \<in> set (take n v)" "v ! Suc j \<in> set (take n v)"
    using assms(1,2) by (auto simp: in_set_conv_nth intro: exI [of _ j] exI [of _ "Suc j"])
  then show ?thesis using assms by (simp add: sort_step_def at_def swapped_def rate_key_def)
qed

lemma pass_take:
  assumes "i < n" "n \<le> length v"
  shows "pass k (take n v) i = take n (pass k v i) \<and> drop n (pass k v i) = drop n v \<and> length (pass k v i) = length v"
  using assms
proof (induction i)
  case (Suc i)
  then show ?case using swapped_take [of i n "pass k v i" k] by (simp add: swapped_def)
qed simp

lemma sort_pass:
  assumes "i < n" "n \<le> length v" "\<forall>x\<in>set (take n v). unat x < length (info rt)"
  shows "foldM (sort_step merlin rt) v [0..<i] = Some (pass (rate_key merlin rt) v i)"
  using assms(1)
proof (induction i)
  case (Suc i)
  let ?w = "pass (rate_key merlin rt) v i"
  have i: "i < n" "i < length (take n v)" using Suc.prems assms(2) by auto
  note t = pass_take [OF i(1) assms(2), of "rate_key merlin rt"]
  have "mset (take n ?w) = mset (take n v)"
    using t pass_props [OF i(2), of "rate_key merlin rt"] by (simp add: same_content_def)
  then have "\<forall>x\<in>set (take n ?w). unat x < length (info rt)" using assms(3) mset_eq_setD by blast
  with Suc t assms(2) sort_step_swapped [of i n ?w rt merlin] show ?case
    by (simp add: foldM_append)
qed simp

lemma sort_passes:
  assumes "i < n" "n \<le> length v" "\<forall>x\<in>set (take n v). unat x < length (info rt)"
  shows "\<exists>w. foldM (\<lambda>v i. foldM (sort_step merlin rt) v [0..<i]) v (rev [1..<Suc i]) = Some w \<and>
    take n w = passes (rate_key merlin rt) (take n v) i \<and> drop n w = drop n v"
  using assms
proof (induction i arbitrary: v)
  case 0
  then show ?case by simp
next
  case (Suc i)
  let ?w = "pass (rate_key merlin rt) v (Suc i)"
  have i: "Suc i < length (take n v)" using Suc.prems by auto
  note t = pass_take [OF Suc.prems(1,2), of "rate_key merlin rt"]
  have "mset (take n ?w) = mset (take n v)"
    using t pass_props [OF i, of "rate_key merlin rt"] by (simp add: same_content_def del: pass.simps)
  then have w: "\<forall>x\<in>set (take n ?w). unat x < length (info rt)" using Suc.prems(3) mset_eq_setD by blast
  have "i < n" "n \<le> length ?w" using Suc.prems t by simp_all
  from Suc.IH [OF this w] show ?case
    using sort_pass [OF Suc.prems] t by (simp del: pass.simps)
qed

lemma rcSortValidRates_sort_key:
  assumes "0 < maxValidRate pRc" "unat (maxValidRate pRc) \<le> length (validRateIndex pRc)"
    and "\<forall>x\<in>set (take (unat (maxValidRate pRc)) (validRateIndex pRc)). unat x < length (info rt)"
  shows "rcSortValidRates merlin rt pRc = Some (pRc\<lparr>validRateIndex :=
     sort_key (rate_key merlin rt) (take (unat (maxValidRate pRc)) (validRateIndex pRc)) @
     drop (unat (maxValidRate pRc)) (validRateIndex pRc)\<rparr>)"
proof -
  let ?n = "unat (maxValidRate pRc)" and ?v = "validRateIndex pRc"
  have n: "0 < ?n" using assms(1) by (simp add: word_less_nat_alt)
  have m: "unat (maxValidRate pRc - 1) = ?n - 1"
    using n by (simp add: unat_sub_if_size word_size)
  have e: "Suc (?n - 1) = ?n" using n by simp
  obtain w where "foldM (\<lambda>v i. foldM (sort_step merlin rt) v [0..<i]) ?v (rev [1..<?n]) = Some w"
    "take ?n w = passes (rate_key merlin rt) (take ?n ?v) (?n - 1)" "drop ?n w = drop ?n ?v"
    using sort_passes [of "?n - 1" ?n ?v rt merlin, unfolded e] n assms(2,3) by auto
  moreover have "w = take ?n w @ drop ?n w" by simp
  moreover have "length (take ?n ?v) = ?n" "take ?n ?v \<noteq> []" using assms(2) n by auto
  ultimately show ?thesis
    using passes_sort [of "take ?n ?v" "rate_key merlin rt"] by (simp add: rcSortValidRates_def m)
qed

text \<open>
  Property C11. Sorting the valid rates returns and is the library's stable sort of the first
  \<open>maxValidRate\<close> entries by bit rate (K2: by user bit rate); the other entries stay.
\<close>

theorem rcSortValidRates_sorts:
  assumes "0 < maxValidRate pRc" "unat (maxValidRate pRc) \<le> length (validRateIndex pRc)"
    and "\<forall>x\<in>set (take (unat (maxValidRate pRc)) (validRateIndex pRc)). unat x < length (info rt)"
  shows "rcSortValidRates merlin rt pRc = Some (pRc\<lparr>validRateIndex :=
     sort_key (\<lambda>x. sort_rate merlin (info rt ! unat x)) (take (unat (maxValidRate pRc)) (validRateIndex pRc)) @
     drop (unat (maxValidRate pRc)) (validRateIndex pRc)\<rparr>)"
  using rcSortValidRates_sort_key [OF assms, of merlin] by (simp add: rate_key_def [abs_def])

definition node0 :: atheros_node where
  "node0 = \<lparr>per = replicate 54 0, rateTableSize = 54, probeRate = 0, probeTime = 0, hwMaxRetryPktCnt = 0,
     maxValidRate = 5, validRateIndex = [13, 0, 1, 2, 6] @ replicate 49 0, perDownTime = 0, rcPhyMode = 0,
     rateMaxPhy = 13, lastRateKbps = 0, stbc = 0\<rparr>"

theorem rcSortValidRates_sorts_witness:
  "map_option validRateIndex (rcSortValidRates False ar5416_11ngRateTable_k2 node0) =
     Some ([0, 1, 2, 6, 13] @ replicate 49 0)"
proof -
  have "0 < maxValidRate node0" "unat (maxValidRate node0) \<le> length (validRateIndex node0)"
    "\<forall>x\<in>set (take (unat (maxValidRate node0)) (validRateIndex node0)). unat x < length (info ar5416_11ngRateTable_k2)"
    by code_simp+
  moreover have "sort_key (\<lambda>x. sort_rate False (info ar5416_11ngRateTable_k2 ! unat x))
      (take (unat (maxValidRate node0)) (validRateIndex node0)) = [0, 1, 2, 6, 13]" by code_simp
  moreover have "drop (unat (maxValidRate node0)) (validRateIndex node0) = replicate 49 0" by code_simp
  ultimately show ?thesis using rcSortValidRates_sorts [of node0 ar5416_11ngRateTable_k2 False] by simp
qed

end
