(* ===== verification/Rate_Inv.thy ===== *)
theory Rate_Inv
  imports Rate_Sort
begin

text \<open>
  The invariant of the rate control of a node: every index it holds is a row of the rate table and
  every packet error rate is a percentage. The update after a transmission always returns, keeps
  the invariant and leaves the error rates from the used rate upwards ascending.
\<close>

definition pers_ok :: "u8 list \<Rightarrow> bool" where
  "pers_ok ps \<longleftrightarrow> (\<forall>p\<in>set ps. p \<le> 100)"

definition rate_wf :: "RATE_TABLE_11N \<Rightarrow> 'a TX_RATE_CTRL_scheme \<Rightarrow> bool" where
  "rate_wf rt an \<longleftrightarrow> length (info rt) \<le> length (per an) \<and> length (per an) \<le> 120 \<and> pers_ok (per an) \<and>
     length (validRateIndex an) = length (per an) \<and> unat (maxValidRate an) \<le> length (validRateIndex an) \<and>
     (\<forall>x\<in>set (take (unat (maxValidRate an)) (validRateIndex an)). unat x < length (info rt)) \<and>
     0 < unat (rateTableSize an) \<and> unat (rateTableSize an) \<le> length (info rt) \<and>
     unat (rateMaxPhy an) < length (info rt) \<and> unat (probeRate an) < length (info rt)"

lemma pers_ok_nth: "pers_ok ps \<Longrightarrow> i < length ps \<Longrightarrow> ps ! i \<le> 100"
  by (simp add: pers_ok_def)

lemma pers_ok_update: "pers_ok ps \<Longrightarrow> x \<le> 100 \<Longrightarrow> pers_ok (ps[i := x])"
  using set_update_subset_insert by (fastforce simp: pers_ok_def)

section \<open>The error rate of the rate that was used\<close>

lemma ewma_bound: "0 \<le> x \<Longrightarrow> x \<le> 100 \<Longrightarrow> 0 \<le> e \<Longrightarrow> e \<le> 100 \<Longrightarrow>
    0 \<le> x - x div 8 + e div 8 \<and> x - x div 8 + e div 8 \<le> (100 :: int)"
proof -
  assume x: "0 \<le> x" "x \<le> 100" and e: "0 \<le> e" "e \<le> 100"
  have q: "x = 8 * (x div 8) + x mod 8" "0 \<le> x mod 8" "x mod 8 < 8" "0 \<le> x div 8" using x(1) by simp_all
  have "x - x div 8 \<le> 88"
  proof (cases "x div 8 \<le> 11")
    case True
    then show ?thesis using q by linarith
  next
    case False
    then show ?thesis using q x by linarith
  qed
  moreover have "0 \<le> e div 8" "e div 8 \<le> 12" using e zdiv_mono1 [of e 100 8] by simp_all
  moreover have "x div 8 \<le> x" using q by linarith
  ultimately show ?thesis by linarith
qed

lemma u8_of_int_le: "0 \<le> x \<Longrightarrow> x \<le> 100 \<Longrightarrow> (word_of_int x :: u8) \<le> 100"
  by (simp add: word_le_def uint_word_of_int)

lemma u8_le_100: "(p :: u8) \<le> 100 \<Longrightarrow> uint p \<le> 100"
  by (simp add: word_le_def)

lemma ewma_word:
  assumes "(p :: u8) \<le> 100" "0 \<le> e" "e \<le> 100"
  shows "(word_of_int (uint p - uint p div 8 + e div 8) :: u8) \<le> 100"
proof -
  have "uint p \<le> 100" "0 \<le> uint p" using u8_le_100 [OF assms(1)] by simp_all
  from ewma_bound [OF this(2,1) assms(2,3)] show ?thesis by (intro u8_of_int_le) simp_all
qed

lemma frame_error_bound:
  assumes "0 \<le> r" "(nBad :: u16) \<le> nFrames" "nFrames > 0"
  shows "0 \<le> 100 * (r * uint nFrames + uint nBad) div (uint nFrames * (r + 1)) \<and>
    100 * (r * uint nFrames + uint nBad) div (uint nFrames * (r + 1)) \<le> 100"
proof -
  have n: "0 < uint nFrames" "uint nBad \<le> uint nFrames" using assms by (simp_all add: word_less_def word_le_def)
  then have d: "0 < uint nFrames * (r + 1)" using assms(1) by simp
  have "100 * (r * uint nFrames + uint nBad) \<le> 100 * (uint nFrames * (r + 1))"
    using n by (simp add: algebra_simps)
  then have "100 * (r * uint nFrames + uint nBad) div (uint nFrames * (r + 1)) \<le>
      100 * (uint nFrames * (r + 1)) div (uint nFrames * (r + 1))"
    using d by (intro zdiv_mono1)
  then show ?thesis using d n assms(1) by (simp add: pos_imp_zdiv_nonneg_iff)
qed

lemma lookup_bound: "0 \<le> r \<Longrightarrow> r \<le> 9 \<Longrightarrow> 0 \<le> nRetry2PerLookup ! nat r \<and> nRetry2PerLookup ! nat r \<le> 100"
proof -
  assume "0 \<le> r" "r \<le> 9"
  then have "nat r < length nRetry2PerLookup" by (simp add: nRetry2PerLookup_def)
  then have "nRetry2PerLookup ! nat r \<in> set nRetry2PerLookup" by (rule nth_mem)
  then show ?thesis by (auto simp: nRetry2PerLookup_def)
qed

lemma new_per_ok:
  assumes "p \<le> 100" "0 \<le> retries" "nBad \<le> nFrames"
  shows "\<exists>q. new_per X retries nFrames nBad p = Some q \<and> q \<le> 100"
proof -
  have r: "0 \<le> min retries 9" "min retries 9 \<le> 9" using assms(2) by auto
  have a: "(word_of_int (uint p - uint p div 8 + 12) :: u8) \<le> 100"
    using ewma_word [OF assms(1), of 100] by simp
  have b: "nFrames > 0 \<Longrightarrow> (word_of_int (uint p - uint p div 8 +
       100 * (min retries 9 * uint nFrames + uint nBad) div (uint nFrames * (min retries 9 + 1)) div 8) :: u8) \<le> 100"
    using frame_error_bound [OF r(1) assms(3)] ewma_word [OF assms(1)] by blast
  have c: "(word_of_int (uint p - uint p div 8 + nRetry2PerLookup ! nat (min retries 9) div 8) :: u8) \<le> 100"
    using lookup_bound [OF r] ewma_word [OF assms(1)] by blast
  show ?thesis
  proof (cases "X = 0")
    case True
    then show ?thesis using r(1) b c assms(1) by (auto simp: new_per_def Let_def require_def)
  next
    case False
    then show ?thesis using a by (auto simp: new_per_def not_less)
  qed
qed

section \<open>The loops over the error rates\<close>

lemma lower_pers_ok:
  assumes "pers_ok ps" "r < length ps" "r \<le> length (info rt)"
  shows "\<exists>ps'. lower_pers rt ph r ps = Some ps' \<and> pers_ok ps' \<and> length ps' = length ps \<and>
    (\<forall>j. r \<le> j \<longrightarrow> ps' ! j = ps ! j) \<and> (\<forall>j<r. ps' ! j \<le> ps ! j)"
  using assms
proof (induction r arbitrary: ps)
  case (Suc r)
  let ?ps = "if ps ! r > ps ! Suc r then ps[r := ps ! Suc r] else ps"
  have r: "r < length ps" "Suc r < length ps" "r < length (info rt)" using Suc.prems by auto
  have ok: "pers_ok ?ps" using Suc.prems(1) pers_ok_nth [OF Suc.prems(1) r(2)] by (simp add: pers_ok_update)
  have run: "lower_pers rt ph (Suc r) ps = (if phy (info rt ! r) \<noteq> ph then Some ps else lower_pers rt ph r ?ps)"
    using r by (simp add: at_def)
  show ?case
  proof (cases "phy (info rt ! r) = ph")
    case False
    then show ?thesis using run Suc.prems(1) by simp
  next
    case True
    have "r < length ?ps" "r \<le> length (info rt)" using r by auto
    from Suc.IH [OF ok this] obtain ps' where ps': "lower_pers rt ph r ?ps = Some ps'" "pers_ok ps'"
      "length ps' = length ps" "\<forall>j. r \<le> j \<longrightarrow> ps' ! j = ?ps ! j" "\<forall>j<r. ps' ! j \<le> ?ps ! j" by auto
    have "ps' ! j \<le> ps ! j" if "j < Suc r" for j
      using ps'(4,5) that r by (cases "j = r") (auto simp: nth_list_update split: if_splits)
    then show ?thesis using ps' run True r by (auto simp: nth_list_update)
  qed
qed simp

lemma raise_loop_ok:
  assumes "pers_ok ps" "b < length ps \<or> b \<le> a"
  shows "\<exists>ps'. foldM raise_per ps [a..<b] = Some ps' \<and> pers_ok ps' \<and> length ps' = length ps \<and>
    (\<forall>j. a \<le> j \<and> j < b \<longrightarrow> ps' ! j \<le> ps' ! Suc j) \<and> (\<forall>j. j \<le> a \<or> b < j \<longrightarrow> ps' ! j = ps ! j)"
  using assms(2)
proof (induction b)
  case (Suc b)
  show ?case
  proof (cases "a \<le> b")
    case False
    then show ?thesis using assms(1) by auto
  next
    case True
    then have l: "Suc b < length ps" using Suc.prems by simp
    then have "b < length ps \<or> b \<le> a" by simp
    from Suc.IH [OF this] obtain ps' where ps': "foldM raise_per ps [a..<b] = Some ps'" "pers_ok ps'"
      "length ps' = length ps" "\<forall>j. a \<le> j \<and> j < b \<longrightarrow> ps' ! j \<le> ps' ! Suc j"
      "\<forall>j. j \<le> a \<or> b < j \<longrightarrow> ps' ! j = ps ! j" by blast
    let ?q = "if ps' ! Suc b < ps' ! b then ps'[Suc b := ps' ! b] else ps'"
    have "foldM raise_per ps [a..<Suc b] = Some ?q"
      using ps'(1,3) l True by (simp add: foldM_append raise_per_def at_def)
    moreover have "pers_ok ?q" using ps'(2,3) l by (simp add: pers_ok_update pers_ok_nth)
    moreover have "?q ! j \<le> ?q ! Suc j" if "a \<le> j \<and> j < Suc b" for j
      using ps'(3,4) that l by (cases "j = b") auto
    moreover have "?q ! j = ps ! j" if "j \<le> a \<or> Suc b < j" for j
      using ps'(5) that True by auto
    ultimately show ?thesis using ps'(3) by (intro exI [of _ ?q]) (simp del: upt_Suc)
  qed
qed (use assms(1) in simp)

definition reduced :: "u8 \<Rightarrow> u8" where
  "reduced p = word_of_int (7 * uint p div 8)"

lemma uint_reduced: "uint (reduced p) = 7 * uint p div 8"
proof -
  have "0 \<le> uint p" "uint p < 256" using uint_lt2p [of p] by simp_all
  then have "0 \<le> 7 * uint p div 8" "7 * uint p div 8 < 256" by presburger+
  then show ?thesis by (simp add: reduced_def uint_word_of_int)
qed

lemma reduced_le: "reduced p \<le> p"
proof -
  have "0 \<le> uint p" by simp
  then have "7 * uint p div 8 \<le> uint p" by presburger
  then show ?thesis by (simp add: word_le_def uint_reduced)
qed

lemma reduced_mono: "p \<le> q \<Longrightarrow> reduced p \<le> reduced q"
  by (simp add: word_le_def uint_reduced zdiv_mono1)

lemma reduce_loop:
  "n \<le> length ps \<Longrightarrow> foldM reduce_per ps [0..<n] = Some (map reduced (take n ps) @ drop n ps)"
proof (induction n)
  case (Suc n)
  then have n: "n < length ps" by simp
  have "(map reduced (take n ps) @ drop n ps) ! n = ps ! n" using n by (simp add: nth_append)
  moreover have "(map reduced (take n ps) @ drop n ps)[n := reduced (ps ! n)] = map reduced (take (Suc n) ps) @ drop (Suc n) ps"
    using n by (simp add: list_update_append take_Suc_conv_app_nth Cons_nth_drop_Suc [symmetric])
  ultimately show ?case using Suc n by (simp add: foldM_append reduce_per_def at_def reduced_def [symmetric])
qed simp

lemma reduced_list:
  assumes "pers_ok ps"
  shows "pers_ok (map reduced (take n ps) @ drop n ps)"
    "Suc j < n \<Longrightarrow> n \<le> length ps \<Longrightarrow> ps ! j \<le> ps ! Suc j \<Longrightarrow>
       (map reduced (take n ps) @ drop n ps) ! j \<le> (map reduced (take n ps) @ drop n ps) ! Suc j"
proof -
  have "reduced p \<le> 100" if "p \<in> set (take n ps)" for p
    using reduced_le [of p] assms that by (meson in_set_takeD order_trans pers_ok_def)
  then show "pers_ok (map reduced (take n ps) @ drop n ps)"
    using assms by (auto simp: pers_ok_def dest: in_set_dropD)
qed (simp add: nth_append reduced_mono)

section \<open>The steps of an update keep the invariant\<close>

lemma rate_wf_update:
  assumes "rate_wf rt an"
  shows "rate_wf rt (an\<lparr>probeTime := n\<rparr>)" "rate_wf rt (an\<lparr>hwMaxRetryPktCnt := c\<rparr>)"
    "rate_wf rt (an\<lparr>perDownTime := n\<rparr>)" "rate_wf rt (an\<lparr>probeRate := 0\<rparr>)"
    "unat r < length (info rt) \<Longrightarrow> rate_wf rt (an\<lparr>rateMaxPhy := r\<rparr>)"
    "unat r < length (info rt) \<Longrightarrow> rate_wf rt (an\<lparr>probeRate := r\<rparr>)"
    "pers_ok ps \<Longrightarrow> length ps = length (per an) \<Longrightarrow> rate_wf rt (an\<lparr>per := ps\<rparr>)"
  using assms by (auto simp: rate_wf_def)

lemma lower_rate_mem: "lower_rate cur v = Some r \<Longrightarrow> r \<in> set v"
  by (induction cur v rule: lower_rate.induct) (auto split: if_splits)

lemma next_rate_mem: "next_rate cur v = Some r \<Longrightarrow> r \<in> set v"
  by (induction cur v rule: next_rate.induct) (auto split: if_splits)

lemma valid_rates_wf:
  "rate_wf rt an \<Longrightarrow> \<exists>v. valid_rates an = Some v \<and> (\<forall>x\<in>set v. unat x < length (info rt))"
  by (auto simp: rate_wf_def valid_rates_def require_def)

lemma get_lower_wf:
  assumes "rate_wf rt an" "unat d < length (info rt)"
  shows "\<exists>b r. rcGetNextLowerValidTxRate an cur d = Some (b, r) \<and> unat r < length (info rt)"
proof -
  obtain v where v: "valid_rates an = Some v" "\<forall>x\<in>set v. unat x < length (info rt)"
    using valid_rates_wf [OF assms(1)] by blast
  show ?thesis
    using assms(2) v(2)
    by (cases "lower_rate cur v") (auto simp: rcGetNextLowerValidTxRate_def v(1) dest: lower_rate_mem)
qed

lemma get_next_wf:
  assumes "rate_wf rt an"
  shows "\<exists>b r. rcGetNextValidTxRate an cur = Some (b, r) \<and> unat r < length (info rt)"
proof -
  obtain v where v: "valid_rates an = Some v" "\<forall>x\<in>set v. unat x < length (info rt)"
    using valid_rates_wf [OF assms(1)] by blast
  have "0 < length (info rt)" using assms by (auto simp: rate_wf_def)
  then show ?thesis
    using v(2) by (cases "next_rate cur v") (auto simp: rcGetNextValidTxRate_def v(1) dest: next_rate_mem)
qed

lemma probe_result_wf:
  assumes "rate_wf rt an"
  shows "\<exists>an'. probe_result rt now tx retries nF nB an = Some an' \<and> rate_wf rt an' \<and>
    rateTableSize an' = rateTableSize an"
proof -
  have l: "unat (probeRate an) < length (per an)" using assms by (simp add: rate_wf_def)
  have p: "rate_wf rt (an\<lparr>rateMaxPhy := probeRate an, per := ps, probeRate := 0, probeTime := n\<rparr>)"
    if "pers_ok ps" "length ps = length (per an)" for ps n
    using that assms by (auto simp: rate_wf_def)
  have "pers_ok ((per an)[unat (probeRate an) := 20])" "pers_ok (per an)"
    using assms by (simp_all add: rate_wf_def pers_ok_update)
  then have "\<exists>an1. (if probeRate an \<noteq> 0 \<and> uint (probeRate an) = tx then
          if min retries 9 > 0 \<or> 2 * uint nB > uint nF then Some (an\<lparr>probeRate := 0\<rparr>)
          else do {
            p \<leftarrow> at (per an) (unat (probeRate an));
            Some (an\<lparr>rateMaxPhy := probeRate an,
                      per := (if p > 30 then (per an)[unat (probeRate an) := 20] else per an),
                      probeRate := 0,
                      probeTime := now - ucast (probeInterval rt div 2)\<rparr>) }
        else Some an) = Some an1 \<and> rate_wf rt an1 \<and> rateTableSize an1 = rateTableSize an"
    using l p assms rate_wf_update(4) [OF assms] by (simp add: at_def)
  then obtain an1 where an1: "(if probeRate an \<noteq> 0 \<and> uint (probeRate an) = tx then
          if min retries 9 > 0 \<or> 2 * uint nB > uint nF then Some (an\<lparr>probeRate := 0\<rparr>)
          else do {
            p \<leftarrow> at (per an) (unat (probeRate an));
            Some (an\<lparr>rateMaxPhy := probeRate an,
                      per := (if p > 30 then (per an)[unat (probeRate an) := 20] else per an),
                      probeRate := 0,
                      probeTime := now - ucast (probeInterval rt div 2)\<rparr>) }
        else Some an) = Some an1" "rate_wf rt an1" "rateTableSize an1 = rateTableSize an" by blast
  show ?thesis
    unfolding probe_result_def Let_def an1(1) using an1(2,3) rate_wf_update(2) [OF an1(2)] by simp
qed

text \<open>The part of the update that may lower the highest rate.\<close>

definition lower_max :: "RATE_TABLE_11N \<Rightarrow> u32 \<Rightarrow> int \<Rightarrow> rc11n_info \<Rightarrow> 'a TX_RATE_CTRL_scheme \<Rightarrow> 'a TX_RATE_CTRL_scheme option" where
  "lower_max rt now txRate row an =
     (if per an ! nat txRate \<ge> 55 \<and> txRate > 0 then do {
        rowMax \<leftarrow> at (info rt) (unat (rateMaxPhy an));
        if rateKbps row \<le> rateKbps rowMax then do {
          (_, r) \<leftarrow> rcGetNextLowerValidTxRate an (word_of_int txRate) (rateMaxPhy an);
          Some (an\<lparr>rateMaxPhy := r, probeTime := now\<rparr>) }
        else Some an }
      else Some an)"

lemma lower_max_wf:
  assumes "rate_wf rt an"
  shows "\<exists>an'. lower_max rt now tx row an = Some an' \<and> rate_wf rt an' \<and>
    rateTableSize an' = rateTableSize an \<and> per an' = per an"
proof -
  have r: "unat (rateMaxPhy an) < length (info rt)" using assms by (simp add: rate_wf_def)
  obtain b r where g: "rcGetNextLowerValidTxRate an (word_of_int tx) (rateMaxPhy an) = Some (b, r)"
    "unat r < length (info rt)"
    using get_lower_wf [OF assms r] by blast
  have "rate_wf rt (an\<lparr>rateMaxPhy := r, probeTime := now\<rparr>)"
    using rate_wf_update(1) [OF rate_wf_update(5) [OF assms g(2)]] by simp
  then show ?thesis using assms r by (simp add: lower_max_def at_def g(1))
qed

text \<open>The loops at the end.\<close>

definition smooth_pers :: "RATE_TABLE_11N \<Rightarrow> u32 \<Rightarrow> nat \<Rightarrow> rc11n_info \<Rightarrow> u8 \<Rightarrow> 'a TX_RATE_CTRL_scheme \<Rightarrow> 'a TX_RATE_CTRL_scheme option" where
  "smooth_pers rt nowMsec tx row lastPer an = do {
     ps \<leftarrow> (if per an ! tx < lastPer then lower_pers rt (phy row) tx (per an) else Some (per an));
     ps \<leftarrow> foldM raise_per ps [tx..<unat (rateTableSize an) - 1];
     if nowMsec - perDownTime an \<ge> ucast (rssiReduceInterval rt)
     then do {
       ps \<leftarrow> foldM reduce_per ps [0..<unat (rateTableSize an)];
       Some (an\<lparr>per := ps, perDownTime := nowMsec\<rparr>) }
     else Some (an\<lparr>per := ps\<rparr>) }"

lemma smooth_pers_wf:
  assumes wf: "rate_wf rt an" and tx: "tx < length (info rt)"
  shows "\<exists>an'. smooth_pers rt now tx row lastPer an = Some an' \<and> rate_wf rt an' \<and>
    rateTableSize an' = rateTableSize an \<and>
    (\<forall>j. tx \<le> j \<and> Suc j < unat (rateTableSize an) \<longrightarrow> per an' ! j \<le> per an' ! Suc j)"
proof -
  let ?n = "unat (rateTableSize an)"
  have n: "0 < ?n" "?n \<le> length (per an)" "tx < length (per an)" "pers_ok (per an)"
    using wf tx by (auto simp: rate_wf_def)
  obtain ps where ps: "(if per an ! tx < lastPer then lower_pers rt (phy row) tx (per an) else Some (per an)) = Some ps"
    "pers_ok ps" "length ps = length (per an)"
    using lower_pers_ok [OF n(4,3), of rt "phy row"] tx n(4) by (cases "per an ! tx < lastPer") auto
  have "?n - 1 < length ps \<or> ?n - 1 \<le> tx" using n ps(3) by linarith
  from raise_loop_ok [OF ps(2) this] obtain qs where qs: "foldM raise_per ps [tx..<?n - 1] = Some qs" "pers_ok qs"
    "length qs = length ps" "\<forall>j. tx \<le> j \<and> j < ?n - 1 \<longrightarrow> qs ! j \<le> qs ! Suc j" by blast
  have red: "foldM reduce_per qs [0..<?n] = Some (map reduced (take ?n qs) @ drop ?n qs)"
    using n(2) ps(3) qs(3) by (intro reduce_loop) simp
  have m: "\<forall>j. tx \<le> j \<and> Suc j < ?n \<longrightarrow> qs ! j \<le> qs ! Suc j" using qs(4) by auto
  show ?thesis
  proof (cases "now - perDownTime an \<ge> ucast (rssiReduceInterval rt)")
    case True
    have "rate_wf rt (an\<lparr>per := map reduced (take ?n qs) @ drop ?n qs, perDownTime := now\<rparr>)"
      using rate_wf_update(3) [OF rate_wf_update(7) [OF wf reduced_list(1) [OF qs(2)]], of ?n now] ps(3) qs(3) n by simp
    then show ?thesis
      using True m ps(3) qs(3) n(2) reduced_list(2) [OF qs(2), of _ ?n]
      by (simp add: smooth_pers_def ps(1) qs(1) [unfolded One_nat_def] red)
  next
    case False
    have "rate_wf rt (an\<lparr>per := qs\<rparr>)" using rate_wf_update(7) [OF wf qs(2)] ps(3) qs(3) by simp
    then show ?thesis using False m by (simp add: smooth_pers_def ps(1) qs(1) [unfolded One_nat_def])
  qed
qed

lemma rcUpdate_ht_steps:
  assumes "0 \<le> txRate" "nat txRate < length (per an)" "nat txRate < length (info rt)"
  shows "rcUpdate_ht rt now txRate X retries nF nB an = do {
     p \<leftarrow> new_per X retries nF nB (per an ! nat txRate);
     let an1 = an\<lparr>per := (per an)[nat txRate := p]\<rparr>;
     an2 \<leftarrow> (if X \<noteq> 0 then Some (if uint (probeRate an1) = txRate then an1\<lparr>probeRate := 0\<rparr> else an1)
            else probe_result rt now txRate retries nF nB an1);
     an3 \<leftarrow> lower_max rt now txRate (info rt ! nat txRate) an2;
     smooth_pers rt now (nat txRate) (info rt ! nat txRate) (per an ! nat txRate) an3 }"
  using assms by (simp add: rcUpdate_ht_def Let_def at_def lower_max_def smooth_pers_def)

lemma rcUpdate_ht_wf:
  assumes wf: "rate_wf rt an" and "0 \<le> txRate" "nat txRate < length (info rt)" "0 \<le> retries" "nB \<le> nF"
  shows "\<exists>an'. rcUpdate_ht rt now txRate X retries nF nB an = Some an' \<and> rate_wf rt an' \<and>
    rateTableSize an' = rateTableSize an \<and>
    (\<forall>j. nat txRate \<le> j \<and> Suc j < unat (rateTableSize an) \<longrightarrow> per an' ! j \<le> per an' ! Suc j)"
proof -
  let ?tx = "nat txRate"
  have l: "?tx < length (per an)" "per an ! ?tx \<le> 100" "pers_ok (per an)"
    using wf assms(3) by (auto simp: rate_wf_def pers_ok_nth)
  obtain p where p: "new_per X retries nF nB (per an ! ?tx) = Some p" "p \<le> 100"
    using new_per_ok [OF l(2) assms(4,5)] by blast
  let ?an1 = "an\<lparr>per := (per an)[?tx := p]\<rparr>"
  have w1: "rate_wf rt ?an1" using rate_wf_update(7) [OF wf pers_ok_update [OF l(3) p(2)]] by simp
  obtain an2 where an2: "(if X \<noteq> 0 then Some (if uint (probeRate ?an1) = txRate then ?an1\<lparr>probeRate := 0\<rparr> else ?an1)
            else probe_result rt now txRate retries nF nB ?an1) = Some an2" "rate_wf rt an2"
      "rateTableSize an2 = rateTableSize an"
    using probe_result_wf [OF w1, of now txRate retries nF nB] rate_wf_update(4) [OF w1] w1 by (cases "X = 0") auto
  obtain an3 where an3: "lower_max rt now txRate (info rt ! ?tx) an2 = Some an3" "rate_wf rt an3"
      "rateTableSize an3 = rateTableSize an2"
    using lower_max_wf [OF an2(2)] by blast
  show ?thesis
    using smooth_pers_wf [OF an3(2) assms(3), of now "info rt ! ?tx" "per an ! ?tx"] an2(3) an3(3)
    by (simp only: rcUpdate_ht_steps [OF assms(2) l(1) assms(3)] p(1) an2(1) an3(1) Let_def Option.bind.simps bind.bind_lunit)
qed

text \<open>
  Property C9. The update of the rate state after a transmission returns on every well-formed state,
  whatever mix of retries, lost frames and probing it reports: every index stays a row of the table,
  every error rate stays at most 100 per cent, and from the used rate upwards a higher rate never has a
  lower error rate.
\<close>

theorem rcUpdate_ht_keeps_wf:
  assumes "rate_wf rt an" "0 \<le> txRate" "nat txRate < length (info rt)" "0 \<le> retries" "nB \<le> nF"
  shows "\<exists>an'. rcUpdate_ht rt now txRate X retries nF nB an = Some an' \<and> rate_wf rt an' \<and>
    (\<forall>j. nat txRate \<le> j \<and> Suc j < unat (rateTableSize an) \<longrightarrow> per an' ! j \<le> per an' ! Suc j)"
  using rcUpdate_ht_wf [OF assms, of now X] by blast

theorem rcUpdate_ht_keeps_wf_witness:
  "\<exists>an'. rcUpdate_ht ar5416_11ngRateTable_k2 500 2 0 3 8 2 node0 = Some an' \<and> rate_wf ar5416_11ngRateTable_k2 an'"
proof -
  have "rate_wf ar5416_11ngRateTable_k2 node0" by code_simp
  moreover have "nat 2 < length (info ar5416_11ngRateTable_k2)" by code_simp
  moreover have "(2 :: u16) \<le> 8" by code_simp
  ultimately show ?thesis
    using rcUpdate_ht_keeps_wf [of ar5416_11ngRateTable_k2 node0 2 3 2 8 500 0] by auto
qed

end
