(* ===== verification/Rate_Find.thy ===== *)
theory Rate_Find
  imports Rate_Inv
begin

text \<open>
  The choice of a rate and of the retry series on a well-formed rate state: every function returns,
  the rates are rows of the table, and the tries of the series add up.
\<close>

section \<open>The search for the best rate\<close>

lemma find_best_wf:
  assumes wf: "rate_wf rt an" and "\<forall>i\<in>set is. i < unat (maxValidRate an)" "unat b < length (info rt)"
  shows "\<exists>r. find_best rt an is t b = Some r \<and> unat r < length (info rt)"
  using assms(2,3)
proof (induction "is" arbitrary: t b)
  case (Cons i "is")
  let ?r = "validRateIndex an ! i"
  have i: "i < length (validRateIndex an)" "?r \<in> set (take (unat (maxValidRate an)) (validRateIndex an))"
    using Cons.prems(1) wf by (auto simp: rate_wf_def in_set_conv_nth)
  then have r: "unat ?r < length (info rt)" "unat ?r < length (per an)" using wf by (auto simp: rate_wf_def)
  show ?case
    using Cons.IH [of ?r] Cons.IH [of b] Cons.prems r i(1) by (simp add: at_def Let_def)
qed simp

text \<open>
  With \<open>maxValidRate\<close> valid rates, the loop of the code visits the indices from
  \<open>maxValidRate - 1\<close> down to 0.
\<close>

lemma search_indices:
  assumes "unat (m :: u8) \<le> 120"
  shows "nat (sint (m - 1) + 1) = unat m"
proof (cases "m = 0")
  case False
  then have "0 < unat m" by (metis gr0I unat_eq_zero)
  moreover from this have "unat (m - 1) = unat m - 1" by (simp add: unat_sub_if_size word_size)
  ultimately have "unat (m - 1) = unat m - 1" "0 < unat m" by simp_all
  then have u: "uint (m - 1) = int (unat m) - 1" "uint (m - 1) < 128" using assms by (simp_all only: uint_nat [of "m - 1"])
  moreover from this have "- 128 \<le> uint (m - 1)" by linarith
  ultimately have "sint (m - 1) = uint (m - 1)" by (simp only: sint_uint) (simp add: signed_take_bit_int_eq_self)
  then show ?thesis using u by simp
qed simp

lemma rcRateFind_ht_wf:
  assumes wf: "rate_wf rt an"
  shows "\<exists>r isp asc' an'. rcRateFind_ht rt now pa asc an = Some (r, isp, asc', an') \<and>
    unat r < length (info rt) \<and> rate_wf rt an' \<and> stbc an' = stbc an \<and> tx_chainmask asc' = tx_chainmask asc \<and>
    (isp \<longrightarrow> pa)"
proof -
  have m: "unat (maxValidRate an) \<le> 120" and n: "0 < length (info rt)" using wf by (auto simp: rate_wf_def)
  have "\<forall>i\<in>set (rev [0..<nat (sint (maxValidRate an - 1) + 1)]). i < unat (maxValidRate an)"
    using search_indices [OF m] by simp
  from find_best_wf [OF wf this, of 0 0] n obtain r where
    r: "find_best rt an (rev [0..<nat (sint (maxValidRate an - 1) + 1)]) 0 0 = Some r" "unat r < length (info rt)" by auto
  obtain f nx where g: "rcGetNextValidTxRate an (rateMaxPhy an) = Some (f, nx)" "unat nx < length (info rt)"
    using get_next_wf [OF wf] by blast
  have mx: "unat (rateMaxPhy an) < length (info rt)" using wf by (simp add: rate_wf_def)
  have "\<exists>r2 isp an2. (if r \<ge> rateMaxPhy an \<and> pa then do {
          (found, nextRate) \<leftarrow> rcGetNextValidTxRate an (rateMaxPhy an);
          if found \<and> now - probeTime an > ucast (probeInterval rt) \<and> 1 \<le> hwMaxRetryPktCnt an
          then Some (nextRate, True, an\<lparr>probeRate := nextRate, probeTime := now, hwMaxRetryPktCnt := 0\<rparr>)
          else Some (rateMaxPhy an, False, an) }
        else Some (r, False, an)) = Some (r2, isp, an2) \<and> unat r2 < length (info rt) \<and> rate_wf rt an2 \<and>
        stbc an2 = stbc an \<and> (isp \<longrightarrow> pa)"
    using wf g r(2) mx rate_wf_update(2) [OF rate_wf_update(1) [OF rate_wf_update(6) [OF wf g(2)]], of 0 now]
    by auto
  then obtain r2 isp an2 where s: "(if r \<ge> rateMaxPhy an \<and> pa then do {
          (found, nextRate) \<leftarrow> rcGetNextValidTxRate an (rateMaxPhy an);
          if found \<and> now - probeTime an > ucast (probeInterval rt) \<and> 1 \<le> hwMaxRetryPktCnt an
          then Some (nextRate, True, an\<lparr>probeRate := nextRate, probeTime := now, hwMaxRetryPktCnt := 0\<rparr>)
          else Some (rateMaxPhy an, False, an) }
        else Some (r, False, an)) = Some (r2, isp, an2)" "unat r2 < length (info rt)" "rate_wf rt an2"
        "stbc an2 = stbc an" "isp \<longrightarrow> pa" by blast
  let ?r = "if uint r2 > uint (rateTableSize an2) - 1 then rateTableSize an2 - 1 else r2"
  have "0 < unat (rateTableSize an2)" "unat (rateTableSize an2) \<le> length (info rt)" using s(3) by (auto simp: rate_wf_def)
  moreover from this have "unat (rateTableSize an2 - 1) = unat (rateTableSize an2) - 1"
    by (simp add: unat_sub_if_size word_size)
  ultimately have r3: "unat ?r < length (info rt)" using s(2) by auto
  have "rate_wf rt (an2\<lparr>lastRateKbps := x\<rparr>)" for x using s(3) by (simp add: rate_wf_def)
  then show ?thesis
    using s(3-5) r3 by (auto simp: rcRateFind_ht_def r(1) s(1) Let_def at_def)
qed

section \<open>The retry series\<close>

lemma step_down_wf:
  assumes wf: "rate_wf rt an"
  shows "unat r < length (info rt) \<Longrightarrow> \<exists>r'. step_down an n r = Some r' \<and> unat r' < length (info rt)"
proof (induction n arbitrary: r)
  case (Suc n)
  obtain b q where "rcGetNextLowerValidTxRate an r r = Some (b, q)" "unat q < length (info rt)"
    using get_lower_wf [OF wf Suc.prems] by blast
  then show ?case using Suc.IH [of q] Suc.prems by simp
qed simp

lemma get_index_wf:
  "rate_wf rt an \<Longrightarrow> unat r < length (info rt) \<Longrightarrow>
   \<exists>r'. rcRateGetIndex merlin an r sd mr = Some r' \<and> unat r' < length (info rt)"
  unfolding rcRateGetIndex_def by (rule step_down_wf)

definition rix_ok :: "RATE_TABLE_11N \<Rightarrow> ath_rc_series \<Rightarrow> bool" where
  "rix_ok rt s \<longleftrightarrow> (\<exists>r<length (info rt). rcs_rix s = baseIndex (info rt ! r))"

lemma setseries_wf:
  "unat r < length (info rt) \<Longrightarrow> \<exists>x. rcRateSetseries merlin rt tries r rts cm sb = Some x \<and> rcs_tries x = tries \<and>
     rix_ok rt x"
  by (auto simp: rcRateSetseries_def at_def Let_def rix_ok_def)

definition step_tries :: "int \<Rightarrow> int \<Rightarrow> u8 \<Rightarrow> nat \<Rightarrow> u8" where
  "step_tries numTries numRates tpr j =
     (if int j + 1 = numRates then word_of_int (numTries - uint tpr * int j) else tpr)"

lemma series_loop:
  assumes wf: "rate_wf rt an" and "unat r < length (info rt)" "n \<le> length ss \<or> n \<le> i"
  shows "\<exists>ss' r'. foldM (series_step merlin rt asc an nt nr sd fl tpr) (ss, r) [i..<n] = Some (ss', r') \<and>
    unat r' < length (info rt) \<and> length ss' = length ss \<and> (\<forall>j<i. ss' ! j = ss ! j) \<and>
    (\<forall>j. i \<le> j \<and> j < n \<longrightarrow> rcs_tries (ss' ! j) = step_tries nt nr tpr j \<and> rix_ok rt (ss' ! j))"
  using assms(3)
proof (induction n)
  case (Suc n)
  show ?case
  proof (cases "i \<le> n")
    case True
    then have l: "n < length ss" using Suc.prems by simp
    then obtain ss1 r1 where 1: "foldM (series_step merlin rt asc an nt nr sd fl tpr) (ss, r) [i..<n] = Some (ss1, r1)"
      "unat r1 < length (info rt)" "length ss1 = length ss" "\<forall>j<i. ss1 ! j = ss ! j"
      "\<forall>j. i \<le> j \<and> j < n \<longrightarrow> rcs_tries (ss1 ! j) = step_tries nt nr tpr j \<and> rix_ok rt (ss1 ! j)"
      using Suc.IH by auto
    obtain r2 where r2: "rcRateGetIndex merlin an r1 sd (int n + 1 = nr \<and> fl AND ATH_RC_MINRATE_LASTRATE \<noteq> 0) = Some r2"
      "unat r2 < length (info rt)"
      using get_index_wf [OF wf 1(2)] by blast
    obtain x where x: "rcRateSetseries merlin rt (step_tries nt nr tpr n) r2 True (tx_chainmask asc) (stbc an) = Some x"
      "rcs_tries x = step_tries nt nr tpr n" "rix_ok rt x"
      using setseries_wf [OF r2(2)] by blast
    have "foldM (series_step merlin rt asc an nt nr sd fl tpr) (ss, r) [i..<Suc n] = Some (ss1[n := x], r2)"
      using True 1(1,3) l x(1) r2(1)
      by (simp add: foldM_append series_step_def set_at_def Let_def step_tries_def)
    then show ?thesis
      using 1 l x(2,3) r2(2) True by (intro exI [of _ "ss1[n := x]"] exI [of _ r2]) (auto simp: nth_list_update)
  qed (use assms(2) in auto)
qed (use assms(2) in auto)

lemma series_fixup_wf:
  assumes "ss \<noteq> []" "i = 4 \<longrightarrow> 4 \<le> length ss"
  shows "\<exists>ss'. series_fixup ng row i ss = Some ss' \<and> length ss' = length ss \<and> map rcs_tries ss' = map rcs_tries ss \<and>
    ((\<forall>j<i. rix_ok rt (ss ! j)) \<longrightarrow> (\<forall>j<i. rix_ok rt (ss' ! j)))"
proof -
  have a: "map rcs_tries (ss[3 := s\<lparr>rcs_rix := a, rcs_flags := f, rcs_max4msframelen := l\<rparr>]) = map rcs_tries ss"
    if "3 < length ss" "s = ss ! 3" for s a f l
    using that by (intro nth_equalityI) (auto simp: nth_list_update)
  have c: "rix_ok rt (s\<lparr>rcs_flags := f\<rparr>) = rix_ok rt s" for s f by (simp add: rix_ok_def)
  have d: "rix_ok rt (s\<lparr>rcs_rix := rcs_rix s', rcs_flags := f, rcs_max4msframelen := l\<rparr>) = rix_ok rt s'" for s s' f l
    by (simp add: rix_ok_def)
  have e: "\<forall>j<i. rix_ok rt (xs[0 := (xs ! 0)\<lparr>rcs_flags := f\<rparr>] ! j)" if "\<forall>j<i. rix_ok rt (xs ! j)" "xs \<noteq> []" for xs f
    using that by (auto simp: nth_list_update c)
  have b: "map rcs_tries (xs[0 := (xs ! 0)\<lparr>rcs_flags := f\<rparr>]) = map rcs_tries xs" for xs f
    by (cases xs) simp_all
  let ?c = "i = 4 \<and> ((dot11Rate row = 2 \<and> phy row = WLAN_RC_PHY_HT_40_SS) \<or>
      (dot11Rate row = 3 \<and> phy row = WLAN_RC_PHY_HT_20_SS))"
  obtain s1 where s1: "(if ?c then do {
        s2 \<leftarrow> at ss 2;
        s3 \<leftarrow> at ss 3;
        Some (ss[3 := s3\<lparr>rcs_rix := rcs_rix s2, rcs_flags := rcs_flags s2, rcs_max4msframelen := rcs_max4msframelen s2\<rparr>]) }
      else Some ss) = Some s1" "length s1 = length ss" "map rcs_tries s1 = map rcs_tries ss"
      "(\<forall>j<i. rix_ok rt (ss ! j)) \<longrightarrow> (\<forall>j<i. rix_ok rt (s1 ! j))"
    using assms(2) a by (cases ?c) (auto simp: at_def nth_list_update d)
  have "s1 \<noteq> []" using s1(2) assms(1) by auto
  then show ?thesis
    using s1(2-4) b [of s1] e [of s1] by (cases ng) (auto simp: series_fixup_def s1(1) at_def)
qed

text \<open>
  The tries of a series: one for the probed rate, equal shares, and the last rate takes what is
  left of the number asked for after as many shares as there are other rates.
\<close>

definition series_tries :: "bool \<Rightarrow> int \<Rightarrow> nat \<Rightarrow> int list" where
  "series_tries probing nt n = (if probing then [1] else []) @ replicate (n - (if probing then 2 else 1)) (nt div int n) @
     [nt - nt div int n * (int n - 1)]"

lemma series_tries_sum:
  "(if probing then 2 else 1) \<le> n \<Longrightarrow>
    sum_list (series_tries probing nt n) = nt + (if probing then 1 - nt div int n else 0)"
  by (auto simp: series_tries_def sum_list_replicate of_nat_diff algebra_simps)

lemma uint_shares:
  assumes "0 < n" "0 \<le> nt" "nt \<le> 255"
  shows "uint (word_of_int (nt div int n) :: u8) = nt div int n"
    "uint (word_of_int (nt - nt div int n * (int n - 1)) :: u8) = nt - nt div int n * (int n - 1)"
proof -
  let ?t = "nt div int n"
  have t: "0 \<le> ?t" "?t * int n \<le> nt" "?t \<le> nt"
    using assms zdiv_mono2 [of nt 1 "int n"] by (simp_all add: pos_imp_zdiv_nonneg_iff minus_mod_eq_div_mult [symmetric])
  moreover have "0 \<le> ?t * (int n - 1)" using t(1) assms(1) by simp
  moreover have "?t * (int n - 1) \<le> ?t * int n" using t(1) by (intro mult_left_mono) simp_all
  ultimately show "uint (word_of_int ?t :: u8) = ?t" "uint (word_of_int (nt - ?t * (int n - 1)) :: u8) = nt - ?t * (int n - 1)"
    using assms(3) by (simp_all only: uint_word_of_int) simp_all
qed

lemma tries_list:
  assumes "i < n" "length ts = n" "i = (if probing then 1 else 0)" "probing \<Longrightarrow> uint (ts ! 0) = 1 \<and> 3 \<le> n"
    and "ts ! i = word_of_int (nt div int n)"
    and "\<forall>j. i < j \<and> j < n \<longrightarrow> ts ! j = step_tries nt (int n) (word_of_int (nt div int n)) j" "0 \<le> nt" "nt \<le> 255"
  shows "map uint ts = series_tries probing nt n"
proof (rule nth_equalityI)
  show "length (map uint ts) = length (series_tries probing nt n)"
    using assms(1-4) by (auto simp: series_tries_def)
  have n: "0 < n" using assms(1) by simp
  note u = uint_shares [OF n assms(7,8)]
  fix j assume "j < length (map uint ts)"
  then have j: "j < n" using assms(2) by simp
  consider "j < i" | "j = i" | "i < j" "j < n - 1" | "i < j" "j = n - 1" using j by linarith
  then show "map uint ts ! j = series_tries probing nt n ! j"
  proof cases
    case 1
    then show ?thesis using assms(2-4) j by (simp add: series_tries_def split: if_splits)
  next
    case 2
    then show ?thesis
      using assms(2-5) j u(1) by (cases "n = 1") (auto simp: series_tries_def nth_append nth_Cons')
  next
    case 3
    then show ?thesis
      using assms(2,3,6) j u(1) by (auto simp: series_tries_def nth_append nth_Cons' step_tries_def)
  next
    case 4
    then have "ts ! j = word_of_int (nt - nt div int n * (int n - 1))"
      using assms(6) j u(1) by (simp add: step_tries_def of_nat_diff)
    moreover have "series_tries probing nt n ! (n - 1) = nt - nt div int n * (int n - 1)"
      using assms(1,3,4) by (auto simp: series_tries_def nth_append nth_Cons')
    ultimately show ?thesis using 4 assms(2) j u(2) by simp
  qed
qed

lemma rcRateFind_11n_run:
  assumes wf: "rate_wf rt an" and nr: "0 < numRates" "nat numRates \<le> length ss" "2 \<le> length ss"
    and nt: "0 \<le> numTries" "numTries \<le> 255"
  shows "\<exists>ss' isp asc' an'. rcRateFind_11n merlin ng rt now numTries numRates sd rcflag ss asc an = Some (ss', isp, asc', an') \<and>
    rate_wf rt an' \<and> length ss' = length ss \<and> (isp \<longrightarrow> rcflag AND ATH_RC_PROBE_ALLOWED \<noteq> 0) \<and>
    ((isp \<longrightarrow> 3 \<le> numRates) \<longrightarrow> map (\<lambda>s. uint (rcs_tries s)) (take (nat numRates) ss') = series_tries isp numTries (nat numRates)) \<and>
    (\<forall>j<nat numRates. rix_ok rt (ss' ! j))"
proof -
  let ?pa = "rcflag AND ATH_RC_PROBE_ALLOWED \<noteq> 0" and ?t = "word_of_int (numTries div numRates) :: u8"
  obtain r isp asc' an' where f: "rcRateFind_ht rt now ?pa asc an = Some (r, isp, asc', an')"
    "unat r < length (info rt)" "rate_wf rt an'" "isp \<longrightarrow> ?pa"
    using rcRateFind_ht_wf [OF wf] by blast
  have "\<exists>ss1 i nrix. (if ?pa \<and> isp then do {
          x \<leftarrow> rcRateSetseries merlin rt 1 r False (tx_chainmask asc') (stbc an');
          ss \<leftarrow> set_at ss 0 x;
          nrix \<leftarrow> rcRateGetIndex merlin an' r 1 False;
          Some (ss, 1, nrix) }
        else Some (ss, 0 :: nat, r)) = Some (ss1, i, nrix) \<and> unat nrix < length (info rt) \<and>
        length ss1 = length ss \<and> i = (if isp then 1 else 0) \<and> (isp \<longrightarrow> rcs_tries (ss1 ! 0) = 1) \<and> (\<forall>j<i. rix_ok rt (ss1 ! j))"
    using setseries_wf [OF f(2), of merlin 1 False "tx_chainmask asc'" "stbc an'"] get_index_wf [OF f(3,2), of merlin 1 False] f(2,4) nr(3)
    by (cases "?pa \<and> isp") (auto simp: set_at_def)
  then obtain ss1 i nrix where s: "(if ?pa \<and> isp then do {
          x \<leftarrow> rcRateSetseries merlin rt 1 r False (tx_chainmask asc') (stbc an');
          ss \<leftarrow> set_at ss 0 x;
          nrix \<leftarrow> rcRateGetIndex merlin an' r 1 False;
          Some (ss, 1, nrix) }
        else Some (ss, 0 :: nat, r)) = Some (ss1, i, nrix)" "unat nrix < length (info rt)"
        "length ss1 = length ss" "i = (if isp then 1 else 0)" "isp \<longrightarrow> rcs_tries (ss1 ! 0) = 1" "\<forall>j<i. rix_ok rt (ss1 ! j)" by blast
  obtain x where x: "rcRateSetseries merlin rt ?t nrix False (tx_chainmask asc') (stbc an') = Some x" "rcs_tries x = ?t"
    "rix_ok rt x"
    using setseries_wf [OF s(2)] by blast
  let ?ss2 = "ss1[i := x]"
  have i: "i < length ss1" using s(3,4) nr(3) by auto
  have "nat numRates \<le> length ?ss2 \<or> nat numRates \<le> i + 1" using s(3) nr(2) by simp
  from series_loop [OF f(3) s(2) this, of merlin asc' numTries numRates sd rcflag ?t] obtain ss3 r3 where
    l: "foldM (series_step merlin rt asc' an' numTries numRates sd rcflag ?t) (?ss2, nrix) [i + 1..<nat numRates] = Some (ss3, r3)"
      "length ss3 = length ss" "\<forall>j<i + 1. ss3 ! j = ?ss2 ! j"
      "\<forall>j. i + 1 \<le> j \<and> j < nat numRates \<longrightarrow> rcs_tries (ss3 ! j) = step_tries numTries numRates ?t j \<and> rix_ok rt (ss3 ! j)"
    using s(3) by auto
  have "ss3 \<noteq> []" "max (i + 1) (nat numRates) = 4 \<longrightarrow> 4 \<le> length ss3" using l(2) nr s(4) by auto
  from series_fixup_wf [OF this, of ng "info rt ! unat r" rt] obtain ss4 where
    x4: "series_fixup ng (info rt ! unat r) (max (i + 1) (nat numRates)) ss3 = Some ss4" "length ss4 = length ss3"
      "map rcs_tries ss4 = map rcs_tries ss3"
      "(\<forall>j<max (i + 1) (nat numRates). rix_ok rt (ss3 ! j)) \<longrightarrow> (\<forall>j<max (i + 1) (nat numRates). rix_ok rt (ss4 ! j))" by blast
  have ok: "rix_ok rt (ss3 ! j)" if "j < max (i + 1) (nat numRates)" for j
  proof (cases "j < i + 1")
    case True
    then show ?thesis using l(3) s(6) x(3) i by (cases "j = i") (auto simp: nth_list_update)
  qed (use l(4) that in auto)
  have run: "rcRateFind_11n merlin ng rt now numTries numRates sd rcflag ss asc an = Some (ss4, isp, asc', an')"
    using nr(1) nt(1) i f(2) x4(1)
    by (simp add: rcRateFind_11n_def Let_def f(1) s(1) x(1) set_at_def l(1) [unfolded Suc_eq_plus1 [symmetric]] require_def at_def)
  have "map (\<lambda>s. uint (rcs_tries s)) (take (nat numRates) ss4) = series_tries isp numTries (nat numRates)" if p: "isp \<longrightarrow> 3 \<le> numRates"
  proof -
    let ?n = "nat numRates"
    let ?ts = "take ?n (map rcs_tries ss3)"
    have n: "int ?n = numRates" "i < ?n" using nr(1) p s(4) by auto
    have len: "length ?ts = ?n" using l(2) nr(2) by simp
    have z: "?ts ! i = word_of_int (numTries div int ?n)"
      using l(3) x(2) i n l(2) nr(2) s(3) by simp
    have o: "uint (?ts ! 0) = 1 \<and> 3 \<le> ?n" if "isp"
    proof -
      have "0 < length ss3" "3 \<le> ?n" using that p l(2) nr(2,3) by auto
      moreover have "rcs_tries (ss3 ! 0) = 1" using that l(3) s(4,5) by simp
      ultimately show ?thesis by simp
    qed
    have r: "\<forall>j. i < j \<and> j < ?n \<longrightarrow> ?ts ! j = step_tries numTries (int ?n) (word_of_int (numTries div int ?n)) j"
      using l(2,4) nr(2) n(1) by simp
    have "map uint ?ts = series_tries isp numTries ?n"
      using tries_list [OF n(2) len s(4) o z r nt] .
    moreover have "map (\<lambda>s. uint (rcs_tries s)) (take ?n ss4) = map uint (take ?n (map rcs_tries ss4))"
      by (simp add: take_map)
    ultimately show ?thesis using x4(3) by simp
  qed
  then show ?thesis
    using run f(3,4) l(2) x4(2) x4(4) ok
    by (intro exI [of _ ss4] exI [of _ isp] exI [of _ asc'] exI [of _ an']) simp
qed

text \<open>
  Property C10. On a well-formed rate state, with room for the series, \<^verbatim>\<open>ath_rate_findrate_11n\<close> returns,
  keeps the state well-formed, and probes only when probing is allowed. It fills in exactly these tries: equal
  shares of the number asked for, the rounding going to the last rate, so that they add up to that number; when it
  probes a rate (in a series of at least three), one try goes to the probed rate in place of a share, so that
  they add up to that number, less the share, plus one. Every rate of the series is the base rate of a row of the table.
\<close>

theorem ath_rate_findrate_11n_tries:
  assumes "rate_wf rt an" "0 < numRates" "nat numRates \<le> length ss" "2 \<le> length ss" "0 < numTries" "numTries \<le> 255"
  shows "\<exists>ss' isp asc' an'.
    ath_rate_findrate_11n merlin ng rt now numTries numRates sd rcflag ss asc an = Some (ss', isp, asc', an') \<and>
    rate_wf rt an' \<and> length ss' = length ss \<and> (isp \<longrightarrow> rcflag AND ATH_RC_PROBE_ALLOWED \<noteq> 0) \<and>
    ((isp \<longrightarrow> 3 \<le> numRates) \<longrightarrow>
      map (\<lambda>s. uint (rcs_tries s)) (take (nat numRates) ss') = series_tries isp numTries (nat numRates) \<and>
      sum_list (map (\<lambda>s. uint (rcs_tries s)) (take (nat numRates) ss')) = numTries + (if isp then 1 - numTries div numRates else 0)) \<and>
    (\<forall>j<nat numRates. rix_ok rt (ss' ! j))"
proof -
  obtain ss' isp asc' an' where r: "rcRateFind_11n merlin ng rt now numTries numRates sd rcflag ss asc an = Some (ss', isp, asc', an')"
    "rate_wf rt an'" "length ss' = length ss" "isp \<longrightarrow> rcflag AND ATH_RC_PROBE_ALLOWED \<noteq> 0"
    "(isp \<longrightarrow> 3 \<le> numRates) \<longrightarrow> map (\<lambda>s. uint (rcs_tries s)) (take (nat numRates) ss') = series_tries isp numTries (nat numRates)"
    "\<forall>j<nat numRates. rix_ok rt (ss' ! j)"
    using rcRateFind_11n_run [OF assms(1-4), of numTries merlin ng now sd rcflag asc] assms(5,6) by auto
  have "sum_list (series_tries isp numTries (nat numRates)) = numTries + (if isp then 1 - numTries div numRates else 0)"
    if "isp \<longrightarrow> 3 \<le> numRates"
    using series_tries_sum [of isp "nat numRates" numTries] that assms(2) by (auto split: if_splits)
  then show ?thesis
    using r assms(2,5) by (simp add: ath_rate_findrate_11n_def)
qed

definition series0 :: "ath_rc_series list" where
  "series0 = replicate 4 \<lparr>rcs_rix = 0, rcs_tries = 0, rcs_tx_chainmask = 0, rcs_flags = 0, rcs_max4msframelen = 0,
     rcs_txrateKbps = 0\<rparr>"

theorem ath_rate_findrate_11n_tries_witness:
  "\<exists>ss' isp asc' an'.
    ath_rate_findrate_11n False True ar5416_11ngRateTable_k2 7 10 4 1 0 series0 ath_rate_attach node0 = Some (ss', isp, asc', an') \<and>
    map (\<lambda>s. uint (rcs_tries s)) ss' = [2, 2, 2, 4] \<and> series_tries True 10 4 = [1, 2, 2, 4]"
proof -
  have w: "rate_wf ar5416_11ngRateTable_k2 node0" by code_simp
  have l: "length series0 = 4" by (simp add: series0_def)
  have t: "series_tries False 10 4 = [2, 2, 2, 4]" "series_tries True 10 4 = [1, 2, 2, 4]" by code_simp+
  show ?thesis
    using ath_rate_findrate_11n_tries [OF w, of 4 series0 10 False True 7 1 0 ath_rate_attach] l t by auto
qed

section \<open>The rate that wins\<close>

text \<open>
  The loop stops when the best throughput so far reaches the user rate of the next candidate. The
  throughput is the user rate times 100 less the error rate, so with an error rate below 100 per cent
  the first candidate, the highest rate up to \<^verbatim>\<open>rateMaxPhy\<close>, stops the loop at the second one.
\<close>

lemma find_best_stops:
  assumes "is = [] \<or> (\<exists>i js. is = i # js \<and> i < length (validRateIndex an) \<and> validRateIndex an ! i \<le> rateMaxPhy an \<and>
      unat (validRateIndex an ! i) < length (info rt) \<and> userRateKbps (info rt ! unat (validRateIndex an ! i)) \<le> t)"
  shows "find_best rt an is t b = Some b"
  using assms by (auto simp: at_def)

lemma thruput_ge:
  assumes "(u :: u32) \<le> 0x28F5C28" "p < (100 :: u8)" "12 \<le> p"
  shows "u \<le> u * word_of_int (100 - uint p)"
proof -
  have p: "1 \<le> 100 - uint p" "100 - uint p \<le> 100" using assms(2) by (simp_all add: word_less_def)
  have u: "uint u \<le> 0x28F5C28" using assms(1) by (simp add: word_le_def)
  have "uint u * (100 - uint p) \<le> 0x28F5C28 * 100" using p u by (intro mult_mono) auto
  moreover have "uint (word_of_int (100 - uint p) :: u32) = 100 - uint p"
  proof -
    have "0 \<le> 100 - uint p" "100 - uint p < 4294967296" using p by linarith+
    from mod_pos_pos_trivial [OF this] show ?thesis by (simp only: uint_word_of_int) simp
  qed
  moreover have "0 \<le> uint u * (100 - uint p)" using p by simp
  ultimately have "uint (u * word_of_int (100 - uint p)) = uint u * (100 - uint p)"
    using mod_pos_pos_trivial [of "uint u * (100 - uint p)" 4294967296] by (simp add: uint_word_ariths)
  moreover have "uint u * 1 \<le> uint u * (100 - uint p)" using p by (intro mult_left_mono) auto
  ultimately show ?thesis by (simp add: word_le_def)
qed

text \<open>
  The error rates do not take part in the choice among the allowed rates: with ascending
  user rates (below 42,949,672 kbit/s), the search returns its first allowed candidate whatever the error
  rates are, as long as the one of this candidate is below 100 per cent. The comment of the code ("if the
  best throughput is already larger than the userRateKbps") compares two different units.
\<close>

theorem find_best_ignores_error_rates:
  assumes "i < length (validRateIndex an)" "r = validRateIndex an ! i" "r \<le> rateMaxPhy an"
    and "unat r < length (info rt)" "unat r < length (per an)" "per an ! unat r < 100"
    and "0 < userRateKbps (info rt ! unat r)" "userRateKbps (info rt ! unat r) \<le> 0x28F5C28"
    and "is = [] \<or> (\<exists>j js. is = j # js \<and> j < length (validRateIndex an) \<and> validRateIndex an ! j \<le> rateMaxPhy an \<and>
      unat (validRateIndex an ! j) < length (info rt) \<and>
      userRateKbps (info rt ! unat (validRateIndex an ! j)) \<le> userRateKbps (info rt ! unat r))"
  shows "find_best rt an (i # is) 0 0 = Some r"
proof -
  let ?u = "userRateKbps (info rt ! unat r)"
  let ?p = "if per an ! unat r < 12 then 12 else per an ! unat r"
  let ?t = "?u * word_of_int (100 - uint ?p)"
  have "?p < 100" "12 \<le> ?p" using assms(6) by auto
  then have "?u \<le> ?t" using thruput_ge [OF assms(8)] by blast
  then have "find_best rt an is ?t r = Some r" using assms(9) by (intro find_best_stops) (auto intro: order_trans)
  moreover have "\<not> r > rateMaxPhy an" "\<not> 0 \<ge> ?u" using assms(3,7) by auto
  ultimately show ?thesis
    using assms(1,4,5) by (simp add: at_def assms(2) [symmetric] Let_def)
qed

text \<open>
  With 99 per cent of the packets lost at row 3 (11 Mbit/s, user rate 7000) and none at row 2 (user
  rate 4900), the search still takes row 3.
\<close>

theorem find_best_ignores_error_rates_witness:
  "let an = node0\<lparr>per := (replicate 54 0)[3 := 99], validRateIndex := [2, 3], maxValidRate := 2\<rparr> in
   per an ! 3 = 99 \<and> per an ! 2 = 0 \<and> find_best ar5416_11ngRateTable_k2 an [1, 0] 0 0 = Some 3"
proof -
  let ?an = "node0\<lparr>per := (replicate 54 0)[3 := 99], validRateIndex := [2, 3], maxValidRate := 2\<rparr>"
  have "find_best ar5416_11ngRateTable_k2 ?an [1, 0] 0 0 = Some 3"
  proof (rule find_best_ignores_error_rates)
    show "1 < length (validRateIndex ?an)" by code_simp
    show "3 = validRateIndex ?an ! 1" by code_simp
    show "(3 :: u8) \<le> rateMaxPhy ?an" by code_simp
    show "unat (3 :: u8) < length (info ar5416_11ngRateTable_k2)" by code_simp
    show "unat (3 :: u8) < length (per ?an)" by code_simp
    show "per ?an ! unat (3 :: u8) < 100" by code_simp
    show "0 < userRateKbps (info ar5416_11ngRateTable_k2 ! unat (3 :: u8))" by code_simp
    show "userRateKbps (info ar5416_11ngRateTable_k2 ! unat (3 :: u8)) \<le> 0x28F5C28" by code_simp
    have "0 < length (validRateIndex ?an) \<and> validRateIndex ?an ! 0 \<le> rateMaxPhy ?an \<and>
      unat (validRateIndex ?an ! 0) < length (info ar5416_11ngRateTable_k2) \<and>
      userRateKbps (info ar5416_11ngRateTable_k2 ! unat (validRateIndex ?an ! 0)) \<le>
      userRateKbps (info ar5416_11ngRateTable_k2 ! unat (3 :: u8))" by code_simp
    then show "[0] = [] \<or> (\<exists>j js. [0] = j # js \<and> j < length (validRateIndex ?an) \<and> validRateIndex ?an ! j \<le> rateMaxPhy ?an \<and>
      unat (validRateIndex ?an ! j) < length (info ar5416_11ngRateTable_k2) \<and>
      userRateKbps (info ar5416_11ngRateTable_k2 ! unat (validRateIndex ?an ! j)) \<le>
      userRateKbps (info ar5416_11ngRateTable_k2 ! unat (3 :: u8)))" by blast
  qed
  then show ?thesis by (simp add: Let_def)
qed

end
