(* ===== verification/Baw.thy ===== *)
theory Baw
  imports Tx_State
begin

text \<open>
  The transmit block-ack window of a TID (\<^verbatim>\<open>if_owl.c\<close>): a ring of 128 bits addressed from
  \<^verbatim>\<open>baw_head\<close> that records which of the sequence numbers from \<^verbatim>\<open>seq_start\<close> on are still
  outstanding. The operations are translated on the record \<open>ath_atx_tid\<close>; the specification
  is a list of booleans, and every operation is shown to refine a list operation.
\<close>

section \<open>The operations\<close>

definition owl_tgt_tid_init :: "ath_atx_tid \<Rightarrow> ath_atx_tid" where
  "owl_tgt_tid_init tid =
     (let tid = tid\<lparr>seq_start := 0, seq_next := 0, baw_size := of_nat WME_MAX_BA,
                    baw_head := 0, baw_tail := 0, paused := 0, flag := 0, sched := 0,
                    buf_q := []\<rparr>
      in tid\<lparr>tx_buf_bitmap :=
               fold (\<lambda>i bm. TX_BUF_BITMAP_CLR bm (of_nat i)) [0..<ATH_TID_MAX_BUFS]
                 (tx_buf_bitmap tid)\<rparr>)"

definition ath_tx_addto_baw :: "ath_atx_tid \<Rightarrow> ath_tx_buf \<Rightarrow> ath_atx_tid" where
  "ath_tx_addto_baw tid bf =
     (if bf_isretried bf then tid
      else let index = ATH_BA_INDEX (ucast (seq_start tid)) (SEQNO_FROM_BF_SEQNO (bf_seqno bf));
               cindex = (baw_head tid + index) AND 127;
               tid = tid\<lparr>tx_buf_bitmap := TX_BUF_BITMAP_SET (tx_buf_bitmap tid) cindex\<rparr>
           in if index \<ge> (baw_tail tid - baw_head tid) AND 127
              then tid\<lparr>baw_tail := INCR_baw cindex\<rparr>
              else tid)"

text \<open>
  The loop at the end of \<^verbatim>\<open>ath_tx_update_baw\<close>. It has no termination argument of its own
  (a tail outside the ring would never be met), hence the partial function; that it stops
  on every state the firmware can reach is \<open>baw_slide_refines\<close> below.
\<close>

partial_function (option) baw_slide :: "ath_atx_tid \<Rightarrow> ath_atx_tid option" where
  "baw_slide tid =
     (if baw_head tid \<noteq> baw_tail tid \<and>
         \<not> TX_BUF_BITMAP_IS_SET (tx_buf_bitmap tid) (baw_head tid)
      then baw_slide (tid\<lparr>seq_start := INCR_seq (seq_start tid),
                          baw_head := INCR_baw (baw_head tid)\<rparr>)
      else Some tid)"

definition ath_tx_update_baw :: "ath_atx_tid \<Rightarrow> u32 \<Rightarrow> ath_atx_tid option" where
  "ath_tx_update_baw tid seqno =
     (let index = ATH_BA_INDEX (ucast (seq_start tid)) seqno;
          cindex = (baw_head tid + index) AND 127
      in baw_slide (tid\<lparr>tx_buf_bitmap := TX_BUF_BITMAP_CLR (tx_buf_bitmap tid) cindex\<rparr>))"

text \<open>
  The second loop of \<^verbatim>\<open>ath_tgt_tx_cleanup\<close>: every outstanding frame is counted in
  \<^verbatim>\<open>incomp\<close> and the window is emptied.
\<close>

partial_function (option) baw_flush :: "ath_atx_tid \<Rightarrow> ath_atx_tid option" where
  "baw_flush tid =
     (if baw_head tid \<noteq> baw_tail tid
      then let tid = (if TX_BUF_BITMAP_IS_SET (tx_buf_bitmap tid) (baw_head tid)
                      then tid\<lparr>incomp := incomp tid + 1,
                               flag := flag tid OR TID_CLEANUP_INPROGRES,
                               tx_buf_bitmap :=
                                 TX_BUF_BITMAP_CLR (tx_buf_bitmap tid) (baw_head tid)\<rparr>
                      else tid)
           in baw_flush (tid\<lparr>baw_head := INCR_baw (baw_head tid),
                             seq_start := INCR_seq (seq_start tid)\<rparr>)
      else Some tid)"

section \<open>Abstraction and invariant\<close>

definition baw_len :: "ath_atx_tid \<Rightarrow> nat" where
  "baw_len tid = unat ((baw_tail tid - baw_head tid) AND 127)"

definition baw_slot :: "ath_atx_tid \<Rightarrow> nat \<Rightarrow> u32" where
  "baw_slot tid i = (baw_head tid + of_nat i) AND 127"

definition baw_bit :: "ath_atx_tid \<Rightarrow> nat \<Rightarrow> bool" where
  "baw_bit tid i = TX_BUF_BITMAP_IS_SET (tx_buf_bitmap tid) (baw_slot tid i)"

definition baw_abs :: "ath_atx_tid \<Rightarrow> bool list" where
  "baw_abs tid = map (baw_bit tid) [0..<baw_len tid]"

definition baw_inv :: "ath_atx_tid \<Rightarrow> bool" where
  "baw_inv tid \<longleftrightarrow> unat (baw_head tid) < 128 \<and> unat (baw_tail tid) < 128 \<and>
     length (tx_buf_bitmap tid) = 4 \<and> unat (seq_start tid) < 4096 \<and>
     (\<forall>i<128. baw_len tid \<le> i \<longrightarrow> \<not> baw_bit tid i)"

text \<open>The specification: outstanding flags from the window start on.\<close>

definition win_add :: "nat \<Rightarrow> bool list \<Rightarrow> bool list" where
  "win_add i w = (if i < length w then w[i := True]
                  else w @ replicate (i - length w) False @ [True])"

definition win_complete :: "nat \<Rightarrow> bool list \<Rightarrow> bool list" where
  "win_complete i w = dropWhile Not (w[i := False])"

section \<open>Ring arithmetic\<close>

lemma unat_diff_and_127:
  assumes "unat b \<le> 128"
  shows "unat ((a - b :: u32) AND 127) = (unat a + 128 - unat b) mod 128"
proof (cases "unat b \<le> unat a")
  case True
  then have "unat (a - b) = unat a - unat b"
    by (simp add: unat_sub_if_size)
  moreover have "unat a + 128 - unat b = (unat a - unat b) + 128"
    using True by simp
  ultimately show ?thesis
    by (simp only: mask_simps mod_add_self2)
next
  case False
  then have "unat (a - b) = (unat a + 128 - unat b) + 128 * 33554431"
    using assms by (simp add: unat_sub_if_size word_size)
  then show ?thesis
    by (simp only: mask_simps mod_mult_self2)
qed

lemma unat_baw_slot: "unat (baw_slot tid i) = (unat (baw_head tid) + i) mod 128"
proof -
  have "unat (baw_slot tid i) = (unat (baw_head tid) + i mod 4294967296) mod 4294967296 mod 128"
    by (simp add: baw_slot_def mask_simps unat_word_ariths unat_of_nat)
  also have "\<dots> = (unat (baw_head tid) + i) mod 128"
    by (simp add: mod_mod_cancel mod_add_right_eq)
  finally show ?thesis .
qed

lemma baw_slot_inj: "i < 128 \<Longrightarrow> j < 128 \<Longrightarrow> baw_slot tid i = baw_slot tid j \<longleftrightarrow> i = j"
  using unat_baw_slot [of tid i] unat_baw_slot [of tid j]
    add_mod_inj [of "unat (baw_head tid)" i 128 j]
  by auto

lemma baw_slot_lt: "unat (baw_slot tid i) < 128"
  by (simp add: unat_baw_slot)

lemma baw_slot_0: "baw_inv tid \<Longrightarrow> baw_slot tid 0 = baw_head tid"
  by (rule unat_eqI) (simp add: unat_baw_slot baw_inv_def)

lemma baw_len_lt: "baw_len tid < 128"
  by (simp add: baw_len_def mask_simps)

lemma baw_len_eq:
  "baw_inv tid \<Longrightarrow> baw_len tid = (unat (baw_tail tid) + 128 - unat (baw_head tid)) mod 128"
  by (simp add: baw_len_def baw_inv_def unat_diff_and_127)

lemma baw_slot_len: "baw_inv tid \<Longrightarrow> baw_slot tid (baw_len tid) = baw_tail tid"
  by (rule unat_eqI, simp only: unat_baw_slot baw_len_eq)
    (rule add_ring_distance, simp_all add: baw_inv_def)

lemma baw_len_0_iff:
  assumes "baw_inv tid"
  shows "baw_len tid = 0 \<longleftrightarrow> baw_head tid = baw_tail tid"
proof
  assume "baw_len tid = 0"
  with baw_slot_len [OF assms] baw_slot_0 [OF assms] show "baw_head tid = baw_tail tid"
    by simp
next
  assume "baw_head tid = baw_tail tid"
  then show "baw_len tid = 0" by (simp add: baw_len_def)
qed

section \<open>The operations refine the list specification\<close>

lemma baw_bit_frame [simp]:
  "baw_bit (tid\<lparr>seq_start := s\<rparr>) = baw_bit tid"
  "baw_len (tid\<lparr>seq_start := s\<rparr>) = baw_len tid"
  "baw_len (tid\<lparr>tx_buf_bitmap := bm\<rparr>) = baw_len tid"
  "baw_slot (tid\<lparr>seq_start := s\<rparr>) = baw_slot tid"
  "baw_slot (tid\<lparr>tx_buf_bitmap := bm\<rparr>) = baw_slot tid"
  "baw_slot (tid\<lparr>baw_tail := t\<rparr>) = baw_slot tid"
  "baw_bit (tid\<lparr>baw_tail := t\<rparr>) = baw_bit tid"
  by (simp_all add: baw_bit_def baw_slot_def baw_len_def fun_eq_iff)

lemma length_baw_abs [simp]: "length (baw_abs tid) = baw_len tid"
  by (simp add: baw_abs_def)

lemma nth_baw_abs: "i < baw_len tid \<Longrightarrow> baw_abs tid ! i = baw_bit tid i"
  by (simp add: baw_abs_def)

text \<open>One turn of the sliding loop drops the first flag.\<close>

definition baw_step :: "ath_atx_tid \<Rightarrow> ath_atx_tid" where
  "baw_step tid = tid\<lparr>seq_start := INCR_seq (seq_start tid), baw_head := INCR_baw (baw_head tid)\<rparr>"

lemma baw_step_slot: "baw_slot (baw_step tid) i = baw_slot tid (Suc i)"
  by (rule unat_eqI) (simp add: unat_baw_slot baw_step_def unat_INCR_baw mod_simps)

lemma baw_step_bit: "baw_bit (baw_step tid) i = baw_bit tid (Suc i)"
  using baw_step_slot [of tid i] by (simp add: baw_bit_def baw_step_def)

lemma baw_step_len:
  assumes "baw_inv tid" "baw_head tid \<noteq> baw_tail tid"
  shows "Suc (baw_len (baw_step tid)) = baw_len tid"
proof -
  let ?h = "unat (baw_head tid)" and ?t = "unat (baw_tail tid)"
  have b: "?h < 128" "?t < 128" using assms(1) by (auto simp: baw_inv_def)
  have ne: "?h \<noteq> ?t" using assms(2) by (simp add: unat_eq_iff [symmetric])
  have h': "unat (baw_head (baw_step tid)) = (?h + 1) mod 128"
    by (simp add: baw_step_def unat_INCR_baw)
  then have "baw_len (baw_step tid) = (?t + 128 - (?h + 1) mod 128) mod 128"
    using unat_diff_and_127 [of "baw_head (baw_step tid)" "baw_tail tid"]
    by (simp add: baw_len_def baw_step_def)
  moreover have "Suc ((?t + 128 - (?h + 1) mod 128) mod 128) = (?t + 128 - ?h) mod 128"
    using b ne by (rule ring_distance_Suc)
  ultimately show ?thesis using baw_len_eq [OF assms(1)] by simp
qed

lemma baw_step_inv:
  assumes "baw_inv tid" "baw_head tid \<noteq> baw_tail tid" "\<not> baw_bit tid 0"
  shows "baw_inv (baw_step tid)"
proof -
  have len: "Suc (baw_len (baw_step tid)) = baw_len tid"
    using assms(1,2) by (rule baw_step_len)
  have "\<not> baw_bit (baw_step tid) i" if "i < 128" "baw_len (baw_step tid) \<le> i" for i
  proof (cases "i = 127")
    case True
    have "baw_slot tid 128 = baw_slot tid 0"
      by (rule unat_eqI) (simp add: unat_baw_slot)
    then have "baw_bit tid 128 = baw_bit tid 0" by (simp add: baw_bit_def)
    then show ?thesis using True assms(3) by (simp add: baw_step_bit)
  next
    case False
    then show ?thesis using that len assms(1) by (simp add: baw_step_bit baw_inv_def)
  qed
  then show ?thesis
    using assms(1) by (simp add: baw_inv_def baw_step_def unat_INCR_baw unat_INCR_seq)
qed

lemma baw_step_abs:
  assumes "baw_inv tid" "baw_head tid \<noteq> baw_tail tid"
  shows "baw_abs tid = baw_bit tid 0 # baw_abs (baw_step tid)"
proof -
  have "baw_abs tid = map (baw_bit tid) (0 # map Suc [0..<baw_len (baw_step tid)])"
    unfolding baw_abs_def baw_step_len [OF assms, symmetric] by (simp only: upt_0_Suc)
  then show ?thesis by (simp add: baw_abs_def baw_step_bit)
qed

lemma baw_slide_stop:
  assumes "baw_inv tid" "baw_head tid = baw_tail tid \<or> baw_bit tid 0"
    "takeWhile Not (baw_abs tid) = []" "dropWhile Not (baw_abs tid) = baw_abs tid"
  shows "\<exists>s h. baw_slide tid = Some (tid\<lparr>seq_start := s, baw_head := h\<rparr>) \<and>
           baw_inv (tid\<lparr>seq_start := s, baw_head := h\<rparr>) \<and>
           baw_abs (tid\<lparr>seq_start := s, baw_head := h\<rparr>) = dropWhile Not (baw_abs tid) \<and>
           unat s = (unat (seq_start tid) + length (takeWhile Not (baw_abs tid))) mod 4096"
proof -
  have id: "tid\<lparr>seq_start := seq_start tid, baw_head := baw_head tid\<rparr> = tid" by simp
  have "baw_slide tid = Some tid"
    using assms(1,2) by (subst baw_slide.simps) (auto simp: baw_bit_def baw_slot_0)
  moreover have "unat (seq_start tid) < 4096" using assms(1) by (simp add: baw_inv_def)
  ultimately show ?thesis
    using assms(1,3,4)
    by (intro exI [of _ "seq_start tid"] exI [of _ "baw_head tid"]) (simp only: id, simp)
qed

lemma baw_slide_refines:
  assumes "baw_inv tid"
  shows "\<exists>s h. baw_slide tid = Some (tid\<lparr>seq_start := s, baw_head := h\<rparr>) \<and>
           baw_inv (tid\<lparr>seq_start := s, baw_head := h\<rparr>) \<and>
           baw_abs (tid\<lparr>seq_start := s, baw_head := h\<rparr>) = dropWhile Not (baw_abs tid) \<and>
           unat s = (unat (seq_start tid) + length (takeWhile Not (baw_abs tid))) mod 4096"
  using assms
proof (induction "baw_len tid" arbitrary: tid)
  case 0
  then have "baw_head tid = baw_tail tid" "baw_abs tid = []"
    by (simp_all add: baw_len_0_iff [symmetric] baw_abs_def)
  then show ?case
    using "0.prems" by (intro baw_slide_stop) simp_all
next
  case (Suc n)
  have ne: "baw_head tid \<noteq> baw_tail tid"
    using Suc.hyps(2) Suc.prems by (simp add: baw_len_0_iff [symmetric])
  have b0: "TX_BUF_BITMAP_IS_SET (tx_buf_bitmap tid) (baw_head tid) = baw_bit tid 0"
    by (simp add: baw_bit_def baw_slot_0 [OF Suc.prems])
  note abs = baw_step_abs [OF Suc.prems ne]
  show ?case
  proof (cases "baw_bit tid 0")
    case True
    then show ?thesis
      using Suc.prems abs by (intro baw_slide_stop) simp_all
  next
    case False
    have step: "baw_slide tid = baw_slide (baw_step tid)"
      using False ne b0 by (subst baw_slide.simps) (simp add: baw_step_def)
    have "n = baw_len (baw_step tid)"
      using baw_step_len [OF Suc.prems ne] Suc.hyps(2) by simp
    from Suc.hyps(1) [OF this baw_step_inv [OF Suc.prems ne False]]
    obtain s h where IH: "baw_slide (baw_step tid) = Some ((baw_step tid)\<lparr>seq_start := s, baw_head := h\<rparr>)"
      "baw_inv ((baw_step tid)\<lparr>seq_start := s, baw_head := h\<rparr>)"
      "baw_abs ((baw_step tid)\<lparr>seq_start := s, baw_head := h\<rparr>) = dropWhile Not (baw_abs (baw_step tid))"
      "unat s = (unat (seq_start (baw_step tid)) + length (takeWhile Not (baw_abs (baw_step tid)))) mod 4096"
      by blast
    have "(baw_step tid)\<lparr>seq_start := s, baw_head := h\<rparr> = tid\<lparr>seq_start := s, baw_head := h\<rparr>"
      by (simp add: baw_step_def)
    moreover have "unat s = (unat (seq_start tid) + length (takeWhile Not (baw_abs tid))) mod 4096"
      using IH(4) False abs by (simp add: baw_step_def unat_INCR_seq mod_simps)
    ultimately show ?thesis
      using IH(1-3) False abs step by auto
  qed
qed

lemma baw_index_slot: "(baw_head tid + index) AND 127 = baw_slot tid (unat index)"
  by (simp add: baw_slot_def)

lemma baw_clear_bit:
  assumes "length (tx_buf_bitmap tid) = 4" "i < 128" "j < 128"
  shows "baw_bit (tid\<lparr>tx_buf_bitmap := TX_BUF_BITMAP_CLR (tx_buf_bitmap tid) (baw_slot tid i)\<rparr>) j
    \<longleftrightarrow> i \<noteq> j \<and> baw_bit tid j"
  using assms baw_slot_lt [of tid i] baw_slot_inj [of i j tid]
  by (simp add: baw_bit_def TX_BUF_BITMAP_IS_SET_CLR)

lemma baw_set_bit:
  assumes "length (tx_buf_bitmap tid) = 4" "i < 128" "j < 128"
  shows "baw_bit (tid\<lparr>tx_buf_bitmap := TX_BUF_BITMAP_SET (tx_buf_bitmap tid) (baw_slot tid i)\<rparr>) j
    \<longleftrightarrow> i = j \<or> baw_bit tid j"
  using assms baw_slot_lt [of tid i] baw_slot_inj [of i j tid]
  by (simp add: baw_bit_def TX_BUF_BITMAP_IS_SET_SET)

lemma baw_clear_refines:
  assumes "baw_inv tid" "i < 128"
  defines "tid' \<equiv> tid\<lparr>tx_buf_bitmap := TX_BUF_BITMAP_CLR (tx_buf_bitmap tid) (baw_slot tid i)\<rparr>"
  shows "baw_inv tid'" "baw_abs tid' = (baw_abs tid)[i := False]"
proof -
  have bm: "length (tx_buf_bitmap tid) = 4" using assms(1) by (simp add: baw_inv_def)
  have bit: "baw_bit tid' j \<longleftrightarrow> i \<noteq> j \<and> baw_bit tid j" if "j < 128" for j
    unfolding tid'_def using bm assms(2) that by (rule baw_clear_bit)
  have len: "baw_len tid' = baw_len tid" by (simp add: tid'_def)
  show "baw_inv tid'"
    using assms(1) bit len by (auto simp: baw_inv_def tid'_def)
  show "baw_abs tid' = (baw_abs tid)[i := False]"
  proof (rule nth_equalityI)
    fix j assume "j < length (baw_abs tid')"
    then have "j < baw_len tid" using len by simp
    then show "baw_abs tid' ! j = (baw_abs tid)[i := False] ! j"
      using bit [of j] len baw_len_lt [of tid] by (cases "i = j") (simp_all add: nth_baw_abs)
  qed (simp add: len)
qed

lemma baw_add_refines:
  assumes "baw_inv tid" "i < 127"
  defines "bm \<equiv> TX_BUF_BITMAP_SET (tx_buf_bitmap tid) (baw_slot tid i)"
  defines "tid' \<equiv> (if baw_len tid \<le> i
                   then tid\<lparr>tx_buf_bitmap := bm, baw_tail := INCR_baw (baw_slot tid i)\<rparr>
                   else tid\<lparr>tx_buf_bitmap := bm\<rparr>)"
  shows "baw_inv tid'" "baw_abs tid' = win_add i (baw_abs tid)"
proof -
  have inv: "length (tx_buf_bitmap tid) = 4" "unat (baw_head tid) < 128" "unat (baw_tail tid) < 128"
    using assms(1) by (simp_all add: baw_inv_def)
  have same: "baw_bit tid' = baw_bit (tid\<lparr>tx_buf_bitmap := bm\<rparr>)" "baw_head tid' = baw_head tid"
    "tx_buf_bitmap tid' = bm" "seq_start tid' = seq_start tid"
    by (simp_all add: tid'_def)
  have bit: "baw_bit tid' j \<longleftrightarrow> i = j \<or> baw_bit tid j" if "j < 128" for j
    unfolding same bm_def using inv(1) assms(2) that by (intro baw_set_bit) simp_all
  have t': "unat (baw_tail tid') < 128"
    using inv(3) by (simp add: tid'_def unat_INCR_baw)
  have len: "baw_len tid' = (if baw_len tid \<le> i then Suc i else baw_len tid)"
  proof (cases "baw_len tid \<le> i")
    case True
    then have "unat (baw_tail tid') = (unat (baw_head tid) + Suc i) mod 128"
      by (simp add: tid'_def unat_INCR_baw unat_baw_slot mod_simps)
    then have "baw_len tid' = ((unat (baw_head tid) + Suc i) mod 128 + 128 - unat (baw_head tid)) mod 128"
      using inv(2) by (simp add: baw_len_def unat_diff_and_127 same(2))
    then have "(unat (baw_head tid) + baw_len tid') mod 128 = (unat (baw_head tid) + Suc i) mod 128"
      using add_ring_distance [OF inv(2), of "(unat (baw_head tid) + Suc i) mod 128"] by simp
    from add_mod_inj [OF this baw_len_lt] show ?thesis
      using True assms(2) by simp
  next
    case False
    then show ?thesis by (simp add: tid'_def)
  qed
  show "baw_inv tid'"
    using assms(1) t' bit len by (auto simp: baw_inv_def same bm_def)
  show "baw_abs tid' = win_add i (baw_abs tid)"
  proof (rule nth_equalityI)
    show len': "length (baw_abs tid') = length (win_add i (baw_abs tid))"
      using len by (simp add: win_add_def)
    fix j assume "j < length (baw_abs tid')"
    then have j: "j < baw_len tid'" "j < 128" using baw_len_lt [of tid'] by simp_all
    have "baw_abs tid' ! j \<longleftrightarrow> i = j \<or> baw_bit tid j"
      using j bit by (simp add: nth_baw_abs)
    also have "\<dots> \<longleftrightarrow> win_add i (baw_abs tid) ! j"
      using j len assms(1)
      by (auto simp: win_add_def nth_baw_abs nth_append nth_list_update baw_inv_def nth_Cons')
    finally show "baw_abs tid' ! j = win_add i (baw_abs tid) ! j" .
  qed
qed

section \<open>Outstanding sequence numbers\<close>

text \<open>
  What the window means to the rest of the driver: the set of 12-bit sequence numbers that
  were handed to the hardware and are not yet acknowledged or given up.
\<close>

definition win_idx :: "bool list \<Rightarrow> nat set" where
  "win_idx w = {i. i < length w \<and> w ! i}"

definition win_seqs :: "nat \<Rightarrow> bool list \<Rightarrow> nat set" where
  "win_seqs st w = (\<lambda>i. (st + i) mod 4096) ` win_idx w"

definition baw_outstanding :: "ath_atx_tid \<Rightarrow> nat set" where
  "baw_outstanding tid = win_seqs (unat (seq_start tid)) (baw_abs tid)"

lemma win_idx_Nil [simp]: "win_idx [] = {}"
  by (simp add: win_idx_def)

lemma win_idx_Cons: "win_idx (b # w) = (if b then {0} else {}) \<union> Suc ` win_idx w"
proof (rule set_eqI)
  show "i \<in> win_idx (b # w) \<longleftrightarrow> i \<in> (if b then {0} else {}) \<union> Suc ` win_idx w" for i
    by (cases i) (auto simp: win_idx_def image_iff)
qed

lemma win_idx_complete: "win_idx (w[i := False]) = win_idx w - {i}"
proof (rule set_eqI)
  show "j \<in> win_idx (w[i := False]) \<longleftrightarrow> j \<in> win_idx w - {i}" for j
    by (cases "i = j") (auto simp: win_idx_def)
qed

lemma win_idx_add: "win_idx (win_add i w) = insert i (win_idx w)"
proof (rule set_eqI)
  show "j \<in> win_idx (win_add i w) \<longleftrightarrow> j \<in> insert i (win_idx w)" for j
    by (cases "i = j") (auto simp: win_idx_def win_add_def nth_append nth_Cons')
qed

lemma win_seqs_mod: "win_seqs (st mod 4096) w = win_seqs st w"
  by (simp add: win_seqs_def mod_add_left_eq)

lemma win_seqs_Cons_False: "win_seqs st (False # w) = win_seqs (Suc st) w"
  by (simp add: win_seqs_def win_idx_Cons image_image)

lemma win_seqs_slide:
  "win_seqs ((st + length (takeWhile Not w)) mod 4096) (dropWhile Not w) = win_seqs st w"
  unfolding win_seqs_mod
proof (induction w arbitrary: st)
  case Nil
  show ?case by (simp add: win_seqs_def)
next
  case (Cons b w)
  show ?case
  proof (cases b)
    case True
    then show ?thesis by simp
  next
    case False
    then show ?thesis using Cons.IH [of "Suc st"] by (simp add: win_seqs_Cons_False)
  qed
qed

lemma win_seqs_complete:
  assumes "length w \<le> 4096" "i < 4096"
  shows "win_seqs st (w[i := False]) = win_seqs st w - {(st + i) mod 4096}"
proof -
  have "inj_on (\<lambda>i. (st + i) mod 4096) {..<4096}"
    by (rule inj_onI) (auto intro: add_mod_inj)
  moreover have "win_idx w \<subseteq> {..<4096}" "{i} \<subseteq> {..<4096}"
    using assms by (auto simp: win_idx_def)
  ultimately have "(\<lambda>i. (st + i) mod 4096) ` (win_idx w - {i}) =
      (\<lambda>i. (st + i) mod 4096) ` win_idx w - (\<lambda>i. (st + i) mod 4096) ` {i}"
    by (intro inj_on_image_set_diff) auto
  then show ?thesis
    by (simp add: win_seqs_def win_idx_complete)
qed

lemma win_seqs_add: "win_seqs st (win_add i w) = insert ((st + i) mod 4096) (win_seqs st w)"
  by (simp add: win_seqs_def win_idx_add)

lemma unat_ATH_BA_INDEX:
  assumes "unat st < 4096" "unat sq < 4096"
  shows "(unat st + unat (ATH_BA_INDEX st sq)) mod 4096 = unat sq"
proof -
  have "unat ((sq - st) AND 4095) = (unat sq + 4096 - unat st) mod 4096"
  proof (cases "unat st \<le> unat sq")
    case True
    then have "unat (sq - st) = unat sq - unat st" by (simp add: unat_sub_if_size)
    then show ?thesis using True assms by (simp add: mask_simps ring_distance_cases)
  next
    case False
    then have "unat (sq - st) = (unat sq + 4096 - unat st) + 4096 * 1048575"
      using assms by (simp add: unat_sub_if_size word_size)
    then show ?thesis by (simp only: mask_simps mod_mult_self2)
  qed
  then show ?thesis
    using add_ring_distance [of "unat st" 4096 "unat sq"] assms by (simp add: ATH_BA_INDEX_def)
qed

lemma unat_SEQNO_FROM_BF_SEQNO: "unat (SEQNO_FROM_BF_SEQNO x) = unat x div 16"
  unfolding SEQNO_FROM_BF_SEQNO_def IEEE80211_SEQ_SEQ_SHIFT_def unat_drop_bit_eq
  by (simp add: drop_bit_eq_div)

lemma SEQNO_lt: "unat (SEQNO_FROM_BF_SEQNO x) < 4096"
  unfolding unat_SEQNO_FROM_BF_SEQNO using unat_u16_less [of x]
  by (simp add: less_mult_imp_div_less)

section \<open>Interface of the window\<close>

text \<open>
  What the completion code may assume of the window: completing an outstanding frame always
  returns, removes exactly its number, and slides the window over what is completed at its
  front without moving its end.
\<close>

locale ack_window =
  fixes inv :: "'t \<Rightarrow> bool"
    and outstanding :: "'t \<Rightarrow> nat set"
    and tight :: "'t \<Rightarrow> bool"
    and fixed :: "'t \<Rightarrow> 'e"
    and complete :: "'t \<Rightarrow> u32 \<Rightarrow> 't option"
  assumes complete_law: "inv t \<Longrightarrow> unat sq \<in> outstanding t \<Longrightarrow>
    \<exists>t'. complete t sq = Some t' \<and> inv t' \<and> outstanding t' = outstanding t - {unat sq} \<and>
      tight t' \<and> fixed t' = fixed t"
    and determined: "inv t \<Longrightarrow> inv u \<Longrightarrow> tight t \<Longrightarrow> tight u \<Longrightarrow> fixed t = fixed u \<Longrightarrow>
      outstanding t = outstanding u \<Longrightarrow> t = u"
begin

lemma complete_all:
  assumes "inv t" "distinct sqs" "unat ` set sqs \<subseteq> outstanding t"
  shows "\<exists>t'. foldM complete t sqs = Some t' \<and> inv t' \<and> outstanding t' = outstanding t - unat ` set sqs \<and>
    (sqs \<noteq> [] \<longrightarrow> tight t') \<and> fixed t' = fixed t"
  using assms
proof (induction sqs arbitrary: t)
  case Nil
  then show ?case by simp
next
  case (Cons sq sqs)
  from Cons.prems obtain t1 where t1: "complete t sq = Some t1" "inv t1"
    "outstanding t1 = outstanding t - {unat sq}" "tight t1" "fixed t1 = fixed t"
    using complete_law [of t sq] by auto
  have "unat ` set sqs \<subseteq> outstanding t1"
    using Cons.prems(2,3) t1(3) by (auto dest: unat_eqI)
  from Cons.IH [OF t1(2) _ this] Cons.prems(2) obtain t2 where
    "foldM complete t1 sqs = Some t2" "inv t2" "outstanding t2 = outstanding t1 - unat ` set sqs"
    "sqs \<noteq> [] \<longrightarrow> tight t2" "fixed t2 = fixed t1"
    by auto
  then show ?case using t1 by (cases sqs) auto
qed

text \<open>The order of the completions does not matter.\<close>

lemma complete_order:
  assumes "inv t" "distinct sqs" "distinct sqs'" "set sqs' = set sqs" "unat ` set sqs \<subseteq> outstanding t"
  shows "foldM complete t sqs' = foldM complete t sqs"
proof (cases "sqs = []")
  case True
  then show ?thesis using assms(4) by simp
next
  case False
  then have "sqs' \<noteq> []" using assms(4) by auto
  moreover obtain u where u: "foldM complete t sqs = Some u" "inv u" "outstanding u = outstanding t - unat ` set sqs"
    "sqs \<noteq> [] \<longrightarrow> tight u" "fixed u = fixed t"
    using complete_all [OF assms(1,2,5)] by blast
  moreover obtain u' where u': "foldM complete t sqs' = Some u'" "inv u'" "outstanding u' = outstanding t - unat ` set sqs'"
    "sqs' \<noteq> [] \<longrightarrow> tight u'" "fixed u' = fixed t"
    using complete_all [OF assms(1,3)] assms(4,5) by auto
  ultimately have "u' = u" using False assms(4) by (intro determined) simp_all
  then show ?thesis using u u' by simp
qed

end

section \<open>The operations on sequence numbers\<close>

lemma ath_tx_update_baw_refines:
  assumes "baw_inv tid" "unat (ATH_BA_INDEX (ucast (seq_start tid)) sq) < 128"
  shows "\<exists>tid'. ath_tx_update_baw tid sq = Some tid' \<and> baw_inv tid' \<and>
           baw_abs tid' = win_complete (unat (ATH_BA_INDEX (ucast (seq_start tid)) sq)) (baw_abs tid) \<and>
           unat (seq_start tid') = (unat (seq_start tid) + length (takeWhile Not
              ((baw_abs tid)[unat (ATH_BA_INDEX (ucast (seq_start tid)) sq) := False]))) mod 4096"
proof -
  let ?i = "unat (ATH_BA_INDEX (ucast (seq_start tid)) sq)"
  let ?t = "tid\<lparr>tx_buf_bitmap := TX_BUF_BITMAP_CLR (tx_buf_bitmap tid) (baw_slot tid ?i)\<rparr>"
  have upd: "ath_tx_update_baw tid sq = baw_slide ?t"
    by (simp add: ath_tx_update_baw_def Let_def baw_index_slot)
  note clr = baw_clear_refines [OF assms]
  from baw_slide_refines [OF clr(1)] obtain s h where
    "baw_slide ?t = Some (?t\<lparr>seq_start := s, baw_head := h\<rparr>)"
    "baw_inv (?t\<lparr>seq_start := s, baw_head := h\<rparr>)"
    "baw_abs (?t\<lparr>seq_start := s, baw_head := h\<rparr>) = dropWhile Not (baw_abs ?t)"
    "unat s = (unat (seq_start ?t) + length (takeWhile Not (baw_abs ?t))) mod 4096"
    by blast
  then show ?thesis using clr(2) by (simp add: upd win_complete_def)
qed

lemma outstanding_index:
  assumes "baw_inv tid" "unat sq \<in> baw_outstanding tid"
  shows "unat (ATH_BA_INDEX (ucast (seq_start tid)) sq) < baw_len tid"
proof -
  from assms(2) obtain i where i: "i < baw_len tid" "unat sq = (unat (seq_start tid) + i) mod 4096"
    by (auto simp: baw_outstanding_def win_seqs_def win_idx_def)
  then have "unat sq < 4096" by simp
  then have "(unat (seq_start tid) + unat (ATH_BA_INDEX (ucast (seq_start tid)) sq)) mod 4096
      = (unat (seq_start tid) + i) mod 4096"
    using assms(1) i(2) unat_ATH_BA_INDEX [of "ucast (seq_start tid)" sq] by (simp add: baw_inv_def)
  moreover have "unat (ATH_BA_INDEX (ucast (seq_start tid)) sq) < 4096"
    by (simp add: ATH_BA_INDEX_def mask_simps)
  moreover have "i < 4096" using i(1) baw_len_lt [of tid] by simp
  ultimately show ?thesis using i(1) by (auto dest: add_mod_inj)
qed

lemma update_baw_outstanding:
  assumes "baw_inv tid" "unat sq < 4096" "unat (ATH_BA_INDEX (ucast (seq_start tid)) sq) < 128"
  shows "\<exists>tid'. ath_tx_update_baw tid sq = Some tid' \<and> baw_inv tid' \<and>
           baw_outstanding tid' = baw_outstanding tid - {unat sq}"
proof -
  let ?i = "unat (ATH_BA_INDEX (ucast (seq_start tid)) sq)"
  from ath_tx_update_baw_refines [OF assms(1,3)] obtain tid' where
    t: "ath_tx_update_baw tid sq = Some tid'" "baw_inv tid'"
      "baw_abs tid' = win_complete ?i (baw_abs tid)"
      "unat (seq_start tid') = (unat (seq_start tid) +
         length (takeWhile Not ((baw_abs tid)[?i := False]))) mod 4096"
    by blast
  have "(unat (seq_start tid) + ?i) mod 4096 = unat sq"
    using assms(1,2) unat_ATH_BA_INDEX [of "ucast (seq_start tid)" sq] by (simp add: baw_inv_def)
  then have "baw_outstanding tid' = baw_outstanding tid - {unat sq}"
    using assms(3) baw_len_lt [of tid]
    by (simp add: baw_outstanding_def t(3,4) win_complete_def win_seqs_slide win_seqs_complete)
  with t(1,2) show ?thesis by blast
qed

lemma baw_outstanding_empty_iff: "baw_outstanding tid = {} \<longleftrightarrow> True \<notin> set (baw_abs tid)"
  by (auto simp: baw_outstanding_def win_seqs_def win_idx_def in_set_conv_nth)

text \<open>
  The window never starts with a completed frame: either nothing is outstanding and the ring is
  empty, or the start of the window is itself outstanding.
\<close>

definition baw_tight :: "ath_atx_tid \<Rightarrow> bool" where
  "baw_tight tid \<longleftrightarrow> (if baw_outstanding tid = {} then baw_head tid = baw_tail tid
                      else unat (seq_start tid) \<in> baw_outstanding tid)"

lemma dropWhile_Not_tight:
  assumes "baw_inv tid" "baw_abs tid = dropWhile Not w"
  shows "baw_tight tid"
proof (cases "baw_abs tid")
  case Nil
  then have "baw_outstanding tid = {}" "baw_len tid = 0"
    using length_baw_abs [of tid] by (simp_all add: baw_outstanding_empty_iff)
  then show ?thesis using assms(1) by (simp add: baw_tight_def baw_len_0_iff)
next
  case (Cons b v)
  then have b: "b" using assms(2) by (metis (full_types) dropWhile_eq_Cons_conv)
  then have "unat (seq_start tid) \<in> baw_outstanding tid"
    using Cons assms(1) by (auto simp: baw_outstanding_def win_seqs_def win_idx_Cons baw_inv_def)
  then show ?thesis by (auto simp: baw_tight_def)
qed

section \<open>The window and its end determine the state\<close>

text \<open>The sequence number behind the newest frame of the window.\<close>

definition baw_end :: "ath_atx_tid \<Rightarrow> nat" where
  "baw_end tid = (unat (seq_start tid) + baw_len tid) mod 4096"

text \<open>What no completion changes: the end of the window and everything that is not the window.\<close>

definition baw_fixed :: "ath_atx_tid \<Rightarrow> nat \<times> ath_atx_tid" where
  "baw_fixed tid = (baw_end tid, tid\<lparr>seq_start := 0, baw_head := 0, tx_buf_bitmap := []\<rparr>)"

lemma slide_end: "(s + length (takeWhile P w) + length (dropWhile P w)) mod n = (s + length w) mod n"
  by (metis add.assoc length_append takeWhile_dropWhile_id)

lemma update_baw_fixed:
  assumes "baw_inv tid" "unat (ATH_BA_INDEX (ucast (seq_start tid)) sq) < 128" "ath_tx_update_baw tid sq = Some tid'"
  shows "baw_tight tid' \<and> baw_fixed tid' = baw_fixed tid"
proof -
  let ?i = "unat (ATH_BA_INDEX (ucast (seq_start tid)) sq)"
  let ?t = "tid\<lparr>tx_buf_bitmap := TX_BUF_BITMAP_CLR (tx_buf_bitmap tid) (baw_slot tid ?i)\<rparr>"
  note clr = baw_clear_refines [OF assms(1,2)]
  have "baw_slide ?t = Some tid'"
    using assms(3) by (simp add: ath_tx_update_baw_def Let_def baw_index_slot)
  then obtain s h where t': "tid' = ?t\<lparr>seq_start := s, baw_head := h\<rparr>" "baw_inv tid'"
    "baw_abs tid' = dropWhile Not (baw_abs ?t)"
    "unat s = (unat (seq_start ?t) + length (takeWhile Not (baw_abs ?t))) mod 4096"
    using baw_slide_refines [OF clr(1)] by auto
  have "baw_len tid' = length (dropWhile Not (baw_abs ?t))" using arg_cong [OF t'(3), of length] by simp
  then have "baw_end tid' = (unat (seq_start tid) + length (takeWhile Not (baw_abs ?t)) + length (dropWhile Not (baw_abs ?t))) mod 4096"
    using t'(4) by (simp add: baw_end_def t'(1) mod_add_left_eq)
  then have "baw_end tid' = baw_end tid"
    unfolding slide_end by (simp add: baw_end_def)
  then show ?thesis
    using dropWhile_Not_tight [OF t'(2,3)] by (simp add: baw_fixed_def t'(1))
qed

lemma baw_abs_iff:
  assumes "i < baw_len tid"
  shows "baw_abs tid ! i \<longleftrightarrow> (unat (seq_start tid) + i) mod 4096 \<in> baw_outstanding tid"
proof -
  have "j = i" if "j < baw_len tid" "(unat (seq_start tid) + i) mod 4096 = (unat (seq_start tid) + j) mod 4096" for j
    using add_mod_inj [OF that(2)] that(1) assms baw_len_lt [of tid] by simp
  then have "(unat (seq_start tid) + i) mod 4096 \<in> baw_outstanding tid \<Longrightarrow> baw_abs tid ! i"
    by (simp add: baw_outstanding_def win_seqs_def win_idx_def image_iff) blast
  moreover have "baw_abs tid ! i \<Longrightarrow> (unat (seq_start tid) + i) mod 4096 \<in> baw_outstanding tid"
    using assms by (simp add: baw_outstanding_def win_seqs_def win_idx_def)
  ultimately show ?thesis by blast
qed

lemma window_start_unique:
  assumes "baw_inv t" "baw_inv u" "baw_tight t" "baw_tight u" "baw_end t = baw_end u" "baw_outstanding t = baw_outstanding u"
  shows "baw_len t = baw_len u \<and> seq_start t = seq_start u"
proof (cases "baw_outstanding t = {}")
  case True
  then have l: "baw_len t = 0" "baw_len u = 0"
    using assms by (simp_all add: baw_tight_def baw_len_0_iff)
  then have "unat (seq_start t) = unat (seq_start u)"
    using assms(1,2,5) by (simp add: baw_end_def baw_inv_def)
  then show ?thesis using l by (auto intro: unat_eqI)
next
  case False
  have idx: "\<exists>i<baw_len b. unat (seq_start a) = (unat (seq_start b) + i) mod 4096 \<and> i + baw_len a = baw_len b"
    if "baw_tight a" "baw_outstanding a = baw_outstanding b" "baw_outstanding a \<noteq> {}" "baw_end a = baw_end b" for a b
  proof -
    have "unat (seq_start a) \<in> baw_outstanding b" using that by (simp add: baw_tight_def)
    then obtain i where i: "i < baw_len b" "unat (seq_start a) = (unat (seq_start b) + i) mod 4096"
      by (auto simp: baw_outstanding_def win_seqs_def win_idx_def)
    have "(unat (seq_start b) + (i + baw_len a)) mod 4096 = (unat (seq_start b) + baw_len b) mod 4096"
      using that(4) unfolding baw_end_def i(2) by (simp only: mod_add_left_eq add.assoc)
    from add_mod_inj [OF this] have "i + baw_len a = baw_len b"
      using i(1) baw_len_lt [of a] baw_len_lt [of b] by simp
    then show ?thesis using i by blast
  qed
  obtain i where i: "i + baw_len t = baw_len u" "unat (seq_start t) = (unat (seq_start u) + i) mod 4096"
    using idx [OF assms(3,6) False assms(5)] by blast
  obtain j where "j + baw_len u = baw_len t"
    using idx [OF assms(4) assms(6) [symmetric] _ assms(5) [symmetric]] False assms(6) by auto
  then have "i = 0" "baw_len t = baw_len u" using i(1) by simp_all
  then show ?thesis using i(2) assms(2) by (auto simp: baw_inv_def intro: unat_eqI)
qed

lemma baw_slot_onto:
  assumes "unat (baw_head tid) < 128" "n < 128"
  shows "\<exists>i<128. unat (baw_slot tid i) = n"
  using assms add_ring_distance [of "unat (baw_head tid)" 128 n]
  by (intro exI [of _ "(n + 128 - unat (baw_head tid)) mod 128"]) (simp add: unat_baw_slot)

lemma bitmap_determined:
  assumes "baw_inv t" "baw_inv u" "baw_head t = baw_head u" "baw_len t = baw_len u" "baw_abs t = baw_abs u"
  shows "tx_buf_bitmap t = tx_buf_bitmap u"
proof (rule nth_equalityI)
  have l: "length (tx_buf_bitmap t) = 4" "length (tx_buf_bitmap u) = 4" "unat (baw_head t) < 128"
    using assms(1,2) by (simp_all add: baw_inv_def)
  then show "length (tx_buf_bitmap t) = length (tx_buf_bitmap u)" by simp
  have slot: "baw_slot t i = baw_slot u i" for i using assms(3) by (simp add: baw_slot_def)
  have "baw_bit t i = baw_bit u i" if "i < 128" for i
    using that assms(1,2,4) nth_baw_abs [of i t] nth_baw_abs [of i u] assms(5)
    by (cases "i < baw_len t") (auto simp: baw_inv_def)
  then have bits: "bit (tx_buf_bitmap t ! (n div 32)) (n mod 32) = bit (tx_buf_bitmap u ! (n div 32)) (n mod 32)" if "n < 128" for n
    using baw_slot_onto [OF l(3) that] by (auto simp: baw_bit_def slot TX_BUF_BITMAP_IS_SET_bit)
  show "tx_buf_bitmap t ! k = tx_buf_bitmap u ! k" if "k < length (tx_buf_bitmap t)" for k
  proof (rule bit_word_eqI)
    fix j assume "j < LENGTH(32)"
    then show "bit (tx_buf_bitmap t ! k) j = bit (tx_buf_bitmap u ! k) j"
      using bits [of "32 * k + j"] that l(1) by simp
  qed
qed

lemma window_determined:
  assumes "baw_inv t" "baw_inv u" "baw_tight t" "baw_tight u" "baw_fixed t = baw_fixed u" "baw_outstanding t = baw_outstanding u"
  shows "t = u"
proof -
  have f: "baw_end t = baw_end u"
    "t\<lparr>seq_start := 0, baw_head := 0, tx_buf_bitmap := []\<rparr> = u\<lparr>seq_start := 0, baw_head := 0, tx_buf_bitmap := []\<rparr>"
    using assms(5) by (simp_all add: baw_fixed_def)
  note s = window_start_unique [OF assms(1-4) f(1) assms(6)]
  have tl: "baw_tail t = baw_tail u" using f(2) by (cases t; cases u) simp
  have "(unat (baw_head t) + baw_len t) mod 128 = (unat (baw_head u) + baw_len t) mod 128"
    using unat_baw_slot [of t "baw_len t"] unat_baw_slot [of u "baw_len u"] baw_slot_len [OF assms(1)] baw_slot_len [OF assms(2)] s tl
    by simp
  then have "unat (baw_head t) = unat (baw_head u)"
    using assms(1,2) add_mod_inj [of "baw_len t" "unat (baw_head t)" 128 "unat (baw_head u)"] by (simp add: add.commute baw_inv_def)
  then have h: "baw_head t = baw_head u" by (rule unat_eqI)
  have "baw_abs t = baw_abs u"
    using s assms(6) by (intro nth_equalityI) (simp_all add: baw_abs_iff)
  then have "tx_buf_bitmap t = tx_buf_bitmap u"
    using bitmap_determined [OF assms(1,2) h] s by blast
  then show ?thesis using f(2) h s by (cases t; cases u) simp
qed

interpretation baw: ack_window baw_inv baw_outstanding baw_tight baw_fixed ath_tx_update_baw
proof unfold_locales
  fix tid and sq :: u32
  assume inv: "baw_inv tid" and sq: "unat sq \<in> baw_outstanding tid"
  have "unat sq < 4096" using sq by (auto simp: baw_outstanding_def win_seqs_def)
  then show "\<exists>t'. ath_tx_update_baw tid sq = Some t' \<and> baw_inv t' \<and>
      baw_outstanding t' = baw_outstanding tid - {unat sq} \<and> baw_tight t' \<and> baw_fixed t' = baw_fixed tid"
    using update_baw_outstanding [OF inv] update_baw_fixed [OF inv] outstanding_index [OF inv sq] baw_len_lt [of tid]
    by (meson less_trans)
qed (rule window_determined)

lemma ath_tx_addto_baw_refines:
  assumes "baw_inv tid" "\<not> bf_isretried bf"
    "unat (ATH_BA_INDEX (ucast (seq_start tid)) (SEQNO_FROM_BF_SEQNO (bf_seqno bf))) < 127"
  shows "baw_inv (ath_tx_addto_baw tid bf)"
    "baw_abs (ath_tx_addto_baw tid bf) = win_add
      (unat (ATH_BA_INDEX (ucast (seq_start tid)) (SEQNO_FROM_BF_SEQNO (bf_seqno bf)))) (baw_abs tid)"
    "seq_start (ath_tx_addto_baw tid bf) = seq_start tid"
proof -
  let ?x = "ATH_BA_INDEX (ucast (seq_start tid)) (SEQNO_FROM_BF_SEQNO (bf_seqno bf))"
  let ?bm = "TX_BUF_BITMAP_SET (tx_buf_bitmap tid) (baw_slot tid (unat ?x))"
  have "ath_tx_addto_baw tid bf =
      (if baw_len tid \<le> unat ?x
       then tid\<lparr>tx_buf_bitmap := ?bm, baw_tail := INCR_baw (baw_slot tid (unat ?x))\<rparr>
       else tid\<lparr>tx_buf_bitmap := ?bm\<rparr>)"
    using assms(2)
    by (simp add: ath_tx_addto_baw_def Let_def baw_index_slot baw_len_def word_le_nat_alt)
  with baw_add_refines [OF assms(1,3)] show
    "baw_inv (ath_tx_addto_baw tid bf)"
    "baw_abs (ath_tx_addto_baw tid bf) = win_add (unat ?x) (baw_abs tid)"
    "seq_start (ath_tx_addto_baw tid bf) = seq_start tid"
    by simp_all
qed


section \<open>Flushing the window\<close>

lemma baw_step_swap: "tid\<lparr>baw_head := INCR_baw (baw_head tid), seq_start := INCR_seq (seq_start tid)\<rparr>
    = baw_step tid"
  by (cases tid) (simp add: baw_step_def)

lemma baw_flush_step:
  assumes "baw_inv tid" "baw_head tid \<noteq> baw_tail tid"
  shows "\<exists>tid'. baw_flush tid = baw_flush tid' \<and> baw_inv tid' \<and>
           baw_abs tid = baw_bit tid 0 # baw_abs tid' \<and>
           incomp tid' = (if baw_bit tid 0 then incomp tid + 1 else incomp tid) \<and>
           flag tid' = (if baw_bit tid 0 then flag tid OR TID_CLEANUP_INPROGRES else flag tid) \<and>
           buf_q tid' = buf_q tid \<and> paused tid' = paused tid \<and> baw_tail tid' = baw_tail tid \<and>
           unat (seq_start tid') = (unat (seq_start tid) + 1) mod 4096"
proof -
  have h: "TX_BUF_BITMAP_IS_SET (tx_buf_bitmap tid) (baw_head tid) = baw_bit tid 0"
    by (simp add: baw_bit_def baw_slot_0 [OF assms(1)])
  show ?thesis
  proof (cases "baw_bit tid 0")
    case False
    then have "baw_flush tid = baw_flush (baw_step tid)"
      using assms(2) h False by (subst baw_flush.simps) (simp add: baw_step_swap)
    then show ?thesis
      using False baw_step_inv [OF assms False] baw_step_abs [OF assms]
      by (intro exI [of _ "baw_step tid"]) (simp add: baw_step_def unat_INCR_seq)
  next
    case True
    let ?c = "tid\<lparr>tx_buf_bitmap := TX_BUF_BITMAP_CLR (tx_buf_bitmap tid) (baw_slot tid 0)\<rparr>"
    let ?d = "?c\<lparr>incomp := incomp tid + 1, flag := flag tid OR TID_CLEANUP_INPROGRES\<rparr>"
    have c: "baw_inv ?c" "baw_abs ?c = (baw_abs tid)[0 := False]"
      using baw_clear_refines [OF assms(1), of 0] by simp_all
    have bit: "baw_bit ?d = baw_bit ?c" "baw_len ?d = baw_len ?c"
      by (simp_all add: baw_bit_def baw_len_def baw_slot_def fun_eq_iff)
    have d: "baw_inv ?d" "baw_abs ?d = (baw_abs tid)[0 := False]" "baw_head ?d \<noteq> baw_tail ?d"
      using c assms(2) bit by (simp_all add: baw_inv_def baw_abs_def)
    have "\<not> baw_bit ?c 0"
      using assms(1) baw_clear_bit [of tid 0 0] by (simp add: baw_inv_def)
    then have nb: "\<not> baw_bit ?d 0" by (simp add: bit)
    have "baw_flush tid = baw_flush (baw_step ?d)"
      using assms(2) h True baw_slot_0 [OF assms(1)] baw_step_swap [of ?d]
      by (subst baw_flush.simps) (cases tid, simp)
    moreover have "(baw_abs tid)[0 := False] = False # baw_abs (baw_step ?d)"
      using baw_step_abs [OF d(1,3)] d(2) nb by simp
    then have "baw_abs tid = baw_bit tid 0 # baw_abs (baw_step ?d)"
      using baw_step_abs [OF assms] True by simp
    ultimately show ?thesis
      using True baw_step_inv [OF d(1,3) nb]
      by (intro exI [of _ "baw_step ?d"]) (simp add: baw_step_def unat_INCR_seq)
  qed
qed

lemma baw_flush_refines:
  assumes "baw_inv tid"
  shows "\<exists>tid'. baw_flush tid = Some tid' \<and> baw_inv tid' \<and> baw_abs tid' = [] \<and>
           baw_head tid' = baw_tail tid \<and> baw_tail tid' = baw_tail tid \<and>
           buf_q tid' = buf_q tid \<and> paused tid' = paused tid \<and>
           incomp tid' = incomp tid + of_nat (length (filter id (baw_abs tid))) \<and>
           flag tid' = (if True \<in> set (baw_abs tid) then flag tid OR TID_CLEANUP_INPROGRES
                        else flag tid) \<and>
           unat (seq_start tid') = (unat (seq_start tid) + baw_len tid) mod 4096"
  using assms
proof (induction "baw_len tid" arbitrary: tid)
  case 0
  then have "baw_head tid = baw_tail tid" "baw_abs tid = []"
    by (simp_all add: baw_len_0_iff [symmetric] baw_abs_def)
  then show ?case
    using 0 by (subst baw_flush.simps) (simp add: baw_inv_def)
next
  case (Suc n)
  have ne: "baw_head tid \<noteq> baw_tail tid"
    using Suc.hyps(2) Suc.prems by (simp add: baw_len_0_iff [symmetric])
  from baw_flush_step [OF Suc.prems ne] obtain t1 where
    t1: "baw_flush tid = baw_flush t1" "baw_inv t1" "baw_abs tid = baw_bit tid 0 # baw_abs t1"
      "incomp t1 = (if baw_bit tid 0 then incomp tid + 1 else incomp tid)"
      "flag t1 = (if baw_bit tid 0 then flag tid OR TID_CLEANUP_INPROGRES else flag tid)"
      "buf_q t1 = buf_q tid" "paused t1 = paused tid" "baw_tail t1 = baw_tail tid"
      "unat (seq_start t1) = (unat (seq_start tid) + 1) mod 4096"
    by blast
  have len: "baw_len tid = Suc (baw_len t1)"
    using arg_cong [OF t1(3), of length] by simp
  then have n: "n = baw_len t1" using Suc.hyps(2) by simp
  from Suc.hyps(1) [OF n t1(2)] obtain t2 where
    t2: "baw_flush t1 = Some t2" "baw_inv t2" "baw_abs t2 = []" "baw_head t2 = baw_tail t1"
      "baw_tail t2 = baw_tail t1" "buf_q t2 = buf_q t1" "paused t2 = paused t1"
      "incomp t2 = incomp t1 + of_nat (length (filter id (baw_abs t1)))"
      "flag t2 = (if True \<in> set (baw_abs t1) then flag t1 OR TID_CLEANUP_INPROGRES else flag t1)"
      "unat (seq_start t2) = (unat (seq_start t1) + baw_len t1) mod 4096"
    by blast
  have "unat (seq_start t2) = (unat (seq_start tid) + baw_len tid) mod 4096"
    by (simp add: t2(10) t1(9) len mod_simps)
  then show ?case
    using t1(1,4-8) t2(1-9) by (auto simp: t1(3) or.assoc)
qed

lemma win_idx_card: "card (win_idx w) = length (filter id w)"
  by (simp add: win_idx_def length_filter_conv_card)

lemma win_seqs_card:
  assumes "length w \<le> 4096"
  shows "card (win_seqs st w) = length (filter id w)"
proof -
  have "inj_on (\<lambda>i. (st + i) mod 4096) (win_idx w)"
    using assms by (intro inj_onI) (auto simp: win_idx_def intro: add_mod_inj)
  then show ?thesis by (simp add: win_seqs_def card_image win_idx_card)
qed

lemma baw_outstanding_card: "card (baw_outstanding tid) = length (filter id (baw_abs tid))"
  using baw_len_lt [of tid] by (simp add: baw_outstanding_def win_seqs_card)

section \<open>Properties of the block-ack window\<close>

lemma BAW_WITHIN_index:
  assumes "BAW_WITHIN st sz sq" "unat sz < 128"
  shows "unat (ATH_BA_INDEX (ucast st) sq) < unat sz" "unat (ATH_BA_INDEX (ucast st) sq) < 127"
  using assms by (simp_all add: BAW_WITHIN_def ATH_BA_INDEX_def word_less_nat_alt)

lemma baw_len_win_add:
  assumes "baw_abs tid' = win_add i (baw_abs tid)" "i < n" "baw_len tid \<le> n"
  shows "baw_len tid' \<le> n"
  using assms(2,3) length_baw_abs [of tid'] by (simp add: assms(1) win_add_def split: if_splits)

lemma addto_baw_outstanding:
  assumes "baw_inv tid" "unat (baw_size tid) < 128" "baw_len tid \<le> unat (baw_size tid)"
    and "BAW_WITHIN (seq_start tid) (baw_size tid) (SEQNO_FROM_BF_SEQNO (bf_seqno bf))"
  shows "baw_inv (ath_tx_addto_baw tid bf) \<and>
    baw_outstanding (ath_tx_addto_baw tid bf) =
      (if bf_isretried bf then baw_outstanding tid
       else insert (unat (bf_seqno bf) div 16) (baw_outstanding tid)) \<and>
    seq_start (ath_tx_addto_baw tid bf) = seq_start tid \<and>
    baw_len (ath_tx_addto_baw tid bf) \<le> unat (baw_size tid)"
proof (cases "bf_isretried bf")
  case True
  then show ?thesis using assms(1,3) by (simp add: ath_tx_addto_baw_def)
next
  case False
  let ?sq = "SEQNO_FROM_BF_SEQNO (bf_seqno bf)"
  let ?i = "unat (ATH_BA_INDEX (ucast (seq_start tid)) ?sq)"
  note i = BAW_WITHIN_index [OF assms(4,2)]
  note add = ath_tx_addto_baw_refines [OF assms(1) False i(2)]
  have "(unat (seq_start tid) + ?i) mod 4096 = unat ?sq"
    using assms(1) SEQNO_lt [of "bf_seqno bf"] unat_ATH_BA_INDEX [of "ucast (seq_start tid)" ?sq]
    by (simp add: baw_inv_def)
  then have "baw_outstanding (ath_tx_addto_baw tid bf) = insert (unat ?sq) (baw_outstanding tid)"
    by (simp add: baw_outstanding_def add(2,3) win_seqs_add)
  then show ?thesis
    using False add(1,3) baw_len_win_add [OF add(2) i(1) assms(3)]
    by (simp add: unat_SEQNO_FROM_BF_SEQNO)
qed

text \<open>
  Property C1. Handing a frame inside the block-ack window to the hardware
  (\<^verbatim>\<open>ath_tx_addto_baw\<close>) keeps the ring well-formed, adds exactly the frame's sequence number
  to the outstanding ones, does not move the window start, and never lets the window grow
  beyond \<^verbatim>\<open>baw_size\<close>. A retried frame, already recorded, changes nothing.
\<close>

theorem ath_tx_addto_baw_window:
  assumes "baw_inv tid" "unat (baw_size tid) < 128" "baw_len tid \<le> unat (baw_size tid)"
    and "BAW_WITHIN (seq_start tid) (baw_size tid) (SEQNO_FROM_BF_SEQNO (bf_seqno bf))"
  shows "baw_inv (ath_tx_addto_baw tid bf) \<and>
    baw_outstanding (ath_tx_addto_baw tid bf) =
      (if bf_isretried bf then baw_outstanding tid
       else insert (unat (bf_seqno bf) div 16) (baw_outstanding tid)) \<and>
    seq_start (ath_tx_addto_baw tid bf) = seq_start tid \<and>
    baw_len (ath_tx_addto_baw tid bf) \<le> unat (baw_size tid)"
  by (rule addto_baw_outstanding [OF assms])

text \<open>
  Property C2. Completing an outstanding frame (\<^verbatim>\<open>ath_tx_update_baw\<close>) always returns, keeps
  the ring well-formed, removes exactly that sequence number, and leaves the window start on
  the oldest frame still outstanding (or the ring empty): acknowledged frames at the front
  are slid over, whatever the order of the completions.
\<close>

theorem ath_tx_update_baw_window:
  assumes "baw_inv tid" "unat sq \<in> baw_outstanding tid"
  shows "\<exists>tid'. ath_tx_update_baw tid sq = Some tid' \<and> baw_inv tid' \<and>
           baw_outstanding tid' = baw_outstanding tid - {unat sq} \<and> baw_tight tid'"
proof -
  have "unat (ATH_BA_INDEX (ucast (seq_start tid)) sq) < 128"
    using outstanding_index [OF assms] baw_len_lt [of tid] by linarith
  from ath_tx_update_baw_refines [OF assms(1) this] obtain tid' where
    "ath_tx_update_baw tid sq = Some tid'" "baw_inv tid'" "baw_tight tid'"
    by (auto simp: win_complete_def intro: dropWhile_Not_tight)
  with baw.complete_law [OF assms] show ?thesis by auto
qed

text \<open>
  Property C6. Outstanding frames that are completed one by one always leave the same TID, bit for bit,
  whatever the order: exactly they are gone, the window starts at the oldest frame left, and its end has not
  moved. When none is left the ring is empty and the window starts behind the newest frame it ever had.
\<close>

theorem ath_tx_update_baw_any_order:
  assumes "baw_inv tid" "distinct sqs" "sqs \<noteq> []" "unat ` set sqs \<subseteq> baw_outstanding tid"
    and "distinct sqs'" "set sqs' = set sqs"
  shows "\<exists>tid'. foldM ath_tx_update_baw tid sqs = Some tid' \<and> foldM ath_tx_update_baw tid sqs' = Some tid' \<and>
    baw_inv tid' \<and> baw_outstanding tid' = baw_outstanding tid - unat ` set sqs \<and> baw_tail tid' = baw_tail tid \<and>
    (if unat ` set sqs = baw_outstanding tid
     then baw_head tid' = baw_tail tid \<and> unat (seq_start tid') = (unat (seq_start tid) + baw_len tid) mod 4096
     else unat (seq_start tid') \<in> baw_outstanding tid')"
proof -
  obtain u where u: "foldM ath_tx_update_baw tid sqs = Some u" "baw_inv u" "baw_tight u" "baw_fixed u = baw_fixed tid"
    "baw_outstanding u = baw_outstanding tid - unat ` set sqs"
    using baw.complete_all [OF assms(1,2,4)] assms(3) by auto
  have e: "baw_end u = baw_end tid" and tl: "baw_tail u = baw_tail tid"
    using u(4) unfolding baw_fixed_def by (cases u; cases tid; simp)+
  have "baw_head u = baw_tail tid \<and> unat (seq_start u) = (unat (seq_start tid) + baw_len tid) mod 4096"
    if "baw_outstanding u = {}"
  proof -
    have "baw_head u = baw_tail u" using that u(3) by (simp add: baw_tight_def)
    then show ?thesis using e tl u(2) baw_len_0_iff [OF u(2)] by (simp add: baw_end_def baw_inv_def)
  qed
  moreover have "unat (seq_start u) \<in> baw_outstanding u" if "baw_outstanding u \<noteq> {}"
    using that u(3) by (simp add: baw_tight_def)
  moreover have "foldM ath_tx_update_baw tid sqs' = Some u"
    using baw.complete_order [OF assms(1,2,5,6,4)] u(1) by simp
  ultimately show ?thesis using u assms(4) tl by (intro exI [of _ u]) auto
qed

text \<open>
  The flush loop of \<^verbatim>\<open>ath_tgt_tx_cleanup\<close> terminates, empties the ring, counts
  every outstanding frame in \<^verbatim>\<open>incomp\<close>, marks the TID as being cleaned up exactly if there was
  one, and leaves the software queue alone.
\<close>

theorem baw_flush_counts:
  assumes "baw_inv tid"
  shows "\<exists>tid'. baw_flush tid = Some tid' \<and> baw_inv tid' \<and> baw_outstanding tid' = {} \<and>
           baw_head tid' = baw_tail tid' \<and> buf_q tid' = buf_q tid \<and>
           incomp tid' = incomp tid + of_nat (card (baw_outstanding tid)) \<and>
           flag tid' = (if baw_outstanding tid = {} then flag tid
                        else flag tid OR TID_CLEANUP_INPROGRES)"
  using baw_flush_refines [OF assms]
  by (auto simp: baw_outstanding_card baw_outstanding_empty_iff)

section \<open>Initialisation\<close>

lemma bit_TX_BUF_BITMAP_CLR_nth:
  assumes "length bm = 4" "i < 128" "k < 4" "j < 32"
  shows "bit (TX_BUF_BITMAP_CLR bm (of_nat i) ! k) j \<longleftrightarrow> i \<noteq> 32 * k + j \<and> bit (bm ! k) j"
proof -
  have u: "unat (of_nat n :: u32) = n" if "n < 128" for n
    using that by (simp add: unat_of_nat)
  have n: "32 * k + j < 128" using assms by linarith
  have "TX_BUF_BITMAP_IS_SET (TX_BUF_BITMAP_CLR bm (of_nat i)) (of_nat (32 * k + j)) \<longleftrightarrow>
      (of_nat i :: u32) \<noteq> of_nat (32 * k + j) \<and> TX_BUF_BITMAP_IS_SET bm (of_nat (32 * k + j))"
    using assms u [of i] by (intro TX_BUF_BITMAP_IS_SET_CLR) simp
  then show ?thesis
    using u [of i] u [OF n] assms
    by (simp only: TX_BUF_BITMAP_IS_SET_bit unat_eq_iff) simp
qed

lemma clear_all_bits:
  assumes "length bm = 4" "n \<le> 128"
  defines "bm' \<equiv> fold (\<lambda>i bm. TX_BUF_BITMAP_CLR bm (of_nat i)) [0..<n] bm"
  shows "length bm' = 4" "\<And>k j. k < 4 \<Longrightarrow> j < 32 \<Longrightarrow> 32 * k + j < n \<Longrightarrow> \<not> bit (bm' ! k) j"
  using assms(2) unfolding bm'_def
proof (induction n)
  case 0
  { case 1 then show ?case using assms(1) by simp }
  { case 2 then show ?case by simp }
next
  case (Suc n)
  note IH1 = Suc.IH(1) and IH2 = Suc.IH(2)
  { case 1 then show ?case using IH1 by simp }
  { case 2 then show ?case
      using IH1 IH2 [of k j] bit_TX_BUF_BITMAP_CLR_nth [of _ n k j] by (auto simp: less_Suc_eq) }
qed

text \<open>
  \<^verbatim>\<open>owl_tgt_tid_init\<close> establishes the window invariant on any bitmap contents:
  nothing outstanding, all 128 bits clear, the software queue empty.
\<close>

theorem owl_tgt_tid_init_window:
  assumes "length (tx_buf_bitmap tid) = 4"
  shows "baw_inv (owl_tgt_tid_init tid) \<and> baw_outstanding (owl_tgt_tid_init tid) = {} \<and>
         tx_buf_bitmap (owl_tgt_tid_init tid) = replicate 4 0 \<and> buf_q (owl_tgt_tid_init tid) = [] \<and>
         unat (baw_size (owl_tgt_tid_init tid)) = WME_MAX_BA"
proof -
  let ?t = "owl_tgt_tid_init tid"
  have c: "length (tx_buf_bitmap ?t) = 4" "\<And>k j. k < 4 \<Longrightarrow> j < 32 \<Longrightarrow> \<not> bit (tx_buf_bitmap ?t ! k) j"
    using clear_all_bits [OF assms, of 128] by (simp_all add: owl_tgt_tid_init_def Let_def)
  have bm: "tx_buf_bitmap ?t = replicate 4 0"
    using c by (intro nth_equalityI) (auto intro: u32_zeroI)
  have r: "seq_start ?t = 0" "baw_head ?t = 0" "baw_tail ?t = 0" "buf_q ?t = []"
    "baw_size ?t = of_nat WME_MAX_BA"
    by (simp_all add: owl_tgt_tid_init_def Let_def)
  have bits: "\<not> baw_bit ?t i" for i
    using baw_slot_lt [of ?t i]
    by (simp add: baw_bit_def bm TX_BUF_BITMAP_IS_SET_bit less_mult_imp_div_less)
  have "baw_abs ?t = []" by (simp add: baw_abs_def baw_len_def r)
  then show ?thesis
    using bits c(1) bm r by (simp add: baw_inv_def baw_outstanding_empty_iff)
qed


section \<open>A window across the wrap-around\<close>

text \<open>
  A TID whose window starts at sequence number 4094 and ring index 126, with the frames
  4094 and 0 outstanding and 4095 already acknowledged, and a fresh frame with number 2.
\<close>

definition tid_wrap :: ath_atx_tid where
  "tid_wrap = \<lparr>tidno = 0, seq_start = 4094, seq_next = 2, baw_size = 64, baw_head = 126,
     baw_tail = 1, tx_buf_bitmap = [1, 0, 0, 0x40000000], buf_q = [], paused = 0, sched = 0,
     flag = 2, incomp = 0\<rparr>"

definition bf_seq2 :: ath_tx_buf where
  "bf_seq2 = \<lparr>bf_comp = None, bf_pktlen = 100, bf_seqno = 0x20, bf_keytype = 0, bf_ndelim = 0,
     bf_nframes = 0, bf_tidno = 0, bf_al = 0, bf_rcs = [], bf_txq = 0, bf_retries = 0,
     bf_ismcast = False, bf_isaggr = False, bf_isretried = False, bf_node = None,
     bf_skbhead = [], bf_next = None, bf_endpt = 0, bf_cookie = 0,
     bf_hdrlen = 0, bf_keyix = 0, bf_atype = 0, bf_protmode = 0, bf_shpream = False, bf_skb = None,
     bf_lastds = 0, bf_flags = 0, vap_index = 0\<rparr>"

lemma tid_wrap_sel [simp]:
  "seq_start tid_wrap = 4094" "baw_size tid_wrap = 64" "incomp tid_wrap = 0" "flag tid_wrap = 2"
  "bf_seqno bf_seq2 = 0x20" "\<not> bf_isretried bf_seq2"
  by (simp_all add: tid_wrap_def bf_seq2_def)

lemma tid_wrap_inv: "baw_inv tid_wrap"
  by code_simp

lemma tid_wrap_abs: "baw_abs tid_wrap = [True, False, True]"
  by code_simp

lemma tid_wrap_outstanding: "baw_outstanding tid_wrap = {4094, 0}"
proof -
  have "win_idx [True, False, True] = {0, 2}" by (simp add: win_idx_Cons) auto
  then show ?thesis by (simp add: baw_outstanding_def win_seqs_def tid_wrap_abs)
qed

theorem ath_tx_addto_baw_window_witness:
  "baw_outstanding (ath_tx_addto_baw tid_wrap bf_seq2) = {2, 4094, 0} \<and>
   baw_len (ath_tx_addto_baw tid_wrap bf_seq2) \<le> 64"
proof -
  have "BAW_WITHIN (seq_start tid_wrap) (baw_size tid_wrap) (SEQNO_FROM_BF_SEQNO (bf_seqno bf_seq2))"
    "baw_len tid_wrap \<le> unat (baw_size tid_wrap)"
    by code_simp+
  with ath_tx_addto_baw_window [OF tid_wrap_inv, of bf_seq2] show ?thesis
    by (simp add: tid_wrap_outstanding)
qed

theorem ath_tx_update_baw_window_witness:
  "\<exists>tid'. ath_tx_update_baw tid_wrap 4094 = Some tid' \<and> baw_outstanding tid' = {0} \<and>
          unat (seq_start tid') = 0"
  using ath_tx_update_baw_window [OF tid_wrap_inv, of 4094]
  by (auto simp: tid_wrap_outstanding baw_tight_def)

theorem ath_tx_update_baw_any_order_witness:
  "\<exists>tid'. foldM ath_tx_update_baw tid_wrap [0, 4094] = Some tid' \<and> foldM ath_tx_update_baw tid_wrap [4094, 0] = Some tid' \<and>
    baw_outstanding tid' = {} \<and> baw_head tid' = 1 \<and> unat (seq_start tid') = 1"
proof -
  have "baw_len tid_wrap = 3" "baw_tail tid_wrap = 1" by code_simp+
  then show ?thesis
    using ath_tx_update_baw_any_order [OF tid_wrap_inv, of "[0, 4094]" "[4094, 0]"]
    by (auto simp: tid_wrap_outstanding insert_commute)
qed

theorem baw_flush_counts_witness:
  "\<exists>tid'. baw_flush tid_wrap = Some tid' \<and> incomp tid' = 2 \<and> flag tid' = 3 \<and>
          baw_outstanding tid' = {}"
  using baw_flush_counts [OF tid_wrap_inv]
  by (auto simp: tid_wrap_outstanding)

theorem owl_tgt_tid_init_window_witness:
  "baw_inv (owl_tgt_tid_init tid_wrap) \<and> baw_outstanding (owl_tgt_tid_init tid_wrap) = {}"
  using owl_tgt_tid_init_window [of tid_wrap] by (simp add: tid_wrap_def)

end
