(* ===== verification/Owl_State.thy ===== *)
theory Owl_State
  imports Baw Ratectrl
begin

text \<open>
  The state of the driver's transmit path (\<^verbatim>\<open>if_athvar.h\<close>, \<^verbatim>\<open>ah_desc.h\<close>, \<^verbatim>\<open>wlan_hdr.h\<close>): the part of
  \<^verbatim>\<open>ath_softc_tgt\<close> that \<^verbatim>\<open>if_owl.c\<close> works on. The transmit buffers and their descriptors
  are maps from the index of the buffer; a buffer has one descriptor (\<^verbatim>\<open>ATH_TXDESC\<close> is 1), so a pointer to a
  descriptor is the index of the buffer that owns it, and a frame occupies one DMA segment. A TID is
  named by its node and its number. The bytes of a frame, from its 802.11 header on, are kept by the
  number of the network buffer.

  What the driver asks of the hardware layer, of HTC and of WMI is appended to the list \<open>acts\<close>, in the
  order of the calls; what the hardware answers is a function of what was asked so far, the record
  \<open>owl_env\<close>.
\<close>

section \<open>Descriptors and rate tables of the hardware layer\<close>

record ath_tx_status =
  ts_seqnum :: u16
  ts_status :: u8
  ts_flags :: u8
  ts_rate :: u8
  ts_shortretry :: u8
  ts_longretry :: u8
  ts_ba_low :: u32
  ts_ba_high :: u32

abbreviation (input) HAL_TXERR_XRETRY :: u8 where "HAL_TXERR_XRETRY \<equiv> 0x01"
abbreviation (input) HAL_TXERR_FILT :: u8 where "HAL_TXERR_FILT \<equiv> 0x02"
abbreviation (input) HAL_TXERR_FIFO :: u8 where "HAL_TXERR_FIFO \<equiv> 0x04"
abbreviation (input) HAL_TXERR_XTXOP :: u8 where "HAL_TXERR_XTXOP \<equiv> 0x08"
abbreviation (input) HAL_TXERR_TIMER_EXPIRED :: u8 where "HAL_TXERR_TIMER_EXPIRED \<equiv> 0x10"
abbreviation (input) HAL_TX_BA :: u8 where "HAL_TX_BA \<equiv> 0x01"
abbreviation (input) HAL_TX_DESC_CFG_ERR :: u8 where "HAL_TX_DESC_CFG_ERR \<equiv> 0x04"
abbreviation (input) HAL_TX_DATA_UNDERRUN :: u8 where "HAL_TX_DATA_UNDERRUN \<equiv> 0x08"
abbreviation (input) HAL_TX_DELIM_UNDERRUN :: u8 where "HAL_TX_DELIM_UNDERRUN \<equiv> 0x10"
abbreviation (input) HAL_TX_SW_FILTERED :: u8 where "HAL_TX_SW_FILTERED \<equiv> 0x80"
abbreviation (input) HAL_TXSTAT_ALTRATE :: u8 where "HAL_TXSTAT_ALTRATE \<equiv> 0x80"
abbreviation (input) HAL_TXDESC_CLRDMASK :: u16 where "HAL_TXDESC_CLRDMASK \<equiv> 0x0001"
abbreviation (input) HAL_TXDESC_NOACK :: u16 where "HAL_TXDESC_NOACK \<equiv> 0x0002"
abbreviation (input) HAL_TXDESC_RTSENA :: u16 where "HAL_TXDESC_RTSENA \<equiv> 0x0004"
abbreviation (input) HAL_TXDESC_CTSENA :: u16 where "HAL_TXDESC_CTSENA \<equiv> 0x0008"
abbreviation (input) HAL_TXDESC_INTREQ :: u16 where "HAL_TXDESC_INTREQ \<equiv> 0x0010"
abbreviation (input) HAL_TXKEYIX_INVALID :: u8 where "HAL_TXKEYIX_INVALID \<equiv> 0xFF"
abbreviation (input) HAL_KEY_TYPE_CLEAR :: u8 where "HAL_KEY_TYPE_CLEAR \<equiv> 0"
abbreviation (input) HAL_KEY_TYPE_WEP :: u8 where "HAL_KEY_TYPE_WEP \<equiv> 1"
abbreviation (input) HAL_KEY_TYPE_AES :: u8 where "HAL_KEY_TYPE_AES \<equiv> 2"
abbreviation (input) HAL_KEY_TYPE_TKIP :: u8 where "HAL_KEY_TYPE_TKIP \<equiv> 3"
abbreviation (input) HAL_KEY_TYPE_WAPI :: u8 where "HAL_KEY_TYPE_WAPI \<equiv> 4"
abbreviation (input) IEEE80211_T_CCK :: u8 where "IEEE80211_T_CCK \<equiv> 0"
abbreviation (input) IEEE80211_T_OFDM :: u8 where "IEEE80211_T_OFDM \<equiv> 2"
abbreviation (input) IEEE80211_T_HT :: u8 where "IEEE80211_T_HT \<equiv> 4"
abbreviation (input) IEEE80211_PROT_CTSONLY :: u8 where "IEEE80211_PROT_CTSONLY \<equiv> 1"
abbreviation (input) IEEE80211_PROT_RTSCTS :: u8 where "IEEE80211_PROT_RTSCTS \<equiv> 2"
abbreviation (input) HAL_INT_SWBA :: u32 where "HAL_INT_SWBA \<equiv> 0x00010000"

record hal_rate =
  hr_phy :: u8
  hr_rateKbps :: u32
  hr_rateCode :: u8
  hr_shortPreamble :: u8
  hr_controlRate :: u8
  hr_lpAckDuration :: u16
  hr_spAckDuration :: u16

record HAL_11N_RATE_SERIES =
  Tries :: u32
  Rate :: u32
  PktDuration :: u32
  ChSel :: u32
  RateFlags :: u32

datatype HAL_STATUS = HAL_OK | HAL_EINPROGRESS

section \<open>Calls of the driver\<close>

text \<open>
  Accesses to the registers of the MAC and of the chip, and the calls that only the code outside the
  transmit path makes (\<^verbatim>\<open>if_ath.c\<close>).
\<close>

datatype io_op = Mac_Rd u32 | Mac_Wr u32 u32 | Soc_Rd u32 | Soc_Wr u32 u32 | Udelay nat

datatype tqueue = sc_rxtq | sc_txtq | sc_bmisstq | sc_fataltq

datatype drv_act =
    Io io_op
  | Hal_isInterruptPending
  | Hal_getPendingInterrupts
  | Hal_getTsf64
  | Hal_numTxPending u32
  | Hal_updateTxTrigLevel bool
  | Hal_abortTxDma
  | Hal_stopPcuReceive
  | Hal_setRxFilter u32
  | Hal_stopDmaReceive
  | Hal_enableReceive
  | Hal_setRxDP nat
  | Hal_setupRxDesc nat u32
  | Hal_procRxDescFast nat nat
  | Hal_detach
  | Wmi_Reply u16 u16 "u8 list"
  | Htc_Send u8 nbufref
  | Tq_Schedule tqueue
  | Os_Setup_Intr
  | Clock_Init
  | Rx_Pool_Free nbufref

datatype owl_act =
    Dma_Map bufref "nbufref option"
  | Dma_Unmap bufref
  | Hal_set11nTxDesc bufref u16 u8 u8 u8 u16
  | Hal_setupTxDesc bufref int int u8 u32 u32 u32 u32 u16 u32 u32
  | Hal_fillKeyTxDesc bufref u8
  | Hal_fillTxDesc bufref u32 bool bool
  | Hal_clr11nAggr bufref
  | Hal_set11nBurstDuration bufref
  | Hal_set11nVirtualMoreFrag bufref
  | Hal_set11nAggrFirst bufref u16 u8
  | Hal_set11nAggrMiddle bufref u8
  | Hal_set11nAggrLast bufref
  | Hal_set11nRateScenario bufref u32 u32 "HAL_11N_RATE_SERIES list" u32
  | Hal_procTxDesc bufref
  | Hal_readTxe
  | Hal_setTxDP u32 bufref
  | Hal_startTxDma u32
  | Hal_stopTxDma u32
  | Hal_setInterrupts u32
  | Htc_ReturnBuffers u8 nbufref
  | Wmi_Event u16 "u8 list"
  | Drv drv_act

record owl_env =
  procTxDesc :: "owl_act list \<Rightarrow> bufref \<Rightarrow> HAL_STATUS \<times> ath_tx_status"
  ioread_txe :: "owl_act list \<Rightarrow> u32"
  uptime :: "owl_act list \<Rightarrow> u32"
  merlin :: bool
  junk_prate :: bool

section \<open>Queues, nodes, interfaces\<close>

type_synonym tidref = "nat \<times> nat"

record ath_txq =
  axq_qnum :: u32
  axq_link :: "bufref option"
  axq_q :: "bufref list"
  axq_depth :: u32
  axq_linkbuf :: "bufref option"
  axq_tidq :: "tidref list"

record ath_node_target =
  ni_nodeindex :: u8
  ni_vapindex :: u8
  ni_maxampdu :: u16
  ni_txseqmgmt :: u16
  ni_iv16 :: u16
  ni_iv32 :: u32
  ni_vap :: "nat option"
  an_valid :: bool
  an_rcnode :: "atheros_node option"

record ath_vap_target =
  iv_rtsthreshold :: u16
  av_minrateidx :: "u8 list"

record ieee80211com_target =
  ic_ampdu_limit :: u32
  ic_enable_coex :: bool
  ic_tx_chainmask :: u8

record txstatus_entry =
  txs_cookie :: u8
  txs_rate :: u8
  txs_flags :: u8

record WMI_TXSTATUS_EVENT =
  txs_cnt :: u8
  txstatus :: "txstatus_entry list"

abbreviation (input) HTC_MAX_TX_STATUS :: u8 where "HTC_MAX_TX_STATUS \<equiv> 12"
abbreviation (input) ATH_NODE_MAX :: nat where "ATH_NODE_MAX \<equiv> 8"
abbreviation (input) ATH_VAP_MAX :: nat where "ATH_VAP_MAX \<equiv> 2"
abbreviation (input) WME_NUM_TID :: nat where "WME_NUM_TID \<equiv> 8"
abbreviation (input) HAL_NUM_TX_QUEUES :: nat where "HAL_NUM_TX_QUEUES \<equiv> 10"

datatype tx_counter =
    ast_tx_xretries | ast_tx_fifoerr | ast_tx_filtered | ast_tx_timer_exp | ast_tx_shortretry
  | ast_tx_longretry | ast_tx_altrate | ast_tx_protect | tx_tgt | tx_qnull | txaggr_nframes
  | tx_compunaggr | tx_compaggr | txaggr_retries | txaggr_single | txaggr_compgood
  | txaggr_compretries | txaggr_prepends | txaggr_data_urun | txaggr_delim_urun | txaggr_errlast
  | txaggr_longretries | txaggr_babug | txaggr_compxretry | txaggr_shortretries | txaggr_timer_exp
  | txunaggr_compretries | txaggr_filtered | txaggr_fifo | txaggr_xtxop | txaggr_desc_cfgerr
  | txunaggr_errlast | txunaggr_xretry | txaggr_xretries | tx_stopfiltered | tx_noskbs | tx_nobufs
  | tx_bars | txbar_xretry | txbar_compretries | txbar_errlast

section \<open>The softc\<close>

record owl =
  sc_tx_draining :: bool
  sc_tx_stats :: "tx_counter \<Rightarrow> u32"
  sc_currates :: "hal_rate list"
  sc_curmode :: nat
  sc_protrix :: u8
  sc_imask :: u32
  sc_txbuf_held :: bufref
  sc_txbuf :: "bufref list"
  sc_txqsetup :: u8
  sc_txq :: "nat \<Rightarrow> ath_txq"
  sc_ac2q :: "nat \<Rightarrow> nat"
  sc_cabq :: nat
  sc_sta :: "nat \<Rightarrow> ath_node_target"
  sc_vap :: "nat \<Rightarrow> ath_vap_target"
  sc_ic :: ieee80211com_target
  sc_rc :: atheros_softc
  tx_status :: "WMI_TXSTATUS_EVENT list"
  an_tid :: "tidref \<Rightarrow> ath_atx_tid"
  txbufs :: "bufref \<Rightarrow> ath_tx_buf"
  ds_link :: "bufref \<Rightarrow> bufref option"
  ds_txstat :: "bufref \<Rightarrow> ath_tx_status"
  frames :: "nbufref \<Rightarrow> u8 list"
  acts :: "owl_act list"

section \<open>Access\<close>

definition upd_buf :: "bufref \<Rightarrow> (ath_tx_buf \<Rightarrow> ath_tx_buf) \<Rightarrow> 'a owl_scheme \<Rightarrow> 'a owl_scheme" where
  "upd_buf b f s = s\<lparr>txbufs := (txbufs s)(b := f (txbufs s b))\<rparr>"

definition upd_tid :: "tidref \<Rightarrow> (ath_atx_tid \<Rightarrow> ath_atx_tid) \<Rightarrow> 'a owl_scheme \<Rightarrow> 'a owl_scheme" where
  "upd_tid t f s = s\<lparr>an_tid := (an_tid s)(t := f (an_tid s t))\<rparr>"

definition upd_txq :: "nat \<Rightarrow> (ath_txq \<Rightarrow> ath_txq) \<Rightarrow> 'a owl_scheme \<Rightarrow> 'a owl_scheme" where
  "upd_txq q f s = s\<lparr>sc_txq := (sc_txq s)(q := f (sc_txq s q))\<rparr>"

definition upd_node :: "nat \<Rightarrow> (ath_node_target \<Rightarrow> ath_node_target) \<Rightarrow> 'a owl_scheme \<Rightarrow> 'a owl_scheme" where
  "upd_node n f s = s\<lparr>sc_sta := (sc_sta s)(n := f (sc_sta s n))\<rparr>"

definition set_link :: "bufref \<Rightarrow> bufref option \<Rightarrow> 'a owl_scheme \<Rightarrow> 'a owl_scheme" where
  "set_link b l s = s\<lparr>ds_link := (ds_link s)(b := l)\<rparr>"

definition emit :: "owl_act \<Rightarrow> 'a owl_scheme \<Rightarrow> 'a owl_scheme" where
  "emit a s = s\<lparr>acts := acts s @ [a]\<rparr>"

definition statsn :: "tx_counter \<Rightarrow> u32 \<Rightarrow> 'a owl_scheme \<Rightarrow> 'a owl_scheme" where
  "statsn x n s = s\<lparr>sc_tx_stats := (sc_tx_stats s)(x := sc_tx_stats s x + n)\<rparr>"

abbreviation stats :: "tx_counter \<Rightarrow> 'a owl_scheme \<Rightarrow> 'a owl_scheme" where
  "stats x \<equiv> statsn x 1"

definition set_frame_byte :: "nbufref \<Rightarrow> nat \<Rightarrow> u8 \<Rightarrow> 'a owl_scheme \<Rightarrow> 'a owl_scheme option" where
  "set_frame_byte skb i x s = do {
     f \<leftarrow> set_at (frames s skb) i x;
     Some (s\<lparr>frames := (frames s)(skb := f)\<rparr>) }"

definition TID_TO_WME_AC :: "nat \<Rightarrow> nat" where
  "TID_TO_WME_AC tid = (if tid = 0 \<or> tid = 3 then 0 else if tid = 1 \<or> tid = 2 then 1
     else if tid = 4 \<or> tid = 5 then 2 else 3)"

definition TID_TO_ACTXQ :: "'a owl_scheme \<Rightarrow> nat \<Rightarrow> nat" where
  "TID_TO_ACTXQ s tid = sc_ac2q s (TID_TO_WME_AC tid)"

text \<open>The TID of a buffer: NULL has no TIDs.\<close>

definition ATH_AN_2_TID :: "ath_tx_buf \<Rightarrow> tidref option" where
  "ATH_AN_2_TID bf = do {
     n \<leftarrow> bf_node bf;
     require (unat (bf_tidno bf) < WME_NUM_TID);
     Some (n, unat (bf_tidno bf)) }"

text \<open>The rate table of the current mode (\<^verbatim>\<open>ar5416AttachRateTables\<close>): mode 1 is 11NG, mode 0 is 11NA.\<close>

definition hwRateTable :: "owl_env \<Rightarrow> nat \<Rightarrow> RATE_TABLE_11N option" where
  "hwRateTable env mode =
     (if mode = 1 then Some (if merlin env then ar5416_11ngRateTable_merlin else ar5416_11ngRateTable_k2)
      else if mode = 0 \<and> merlin env then Some ar5416_11naRateTable else None)"

definition ath_get_minrateidx :: "'a owl_scheme \<Rightarrow> nat \<Rightarrow> u8" where
  "ath_get_minrateidx s v = (let avp = sc_vap s v in
     if sc_curmode s = 1 then av_minrateidx avp ! 0
     else if sc_curmode s = 0 then av_minrateidx avp ! 1 else 0)"

end
