(* ===== verification/Owl_Buf.thy ===== *)
theory Owl_Buf
  imports Owl_State
begin

text \<open>
  Transmit buffers (\<^verbatim>\<open>if_owl.c\<close>, \<^verbatim>\<open>ah.c\<close>): the descriptor of a frame, the exchange with the held
  buffer, release, the rate scenario with its durations, the status reported to the host, statistics
  and the report to the rate control.
\<close>

section \<open>Durations\<close>

datatype HAL_CAPABILITY_TYPE = HAL_CAP_TSF_ADJUST | HAL_CAP_BSSIDMASK | HAL_CAP_VEOL | HAL_CAP_HT

record HAL_CAPABILITIES =
  halBssIdMaskSupport :: bool
  halVEOLSupport :: bool

text \<open>The status codes are those of \<^verbatim>\<open>ah.h\<close>: 0 for success, 12 invalid parameter, 13 not supported.\<close>

definition ath_hal_getcapability :: "HAL_CAPABILITIES \<Rightarrow> HAL_CAPABILITY_TYPE \<Rightarrow> nat" where
  "ath_hal_getcapability caps t = (case t of
       HAL_CAP_TSF_ADJUST \<Rightarrow> 13
     | HAL_CAP_BSSIDMASK \<Rightarrow> if halBssIdMaskSupport caps then 0 else 13
     | HAL_CAP_VEOL \<Rightarrow> if halVEOLSupport caps then 0 else 13
     | HAL_CAP_HT \<Rightarrow> 12)"

text \<open>No code of the repository sets the two capabilities.\<close>

definition caps0 :: HAL_CAPABILITIES where
  "caps0 = \<lparr>halBssIdMaskSupport = False, halVEOLSupport = False\<rparr>"

definition ath_hal_computetxtime :: "hal_rate list \<Rightarrow> u32 \<Rightarrow> nat \<Rightarrow> bool \<Rightarrow> u16 option" where
  "ath_hal_computetxtime rt frameLen rateix shpream = do {
     r \<leftarrow> at rt rateix;
     let kbps = hr_rateKbps r;
     let noHT = (ath_hal_getcapability caps0 HAL_CAP_HT \<noteq> 0);
     if kbps = 0 then Some 0
     else if hr_phy r = IEEE80211_T_CCK then do {
       let phyTime = (144 + 48 :: u32);
       let phyTime = (if shpream \<and> hr_shortPreamble r \<noteq> 0 then drop_bit 1 phyTime else phyTime);
       let numBits = push_bit 3 frameLen;
       let txTime = phyTime + (numBits * 1000) div kbps;
       Some (ucast (if noHT then txTime + 10 else txTime)) }
     else if hr_phy r = IEEE80211_T_OFDM then do {
       let bitsPerSymbol = (kbps * 4) div 1000;
       require (bitsPerSymbol \<noteq> 0);
       let numBits = 22 + push_bit 3 frameLen;
       let numSymbols = (numBits + (bitsPerSymbol - 1)) div bitsPerSymbol;
       let txTime = 20 + numSymbols * 4;
       Some (ucast (if noHT then txTime + 16 else txTime)) }
     else Some 0 }"

definition bits_per_symbol :: "(u32 \<times> u32) list" where
  "bits_per_symbol =
     [(26, 54), (52, 108), (78, 162), (104, 216), (156, 324), (208, 432), (234, 486), (260, 540),
      (52, 108), (104, 216), (156, 324), (208, 432), (312, 648), (416, 864), (468, 972), (520, 1080)]"

definition SYMBOL_TIME :: "u32 \<Rightarrow> u32" where
  "SYMBOL_TIME ns = push_bit 2 ns"

definition SYMBOL_TIME_HALFGI :: "u32 \<Rightarrow> u32" where
  "SYMBOL_TIME_HALFGI ns = (ns * 18 + 4) div 5"

text \<open>An HT rate code has bit 7 set; then the lowest four bits are the MCS.\<close>

definition ath_pkt_duration :: "hal_rate list \<Rightarrow> u8 \<Rightarrow> ath_tx_buf \<Rightarrow> bool \<Rightarrow> bool \<Rightarrow> u32 option" where
  "ath_pkt_duration rt rix bf width half_gi = do {
     let pktlen = (ucast (if bf_isaggr bf then bf_al bf else bf_pktlen bf) :: u32);
     r \<leftarrow> at rt (unat rix);
     let rc = hr_rateCode r;
     if rc AND 0x80 = 0 then map_option ucast (ath_hal_computetxtime rt pktlen (unat rix) (bf_shpream bf))
     else do {
       let nbits = push_bit 3 pktlen + 22;
       (b20, b40) \<leftarrow> at bits_per_symbol (unat (rc AND 0x0F));
       let nsymbits = (if width then b40 else b20);
       let nsymbols = (nbits + nsymbits - 1) div nsymbits;
       let duration = (if half_gi then SYMBOL_TIME_HALFGI nsymbols else SYMBOL_TIME nsymbols);
       let streams = ucast (drop_bit 3 (rc AND 0x78)) + 1;
       Some (duration + (8 + 8 + 4 + 8 + 4 + 4 * streams)) } }"

section \<open>The descriptor of a frame\<close>

definition skb_first :: "bufref \<Rightarrow> 'a owl_scheme \<Rightarrow> nbufref option" where
  "skb_first b s = (case bf_skbhead (txbufs s b) of [] \<Rightarrow> None | x # _ \<Rightarrow> Some x)"

definition ath_dma_map :: "bufref \<Rightarrow> 'a owl_scheme \<Rightarrow> 'a owl_scheme" where
  "ath_dma_map b s = emit (Dma_Map b (skb_first b s)) s"

definition ath_dma_unmap :: "bufref \<Rightarrow> 'a owl_scheme \<Rightarrow> 'a owl_scheme" where
  "ath_dma_unmap b s = emit (Dma_Unmap b) s"

text \<open>One segment: it is the first and the last, the link is cleared and the last descriptor is the own one.\<close>

definition ath_filltxdesc :: "bufref \<Rightarrow> 'a owl_scheme \<Rightarrow> 'a owl_scheme" where
  "ath_filltxdesc b s =
     (let s = upd_buf b (\<lambda>bf. bf\<lparr>bf_lastds := b\<rparr>) (set_link b None s);
          len = (case skb_first b s of None \<Rightarrow> 0 | Some skb \<Rightarrow> length (frames s skb))
      in emit (Hal_fillTxDesc b (of_nat len) True True) s)"

definition ath_tx_tgt_setds :: "bufref \<Rightarrow> 'a owl_scheme \<Rightarrow> 'a owl_scheme" where
  "ath_tx_tgt_setds b s =
     (let p = bf_protmode (txbufs s b);
          s = (if p = IEEE80211_PROT_RTSCTS then upd_buf b (\<lambda>bf. bf\<lparr>bf_flags := bf_flags bf OR HAL_TXDESC_RTSENA\<rparr>) s
               else if p = IEEE80211_PROT_CTSONLY then upd_buf b (\<lambda>bf. bf\<lparr>bf_flags := bf_flags bf OR HAL_TXDESC_CTSENA\<rparr>) s
               else s);
          bf = txbufs s b
      in ath_filltxdesc b
           (emit (Hal_set11nTxDesc b (bf_pktlen bf) (bf_atype bf) (bf_keyix bf) (bf_keytype bf)
                    (bf_flags bf OR HAL_TXDESC_INTREQ)) s))"

text \<open>
  One buffer is always held back, as the hardware may still read the link of the last descriptor it
  completed. For a retry, the frame moves to the buffer held so far; the completed one is held next.
\<close>

definition toggle_copy :: "ath_tx_buf \<Rightarrow> nbufref \<Rightarrow> ath_tx_buf \<Rightarrow> ath_tx_buf" where
  "toggle_copy bf skb tmp = bf\<lparr>bf_skbhead := [skb], bf_lastds := bf_lastds tmp, vap_index := vap_index tmp\<rparr>"

definition toggle_clear :: "ath_tx_buf \<Rightarrow> ath_tx_buf" where
  "toggle_clear bf = bf\<lparr>bf_skbhead := [], bf_isaggr := False, bf_next := None, bf_skb := None, bf_node := None,
     bf_flags := 0, bf_comp := None, bf_retries := 0, bf_nframes := 0\<rparr>"

definition ath_buf_toggle_retry :: "bufref \<Rightarrow> 'a owl_scheme \<Rightarrow> (bufref \<times> 'a owl_scheme) option" where
  "ath_buf_toggle_retry b s = do {
     let tmp = sc_txbuf_held s;
     let s = ath_dma_unmap b s;
     (case bf_skbhead (txbufs s b) of
        [skb] \<Rightarrow> do {
          let s = upd_buf tmp (toggle_copy (txbufs s b) skb) s;
          let s = upd_buf b toggle_clear s;
          let s = ath_tx_tgt_setds tmp (ath_dma_map tmp s);
          Some (tmp, s\<lparr>sc_txbuf_held := b\<rparr>) }
      | _ \<Rightarrow> None) }"

definition ath_buf_toggle :: "bufref \<Rightarrow> 'a owl_scheme \<Rightarrow> bufref \<times> 'a owl_scheme" where
  "ath_buf_toggle b s = (sc_txbuf_held s, s\<lparr>sc_txbuf_held := b\<rparr>)"

section \<open>Release\<close>

fun return_skbs :: "u8 \<Rightarrow> nbufref list \<Rightarrow> 'a owl_scheme \<Rightarrow> 'a owl_scheme" where
  "return_skbs endpt [] s = s"
| "return_skbs endpt (k # ks) s = return_skbs endpt ks (emit (Htc_ReturnBuffers endpt k) s)"

definition ath_tgt_skb_free :: "bufref \<Rightarrow> 'a owl_scheme \<Rightarrow> 'a owl_scheme" where
  "ath_tgt_skb_free b s = (let bf = txbufs s b in
     upd_buf b (\<lambda>bf. bf\<lparr>bf_skbhead := []\<rparr>) (return_skbs (bf_endpt bf) (bf_skbhead bf) s))"

definition ath_buf_comp :: "bufref \<Rightarrow> 'a owl_scheme \<Rightarrow> 'a owl_scheme" where
  "ath_buf_comp b s =
     (let s = ath_tgt_skb_free b (ath_dma_unmap b s);
          s = upd_buf b (\<lambda>bf. bf\<lparr>bf_skb := None, bf_node := None\<rparr>) s;
          (h, s) = ath_buf_toggle b s
      in s\<lparr>sc_txbuf := sc_txbuf s @ [h]\<rparr>)"

definition clr_aggr :: "bufref \<Rightarrow> 'a owl_scheme \<Rightarrow> 'a owl_scheme" where
  "clr_aggr b s = emit (Hal_set11nVirtualMoreFrag b) (emit (Hal_set11nBurstDuration b) (emit (Hal_clr11nAggr b) s))"

definition ath_tx_freebuf :: "bufref \<Rightarrow> 'a owl_scheme \<Rightarrow> 'a owl_scheme" where
  "ath_tx_freebuf b s =
     (let s = ath_tgt_skb_free b (ath_dma_unmap b (clr_aggr b s));
          s = upd_buf b (\<lambda>bf. bf\<lparr>bf_skb := None, bf_comp := None, bf_node := None, bf_next := None\<rparr>) s;
          (h, s) = ath_buf_toggle b s;
          s = upd_buf h (\<lambda>bf. bf\<lparr>bf_retries := 0, bf_isretried := False\<rparr>) s
      in s\<lparr>sc_txbuf := sc_txbuf s @ [h]\<rparr>)"

text \<open>Allocation clears \<^verbatim>\<open>bf_state\<close>; without a free buffer the firmware asserts.\<close>

definition clear_state :: "ath_tx_buf \<Rightarrow> ath_tx_buf" where
  "clear_state bf = bf\<lparr>bf_comp := None, bf_pktlen := 0, bf_seqno := 0, bf_keytype := 0, bf_ndelim := 0, bf_nframes := 0,
     bf_tidno := 0, bf_al := 0, bf_rcs := replicate 4 \<lparr>rcs_rix = 0, rcs_tries = 0, rcs_tx_chainmask = 0, rcs_flags = 0,
     rcs_max4msframelen = 0, rcs_txrateKbps = 0\<rparr>, bf_txq := 0, bf_retries := 0, bf_ismcast := False, bf_isaggr := False,
     bf_isretried := False, bf_hdrlen := 0, bf_keyix := 0, bf_atype := 0, bf_protmode := 0, bf_shpream := False\<rparr>"

definition ath_tx_buf_alloc :: "'a owl_scheme \<Rightarrow> (bufref \<times> 'a owl_scheme) option" where
  "ath_tx_buf_alloc s = (case sc_txbuf s of
     [] \<Rightarrow> None
   | b # bs \<Rightarrow> Some (b, upd_buf b clear_state (s\<lparr>sc_txbuf := bs\<rparr>)))"

end
