(* ===== verification/Owl_Rate.thy ===== *)
theory Owl_Rate
  imports Owl_Buf
begin

text \<open>
  Rates and status of the driver's transmit path (\<^verbatim>\<open>if_owl.c\<close>, \<^verbatim>\<open>ratectrl_11n_ln.c\<close>): the rate
  scenario written to the descriptor, the choice of the rates of a frame, the transmit status collected
  for the host, the statistics and the report to the rate control.
\<close>

section \<open>The rate scenario of a descriptor\<close>

abbreviation (input) HAL_RATESERIES_RTS_CTS :: u32 where "HAL_RATESERIES_RTS_CTS \<equiv> 1"
abbreviation (input) HAL_RATESERIES_2040 :: u32 where "HAL_RATESERIES_2040 \<equiv> 2"
abbreviation (input) HAL_RATESERIES_HALFGI :: u32 where "HAL_RATESERIES_HALFGI \<equiv> 4"
abbreviation (input) HAL_RATESERIES_STBC :: u32 where "HAL_RATESERIES_STBC \<equiv> 8"

text \<open>The last series that has tries gives the control rate; without one, the protection rate does.\<close>

definition last_tried :: "ath_rc_series list \<Rightarrow> ath_rc_series option" where
  "last_tried rcs = (case rev (filter (\<lambda>r. rcs_tries r \<noteq> 0) rcs) of [] \<Rightarrow> None | r # _ \<Rightarrow> Some r)"

definition rate_code :: "hal_rate list \<Rightarrow> u8 \<Rightarrow> bool \<Rightarrow> u32 option" where
  "rate_code rt rix shpream = do {
     r \<leftarrow> at rt (unat rix);
     Some (ucast (hr_rateCode r OR (if shpream then hr_shortPreamble r else 0))) }"

definition rate_series :: "owl_env \<Rightarrow> 'a owl_scheme \<Rightarrow> ath_tx_buf \<Rightarrow> bool \<Rightarrow> ath_rc_series \<Rightarrow> HAL_11N_RATE_SERIES option" where
  "rate_series env s bf prot_mode rc =
     (if rcs_tries rc = 0 then Some \<lparr>Tries = 0, Rate = 0, PktDuration = 0, ChSel = 0, RateFlags = 0\<rparr>
      else do {
        code \<leftarrow> rate_code (sc_currates s) (rcs_rix rc) (bf_shpream bf);
        let fl = rcs_flags rc;
        dur \<leftarrow> ath_pkt_duration (sc_currates s) (rcs_rix rc) bf (fl AND ATH_RC_CW40_FLAG \<noteq> 0) (fl AND ATH_RC_HT40_SGI_FLAG \<noteq> 0);
        let flags = (if fl AND ATH_RC_RTSCTS_FLAG \<noteq> 0 then HAL_RATESERIES_RTS_CTS else 0) OR
                    (if fl AND ATH_RC_CW40_FLAG \<noteq> 0 then HAL_RATESERIES_2040 else 0) OR
                    (if fl AND ATH_RC_HT40_SGI_FLAG \<noteq> 0 then HAL_RATESERIES_HALFGI else 0) OR
                    (if merlin env \<and> fl AND ATH_RC_TX_STBC_FLAG \<noteq> 0 then HAL_RATESERIES_STBC else 0) OR
                    (if prot_mode \<or> fl AND ATH_RC_DS_FLAG \<noteq> 0 then HAL_RATESERIES_RTS_CTS else 0);
        Some \<lparr>Tries = ucast (rcs_tries rc), Rate = code, PktDuration = dur, ChSel = ucast (ic_tx_chainmask (sc_ic s)),
              RateFlags = flags\<rparr> })"

definition ath_buf_set_rate :: "owl_env \<Rightarrow> bufref \<Rightarrow> 'a owl_scheme \<Rightarrow> 'a owl_scheme option" where
  "ath_buf_set_rate env b s = do {
     let bf = txbufs s b;
     let rt = sc_currates s;
     rc0 \<leftarrow> at (bf_rcs bf) 0;
     r0 \<leftarrow> at rt (unat (rcs_rix rc0));
     prot \<leftarrow> at rt (unat (sc_protrix s));
     let flags = bf_flags bf AND (HAL_TXDESC_RTSENA OR HAL_TXDESC_CTSENA);
     let prot_mode = (bf_protmode bf \<noteq> 0 \<and> (hr_phy r0 = IEEE80211_T_OFDM \<or> hr_phy r0 = IEEE80211_T_HT) \<and>
                      bf_flags bf AND HAL_TXDESC_NOACK = 0);
     (flags, cix) \<leftarrow>
       (if prot_mode then Some (flags, hr_controlRate prot)
        else do {
          let flags = (if ath_hal_getcapability caps0 HAL_CAP_HT \<noteq> 0 \<and> \<not> bf_ismcast bf then HAL_TXDESC_RTSENA else flags);
          (case last_tried (take 4 (bf_rcs bf)) of
             None \<Rightarrow> Some (flags, hr_controlRate prot)
           | Some rc \<Rightarrow> do { r \<leftarrow> at rt (unat (rcs_rix rc)); Some (flags, hr_controlRate r) }) });
     require (4 \<le> length (bf_rcs bf));
     series \<leftarrow> foldM (\<lambda>xs rc. do { x \<leftarrow> rate_series env s bf prot_mode rc; Some (xs @ [x]) }) [] (take 4 (bf_rcs bf));
     rtsctsrate \<leftarrow> rate_code rt cix (bf_shpream bf);
     Some (emit (Hal_set11nRateScenario b 1 rtsctsrate series (ucast flags)) s) }"

section \<open>The rates of a frame\<close>

definition rc0_series :: "ath_rc_series list" where
  "rc0_series = replicate 4 \<lparr>rcs_rix = 0, rcs_tries = 0, rcs_tx_chainmask = 0, rcs_flags = 0, rcs_max4msframelen = 0,
     rcs_txrateKbps = 0\<rparr>"

text \<open>The arguments of the caller are ignored: 10 tries over 4 rates, one step down each, probing allowed.\<close>

definition ath_tgt_rate_findrate :: "owl_env \<Rightarrow> nat \<Rightarrow> ath_rc_series list \<Rightarrow> 'a owl_scheme \<Rightarrow>
    (ath_rc_series list \<times> bool \<times> 'a owl_scheme) option" where
  "ath_tgt_rate_findrate env n series s = do {
     rt \<leftarrow> hwRateTable env (sc_curmode s);
     rcn \<leftarrow> an_rcnode (sc_sta s n);
     (series, isProbe, asc, rcn) \<leftarrow>
       ath_rate_findrate_11n (merlin env) (sc_curmode s = 1) rt (uptime env (acts s)) 10 4 1 ATH_RC_PROBE_ALLOWED
         series (sc_rc s) rcn;
     Some (series, isProbe, upd_node n (\<lambda>an. an\<lparr>an_rcnode := Some rcn\<rparr>) (s\<lparr>sc_rc := asc\<rparr>)) }"

section \<open>Transmit status for the host\<close>

definition ath_tx_status_clear :: "'a owl_scheme \<Rightarrow> 'a owl_scheme" where
  "ath_tx_status_clear s = s\<lparr>tx_status := map (\<lambda>t. t\<lparr>txs_cnt := 0\<rparr>) (tx_status s)\<rparr>"

definition ath_tx_status_get :: "'a owl_scheme \<Rightarrow> nat option" where
  "ath_tx_status_get s = (case filter (\<lambda>i. txs_cnt (tx_status s ! i) < HTC_MAX_TX_STATUS) [0..<length (tx_status s)] of
     [] \<Rightarrow> None | i # _ \<Rightarrow> Some i)"

definition ath_tx_status_update_rate :: "RATE_TABLE_11N \<Rightarrow> ath_rc_series list \<Rightarrow> nat \<Rightarrow> txstatus_entry \<Rightarrow>
    txstatus_entry option" where
  "ath_tx_status_update_rate rt rcs series e = do {
     rc \<leftarrow> at rcs series;
     row \<leftarrow> at (info rt) (unat (rcs_rix rc));
     let e = (if rateCode row AND 0x80 \<noteq> 0
              then e\<lparr>txs_rate := txs_rate e OR (dot11Rate row AND 0x0F),
                     txs_flags := txs_flags e OR 0x08 OR
                       (if rcs_flags rc AND ATH_RC_CW40_FLAG \<noteq> 0 then 0x10 else 0) OR
                       (if rcs_flags rc AND ATH_RC_HT40_SGI_FLAG \<noteq> 0 then 0x20 else 0)\<rparr>
              else e\<lparr>txs_rate := txs_rate e OR (rcs_rix rc AND 0x0F)\<rparr>);
     Some (if rcs_flags rc AND ATH_RC_RTSCTS_FLAG \<noteq> 0 then e\<lparr>txs_flags := txs_flags e OR 0x04\<rparr> else e) }"

text \<open>Appending an entry: the array keeps its twelve entries, \<open>cnt\<close> says how many are valid.\<close>

definition put_status :: "nat \<Rightarrow> txstatus_entry \<Rightarrow> 'a owl_scheme \<Rightarrow> 'a owl_scheme option" where
  "put_status i e s = do {
     t \<leftarrow> at (tx_status s) i;
     es \<leftarrow> set_at (txstatus t) (unat (txs_cnt t)) e;
     Some (s\<lparr>tx_status := (tx_status s)[i := t\<lparr>txstatus := es, txs_cnt := txs_cnt t + 1\<rparr>]\<rparr>) }"

definition ath_tx_status_update :: "owl_env \<Rightarrow> bufref \<Rightarrow> 'a owl_scheme \<Rightarrow> 'a owl_scheme option" where
  "ath_tx_status_update env b s =
     (if sc_tx_draining s then Some s
      else case ath_tx_status_get s of
        None \<Rightarrow> Some s
      | Some i \<Rightarrow> do {
          let bf = txbufs s b;
          let st = ds_txstat s (bf_lastds bf);
          let e = \<lparr>txs_cookie = bf_cookie bf, txs_rate = push_bit 4 (bf_endpt bf) AND 0xF0,
                   txs_flags = (if ts_status st AND HAL_TXERR_FILT \<noteq> 0 then 0x02 else 0) OR
                     (if ts_status st AND (HAL_TXERR_XRETRY OR HAL_TXERR_FIFO OR HAL_TXERR_TIMER_EXPIRED OR HAL_TXERR_FILT) = 0
                      then 0x01 else 0)\<rparr>;
          rt \<leftarrow> hwRateTable env (sc_curmode s);
          e \<leftarrow> ath_tx_status_update_rate rt (bf_rcs bf) (unat (ts_rate st)) e;
          put_status i e s })"

text \<open>
  For a subframe of an aggregate the entry's flags are not cleared first: bits of an earlier status stay
  in it.
\<close>

definition ath_tx_status_update_aggr :: "owl_env \<Rightarrow> bufref \<Rightarrow> ath_tx_status \<Rightarrow> ath_rc_series list option \<Rightarrow> bool \<Rightarrow>
    'a owl_scheme \<Rightarrow> 'a owl_scheme option" where
  "ath_tx_status_update_aggr env b ds rcs txok s =
     (if sc_tx_draining s then Some s
      else case ath_tx_status_get s of
        None \<Rightarrow> Some s
      | Some i \<Rightarrow> do {
          let bf = txbufs s b;
          t \<leftarrow> at (tx_status s) i;
          old \<leftarrow> at (txstatus t) (unat (txs_cnt t));
          let e = \<lparr>txs_cookie = bf_cookie bf, txs_rate = push_bit 4 (bf_endpt bf) AND 0xF0,
                   txs_flags = txs_flags old OR (if txok then 0x01 else 0)\<rparr>;
          e \<leftarrow> (case rcs of
                  None \<Rightarrow> Some e
                | Some r \<Rightarrow> do {
                    rt \<leftarrow> hwRateTable env (sc_curmode s);
                    ath_tx_status_update_rate rt r (unat (ts_rate ds)) e });
          put_status i e s })"

definition entry_bytes :: "txstatus_entry \<Rightarrow> u8 list" where
  "entry_bytes e = [txs_cookie e, txs_rate e, txs_flags e]"

definition status_bytes :: "WMI_TXSTATUS_EVENT \<Rightarrow> u8 list" where
  "status_bytes t = txs_cnt t # concat (map entry_bytes (txstatus t))"

definition ath_tx_status_send :: "'a owl_scheme \<Rightarrow> 'a owl_scheme" where
  "ath_tx_status_send s =
     (if sc_tx_draining s then s
      else fold (\<lambda>i s. if txs_cnt (tx_status s ! i) \<noteq> 0
                       then (emit (Wmi_Event 0x1007 (status_bytes (tx_status s ! i))) s)
                              \<lparr>tx_status := (tx_status s)[i := (tx_status s ! i)\<lparr>txs_cnt := 0\<rparr>]\<rparr>
                       else s) [0..<length (tx_status s)] s)"

section \<open>Statistics and the report to the rate control\<close>

definition stat_if :: "bool \<Rightarrow> tx_counter \<Rightarrow> 'a owl_scheme \<Rightarrow> 'a owl_scheme" where
  "stat_if c x s = (if c then stats x s else s)"

definition ath_update_stats :: "bufref \<Rightarrow> 'a owl_scheme \<Rightarrow> 'a owl_scheme option" where
  "ath_update_stats b s = do {
     let st = ds_txstat s b;
     s \<leftarrow> (if ts_status st = 0 then Some (stat_if (ts_rate st AND HAL_TXSTAT_ALTRATE \<noteq> 0) ast_tx_altrate s)
           else do {
             skb \<leftarrow> bf_skb (txbufs s b);
             s \<leftarrow> (if ts_status st AND HAL_TXERR_XRETRY \<noteq> 0
                   then do { a1 \<leftarrow> at (frames s skb) 4; Some (stat_if (a1 AND 1 = 0) ast_tx_xretries s) }
                   else Some s);
             let s = stat_if (ts_status st AND HAL_TXERR_FIFO \<noteq> 0) ast_tx_fifoerr s;
             let s = stat_if (ts_status st AND HAL_TXERR_FILT \<noteq> 0) ast_tx_filtered s;
             Some (stat_if (ts_status st AND HAL_TXERR_TIMER_EXPIRED \<noteq> 0) ast_tx_timer_exp s) });
     Some (statsn ast_tx_longretry (ucast (ts_longretry st)) (statsn ast_tx_shortretry (ucast (ts_shortretry st)) s)) }"

definition ath_update_aggr_stats :: "ath_tx_status \<Rightarrow> 'a owl_scheme \<Rightarrow> 'a owl_scheme" where
  "ath_update_aggr_stats ds s =
     (let status = ts_status ds; txflags = ts_flags ds;
          s = statsn txaggr_longretries (ucast (ts_longretry ds)) s;
          s = statsn txaggr_shortretries (ucast (ts_shortretry ds)) s;
          s = stat_if (txflags AND HAL_TX_DESC_CFG_ERR \<noteq> 0) txaggr_desc_cfgerr s;
          s = stat_if (txflags AND HAL_TX_DATA_UNDERRUN \<noteq> 0) txaggr_data_urun s;
          s = stat_if (txflags AND HAL_TX_DELIM_UNDERRUN \<noteq> 0) txaggr_delim_urun s;
          s = stat_if (status AND HAL_TXERR_XRETRY \<noteq> 0) txaggr_compxretry s;
          s = stat_if (status AND HAL_TXERR_FILT \<noteq> 0) txaggr_filtered s;
          s = stat_if (status AND HAL_TXERR_FIFO \<noteq> 0) txaggr_fifo s;
          s = stat_if (status AND HAL_TXERR_XTXOP \<noteq> 0) txaggr_xtxop s
      in stat_if (status AND HAL_TXERR_TIMER_EXPIRED \<noteq> 0) txaggr_timer_exp s)"

definition ath_rate_tx_complete :: "owl_env \<Rightarrow> nat \<Rightarrow> ath_tx_status \<Rightarrow> ath_rc_series list \<Rightarrow> int \<Rightarrow> int \<Rightarrow>
    'a owl_scheme \<Rightarrow> 'a owl_scheme option" where
  "ath_rate_tx_complete env n ds rcs nframes nbad s = do {
     let failed = (ts_status ds AND (HAL_TXERR_XRETRY OR HAL_TXERR_FIFO) \<noteq> 0 \<or>
                   ts_flags ds AND (HAL_TX_DATA_UNDERRUN OR HAL_TX_DELIM_UNDERRUN) \<noteq> 0);
     rt \<leftarrow> hwRateTable env (sc_curmode s);
     rcn \<leftarrow> an_rcnode (sc_sta s n);
     rcn \<leftarrow> rcUpdate_11n rt (uptime env (acts s)) (unat (ts_rate ds)) (if failed then 1 else 0) rcs nframes nbad
              (uint (ts_longretry ds)) rcn;
     Some (upd_node n (\<lambda>an. an\<lparr>an_rcnode := Some rcn\<rparr>) s) }"

definition ath_tx_uc_comp :: "owl_env \<Rightarrow> bufref \<Rightarrow> 'a owl_scheme \<Rightarrow> 'a owl_scheme option" where
  "ath_tx_uc_comp env b s = do {
     s \<leftarrow> ath_tx_status_update env b s;
     s \<leftarrow> ath_update_stats b s;
     let bf = txbufs s b;
     n \<leftarrow> bf_node bf;
     ath_rate_tx_complete env n (ds_txstat s (bf_lastds bf)) (bf_rcs bf) 1 0 s }"

end
