(* ===== verification/Owl_Sched.thy ===== *)
theory Owl_Sched
  imports Owl_Rate
begin

text \<open>
  Scheduling of the driver's transmit path (\<^verbatim>\<open>if_owl.c\<close>): handing a frame to a hardware queue, the
  queue of TIDs with frames to send, the formation of an aggregate and the two entry points for a frame
  from the host.
\<close>

section \<open>Handing a frame to the hardware\<close>

text \<open>When the hardware has not completed the descriptor, the status words stay.\<close>

definition ah_procTxDesc :: "owl_env \<Rightarrow> bufref \<Rightarrow> 'a owl_scheme \<Rightarrow> HAL_STATUS \<times> 'a owl_scheme" where
  "ah_procTxDesc env d s =
     (let (st, ts) = procTxDesc env (acts s) d; s = emit (Hal_procTxDesc d) s
      in (st, if st = HAL_OK then s\<lparr>ds_txstat := (ds_txstat s)(d := ts)\<rparr> else s))"

definition ATH_TXQ_INSERT_TAIL :: "nat \<Rightarrow> bufref \<Rightarrow> 'a owl_scheme \<Rightarrow> 'a owl_scheme" where
  "ATH_TXQ_INSERT_TAIL q b s =
     upd_txq q (\<lambda>t. t\<lparr>axq_q := axq_q t @ [b], axq_depth := axq_depth t + 1, axq_linkbuf := Some b\<rparr>) s"

definition ATH_TXQ_REMOVE_HEAD :: "nat \<Rightarrow> bufref \<Rightarrow> 'a owl_scheme \<Rightarrow> 'a owl_scheme" where
  "ATH_TXQ_REMOVE_HEAD q b s = upd_txq q (\<lambda>t. t\<lparr>axq_q := remove1 b (axq_q t), axq_depth := axq_depth t - 1\<rparr>) s"

definition ath_tgt_txq_add_ucast :: "owl_env \<Rightarrow> bufref \<Rightarrow> 'a owl_scheme \<Rightarrow> 'a owl_scheme" where
  "ath_tgt_txq_add_ucast env b s =
     (let q = bf_txq (txbufs s b);
          s = snd (ah_procTxDesc env (bf_lastds (txbufs s b)) s);
          s = ATH_TXQ_INSERT_TAIL q b s;
          qnum = axq_qnum (sc_txq s q);
          s = (case axq_link (sc_txq s q) of
                 None \<Rightarrow> emit (Hal_setTxDP qnum b) s
               | Some d \<Rightarrow>
                   let s = set_link d (Some b) s;
                       txe_val = ioread_txe env (acts s);
                       s = emit Hal_readTxe s
                   in if \<not> bit txe_val (unat qnum) then emit (Hal_setTxDP qnum b) s else s);
          s = upd_txq q (\<lambda>t. t\<lparr>axq_link := Some (bf_lastds (txbufs s b))\<rparr>) s
      in emit (Hal_startTxDma qnum) s)"

definition ath_tgt_txqaddbuf :: "nat \<Rightarrow> bufref \<Rightarrow> bufref \<Rightarrow> 'a owl_scheme \<Rightarrow> 'a owl_scheme" where
  "ath_tgt_txqaddbuf q b lastds s =
     (let s = ATH_TXQ_INSERT_TAIL q b s;
          qnum = axq_qnum (sc_txq s q);
          s = (case axq_link (sc_txq s q) of
                 None \<Rightarrow> emit (Hal_setTxDP qnum b) s
               | Some d \<Rightarrow> set_link d (Some b) s);
          s = upd_txq q (\<lambda>t. t\<lparr>axq_link := Some lastds\<rparr>) s
      in emit (Hal_startTxDma qnum) s)"

definition ath_tgt_tx_send_normal :: "owl_env \<Rightarrow> bufref \<Rightarrow> 'a owl_scheme \<Rightarrow> 'a owl_scheme option" where
  "ath_tgt_tx_send_normal env b s = do {
     let bf = txbufs s b;
     s \<leftarrow> (if \<not> bf_ismcast bf then do {
             n \<leftarrow> bf_node bf;
             (rcs, _, s) \<leftarrow> ath_tgt_rate_findrate env n rc0_series s;
             Some (upd_buf b (\<lambda>bf. bf\<lparr>bf_rcs := rcs\<rparr>) s) }
           else do {
             require (unat (vap_index bf) < ATH_VAP_MAX);
             let mrcs = rc0_series[0 := (rc0_series ! 0)\<lparr>rcs_rix := ath_get_minrateidx s (unat (vap_index bf)), rcs_tries := 1\<rparr>];
             Some (upd_buf b (\<lambda>bf. bf\<lparr>bf_rcs := mrcs\<rparr>) s) });
     s \<leftarrow> ath_buf_set_rate env b s;
     Some (ath_tgt_txq_add_ucast env b s) }"

section \<open>The queue of TIDs\<close>

definition ath_tgt_tx_enqueue :: "nat \<Rightarrow> tidref \<Rightarrow> 'a owl_scheme \<Rightarrow> 'a owl_scheme" where
  "ath_tgt_tx_enqueue q t s =
     (if paused (an_tid s t) \<noteq> 0 then s
      else if sched (an_tid s t) \<noteq> 0 then s
      else upd_txq q (\<lambda>x. x\<lparr>axq_tidq := axq_tidq x @ [t]\<rparr>) (upd_tid t (\<lambda>x. x\<lparr>sched := 1\<rparr>) s))"

definition ath_aggr_pause_tid :: "tidref \<Rightarrow> 'a owl_scheme \<Rightarrow> 'a owl_scheme" where
  "ath_aggr_pause_tid t s = upd_tid t (\<lambda>x. x\<lparr>paused := 1\<rparr>) s"

partial_function (option) ath_tgt_tx_sched_normal :: "owl_env \<Rightarrow> tidref \<Rightarrow> 'a owl_scheme \<Rightarrow> 'a owl_scheme option" where
  "ath_tgt_tx_sched_normal env t s =
     (case buf_q (an_tid s t) of
        [] \<Rightarrow> Some s
      | b # bs \<Rightarrow> do {
          s \<leftarrow> ath_tgt_tx_send_normal env b (upd_tid t (\<lambda>x. x\<lparr>buf_q := bs\<rparr>) s);
          if axq_depth (sc_txq s (TID_TO_ACTXQ s (unat (tidno (an_tid s t))))) < 1
          then ath_tgt_tx_sched_normal env t s else Some s })"

section \<open>Aggregates\<close>

datatype ATH_AGGR_STATUS = ATH_TGT_AGGR_DONE | ATH_TGT_AGGR_BAW_CLOSED | ATH_TGT_AGGR_LIMITED

definition ATH_AGGR_GET_NDELIM :: "u32 \<Rightarrow> u32" where
  "ATH_AGGR_GET_NDELIM len = drop_bit 2 (if len + 4 < 256 then 256 - len - 4 else 0)"

definition PADBYTES :: "u32 \<Rightarrow> u32" where
  "PADBYTES len = (4 - len mod 4) mod 4"

definition min4ms :: "'a owl_scheme \<Rightarrow> ath_rc_series list \<Rightarrow> u32 \<Rightarrow> (bool \<times> u32) option" where
  "min4ms s rcs m0 = foldM (\<lambda>(legacy, m) rc.
     if legacy \<or> rcs_tries rc = 0 then Some (legacy, m)
     else do {
       r \<leftarrow> at (sc_currates s) (unat (rcs_rix rc));
       Some (if hr_phy r \<noteq> IEEE80211_T_HT then (True, m) else (False, min m (rcs_max4msframelen rc))) }) (False, m0) rcs"

text \<open>
  The limit on an aggregate's length: 0 when the first frame probes or has a legacy rate. For a multicast
  frame the code reads \<^verbatim>\<open>prate\<close>, which it has not set (\<open>junk_prate\<close>).
\<close>

definition ath_lookup_rate :: "owl_env \<Rightarrow> nat \<Rightarrow> bufref \<Rightarrow> 'a owl_scheme \<Rightarrow> (u16 \<times> 'a owl_scheme) option" where
  "ath_lookup_rate env n b s = do {
     let bf = txbufs s b;
     (prate, s) \<leftarrow>
       (if bf_ismcast bf then do {
          require (4 \<le> length (bf_rcs bf));
          let rcs = (bf_rcs bf)[0 := (bf_rcs bf ! 0)\<lparr>rcs_rix := 0x0b, rcs_tries := 10, rcs_flags := 0\<rparr>,
                                1 := (bf_rcs bf ! 1)\<lparr>rcs_tries := 0\<rparr>, 2 := (bf_rcs bf ! 2)\<lparr>rcs_tries := 0\<rparr>,
                                3 := (bf_rcs bf ! 3)\<lparr>rcs_tries := 0\<rparr>];
          Some (junk_prate env, upd_buf b (\<lambda>bf. bf\<lparr>bf_rcs := rcs\<rparr>) s) }
        else do {
          (rcs, prate, s) \<leftarrow> ath_tgt_rate_findrate env n (bf_rcs bf) s;
          Some (prate, upd_buf b (\<lambda>bf. bf\<lparr>bf_rcs := rcs\<rparr>) s) });
     (legacy, m) \<leftarrow> min4ms s (take 4 (bf_rcs (txbufs s b))) 0xFFFF;
     if prate \<or> legacy then Some (0, s)
     else do {
       let lim = ucast (if ic_enable_coex (sc_ic s) then min ((m * 3) div 8) (ic_ampdu_limit (sc_ic s))
                        else min m (ic_ampdu_limit (sc_ic s)));
       let mx = ni_maxampdu (sc_sta s n);
       Some (if mx \<noteq> 0 then min lim mx else lim, s) } }"

definition key_delims :: "u8 \<Rightarrow> u8" where
  "key_delims kt = (if kt = HAL_KEY_TYPE_AES then 10
     else if kt = HAL_KEY_TYPE_WEP \<or> kt = HAL_KEY_TYPE_TKIP then 64
     else if kt = HAL_KEY_TYPE_WAPI then 12 else 0)"

definition max_subframes :: "owl_env \<Rightarrow> u32" where
  "max_subframes env = (if merlin env then 22 else 17)"

text \<open>
  The loop of \<^verbatim>\<open>ath_tgt_tx_form_aggr\<close> over the queue of the TID. \<open>prev\<close> is the frame added last,
  \<open>lim\<close> the limit once it has been looked up. The sum that is compared with the limit is computed in
  \<^verbatim>\<open>int\<close>; \<^verbatim>\<open>al\<close>, \<^verbatim>\<open>bpad\<close> and \<^verbatim>\<open>al_delta\<close> have 16 bits. The result has the buffers of the
  aggregate, its length and the number of frames.
\<close>

record aggr =
  ag_q :: "bufref list"
  ag_al :: u16
  ag_bpad :: u16
  ag_lim :: "u16 option"

definition form_add :: "tidref \<Rightarrow> bufref \<Rightarrow> bufref list \<Rightarrow> aggr \<Rightarrow> 'a owl_scheme \<Rightarrow> aggr \<times> 'a owl_scheme" where
  "form_add t b bs g s =
     (let bf = txbufs s b;
          al_delta = 4 + bf_pktlen bf;
          s = upd_tid t (\<lambda>x. (ath_tx_addto_baw x bf)\<lparr>buf_q := bs\<rparr>) s;
          nd = ucast (ATH_AGGR_GET_NDELIM (ucast (bf_pktlen bf))) + key_delims (bf_keytype bf);
          s = upd_buf b (\<lambda>bf. bf\<lparr>bf_ndelim := nd\<rparr>) s;
          s = (if ag_q g = [] then s
               else let p = last (ag_q g) in
                 set_link (bf_lastds (txbufs s p)) (Some b) (upd_buf p (\<lambda>bf. bf\<lparr>bf_next := Some b\<rparr>) s));
          s = emit (Hal_set11nAggrMiddle b nd) s
      in (g\<lparr>ag_q := ag_q g @ [b], ag_al := ag_al g + ag_bpad g + al_delta,
             ag_bpad := ucast (PADBYTES (ucast al_delta)) + push_bit 2 (ucast nd)\<rparr>, s))"

fun form_loop :: "owl_env \<Rightarrow> tidref \<Rightarrow> bufref list \<Rightarrow> aggr \<Rightarrow> 'a owl_scheme \<Rightarrow>
    (ATH_AGGR_STATUS \<times> aggr \<times> 'a owl_scheme) option" where
  "form_loop env t [] g s = Some (ATH_TGT_AGGR_DONE, g, s)"
| "form_loop env t (b # bs) g s =
     (let tid = an_tid s t; bf = txbufs s b in
      if \<not> BAW_WITHIN (seq_start tid) (baw_size tid) (SEQNO_FROM_BF_SEQNO (bf_seqno bf))
      then Some (ATH_TGT_AGGR_BAW_CLOSED, g, s)
      else do {
        (lim, s) \<leftarrow> (case ag_lim g of Some l \<Rightarrow> Some (l, s) | None \<Rightarrow> ath_lookup_rate env (fst t) b s);
        let g = g\<lparr>ag_lim := Some lim\<rparr>;
        let al_delta = 4 + bf_pktlen bf;
        if ag_q g \<noteq> [] \<and> uint lim < uint (ag_al g) + uint (ag_bpad g) + uint al_delta
        then Some (ATH_TGT_AGGR_LIMITED, g, s)
        else if of_nat (length (ag_q g)) \<ge> min (ucast (baw_size tid div 2)) (max_subframes env)
        then Some (ATH_TGT_AGGR_LIMITED, g, s)
        else do {
          require (bf_comp bf = Some Comp_Aggr);
          let (g, s) = form_add t b bs g s;
          form_loop env t bs g s } })"

definition aggr0 :: aggr where
  "aggr0 = \<lparr>ag_q = [], ag_al = 0, ag_bpad = 0, ag_lim = None\<rparr>"

definition ath_tgt_tx_form_aggr :: "owl_env \<Rightarrow> tidref \<Rightarrow> 'a owl_scheme \<Rightarrow>
    (ATH_AGGR_STATUS \<times> bufref list \<times> 'a owl_scheme) option" where
  "ath_tgt_tx_form_aggr env t s =
     (case buf_q (an_tid s t) of
        [] \<Rightarrow> None
      | first # rest \<Rightarrow> do {
          (st, g, s) \<leftarrow> form_loop env t (first # rest) aggr0 s;
          let s = upd_buf first (\<lambda>bf. bf\<lparr>bf_al := ag_al g, bf_nframes := of_nat (length (ag_q g))\<rparr>) s;
          Some (st, ag_q g, s) })"

text \<open>One aggregate, or a single frame, is handed to the queue of the TID's access category.\<close>

definition send_single :: "owl_env \<Rightarrow> bufref \<Rightarrow> 'a owl_scheme \<Rightarrow> 'a owl_scheme option" where
  "send_single env b s = do {
     let s = stat_if (bf_retries (txbufs s b) = 0) txaggr_single s;
     let s = set_link b None (upd_buf b (\<lambda>bf. bf\<lparr>bf_isaggr := False, bf_lastds := b, bf_next := None\<rparr>) s);
     s \<leftarrow> ath_buf_set_rate env b (emit (Hal_clr11nAggr b) s);
     Some (ath_tgt_txq_add_ucast env b s) }"

definition send_aggr :: "owl_env \<Rightarrow> bufref \<Rightarrow> bufref \<Rightarrow> 'a owl_scheme \<Rightarrow> 'a owl_scheme option" where
  "send_aggr env b lst s = do {
     let s = upd_buf lst (\<lambda>bf. bf\<lparr>bf_next := None, bf_ndelim := 0\<rparr>) (set_link (bf_lastds (txbufs s lst)) None s);
     let s = upd_buf b (\<lambda>bf. bf\<lparr>bf_isaggr := True\<rparr>) s;
     s \<leftarrow> ath_buf_set_rate env b s;
     let s = emit (Hal_set11nAggrFirst b (bf_al (txbufs s b)) (bf_ndelim (txbufs s b))) s;
     let s = upd_buf b (\<lambda>bf. bf\<lparr>bf_lastds := bf_lastds (txbufs s lst)\<rparr>) s;
     let s = emit (Hal_set11nAggrLast lst) s;
     Some (ath_tgt_txq_add_ucast env b s) }"

partial_function (option) ath_tgt_tx_sched_aggr :: "owl_env \<Rightarrow> tidref \<Rightarrow> 'a owl_scheme \<Rightarrow> 'a owl_scheme option" where
  "ath_tgt_tx_sched_aggr env t s =
     (if buf_q (an_tid s t) = [] then Some s
      else do {
        (st, q, s) \<leftarrow> ath_tgt_tx_form_aggr env t s;
        (case q of
           [] \<Rightarrow> Some s
         | b # _ \<Rightarrow> do {
             s \<leftarrow> (if bf_nframes (txbufs s b) = 1 then send_single env b s else send_aggr env b (last q) s);
             if axq_depth (sc_txq s (TID_TO_ACTXQ s (unat (tidno (an_tid s t))))) < 1 \<and> st \<noteq> ATH_TGT_AGGR_BAW_CLOSED
             then ath_tgt_tx_sched_aggr env t s else Some s }) })"

section \<open>The scheduler\<close>

definition sched_tid :: "owl_env \<Rightarrow> nat \<Rightarrow> tidref \<Rightarrow> 'a owl_scheme \<Rightarrow> 'a owl_scheme option" where
  "sched_tid env q t s = do {
     s \<leftarrow> (if flag (an_tid s t) AND TID_AGGR_ENABLED = 0 then ath_tgt_tx_sched_normal env t s
           else ath_tgt_tx_sched_aggr env t s);
     Some (if buf_q (an_tid s t) \<noteq> [] then ath_tgt_tx_enqueue q t s else s) }"

text \<open>Paused TIDs are dropped from the queue; the first one that is not is served, and that ends the loop.\<close>

fun sched_loop :: "owl_env \<Rightarrow> nat \<Rightarrow> tidref list \<Rightarrow> 'a owl_scheme \<Rightarrow> 'a owl_scheme option" where
  "sched_loop env q [] s = Some s"
| "sched_loop env q (t # ts) s =
     (let s = upd_tid t (\<lambda>x. x\<lparr>sched := 0\<rparr>) (upd_txq q (\<lambda>x. x\<lparr>axq_tidq := ts\<rparr>) s) in
      if paused (an_tid s t) \<noteq> 0 then sched_loop env q ts s else sched_tid env q t s)"

definition ath_tgt_txq_schedule :: "owl_env \<Rightarrow> nat \<Rightarrow> 'a owl_scheme \<Rightarrow> 'a owl_scheme option" where
  "ath_tgt_txq_schedule env q s = sched_loop env q (axq_tidq (sc_txq s q)) s"

definition ath_aggr_resume_tid :: "owl_env \<Rightarrow> tidref \<Rightarrow> 'a owl_scheme \<Rightarrow> 'a owl_scheme option" where
  "ath_aggr_resume_tid env t s = do {
     let q = TID_TO_ACTXQ s (unat (tidno (an_tid s t)));
     let s = upd_tid t (\<lambda>x. x\<lparr>paused := 0\<rparr>) s;
     if buf_q (an_tid s t) = [] then Some s
     else ath_tgt_txq_schedule env q (ath_tgt_tx_enqueue q t s) }"

section \<open>Frames from the host\<close>

definition ath_tgt_handle_normal :: "owl_env \<Rightarrow> bufref \<Rightarrow> 'a owl_scheme \<Rightarrow> 'a owl_scheme option" where
  "ath_tgt_handle_normal env b s = do {
     t \<leftarrow> ATH_AN_2_TID (txbufs s b);
     let s = upd_buf b (\<lambda>bf. bf\<lparr>bf_comp := Some Comp_Normal\<rparr>) s;
     let s = upd_tid t (\<lambda>x. x\<lparr>seq_start := INCR_seq (seq_start x)\<rparr>) s;
     ath_tgt_tx_send_normal env b s }"

definition ath_tgt_handle_aggr :: "owl_env \<Rightarrow> bufref \<Rightarrow> 'a owl_scheme \<Rightarrow> 'a owl_scheme option" where
  "ath_tgt_handle_aggr env b s = do {
     let q = bf_txq (txbufs s b);
     t \<leftarrow> ATH_AN_2_TID (txbufs s b);
     let s = upd_buf b (\<lambda>bf. bf\<lparr>bf_comp := Some Comp_Aggr\<rparr>) s;
     let tid = an_tid s t;
     let within_baw = BAW_WITHIN (seq_start tid) (baw_size tid) (SEQNO_FROM_BF_SEQNO (bf_seqno (txbufs s b)));
     if axq_depth (sc_txq s q) \<ge> 1 \<or> buf_q tid \<noteq> [] \<or> paused tid \<noteq> 0 \<or> \<not> within_baw
     then Some (ath_tgt_tx_enqueue q t (upd_tid t (\<lambda>x. x\<lparr>buf_q := buf_q x @ [b]\<rparr>) s))
     else ath_tgt_tx_send_normal env b
            (stats txaggr_nframes (upd_tid t (\<lambda>x. ath_tx_addto_baw x (txbufs s b)) s)) }"

end
