(* ===== verification/Owl_Prep.thy ===== *)
theory Owl_Prep
  imports Owl_Sched
begin

text \<open>
  A frame from the host becomes a transmit buffer (\<^verbatim>\<open>if_owl.c\<close>, \<^verbatim>\<open>ieee80211_output.c\<close>,
  \<^verbatim>\<open>ieee80211_var.h\<close>): header length, sequence number, key material, and the separate path of
  management frames.
\<close>

section \<open>Headers\<close>

record ath_data_hdr =
  dh_ni_index :: u8
  dh_vap_index :: u8
  dh_tidno :: u8
  dh_flags :: u32
  dh_keytype :: u8
  dh_keyix :: u8
  dh_cookie :: u8

record ath_mgt_hdr =
  mh_ni_index :: u8
  mh_vap_index :: u8
  mh_flags :: u8
  mh_keytype :: u8
  mh_keyix :: u8
  mh_cookie :: u8

definition IEEE80211_QOS_HAS_SEQ :: "u8 \<Rightarrow> bool" where
  "IEEE80211_QOS_HAS_SEQ fc0 \<longleftrightarrow> fc0 AND 0x8C = 0x88"

text \<open>The length of the header; for a control frame \<^verbatim>\<open>ieee80211_hdrsize\<close> would assert.\<close>

definition ieee80211_hdrsize :: "u8 list \<Rightarrow> int option" where
  "ieee80211_hdrsize wh = do {
     fc0 \<leftarrow> at wh 0;
     fc1 \<leftarrow> at wh 1;
     require (fc0 AND 0x0C \<noteq> 0x04);
     Some (24 + (if fc1 AND 0x03 = 0x03 then 6 else 0) + (if IEEE80211_QOS_HAS_SEQ fc0 then 2 else 0)) }"

definition ieee80211_anyhdrsize :: "u8 list \<Rightarrow> int option" where
  "ieee80211_anyhdrsize wh = do {
     fc0 \<leftarrow> at wh 0;
     if fc0 AND 0x0C = 0x04
     then Some (if fc0 AND 0xF0 = 0xC0 \<or> fc0 AND 0xF0 = 0xD0 then 10 else 16)
     else ieee80211_hdrsize wh }"

section \<open>Key material\<close>

text \<open>The packet number is counted up and written behind the header, in the order of the cipher.\<close>

definition bump_iv :: "ath_node_target \<Rightarrow> ath_node_target" where
  "bump_iv n = (let v = ni_iv16 n + 1 in
     n\<lparr>ni_iv16 := v, ni_iv32 := (if v = 0 then ni_iv32 n + 1 else ni_iv32 n)\<rparr>)"

definition iv_bytes :: "u8 \<Rightarrow> ath_node_target \<Rightarrow> u8 list \<Rightarrow> nat \<Rightarrow> u8 list option" where
  "iv_bytes keytype n f i = do {
     old3 \<leftarrow> at f (i + 3);
     let lo = ucast (ni_iv16 n);
     let hi = ucast (drop_bit 8 (ni_iv16 n));
     let w = ni_iv32 n;
     let ext = [ucast w, ucast (drop_bit 8 w), ucast (drop_bit 16 w), ucast (drop_bit 24 w)];
     Some ((if keytype = HAL_KEY_TYPE_AES then [lo, hi, 0, old3 OR 0x20]
            else [hi, (hi OR 0x20) AND 0x7F, lo, old3 OR 0x20]) @ ext) }"

definition ieee80211_tgt_crypto_encap :: "nat \<Rightarrow> nbufref \<Rightarrow> u8 \<Rightarrow> 'a owl_scheme \<Rightarrow> 'a owl_scheme option" where
  "ieee80211_tgt_crypto_encap n skb keytype s = do {
     let f = frames s skb;
     fc0 \<leftarrow> at f 0;
     mesh \<leftarrow> at f 31;
     let i = (if mesh AND 0x01 \<noteq> 0 then 32 else if IEEE80211_QOS_HAS_SEQ fc0 then 28 else 24);
     if keytype = HAL_KEY_TYPE_AES \<or> keytype = HAL_KEY_TYPE_TKIP then do {
       let s = upd_node n bump_iv s;
       bs \<leftarrow> iv_bytes keytype (sc_sta s n) f i;
       require (i + 8 \<le> length f);
       Some (s\<lparr>frames := (frames s)(skb := take i f @ bs @ drop (i + 8) f)\<rparr>) }
     else Some s }"

definition ath_key_setup :: "bufref \<Rightarrow> 'a owl_scheme \<Rightarrow> 'a owl_scheme option" where
  "ath_key_setup b s = do {
     skb \<leftarrow> bf_skb (txbufs s b);
     fc1 \<leftarrow> at (frames s skb) 1;
     if fc1 AND 0x40 = 0
     then Some (upd_buf b (\<lambda>bf. bf\<lparr>bf_keytype := HAL_KEY_TYPE_CLEAR, bf_keyix := HAL_TXKEYIX_INVALID\<rparr>) s)
     else do {
       let kt = bf_keytype (txbufs s b);
       let extra = (if kt = HAL_KEY_TYPE_WEP \<or> kt = HAL_KEY_TYPE_TKIP then 4 else if kt = HAL_KEY_TYPE_AES then 8 else 0);
       let s = upd_buf b (\<lambda>bf. bf\<lparr>bf_pktlen := bf_pktlen bf + extra\<rparr>) s;
       if kt = HAL_KEY_TYPE_AES \<or> kt = HAL_KEY_TYPE_TKIP
       then do { n \<leftarrow> bf_node (txbufs s b); ieee80211_tgt_crypto_encap n skb kt s }
       else Some s } }"

section \<open>Sequence numbers\<close>

text \<open>
  The frame gets the next sequence number of its TID, in little endian; the number of the fragment is
  kept, and only the last fragment moves to the next sequence number.
\<close>

definition ath_tgt_tx_seqno_normal :: "bufref \<Rightarrow> 'a owl_scheme \<Rightarrow> 'a owl_scheme option" where
  "ath_tgt_tx_seqno_normal b s = do {
     t \<leftarrow> ATH_AN_2_TID (txbufs s b);
     skb \<leftarrow> bf_skb (txbufs s b);
     seq0 \<leftarrow> at (frames s skb) 22;
     fc1 \<leftarrow> at (frames s skb) 1;
     let s = upd_node (fst t) (\<lambda>n. n\<lparr>ni_txseqmgmt := INCR_seq (ni_txseqmgmt n)\<rparr>) s;
     let sq = push_bit IEEE80211_SEQ_SEQ_SHIFT (seq_next (an_tid s t));
     let s = upd_buf b (\<lambda>bf. bf\<lparr>bf_seqno := sq\<rparr>) s;
     s \<leftarrow> set_frame_byte skb 22 (ucast sq OR (seq0 AND 0x0F)) s;
     s \<leftarrow> set_frame_byte skb 23 (ucast (drop_bit 8 sq)) s;
     Some (if fc1 AND 0x04 = 0 then upd_tid t (\<lambda>x. x\<lparr>seq_next := INCR_seq (seq_next x)\<rparr>) s else s) }"

definition ath_get_pktlen :: "nat \<Rightarrow> int \<Rightarrow> int" where
  "ath_get_pktlen len hdrlen = int len - hdrlen mod 4 + 4"

definition ath_tgt_txbuf_setup :: "bufref \<Rightarrow> ath_data_hdr \<Rightarrow> 'a owl_scheme \<Rightarrow> 'a owl_scheme option" where
  "ath_tgt_txbuf_setup b dh s = do {
     s \<leftarrow> ath_tgt_tx_seqno_normal b s;
     skb \<leftarrow> bf_skb (txbufs s b);
     hdrlen \<leftarrow> ieee80211_anyhdrsize (frames s skb);
     a1 \<leftarrow> at (frames s skb) 4;
     let s = upd_buf b (\<lambda>bf. bf\<lparr>bf_hdrlen := word_of_int hdrlen,
               bf_pktlen := word_of_int (ath_get_pktlen (length (frames s skb)) hdrlen),
               bf_ismcast := (a1 AND 1 \<noteq> 0)\<rparr>) s;
     s \<leftarrow> ath_key_setup b s;
     Some (upd_buf b (\<lambda>bf. bf\<lparr>bf_shpream := (dh_flags dh AND 1 \<noteq> 0), bf_flags := HAL_TXDESC_CLRDMASK, bf_atype := 0\<rparr>) s) }"

section \<open>Preparing a transmit buffer\<close>

text \<open>
  The test of the index lets 8 through, one more than the array has; reading that entry is outside the array.
\<close>

definition ath_tgt_find_node :: "'a owl_scheme \<Rightarrow> nat \<Rightarrow> nat option option" where
  "ath_tgt_find_node s i =
     (if i > ATH_NODE_MAX then Some None
      else do {
        require (i < ATH_NODE_MAX);
        Some (if an_valid (sc_sta s i) \<and> ni_vap (sc_sta s i) \<noteq> None then Some i else None) })"

definition ath_tgt_tx_prepare :: "nbufref \<Rightarrow> ath_data_hdr \<Rightarrow> 'a owl_scheme \<Rightarrow> (bufref option \<times> 'a owl_scheme) option" where
  "ath_tgt_tx_prepare skb dh s = do {
     ni \<leftarrow> ath_tgt_find_node s (unat (dh_ni_index dh));
     (case ni of
        None \<Rightarrow> Some (None, s)
      | Some n \<Rightarrow> do {
          require (unat (dh_tidno dh) < WME_NUM_TID);
          if flag (an_tid s (n, unat (dh_tidno dh))) AND TID_REINITIALIZE \<noteq> 0 then Some (None, s)
          else do {
            (b, s) \<leftarrow> ath_tx_buf_alloc s;
            let q = TID_TO_ACTXQ s (unat (dh_tidno dh));
            let s = upd_buf b (\<lambda>bf. bf\<lparr>bf_tidno := dh_tidno dh, bf_txq := q, bf_keytype := dh_keytype dh,
                      bf_keyix := dh_keyix dh, bf_protmode := ucast (dh_flags dh) AND (IEEE80211_PROT_RTSCTS OR IEEE80211_PROT_CTSONLY),
                      bf_node := Some n, bf_skbhead := bf_skbhead bf @ [skb]\<rparr>) s;
            let s = upd_buf b (\<lambda>bf. bf\<lparr>bf_skb := skb_first b s\<rparr>) s;
            s \<leftarrow> ath_tgt_txbuf_setup b dh s;
            Some (Some b, ath_tx_tgt_setds b (ath_dma_map b s)) } }) }"

section \<open>Management frames\<close>

text \<open>
  The frame is described by \<^verbatim>\<open>flags\<close>, packet type and control rate before the descriptor is written.
\<close>

definition mgt_type :: "u8 \<Rightarrow> u16 \<times> u8" where
  "mgt_type fc0 =
     (if fc0 AND 0x0C = 0x00
      then (HAL_TXDESC_CLRDMASK, if fc0 AND 0xF0 = 0x50 then 4 else if fc0 AND 0xF0 = 0x90 then 1 else 0)
      else if fc0 AND 0x0C = 0x04 then (HAL_TXDESC_CLRDMASK OR HAL_TXDESC_NOACK, 0)
      else (HAL_TXDESC_CLRDMASK, 0))"

text \<open>The rate and the duration of the protection, when the frame asks for it; else both are 0.\<close>

definition mgt_cts :: "'a owl_scheme \<Rightarrow> u16 \<Rightarrow> u8 option \<Rightarrow> bool \<Rightarrow> nat \<Rightarrow> u8 \<Rightarrow> (u32 \<times> u32 \<times> bool) option" where
  "mgt_cts s flags cix shpream pktlen rix =
     (if flags AND (HAL_TXDESC_RTSENA OR HAL_TXDESC_CTSENA) = 0 then Some (0, 0, False)
      else do {
        c \<leftarrow> cix;
        r \<leftarrow> at (sc_currates s) (unat c);
        let ack = ucast (if shpream then hr_spAckDuration r else hr_lpAckDuration r);
        let dur = (if flags AND HAL_TXDESC_RTSENA \<noteq> 0 then ack else 0) + (if flags AND HAL_TXDESC_NOACK = 0 then ack else 0);
        tx \<leftarrow> ath_hal_computetxtime (sc_currates s) (of_nat pktlen) (unat rix) shpream;
        Some (ucast (hr_rateCode r OR (if shpream then hr_shortPreamble r else 0)), dur + ucast tx, True) })"

text \<open>
  The key index is a signed byte there: the mark \<^verbatim>\<open>HAL_TXKEYIX_INVALID\<close>, the unsigned byte 255, becomes -1
  in it. The byte is widened with its sign (\<open>scast\<close>, \<open>sint\<close>) for the descriptor and for the comparison with
  the mark.
\<close>

definition mgt_keyix :: "bool \<Rightarrow> ath_mgt_hdr \<Rightarrow> u8" where
  "mgt_keyix iswep mh = (if iswep then mh_keyix mh else HAL_TXKEYIX_INVALID)"

text \<open>The number of the frame is written into its header, least significant byte first, and counted up.\<close>

definition mgt_seqno :: "nbufref \<Rightarrow> nat \<Rightarrow> 'a owl_scheme \<Rightarrow> 'a owl_scheme option" where
  "mgt_seqno skb n s = do {
     let sq = push_bit IEEE80211_SEQ_SEQ_SHIFT (ni_txseqmgmt (sc_sta s n));
     s \<leftarrow> set_frame_byte skb 22 (ucast sq) s;
     s \<leftarrow> set_frame_byte skb 23 (ucast (drop_bit 8 sq)) s;
     Some (upd_node n (\<lambda>x. x\<lparr>ni_txseqmgmt := INCR_seq (ni_txseqmgmt x)\<rparr>) s) }"

text \<open>The descriptor is written and the buffer put on the first queue; every series gets two tries.\<close>

definition mgt_hand_over :: "ath_mgt_hdr \<Rightarrow> bufref \<Rightarrow> u8 \<Rightarrow> bool \<Rightarrow> int \<Rightarrow> int \<Rightarrow> u8 \<Rightarrow> u32 \<Rightarrow> u32 \<Rightarrow> u16 \<Rightarrow> u32 \<Rightarrow> u32 \<Rightarrow>
    'a owl_scheme \<Rightarrow> 'a owl_scheme" where
  "mgt_hand_over mh b fc0 iswep pktlen hdrlen atype txrate try0 flags ctsrate ctsduration s =
     (let keyix = mgt_keyix iswep mh;
          s = emit (Hal_setupTxDesc b pktlen hdrlen atype 60 txrate try0 (scast keyix) flags ctsrate ctsduration) s;
          s = upd_buf b (\<lambda>bf. bf\<lparr>bf_flags := flags\<rparr>) s;
          s = (if iswep \<and> sint keyix \<noteq> uint HAL_TXKEYIX_INVALID \<and> fc0 AND 0xF0 = 0xB0
               then emit (Hal_fillKeyTxDesc b (mh_keytype mh)) s else s);
          s = ath_filltxdesc b s;
          series = replicate 4 \<lparr>Tries = 2, Rate = txrate, PktDuration = 0, ChSel = ucast (ic_tx_chainmask (sc_ic s)), RateFlags = 0\<rparr>;
          s = emit (Hal_set11nRateScenario b 0 ctsrate series 0) s
      in ath_tgt_txqaddbuf 1 b (bf_lastds (txbufs s b)) s)"

definition mgt_send :: "owl_env \<Rightarrow> ath_mgt_hdr \<Rightarrow> nbufref \<Rightarrow> u8 \<Rightarrow> bufref \<Rightarrow> nat \<Rightarrow> 'a owl_scheme \<Rightarrow> 'a owl_scheme option" where
  "mgt_send env mh skb endpt b n s = do {
     let f = frames s skb;
     fc0 \<leftarrow> at f 0;
     fc1 \<leftarrow> at f 1;
     a1 \<leftarrow> at f 4;
     hdrlen \<leftarrow> ieee80211_anyhdrsize f;
     let iswep = (fc1 AND 0x40 \<noteq> 0);
     let ismcast = (a1 AND 1 \<noteq> 0);
     let pktlen = length f + 4;
     let s = emit (Dma_Map b (Some skb)) s;
     let s = upd_buf b (\<lambda>bf. bf\<lparr>bf_endpt := endpt, bf_cookie := mh_cookie mh, bf_protmode := mh_flags mh AND 3,
               bf_skb := Some skb, bf_skbhead := bf_skbhead bf @ [skb]\<rparr>) s;
     let shpream = (mh_flags mh = 1);
     let (flags, atype) = mgt_type fc0;
     require (unat (mh_vap_index mh) < ATH_VAP_MAX);
     let rix = ath_get_minrateidx s (unat (mh_vap_index mh));
     r \<leftarrow> at (sc_currates s) (unat rix);
     let s = upd_buf b (\<lambda>bf. bf\<lparr>bf_rcs := rc0_series[0 := (rc0_series ! 0)\<lparr>rcs_rix := rix, rcs_tries := 11\<rparr>],
               bf_node := Some n\<rparr>) s;
     txrate \<leftarrow> rate_code (sc_currates s) rix shpream;
     v \<leftarrow> ni_vap (sc_sta s n);
     let rts = (\<not> ismcast \<and> pktlen > unat (iv_rtsthreshold (sc_vap s v)));
     let flags = (if ismcast then flags OR HAL_TXDESC_NOACK else if rts then flags OR HAL_TXDESC_RTSENA else flags);
     let prot = (mh_flags mh AND 3 \<noteq> 0 \<and> hr_phy r = IEEE80211_T_OFDM \<and> flags AND HAL_TXDESC_NOACK = 0);
     p \<leftarrow> at (sc_currates s) (unat (sc_protrix s));
     let cix = (if prot then Some (hr_controlRate p) else if rts then Some (hr_controlRate r) else None);
     let s = stat_if prot ast_tx_protect s;
     s \<leftarrow> mgt_seqno skb n s;
     (ctsrate, ctsduration, cts) \<leftarrow> mgt_cts s flags cix shpream pktlen rix;
     let try0 = (if cts \<or> ismcast then 1 else 11);
     Some (mgt_hand_over mh b fc0 iswep (int pktlen) hdrlen atype txrate try0 (flags OR HAL_TXDESC_INTREQ) ctsrate
       ctsduration s) }"

text \<open>
  Without a buffer or without a node the frame goes back to the host; in the second case the buffer that
  was taken from the list is not put back.
\<close>

definition ath_tgt_send_mgt :: "owl_env \<Rightarrow> ath_mgt_hdr \<Rightarrow> nbufref \<Rightarrow> u8 \<Rightarrow> 'a owl_scheme \<Rightarrow> 'a owl_scheme option" where
  "ath_tgt_send_mgt env mh skb endpt s =
     (case sc_txbuf s of
        [] \<Rightarrow> Some (emit (Htc_ReturnBuffers endpt skb) s)
      | b # bs \<Rightarrow> do {
          let s = s\<lparr>sc_txbuf := bs\<rparr>;
          ni \<leftarrow> ath_tgt_find_node s (unat (mh_ni_index mh));
          (case ni of
             None \<Rightarrow> Some (emit (Htc_ReturnBuffers endpt skb) s)
           | Some n \<Rightarrow> mgt_send env mh skb endpt b n s) })"

section \<open>The receive handler of the data services\<close>

text \<open>The handler of \<^verbatim>\<open>if_ath.c\<close> behind the data endpoints; \<open>skb\<close> is the frame behind its header \<open>dh\<close>.\<close>

definition tgt_HTCRecvMessageHandler :: "owl_env \<Rightarrow> u8 \<Rightarrow> ath_data_hdr \<Rightarrow> nbufref \<Rightarrow> 'a owl_scheme \<Rightarrow> 'a owl_scheme option" where
  "tgt_HTCRecvMessageHandler env EndPt dh skb s = do {
     (ob, s) \<leftarrow> ath_tgt_tx_prepare skb dh (stats tx_tgt s);
     (case ob of
        None \<Rightarrow> Some (emit (Htc_ReturnBuffers EndPt skb) s)
      | Some b \<Rightarrow> do {
          let s = upd_buf b (\<lambda>bf. bf\<lparr>bf_endpt := EndPt, bf_cookie := dh_cookie dh, vap_index := dh_vap_index dh\<rparr>) s;
          if flag (an_tid s (unat (dh_ni_index dh), unat (dh_tidno dh))) AND TID_AGGR_ENABLED \<noteq> 0
          then ath_tgt_handle_aggr env b s else ath_tgt_handle_normal env b s }) }"

end
