(* ===== verification/Owl_Comp.thy ===== *)
theory Owl_Comp
  imports Owl_Sched
begin

text \<open>
  Completion in the driver's transmit path (\<^verbatim>\<open>if_owl.c\<close>): frames, aggregates and block-ack requests
  that the hardware is done with, the retry of subframes, the clean-up of a TID, the end of an aggregation
  session, and the tasklet that serves the completed queues.
\<close>

section \<open>Retry\<close>

text \<open>The retry bit of the frame control field is set in the frame itself.\<close>

definition ath_tx_set_retry :: "bufref \<Rightarrow> 'a owl_scheme \<Rightarrow> 'a owl_scheme option" where
  "ath_tx_set_retry b s = do {
     let s = upd_buf b (\<lambda>bf. bf\<lparr>bf_isretried := True, bf_retries := bf_retries bf + 1\<rparr>) (stats txaggr_retries s);
     skb \<leftarrow> bf_skb (txbufs s b);
     fc1 \<leftarrow> at (frames s skb) 1;
     set_frame_byte skb 1 (fc1 OR 0x08) s }"

definition tid_update_baw :: "tidref \<Rightarrow> u16 \<Rightarrow> 'a owl_scheme \<Rightarrow> 'a owl_scheme option" where
  "tid_update_baw t sq s = do {
     tid \<leftarrow> ath_tx_update_baw (an_tid s t) (SEQNO_FROM_BF_SEQNO sq);
     Some (s\<lparr>an_tid := (an_tid s)(t := tid)\<rparr>) }"

text \<open>
  A subframe that was not acknowledged: after ten retries it leaves the window, and the first such frame of
  the aggregate is kept to become a block-ack request; otherwise it is queued to be sent again. The last
  subframe changes its buffer.
\<close>

definition ath_tx_retry_subframe :: "owl_env \<Rightarrow> bufref \<Rightarrow> bufref list \<times> bufref option \<Rightarrow> 'a owl_scheme \<Rightarrow>
    ((bufref list \<times> bufref option) \<times> 'a owl_scheme) option" where
  "ath_tx_retry_subframe env b acc s = do {
     t \<leftarrow> ATH_AN_2_TID (txbufs s b);
     let s = clr_aggr b (stats txaggr_compretries s);
     let bf = txbufs s b;
     if bf_retries bf \<ge> OWLMAX_RETRIES then do {
       s \<leftarrow> tid_update_baw t (bf_seqno bf) (stats txaggr_xretries s);
       s \<leftarrow> ath_tx_status_update_aggr env b (ds_txstat s (bf_lastds bf)) None False s;
       (case snd acc of
          None \<Rightarrow> Some ((fst acc, Some b), s)
        | Some _ \<Rightarrow> Some (acc, ath_tx_freebuf b s)) }
     else do {
       (b, s) \<leftarrow> (if bf_next bf = None then ath_buf_toggle_retry b (stats txaggr_errlast s)
                  else Some (b, upd_buf b (\<lambda>bf. bf\<lparr>bf_lastds := b\<rparr>) s));
       s \<leftarrow> ath_tx_set_retry b s;
       Some ((fst acc @ [b], snd acc), s) } }"

section \<open>Block-ack requests\<close>

text \<open>
  The frame becomes a block-ack request of 20 bytes in its own network buffer: the addresses stay.
\<close>

definition bar_frame :: "u32 \<Rightarrow> u16 \<Rightarrow> u8 list \<Rightarrow> u8 list" where
  "bar_frame tidn seq f =
     (let ctl = (push_bit 12 (ucast tidn) OR 0x0004 :: u16); sq = push_bit 4 seq
      in [0x84, 0x00] @ take 14 (drop 2 f) @ [ucast (drop_bit 8 ctl), ucast ctl, ucast sq, ucast (drop_bit 8 sq)])"

definition ath_bar_tx :: "owl_env \<Rightarrow> tidref \<Rightarrow> bufref \<Rightarrow> 'a owl_scheme \<Rightarrow> 'a owl_scheme option" where
  "ath_bar_tx env t b s = do {
     let s = ath_aggr_pause_tid t (stats tx_bars s);
     skb \<leftarrow> skb_first b s;
     require (16 \<le> length (frames s skb));
     let s = ath_dma_unmap b s;
     let tid = an_tid s t;
     let s = s\<lparr>frames := (frames s)(skb := bar_frame (tidno tid) (seq_start tid) (frames s skb))\<rparr>;
     let s = upd_buf b (\<lambda>bf. bf\<lparr>bf_skbhead := tl (bf_skbhead bf) @ [skb], bf_seqno := push_bit 4 (seq_start tid),
               bf_comp := Some Comp_Bar, bf_tidno := ucast (tidno tid), bf_node := Some (fst t)\<rparr>) s;
     let s = ath_dma_map b s;
     let s = emit (Hal_setupTxDesc b 24 0 0 60 0x0b 11 (ucast (bf_keyix (txbufs s b))) (HAL_TXDESC_INTREQ OR HAL_TXDESC_CLRDMASK) 0 0) s;
     let s = upd_buf b (\<lambda>bf. bf\<lparr>bf_isaggr := False, bf_next := None\<rparr>) s;
     let s = ath_filltxdesc b (emit (Hal_clr11nAggr b) s);
     let series = replicate 4 \<lparr>Tries = 11, Rate = 0x0b, PktDuration = 0, ChSel = ucast (ic_tx_chainmask (sc_ic s)), RateFlags = 0\<rparr>;
     let s = emit (Hal_set11nRateScenario b 0 0 series 4) s;
     Some (ath_tgt_txq_add_ucast env b s) }"

section \<open>Completion of an aggregate\<close>

definition ATH_BA_ISSET :: "u32 \<Rightarrow> u32 \<Rightarrow> u32 \<Rightarrow> bool" where
  "ATH_BA_ISSET lo hi n \<longleftrightarrow> unat n < 64 \<and> bit (if unat n < 32 then lo else hi) (unat n mod 32)"

text \<open>
  The loop over the subframes: \<open>acked\<close> tells from the sequence number whether the peer acknowledged. The
  result has the frames to send again, the frame for a block-ack request and the number of bad frames.
\<close>

partial_function (option) aggr_loop :: "owl_env \<Rightarrow> tidref \<Rightarrow> (u32 \<Rightarrow> bool) \<Rightarrow> ath_tx_status \<Rightarrow> ath_rc_series list \<Rightarrow>
    bufref option \<Rightarrow> bufref list \<times> bufref option \<Rightarrow> int \<Rightarrow> 'a owl_scheme \<Rightarrow>
    ((bufref list \<times> bufref option) \<times> int \<times> 'a owl_scheme) option" where
  "aggr_loop env t acked ds rcs ob acc nbad s =
     (case ob of
        None \<Rightarrow> Some (acc, nbad, s)
      | Some b \<Rightarrow>
          let bf = txbufs s b; nx = bf_next bf; sq = SEQNO_FROM_BF_SEQNO (bf_seqno bf) in
          if acked sq then do {
            s \<leftarrow> tid_update_baw t (bf_seqno bf) (stats txaggr_compgood s);
            s \<leftarrow> ath_tx_status_update_aggr env b ds (Some rcs) True s;
            aggr_loop env t acked ds rcs nx acc nbad (ath_tx_freebuf b s) }
          else do {
            (acc, s) \<leftarrow> ath_tx_retry_subframe env b acc s;
            aggr_loop env t acked ds rcs nx acc (nbad + 1) s })"

definition aggr_finish :: "owl_env \<Rightarrow> nat \<Rightarrow> tidref \<Rightarrow> bufref list \<times> bufref option \<Rightarrow> 'a owl_scheme \<Rightarrow> 'a owl_scheme option" where
  "aggr_finish env q t acc s = do {
     s \<leftarrow> (case snd acc of None \<Rightarrow> Some s | Some b \<Rightarrow> ath_bar_tx env t b s);
     Some (if fst acc = [] then s
           else ath_tgt_tx_enqueue q t (upd_tid t (\<lambda>x. x\<lparr>buf_q := fst acc @ buf_q x\<rparr>) (stats txaggr_prepends s))) }"

definition ath_tx_comp_aggr_error :: "owl_env \<Rightarrow> bufref \<Rightarrow> tidref \<Rightarrow> 'a owl_scheme \<Rightarrow> 'a owl_scheme option" where
  "ath_tx_comp_aggr_error env b t s = do {
     let bf = txbufs s b;
     let ds = ds_txstat s (bf_lastds bf);
     let nframes = uint (bf_nframes bf);
     (acc, _, s) \<leftarrow> aggr_loop env t (\<lambda>_. False) ds (bf_rcs bf) (Some b) ([], None) 0 s;
     s \<leftarrow> ath_rate_tx_complete env (fst t) ds (bf_rcs bf) nframes nframes (ath_update_aggr_stats ds s);
     aggr_finish env (bf_txq bf) t acc s }"

section \<open>Completion of single frames\<close>

definition ath_tx_retry_unaggr :: "owl_env \<Rightarrow> bufref \<Rightarrow> 'a owl_scheme \<Rightarrow> 'a owl_scheme option" where
  "ath_tx_retry_unaggr env b s = do {
     t \<leftarrow> ATH_AN_2_TID (txbufs s b);
     let bf = txbufs s b;
     if bf_retries bf \<ge> OWLMAX_RETRIES then do {
       s \<leftarrow> tid_update_baw t (bf_seqno bf) (stats txunaggr_xretry s);
       s \<leftarrow> ath_tx_status_update env b s;
       ath_bar_tx env t b s }
     else do {
       let s = stats txunaggr_compretries s;
       (b, s) \<leftarrow> (if ds_link s (bf_lastds bf) = None then ath_buf_toggle_retry b (stats txunaggr_errlast s)
                  else Some (b, s));
       s \<leftarrow> ath_tx_set_retry b s;
       Some (ath_tgt_tx_enqueue (bf_txq bf) t (upd_tid t (\<lambda>x. x\<lparr>buf_q := b # buf_q x\<rparr>) s)) } }"

definition ath_tx_comp_unaggr :: "owl_env \<Rightarrow> bufref \<Rightarrow> 'a owl_scheme \<Rightarrow> 'a owl_scheme option" where
  "ath_tx_comp_unaggr env b s = do {
     t \<leftarrow> ATH_AN_2_TID (txbufs s b);
     s \<leftarrow> ath_update_stats b s;
     let bf = txbufs s b;
     let ds = ds_txstat s (bf_lastds bf);
     s \<leftarrow> ath_rate_tx_complete env (fst t) ds (bf_rcs bf) 1 0 s;
     if ts_status ds AND HAL_TXERR_XRETRY \<noteq> 0 then ath_tx_retry_unaggr env b s
     else do {
       s \<leftarrow> tid_update_baw t (bf_seqno bf) (stats tx_compunaggr s);
       s \<leftarrow> ath_tx_status_update env b s;
       Some (ath_tx_freebuf b s) } }"

section \<open>Clean-up of a TID\<close>

definition owl_tgt_tid_cleanup :: "owl_env \<Rightarrow> tidref \<Rightarrow> 'a owl_scheme \<Rightarrow> 'a owl_scheme option" where
  "owl_tgt_tid_cleanup env t s =
     (let s = upd_tid t (\<lambda>x. x\<lparr>incomp := incomp x - 1\<rparr>) s in
      if incomp (an_tid s t) \<noteq> 0 then Some s
      else
        let s = upd_tid t (\<lambda>x. x\<lparr>flag := flag x AND NOT TID_CLEANUP_INPROGRES\<rparr>) s in
        if flag (an_tid s t) AND TID_REINITIALIZE \<noteq> 0
        then Some (upd_tid t (\<lambda>x. owl_tgt_tid_init (x\<lparr>flag := flag x AND NOT TID_REINITIALIZE\<rparr>)) s)
        else ath_aggr_resume_tid env t s)"

definition owl_tgt_node_init :: "nat \<Rightarrow> 'a owl_scheme \<Rightarrow> 'a owl_scheme" where
  "owl_tgt_node_init n s = fold (\<lambda>i. upd_tid (n, i) (\<lambda>x.
     let x = x\<lparr>tidno := of_nat i\<rparr> in
     if flag x AND TID_CLEANUP_INPROGRES \<noteq> 0 then x\<lparr>flag := flag x OR TID_REINITIALIZE\<rparr> else owl_tgt_tid_init x))
     [0..<WME_NUM_TID] s"

definition ath_tgt_tid_drain :: "tidref \<Rightarrow> 'a owl_scheme \<Rightarrow> 'a owl_scheme" where
  "ath_tgt_tid_drain t s =
     (let s = fold (\<lambda>b s. ath_tx_freebuf b (upd_tid t (\<lambda>x. x\<lparr>buf_q := tl (buf_q x)\<rparr>) s)) (buf_q (an_tid s t)) s
      in upd_tid t (\<lambda>x. x\<lparr>seq_next := seq_start x, baw_tail := baw_head x\<rparr>) s)"

text \<open>
  The first loop of \<^verbatim>\<open>ath_tgt_tx_cleanup\<close> walks the queue. A frame to discard is released, but what is
  taken off the queue is its head, which is another frame when an earlier one was kept.
\<close>

fun cleanup_loop :: "tidref \<Rightarrow> bool \<Rightarrow> bufref list \<Rightarrow> 'a owl_scheme \<Rightarrow> 'a owl_scheme option" where
  "cleanup_loop t discard_all [] s = Some s"
| "cleanup_loop t discard_all (b # bs) s =
     (if discard_all \<or> bf_isretried (txbufs s b) then do {
        require (buf_q (an_tid s t) \<noteq> []);
        let b = hd (buf_q (an_tid s t));
        let s = upd_tid t (\<lambda>x. x\<lparr>buf_q := tl (buf_q x)\<rparr>) s;
        s \<leftarrow> (if bf_isretried (txbufs s b) then tid_update_baw t (bf_seqno (txbufs s b)) s else Some s);
        cleanup_loop t discard_all bs (ath_tx_freebuf b s) }
      else cleanup_loop t discard_all bs (upd_buf b (\<lambda>bf. bf\<lparr>bf_comp := Some Comp_Normal\<rparr>) s))"

definition ath_tgt_tx_cleanup :: "owl_env \<Rightarrow> tidref \<Rightarrow> bool \<Rightarrow> 'a owl_scheme \<Rightarrow> 'a owl_scheme option" where
  "ath_tgt_tx_cleanup env t discard_all s = do {
     s \<leftarrow> cleanup_loop t discard_all (buf_q (an_tid s t)) s;
     let s = ath_aggr_pause_tid t s;
     tid \<leftarrow> baw_flush (an_tid s t);
     let s = s\<lparr>an_tid := (an_tid s)(t := tid)\<rparr>;
     if flag tid AND TID_CLEANUP_INPROGRES = 0 then ath_aggr_resume_tid env t s else Some s }"

text \<open>
  When the last outstanding frame of the TID is counted off, the loop over the aggregate stops: subframes
  behind it are not released.
\<close>

partial_function (option) cleanup_aggr_loop :: "owl_env \<Rightarrow> tidref \<Rightarrow> ath_tx_status \<Rightarrow> ath_rc_series list \<Rightarrow>
    bufref option \<Rightarrow> 'a owl_scheme \<Rightarrow> 'a owl_scheme option" where
  "cleanup_aggr_loop env t ds rcs ob s =
     (case ob of
        None \<Rightarrow> Some s
      | Some b \<Rightarrow> do {
          let nx = bf_next (txbufs s b);
          s \<leftarrow> ath_tx_status_update_aggr env b ds (Some rcs) False s;
          let s = upd_tid t (\<lambda>x. x\<lparr>incomp := incomp x - 1\<rparr>) (ath_tx_freebuf b s);
          if incomp (an_tid s t) = 0
          then ath_aggr_resume_tid env t (upd_tid t (\<lambda>x. x\<lparr>flag := flag x AND NOT TID_CLEANUP_INPROGRES\<rparr>) s)
          else cleanup_aggr_loop env t ds rcs nx s })"

definition ath_tx_comp_cleanup :: "owl_env \<Rightarrow> bufref \<Rightarrow> 'a owl_scheme \<Rightarrow> 'a owl_scheme option" where
  "ath_tx_comp_cleanup env b s = do {
     t \<leftarrow> ATH_AN_2_TID (txbufs s b);
     let bf = txbufs s b;
     let ds = ds_txstat s (bf_lastds bf);
     if \<not> bf_isaggr bf then do {
       s \<leftarrow> ath_update_stats b s;
       s \<leftarrow> ath_tx_status_update env b (stats tx_compunaggr s);
       let s = ath_tx_freebuf b s;
       if flag (an_tid s t) AND TID_CLEANUP_INPROGRES \<noteq> 0 then owl_tgt_tid_cleanup env t s else Some s }
     else do {
       s \<leftarrow> cleanup_aggr_loop env t ds (bf_rcs bf) (Some b) s;
       ath_rate_tx_complete env (fst t) ds (bf_rcs bf) (uint (bf_nframes bf)) 0 (ath_update_aggr_stats ds s) } }"

section \<open>Completion functions\<close>

definition ath_tgt_tx_comp_normal :: "owl_env \<Rightarrow> bufref \<Rightarrow> 'a owl_scheme \<Rightarrow> 'a owl_scheme option" where
  "ath_tgt_tx_comp_normal env b s = do {
     t \<leftarrow> ATH_AN_2_TID (txbufs s b);
     s \<leftarrow> (if flag (an_tid s t) AND TID_CLEANUP_INPROGRES \<noteq> 0 then owl_tgt_tid_cleanup env t s else Some s);
     s \<leftarrow> ath_tx_uc_comp env b s;
     Some (ath_tx_freebuf b s) }"

definition ath_tgt_tx_comp_aggr :: "owl_env \<Rightarrow> bufref \<Rightarrow> 'a owl_scheme \<Rightarrow> 'a owl_scheme option" where
  "ath_tgt_tx_comp_aggr env b s = do {
     t \<leftarrow> ATH_AN_2_TID (txbufs s b);
     if flag (an_tid s t) AND TID_CLEANUP_INPROGRES \<noteq> 0 then ath_tx_comp_cleanup env b s
     else do {
       let bf = txbufs s b;
       let ds = ds_txstat s (bf_lastds bf);
       require (ts_flags ds \<noteq> HAL_TX_SW_FILTERED);
       if \<not> bf_isaggr bf then ath_tx_comp_unaggr env b s
       else do {
         let s = stats tx_compaggr s;
         let tx_ok = (ts_status ds = 0);
         if ts_status ds AND HAL_TXERR_XRETRY \<noteq> 0 then ath_tx_comp_aggr_error env b t s
         else if tx_ok \<and> ts_flags ds AND HAL_TX_BA = 0
         then ath_tx_comp_aggr_error env b t (stats txaggr_babug s)
         else do {
           let acked = (\<lambda>sq. tx_ok \<and> ATH_BA_ISSET (ts_ba_low ds) (ts_ba_high ds) (ATH_BA_INDEX (ucast (ts_seqnum ds)) sq));
           (acc, nbad, s) \<leftarrow> aggr_loop env t acked ds (bf_rcs bf) (Some b) ([], None) 0 s;
           s \<leftarrow> ath_rate_tx_complete env (fst t) ds (bf_rcs bf) (uint (bf_nframes bf)) nbad (ath_update_aggr_stats ds s);
           aggr_finish env (bf_txq bf) t acc s } } } }"

text \<open>Ten retries of a block-ack request end the aggregation session and tell the host.\<close>

definition ath_tgt_delba_send :: "owl_env \<Rightarrow> tidref \<Rightarrow> 'a owl_scheme \<Rightarrow> 'a owl_scheme option" where
  "ath_tgt_delba_send env t s = do {
     let s = upd_tid t (\<lambda>x. x\<lparr>flag := flag x AND NOT TID_AGGR_ENABLED\<rparr>) s;
     s \<leftarrow> ath_tgt_tx_cleanup env t True s;
     Some (emit (Wmi_Event 0x1006 [ni_nodeindex (sc_sta s (fst t)), ucast (tidno (an_tid s t)), 1, 1])
             (stats txbar_xretry s)) }"

definition ath_bar_retry :: "owl_env \<Rightarrow> bufref \<Rightarrow> 'a owl_scheme \<Rightarrow> 'a owl_scheme option" where
  "ath_bar_retry env b s = do {
     t \<leftarrow> ATH_AN_2_TID (txbufs s b);
     let bf = txbufs s b;
     if bf_retries bf \<ge> 10 then do {
       s \<leftarrow> ath_tgt_delba_send env t s;
       let s = ath_tgt_tid_drain t s;
       Some (ath_buf_comp b (upd_buf b (\<lambda>bf. bf\<lparr>bf_comp := None\<rparr>) s)) }
     else do {
       let s = stats txbar_compretries s;
       (b, s) \<leftarrow> (if ds_link s (bf_lastds bf) = None then ath_buf_toggle_retry b (stats txbar_errlast s)
                  else Some (b, s));
       s \<leftarrow> ath_tx_set_retry b (set_link (bf_lastds (txbufs s b)) None s);
       Some (ath_tgt_txq_add_ucast env b s) } }"

definition ath_bar_tx_comp :: "owl_env \<Rightarrow> bufref \<Rightarrow> 'a owl_scheme \<Rightarrow> 'a owl_scheme option" where
  "ath_bar_tx_comp env b s = do {
     t \<leftarrow> ATH_AN_2_TID (txbufs s b);
     if ts_status (ds_txstat s (bf_lastds (txbufs s b))) AND HAL_TXERR_XRETRY \<noteq> 0 then ath_bar_retry env b s
     else do {
       s \<leftarrow> ath_aggr_resume_tid env t s;
       Some (ath_buf_comp b (upd_buf b (\<lambda>bf. bf\<lparr>bf_comp := None\<rparr>) s)) } }"

definition bf_complete :: "owl_env \<Rightarrow> bufref \<Rightarrow> 'a owl_scheme \<Rightarrow> 'a owl_scheme option" where
  "bf_complete env b s = (case bf_comp (txbufs s b) of
       Some Comp_Normal \<Rightarrow> ath_tgt_tx_comp_normal env b s
     | Some Comp_Aggr \<Rightarrow> ath_tgt_tx_comp_aggr env b s
     | Some Comp_Bar \<Rightarrow> ath_bar_tx_comp env b s
     | None \<Rightarrow> do { s \<leftarrow> ath_tx_status_update env b s; Some (ath_buf_comp b s) })"

section \<open>The completed queues\<close>

datatype owl_txq_state = OWL_TXQ_ACTIVE | OWL_TXQ_STOPPED | OWL_TXQ_FILTERED

definition txq_reset_link :: "nat \<Rightarrow> 'a owl_scheme \<Rightarrow> 'a owl_scheme" where
  "txq_reset_link q s = upd_txq q (\<lambda>x. x\<lparr>axq_link := None, axq_linkbuf := None\<rparr>) s"

definition processq_take :: "nat \<Rightarrow> bufref \<Rightarrow> 'a owl_scheme \<Rightarrow> 'a owl_scheme" where
  "processq_take q b s =
     (let s = ATH_TXQ_REMOVE_HEAD q b s
      in if axq_q (sc_txq s q) = [] then txq_reset_link q (stats tx_qnull s) else s)"

definition processq_status :: "owl_txq_state \<Rightarrow> bufref \<Rightarrow> 'a owl_scheme \<Rightarrow> 'a owl_scheme" where
  "processq_status txqstate d s =
     (if txqstate = OWL_TXQ_STOPPED
      then (stats tx_stopfiltered s)\<lparr>ds_txstat := (ds_txstat s)(d := (ds_txstat s d)\<lparr>ts_flags := 0, ts_status := 0\<rparr>)\<rparr>
      else s\<lparr>ds_txstat := (ds_txstat s)(d := (ds_txstat s d)\<lparr>ts_flags := HAL_TX_SW_FILTERED\<rparr>)\<rparr>)"

partial_function (option) owltgt_tx_processq :: "owl_env \<Rightarrow> nat \<Rightarrow> owl_txq_state \<Rightarrow> 'a owl_scheme \<Rightarrow> 'a owl_scheme option" where
  "owltgt_tx_processq env q txqstate s =
     (case axq_q (sc_txq s q) of
        [] \<Rightarrow> Some (txq_reset_link q s)
      | b # _ \<Rightarrow>
          let d = bf_lastds (txbufs s b); (st, s) = ah_procTxDesc env d s in
          if st = HAL_EINPROGRESS \<and> txqstate = OWL_TXQ_ACTIVE then Some s
          else do {
            let s = (if st = HAL_EINPROGRESS then processq_status txqstate d s else s);
            s \<leftarrow> bf_complete env b (processq_take q b s);
            s \<leftarrow> (if txqstate = OWL_TXQ_ACTIVE then ath_tgt_txq_schedule env q s else Some s);
            owltgt_tx_processq env q txqstate s })"

definition owltgt_tx_process_cabq :: "owl_env \<Rightarrow> nat \<Rightarrow> 'a owl_scheme \<Rightarrow> 'a owl_scheme option" where
  "owltgt_tx_process_cabq env q s = do {
     s \<leftarrow> owltgt_tx_processq env q OWL_TXQ_ACTIVE (emit (Hal_setInterrupts (sc_imask s AND NOT HAL_INT_SWBA)) s);
     Some (emit (Hal_setInterrupts (sc_imask s)) s) }"

text \<open>Queues 0 to 3 are served.\<close>

definition owl_tgt_tx_tasklet :: "owl_env \<Rightarrow> 'a owl_scheme \<Rightarrow> 'a owl_scheme option" where
  "owl_tgt_tx_tasklet env s = do {
     s \<leftarrow> foldM (\<lambda>s i.
            if bit (sc_txqsetup s) i
            then if i = sc_cabq s then owltgt_tx_process_cabq env i s else owltgt_tx_processq env i OWL_TXQ_ACTIVE s
            else Some s) (ath_tx_status_clear s) [0..<HAL_NUM_TX_QUEUES - 6];
     Some (ath_tx_status_send s) }"

end
