(* ===== verification/Owl_Aggr.thy ===== *)
theory Owl_Aggr
  imports Owl_Comp Rate_Find
begin

text \<open>
  The formation of an aggregate: the rates of a frame are always found, the loop takes a prefix of the
  queue of the TID, records its frames in the window, links them, and stays within the limits on length
  and on the number of subframes.
\<close>

section \<open>Reading the state after an update\<close>

lemmas owl_upd = upd_buf_def upd_tid_def upd_txq_def upd_node_def set_link_def emit_def statsn_def stat_if_def

definition window_wf :: "ath_atx_tid \<Rightarrow> bool" where
  "window_wf tid \<longleftrightarrow> baw_inv tid \<and> unat (baw_size tid) < 128 \<and> baw_len tid \<le> unat (baw_size tid)"

lemma window_frame [simp]:
  "window_wf (tid\<lparr>buf_q := x\<rparr>) = window_wf tid" "window_wf (tid\<lparr>paused := y\<rparr>) = window_wf tid"
  "window_wf (tid\<lparr>sched := y\<rparr>) = window_wf tid" "window_wf (tid\<lparr>flag := y\<rparr>) = window_wf tid"
  "baw_outstanding (tid\<lparr>buf_q := x\<rparr>) = baw_outstanding tid" "baw_outstanding (tid\<lparr>paused := y\<rparr>) = baw_outstanding tid"
  "baw_outstanding (tid\<lparr>sched := y\<rparr>) = baw_outstanding tid" "baw_outstanding (tid\<lparr>flag := y\<rparr>) = baw_outstanding tid"
  by (simp_all add: window_wf_def baw_inv_def baw_len_def baw_bit_def [abs_def] baw_slot_def [abs_def] baw_outstanding_def
    baw_abs_def [abs_def])

lemma addto_baw_fields [simp]:
  "buf_q (ath_tx_addto_baw tid bf) = buf_q tid" "baw_size (ath_tx_addto_baw tid bf) = baw_size tid"
  "seq_start (ath_tx_addto_baw tid bf) = seq_start tid" "paused (ath_tx_addto_baw tid bf) = paused tid"
  "sched (ath_tx_addto_baw tid bf) = sched tid" "flag (ath_tx_addto_baw tid bf) = flag tid"
  "tidno (ath_tx_addto_baw tid bf) = tidno tid"
  by (simp_all add: ath_tx_addto_baw_def Let_def)

section \<open>Frames handed back\<close>

text \<open>The network buffers that were returned to the host, in order.\<close>

definition returned :: "owl_act list \<Rightarrow> nbufref list" where
  "returned as = [k. Htc_ReturnBuffers e k \<leftarrow> as]"

lemma returned_simps [simp]:
  "returned [] = []" "returned (as @ bs) = returned as @ returned bs"
  "returned (Htc_ReturnBuffers e k # as) = k # returned as"
  "returned (map (Htc_ReturnBuffers e) ks) = ks"
  by (simp_all add: returned_def, induction ks, simp_all)

lemma returned_other [simp]:
  "returned (Hal_clr11nAggr b # as) = returned as" "returned (Hal_set11nBurstDuration b # as) = returned as"
  "returned (Hal_set11nVirtualMoreFrag b # as) = returned as" "returned (Dma_Unmap b # as) = returned as"
  "returned (Dma_Map b x # as) = returned as" "returned (Hal_fillTxDesc b n c d # as) = returned as"
  "returned (Hal_set11nTxDesc b i j k l m # as) = returned as"
  by (simp_all add: returned_def)

lemma returned_hal [simp]:
  "returned (Hal_procTxDesc b # as) = returned as" "returned (Hal_setTxDP n b # as) = returned as"
  "returned (Hal_readTxe # as) = returned as" "returned (Hal_startTxDma n # as) = returned as"
  "returned (Hal_set11nRateScenario b i j ss k # as) = returned as" "returned (Hal_set11nAggrFirst b x y # as) = returned as"
  "returned (Hal_set11nAggrLast b # as) = returned as" "returned (Hal_set11nAggrMiddle b y # as) = returned as"
  by (simp_all add: returned_def)

section \<open>The rates of a frame\<close>

definition rates_ok :: "owl_env \<Rightarrow> 'a owl_scheme \<Rightarrow> nat \<Rightarrow> bool" where
  "rates_ok env s n = (case (hwRateTable env (sc_curmode s), an_rcnode (sc_sta s n)) of
     (Some rt, Some an) \<Rightarrow> rate_wf rt an \<and> list_all (\<lambda>r. unat (baseIndex r) < length (sc_currates s)) (info rt) \<and>
       11 < length (sc_currates s)
   | _ \<Rightarrow> False)"

definition rcs_ok :: "'a owl_scheme \<Rightarrow> ath_rc_series list \<Rightarrow> bool" where
  "rcs_ok s rcs \<longleftrightarrow> length rcs = 4 \<and> (\<forall>x\<in>set rcs. rcs_tries x \<noteq> 0 \<longrightarrow> unat (rcs_rix x) < length (sc_currates s))"

definition rates_set :: "'a owl_scheme \<Rightarrow> ath_rc_series list \<Rightarrow> bool" where
  "rates_set s rcs \<longleftrightarrow> rcs_ok s rcs \<and> unat (rcs_rix (rcs ! 0)) < length (sc_currates s)"

lemma rates_ok_cong:
  "sc_curmode s' = sc_curmode s \<Longrightarrow> sc_currates s' = sc_currates s \<Longrightarrow>
   an_rcnode (sc_sta s' n) = an_rcnode (sc_sta s n) \<Longrightarrow> rates_ok env s' n = rates_ok env s n"
  by (simp add: rates_ok_def cong: option.case_cong)

lemma rates_ok_upd [simp]:
  "rates_ok env (upd_buf b f s) n = rates_ok env s n" "rates_ok env (upd_tid t g s) n = rates_ok env s n"
  "rates_ok env (set_link b l s) n = rates_ok env s n" "rates_ok env (emit a s) n = rates_ok env s n"
  by (rule rates_ok_cong, simp_all add: owl_upd)+

lemma findrate_returns:
  assumes "rates_ok env s n" "length series = 4"
  shows "\<exists>rcs p an asc. ath_tgt_rate_findrate env n series s =
    Some (rcs, p, upd_node n (\<lambda>a. a\<lparr>an_rcnode := Some an\<rparr>) (s\<lparr>sc_rc := asc\<rparr>)) \<and> rcs_ok s rcs \<and>
    unat (rcs_rix (rcs ! 0)) < length (sc_currates s) \<and>
    rates_ok env (upd_node n (\<lambda>a. a\<lparr>an_rcnode := Some an\<rparr>) (s\<lparr>sc_rc := asc\<rparr>)) n"
proof -
  obtain rt an where 1: "hwRateTable env (sc_curmode s) = Some rt" "an_rcnode (sc_sta s n) = Some an" "rate_wf rt an"
    "list_all (\<lambda>r. unat (baseIndex r) < length (sc_currates s)) (info rt)" "11 < length (sc_currates s)"
    using assms(1) by (auto simp: rates_ok_def split: option.splits)
  obtain rcs p asc an' where r: "ath_rate_findrate_11n (merlin env) (sc_curmode s = 1) rt (uptime env (acts s)) 10 4 1
      ATH_RC_PROBE_ALLOWED series (sc_rc s) an = Some (rcs, p, asc, an')" "rate_wf rt an'" "length rcs = 4"
      "\<forall>j<4. rix_ok rt (rcs ! j)"
    using rcRateFind_11n_run [OF 1(3), of 4 series 10 "merlin env" "sc_curmode s = 1" "uptime env (acts s)" 1
        ATH_RC_PROBE_ALLOWED "sc_rc s"] assms(2)
    by (auto simp: ath_rate_findrate_11n_def)
  have "unat (rcs_rix (rcs ! j)) < length (sc_currates s)" if "j < 4" for j
    using r(4) that 1(4) by (auto simp: rix_ok_def list_all_length)
  then have "rcs_ok s rcs" "unat (rcs_rix (rcs ! 0)) < length (sc_currates s)"
    using r(3) by (auto simp: rcs_ok_def in_set_conv_nth)
  then show ?thesis
    using 1 r(1,2) by (auto simp: ath_tgt_rate_findrate_def rates_ok_def upd_node_def)
qed

lemma min4ms_returns:
  assumes "\<forall>x\<in>set rcs. rcs_tries x \<noteq> 0 \<longrightarrow> unat (rcs_rix x) < length (sc_currates s)"
  shows "\<exists>legacy m'. min4ms s rcs m = Some (legacy, m') \<and> m' \<le> m"
proof -
  have "\<exists>l' m'. foldM (\<lambda>(legacy, m) rc.
     if legacy \<or> rcs_tries rc = 0 then Some (legacy, m)
     else do {
       r \<leftarrow> at (sc_currates s) (unat (rcs_rix rc));
       Some (if hr_phy r \<noteq> IEEE80211_T_HT then (True, m) else (False, min m (rcs_max4msframelen rc))) }) (l, m) rcs
     = Some (l', m') \<and> m' \<le> m" for l
    using assms
  proof (induction rcs arbitrary: l m)
    case (Cons x rcs)
    have a: "\<exists>l' m'. foldM (\<lambda>(legacy, m) rc.
     if legacy \<or> rcs_tries rc = 0 then Some (legacy, m)
     else do {
       r \<leftarrow> at (sc_currates s) (unat (rcs_rix rc));
       Some (if hr_phy r \<noteq> IEEE80211_T_HT then (True, m) else (False, min m (rcs_max4msframelen rc))) }) (l2, m2) rcs
     = Some (l', m') \<and> m' \<le> m" if "m2 \<le> m" for l2 m2
      using Cons.IH [of l2 m2] Cons.prems that by (auto intro: order_trans)
    show ?case
      using a [of m l] a [of m True] a [of "min m (rcs_max4msframelen x)" False] Cons.prems by (auto simp: at_def)
  qed simp
  then show ?thesis by (simp add: min4ms_def)
qed

text \<open>The state after a rate was looked up: only the rate state and the series of the frame have changed.\<close>

definition looked_up :: "nat \<Rightarrow> bufref \<Rightarrow> 'a owl_scheme \<Rightarrow> 'a owl_scheme \<Rightarrow> bool" where
  "looked_up n b s s' \<longleftrightarrow> (\<exists>asc r rcs. s' = upd_buf b (\<lambda>bf. bf\<lparr>bf_rcs := rcs\<rparr>) (upd_node n (\<lambda>a. a\<lparr>an_rcnode := r\<rparr>) (s\<lparr>sc_rc := asc\<rparr>)) \<and>
     rates_set s rcs)"

lemma lookup_rate_returns:
  assumes "rates_ok env s n" "length (bf_rcs (txbufs s b)) = 4"
  shows "\<exists>lim s'. ath_lookup_rate env n b s = Some (lim, s') \<and> looked_up n b s s' \<and> rates_ok env s' n \<and>
    uint lim \<le> uint (ic_ampdu_limit (sc_ic s)) \<and>
    (ni_maxampdu (sc_sta s n) \<noteq> 0 \<longrightarrow> lim \<le> ni_maxampdu (sc_sta s n))"
proof -
  let ?bf = "txbufs s b"
  have "\<exists>prate rcs asc r. (if bf_ismcast ?bf then do {
          require (4 \<le> length (bf_rcs ?bf));
          let rcs = (bf_rcs ?bf)[0 := (bf_rcs ?bf ! 0)\<lparr>rcs_rix := 0x0b, rcs_tries := 10, rcs_flags := 0\<rparr>,
                                1 := (bf_rcs ?bf ! 1)\<lparr>rcs_tries := 0\<rparr>, 2 := (bf_rcs ?bf ! 2)\<lparr>rcs_tries := 0\<rparr>,
                                3 := (bf_rcs ?bf ! 3)\<lparr>rcs_tries := 0\<rparr>];
          Some (junk_prate env, upd_buf b (\<lambda>bf. bf\<lparr>bf_rcs := rcs\<rparr>) s) }
        else do {
          (rcs, prate, s) \<leftarrow> ath_tgt_rate_findrate env n (bf_rcs ?bf) s;
          Some (prate, upd_buf b (\<lambda>bf. bf\<lparr>bf_rcs := rcs\<rparr>) s) }) =
      Some (prate, upd_buf b (\<lambda>bf. bf\<lparr>bf_rcs := rcs\<rparr>) (upd_node n (\<lambda>a. a\<lparr>an_rcnode := r\<rparr>) (s\<lparr>sc_rc := asc\<rparr>))) \<and>
      rates_set s rcs \<and> rates_ok env (upd_node n (\<lambda>a. a\<lparr>an_rcnode := r\<rparr>) (s\<lparr>sc_rc := asc\<rparr>)) n"
  proof (cases "bf_ismcast ?bf")
    case True
    let ?rcs = "(bf_rcs ?bf)[0 := (bf_rcs ?bf ! 0)\<lparr>rcs_rix := 0x0b, rcs_tries := 10, rcs_flags := 0\<rparr>,
                                1 := (bf_rcs ?bf ! 1)\<lparr>rcs_tries := 0\<rparr>, 2 := (bf_rcs ?bf ! 2)\<lparr>rcs_tries := 0\<rparr>,
                                3 := (bf_rcs ?bf ! 3)\<lparr>rcs_tries := 0\<rparr>]"
    have n: "upd_node n (\<lambda>a. a\<lparr>an_rcnode := an_rcnode (sc_sta s n)\<rparr>) (s\<lparr>sc_rc := sc_rc s\<rparr>) = s"
      by (simp add: upd_node_def)
    have "11 < length (sc_currates s)" using assms(1) by (auto simp: rates_ok_def split: option.splits)
    moreover obtain w x y z where "bf_rcs ?bf = [w, x, y, z]"
      using assms(2) by (auto simp: length_Suc_conv numeral_eq_Suc)
    moreover have "unat (0x0b :: u8) = 11" by simp
    ultimately have "rates_set s ?rcs" by (simp add: rcs_ok_def rates_set_def)
    then show ?thesis
      using True assms n
      by (intro exI [of _ "junk_prate env"] exI [of _ ?rcs] exI [of _ "sc_rc s"] exI [of _ "an_rcnode (sc_sta s n)"])
        (simp add: Let_def require_def)
  next
    case False
    obtain rcs p an asc where
      "ath_tgt_rate_findrate env n (bf_rcs ?bf) s = Some (rcs, p, upd_node n (\<lambda>a. a\<lparr>an_rcnode := Some an\<rparr>) (s\<lparr>sc_rc := asc\<rparr>))"
      "rates_set s rcs" "rates_ok env (upd_node n (\<lambda>a. a\<lparr>an_rcnode := Some an\<rparr>) (s\<lparr>sc_rc := asc\<rparr>)) n"
      using findrate_returns [OF assms] unfolding rates_set_def by blast
    then show ?thesis using False
      by (intro exI [of _ p] exI [of _ rcs] exI [of _ asc] exI [of _ "Some an"]) simp
  qed
  then obtain prate rcs asc r where r: "(if bf_ismcast ?bf then do {
          require (4 \<le> length (bf_rcs ?bf));
          let rcs = (bf_rcs ?bf)[0 := (bf_rcs ?bf ! 0)\<lparr>rcs_rix := 0x0b, rcs_tries := 10, rcs_flags := 0\<rparr>,
                                1 := (bf_rcs ?bf ! 1)\<lparr>rcs_tries := 0\<rparr>, 2 := (bf_rcs ?bf ! 2)\<lparr>rcs_tries := 0\<rparr>,
                                3 := (bf_rcs ?bf ! 3)\<lparr>rcs_tries := 0\<rparr>];
          Some (junk_prate env, upd_buf b (\<lambda>bf. bf\<lparr>bf_rcs := rcs\<rparr>) s) }
        else do {
          (rcs, prate, s) \<leftarrow> ath_tgt_rate_findrate env n (bf_rcs ?bf) s;
          Some (prate, upd_buf b (\<lambda>bf. bf\<lparr>bf_rcs := rcs\<rparr>) s) }) =
      Some (prate, upd_buf b (\<lambda>bf. bf\<lparr>bf_rcs := rcs\<rparr>) (upd_node n (\<lambda>a. a\<lparr>an_rcnode := r\<rparr>) (s\<lparr>sc_rc := asc\<rparr>)))"
      "rates_set s rcs" "rates_ok env (upd_node n (\<lambda>a. a\<lparr>an_rcnode := r\<rparr>) (s\<lparr>sc_rc := asc\<rparr>)) n" by blast
  let ?s = "upd_buf b (\<lambda>bf. bf\<lparr>bf_rcs := rcs\<rparr>) (upd_node n (\<lambda>a. a\<lparr>an_rcnode := r\<rparr>) (s\<lparr>sc_rc := asc\<rparr>))"
  have s: "sc_ic ?s = sc_ic s" "bf_rcs (txbufs ?s b) = rcs" "ni_maxampdu (sc_sta ?s n) = ni_maxampdu (sc_sta s n)"
    "sc_currates ?s = sc_currates s" by (simp_all add: owl_upd)
  obtain legacy m where m: "min4ms ?s (take 4 rcs) 0xFFFF = Some (legacy, m)" "m \<le> 0xFFFF"
    using min4ms_returns [where rcs = "take 4 rcs" and s = ?s and m = "0xFFFF"] r(2) s(4) by (auto simp: rcs_ok_def rates_set_def)
  have l: "looked_up n b s ?s" using r(2) unfolding looked_up_def by blast
  have ok: "rates_ok env ?s n" using r(3) by simp
  have lim: "uint (ucast (min x (ic_ampdu_limit (sc_ic s)) :: u32) :: u16) \<le> uint (ic_ampdu_limit (sc_ic s))" for x
  proof -
    have "uint (ucast (y :: u32) :: u16) \<le> uint y" for y by (simp add: unsigned_ucast_eq take_bit_int_less_eq_self_iff)
    moreover have "uint (min x (ic_ampdu_limit (sc_ic s))) \<le> uint (ic_ampdu_limit (sc_ic s))"
      by (simp add: word_le_def [symmetric])
    ultimately show ?thesis by (rule order_trans)
  qed
  have min16: "uint (min a b) \<le> uint (a :: u16)" for a b by (simp add: word_le_def [symmetric])
  show ?thesis
    using l ok lim [of m] lim [of "(m * 3) div 8"] order_trans [OF min16 lim]
    by (simp add: ath_lookup_rate_def Let_def r(1) s m(1))
qed

section \<open>The length of an aggregate\<close>

text \<open>
  The length on the air, over the integers: a subframe is its delimiter and its frame; behind every
  subframe but the last come the bytes up to the next multiple of four and the further delimiters.
\<close>

definition frame_len :: "ath_tx_buf \<Rightarrow> int" where
  "frame_len bf = 4 + uint (bf_pktlen bf)"

definition frame_delims :: "ath_tx_buf \<Rightarrow> int" where
  "frame_delims bf = (if uint (bf_pktlen bf) < 252 then (252 - uint (bf_pktlen bf)) div 4 else 0) + uint (key_delims (bf_keytype bf))"

definition frame_pad :: "ath_tx_buf \<Rightarrow> int" where
  "frame_pad bf = (4 - frame_len bf mod 4) mod 4 + 4 * frame_delims bf"

fun agg_len :: "(bufref \<Rightarrow> ath_tx_buf) \<Rightarrow> bufref list \<Rightarrow> int" where
  "agg_len f [] = 0"
| "agg_len f [b] = frame_len (f b)"
| "agg_len f (b # c # bs) = frame_len (f b) + frame_pad (f b) + agg_len f (c # bs)"

lemma agg_len_snoc: "bs \<noteq> [] \<Longrightarrow> agg_len f (bs @ [b]) = agg_len f bs + frame_pad (f (last bs)) + frame_len (f b)"
  by (induction f bs rule: agg_len.induct) auto

lemma subframes_aligned: "4 dvd frame_len bf + frame_pad bf" and subframes_spaced: "256 \<le> frame_len bf + frame_pad bf"
proof -
  let ?n = "uint (bf_pktlen bf)" and ?k = "uint (key_delims (bf_keytype bf))"
  show "4 dvd frame_len bf + frame_pad bf"
    unfolding frame_pad_def frame_len_def by presburger
  have "256 \<le> 4 + n + ((4 - (4 + n) mod 4) mod 4 + 4 * ((if n < 252 then (252 - n) div 4 else 0) + k))"
    if "0 \<le> k" for n k :: int
    using that by (cases "n < 252") (simp only: if_True if_False, presburger)+
  then show "256 \<le> frame_len bf + frame_pad bf"
    unfolding frame_pad_def frame_len_def frame_delims_def by simp
qed

lemma uint_key_delims: "uint (key_delims k) \<le> 64"
  by (simp add: key_delims_def)

lemma uint_ndelims:
  "uint (ucast (ATH_AGGR_GET_NDELIM (ucast (bf_pktlen bf))) + key_delims (bf_keytype bf) :: u8) = frame_delims bf"
  and frame_delims_le: "frame_delims bf \<le> 127" and frame_delims_nonneg: "0 \<le> frame_delims bf"
proof -
  let ?n = "bf_pktlen bf"
  have u: "uint (ucast ?n :: u32) = uint ?n"
    using unat_ucast_16_32 [of ?n] by (simp only: uint_nat)
  have n: "0 \<le> uint ?n" "uint ?n < 65536" using unsigned_less [of ?n] by auto
  have a: "uint (ucast ?n + 4 :: u32) = uint ?n + 4"
    using n by (simp add: uint_word_ariths u mod_pos_pos_trivial)
  have "uint (ATH_AGGR_GET_NDELIM (ucast ?n)) = (if uint ?n < 252 then (252 - uint ?n) div 4 else 0)"
  proof (cases "uint ?n < 252")
    case True
    have "uint (256 - ucast ?n - 4 :: u32) = 252 - uint ?n"
    proof -
      have "0 \<le> 252 - uint ?n" "252 - uint ?n < 4294967296" using True n by linarith+
      then show ?thesis using mod_pos_pos_trivial [of "252 - uint ?n" 4294967296] by (simp add: uint_word_ariths u)
    qed
    moreover have "(ucast ?n :: u32) + 4 < 256" using True a by (simp add: word_less_def)
    ultimately show ?thesis
      using True by (simp add: ATH_AGGR_GET_NDELIM_def drop_bit_eq_div uint_div)
  next
    case False
    then have "\<not> (ucast ?n :: u32) + 4 < 256" using a by (simp add: word_less_def)
    with False show ?thesis by (simp add: ATH_AGGR_GET_NDELIM_def)
  qed
  moreover have "(if m < 252 then (252 - m) div 4 else 0) \<le> 63" "0 \<le> (if m < 252 then (252 - m) div 4 else 0)"
    if "0 \<le> m" for m :: int
    using that by (simp_all only: split: if_split) presburger+
  from this [OF n(1)] have "(if uint ?n < 252 then (252 - uint ?n) div 4 else 0) \<le> 63"
    "0 \<le> (if uint ?n < 252 then (252 - uint ?n) div 4 else 0)" .
  ultimately have b: "uint (ucast (ATH_AGGR_GET_NDELIM (ucast ?n)) :: u8) = (if uint ?n < 252 then (252 - uint ?n) div 4 else 0)"
    and c: "(if uint ?n < 252 then (252 - uint ?n) div 4 else 0) \<le> 63" "0 \<le> (if uint ?n < 252 then (252 - uint ?n) div 4 else 0)"
    by (simp_all add: unsigned_ucast_eq take_bit_int_eq_self)
  show "frame_delims bf \<le> 127" "0 \<le> frame_delims bf"
    using c uint_key_delims [of "bf_keytype bf"] by (simp_all add: frame_delims_def)
  show "uint (ucast (ATH_AGGR_GET_NDELIM (ucast ?n)) + key_delims (bf_keytype bf) :: u8) = frame_delims bf"
    unfolding uint_word_ariths b
    using c uint_key_delims [of "bf_keytype bf"] by (simp add: frame_delims_def mod_pos_pos_trivial)
qed

lemma uint_al_delta: "uint (bf_pktlen bf) \<le> 65531 \<Longrightarrow> uint (4 + bf_pktlen bf) = frame_len bf"
  using mod_pos_pos_trivial [of "4 + uint (bf_pktlen bf)" 65536]
  by (simp add: uint_word_ariths frame_len_def)

lemma uint_bpad:
  assumes "uint (bf_pktlen bf) \<le> 65531" "uint nd = frame_delims bf"
  shows "uint (ucast (PADBYTES (ucast (4 + bf_pktlen bf))) + push_bit 2 (ucast (nd :: u8)) :: u16) = frame_pad bf"
proof -
  let ?l = "4 + bf_pktlen bf"
  have l: "uint (ucast ?l :: u32) = frame_len bf"
    using unat_ucast_16_32 [of ?l] uint_al_delta [OF assms(1)] by (simp only: uint_nat)
  have m: "uint ((ucast ?l :: u32) mod 4) = frame_len bf mod 4" by (simp add: uint_mod l)
  have r: "0 \<le> 4 - frame_len bf mod 4" "4 - frame_len bf mod 4 < 4294967296" by simp_all
  have "uint (4 - (ucast ?l :: u32) mod 4) = 4 - frame_len bf mod 4"
    using mod_pos_pos_trivial [OF r] m by (simp add: uint_word_ariths)
  then have p: "uint (PADBYTES (ucast ?l)) = (4 - frame_len bf mod 4) mod 4" by (simp add: PADBYTES_def uint_mod)
  have q: "uint (ucast nd :: u16) = frame_delims bf"
    using unat_ucast_8_16 [of nd] assms(2) by (simp only: uint_nat)
  have "0 \<le> frame_delims bf * 4" "frame_delims bf * 4 < 65536"
    using frame_delims_le [of bf] frame_delims_nonneg [of bf] by simp_all
  then have d: "uint (push_bit 2 (ucast nd) :: u16) = 4 * frame_delims bf"
    using mod_pos_pos_trivial [of "frame_delims bf * 4" 65536] q
    by (simp add: push_bit_eq_mult uint_word_ariths mult.commute)
  have c: "uint (ucast (PADBYTES (ucast ?l)) :: u16) = (4 - frame_len bf mod 4) mod 4"
    using p by (simp add: unsigned_ucast_eq take_bit_int_eq_self)
  have "0 \<le> frame_pad bf" "frame_pad bf < 65536"
    using frame_delims_le [of bf] frame_delims_nonneg [of bf] pos_mod_bound [of 4 "4 - frame_len bf mod 4"]
    by (simp_all add: frame_pad_def)
  then show ?thesis
    using mod_pos_pos_trivial [of "frame_pad bf" 65536] c d by (simp add: uint_word_ariths frame_pad_def)
qed

section \<open>The loop\<close>

text \<open>What the loop never changes in a buffer.\<close>

definition frame_key :: "ath_tx_buf \<Rightarrow> u16 \<times> u16 \<times> u8 \<times> bool \<times> comp_fn option \<times> bufref \<times> u8 \<times> nat \<times> nbufref list" where
  "frame_key bf = (bf_pktlen bf, bf_seqno bf, bf_keytype bf, bf_isretried bf, bf_comp bf, bf_lastds bf, bf_retries bf,
     length (bf_rcs bf), bf_skbhead bf)"

lemma frame_key_upd [simp]:
  "frame_key (bf\<lparr>bf_ndelim := a\<rparr>) = frame_key bf" "frame_key (bf\<lparr>bf_next := b\<rparr>) = frame_key bf"
  "frame_key (bf\<lparr>bf_al := c\<rparr>) = frame_key bf" "frame_key (bf\<lparr>bf_nframes := d\<rparr>) = frame_key bf"
  "length rcs = length (bf_rcs bf) \<Longrightarrow> frame_key (bf\<lparr>bf_rcs := rcs\<rparr>) = frame_key bf"
  by (simp_all add: frame_key_def)

lemma frame_keyD:
  assumes "frame_key x = frame_key y"
  shows "bf_pktlen x = bf_pktlen y" "bf_seqno x = bf_seqno y" "bf_keytype x = bf_keytype y" "bf_isretried x = bf_isretried y"
    "bf_comp x = bf_comp y" "bf_lastds x = bf_lastds y" "length (bf_rcs x) = length (bf_rcs y)" "frame_len x = frame_len y"
    "frame_pad x = frame_pad y"
  using assms by (simp_all add: frame_key_def frame_len_def frame_pad_def frame_delims_def)

text \<open>A frame that waits in the queue of a TID.\<close>

definition waiting_ok :: "ath_tx_buf \<Rightarrow> bufref \<Rightarrow> bool" where
  "waiting_ok bf b \<longleftrightarrow> bf_comp bf = Some Comp_Aggr \<and> length (bf_rcs bf) = 4 \<and> bf_lastds bf = b \<and> uint (bf_pktlen bf) \<le> 65531"

lemma waiting_ok_key: "frame_key x = frame_key y \<Longrightarrow> waiting_ok x b = waiting_ok y b"
  by (simp add: frame_key_def waiting_ok_def)

definition fresh_seqs :: "(bufref \<Rightarrow> ath_tx_buf) \<Rightarrow> bufref list \<Rightarrow> nat set" where
  "fresh_seqs f bs = {unat (bf_seqno (f b)) div 16 | b. b \<in> set bs \<and> \<not> bf_isretried (f b)}"

lemma fresh_seqs_snoc: "fresh_seqs f (bs @ [b]) =
    (if bf_isretried (f b) then fresh_seqs f bs else insert (unat (bf_seqno (f b)) div 16) (fresh_seqs f bs))"
  by (auto simp: fresh_seqs_def)

text \<open>The frames of the aggregate follow each other, in software and in the descriptors.\<close>

definition chained :: "'a owl_scheme \<Rightarrow> bufref list \<Rightarrow> bool" where
  "chained s q = successively (\<lambda>p c. bf_next (txbufs s p) = Some c \<and> ds_link s (bf_lastds (txbufs s p)) = Some c) q"

text \<open>The invariant of the loop, relative to the state \<open>s0\<close> and the queue \<open>q0\<close> it started with.\<close>

definition tid_key :: "ath_atx_tid \<Rightarrow> u32 \<times> u16 \<times> u16 \<times> u8 \<times> u8 \<times> u8" where
  "tid_key tid = (tidno tid, seq_start tid, baw_size tid, paused tid, sched tid, flag tid)"

definition lim_ok :: "nat \<Rightarrow> 'a owl_scheme \<Rightarrow> u16 \<Rightarrow> bool" where
  "lim_ok n s l \<longleftrightarrow> uint l \<le> uint (ic_ampdu_limit (sc_ic s)) \<and> (ni_maxampdu (sc_sta s n) \<noteq> 0 \<longrightarrow> l \<le> ni_maxampdu (sc_sta s n))"

definition max_count :: "owl_env \<Rightarrow> ath_atx_tid \<Rightarrow> nat" where
  "max_count env tid = unat (min (ucast (baw_size tid div 2)) (max_subframes env))"

definition loop_frame :: "tidref \<Rightarrow> 'a owl_scheme \<Rightarrow> 'a owl_scheme \<Rightarrow> bool" where
  "loop_frame t s0 s \<longleftrightarrow> tid_key (an_tid s t) = tid_key (an_tid s0 t) \<and> (\<forall>u. u \<noteq> t \<longrightarrow> an_tid s u = an_tid s0 u) \<and>
     (\<forall>b. frame_key (txbufs s b) = frame_key (txbufs s0 b)) \<and> sc_ic s = sc_ic s0 \<and> sc_txq s = sc_txq s0 \<and>
     sc_txbuf s = sc_txbuf s0 \<and> sc_txbuf_held s = sc_txbuf_held s0 \<and> frames s = frames s0 \<and>
     (\<forall>n. ni_maxampdu (sc_sta s n) = ni_maxampdu (sc_sta s0 n)) \<and> sc_currates s = sc_currates s0 \<and>
     sc_protrix s = sc_protrix s0 \<and> sc_ac2q s = sc_ac2q s0 \<and> returned (acts s) = returned (acts s0) \<and>
     (\<forall>b. bf_txq (txbufs s b) = bf_txq (txbufs s0 b))"

definition agg_ok :: "owl_env \<Rightarrow> tidref \<Rightarrow> 'a owl_scheme \<Rightarrow> aggr \<Rightarrow> bool" where
  "agg_ok env t s0 g \<longleftrightarrow> (let f = txbufs s0; q = ag_q g; tid = an_tid s0 t in
     (\<forall>b\<in>set q. BAW_WITHIN (seq_start tid) (baw_size tid) (SEQNO_FROM_BF_SEQNO (bf_seqno (f b)))) \<and>
     length q \<le> max_count env tid \<and> uint (ag_al g) = agg_len f q \<and>
     uint (ag_bpad g) = (if q = [] then 0 else frame_pad (f (last q))) \<and>
     (q \<noteq> [] \<longrightarrow> ag_lim g \<noteq> None) \<and>
     (\<forall>l. ag_lim g = Some l \<longrightarrow> lim_ok (fst t) s0 l \<and> (2 \<le> length q \<longrightarrow> agg_len f q \<le> uint l)))"

definition agg_inv :: "owl_env \<Rightarrow> tidref \<Rightarrow> 'a owl_scheme \<Rightarrow> bufref list \<Rightarrow> aggr \<Rightarrow> 'a owl_scheme \<Rightarrow> bool" where
  "agg_inv env t s0 q0 g s \<longleftrightarrow> ag_q g @ buf_q (an_tid s t) = q0 \<and> loop_frame t s0 s \<and> agg_ok env t s0 g \<and>
     window_wf (an_tid s t) \<and> rates_ok env s (fst t) \<and>
     baw_outstanding (an_tid s t) = baw_outstanding (an_tid s0 t) \<union> fresh_seqs (txbufs s0) (ag_q g) \<and> chained s (ag_q g) \<and>
     (ag_q g \<noteq> [] \<longrightarrow> rates_set s (bf_rcs (txbufs s (hd (ag_q g)))))"

lemma agg_inv_lookup:
  assumes "agg_inv env t s0 q0 g s" "ag_lim g = None" "waiting_ok (txbufs s b) b"
  shows "\<exists>l s'. ath_lookup_rate env (fst t) b s = Some (l, s') \<and> agg_inv env t s0 q0 (g\<lparr>ag_lim := Some l\<rparr>) s' \<and>
    frame_key (txbufs s' b) = frame_key (txbufs s b) \<and> an_tid s' = an_tid s \<and> rates_set s' (bf_rcs (txbufs s' b))"
proof -
  have i: "rates_ok env s (fst t)" "loop_frame t s0 s" "agg_ok env t s0 g" "ag_q g = []"
    using assms(1,2) by (auto simp: agg_inv_def agg_ok_def Let_def)
  have w: "length (bf_rcs (txbufs s b)) = 4" using assms(3) by (simp add: waiting_ok_def)
  obtain l s' where l: "ath_lookup_rate env (fst t) b s = Some (l, s')" "looked_up (fst t) b s s'" "rates_ok env s' (fst t)"
    "lim_ok (fst t) s l"
    using lookup_rate_returns [OF i(1) w] by (auto simp: lim_ok_def)
  obtain asc r rcs where s': "s' = upd_buf b (\<lambda>bf. bf\<lparr>bf_rcs := rcs\<rparr>) (upd_node (fst t) (\<lambda>a. a\<lparr>an_rcnode := r\<rparr>) (s\<lparr>sc_rc := asc\<rparr>))"
    "length rcs = 4" "rates_set s rcs" using l(2) by (auto simp: looked_up_def rcs_ok_def rates_set_def)
  have k: "frame_key (txbufs s' x) = frame_key (txbufs s x)" for x
    using w s'(2) by (simp add: s'(1) owl_upd)
  have fr: "loop_frame t s0 s'"
    using i(2) k by (simp add: loop_frame_def) (simp add: s'(1) owl_upd)
  have lim: "lim_ok (fst t) s0 l"
    using l(4) i(2) by (simp add: lim_ok_def loop_frame_def)
  have "agg_inv env t s0 q0 (g\<lparr>ag_lim := Some l\<rparr>) s'"
    using assms(1) i fr lim l(3) by (simp add: agg_inv_def agg_ok_def Let_def chained_def) (simp add: s'(1) owl_upd)
  moreover have "an_tid s' = an_tid s" "rates_set s' (bf_rcs (txbufs s' b))"
    using s'(3) by (simp_all add: s'(1) owl_upd rates_set_def rcs_ok_def)
  ultimately show ?thesis using l(1) k by blast
qed

lemma chained_snoc:
  assumes "chained s q" "distinct q" "\<And>x. x \<in> set q \<Longrightarrow> bf_lastds (txbufs s' x) = x" "\<And>x. x \<in> set q \<Longrightarrow> bf_lastds (txbufs s x) = x"
    "\<And>x. x \<in> set q \<Longrightarrow> x \<noteq> last q \<Longrightarrow> bf_next (txbufs s' x) = bf_next (txbufs s x) \<and> ds_link s' x = ds_link s x"
    "q \<noteq> [] \<Longrightarrow> bf_next (txbufs s' (last q)) = Some b \<and> ds_link s' (last q) = Some b"
  shows "chained s' (q @ [b])"
proof -
  have "q ! i \<noteq> last q" if "Suc i < length q" for i
  proof -
    have "q \<noteq> []" using that by auto
    then show ?thesis using that assms(2) by (simp add: last_conv_nth nth_eq_iff_index_eq)
  qed
  then have "chained s' q"
    using assms(1,3-5) by (auto simp: chained_def successively_conv_nth)
  then show ?thesis
    using assms(3,6) by (auto simp: chained_def successively_append_iff)
qed

lemma count_below:
  assumes "\<not> of_nat n \<ge> min (ucast (bs div 2)) (max_subframes env)" "n \<le> unat (min (ucast (bs div 2)) (max_subframes env))"
  shows "Suc n \<le> unat (min (ucast (bs div 2)) (max_subframes env))"
proof -
  have "n < 4294967296" using assms(2) unat_u32_less by (rule le_less_trans)
  then have "unat (of_nat n :: u32) = n" by (simp add: unsigned_of_nat take_bit_nat_eq_self)
  then show ?thesis using assms(1) by (simp add: word_le_nat_alt)
qed

lemma agg_ok_add:
  assumes "agg_ok env t s0 g" "ag_lim g = Some lim" "waiting_ok (txbufs s0 b) b"
    "BAW_WITHIN (seq_start (an_tid s0 t)) (baw_size (an_tid s0 t)) (SEQNO_FROM_BF_SEQNO (bf_seqno (txbufs s0 b)))"
    "\<not> (ag_q g \<noteq> [] \<and> uint lim < uint (ag_al g) + uint (ag_bpad g) + uint (4 + bf_pktlen (txbufs s0 b)))"
    "\<not> of_nat (length (ag_q g)) \<ge> min (ucast (baw_size (an_tid s0 t) div 2)) (max_subframes env)"
    and nd: "uint (nd :: u8) = frame_delims (txbufs s0 b)"
  shows "agg_ok env t s0 (g\<lparr>ag_q := ag_q g @ [b], ag_al := ag_al g + ag_bpad g + (4 + bf_pktlen (txbufs s0 b)),
    ag_bpad := ucast (PADBYTES (ucast (4 + bf_pktlen (txbufs s0 b)))) + push_bit 2 (ucast nd)\<rparr>)"
proof -
  let ?bf = "txbufs s0 b" and ?q = "ag_q g" and ?f = "txbufs s0"
  have w: "uint (bf_pktlen ?bf) \<le> 65531" using assms(3) by (simp add: waiting_ok_def)
  have al: "uint (ag_al g) = agg_len ?f ?q" "uint (ag_bpad g) = (if ?q = [] then 0 else frame_pad (?f (last ?q)))"
    "length ?q \<le> max_count env (an_tid s0 t)"
    using assms(1) by (simp_all add: agg_ok_def Let_def)
  have sum: "uint (ag_al g) + uint (ag_bpad g) + frame_len ?bf = agg_len ?f (?q @ [b])"
    using al by (cases "?q = []") (simp_all add: agg_len_snoc)
  have "uint lim < 65536" using unsigned_less [of lim, where 'a = int] by simp
  then have small: "agg_len ?f (?q @ [b]) < 65536 \<and> (?q \<noteq> [] \<longrightarrow> agg_len ?f (?q @ [b]) \<le> uint lim)"
    using sum assms(5) uint_al_delta [OF w] al(1,2) w
    by (cases "?q = []") (simp_all add: frame_len_def)
  have "0 \<le> agg_len ?f (?q @ [b])" unfolding sum [symmetric] by (simp add: frame_len_def)
  then have ual: "uint (ag_al g + ag_bpad g + (4 + bf_pktlen ?bf)) = agg_len ?f (?q @ [b])"
    using mod_pos_pos_trivial [of "agg_len ?f (?q @ [b])" 65536] small sum uint_al_delta [OF w]
    by (simp add: uint_word_ariths mod_simps frame_len_def add.assoc)
  have "Suc (length ?q) \<le> max_count env (an_tid s0 t)"
    using count_below [OF assms(6)] al(3) by (simp add: max_count_def)
  then show ?thesis
    using assms(1,2,4) small ual uint_bpad [OF w nd] by (auto simp: agg_ok_def Let_def)
qed

lemma form_add_state:
  assumes "form_add t b bs g s = (g', s')"
  shows "an_tid s' = (an_tid s)(t := (ath_tx_addto_baw (an_tid s t) (txbufs s b))\<lparr>buf_q := bs\<rparr>)"
    "frame_key (txbufs s' x) = frame_key (txbufs s x)"
    "ag_q g \<noteq> [] \<Longrightarrow> last (ag_q g) \<noteq> b \<Longrightarrow> bf_next (txbufs s' (last (ag_q g))) = Some b \<and>
       ds_link s' (bf_lastds (txbufs s (last (ag_q g)))) = Some b"
    "x \<noteq> last (ag_q g) \<Longrightarrow> bf_next (txbufs s' x) = bf_next (txbufs s x)"
    "x \<noteq> bf_lastds (txbufs s (last (ag_q g))) \<Longrightarrow> ds_link s' x = ds_link s x"
    "sc_ic s' = sc_ic s" "sc_txq s' = sc_txq s" "sc_txbuf s' = sc_txbuf s" "sc_txbuf_held s' = sc_txbuf_held s"
    "frames s' = frames s" "sc_sta s' = sc_sta s" "sc_curmode s' = sc_curmode s" "sc_currates s' = sc_currates s"
    "ag_lim g' = ag_lim g" "ag_q g' = ag_q g @ [b]"
    "sc_protrix s' = sc_protrix s" "sc_ac2q s' = sc_ac2q s" "returned (acts s') = returned (acts s)"
    "bf_txq (txbufs s' x) = bf_txq (txbufs s x)" "bf_rcs (txbufs s' x) = bf_rcs (txbufs s x)"
  using assms by (auto simp: form_add_def Let_def owl_upd split: if_splits)

lemma agg_inv_add:
  assumes inv: "agg_inv env t s0 q0 g s" and q: "buf_q (an_tid s t) = b # bs" and d: "distinct q0"
    and w: "\<forall>x\<in>set q0. waiting_ok (txbufs s0 x) x" and lim: "ag_lim g = Some lim"
    and within: "BAW_WITHIN (seq_start (an_tid s t)) (baw_size (an_tid s t)) (SEQNO_FROM_BF_SEQNO (bf_seqno (txbufs s b)))"
    and len: "\<not> (ag_q g \<noteq> [] \<and> uint lim < uint (ag_al g) + uint (ag_bpad g) + uint (4 + bf_pktlen (txbufs s b)))"
    and cnt: "\<not> of_nat (length (ag_q g)) \<ge> min (ucast (baw_size (an_tid s t) div 2)) (max_subframes env)"
    and f: "form_add t b bs g s = (g', s')" and first: "ag_q g = [] \<longrightarrow> rates_set s (bf_rcs (txbufs s b))"
  shows "agg_inv env t s0 q0 g' s' \<and> buf_q (an_tid s' t) = bs \<and> ag_lim g' = Some lim"
proof -
  note st = form_add_state [OF f]
  have i: "ag_q g @ b # bs = q0" "loop_frame t s0 s" "agg_ok env t s0 g" "window_wf (an_tid s t)" "rates_ok env s (fst t)"
    "baw_outstanding (an_tid s t) = baw_outstanding (an_tid s0 t) \<union> fresh_seqs (txbufs s0) (ag_q g)" "chained s (ag_q g)"
    using inv q by (simp_all add: agg_inv_def)
  have k: "frame_key (txbufs s x) = frame_key (txbufs s0 x)" for x using i(2) by (simp add: loop_frame_def)
  note kb = frame_keyD [OF k [of b]]
  have tid: "seq_start (an_tid s t) = seq_start (an_tid s0 t)" "baw_size (an_tid s t) = baw_size (an_tid s0 t)"
    using i(2) by (simp_all add: loop_frame_def tid_key_def)
  have ds: "bf_lastds (txbufs s x) = x" "bf_lastds (txbufs s' x) = x" if "x \<in> set q0" for x
    using w that frame_keyD(6) [OF k [of x]] frame_keyD(6) [OF st(2) [of x]] by (auto simp: waiting_ok_def)
  have bq: "b \<notin> set (ag_q g)" "distinct (ag_q g)" "set (ag_q g) \<subseteq> set q0" "b \<in> set q0" using i(1) d by auto
  have ch: "chained s' (ag_q g @ [b])"
  proof (rule chained_snoc [OF i(7) bq(2)])
    fix x assume "x \<in> set (ag_q g)" "x \<noteq> last (ag_q g)"
    moreover from this(1) have "last (ag_q g) \<in> set q0" using bq(3) by (metis empty_iff last_in_set list.set(1) subsetD)
    ultimately show "bf_next (txbufs s' x) = bf_next (txbufs s x) \<and> ds_link s' x = ds_link s x"
      using st(4,5) [of x] ds(1) by simp
  next
    assume "ag_q g \<noteq> []"
    moreover from this have "last (ag_q g) \<in> set (ag_q g)" by simp
    ultimately show "bf_next (txbufs s' (last (ag_q g))) = Some b \<and> ds_link s' (last (ag_q g)) = Some b"
      using st(3) ds(1) bq by (metis subsetD)
  qed (use ds bq in auto)
  have ok: "agg_ok env t s0 g'"
    using agg_ok_add [OF i(3) lim, of b "ucast (ATH_AGGR_GET_NDELIM (ucast (bf_pktlen (txbufs s b)))) + key_delims (bf_keytype (txbufs s b))"]
      within len cnt w bq(4) kb tid uint_ndelims [of "txbufs s0 b"] f by (auto simp: form_add_def Let_def)
  have wf: "baw_inv (an_tid s t)" "unat (baw_size (an_tid s t)) < 128" "baw_len (an_tid s t) \<le> unat (baw_size (an_tid s t))"
    using i(4) by (simp_all add: window_wf_def)
  note baw = addto_baw_outstanding [OF wf within]
  have win: "window_wf (an_tid s' t)" "baw_outstanding (an_tid s' t) = baw_outstanding (an_tid s0 t) \<union> fresh_seqs (txbufs s0) (ag_q g @ [b])"
    using baw wf i(6) kb by (simp_all add: st(1)) (simp add: window_wf_def, auto simp: fresh_seqs_snoc)
  have fr: "loop_frame t s0 s'"
    using i(2) by (simp add: loop_frame_def st tid_key_def)
  have "rates_ok env s' (fst t)" using i(5) rates_ok_cong [of s' s] by (simp add: st)
  moreover have "rates_set s' (bf_rcs (txbufs s' (hd (ag_q g @ [b]))))"
    using inv first by (cases "ag_q g") (simp_all add: agg_inv_def st rates_set_def rcs_ok_def)
  ultimately show ?thesis using i(1) ch ok win fr lim by (simp add: agg_inv_def st)
qed

lemma form_loop_inv:
  assumes "agg_inv env t s0 q0 g s" "buf_q (an_tid s t) = bs" "distinct q0" "\<forall>x\<in>set q0. waiting_ok (txbufs s0 x) x"
    "ag_q g = [] \<longrightarrow> ag_lim g = None"
  shows "\<exists>st g' s'. form_loop env t bs g s = Some (st, g', s') \<and> agg_inv env t s0 q0 g' s' \<and>
    (st = ATH_TGT_AGGR_DONE \<longleftrightarrow> buf_q (an_tid s' t) = []) \<and> length (ag_q g) \<le> length (ag_q g') \<and>
    (bs \<noteq> [] \<and> BAW_WITHIN (seq_start (an_tid s t)) (baw_size (an_tid s t)) (SEQNO_FROM_BF_SEQNO (bf_seqno (txbufs s (hd bs)))) \<and>
     0 < max_count env (an_tid s t) \<longrightarrow> ag_q g' \<noteq> [])"
  using assms(1,2,5)
proof (induction bs arbitrary: g s)
  case Nil
  then show ?case by simp
next
  case (Cons b bs)
  let ?bf = "txbufs s b"
  show ?case
  proof (cases "BAW_WITHIN (seq_start (an_tid s t)) (baw_size (an_tid s t)) (SEQNO_FROM_BF_SEQNO (bf_seqno ?bf))")
    case False
    then show ?thesis using Cons.prems by simp
  next
    case within: True
    have "b \<in> set q0" using Cons.prems by (auto simp: agg_inv_def)
    then have wb: "waiting_ok (txbufs s0 b) b" using assms(4) by blast
    have kb: "frame_key ?bf = frame_key (txbufs s0 b)" using Cons.prems(1) by (simp add: agg_inv_def loop_frame_def)
    obtain l s1 where l: "(case ag_lim g of Some l \<Rightarrow> Some (l, s) | None \<Rightarrow> ath_lookup_rate env (fst t) b s) = Some (l, s1)"
      "agg_inv env t s0 q0 (g\<lparr>ag_lim := Some l\<rparr>) s1" "frame_key (txbufs s1 b) = frame_key ?bf" "an_tid s1 = an_tid s" "ag_q g = [] \<longrightarrow> rates_set s1 (bf_rcs (txbufs s1 b))"
    proof (cases "ag_lim g")
      case None
      then show ?thesis
        using agg_inv_lookup [OF Cons.prems(1) None, of b] wb waiting_ok_key [OF kb, of b] that by auto
    next
      case (Some l)
      then have e: "g\<lparr>ag_lim := Some l\<rparr> = g" by simp
      have "agg_inv env t s0 q0 (g\<lparr>ag_lim := Some l\<rparr>) s" unfolding e by (rule Cons.prems(1))
      then show ?thesis using Some Cons.prems(3) by (intro that [of l s]) simp_all
    qed
    note k1 = frame_keyD [OF l(3)]
    show ?thesis
    proof (cases "(ag_q g \<noteq> [] \<and> uint l < uint (ag_al g) + uint (ag_bpad g) + uint (4 + bf_pktlen ?bf)) \<or>
        of_nat (length (ag_q g)) \<ge> min (ucast (baw_size (an_tid s t) div 2)) (max_subframes env)")
      case True
      then show ?thesis using within l Cons.prems by (auto simp: Let_def max_count_def)
    next
      case False
      obtain g' s' where f: "form_add t b bs (g\<lparr>ag_lim := Some l\<rparr>) s1 = (g', s')" by fastforce
      have "agg_inv env t s0 q0 g' s' \<and> buf_q (an_tid s' t) = bs \<and> ag_lim g' = Some l"
        by (rule agg_inv_add [OF l(2) _ assms(3,4) _ _ _ _ f]) (use False within l(4,5) k1 Cons.prems(2) in auto)
      moreover have "ag_q g' = ag_q g @ [b]" using form_add_state(15) [OF f] by simp
      moreover have "bf_comp ?bf = Some Comp_Aggr" using wb frame_keyD(5) [OF kb] by (simp add: waiting_ok_def)
      ultimately show ?thesis
        using Cons.IH [of g' s'] within l(1) False f by (fastforce simp: Let_def require_def)
    qed
  qed
qed

section \<open>The aggregate\<close>

lemma max_count_le: "max_count env tid \<le> 22"
proof -
  have "min (ucast (baw_size tid div 2)) (max_subframes env) \<le> (22 :: u32)"
    by (rule order_trans [OF min.cobounded2]) (simp add: max_subframes_def)
  then show ?thesis by (simp add: max_count_def word_le_nat_alt)
qed

lemma form_aggr_run:
  assumes "buf_q (an_tid s t) = b # bs" "distinct (b # bs)" "\<forall>x\<in>set (b # bs). waiting_ok (txbufs s x) x"
    "window_wf (an_tid s t)" "rates_ok env s (fst t)"
  shows "\<exists>st g s1. ath_tgt_tx_form_aggr env t s = Some (st, ag_q g,
      upd_buf b (\<lambda>bf. bf\<lparr>bf_al := ag_al g, bf_nframes := of_nat (length (ag_q g))\<rparr>) s1) \<and>
    agg_inv env t s (b # bs) g s1 \<and> (st = ATH_TGT_AGGR_DONE \<longleftrightarrow> buf_q (an_tid s1 t) = []) \<and>
    (BAW_WITHIN (seq_start (an_tid s t)) (baw_size (an_tid s t)) (SEQNO_FROM_BF_SEQNO (bf_seqno (txbufs s b))) \<and>
     0 < max_count env (an_tid s t) \<longrightarrow> ag_q g \<noteq> [])"
proof -
  have i: "agg_inv env t s (b # bs) aggr0 s"
    using assms by (simp add: agg_inv_def aggr0_def loop_frame_def agg_ok_def fresh_seqs_def chained_def)
  have n: "ag_q aggr0 = [] \<longrightarrow> ag_lim aggr0 = None" by (simp add: aggr0_def)
  from form_loop_inv [OF i assms(1-3) n] obtain st g s1 where
    "form_loop env t (b # bs) aggr0 s = Some (st, g, s1)" "agg_inv env t s (b # bs) g s1"
    "st = ATH_TGT_AGGR_DONE \<longleftrightarrow> buf_q (an_tid s1 t) = []"
    "BAW_WITHIN (seq_start (an_tid s t)) (baw_size (an_tid s t)) (SEQNO_FROM_BF_SEQNO (bf_seqno (txbufs s b))) \<and>
     0 < max_count env (an_tid s t) \<longrightarrow> ag_q g \<noteq> []"
    by (simp only: list.sel list.distinct) blast
  then show ?thesis
    by (intro exI [of _ st] exI [of _ g] exI [of _ s1])
      (simp add: ath_tgt_tx_form_aggr_def assms(1) Let_def del: form_loop.simps)
qed

text \<open>
  Property C14. Forming an aggregate always succeeds. It takes a prefix of the TID's queue, leaves the
  rest, takes only frames inside the block-ack window and marks exactly the ones that are not retries
  outstanding. If the oldest frame is inside a window of at least two, the aggregate is not empty.
\<close>

theorem ath_tgt_tx_form_aggr_takes_prefix:
  assumes "buf_q (an_tid s t) = b # bs" "distinct (b # bs)" "\<forall>x\<in>set (b # bs). waiting_ok (txbufs s x) x"
    "window_wf (an_tid s t)" "rates_ok env s (fst t)"
  shows "\<exists>st q s'. ath_tgt_tx_form_aggr env t s = Some (st, q, s') \<and> q @ buf_q (an_tid s' t) = b # bs \<and>
    (\<forall>x\<in>set q. BAW_WITHIN (seq_start (an_tid s t)) (baw_size (an_tid s t)) (SEQNO_FROM_BF_SEQNO (bf_seqno (txbufs s x)))) \<and>
    window_wf (an_tid s' t) \<and> seq_start (an_tid s' t) = seq_start (an_tid s t) \<and>
    baw_outstanding (an_tid s' t) = baw_outstanding (an_tid s t) \<union>
      {unat (bf_seqno (txbufs s x)) div 16 | x. x \<in> set q \<and> \<not> bf_isretried (txbufs s x)} \<and>
    (\<forall>u. u \<noteq> t \<longrightarrow> an_tid s' u = an_tid s u) \<and> (st = ATH_TGT_AGGR_DONE \<longleftrightarrow> buf_q (an_tid s' t) = []) \<and>
    (BAW_WITHIN (seq_start (an_tid s t)) (baw_size (an_tid s t)) (SEQNO_FROM_BF_SEQNO (bf_seqno (txbufs s b))) \<and>
     2 \<le> unat (baw_size (an_tid s t)) \<longrightarrow> q \<noteq> [])"
proof -
  let ?w = "baw_size (an_tid s t)"
  have m: "0 < max_count env (an_tid s t)" if "2 \<le> unat ?w"
  proof -
    have "1 \<le> unat ?w div 2" using that by simp
    then have "(1 :: u32) \<le> ucast (?w div 2)" by (simp add: word_le_nat_alt unat_div)
    then have "(1 :: u32) \<le> min (ucast (?w div 2)) (max_subframes env)" by (simp add: max_subframes_def)
    then show ?thesis by (simp add: max_count_def word_le_nat_alt)
  qed
  show ?thesis
    using form_aggr_run [OF assms] m
    by (force simp: agg_inv_def agg_ok_def Let_def loop_frame_def tid_key_def fresh_seqs_def upd_buf_def)
qed

text \<open>
  Property C13. The limits of an aggregate: at most half the window and at most 22 subframes (17 before
  Merlin); an aggregate of two or more frames is no longer than the limits of the interface and of the
  peer; its first buffer holds the exact length and number of subframes (nothing wraps); its frames are
  linked in their order, in software and in the descriptors.
\<close>

theorem ath_tgt_tx_form_aggr_limits:
  assumes "buf_q (an_tid s t) = b # bs" "distinct (b # bs)" "\<forall>x\<in>set (b # bs). waiting_ok (txbufs s x) x"
    "window_wf (an_tid s t)" "rates_ok env s (fst t)"
  shows "\<exists>st q s'. ath_tgt_tx_form_aggr env t s = Some (st, q, s') \<and>
    length q \<le> unat (baw_size (an_tid s t)) div 2 \<and> length q \<le> (if merlin env then 22 else 17) \<and>
    (2 \<le> length q \<longrightarrow> agg_len (txbufs s) q \<le> uint (ic_ampdu_limit (sc_ic s)) \<and>
       (ni_maxampdu (sc_sta s (fst t)) \<noteq> 0 \<longrightarrow> agg_len (txbufs s) q \<le> uint (ni_maxampdu (sc_sta s (fst t))))) \<and>
    uint (bf_al (txbufs s' b)) = agg_len (txbufs s) q \<and> unat (bf_nframes (txbufs s' b)) = length q \<and>
    successively (\<lambda>x y. bf_next (txbufs s' x) = Some y \<and> ds_link s' x = Some y) q"
proof -
  obtain st g s1 where r: "ath_tgt_tx_form_aggr env t s = Some (st, ag_q g,
      upd_buf b (\<lambda>bf. bf\<lparr>bf_al := ag_al g, bf_nframes := of_nat (length (ag_q g))\<rparr>) s1)" "agg_inv env t s (b # bs) g s1"
    using form_aggr_run [OF assms] by auto
  let ?m = "max_count env (an_tid s t)" and ?s = "upd_buf b (\<lambda>bf. bf\<lparr>bf_al := ag_al g, bf_nframes := of_nat (length (ag_q g))\<rparr>) s1"
  have ok: "agg_ok env t s g" "chained s1 (ag_q g)" "loop_frame t s s1" using r(2) by (simp_all add: agg_inv_def)
  then have n: "length (ag_q g) \<le> ?m" by (simp add: agg_ok_def Let_def)
  have m: "?m \<le> unat (baw_size (an_tid s t)) div 2" "?m \<le> (if merlin env then 22 else 17)"
  proof -
    have "min (ucast (baw_size (an_tid s t) div 2)) (max_subframes env) \<le> ucast (baw_size (an_tid s t) div 2)"
      "min (ucast (baw_size (an_tid s t) div 2)) (max_subframes env) \<le> max_subframes env" by simp_all
    then show "?m \<le> unat (baw_size (an_tid s t)) div 2" "?m \<le> (if merlin env then 22 else 17)"
      by (simp_all only: max_count_def word_le_nat_alt unat_ucast_16_32 unat_div) (simp_all add: max_subframes_def split: if_splits)
  qed
  have ds: "bf_lastds (txbufs s1 x) = x" if "x \<in> set (ag_q g)" for x
  proof -
    have "x \<in> set (b # bs)" using that r(2) by (metis Un_iff agg_inv_def set_append)
    then have "bf_lastds (txbufs s x) = x" using bspec [OF assms(3)] by (simp add: waiting_ok_def)
    then show ?thesis using ok(3) frame_keyD(6) [of "txbufs s1 x" "txbufs s x"] by (simp add: loop_frame_def)
  qed
  have ch: "successively (\<lambda>x y. bf_next (txbufs ?s x) = Some y \<and> ds_link ?s x = Some y) (ag_q g)"
    using ok(2) ds by (auto simp: chained_def successively_conv_nth upd_buf_def)
  have l: "2 \<le> length (ag_q g) \<longrightarrow> (\<exists>l. lim_ok (fst t) s l \<and> agg_len (txbufs s) (ag_q g) \<le> uint l)"
    using ok(1) by (cases "ag_q g = []") (auto simp: agg_ok_def Let_def)
  have "unat (of_nat (length (ag_q g)) :: u8) = length (ag_q g)"
    using n max_count_le [of env "an_tid s t"] by (simp add: unsigned_of_nat take_bit_nat_eq_self)
  moreover have "uint (ag_al g) = agg_len (txbufs s) (ag_q g)" using ok(1) by (simp add: agg_ok_def Let_def)
  ultimately show ?thesis
    using r(1) n m ch l by (auto simp: upd_buf_def lim_ok_def word_le_def)
qed

section \<open>A sample state\<close>

text \<open>
  Node 0 with three data frames of 100, 1000 and 200 bytes, numbers 5 to 7, waiting on TID 0; the second
  is a retry. The window starts at 5 and frame 6 is outstanding.
\<close>

definition bf0 :: ath_tx_buf where
  "bf0 = bf_seq2\<lparr>bf_comp := Some Comp_Aggr, bf_rcs := rc0_series, bf_node := Some 0\<rparr>"

definition tid0 :: ath_atx_tid where
  "tid0 = \<lparr>tidno = 0, seq_start = 5, seq_next = 8, baw_size = 64, baw_head = 0, baw_tail = 2, tx_buf_bitmap = [2, 0, 0, 0],
     buf_q = [0, 1, 2], paused = 0, sched = 0, flag = 2, incomp = 0\<rparr>"

definition hr0 :: hal_rate where
  "hr0 = \<lparr>hr_phy = 4, hr_rateKbps = 13000, hr_rateCode = 0x81, hr_shortPreamble = 0, hr_controlRate = 0,
     hr_lpAckDuration = 0, hr_spAckDuration = 0\<rparr>"

definition ts0 :: ath_tx_status where
  "ts0 = \<lparr>ts_seqnum = 5, ts_status = 0, ts_flags = 1, ts_rate = 0, ts_shortretry = 0, ts_longretry = 0, ts_ba_low = 5, ts_ba_high = 0\<rparr>"

definition env0 :: owl_env where
  "env0 = \<lparr>procTxDesc = (\<lambda>_ _. (HAL_OK, ts0)), ioread_txe = (\<lambda>_. 0), uptime = (\<lambda>_. 7), merlin = False, junk_prate = False\<rparr>"

definition owl0 :: owl where
  "owl0 = \<lparr>sc_tx_draining = False, sc_tx_stats = (\<lambda>_. 0), sc_currates = replicate 54 hr0, sc_curmode = 1, sc_protrix = 0,
     sc_imask = 0, sc_txbuf_held = 9, sc_txbuf = [3, 4, 5, 6, 7, 8], sc_txqsetup = 15,
     sc_txq = (\<lambda>q. \<lparr>axq_qnum = of_nat q, axq_link = None, axq_q = [], axq_depth = 0, axq_linkbuf = None, axq_tidq = []\<rparr>),
     sc_ac2q = (\<lambda>ac. if ac = 0 then 1 else if ac = 1 then 0 else ac), sc_cabq = 8,
     sc_sta = (\<lambda>n. \<lparr>ni_nodeindex = of_nat n, ni_vapindex = 0, ni_maxampdu = 8192, ni_txseqmgmt = 0, ni_iv16 = 0, ni_iv32 = 0,
        ni_vap = Some 0, an_valid = n = 0, an_rcnode = Some (node0\<lparr>validRateIndex := [12, 13, 14, 15, 16] @ replicate 49 0, rateMaxPhy := 16\<rparr>)\<rparr>),
     sc_vap = (\<lambda>_. \<lparr>iv_rtsthreshold = 2346, av_minrateidx = [0, 0]\<rparr>),
     sc_ic = \<lparr>ic_ampdu_limit = 0xFFFF, ic_enable_coex = False, ic_tx_chainmask = 1\<rparr>, sc_rc = ath_rate_attach,
     tx_status = replicate 2 \<lparr>txs_cnt = 0, txstatus = replicate 12 \<lparr>txs_cookie = 0, txs_rate = 0, txs_flags = 0\<rparr>\<rparr>,
     an_tid = (\<lambda>t. if t = (0, 0) then tid0 else tid0\<lparr>buf_q := [], baw_tail := 0, tx_buf_bitmap := replicate 4 0\<rparr>),
     txbufs = (\<lambda>b. if b = 0 then bf0\<lparr>bf_seqno := 0x50, bf_skbhead := [10], bf_skb := Some 10\<rparr>
        else if b = 1 then bf0\<lparr>bf_seqno := 0x60, bf_pktlen := 1000, bf_isretried := True, bf_lastds := 1, bf_skbhead := [11], bf_skb := Some 11\<rparr>
        else bf0\<lparr>bf_seqno := 0x70, bf_pktlen := 200, bf_lastds := b, bf_skbhead := [12], bf_skb := Some 12\<rparr>),
     ds_link = (\<lambda>_. None), ds_txstat = (\<lambda>_. ts0),
     frames = (\<lambda>k. [0x88, 0x01] @ replicate 38 0), acts = []\<rparr>"

lemma owl0_ready:
  "buf_q (an_tid owl0 (0, 0)) = 0 # [1, 2]" "distinct (0 # [1, 2 :: nat])"
  "\<forall>x\<in>set (0 # [1, 2]). waiting_ok (txbufs owl0 x) x" "window_wf (an_tid owl0 (0, 0))" "rates_ok env0 owl0 (fst (0, 0))"
  by code_simp+

theorem ath_tgt_tx_form_aggr_takes_prefix_witness:
  "\<exists>st q s'. ath_tgt_tx_form_aggr env0 (0, 0) owl0 = Some (st, q, s') \<and> q \<noteq> [] \<and> q @ buf_q (an_tid s' (0, 0)) = [0, 1, 2] \<and>
     window_wf (an_tid s' (0, 0))"
proof -
  have "BAW_WITHIN (seq_start (an_tid owl0 (0, 0))) (baw_size (an_tid owl0 (0, 0))) (SEQNO_FROM_BF_SEQNO (bf_seqno (txbufs owl0 0)))"
    "2 \<le> unat (baw_size (an_tid owl0 (0, 0)))" by code_simp+
  with ath_tgt_tx_form_aggr_takes_prefix [OF owl0_ready] show ?thesis by blast
qed

theorem ath_tgt_tx_form_aggr_limits_witness:
  "\<exists>st q s'. ath_tgt_tx_form_aggr env0 (0, 0) owl0 = Some (st, q, s') \<and> length q \<le> 17 \<and>
     (2 \<le> length q \<longrightarrow> agg_len (txbufs owl0) q \<le> 8192) \<and> agg_len (txbufs owl0) [0, 1, 2] = 1464 \<and>
     uint (bf_al (txbufs s' 0)) = agg_len (txbufs owl0) q"
proof -
  have "\<not> merlin env0" "ni_maxampdu (sc_sta owl0 (fst (0, 0))) = 8192" "agg_len (txbufs owl0) [0, 1, 2] = 1464" by code_simp+
  with ath_tgt_tx_form_aggr_limits [OF owl0_ready] show ?thesis by auto
qed

end
