(* ===== verification/Owl_Crypto.thy ===== *)
theory Owl_Crypto
  imports Owl_Prep Owl_Aggr
begin

text \<open>
  Sequence and packet numbers of the frames from the host: both count up by one, and what is written to
  the frame is what the state holds.
\<close>

section \<open>Bytes\<close>

lemma unat_ucast_u8_16: "unat (ucast (x :: u16) :: u8) = unat x mod 256"
  by (simp add: unsigned_ucast_eq take_bit_eq_mod)

lemma unat_ucast_u8_32: "unat (ucast (x :: u32) :: u8) = unat x mod 256"
  by (simp add: unsigned_ucast_eq take_bit_eq_mod)

lemma unat_bytes_16: "unat (ucast (x :: u16) :: u8) + 256 * unat (ucast (drop_bit 8 x) :: u8) = unat x"
proof -
  have "unat x div 256 < 256" using unat_u16_less [of x] by simp
  then show ?thesis by (simp add: unat_ucast_u8_16 unsigned_drop_bit_eq drop_bit_eq_div unat_div)
qed

lemma nat_bytes_32: "n < 4294967296 \<Longrightarrow>
    n mod 256 + 256 * (n div 256 mod 256) + 65536 * (n div 65536 mod 256) + 16777216 * (n div 16777216 mod 256) = (n :: nat)"
proof -
  assume n: "n < 4294967296"
  let ?a = "n div 256"
  have d: "n div 65536 = ?a div 256" "n div 16777216 = ?a div 256 div 256" by (simp_all add: div_mult2_eq [symmetric])
  have "?a div 256 div 256 < 256" using n by (simp add: div_mult2_eq [symmetric] less_mult_imp_div_less)
  then show ?thesis
    unfolding d using div_mult_mod_eq [of n 256] div_mult_mod_eq [of ?a 256] div_mult_mod_eq [of "?a div 256" 256]
    by (simp only: mod_less)
qed

lemma unat_bytes_32: "unat (ucast (x :: u32) :: u8) + 256 * unat (ucast (drop_bit 8 x) :: u8) +
    65536 * unat (ucast (drop_bit 16 x) :: u8) + 16777216 * unat (ucast (drop_bit 24 x) :: u8) = unat x"
  using nat_bytes_32 [OF unat_u32_less [of x]] less_mult_imp_div_less [of "unat x" 256 16777216] unat_u32_less [of x]
  by (simp add: unat_ucast_u8_32 unsigned_drop_bit_eq drop_bit_eq_div unat_div)

section \<open>The packet number\<close>

definition packet_number :: "ath_node_target \<Rightarrow> nat" where
  "packet_number n = unat (ni_iv16 n) + 65536 * unat (ni_iv32 n)"

text \<open>The number in the eight bytes behind the header, as IEEE 802.11 lays them out for CCMP and for TKIP.\<close>

definition iv_number :: "u8 \<Rightarrow> u8 list \<Rightarrow> nat" where
  "iv_number keytype bs = (if keytype = HAL_KEY_TYPE_AES then unat (bs ! 0) + 256 * unat (bs ! 1)
     else unat (bs ! 2) + 256 * unat (bs ! 0)) +
     65536 * (unat (bs ! 4) + 256 * unat (bs ! 5) + 65536 * unat (bs ! 6) + 16777216 * unat (bs ! 7))"

lemma packet_number_bump: "packet_number (bump_iv n) = (packet_number n + 1) mod 2 ^ 48"
proof -
  let ?a = "unat (ni_iv16 n)" and ?b = "unat (ni_iv32 n)"
  have b: "?a < 65536" "?b < 4294967296" by (rule unat_u16_less, rule unat_u32_less)
  have v: "unat (ni_iv16 n + 1) = (?a + 1) mod 65536" "unat (ni_iv32 n + 1) = (?b + 1) mod 4294967296"
    by (simp_all add: unat_word_ariths)
  show ?thesis
  proof (cases "?a = 65535")
    case True
    then have "ni_iv16 n + 1 = 0" using v(1) by (simp add: unat_eq_iff)
    then show ?thesis using True b v(2) by (cases "?b = 4294967295") (simp_all add: packet_number_def bump_iv_def)
  next
    case False
    then have "ni_iv16 n + 1 \<noteq> 0" "unat (ni_iv16 n + 1) = ?a + 1" using v(1) b by (auto simp: unat_eq_iff)
    then show ?thesis using False b by (simp add: packet_number_def bump_iv_def Let_def)
  qed
qed

lemma bit5_or: "bit (x OR 0x20 :: u8) 5"
proof -
  have "bit (0x20 :: u8) 5" by code_simp
  then show ?thesis by (simp only: bit_or_iff simp_thms)
qed

lemma iv_bytes_number:
  assumes "iv_bytes keytype n f i = Some bs"
  shows "length bs = 8 \<and> iv_number keytype bs = packet_number n \<and> bit (bs ! 3) 5"
proof -
  note b = unat_bytes_16 [of "ni_iv16 n"] unat_bytes_32 [of "ni_iv32 n"]
  let ?ext = "[ucast (ni_iv32 n), ucast (drop_bit 8 (ni_iv32 n)), ucast (drop_bit 16 (ni_iv32 n)), ucast (drop_bit 24 (ni_iv32 n))] :: u8 list"
  obtain old where "bs = (if keytype = HAL_KEY_TYPE_AES then [ucast (ni_iv16 n), ucast (drop_bit 8 (ni_iv16 n)), 0, old OR 0x20]
      else [ucast (drop_bit 8 (ni_iv16 n)), (ucast (drop_bit 8 (ni_iv16 n)) OR 0x20) AND 0x7F, ucast (ni_iv16 n), old OR 0x20]) @ ?ext"
    using assms by (fastforce simp: iv_bytes_def Let_def split: bind_splits)
  then show ?thesis
    using bit5_or [of old] by (auto simp: iv_number_def packet_number_def b [symmetric])
qed

text \<open>
  The space of the header that the host lays out: 24 bytes, 6 for a fourth address, 2 for QoS, rounded up to a
  multiple of four.
\<close>

definition header_space :: "u8 list \<Rightarrow> nat" where
  "header_space f = (24 + (if f ! 1 AND 3 = 3 then 6 else 0) + (if IEEE80211_QOS_HAS_SEQ (f ! 0) then 2 else 0) + 3) div 4 * 4"

text \<open>
  Property C20. Encrypting a frame with CCMP or TKIP counts the packet number of the node up by one, modulo
  $2^{48}$, and writes it into eight bytes: at 32 when the lowest bit of byte 31 is set, else at 28 for a QoS
  frame and at 24 for another. Reading them as the standard lays them out gives the new packet number
  back, with the extended-IV bit set, and nothing else of the frame changes. These are the bytes behind the header
  exactly when the lowest bit of byte 31 says whether the frame has four addresses: it does not for a four-address
  frame without mesh control, nor for a frame of three addresses where byte 31, which then is
  no longer header, happens to be odd.
\<close>

theorem crypto_encap_packet_number:
  assumes "keytype = HAL_KEY_TYPE_AES \<or> keytype = HAL_KEY_TYPE_TKIP" "40 \<le> length (frames s skb)"
    and "i = (if frames s skb ! 31 AND 1 \<noteq> 0 then 32 else if IEEE80211_QOS_HAS_SEQ (frames s skb ! 0) then 28 else 24)"
  shows "\<exists>s'. ieee80211_tgt_crypto_encap n skb keytype s = Some s' \<and>
    packet_number (sc_sta s' n) = (packet_number (sc_sta s n) + 1) mod 2 ^ 48 \<and>
    iv_number keytype (take 8 (drop i (frames s' skb))) = packet_number (sc_sta s' n) \<and> bit (frames s' skb ! (i + 3)) 5 \<and>
    take i (frames s' skb) = take i (frames s skb) \<and> drop (i + 8) (frames s' skb) = drop (i + 8) (frames s skb) \<and>
    length (frames s' skb) = length (frames s skb) \<and>
    (i = header_space (frames s skb) \<longleftrightarrow> (frames s skb ! 1 AND 3 = 3) = (frames s skb ! 31 AND 1 \<noteq> 0))"
proof -
  let ?f = "frames s skb"
  have i: "i \<in> {24, 28, 32}" "i + 8 \<le> length ?f" "?f \<noteq> []" using assms(2) by (auto simp: assms(3))
  let ?n = "bump_iv (sc_sta s n)"
  obtain bs where bs: "iv_bytes keytype ?n ?f i = Some bs" using i(2) by (simp add: iv_bytes_def at_def Let_def)
  note num = iv_bytes_number [OF bs]
  define s' where "s' = (upd_node n bump_iv s)\<lparr>frames := (frames s)(skb := take i ?f @ bs @ drop (i + 8) ?f)\<rparr>"
  have "ieee80211_tgt_crypto_encap n skb keytype s = Some s'"
    using assms(1,2) i bs by (simp add: ieee80211_tgt_crypto_encap_def Let_def at_def require_def upd_node_def s'_def assms(3) [symmetric])
  moreover have "frames s' skb = take i ?f @ bs @ drop (i + 8) ?f" "sc_sta s' n = ?n" by (simp_all add: s'_def upd_node_def)
  moreover have "i = header_space ?f \<longleftrightarrow> (?f ! 1 AND 3 = 3) = (?f ! 31 AND 1 \<noteq> 0)"
    unfolding assms(3) header_space_def by (cases "?f ! 1 AND 3 = 3"; cases "IEEE80211_QOS_HAS_SEQ (?f ! 0)") simp_all
  ultimately show ?thesis
    using i num packet_number_bump [of "sc_sta s n"] by (intro exI [of _ s']) (auto simp: nth_append)
qed

theorem crypto_encap_packet_number_witness:
  "\<exists>s'. ieee80211_tgt_crypto_encap 0 10 HAL_KEY_TYPE_AES (upd_node 0 (\<lambda>n. n\<lparr>ni_iv16 := 0xFFFF, ni_iv32 := 1\<rparr>) owl0) = Some s' \<and>
     packet_number (sc_sta s' 0) = 0x20000 \<and> iv_number HAL_KEY_TYPE_AES (take 8 (drop 28 (frames s' 10))) = 0x20000 \<and>
     header_space (frames owl0 10) = 28"
proof -
  let ?s = "upd_node 0 (\<lambda>n. n\<lparr>ni_iv16 := 0xFFFF, ni_iv32 := 1\<rparr>) owl0"
  have f: "40 \<le> length (frames ?s 10)" "packet_number (sc_sta ?s 0) = 0x1FFFF" "frames ?s 10 = frames owl0 10"
    by (simp_all add: packet_number_def upd_node_def owl0_def)
  have b: "frames owl0 10 ! 31 AND 1 = 0" "IEEE80211_QOS_HAS_SEQ (frames owl0 10 ! 0)" "frames owl0 10 ! 1 AND 3 \<noteq> 3" by code_simp+
  obtain s' where s': "ieee80211_tgt_crypto_encap 0 10 HAL_KEY_TYPE_AES ?s = Some s'"
    "packet_number (sc_sta s' 0) = (packet_number (sc_sta ?s 0) + 1) mod 2 ^ 48"
    "iv_number HAL_KEY_TYPE_AES (take 8 (drop 28 (frames s' 10))) = packet_number (sc_sta s' 0)"
    "28 = header_space (frames ?s 10)"
    using crypto_encap_packet_number [OF disjI1 [OF refl] f(1) refl, of 0] b unfolding f(3) by (simp add: b) (metis)
  then show ?thesis unfolding f(2,3) by simp
qed

section \<open>Sequence numbers\<close>

lemma unat_nibbles: "unat ((x :: u8) OR (y AND 0x0F)) = unat x + unat y mod 16" if "unat x = 16 * m"
proof -
  have "y AND 0x0F = y AND mask 4" by (simp add: mask_eq_exp_minus_1)
  then have y: "unat (y AND 0x0F) = take_bit 4 (unat y)" using unat_and_mask [of y 4] by (simp add: take_bit_eq_mod)
  have "push_bit 4 m AND take_bit 4 (unat y) = 0" by (auto simp: bit_eq_iff bit_simps)
  then have "push_bit 4 m OR take_bit 4 (unat y) = push_bit 4 m + take_bit 4 (unat y)" by (simp add: disjunctive_add_eq_or)
  then show ?thesis using that y by (simp add: unsigned_or_eq push_bit_eq_mult take_bit_eq_mod mult.commute)
qed

lemma stamped_seq:
  assumes "unat (sn :: u16) < 4096" "sq = push_bit IEEE80211_SEQ_SEQ_SHIFT sn"
  shows "unat sq = 16 * unat sn"
    "unat (ucast sq OR (y AND 0x0F) :: u8) + 256 * unat (ucast (drop_bit 8 sq) :: u8) = 16 * unat sn + unat y mod 16"
proof -
  show s: "unat sq = 16 * unat sn"
    using assms by (simp add: IEEE80211_SEQ_SEQ_SHIFT_def push_bit_eq_mult unat_word_ariths)
  have "16 * unat sn mod 256 = 16 * (unat sn mod 16)" by (simp add: mult_mod_right)
  then have "unat (ucast sq :: u8) = 16 * (unat sn mod 16)" using s by (simp add: unat_ucast_u8_16)
  then show "unat (ucast sq OR (y AND 0x0F) :: u8) + 256 * unat (ucast (drop_bit 8 sq) :: u8) = 16 * unat sn + unat y mod 16"
    using unat_nibbles [of "ucast sq" "unat sn mod 16" y] unat_bytes_16 [of sq] s by simp
qed

text \<open>
  A data frame gets the next sequence number of its TID: it is stored in the buffer and, in
  little endian above the fragment number that the frame already has, in the frame. Only the last fragment
  moves the TID on, modulo 4096.
\<close>

theorem ath_tgt_tx_seqno_normal_stamps:
  assumes "ATH_AN_2_TID (txbufs s b) = Some t" "bf_skb (txbufs s b) = Some skb" "24 \<le> length (frames s skb)"
    and "unat (seq_next (an_tid s t)) < 4096"
  shows "\<exists>s'. ath_tgt_tx_seqno_normal b s = Some s' \<and>
    SEQNO_FROM_BF_SEQNO (bf_seqno (txbufs s' b)) = ucast (seq_next (an_tid s t)) \<and>
    unat (frames s' skb ! 22) + 256 * unat (frames s' skb ! 23) =
      16 * unat (seq_next (an_tid s t)) + unat (frames s skb ! 22) mod 16 \<and>
    unat (seq_next (an_tid s' t)) = (if frames s skb ! 1 AND 0x04 = 0 then (unat (seq_next (an_tid s t)) + 1) mod 4096
      else unat (seq_next (an_tid s t))) \<and>
    length (frames s' skb) = length (frames s skb) \<and> (\<forall>i. i < length (frames s skb) \<and> i \<noteq> 22 \<and> i \<noteq> 23 \<longrightarrow> frames s' skb ! i = frames s skb ! i)"
proof -
  let ?f = "frames s skb" and ?sn = "seq_next (an_tid s t)"
  let ?sq = "push_bit IEEE80211_SEQ_SEQ_SHIFT ?sn"
  note sq = stamped_seq [OF assms(4) refl]
  have len: "22 < length ?f" "23 < length ?f" "1 < length ?f" using assms(3) by simp_all
  define f' where "f' = ?f[22 := ucast ?sq OR (?f ! 22 AND 0x0F), 23 := ucast (drop_bit 8 ?sq)]"
  obtain s' where s': "ath_tgt_tx_seqno_normal b s = Some s'" "bf_seqno (txbufs s' b) = ?sq" "frames s' skb = f'"
    "an_tid s' t = (if ?f ! 1 AND 0x04 = 0 then (an_tid s t)\<lparr>seq_next := INCR_seq ?sn\<rparr> else an_tid s t)"
    using assms(1,2) len
    by (simp add: ath_tgt_tx_seqno_normal_def Let_def at_def set_frame_byte_def set_at_def upd_node_def upd_buf_def upd_tid_def f'_def)
  have "unat (SEQNO_FROM_BF_SEQNO ?sq) = unat (ucast ?sn :: u32)" using sq(1) by (simp add: unat_SEQNO_FROM_BF_SEQNO)
  then have "SEQNO_FROM_BF_SEQNO (bf_seqno (txbufs s' b)) = ucast ?sn" unfolding s'(2) by (rule unat_eqI)
  moreover have "unat (f' ! 22) + 256 * unat (f' ! 23) = 16 * unat ?sn + unat (?f ! 22) mod 16"
    using sq(2) [of "?f ! 22"] len by (simp add: f'_def)
  moreover have "unat (seq_next (an_tid s' t)) = (if ?f ! 1 AND 0x04 = 0 then (unat ?sn + 1) mod 4096 else unat ?sn)"
    by (simp add: s'(4) unat_INCR_seq)
  ultimately show ?thesis
    using s'(1,3) by (intro exI [of _ s']) (simp add: f'_def)
qed

theorem ath_tgt_tx_seqno_normal_stamps_witness:
  "\<exists>s'. ath_tgt_tx_seqno_normal 0 owl0 = Some s' \<and> unat (frames s' 10 ! 22) + 256 * unat (frames s' 10 ! 23) = 128 \<and>
     unat (seq_next (an_tid s' (0, 0))) = 9"
proof -
  have "ATH_AN_2_TID (txbufs owl0 0) = Some (0, 0)" "bf_skb (txbufs owl0 0) = Some 10" "24 \<le> length (frames owl0 10)"
    "unat (seq_next (an_tid owl0 (0, 0))) < 4096" "frames owl0 10 ! 1 AND 0x04 = 0" "frames owl0 10 ! 22 = 0"
    "unat (seq_next (an_tid owl0 (0, 0))) = 8" by code_simp+
  with ath_tgt_tx_seqno_normal_stamps [of owl0 0 "(0, 0)" 10] show ?thesis by auto
qed

end
