(* ===== verification/Owl_Done.thy ===== *)
theory Owl_Done
  imports Owl_Aggr "HOL-Library.Multiset"
begin

text \<open>
  The completion of an aggregate: every subframe is released, queued again or, when its retries are used
  up, dropped from the window; no buffer and no frame of the host is lost or used twice.
\<close>

section \<open>The status reported to the host\<close>

text \<open>Both status events keep their twelve entries, and no more than twelve are counted.\<close>

definition status_ok :: "WMI_TXSTATUS_EVENT list \<Rightarrow> bool" where
  "status_ok ts \<longleftrightarrow> (\<forall>t\<in>set ts. length (txstatus t) = 12 \<and> txs_cnt t \<le> 12)"

definition series_ok :: "owl_env \<Rightarrow> 'a owl_scheme \<Rightarrow> ath_tx_status \<Rightarrow> ath_rc_series list \<Rightarrow> bool" where
  "series_ok env s ds rcs \<longleftrightarrow> (\<exists>rt. hwRateTable env (sc_curmode s) = Some rt \<and> unat (ts_rate ds) < length rcs \<and>
     unat (rcs_rix (rcs ! unat (ts_rate ds))) < length (info rt))"

lemma put_status_ok:
  assumes "status_ok (tx_status s)" "i < length (tx_status s)" "txs_cnt (tx_status s ! i) < 12"
  shows "\<exists>ts. put_status i e s = Some (s\<lparr>tx_status := ts\<rparr>) \<and> status_ok ts"
proof -
  let ?t = "tx_status s ! i"
  have l: "length (txstatus ?t) = 12" using assms by (simp add: status_ok_def)
  have n: "unat (txs_cnt ?t) < 12" using assms(3) by (simp add: word_less_nat_alt)
  have "unat (txs_cnt ?t + 1) = unat (txs_cnt ?t) + 1" using n by (simp add: unat_word_ariths)
  then have "txs_cnt ?t + 1 \<le> 12" using n by (simp add: word_le_nat_alt)
  then have "status_ok ((tx_status s)[i := ?t\<lparr>txstatus := (txstatus ?t)[unat (txs_cnt ?t) := e], txs_cnt := txs_cnt ?t + 1\<rparr>])"
    using assms(1) l by (auto simp: status_ok_def dest!: set_update_subset_insert [THEN subsetD])
  then show ?thesis using assms(2) l n by (auto simp: put_status_def at_def set_at_def)
qed

lemma status_get:
  assumes "ath_tx_status_get s = Some i"
  shows "i < length (tx_status s) \<and> txs_cnt (tx_status s ! i) < 12"
proof -
  obtain js where f: "filter (\<lambda>i. txs_cnt (tx_status s ! i) < 12) [0..<length (tx_status s)] = i # js"
    using assms by (auto simp: ath_tx_status_get_def split: list.splits)
  have "i \<in> set (filter (\<lambda>i. txs_cnt (tx_status s ! i) < 12) [0..<length (tx_status s)])" by (simp only: f list.set_intros)
  then show ?thesis by simp
qed

lemma update_rate_returns:
  "unat (ts_rate ds) < length rcs \<Longrightarrow> unat (rcs_rix (rcs ! unat (ts_rate ds))) < length (info rt) \<Longrightarrow>
   \<exists>e'. ath_tx_status_update_rate rt rcs (unat (ts_rate ds)) e = Some e'"
  by (simp add: ath_tx_status_update_rate_def at_def Let_def)

lemma status_update_aggr:
  assumes "status_ok (tx_status s)" "rcs \<noteq> None \<longrightarrow> series_ok env s ds (the rcs)"
  shows "\<exists>ts. ath_tx_status_update_aggr env b ds rcs txok s = Some (s\<lparr>tx_status := ts\<rparr>) \<and> status_ok ts"
proof (cases "sc_tx_draining s \<or> ath_tx_status_get s = None")
  case True
  then show ?thesis using assms(1) by (intro exI [of _ "tx_status s"]) (auto simp: ath_tx_status_update_aggr_def)
next
  case False
  then obtain i where i: "ath_tx_status_get s = Some i" by blast
  note g = status_get [OF i]
  have l: "length (txstatus (tx_status s ! i)) = 12" using g assms(1) by (simp add: status_ok_def)
  have n: "unat (txs_cnt (tx_status s ! i)) < 12" using g by (simp add: word_less_nat_alt)
  let ?e = "\<lparr>txs_cookie = bf_cookie (txbufs s b), txs_rate = push_bit 4 (bf_endpt (txbufs s b)) AND 0xF0,
      txs_flags = txs_flags (txstatus (tx_status s ! i) ! unat (txs_cnt (tx_status s ! i))) OR (if txok then 0x01 else 0)\<rparr>"
  obtain e' where "(case rcs of None \<Rightarrow> Some ?e | Some r \<Rightarrow> do {
      rt \<leftarrow> hwRateTable env (sc_curmode s); ath_tx_status_update_rate rt r (unat (ts_rate ds)) ?e }) = Some e'"
  proof (cases rcs)
    case None
    then show ?thesis using that by simp
  next
    case (Some r)
    then obtain rt where "hwRateTable env (sc_curmode s) = Some rt" "unat (ts_rate ds) < length r"
      "unat (rcs_rix (r ! unat (ts_rate ds))) < length (info rt)"
      using assms(2) by (auto simp: series_ok_def)
    then show ?thesis using that Some update_rate_returns [of ds r rt ?e] by auto
  qed
  moreover obtain ts where "put_status i e' s = Some (s\<lparr>tx_status := ts\<rparr>)" "status_ok ts"
    using put_status_ok [OF assms(1)] g by blast
  ultimately show ?thesis
    using False i g l n by (intro exI [of _ ts]) (simp add: ath_tx_status_update_aggr_def at_def)
qed

section \<open>Buffers and frames that change hands\<close>

lemma return_skbs_eq: "return_skbs e ks s = s\<lparr>acts := acts s @ map (Htc_ReturnBuffers e) ks\<rparr>"
  by (induction ks arbitrary: s) (simp_all add: emit_def)

text \<open>The buffers that are not in use: the free list and the one held back.\<close>

definition pool :: "'a owl_scheme \<Rightarrow> bufref multiset" where
  "pool s = add_mset (sc_txbuf_held s) (mset (sc_txbuf s))"

text \<open>What the release and the retry of one buffer leave alone.\<close>

definition step_frame :: "bufref \<Rightarrow> 'a owl_scheme \<Rightarrow> 'a owl_scheme \<Rightarrow> bool" where
  "step_frame b s s' \<longleftrightarrow> (\<forall>x. x \<noteq> b \<and> x \<noteq> sc_txbuf_held s \<longrightarrow> txbufs s' x = txbufs s x) \<and> sc_curmode s' = sc_curmode s \<and>
     (\<forall>k. length (frames s' k) = length (frames s k))"

lemma freebuf_effect:
  "an_tid (ath_tx_freebuf b s) = an_tid s" "tx_status (ath_tx_freebuf b s) = tx_status s"
  "pool (ath_tx_freebuf b s) = add_mset b (pool s)" "sc_txbuf_held (ath_tx_freebuf b s) = b"
  "returned (acts (ath_tx_freebuf b s)) = returned (acts s) @ bf_skbhead (txbufs s b)"
  "step_frame b s (ath_tx_freebuf b s)"
  by (simp_all add: ath_tx_freebuf_def Let_def ath_buf_toggle_def ath_tgt_skb_free_def return_skbs_eq clr_aggr_def
    ath_dma_unmap_def emit_def upd_buf_def pool_def step_frame_def)

text \<open>A subframe of the TID holds one frame of at least two bytes.\<close>

definition sub_ok :: "tidref \<Rightarrow> 'a owl_scheme \<Rightarrow> bufref \<Rightarrow> bool" where
  "sub_ok t s b \<longleftrightarrow> ATH_AN_2_TID (txbufs s b) = Some t \<and>
     (\<exists>k. bf_skbhead (txbufs s b) = [k] \<and> bf_skb (txbufs s b) = Some k \<and> 2 \<le> length (frames s k))"

text \<open>The buffer \<open>x\<close> that takes the frame of \<open>b\<close> to be sent again.\<close>

definition requeued :: "ath_tx_buf \<Rightarrow> ath_tx_buf \<Rightarrow> bufref \<Rightarrow> bool" where
  "requeued old new x \<longleftrightarrow> bf_seqno new = bf_seqno old \<and> bf_skbhead new = bf_skbhead old \<and> bf_skb new = bf_skb old \<and>
     bf_node new = bf_node old \<and> bf_tidno new = bf_tidno old \<and> bf_comp new = bf_comp old \<and> bf_pktlen new = bf_pktlen old \<and>
     bf_rcs new = bf_rcs old \<and> bf_retries new = bf_retries old + 1 \<and> bf_isretried new \<and> bf_lastds new = x"

lemma filltxdesc_effect:
  "\<exists>n. ath_filltxdesc b s = s\<lparr>ds_link := (ds_link s)(b := None),
     txbufs := (txbufs s)(b := (txbufs s b)\<lparr>bf_lastds := b\<rparr>), acts := acts s @ [Hal_fillTxDesc b n True True]\<rparr>"
proof -
  let ?s = "upd_buf b (\<lambda>bf. bf\<lparr>bf_lastds := b\<rparr>) (set_link b None s)"
  obtain n where "ath_filltxdesc b s = emit (Hal_fillTxDesc b n True True) ?s"
    by (simp only: ath_filltxdesc_def Let_def)
  then show ?thesis by (intro exI [of _ n]) (simp add: emit_def upd_buf_def set_link_def)
qed

lemma setds_effect:
  "\<exists>fl a n. ath_tx_tgt_setds b s = s\<lparr>ds_link := (ds_link s)(b := None),
     txbufs := (txbufs s)(b := (txbufs s b)\<lparr>bf_flags := fl, bf_lastds := b\<rparr>), acts := acts s @ [a, Hal_fillTxDesc b n True True]\<rparr> \<and> returned [a] = []"
proof -
  let ?p = "bf_protmode (txbufs s b)" and ?f = "bf_flags (txbufs s b)"
  define fl where "fl = (if ?p = IEEE80211_PROT_RTSCTS then ?f OR HAL_TXDESC_RTSENA
    else if ?p = IEEE80211_PROT_CTSONLY then ?f OR HAL_TXDESC_CTSENA else ?f)"
  have e: "(if ?p = IEEE80211_PROT_RTSCTS then upd_buf b (\<lambda>bf. bf\<lparr>bf_flags := bf_flags bf OR HAL_TXDESC_RTSENA\<rparr>) s
      else if ?p = IEEE80211_PROT_CTSONLY then upd_buf b (\<lambda>bf. bf\<lparr>bf_flags := bf_flags bf OR HAL_TXDESC_CTSENA\<rparr>) s
      else s) = upd_buf b (\<lambda>bf. bf\<lparr>bf_flags := fl\<rparr>) s"
    by (simp add: upd_buf_def fl_def)
  define a where "a = Hal_set11nTxDesc b (bf_pktlen (txbufs s b)) (bf_atype (txbufs s b)) (bf_keyix (txbufs s b))
    (bf_keytype (txbufs s b)) (fl OR HAL_TXDESC_INTREQ)"
  have "ath_tx_tgt_setds b s = ath_filltxdesc b (emit a (upd_buf b (\<lambda>bf. bf\<lparr>bf_flags := fl\<rparr>) s))"
    unfolding ath_tx_tgt_setds_def Let_def e by (simp add: upd_buf_def a_def)
  then show ?thesis
    using filltxdesc_effect [of b "emit a (upd_buf b (\<lambda>bf. bf\<lparr>bf_flags := fl\<rparr>) s)"]
    by (intro exI [of _ fl] exI [of _ a]) (auto simp: emit_def upd_buf_def a_def)
qed

lemma toggle_retry_effect:
  assumes "bf_skbhead (txbufs s b) = [k]" "b \<noteq> sc_txbuf_held s"
  shows "\<exists>s'. ath_buf_toggle_retry b s = Some (sc_txbuf_held s, s') \<and> sc_txbuf_held s' = b \<and> sc_txbuf s' = sc_txbuf s \<and>
    an_tid s' = an_tid s \<and> tx_status s' = tx_status s \<and> frames s' = frames s \<and> sc_curmode s' = sc_curmode s \<and>
    returned (acts s') = returned (acts s) \<and> (\<forall>x. x \<noteq> b \<and> x \<noteq> sc_txbuf_held s \<longrightarrow> txbufs s' x = txbufs s x) \<and>
    (\<exists>fl. txbufs s' (sc_txbuf_held s) = (toggle_copy (txbufs s b) k (txbufs s (sc_txbuf_held s)))
       \<lparr>bf_flags := fl, bf_lastds := sc_txbuf_held s\<rparr>)"
proof -
  let ?h = "sc_txbuf_held s"
  let ?s = "ath_dma_map ?h (upd_buf b toggle_clear (upd_buf ?h (toggle_copy (txbufs s b) k) (ath_dma_unmap b s)))"
  obtain fl a n where e: "ath_tx_tgt_setds ?h ?s = ?s\<lparr>ds_link := (ds_link ?s)(?h := None),
     txbufs := (txbufs ?s)(?h := (txbufs ?s ?h)\<lparr>bf_flags := fl, bf_lastds := ?h\<rparr>), acts := acts ?s @ [a, Hal_fillTxDesc ?h n True True]\<rparr>" "returned [a] = []"
    using setds_effect [of ?h ?s] by blast
  have "ath_buf_toggle_retry b s = Some (?h, (ath_tx_tgt_setds ?h ?s)\<lparr>sc_txbuf_held := b\<rparr>)"
    using assms by (simp add: ath_buf_toggle_retry_def Let_def ath_dma_unmap_def emit_def)
  then show ?thesis
    unfolding e(1) using assms(2) e(2) by (auto simp: ath_dma_unmap_def ath_dma_map_def emit_def upd_buf_def returned_def)
qed

lemma set_retry_effect:
  assumes "bf_skb (txbufs s b) = Some k" "2 \<le> length (frames s k)"
  shows "\<exists>s'. ath_tx_set_retry b s = Some s' \<and> sc_txbuf_held s' = sc_txbuf_held s \<and> sc_txbuf s' = sc_txbuf s \<and>
    an_tid s' = an_tid s \<and> tx_status s' = tx_status s \<and> sc_curmode s' = sc_curmode s \<and> acts s' = acts s \<and>
    frames s' = (frames s)(k := (frames s k)[1 := frames s k ! 1 OR 0x08]) \<and>
    txbufs s' = (txbufs s)(b := (txbufs s b)\<lparr>bf_isretried := True, bf_retries := bf_retries (txbufs s b) + 1\<rparr>)"
  using assms
  by (simp add: ath_tx_set_retry_def set_frame_byte_def upd_buf_def statsn_def at_def set_at_def)

section \<open>One subframe\<close>

definition seq_of :: "ath_tx_buf \<Rightarrow> nat" where
  "seq_of bf = unat (SEQNO_FROM_BF_SEQNO (bf_seqno bf))"

text \<open>The three outcomes of a subframe: acknowledged, given up, sent again.\<close>

definition is_acked :: "(u32 \<Rightarrow> bool) \<Rightarrow> ath_tx_buf \<Rightarrow> bool" where
  "is_acked acked bf \<longleftrightarrow> acked (SEQNO_FROM_BF_SEQNO (bf_seqno bf))"

definition given_up :: "(u32 \<Rightarrow> bool) \<Rightarrow> ath_tx_buf \<Rightarrow> bool" where
  "given_up acked bf \<longleftrightarrow> \<not> is_acked acked bf \<and> bf_retries bf \<ge> OWLMAX_RETRIES"

definition sent_again :: "(u32 \<Rightarrow> bool) \<Rightarrow> ath_tx_buf \<Rightarrow> bool" where
  "sent_again acked bf \<longleftrightarrow> \<not> is_acked acked bf \<and> \<not> bf_retries bf \<ge> OWLMAX_RETRIES"

definition aggr_step :: "owl_env \<Rightarrow> tidref \<Rightarrow> (u32 \<Rightarrow> bool) \<Rightarrow> ath_tx_status \<Rightarrow> ath_rc_series list \<Rightarrow> bufref \<Rightarrow>
    bufref list \<times> bufref option \<Rightarrow> 'a owl_scheme \<Rightarrow> ((bufref list \<times> bufref option) \<times> 'a owl_scheme) option" where
  "aggr_step env t acked ds rcs b acc s =
     (if is_acked acked (txbufs s b) then do {
        s \<leftarrow> tid_update_baw t (bf_seqno (txbufs s b)) (stats txaggr_compgood s);
        s \<leftarrow> ath_tx_status_update_aggr env b ds (Some rcs) True s;
        Some (acc, ath_tx_freebuf b s) }
      else ath_tx_retry_subframe env b acc s)"

lemma aggr_loop_Some:
  "aggr_loop env t acked ds rcs (Some b) acc nbad s = do {
     (acc, s1) \<leftarrow> aggr_step env t acked ds rcs b acc s;
     aggr_loop env t acked ds rcs (bf_next (txbufs s b)) acc (if is_acked acked (txbufs s b) then nbad else nbad + 1) s1 }"
  by (subst aggr_loop.simps) (auto simp: Let_def aggr_step_def is_acked_def split: Option.bind_split)

lemma aggr_loop_None: "aggr_loop env t acked ds rcs None acc nbad s = Some (acc, nbad, s)"
  by (subst aggr_loop.simps) simp

lemma tid_update_run:
  assumes "baw_inv (an_tid s t)" "unat (SEQNO_FROM_BF_SEQNO sq) \<in> baw_outstanding (an_tid s t)"
  shows "\<exists>tid. tid_update_baw t sq s = Some (s\<lparr>an_tid := (an_tid s)(t := tid)\<rparr>) \<and> baw_inv tid \<and>
    baw_outstanding tid = baw_outstanding (an_tid s t) - {unat (SEQNO_FROM_BF_SEQNO sq)}"
  using baw.complete_law [OF assms] by (auto simp: tid_update_baw_def)

definition opt_mset :: "bufref option \<Rightarrow> bufref multiset" where
  "opt_mset ob = (case ob of None \<Rightarrow> {#} | Some b \<Rightarrow> {#b#})"

lemma opt_mset_simps [simp]: "opt_mset None = {#}" "opt_mset (Some b) = {#b#}"
  by (simp_all add: opt_mset_def)

definition step_post :: "tidref \<Rightarrow> (u32 \<Rightarrow> bool) \<Rightarrow> bufref \<Rightarrow> bufref option \<Rightarrow> 'a owl_scheme \<Rightarrow> bufref list \<Rightarrow> bufref option \<Rightarrow>
    'a owl_scheme \<Rightarrow> bool" where
  "step_post t acked b bar s add bar1 s1 \<longleftrightarrow> (let bf = txbufs s b in
     baw_inv (an_tid s1 t) \<and>
     baw_outstanding (an_tid s1 t) = baw_outstanding (an_tid s t) - (if sent_again acked bf then {} else {seq_of bf}) \<and>
     (\<forall>u. u \<noteq> t \<longrightarrow> an_tid s1 u = an_tid s u) \<and>
     list_all2 (\<lambda>b x. requeued (txbufs s b) (txbufs s1 x) x) (if sent_again acked bf then [b] else []) add \<and>
     bar1 = (if given_up acked bf \<and> bar = None then Some b else bar) \<and>
     (given_up acked bf \<and> bar = None \<longrightarrow> txbufs s1 b = bf) \<and>
     mset add + opt_mset bar1 + pool s1 = add_mset b (opt_mset bar + pool s) \<and>
     returned (acts s1) = returned (acts s) @ (if is_acked acked bf \<or> given_up acked bf \<and> bar \<noteq> None then bf_skbhead bf else []) \<and>
     step_frame b s s1 \<and> status_ok (tx_status s1))"

lemma aggr_step_acked:
  assumes "baw_inv (an_tid s t)" "seq_of (txbufs s b) \<in> baw_outstanding (an_tid s t)" "status_ok (tx_status s)"
    "series_ok env s ds rcs" "is_acked acked (txbufs s b)"
  shows "\<exists>s1. aggr_step env t acked ds rcs b (rq, bar) s = Some ((rq, bar), s1) \<and> step_post t acked b bar s [] bar s1"
proof -
  let ?s = "stats txaggr_compgood s"
  obtain tid where tid: "tid_update_baw t (bf_seqno (txbufs s b)) ?s = Some (?s\<lparr>an_tid := (an_tid ?s)(t := tid)\<rparr>)"
    "baw_inv tid" "baw_outstanding tid = baw_outstanding (an_tid s t) - {seq_of (txbufs s b)}"
    using tid_update_run [of ?s t "bf_seqno (txbufs s b)"] assms(1,2) by (auto simp: statsn_def seq_of_def)
  let ?s1 = "?s\<lparr>an_tid := (an_tid ?s)(t := tid)\<rparr>"
  obtain ts where ts: "ath_tx_status_update_aggr env b ds (Some rcs) True ?s1 = Some (?s1\<lparr>tx_status := ts\<rparr>)" "status_ok ts"
    using status_update_aggr [of ?s1 "Some rcs" env ds b True] assms(3,4) by (auto simp: statsn_def series_ok_def)
  note fe = freebuf_effect [where b = b and s = "?s1\<lparr>tx_status := ts\<rparr>"]
  show ?thesis
    using assms(5) tid ts fe
    by (simp add: aggr_step_def step_post_def Let_def given_up_def sent_again_def step_frame_def pool_def statsn_def)
qed

lemma clr_state [simp]:
  "txbufs (clr_aggr b (statsn x n s)) = txbufs s" "an_tid (clr_aggr b (statsn x n s)) = an_tid s"
  "tx_status (clr_aggr b (statsn x n s)) = tx_status s" "frames (clr_aggr b (statsn x n s)) = frames s"
  "sc_txbuf (clr_aggr b (statsn x n s)) = sc_txbuf s" "sc_txbuf_held (clr_aggr b (statsn x n s)) = sc_txbuf_held s"
  "sc_curmode (clr_aggr b (statsn x n s)) = sc_curmode s"
  "returned (acts (clr_aggr b (statsn x n s))) = returned (acts s)"
  by (simp_all add: clr_aggr_def statsn_def emit_def)

lemma statsn_state [simp]:
  "txbufs (statsn x n s) = txbufs s" "an_tid (statsn x n s) = an_tid s" "tx_status (statsn x n s) = tx_status s"
  "frames (statsn x n s) = frames s" "sc_txbuf (statsn x n s) = sc_txbuf s" "sc_txbuf_held (statsn x n s) = sc_txbuf_held s"
  "sc_curmode (statsn x n s) = sc_curmode s" "acts (statsn x n s) = acts s" "ds_txstat (statsn x n s) = ds_txstat s"
  by (simp_all add: statsn_def)

lemma aggr_step_given_up:
  assumes "baw_inv (an_tid s t)" "seq_of (txbufs s b) \<in> baw_outstanding (an_tid s t)" "status_ok (tx_status s)"
    "sub_ok t s b" "given_up acked (txbufs s b)"
  shows "\<exists>bar1 s1. aggr_step env t acked ds rcs b (rq, bar) s = Some ((rq, bar1), s1) \<and> step_post t acked b bar s [] bar1 s1"
proof -
  let ?s = "stats txaggr_xretries (clr_aggr b (stats txaggr_compretries s))"
  have tt: "ATH_AN_2_TID (txbufs s b) = Some t" using assms(4) by (simp add: sub_ok_def)
  obtain tid where tid: "tid_update_baw t (bf_seqno (txbufs s b)) ?s = Some (?s\<lparr>an_tid := (an_tid s)(t := tid)\<rparr>)"
    "baw_inv tid" "baw_outstanding tid = baw_outstanding (an_tid s t) - {seq_of (txbufs s b)}"
    using tid_update_run [of ?s t "bf_seqno (txbufs s b)"] assms(1,2) by (auto simp: seq_of_def)
  let ?s1 = "?s\<lparr>an_tid := (an_tid s)(t := tid)\<rparr>"
  obtain ts where ts: "ath_tx_status_update_aggr env b d None False ?s1 = Some (?s1\<lparr>tx_status := ts\<rparr>)" "status_ok ts"
    if "d = ds_txstat ?s1 (bf_lastds (txbufs s b))" for d
    using status_update_aggr [of ?s1 None env "ds_txstat ?s1 (bf_lastds (txbufs s b))" b False] assms(3) by auto
  let ?s2 = "?s1\<lparr>tx_status := ts\<rparr>"
  have g: "\<not> is_acked acked (txbufs s b)" "\<not> sent_again acked (txbufs s b)" "bf_retries (txbufs s b) \<ge> OWLMAX_RETRIES"
    using assms(5) by (simp_all add: given_up_def sent_again_def)
  have run: "aggr_step env t acked ds rcs b (rq, bar) s =
      (case bar of None \<Rightarrow> Some ((rq, Some b), ?s2) | Some _ \<Rightarrow> Some ((rq, bar), ath_tx_freebuf b ?s2))"
    using g tt tid(1) ts(1) by (simp add: aggr_step_def ath_tx_retry_subframe_def Let_def split: option.split)
  note fe = freebuf_effect [where b = b and s = ?s2]
  show ?thesis
  proof (cases bar)
    case None
    then show ?thesis using run g assms(5) tid ts(2)
      by (simp add: step_post_def Let_def step_frame_def pool_def)
  next
    case (Some c)
    then show ?thesis using run g assms(5) tid ts(2) fe
      by (simp add: step_post_def Let_def step_frame_def pool_def)
  qed
qed

lemma aggr_step_sent_again:
  assumes "baw_inv (an_tid s t)" "status_ok (tx_status s)" "sub_ok t s b" "sent_again acked (txbufs s b)" "b \<noteq> sc_txbuf_held s"
  shows "\<exists>x s1. aggr_step env t acked ds rcs b (rq, bar) s = Some ((rq @ [x], bar), s1) \<and> step_post t acked b bar s [x] bar s1"
proof -
  let ?bf = "txbufs s b" and ?s = "clr_aggr b (stats txaggr_compretries s)"
  obtain k where k: "ATH_AN_2_TID ?bf = Some t" "bf_skbhead ?bf = [k]" "bf_skb ?bf = Some k" "2 \<le> length (frames s k)"
    using assms(3) by (auto simp: sub_ok_def)
  have g: "\<not> is_acked acked ?bf" "\<not> given_up acked ?bf" "\<not> bf_retries ?bf \<ge> OWLMAX_RETRIES"
    using assms(4) by (simp_all add: given_up_def sent_again_def)
  let ?r = "if bf_next ?bf = None then ath_buf_toggle_retry b (stats txaggr_errlast ?s)
    else Some (b, upd_buf b (\<lambda>bf. bf\<lparr>bf_lastds := b\<rparr>) ?s)"
  obtain x s1 where s1: "?r = Some (x, s1)" "x = (if bf_next ?bf = None then sc_txbuf_held s else b)"
    "bf_skb (txbufs s1 x) = Some k" "frames s1 = frames s" "an_tid s1 = an_tid s" "tx_status s1 = tx_status s"
    "add_mset x (pool s1) = add_mset b (pool s)" "returned (acts s1) = returned (acts s)" "sc_curmode s1 = sc_curmode s"
    "\<forall>y. y \<noteq> b \<and> y \<noteq> sc_txbuf_held s \<longrightarrow> txbufs s1 y = txbufs s y"
    "requeued ?bf ((txbufs s1 x)\<lparr>bf_isretried := True, bf_retries := bf_retries (txbufs s1 x) + 1\<rparr>) x"
  proof (cases "bf_next ?bf")
    case None
    obtain s2 where "ath_buf_toggle_retry b (stats txaggr_errlast ?s) = Some (sc_txbuf_held s, s2)" "sc_txbuf_held s2 = b"
      "sc_txbuf s2 = sc_txbuf s" "an_tid s2 = an_tid s" "tx_status s2 = tx_status s" "frames s2 = frames s"
      "sc_curmode s2 = sc_curmode s" "returned (acts s2) = returned (acts s)"
      "\<forall>y. y \<noteq> b \<and> y \<noteq> sc_txbuf_held s \<longrightarrow> txbufs s2 y = txbufs s y"
      "\<exists>fl. txbufs s2 (sc_txbuf_held s) = (toggle_copy ?bf k (txbufs s (sc_txbuf_held s)))\<lparr>bf_flags := fl, bf_lastds := sc_txbuf_held s\<rparr>"
      using toggle_retry_effect [of "stats txaggr_errlast ?s" b k] k(2) assms(5) by auto
    then show ?thesis using None k that [of "sc_txbuf_held s" s2]
      by (auto simp: pool_def requeued_def toggle_copy_def add_mset_commute)
  next
    case (Some nx)
    then show ?thesis using k that [of b "upd_buf b (\<lambda>bf. bf\<lparr>bf_lastds := b\<rparr>) ?s"]
      by (simp add: upd_buf_def pool_def requeued_def)
  qed
  obtain s2 where s2: "ath_tx_set_retry x s1 = Some s2" "sc_txbuf_held s2 = sc_txbuf_held s1" "sc_txbuf s2 = sc_txbuf s1"
    "an_tid s2 = an_tid s" "tx_status s2 = tx_status s" "sc_curmode s2 = sc_curmode s" "acts s2 = acts s1"
    "frames s2 = (frames s)(k := (frames s k)[1 := frames s k ! 1 OR 0x08])"
    "txbufs s2 = (txbufs s1)(x := (txbufs s1 x)\<lparr>bf_isretried := True, bf_retries := bf_retries (txbufs s1 x) + 1\<rparr>)"
    using set_retry_effect [of s1 x k] s1 k(4) by auto
  have "aggr_step env t acked ds rcs b (rq, bar) s = Some ((rq @ [x], bar), s2)"
    using g k(1) s1(1) s2(1) by (simp add: aggr_step_def ath_tx_retry_subframe_def Let_def)
  moreover have "step_post t acked b bar s [x] bar s2"
    using assms(1,2,4) g s1 s2 by (auto simp: step_post_def Let_def step_frame_def pool_def)
  ultimately show ?thesis by blast
qed

section \<open>The loop over the subframes\<close>

fun linked :: "(bufref \<Rightarrow> ath_tx_buf) \<Rightarrow> bufref option \<Rightarrow> bufref list \<Rightarrow> bool" where
  "linked f ob [] \<longleftrightarrow> ob = None"
| "linked f ob (b # bs) \<longleftrightarrow> ob = Some b \<and> linked f (bf_next (f b)) bs"

lemma linked_cong: "(\<And>x. x \<in> set bs \<Longrightarrow> f x = g x) \<Longrightarrow> linked f ob bs = linked g ob bs"
  by (induction bs arbitrary: ob) simp_all

definition loop_post :: "tidref \<Rightarrow> (u32 \<Rightarrow> bool) \<Rightarrow> bufref list \<Rightarrow> bufref list \<Rightarrow> bufref option \<Rightarrow> 'a owl_scheme \<Rightarrow> bufref list \<Rightarrow>
    bufref option \<Rightarrow> 'a owl_scheme \<Rightarrow> bool" where
  "loop_post t acked bs rq bar s rq1 bar1 s1 \<longleftrightarrow> (let f = txbufs s in
     baw_inv (an_tid s1 t) \<and>
     baw_outstanding (an_tid s1 t) = baw_outstanding (an_tid s t) - seq_of ` f ` {b \<in> set bs. \<not> sent_again acked (f b)} \<and>
     (\<forall>u. u \<noteq> t \<longrightarrow> an_tid s1 u = an_tid s u) \<and>
     list_all2 (\<lambda>b x. requeued (f b) (txbufs s1 x) x) (filter (\<lambda>b. sent_again acked (f b)) bs) rq1 \<and>
     bar1 = (if bar = None then find (\<lambda>b. given_up acked (f b)) bs else bar) \<and>
     (\<forall>b. bar1 = Some b \<longrightarrow> txbufs s1 b = f b) \<and> (\<forall>x\<in>set rq. txbufs s1 x = f x) \<and>
     mset rq1 + opt_mset bar1 + pool s1 = mset bs + opt_mset bar + pool s \<and>
     returned (acts s1) = returned (acts s) @
       concat (map (\<lambda>b. bf_skbhead (f b)) (filter (\<lambda>b. is_acked acked (f b) \<or> given_up acked (f b) \<and> bar1 \<noteq> Some b) bs)) \<and>
     status_ok (tx_status s1) \<and> sc_curmode s1 = sc_curmode s \<and> (\<forall>k. length (frames s1 k) = length (frames s k)))"

lemma aggr_step_run:
  assumes "baw_inv (an_tid s t)" "seq_of (txbufs s b) \<in> baw_outstanding (an_tid s t)" "status_ok (tx_status s)"
    "series_ok env s ds rcs" "sub_ok t s b" "b \<noteq> sc_txbuf_held s"
  shows "\<exists>add bar1 s1. aggr_step env t acked ds rcs b (rq, bar) s = Some ((rq @ add, bar1), s1) \<and>
    step_post t acked b bar s add bar1 s1"
proof -
  consider "is_acked acked (txbufs s b)" | "given_up acked (txbufs s b)" | "sent_again acked (txbufs s b)"
    by (auto simp: given_up_def sent_again_def)
  then show ?thesis
  proof cases
    case 1
    from aggr_step_acked [OF assms(1-4) 1] show ?thesis by (metis append_Nil2)
  next
    case 2
    from aggr_step_given_up [OF assms(1,2,3,5) 2] show ?thesis by (metis append_Nil2)
  next
    case 3
    from aggr_step_sent_again [OF assms(1,3,5) 3 assms(6)] show ?thesis by blast
  qed
qed

definition once :: "bufref multiset \<Rightarrow> bool" where
  "once M \<longleftrightarrow> (\<forall>x. count M x \<le> 1)"

lemma once3:
  assumes "once M" "M = add_mset x (add_mset y (add_mset z N))"
  shows "x \<noteq> y \<and> x \<noteq> z \<and> y \<noteq> z"
proof -
  have "count M x \<le> 1" "count M y \<le> 1" using assms(1) by (simp_all add: once_def)
  then show ?thesis unfolding assms(2) by (auto split: if_splits)
qed

lemma loop_post_step:
  assumes st: "step_post t acked b bar s add bar1 s1" and lp: "loop_post t acked bs (rq @ add) bar1 s1 rq2 bar2 s2"
    and on: "once (mset (b # bs) + mset rq + opt_mset bar + pool s)"
    and seq: "seq_of (txbufs s b) \<notin> seq_of ` txbufs s ` set bs"
  shows "loop_post t acked (b # bs) rq bar s (add @ rq2) bar2 s2"
proof -
  let ?f = "txbufs s"
  have ne: "x \<noteq> b \<and> x \<noteq> sc_txbuf_held s" if "x \<in> set bs \<or> x \<in> set rq \<or> bar = Some x" for x
  proof -
    have "x \<in># mset bs + mset rq + opt_mset bar" using that by auto
    then obtain N where "mset bs + mset rq + opt_mset bar = add_mset x N" by (meson multi_member_split)
    then have "mset (b # bs) + mset rq + opt_mset bar + pool s =
        add_mset x (add_mset b (add_mset (sc_txbuf_held s) (N + mset (sc_txbuf s))))"
      by (simp add: pool_def)
    from once3 [OF on this] show ?thesis by blast
  qed
  have f1: "txbufs s1 x = ?f x" if "x \<in> set bs \<or> x \<in> set rq \<or> bar = Some x" for x
    using ne [OF that] st by (simp add: step_post_def Let_def step_frame_def)
  have flt: "filter (\<lambda>b. P (txbufs s1 b)) bs = filter (\<lambda>b. P (?f b)) bs" for P
    using f1 by (intro filter_cong) auto
  have fnd: "find (\<lambda>b. P (txbufs s1 b)) bs = find (\<lambda>b. P (?f b)) bs" for P
    using f1 by (intro find_cong) auto
  have set1: "{x \<in> set bs. \<not> sent_again acked (txbufs s1 x)} = {x \<in> set bs. \<not> sent_again acked (?f x)}"
    using f1 by auto
  have img: "txbufs s1 ` {x \<in> set bs. \<not> sent_again acked (?f x)} = ?f ` {x \<in> set bs. \<not> sent_again acked (?f x)}"
    using f1 by (intro image_cong) auto
  note st' = st [unfolded step_post_def Let_def] and lp' = lp [unfolded loop_post_def Let_def flt fnd set1 img]
  have out: "baw_outstanding (an_tid s2 t) = baw_outstanding (an_tid s t) - seq_of ` ?f ` {x \<in> set (b # bs). \<not> sent_again acked (?f x)}"
  proof -
    have "{x \<in> set (b # bs). \<not> sent_again acked (?f x)} =
        (if sent_again acked (?f b) then {} else {b}) \<union> {x \<in> set bs. \<not> sent_again acked (?f x)}" by auto
    then have "seq_of ` ?f ` {x \<in> set (b # bs). \<not> sent_again acked (?f x)} =
        (if sent_again acked (?f b) then {} else {seq_of (?f b)}) \<union> seq_of ` ?f ` {x \<in> set bs. \<not> sent_again acked (?f x)}"
      by auto
    then show ?thesis using st' lp' by (simp only:) blast
  qed
  have req: "list_all2 (\<lambda>b x. requeued (?f b) (txbufs s2 x) x) (filter (\<lambda>b. sent_again acked (?f b)) (b # bs)) (add @ rq2)"
  proof -
    have add: "txbufs s2 x = txbufs s1 x" if "x \<in> set add" for x using lp' that by simp
    have "list_all2 (\<lambda>b x. requeued (?f b) (txbufs s2 x) x) (if sent_again acked (?f b) then [b] else []) add"
      by (rule list.rel_mono_strong [where R = "\<lambda>b x. requeued (?f b) (txbufs s1 x) x"]) (use st' add in auto)
    moreover have "list_all2 (\<lambda>b x. requeued (?f b) (txbufs s2 x) x) (filter (\<lambda>b. sent_again acked (?f b)) bs) rq2"
      by (rule list.rel_mono_strong [where R = "\<lambda>b x. requeued (txbufs s1 b) (txbufs s2 x) x"]) (use lp' f1 in auto)
    ultimately show ?thesis
      by (cases "sent_again acked (?f b)") (auto simp: list_all2_Cons1)
  qed
  have bar: "bar2 = (if bar = None then find (\<lambda>b. given_up acked (?f b)) (b # bs) else bar)"
    using st' lp' by (auto split: if_splits)
  have keep: "txbufs s2 c = ?f c" if "bar2 = Some c" for c
  proof -
    have 1: "txbufs s2 c = txbufs s1 c" using lp' that by blast
    have 2: "given_up acked (?f b) \<and> bar = None \<longrightarrow> txbufs s1 b = ?f b" using st' by blast
    have "find P xs = Some c \<Longrightarrow> c \<in> set xs" for P and xs :: "bufref list" by (auto simp: find_Some_iff)
    then have "bar = Some c \<or> given_up acked (?f b) \<and> bar = None \<and> c = b \<or> c \<in> set bs"
      using bar that by (cases bar) (auto split: if_splits)
    then show ?thesis using 1 2 f1 [of c] by auto
  qed
  have ret: "given_up acked (?f b) \<and> bar \<noteq> None \<longleftrightarrow> given_up acked (?f b) \<and> bar2 \<noteq> Some b"
  proof (cases bar)
    case None
    then show ?thesis using bar by auto
  next
    case (Some c)
    then show ?thesis using bar ne [of c] by auto
  qed
  have cons: "mset (add @ rq2) + opt_mset bar2 + pool s2 = mset (b # bs) + opt_mset bar + pool s"
  proof -
    have "mset add + opt_mset bar1 + pool s1 = add_mset b (opt_mset bar + pool s)"
      "mset rq2 + opt_mset bar2 + pool s2 = mset bs + opt_mset bar1 + pool s1" using st' lp' by blast+
    then have "mset add + (mset rq2 + opt_mset bar2 + pool s2) = mset bs + add_mset b (opt_mset bar + pool s)"
      by (metis add.assoc add.left_commute)
    then show ?thesis by (simp add: add.assoc)
  qed
  have rets: "returned (acts s2) = returned (acts s) @
      concat (map (\<lambda>b. bf_skbhead (?f b)) (filter (\<lambda>b. is_acked acked (?f b) \<or> given_up acked (?f b) \<and> bar2 \<noteq> Some b) (b # bs)))"
  proof -
    have "map (\<lambda>b. bf_skbhead (txbufs s1 b)) (filter (\<lambda>b. is_acked acked (txbufs s1 b) \<or> given_up acked (txbufs s1 b) \<and> bar2 \<noteq> Some b) bs) =
      map (\<lambda>b. bf_skbhead (?f b)) (filter (\<lambda>b. is_acked acked (?f b) \<or> given_up acked (?f b) \<and> bar2 \<noteq> Some b) bs)"
      using f1 by (intro map_cong filter_cong) auto
    then show ?thesis using lp' st' ret by simp
  qed
  have rest: "baw_inv (an_tid s2 t)" "\<forall>u. u \<noteq> t \<longrightarrow> an_tid s2 u = an_tid s u" "\<forall>x\<in>set rq. txbufs s2 x = ?f x"
    "status_ok (tx_status s2)" "sc_curmode s2 = sc_curmode s" "\<forall>k. length (frames s2 k) = length (frames s k)"
    using lp' st' f1 by (simp_all add: step_frame_def)
  show ?thesis
    unfolding loop_post_def Let_def using out req bar keep cons rets rest by blast
qed

lemma sub_ok_frame:
  "sub_ok t s b \<Longrightarrow> txbufs s1 b = txbufs s b \<Longrightarrow> \<forall>k. length (frames s1 k) = length (frames s k) \<Longrightarrow> sub_ok t s1 b"
  by (simp add: sub_ok_def)

lemma aggr_loop_run:
  assumes "linked (txbufs s) ob bs" "\<forall>b\<in>set bs. sub_ok t s b \<and> seq_of (txbufs s b) \<in> baw_outstanding (an_tid s t)"
    "distinct (map (\<lambda>b. seq_of (txbufs s b)) bs)" "baw_inv (an_tid s t)" "status_ok (tx_status s)" "series_ok env s ds rcs"
    "once (mset bs + mset rq + opt_mset bar + pool s)"
  shows "\<exists>rq1 bar1 s1. aggr_loop env t acked ds rcs ob (rq, bar) nbad s =
      Some ((rq @ rq1, bar1), nbad + int (length (filter (\<lambda>b. \<not> is_acked acked (txbufs s b)) bs)), s1) \<and>
    loop_post t acked bs rq bar s rq1 bar1 s1"
  using assms
proof (induction bs arbitrary: ob rq bar nbad s)
  case Nil
  then show ?case by (intro exI [of _ "[]"]) (simp add: aggr_loop_None loop_post_def)
next
  case (Cons b bs)
  let ?f = "txbufs s"
  have ob: "ob = Some b" "linked ?f (bf_next (?f b)) bs" using Cons.prems(1) by simp_all
  have hb: "b \<noteq> sc_txbuf_held s"
    using Cons.prems(7) [unfolded once_def, THEN spec, of b] by (auto simp: pool_def)
  have sb: "sub_ok t s b" "seq_of (?f b) \<in> baw_outstanding (an_tid s t)" using Cons.prems(2) by simp_all
  from aggr_step_run [OF Cons.prems(4) sb(2) Cons.prems(5,6) sb(1) hb] obtain add bar1 s1 where
    st: "aggr_step env t acked ds rcs b (rq, bar) s = Some ((rq @ add, bar1), s1)" "step_post t acked b bar s add bar1 s1"
    by blast
  note p = st(2) [unfolded step_post_def Let_def]
  have fr: "step_frame b s s1" using p by blast
  have cons: "mset bs + mset (rq @ add) + opt_mset bar1 + pool s1 = mset (b # bs) + mset rq + opt_mset bar + pool s"
  proof -
    have "mset add + opt_mset bar1 + pool s1 = add_mset b (opt_mset bar + pool s)" using p by blast
    then have "mset bs + mset rq + (mset add + opt_mset bar1 + pool s1) = mset bs + mset rq + add_mset b (opt_mset bar + pool s)"
      by (rule arg_cong)
    then show ?thesis by (simp add: add.assoc)
  qed
  have ne: "x \<noteq> b \<and> x \<noteq> sc_txbuf_held s" if "x \<in> set bs" for x
  proof -
    have "x \<in># mset bs" using that by simp
    then obtain N where "mset bs = add_mset x N" by (meson multi_member_split)
    then have "mset (b # bs) + mset rq + opt_mset bar + pool s =
        add_mset x (add_mset b (add_mset (sc_txbuf_held s) (N + mset rq + opt_mset bar + mset (sc_txbuf s))))"
      by (simp add: pool_def)
    from once3 [OF Cons.prems(7) this] show ?thesis by blast
  qed
  have f1: "txbufs s1 x = ?f x" if "x \<in> set bs" for x
    using ne [OF that] fr by (simp add: step_frame_def)
  have len: "\<forall>k. length (frames s1 k) = length (frames s k)" "sc_curmode s1 = sc_curmode s" using fr by (simp_all add: step_frame_def)
  have seq: "seq_of (?f b) \<notin> seq_of ` ?f ` set bs" using Cons.prems(3) by (simp add: image_image)
  have "\<forall>x\<in>set bs. sub_ok t s1 x \<and> seq_of (txbufs s1 x) \<in> baw_outstanding (an_tid s1 t)"
  proof
    fix x assume x: "x \<in> set bs"
    have "seq_of (?f x) \<noteq> seq_of (?f b)" using seq x by (metis imageI)
    moreover have "baw_outstanding (an_tid s1 t) = baw_outstanding (an_tid s t) - (if sent_again acked (?f b) then {} else {seq_of (?f b)})"
      using p by blast
    moreover have "sub_ok t s x" "seq_of (?f x) \<in> baw_outstanding (an_tid s t)" using Cons.prems(2) x by simp_all
    ultimately show "sub_ok t s1 x \<and> seq_of (txbufs s1 x) \<in> baw_outstanding (an_tid s1 t)"
      using f1 [OF x] len(1) by (simp add: sub_ok_def)
  qed
  moreover have "linked (txbufs s1) (bf_next (?f b)) bs" using ob(2) f1 linked_cong [of bs ?f "txbufs s1"] by simp
  moreover have "distinct (map (\<lambda>x. seq_of (txbufs s1 x)) bs)"
  proof -
    have e: "map (\<lambda>x. seq_of (txbufs s1 x)) bs = map (\<lambda>x. seq_of (?f x)) bs" using f1 by (intro map_cong) auto
    show ?thesis unfolding e using Cons.prems(3) by simp
  qed
  moreover have "baw_inv (an_tid s1 t)" "status_ok (tx_status s1)" using p by blast+
  moreover have "series_ok env s1 ds rcs" using Cons.prems(6) len(2) by (simp add: series_ok_def)
  moreover have "once (mset bs + mset (rq @ add) + opt_mset bar1 + pool s1)" unfolding cons by (rule Cons.prems(7))
  ultimately obtain rq1 bar2 s2 where
    lp: "aggr_loop env t acked ds rcs (bf_next (?f b)) (rq @ add, bar1) (if is_acked acked (?f b) then nbad else nbad + 1) s1 =
      Some (((rq @ add) @ rq1, bar2), (if is_acked acked (?f b) then nbad else nbad + 1) +
        int (length (filter (\<lambda>x. \<not> is_acked acked (txbufs s1 x)) bs)), s2)"
    "loop_post t acked bs (rq @ add) bar1 s1 rq1 bar2 s2"
    using Cons.IH [of s1 "bf_next (?f b)" "rq @ add" bar1 "if is_acked acked (?f b) then nbad else nbad + 1"] by blast
  have "filter (\<lambda>x. \<not> is_acked acked (txbufs s1 x)) bs = filter (\<lambda>x. \<not> is_acked acked (?f x)) bs"
    using f1 by (intro filter_cong) auto
  then have "aggr_loop env t acked ds rcs ob (rq, bar) nbad s =
      Some ((rq @ (add @ rq1), bar2), nbad + int (length (filter (\<lambda>x. \<not> is_acked acked (?f x)) (b # bs))), s2)"
    using lp(1) st(1) ob(1) by (simp add: aggr_loop_Some)
  then show ?case using loop_post_step [OF st(2) lp(2) Cons.prems(7) seq] by blast
qed

text \<open>
  Property C16. The loop over the subframes of a completed aggregate ends. Afterwards the window has lost
  exactly the frames that were acknowledged or given up after ten retries; the others are in the list to
  send again, in their order, each with its frame, its retry flag set and one retry more; the bad frames
  are counted, and no other TID is touched.
\<close>

theorem aggr_loop_window:
  assumes "linked (txbufs s) ob bs" "\<forall>b\<in>set bs. sub_ok t s b \<and> seq_of (txbufs s b) \<in> baw_outstanding (an_tid s t)"
    "distinct (map (\<lambda>b. seq_of (txbufs s b)) bs)" "baw_inv (an_tid s t)" "status_ok (tx_status s)" "series_ok env s ds rcs"
    "once (mset bs + pool s)"
  shows "\<exists>rq bar s'. aggr_loop env t acked ds rcs ob ([], None) 0 s =
      Some ((rq, bar), int (length (filter (\<lambda>b. \<not> is_acked acked (txbufs s b)) bs)), s') \<and>
    baw_inv (an_tid s' t) \<and>
    baw_outstanding (an_tid s' t) =
      baw_outstanding (an_tid s t) - {seq_of (txbufs s b) | b. b \<in> set bs \<and> \<not> sent_again acked (txbufs s b)} \<and>
    list_all2 (\<lambda>b x. requeued (txbufs s b) (txbufs s' x) x) (filter (\<lambda>b. sent_again acked (txbufs s b)) bs) rq \<and>
    (\<forall>u. u \<noteq> t \<longrightarrow> an_tid s' u = an_tid s u)"
proof -
  have "seq_of ` txbufs s ` {b \<in> set bs. \<not> sent_again acked (txbufs s b)} =
      {seq_of (txbufs s b) | b. b \<in> set bs \<and> \<not> sent_again acked (txbufs s b)}" by auto
  then show ?thesis
    using aggr_loop_run [OF assms(1-6), where rq = "[]" and bar = None and nbad = 0 and acked = acked] assms(7) unfolding loop_post_def Let_def by auto
qed

text \<open>
  Property C15. Nothing is lost and nothing is used twice: the buffers of the aggregate, the free list and
  the buffer held back are afterwards exactly the buffers to send again, the one kept for a block-ack
  request (the first that was given up), the free list and the one held back. The host gets back, in
  order, the frames that were acknowledged and the ones given up after the first.
\<close>

theorem aggr_loop_conserves:
  assumes "linked (txbufs s) ob bs" "\<forall>b\<in>set bs. sub_ok t s b \<and> seq_of (txbufs s b) \<in> baw_outstanding (an_tid s t)"
    "distinct (map (\<lambda>b. seq_of (txbufs s b)) bs)" "baw_inv (an_tid s t)" "status_ok (tx_status s)" "series_ok env s ds rcs"
    "once (mset bs + pool s)"
  shows "\<exists>rq bar nbad s'. aggr_loop env t acked ds rcs ob ([], None) 0 s = Some ((rq, bar), nbad, s') \<and>
    bar = find (\<lambda>b. given_up acked (txbufs s b)) bs \<and>
    mset rq + opt_mset bar + pool s' = mset bs + pool s \<and> once (mset rq + opt_mset bar + pool s') \<and>
    returned (acts s') = returned (acts s) @ concat (map (\<lambda>b. bf_skbhead (txbufs s b))
      (filter (\<lambda>b. is_acked acked (txbufs s b) \<or> given_up acked (txbufs s b) \<and> bar \<noteq> Some b) bs)) \<and>
    status_ok (tx_status s')"
  using aggr_loop_run [OF assms(1-6), where rq = "[]" and bar = None and nbad = 0 and acked = acked] assms(7) unfolding loop_post_def Let_def by auto

text \<open>Three subframes, 5 to 7: the first is acknowledged, the second has no retries left, the third is sent again.\<close>

definition owl1 :: owl where
  "owl1 = owl0\<lparr>an_tid := (\<lambda>_. tid0\<lparr>baw_tail := 3, tx_buf_bitmap := [7, 0, 0, 0], buf_q := []\<rparr>),
     txbufs := (\<lambda>b. (txbufs owl0 b)\<lparr>bf_next := (if b < 2 then Some (b + 1) else None), bf_retries := (if b = 1 then 10 else 0)\<rparr>)\<rparr>"

lemma owl1_outstanding: "baw_outstanding (an_tid owl1 (0, 0)) = {5, 6, 7}"
proof -
  have "baw_abs (an_tid owl1 (0, 0)) = [True, True, True]" "seq_start (an_tid owl1 (0, 0)) = 5" by code_simp+
  moreover have "win_idx [True, True, True] = {0, 1, 2}" by (simp add: win_idx_Cons) auto
  ultimately show ?thesis by (simp add: baw_outstanding_def win_seqs_def)
qed

lemma owl1_ready:
  "linked (txbufs owl1) (Some 0) [0, 1, 2]"
  "\<forall>b\<in>set [0, 1, 2]. sub_ok (0, 0) owl1 b \<and> seq_of (txbufs owl1 b) \<in> baw_outstanding (an_tid owl1 (0, 0))"
  "distinct (map (\<lambda>b. seq_of (txbufs owl1 b)) [0, 1, 2])" "baw_inv (an_tid owl1 (0, 0))" "status_ok (tx_status owl1)"
  "series_ok env0 owl1 ts0 rc0_series" "once (mset [0, 1, 2] + pool owl1)"
proof -
  have b: "(bf_skbhead (txbufs owl1 b), bf_skb (txbufs owl1 b), seq_of (txbufs owl1 b), ATH_AN_2_TID (txbufs owl1 b)) =
      ([10 + b], Some (10 + b), 5 + b, Some (0, 0))" if "b \<in> {0, 1, 2}" for b
    using that by safe code_simp+
  have f: "length (frames owl1 k) = 40" for k by (simp add: owl1_def owl0_def)
  show "\<forall>b\<in>set [0, 1, 2]. sub_ok (0, 0) owl1 b \<and> seq_of (txbufs owl1 b) \<in> baw_outstanding (an_tid owl1 (0, 0))"
    using b by (auto simp: sub_ok_def f owl1_outstanding)
  have e: "mset [0, 1, 2] + pool owl1 = mset [0, 1, 2, 9, 3, 4, 5, 6, 7, 8]"
    by (simp add: pool_def owl1_def owl0_def)
  have "distinct [0, 1, 2, 9, 3, 4, 5, 6, 7, 8 :: nat]" by simp
  then show "once (mset [0, 1, 2] + pool owl1)"
    unfolding e once_def using distinct_count_atmost_1 [of "[0, 1, 2, 9, 3, 4, 5, 6, 7, 8 :: nat]"] by simp
  have "hwRateTable env0 (sc_curmode owl1) = Some ar5416_11ngRateTable_k2" by (simp add: hwRateTable_def env0_def owl1_def owl0_def)
  then show "series_ok env0 owl1 ts0 rc0_series" by (auto simp: series_ok_def ts0_def rc0_series_def ar5416_11ngRateTable_k2_def)
qed code_simp+

theorem aggr_loop_window_witness:
  "\<exists>rq bar s'. aggr_loop env0 (0, 0) (\<lambda>sq. sq = 5) ts0 rc0_series (Some 0) ([], None) 0 owl1 = Some ((rq, bar), 2, s') \<and>
     baw_outstanding (an_tid s' (0, 0)) = {7} \<and> length rq = 1"
proof -
  have s: "map (\<lambda>b. (sent_again (\<lambda>sq. sq = 5) (txbufs owl1 b), is_acked (\<lambda>sq. sq = 5) (txbufs owl1 b), seq_of (txbufs owl1 b))) [0, 1, 2] =
      [(False, True, 5), (False, False, 6), (True, False, 7)]" by code_simp
  have "{seq_of (txbufs owl1 b) | b. b \<in> set [0, 1, 2] \<and> \<not> sent_again (\<lambda>sq. sq = 5) (txbufs owl1 b)} = {5, 6}"
    using s by auto
  with aggr_loop_window [OF owl1_ready, of "\<lambda>sq. sq = 5"] s show ?thesis
    by (auto simp: owl1_outstanding list_all2_Cons1)
qed

theorem aggr_loop_conserves_witness:
  "\<exists>rq bar nbad s'. aggr_loop env0 (0, 0) (\<lambda>sq. sq = 5) ts0 rc0_series (Some 0) ([], None) 0 owl1 = Some ((rq, bar), nbad, s') \<and>
     bar = Some 1 \<and> returned (acts s') = [10] \<and> mset rq + {#1#} + pool s' = mset [0, 1, 2] + pool owl1"
proof -
  have s: "map (\<lambda>b. (given_up (\<lambda>sq. sq = 5) (txbufs owl1 b), is_acked (\<lambda>sq. sq = 5) (txbufs owl1 b), bf_skbhead (txbufs owl1 b))) [0, 1, 2] =
      [(False, True, [10]), (True, False, [11]), (False, False, [12])]" "acts owl1 = []" by code_simp+
  with aggr_loop_conserves [OF owl1_ready, of "\<lambda>sq. sq = 5"] show ?thesis by auto
qed

end
