(* ===== verification/Owl_Errors.thy ===== *)
theory Owl_Errors
  imports Owl_Prep Owl_Done
begin

text \<open>
  Error paths of the transmit path: frames for a node that does not exist, the buffer that the management
  path loses, the frame that the clean-up of a TID takes off the queue, and the status events for the host.
\<close>

section \<open>Frames for an unknown node\<close>

definition unknown_node :: "'a owl_scheme \<Rightarrow> nat \<Rightarrow> bool" where
  "unknown_node s n \<longleftrightarrow> n < ATH_NODE_MAX \<and> (\<not> an_valid (sc_sta s n) \<or> ni_vap (sc_sta s n) = None)"

lemma find_unknown: "unknown_node s n \<Longrightarrow> ath_tgt_find_node s n = Some None"
  by (auto simp: ath_tgt_find_node_def unknown_node_def require_def)

text \<open>
  Property C21. A data frame for a node that is not valid goes back to the host, once, on the endpoint it
  came from; no buffer, queue or TID changes.
\<close>

theorem unknown_node_frame_returned:
  assumes "unknown_node s (unat (dh_ni_index dh))"
  shows "\<exists>s'. tgt_HTCRecvMessageHandler env EndPt dh skb s = Some s' \<and> acts s' = acts s @ [Htc_ReturnBuffers EndPt skb] \<and>
    txbufs s' = txbufs s \<and> sc_txbuf s' = sc_txbuf s \<and> sc_txbuf_held s' = sc_txbuf_held s \<and> sc_txq s' = sc_txq s \<and>
    an_tid s' = an_tid s \<and> sc_sta s' = sc_sta s \<and> frames s' = frames s"
proof -
  have "unknown_node (stats tx_tgt s) (unat (dh_ni_index dh))" using assms by (simp add: unknown_node_def statsn_def)
  from find_unknown [OF this] show ?thesis
    by (simp add: tgt_HTCRecvMessageHandler_def ath_tgt_tx_prepare_def emit_def statsn_def)
qed

text \<open>
  A management frame for such a node goes back to the host as well, but the buffer that was
  taken for it is lost: it is not put back into the free list.
\<close>

theorem ath_tgt_send_mgt_loses_buffer:
  assumes "unknown_node s (unat (mh_ni_index mh))" "sc_txbuf s = b # bs"
  shows "\<exists>s'. ath_tgt_send_mgt env mh skb endpt s = Some s' \<and> acts s' = acts s @ [Htc_ReturnBuffers endpt skb] \<and>
    pool s = add_mset b (pool s') \<and> sc_txq s' = sc_txq s \<and> an_tid s' = an_tid s"
proof -
  have "unknown_node (s\<lparr>sc_txbuf := bs\<rparr>) (unat (mh_ni_index mh))" using assms(1) by (simp add: unknown_node_def)
  from find_unknown [OF this] show ?thesis
    using assms(2) by (simp add: ath_tgt_send_mgt_def emit_def pool_def add_mset_commute)
qed

definition dh3 :: ath_data_hdr where
  "dh3 = \<lparr>dh_ni_index = 3, dh_vap_index = 0, dh_tidno = 0, dh_flags = 0, dh_keytype = 0, dh_keyix = 0, dh_cookie = 7\<rparr>"

definition mh3 :: ath_mgt_hdr where
  "mh3 = \<lparr>mh_ni_index = 3, mh_vap_index = 0, mh_flags = 0, mh_keytype = 0, mh_keyix = 0, mh_cookie = 7\<rparr>"

lemma owl0_unknown: "unknown_node owl0 (unat (dh_ni_index dh3))" "unknown_node owl0 (unat (mh_ni_index mh3))"
  by (simp_all add: unknown_node_def dh3_def mh3_def owl0_def)

theorem unknown_node_frame_returned_witness:
  "\<exists>s'. tgt_HTCRecvMessageHandler env0 5 dh3 20 owl0 = Some s' \<and> acts s' = [Htc_ReturnBuffers 5 20]"
proof -
  have "acts owl0 = []" by (simp add: owl0_def)
  with unknown_node_frame_returned [OF owl0_unknown(1), of env0 5 20] show ?thesis by auto
qed

theorem ath_tgt_send_mgt_loses_buffer_witness:
  "\<exists>s'. ath_tgt_send_mgt env0 mh3 20 4 owl0 = Some s' \<and> pool owl0 = add_mset 3 (pool s')"
proof -
  have "sc_txbuf owl0 = 3 # [4, 5, 6, 7, 8]" by (simp add: owl0_def)
  with ath_tgt_send_mgt_loses_buffer [OF owl0_unknown(2)] show ?thesis by blast
qed

section \<open>The clean-up of a TID\<close>

text \<open>
  When the clean-up of a TID keeps the first frame of the queue and discards the second,
  a retry, it releases the first one: its frame goes back to the host, and the retry stays on the queue.
\<close>

theorem cleanup_loop_releases_head:
  assumes "buf_q (an_tid s t) = [a, b]" "a \<noteq> b" "\<not> bf_isretried (txbufs s a)" "bf_isretried (txbufs s b)"
  shows "\<exists>s'. cleanup_loop t False [a, b] s = Some s' \<and> buf_q (an_tid s' t) = [b] \<and>
    returned (acts s') = returned (acts s) @ bf_skbhead (txbufs s a) \<and>
    baw_outstanding (an_tid s' t) = baw_outstanding (an_tid s t)"
proof -
  let ?s = "upd_tid t (\<lambda>x. x\<lparr>buf_q := [b]\<rparr>) (upd_buf a (\<lambda>bf. bf\<lparr>bf_comp := Some Comp_Normal\<rparr>) s)"
  have "cleanup_loop t False [a, b] s = Some (ath_tx_freebuf a ?s)"
    using assms by (simp add: upd_buf_def upd_tid_def require_def)
  moreover have "buf_q (an_tid ?s t) = [b]" "acts ?s = acts s" "bf_skbhead (txbufs ?s a) = bf_skbhead (txbufs s a)"
    "baw_outstanding (an_tid ?s t) = baw_outstanding (an_tid s t)" by (simp_all add: upd_buf_def upd_tid_def)
  ultimately show ?thesis using freebuf_effect [of a ?s] by simp
qed

theorem cleanup_loop_releases_head_witness:
  "\<exists>s'. cleanup_loop (0, 0) False [0, 1] (upd_tid (0, 0) (\<lambda>x. x\<lparr>buf_q := [0, 1]\<rparr>) owl0) = Some s' \<and>
     buf_q (an_tid s' (0, 0)) = [1] \<and> returned (acts s') = [10]"
proof -
  let ?s = "upd_tid (0, 0) (\<lambda>x. x\<lparr>buf_q := [0, 1]\<rparr>) owl0"
  have "buf_q (an_tid ?s (0, 0)) = [0, 1]" "\<not> bf_isretried (txbufs ?s 0)" "bf_isretried (txbufs ?s 1)"
    "bf_skbhead (txbufs ?s 0) = [10]" "acts ?s = []"
    by (simp_all add: upd_tid_def owl0_def bf0_def)
  with cleanup_loop_releases_head [of ?s "(0, 0)" 0 1] show ?thesis by auto
qed

section \<open>Status events\<close>

lemma length_status_bytes: "length (txstatus t) = 12 \<Longrightarrow> length (status_bytes t) = 37"
proof -
  have "length (concat (map entry_bytes es)) = 3 * length es" for es
    by (induction es) (simp_all add: entry_bytes_def)
  then show "length (txstatus t) = 12 \<Longrightarrow> length (status_bytes t) = 37" by (simp add: status_bytes_def)
qed

definition status_events :: "WMI_TXSTATUS_EVENT list \<Rightarrow> owl_act list" where
  "status_events ts = map (\<lambda>t. Wmi_Event 0x1007 (status_bytes t)) (filter (\<lambda>t. txs_cnt t \<noteq> 0) ts)"

lemma status_events_snoc: "status_events (ts @ [t]) =
    status_events ts @ (if txs_cnt t \<noteq> 0 then [Wmi_Event 0x1007 (status_bytes t)] else [])"
  by (simp add: status_events_def)

lemma status_send_prefix:
  assumes "n \<le> length (tx_status s)"
  shows "fold (\<lambda>i s. if txs_cnt (tx_status s ! i) \<noteq> 0
      then (emit (Wmi_Event 0x1007 (status_bytes (tx_status s ! i))) s)\<lparr>tx_status := (tx_status s)[i := (tx_status s ! i)\<lparr>txs_cnt := 0\<rparr>]\<rparr>
      else s) [0..<n] s =
    s\<lparr>acts := acts s @ status_events (take n (tx_status s)),
      tx_status := map (\<lambda>t. t\<lparr>txs_cnt := 0\<rparr>) (take n (tx_status s)) @ drop n (tx_status s)\<rparr>"
  using assms
proof (induction n)
  case 0
  then show ?case by (simp add: status_events_def)
next
  case (Suc n)
  let ?ts = "tx_status s" and ?m = "\<lambda>ts. map (\<lambda>t. t\<lparr>txs_cnt := 0\<rparr>) ts :: WMI_TXSTATUS_EVENT list"
  have n: "n < length ?ts" using Suc.prems by simp
  have tk: "take (Suc n) ?ts = take n ?ts @ [?ts ! n]" using n by (rule take_Suc_conv_app_nth)
  have dr: "drop n ?ts = ?ts ! n # drop (Suc n) ?ts" using n by (simp add: Cons_nth_drop_Suc)
  have l: "length (?m (take n ?ts)) = n" using n by simp
  have at: "(?m (take n ?ts) @ ?ts ! n # drop (Suc n) ?ts) ! n = ?ts ! n"
    using nth_append_length [of "?m (take n ?ts)"] unfolding l by simp
  have up: "(?m (take n ?ts) @ ?ts ! n # drop (Suc n) ?ts)[n := x] = ?m (take n ?ts) @ x # drop (Suc n) ?ts" for x
    using list_update_length [of "?m (take n ?ts)"] unfolding l by simp
  have z: "(?ts ! n)\<lparr>txs_cnt := 0\<rparr> = ?ts ! n" if "txs_cnt (?ts ! n) = 0" using that by simp
  show ?case
    using Suc.IH n tk
    by (cases "txs_cnt (?ts ! n) = 0") (simp_all add: at up status_events_snoc emit_def z dr)
qed

text \<open>
  Sending the collected status emits, in order, one event for each of the two arrays that has
  entries, and empties all; an event has 37 bytes, which fits the 100 bytes of a response buffer, and its
  count is between 1 and 12.
\<close>

theorem ath_tx_status_send_events:
  assumes "\<not> sc_tx_draining s" "status_ok (tx_status s)"
  shows "acts (ath_tx_status_send s) = acts s @ status_events (tx_status s) \<and>
    (\<forall>t\<in>set (tx_status (ath_tx_status_send s)). txs_cnt t = 0) \<and> status_ok (tx_status (ath_tx_status_send s)) \<and>
    (\<forall>a\<in>set (status_events (tx_status s)). \<exists>p. a = Wmi_Event 0x1007 p \<and> length p = 37 \<and> length p \<le> 100 \<and> 1 \<le> hd p \<and> hd p \<le> 12)"
proof -
  have s: "ath_tx_status_send s = s\<lparr>acts := acts s @ status_events (tx_status s), tx_status := map (\<lambda>t. t\<lparr>txs_cnt := 0\<rparr>) (tx_status s)\<rparr>"
    using status_send_prefix [of "length (tx_status s)" s] assms(1) by (simp add: ath_tx_status_send_def)
  have "\<exists>p. a = Wmi_Event 0x1007 p \<and> length p = 37 \<and> length p \<le> 100 \<and> 1 \<le> hd p \<and> hd p \<le> 12"
    if a: "a \<in> set (status_events (tx_status s))" for a
  proof -
    obtain t where t: "t \<in> set (tx_status s)" "txs_cnt t \<noteq> 0" "a = Wmi_Event 0x1007 (status_bytes t)"
      using a by (auto simp: status_events_def)
    then have ok: "length (status_bytes t) = 37" "txs_cnt t \<le> 12"
      using assms(2) length_status_bytes [of t] by (auto simp: status_ok_def)
    have "1 \<le> txs_cnt t" using t(2) by (simp add: word_le_nat_alt unat_gt_0 Suc_le_eq)
    then show ?thesis using t(3) ok by (intro exI [of _ "status_bytes t"]) (simp add: status_bytes_def)
  qed
  then show ?thesis using assms(2) by (auto simp: s status_ok_def)
qed

theorem ath_tx_status_send_events_witness:
  "let s = owl0\<lparr>tx_status := [(tx_status owl0 ! 0)\<lparr>txs_cnt := 2\<rparr>, tx_status owl0 ! 1]\<rparr> in
   length (acts (ath_tx_status_send s)) = 1 \<and> (\<forall>t\<in>set (tx_status (ath_tx_status_send s)). txs_cnt t = 0)"
proof -
  let ?s = "owl0\<lparr>tx_status := [(tx_status owl0 ! 0)\<lparr>txs_cnt := 2\<rparr>, tx_status owl0 ! 1]\<rparr>"
  have "\<not> sc_tx_draining ?s" "status_ok (tx_status ?s)" "acts ?s = []" "length (status_events (tx_status ?s)) = 1"
    by (simp_all add: owl0_def status_ok_def status_events_def)
  with ath_tx_status_send_events [of ?s] show ?thesis by simp
qed

end
