(* ===== verification/Owl_Live.thy ===== *)
theory Owl_Live
  imports Owl_Done
begin

text \<open>
  The scheduler of the transmit path: handing a frame or an aggregate to the hardware always succeeds, the
  queues of TIDs stay consistent, and no TID with waiting frames is forgotten.
\<close>

section \<open>The rate scenario can always be written\<close>

definition currates_ok :: "'a owl_scheme \<Rightarrow> bool" where
  "currates_ok s \<longleftrightarrow> unat (sc_protrix s) < length (sc_currates s) \<and>
     (\<forall>r\<in>set (sc_currates s). unat (hr_controlRate r) < length (sc_currates s) \<and>
        (hr_phy r = IEEE80211_T_OFDM \<longrightarrow> hr_rateKbps r = 0 \<or> (hr_rateKbps r * 4) div 1000 \<noteq> 0))"

lemma pkt_duration_returns:
  assumes "currates_ok s" "unat rix < length (sc_currates s)"
  shows "\<exists>d. ath_pkt_duration (sc_currates s) rix bf w g = Some d"
proof -
  let ?r = "sc_currates s ! unat rix" and ?len = "ucast (if bf_isaggr bf then bf_al bf else bf_pktlen bf) :: u32"
  have r: "?r \<in> set (sc_currates s)" using assms(2) by simp
  have t: "\<exists>d. ath_hal_computetxtime (sc_currates s) ?len (unat rix) (bf_shpream bf) = Some d"
    using assms r by (auto simp: ath_hal_computetxtime_def at_def Let_def require_def currates_ok_def)
  have "unat (hr_rateCode ?r AND 0x0F) < 16"
  proof -
    have "hr_rateCode ?r AND 0x0F = hr_rateCode ?r AND mask 4" by (simp add: mask_eq_exp_minus_1)
    then show ?thesis using unat_and_mask [of "hr_rateCode ?r" 4] by simp
  qed
  then have "\<exists>p. at bits_per_symbol (unat (hr_rateCode ?r AND 0x0F)) = Some p"
    by (simp add: at_def bits_per_symbol_def)
  then show ?thesis using t assms(2) by (auto simp: ath_pkt_duration_def at_def Let_def)
qed

lemma rate_series_returns:
  assumes "currates_ok s" "rcs_tries rc \<noteq> 0 \<longrightarrow> unat (rcs_rix rc) < length (sc_currates s)"
  shows "\<exists>x. rate_series env s bf pm rc = Some x"
proof (cases "rcs_tries rc = 0")
  case False
  then have i: "unat (rcs_rix rc) < length (sc_currates s)" using assms(2) by simp
  obtain d where "ath_pkt_duration (sc_currates s) (rcs_rix rc) bf (rcs_flags rc AND ATH_RC_CW40_FLAG \<noteq> 0)
      (rcs_flags rc AND ATH_RC_HT40_SGI_FLAG \<noteq> 0) = Some d"
    using pkt_duration_returns [OF assms(1) i] by blast
  then show ?thesis using False i by (simp add: rate_series_def rate_code_def at_def Let_def)
qed (simp add: rate_series_def)

lemma collect_returns:
  assumes "\<forall>x\<in>set xs. \<exists>y. f x = Some y"
  shows "\<exists>ys. foldM (\<lambda>xs rc. do { x \<leftarrow> f rc; Some (xs @ [x]) }) acc xs = Some ys"
  using assms by (induction xs arbitrary: acc) auto

lemma last_tried_in: "last_tried rcs = Some r \<Longrightarrow> r \<in> set rcs \<and> rcs_tries r \<noteq> 0"
proof -
  assume "last_tried rcs = Some r"
  then obtain rs where "rev (filter (\<lambda>r. rcs_tries r \<noteq> 0) rcs) = r # rs" by (auto simp: last_tried_def split: list.splits)
  then have "r \<in> set (rev (filter (\<lambda>r. rcs_tries r \<noteq> 0) rcs))" by (simp only: list.set_intros)
  then show ?thesis by simp
qed

lemma set_rate_returns:
  assumes "currates_ok s" "rcs_ok s (bf_rcs (txbufs s b))" "unat (rcs_rix (bf_rcs (txbufs s b) ! 0)) < length (sc_currates s)"
  shows "\<exists>a. ath_buf_set_rate env b s = Some (emit a s) \<and> returned [a] = []"
proof -
  let ?bf = "txbufs s b" and ?rt = "sc_currates s"
  let ?rcs = "take 4 (bf_rcs ?bf)"
  have len: "length (bf_rcs ?bf) = 4" "?rcs = bf_rcs ?bf" using assms(2) by (simp_all add: rcs_ok_def)
  have p: "unat (sc_protrix s) < length ?rt" using assms(1) by (simp add: currates_ok_def)
  have c: "unat (hr_controlRate (?rt ! i)) < length ?rt" if "i < length ?rt" for i
    using assms(1) that by (simp add: currates_ok_def)
  let ?prot = "bf_protmode ?bf \<noteq> 0 \<and> (hr_phy (?rt ! unat (rcs_rix (bf_rcs ?bf ! 0))) = IEEE80211_T_OFDM \<or>
      hr_phy (?rt ! unat (rcs_rix (bf_rcs ?bf ! 0))) = IEEE80211_T_HT) \<and> bf_flags ?bf AND HAL_TXDESC_NOACK = 0"
  let ?fl = "bf_flags ?bf AND (HAL_TXDESC_RTSENA OR HAL_TXDESC_CTSENA)"
  let ?pick = "if ?prot then Some (?fl, hr_controlRate (?rt ! unat (sc_protrix s)))
    else case last_tried ?rcs of
        None \<Rightarrow> Some (if ath_hal_getcapability caps0 HAL_CAP_HT \<noteq> 0 \<and> \<not> bf_ismcast ?bf then HAL_TXDESC_RTSENA else ?fl,
          hr_controlRate (?rt ! unat (sc_protrix s)))
      | Some rc \<Rightarrow> do { r \<leftarrow> at ?rt (unat (rcs_rix rc));
          Some (if ath_hal_getcapability caps0 HAL_CAP_HT \<noteq> 0 \<and> \<not> bf_ismcast ?bf then HAL_TXDESC_RTSENA else ?fl, hr_controlRate r) }"
  have rc: "unat (rcs_rix rc) < length ?rt" if "last_tried ?rcs = Some rc" for rc
    using last_tried_in [OF that] assms(2) len(2) by (auto simp: rcs_ok_def)
  have "\<exists>fl cix. (if q then Some (f1, hr_controlRate (?rt ! unat (sc_protrix s))) else case last_tried ?rcs of
        None \<Rightarrow> Some (f2, hr_controlRate (?rt ! unat (sc_protrix s)))
      | Some rc \<Rightarrow> do { r \<leftarrow> at ?rt (unat (rcs_rix rc)); Some (f2, hr_controlRate r) }) = Some (fl, cix) \<and> unat cix < length ?rt"
    for q and f1 f2 :: u16
    using c rc p by (cases q; cases "last_tried ?rcs") (auto simp: at_def)
  then obtain fl cix where pick: "?pick = Some (fl, cix)" "unat cix < length ?rt" by blast
  have "\<exists>ys. foldM (\<lambda>xs rc. do { x \<leftarrow> rate_series env s ?bf ?prot rc; Some (xs @ [x]) }) [] ?rcs = Some ys"
  proof (rule collect_returns, rule ballI)
    fix x assume "x \<in> set ?rcs"
    then show "\<exists>y. rate_series env s ?bf ?prot x = Some y"
      using rate_series_returns [OF assms(1)] assms(2) len(2) by (auto simp: rcs_ok_def)
  qed
  then obtain ys where ys: "foldM (\<lambda>xs rc. do { x \<leftarrow> rate_series env s ?bf ?prot rc; Some (xs @ [x]) }) [] ?rcs = Some ys" ..
  obtain code where code: "rate_code ?rt cix (bf_shpream ?bf) = Some code" using pick(2) by (simp add: rate_code_def at_def)
  have "ath_buf_set_rate env b s = Some (emit (Hal_set11nRateScenario b 1 code ys (ucast fl)) s)"
    unfolding ath_buf_set_rate_def Let_def
    using assms(3) len p pick(1) ys code by (simp add: at_def require_def)
  then show ?thesis by (auto simp: returned_def)
qed

section \<open>Handing over\<close>

text \<open>What every hand-over to the hardware leaves alone: the scheduler's queues, the TIDs, the buffers in use or free.\<close>

definition txq_frame :: "'a owl_scheme \<Rightarrow> 'a owl_scheme \<Rightarrow> bool" where
  "txq_frame s s' \<longleftrightarrow> (\<forall>q. axq_tidq (sc_txq s' q) = axq_tidq (sc_txq s q)) \<and> an_tid s' = an_tid s \<and> sc_ac2q s' = sc_ac2q s \<and>
     sc_txbuf s' = sc_txbuf s \<and> sc_txbuf_held s' = sc_txbuf_held s \<and> returned (acts s') = returned (acts s)"

definition handed_over :: "nat \<Rightarrow> bufref \<Rightarrow> 'a owl_scheme \<Rightarrow> 'a owl_scheme \<Rightarrow> bool" where
  "handed_over q b s s' \<longleftrightarrow> axq_q (sc_txq s' q) = axq_q (sc_txq s q) @ [b] \<and> axq_depth (sc_txq s' q) = axq_depth (sc_txq s q) + 1 \<and>
     (\<forall>p. p \<noteq> q \<longrightarrow> sc_txq s' p = sc_txq s p)"

lemma procTxDesc_effect:
  "\<exists>ts. snd (ah_procTxDesc env d s) = s\<lparr>acts := acts s @ [Hal_procTxDesc d], ds_txstat := ts\<rparr>"
proof -
  obtain st x where p: "procTxDesc env (acts s) d = (st, x)" by fastforce
  show ?thesis
    by (rule exI [of _ "if st = HAL_OK then (ds_txstat s)(d := x) else ds_txstat s"])
      (simp add: ah_procTxDesc_def p emit_def)
qed

lemma add_ucast_effect:
  "txq_frame s (ath_tgt_txq_add_ucast env b s)" "handed_over (bf_txq (txbufs s b)) b s (ath_tgt_txq_add_ucast env b s)"
  "txbufs (ath_tgt_txq_add_ucast env b s) = txbufs s" "sc_sta (ath_tgt_txq_add_ucast env b s) = sc_sta s"
proof -
  let ?q = "bf_txq (txbufs s b)"
  obtain ts where p: "snd (ah_procTxDesc env (bf_lastds (txbufs s b)) s) =
      s\<lparr>acts := acts s @ [Hal_procTxDesc (bf_lastds (txbufs s b))], ds_txstat := ts\<rparr>"
    using procTxDesc_effect by blast
  show "txq_frame s (ath_tgt_txq_add_ucast env b s)" "handed_over ?q b s (ath_tgt_txq_add_ucast env b s)"
    "txbufs (ath_tgt_txq_add_ucast env b s) = txbufs s" "sc_sta (ath_tgt_txq_add_ucast env b s) = sc_sta s"
    by (simp_all add: ath_tgt_txq_add_ucast_def p Let_def ATH_TXQ_INSERT_TAIL_def upd_txq_def emit_def set_link_def
      txq_frame_def handed_over_def split: option.split)
qed

lemma rate_state_frame:
  "txq_frame s (upd_buf b f (upd_node n g (s\<lparr>sc_rc := asc\<rparr>)))" "txq_frame s (emit a s) = (returned [a] = [])"
  by (auto simp: txq_frame_def upd_buf_def upd_node_def emit_def)

lemma txq_frame_trans: "txq_frame s s1 \<Longrightarrow> txq_frame s1 s2 \<Longrightarrow> txq_frame s s2"
  by (simp add: txq_frame_def)

section \<open>A single frame\<close>

text \<open>A frame that can be sent on its own: its node has rates; a multicast frame takes the lowest one.\<close>

definition sendable :: "owl_env \<Rightarrow> 'a owl_scheme \<Rightarrow> bufref \<Rightarrow> bool" where
  "sendable env s b \<longleftrightarrow> (let bf = txbufs s b in
     if bf_ismcast bf then unat (vap_index bf) < ATH_VAP_MAX \<and>
       unat (ath_get_minrateidx s (unat (vap_index bf))) < length (sc_currates s)
     else \<exists>n. bf_node bf = Some n \<and> rates_ok env s n)"

lemma send_normal_returns:
  assumes "currates_ok s" "sendable env s b"
  shows "\<exists>s'. ath_tgt_tx_send_normal env b s = Some s' \<and> txq_frame s s' \<and> handed_over (bf_txq (txbufs s b)) b s s'"
proof (cases "bf_ismcast (txbufs s b)")
  case True
  let ?bf = "txbufs s b"
  let ?rcs = "rc0_series[0 := (rc0_series ! 0)\<lparr>rcs_rix := ath_get_minrateidx s (unat (vap_index ?bf)), rcs_tries := 1\<rparr>]"
  let ?s = "upd_buf b (\<lambda>bf. bf\<lparr>bf_rcs := ?rcs\<rparr>) s"
  have v: "unat (vap_index ?bf) < 2" "unat (ath_get_minrateidx s (unat (vap_index ?bf))) < length (sc_currates s)"
    using assms(2) True by (simp_all add: sendable_def Let_def)
  have "currates_ok ?s" using assms(1) by (simp add: currates_ok_def upd_buf_def)
  moreover have "rcs_ok ?s (bf_rcs (txbufs ?s b))" "unat (rcs_rix (bf_rcs (txbufs ?s b) ! 0)) < length (sc_currates ?s)"
    using v(2) by (simp_all add: upd_buf_def rcs_ok_def rc0_series_def numeral_eq_Suc)
  ultimately obtain a where a: "ath_buf_set_rate env b ?s = Some (emit a ?s)" "returned [a] = []"
    using set_rate_returns by blast
  let ?e = "emit a ?s"
  have "txq_frame s ?e" "bf_txq (txbufs ?e b) = bf_txq ?bf" "sc_txq ?e = sc_txq s"
    using a(2) by (simp_all add: txq_frame_def emit_def upd_buf_def)
  moreover have "ath_tgt_tx_send_normal env b s = Some (ath_tgt_txq_add_ucast env b ?e)"
    using True v(1) a(1) by (simp add: ath_tgt_tx_send_normal_def require_def Let_def)
  ultimately show ?thesis
    using add_ucast_effect(1,2) [where s = ?e and env = env and b = b] txq_frame_trans by (auto simp: handed_over_def)
next
  case False
  then obtain n where n: "bf_node (txbufs s b) = Some n" "rates_ok env s n" using assms(2) by (auto simp: sendable_def Let_def)
  have "length rc0_series = 4" by (simp add: rc0_series_def)
  from findrate_returns [OF n(2) this] obtain rcs p an asc where
    r: "ath_tgt_rate_findrate env n rc0_series s = Some (rcs, p, upd_node n (\<lambda>a. a\<lparr>an_rcnode := Some an\<rparr>) (s\<lparr>sc_rc := asc\<rparr>))"
      "rcs_ok s rcs" "unat (rcs_rix (rcs ! 0)) < length (sc_currates s)" by blast
  let ?s = "upd_buf b (\<lambda>bf. bf\<lparr>bf_rcs := rcs\<rparr>) (upd_node n (\<lambda>a. a\<lparr>an_rcnode := Some an\<rparr>) (s\<lparr>sc_rc := asc\<rparr>))"
  have "currates_ok ?s" "rcs_ok ?s (bf_rcs (txbufs ?s b))" "unat (rcs_rix (bf_rcs (txbufs ?s b) ! 0)) < length (sc_currates ?s)"
    using assms(1) r(2,3) by (simp_all add: currates_ok_def upd_buf_def upd_node_def rcs_ok_def)
  then obtain a where a: "ath_buf_set_rate env b ?s = Some (emit a ?s)" "returned [a] = []"
    using set_rate_returns by blast
  let ?e = "emit a ?s"
  have "txq_frame s ?e" "bf_txq (txbufs ?e b) = bf_txq (txbufs s b)" "sc_txq ?e = sc_txq s"
    using a(2) by (simp_all add: txq_frame_def emit_def upd_buf_def upd_node_def)
  moreover have "ath_tgt_tx_send_normal env b s = Some (ath_tgt_txq_add_ucast env b ?e)"
    using False n(1) r(1) a(1) by (simp add: ath_tgt_tx_send_normal_def Let_def)
  ultimately show ?thesis
    using add_ucast_effect(1,2) [where s = ?e and env = env and b = b] txq_frame_trans by (auto simp: handed_over_def)
qed

section \<open>An aggregate\<close>

text \<open>A TID in an aggregation session whose waiting frames belong to the hardware queue of its access category.\<close>

definition tidq_of :: "'a owl_scheme \<Rightarrow> tidref \<Rightarrow> nat" where
  "tidq_of s t = TID_TO_ACTXQ s (unat (tidno (an_tid s t)))"

definition aggr_ready :: "owl_env \<Rightarrow> 'a owl_scheme \<Rightarrow> tidref \<Rightarrow> bool" where
  "aggr_ready env s t \<longleftrightarrow> distinct (buf_q (an_tid s t)) \<and> window_wf (an_tid s t) \<and> rates_ok env s (fst t) \<and>
     (\<forall>b\<in>set (buf_q (an_tid s t)). waiting_ok (txbufs s b) b \<and> bf_txq (txbufs s b) = tidq_of s t)"

text \<open>What the service of a TID changes among the TIDs: only the waiting frames, the window and the numbers of that TID.\<close>

definition tid_frame :: "tidref \<Rightarrow> 'a owl_scheme \<Rightarrow> 'a owl_scheme \<Rightarrow> bool" where
  "tid_frame t s s' \<longleftrightarrow> tid_key (an_tid s' t) = tid_key (an_tid s t) \<and> (\<forall>u. u \<noteq> t \<longrightarrow> an_tid s' u = an_tid s u) \<and>
     (\<forall>q. axq_tidq (sc_txq s' q) = axq_tidq (sc_txq s q)) \<and> sc_ac2q s' = sc_ac2q s \<and>
     sc_txbuf s' = sc_txbuf s \<and> sc_txbuf_held s' = sc_txbuf_held s \<and> returned (acts s') = returned (acts s)"

lemma send_single_run:
  assumes "currates_ok s" "rates_set s (bf_rcs (txbufs s b))"
  shows "\<exists>s'. send_single env b s = Some s' \<and> txq_frame s s' \<and> handed_over (bf_txq (txbufs s b)) b s s'"
proof -
  let ?s1 = "stat_if (bf_retries (txbufs s b) = 0) txaggr_single s"
  let ?s = "emit (Hal_clr11nAggr b) (set_link b None (upd_buf b (\<lambda>bf. bf\<lparr>bf_isaggr := False, bf_lastds := b, bf_next := None\<rparr>) ?s1))"
  have f: "sc_currates ?s = sc_currates s" "sc_protrix ?s = sc_protrix s" "bf_rcs (txbufs ?s b) = bf_rcs (txbufs s b)"
    "bf_txq (txbufs ?s b) = bf_txq (txbufs s b)" "sc_txq ?s = sc_txq s" "txq_frame s ?s"
    by (simp_all add: owl_upd txq_frame_def)
  then have "currates_ok ?s" "rcs_ok ?s (bf_rcs (txbufs ?s b))" "unat (rcs_rix (bf_rcs (txbufs ?s b) ! 0)) < length (sc_currates ?s)"
    using assms by (simp_all add: currates_ok_def rates_set_def rcs_ok_def)
  from set_rate_returns [OF this] obtain a where a: "ath_buf_set_rate env b ?s = Some (emit a ?s)" "returned [a] = []" by blast
  let ?e = "emit a ?s"
  have "txq_frame s ?e" "bf_txq (txbufs ?e b) = bf_txq (txbufs s b)" "sc_txq ?e = sc_txq s"
    using f(4-6) a(2) rate_state_frame(2) [of ?s a] txq_frame_trans by (auto simp: emit_def)
  moreover have "send_single env b s = Some (ath_tgt_txq_add_ucast env b ?e)"
    using a(1) by (simp add: send_single_def Let_def)
  ultimately show ?thesis
    using add_ucast_effect(1,2) [where s = ?e and env = env and b = b] txq_frame_trans by (auto simp: handed_over_def)
qed

lemma send_aggr_run:
  assumes "currates_ok s" "rates_set s (bf_rcs (txbufs s b))"
  shows "\<exists>s'. send_aggr env b l s = Some s' \<and> txq_frame s s' \<and> handed_over (bf_txq (txbufs s b)) b s s'"
proof -
  let ?s1 = "upd_buf l (\<lambda>bf. bf\<lparr>bf_next := None, bf_ndelim := 0\<rparr>) (set_link (bf_lastds (txbufs s l)) None s)"
  let ?s = "upd_buf b (\<lambda>bf. bf\<lparr>bf_isaggr := True\<rparr>) ?s1"
  have f: "sc_currates ?s = sc_currates s" "sc_protrix ?s = sc_protrix s" "bf_rcs (txbufs ?s b) = bf_rcs (txbufs s b)"
    "bf_txq (txbufs ?s b) = bf_txq (txbufs s b)" "sc_txq ?s = sc_txq s" "txq_frame s ?s"
    by (auto simp: owl_upd txq_frame_def)
  then have "currates_ok ?s" "rcs_ok ?s (bf_rcs (txbufs ?s b))" "unat (rcs_rix (bf_rcs (txbufs ?s b) ! 0)) < length (sc_currates ?s)"
    using assms by (simp_all add: currates_ok_def rates_set_def rcs_ok_def)
  from set_rate_returns [OF this] obtain a where a: "ath_buf_set_rate env b ?s = Some (emit a ?s)" "returned [a] = []" by blast
  have ra: "returned (a # as) = returned as" for as using returned_simps(2) [of "[a]" as] a(2) by simp
  let ?a1 = "Hal_set11nAggrFirst b (bf_al (txbufs (emit a ?s) b)) (bf_ndelim (txbufs (emit a ?s) b))"
  let ?e0 = "emit ?a1 (emit a ?s)"
  let ?e1 = "upd_buf b (\<lambda>bf. bf\<lparr>bf_lastds := bf_lastds (txbufs ?e0 l)\<rparr>) ?e0"
  let ?e = "emit (Hal_set11nAggrLast l) ?e1"
  have "txq_frame s ?e" "bf_txq (txbufs ?e b) = bf_txq (txbufs s b)" "sc_txq ?e = sc_txq s"
    using f(4-6) by (auto simp: emit_def upd_buf_def txq_frame_def ra)
  moreover have "send_aggr env b l s = Some (ath_tgt_txq_add_ucast env b ?e)"
    using a(1) by (simp add: send_aggr_def Let_def)
  ultimately show ?thesis
    using add_ucast_effect(1,2) [where s = ?e and env = env and b = b] txq_frame_trans by (auto simp: handed_over_def)
qed

lemma txq_tid_frame: "tid_frame t s s1 \<Longrightarrow> txq_frame s1 s2 \<Longrightarrow> tid_frame t s s2"
  by (simp add: tid_frame_def txq_frame_def)

lemma form_aggr_frame:
  assumes "aggr_ready env s t" "currates_ok s" "buf_q (an_tid s t) = b # bs"
  shows "\<exists>st q s1. ath_tgt_tx_form_aggr env t s = Some (st, q, s1) \<and> q @ buf_q (an_tid s1 t) = b # bs \<and>
    tid_frame t s s1 \<and> sc_txq s1 = sc_txq s \<and> currates_ok s1 \<and> bf_txq (txbufs s1 b) = tidq_of s t \<and> tidq_of s1 t = tidq_of s t \<and>
    (q \<noteq> [] \<longrightarrow> rates_set s1 (bf_rcs (txbufs s1 b))) \<and>
    (BAW_WITHIN (seq_start (an_tid s t)) (baw_size (an_tid s t)) (SEQNO_FROM_BF_SEQNO (bf_seqno (txbufs s b))) \<and>
     0 < max_count env (an_tid s t) \<longrightarrow> q \<noteq> [])"
proof -
  have r: "distinct (b # bs)" "\<forall>x\<in>set (b # bs). waiting_ok (txbufs s x) x" "window_wf (an_tid s t)" "rates_ok env s (fst t)"
    "bf_txq (txbufs s b) = tidq_of s t"
    using assms(1,3) by (auto simp: aggr_ready_def)
  obtain st g s1 where g: "ath_tgt_tx_form_aggr env t s = Some (st, ag_q g,
      upd_buf b (\<lambda>bf. bf\<lparr>bf_al := ag_al g, bf_nframes := of_nat (length (ag_q g))\<rparr>) s1)" "agg_inv env t s (b # bs) g s1"
    "BAW_WITHIN (seq_start (an_tid s t)) (baw_size (an_tid s t)) (SEQNO_FROM_BF_SEQNO (bf_seqno (txbufs s b))) \<and>
     0 < max_count env (an_tid s t) \<longrightarrow> ag_q g \<noteq> []"
    using form_aggr_run [OF assms(3) r(1-4)] by blast
  let ?s1 = "upd_buf b (\<lambda>bf. bf\<lparr>bf_al := ag_al g, bf_nframes := of_nat (length (ag_q g))\<rparr>) s1"
  have i: "ag_q g @ buf_q (an_tid s1 t) = b # bs" "loop_frame t s s1"
    "ag_q g \<noteq> [] \<longrightarrow> rates_set s1 (bf_rcs (txbufs s1 (hd (ag_q g))))"
    using g(2) by (simp_all add: agg_inv_def)
  have "ag_q g \<noteq> [] \<longrightarrow> rates_set ?s1 (bf_rcs (txbufs ?s1 b))"
    using i(1,3) by (cases "ag_q g") (simp_all add: rates_set_def rcs_ok_def upd_buf_def)
  moreover have "tid_frame t s ?s1 \<and> sc_txq ?s1 = sc_txq s \<and> currates_ok ?s1 \<and> an_tid ?s1 = an_tid s1 \<and>
    bf_txq (txbufs ?s1 b) = tidq_of s t \<and> tidq_of ?s1 t = tidq_of s t"
    using i(2) assms(2) r(5)
    by (simp add: loop_frame_def tid_frame_def upd_buf_def currates_ok_def tidq_of_def TID_TO_ACTXQ_def tid_key_def)
  ultimately show ?thesis
    using g(1,3) i(1) by (intro exI [of _ st] exI [of _ "ag_q g"] exI [of _ ?s1]) simp
qed

lemma sched_aggr_run:
  assumes "aggr_ready env s t" "currates_ok s" "buf_q (an_tid s t) = b # bs" "axq_depth (sc_txq s (tidq_of s t)) + 1 \<noteq> 0"
  shows "\<exists>s' q. ath_tgt_tx_sched_aggr env t s = Some s' \<and> q @ buf_q (an_tid s' t) = b # bs \<and> tid_frame t s s' \<and>
    (if q = [] then sc_txq s' = sc_txq s else handed_over (tidq_of s t) b s s') \<and>
    (BAW_WITHIN (seq_start (an_tid s t)) (baw_size (an_tid s t)) (SEQNO_FROM_BF_SEQNO (bf_seqno (txbufs s b))) \<and>
     0 < max_count env (an_tid s t) \<longrightarrow> q \<noteq> [])"
proof -
  obtain st q s1 where g: "ath_tgt_tx_form_aggr env t s = Some (st, q, s1)" "q @ buf_q (an_tid s1 t) = b # bs"
    "tid_frame t s s1" "sc_txq s1 = sc_txq s" "currates_ok s1" "bf_txq (txbufs s1 b) = tidq_of s t" "tidq_of s1 t = tidq_of s t"
    "q \<noteq> [] \<longrightarrow> rates_set s1 (bf_rcs (txbufs s1 b))"
    "BAW_WITHIN (seq_start (an_tid s t)) (baw_size (an_tid s t)) (SEQNO_FROM_BF_SEQNO (bf_seqno (txbufs s b))) \<and>
     0 < max_count env (an_tid s t) \<longrightarrow> q \<noteq> []"
    using form_aggr_frame [OF assms(1-3)] by blast
  show ?thesis
  proof (cases q)
    case Nil
    then have "ath_tgt_tx_sched_aggr env t s = Some s1"
      using assms(3) g(1) by (subst ath_tgt_tx_sched_aggr.simps) simp
    then show ?thesis using Nil g(2-4,9) by (intro exI [of _ s1] exI [of _ "[]"]) simp
  next
    case (Cons c cs)
    then have q: "q = b # cs" using g(2) by simp
    then have rs: "rates_set s1 (bf_rcs (txbufs s1 b))" using g(8) by simp
    obtain s2 where s2: "(if bf_nframes (txbufs s1 b) = 1 then send_single env b s1 else send_aggr env b (last q) s1) = Some s2"
      "txq_frame s1 s2" "handed_over (tidq_of s t) b s1 s2"
    proof (cases "bf_nframes (txbufs s1 b) = 1")
      case True
      then show ?thesis using that send_single_run [OF g(5) rs, of env] unfolding g(6) by auto
    next
      case False
      then show ?thesis using that send_aggr_run [OF g(5) rs, of env "last q"] unfolding g(6) by auto
    qed
    have "tidq_of s2 t = tidq_of s t"
      using s2(2) g(7) by (simp add: tidq_of_def TID_TO_ACTXQ_def txq_frame_def)
    moreover have "axq_depth (sc_txq s2 (tidq_of s t)) = axq_depth (sc_txq s (tidq_of s t)) + 1"
      using s2(3) g(4) by (simp add: handed_over_def)
    ultimately have "\<not> axq_depth (sc_txq s2 (TID_TO_ACTXQ s2 (unat (tidno (an_tid s2 t))))) < 1"
      using assms(4) by (simp add: tidq_of_def word_less_nat_alt unat_eq_zero)
    then have "ath_tgt_tx_sched_aggr env t s = Some s2"
      using assms(3) g(1) q s2(1) [unfolded q]
      by (subst ath_tgt_tx_sched_aggr.simps) (simp del: last.simps split del: if_split)
    moreover have "tid_frame t s s2" using g(3) s2(2) by (rule txq_tid_frame)
    moreover have "an_tid s2 = an_tid s1" using s2(2) by (simp add: txq_frame_def)
    moreover have "handed_over (tidq_of s t) b s s2" using s2(3) g(4) by (simp add: handed_over_def)
    ultimately show ?thesis using g(2) q by (intro exI [of _ s2] exI [of _ q]) simp
  qed
qed

section \<open>Frames outside an aggregation session\<close>

definition normal_ready :: "owl_env \<Rightarrow> 'a owl_scheme \<Rightarrow> tidref \<Rightarrow> bool" where
  "normal_ready env s t \<longleftrightarrow> (\<forall>b\<in>set (buf_q (an_tid s t)). sendable env s b \<and> bf_txq (txbufs s b) = tidq_of s t)"

lemma sendable_upd_tid [simp]: "sendable env (upd_tid t f s) b = sendable env s b"
proof -
  have r: "rates_ok env (upd_tid t f s) n = rates_ok env s n" for n by simp
  show ?thesis unfolding sendable_def r by (simp add: upd_tid_def ath_get_minrateidx_def Let_def)
qed

lemma sched_normal_run:
  assumes "normal_ready env s t" "currates_ok s" "buf_q (an_tid s t) = b # bs" "axq_depth (sc_txq s (tidq_of s t)) + 1 \<noteq> 0"
  shows "\<exists>s'. ath_tgt_tx_sched_normal env t s = Some s' \<and> buf_q (an_tid s' t) = bs \<and> tid_frame t s s' \<and>
    handed_over (tidq_of s t) b s s'"
proof -
  let ?s = "upd_tid t (\<lambda>x. x\<lparr>buf_q := bs\<rparr>) s"
  have "sendable env s b" using assms(1,3) by (simp add: normal_ready_def)
  then have b: "sendable env ?s b" by simp
  have q: "bf_txq (txbufs ?s b) = tidq_of s t" "currates_ok ?s"
    using assms(1-3) by (auto simp: normal_ready_def upd_tid_def currates_ok_def)
  obtain s1 where s1: "ath_tgt_tx_send_normal env b ?s = Some s1" "txq_frame ?s s1" "handed_over (tidq_of s t) b ?s s1"
    using send_normal_returns [OF q(2) b] q(1) by auto
  have f: "an_tid s1 t = (an_tid s t)\<lparr>buf_q := bs\<rparr>" "tid_frame t s s1" "handed_over (tidq_of s t) b s s1"
    using s1(2,3) by (simp_all add: txq_frame_def tid_frame_def handed_over_def upd_tid_def tid_key_def)
  have "TID_TO_ACTXQ s1 (unat (tidno (an_tid s1 t))) = tidq_of s t"
    using f(1,2) by (simp add: tid_frame_def tidq_of_def TID_TO_ACTXQ_def)
  then have "\<not> axq_depth (sc_txq s1 (TID_TO_ACTXQ s1 (unat (tidno (an_tid s1 t))))) < 1"
    using f(3) assms(4) by (simp add: handed_over_def word_less_nat_alt unat_eq_zero)
  then have "ath_tgt_tx_sched_normal env t s = Some s1"
    using assms(3) s1(1) by (subst ath_tgt_tx_sched_normal.simps) simp
  then show ?thesis using f by simp
qed

section \<open>The invariant of the scheduler\<close>

text \<open>
  The queues of TIDs hold exactly the TIDs that are marked as scheduled, each once and in the queue of its
  access category; and a TID that has frames and is not paused is scheduled.
\<close>

definition sched_inv :: "'a owl_scheme \<Rightarrow> bool" where
  "sched_inv s \<longleftrightarrow> (\<forall>q. distinct (axq_tidq (sc_txq s q))) \<and>
     (\<forall>q t. t \<in> set (axq_tidq (sc_txq s q)) \<longleftrightarrow> sched (an_tid s t) \<noteq> 0 \<and> q = tidq_of s t)"

definition stranded :: "'a owl_scheme \<Rightarrow> tidref \<Rightarrow> bool" where
  "stranded s t \<longleftrightarrow> buf_q (an_tid s t) \<noteq> [] \<and> paused (an_tid s t) = 0 \<and> sched (an_tid s t) = 0"

definition tid_ready :: "owl_env \<Rightarrow> 'a owl_scheme \<Rightarrow> tidref \<Rightarrow> bool" where
  "tid_ready env s t \<longleftrightarrow> (if flag (an_tid s t) AND TID_AGGR_ENABLED = 0 then normal_ready env s t else aggr_ready env s t)"

lemma enqueue_keeps:
  assumes "sched_inv s" "\<forall>u. u \<noteq> t \<longrightarrow> \<not> stranded s u"
  shows "sched_inv (ath_tgt_tx_enqueue (tidq_of s t) t s)" "\<not> stranded (ath_tgt_tx_enqueue (tidq_of s t) t s) u"
proof -
  let ?q = "tidq_of s t" and ?s = "ath_tgt_tx_enqueue (tidq_of s t) t s"
  have s: "?s = (if paused (an_tid s t) \<noteq> 0 \<or> sched (an_tid s t) \<noteq> 0 then s
      else upd_txq ?q (\<lambda>x. x\<lparr>axq_tidq := axq_tidq x @ [t]\<rparr>) (upd_tid t (\<lambda>x. x\<lparr>sched := 1\<rparr>) s))"
    by (simp add: ath_tgt_tx_enqueue_def)
  have q: "tidq_of ?s v = tidq_of s v" for v
    unfolding s by (simp add: tidq_of_def TID_TO_ACTXQ_def upd_tid_def upd_txq_def)
  show "\<not> stranded ?s u"
    using assms(2) [THEN spec, of u] by (cases "u = t") (auto simp: s stranded_def upd_tid_def upd_txq_def)
  show "sched_inv ?s"
  proof (cases "paused (an_tid s t) \<noteq> 0 \<or> sched (an_tid s t) \<noteq> 0")
    case True
    then show ?thesis using assms(1) by (simp add: s)
  next
    case False
    then have n: "t \<notin> set (axq_tidq (sc_txq s p))" for p using assms(1) by (simp add: sched_inv_def del: split_paired_All)
    have e: "axq_tidq (sc_txq ?s p) = (if p = ?q then axq_tidq (sc_txq s p) @ [t] else axq_tidq (sc_txq s p))"
      "sched (an_tid ?s v) = (if v = t then 1 else sched (an_tid s v))" for p v
      using False by (auto simp: s upd_tid_def upd_txq_def)
    show ?thesis unfolding sched_inv_def q e using n assms(1) by (auto simp: sched_inv_def simp del: split_paired_All)
  qed
qed

lemma tid_frame_keeps:
  assumes "tid_frame t s s'" "sched_inv s" "\<forall>u. u \<noteq> t \<longrightarrow> \<not> stranded s u"
  shows "sched_inv s'" "\<forall>u. u \<noteq> t \<longrightarrow> \<not> stranded s' u" "tidq_of s' u = tidq_of s u"
proof -
  have o: "an_tid s' u = an_tid s u" if "u \<noteq> t" for u using assms(1) that by (simp add: tid_frame_def del: split_paired_All)
  have tt: "tid_key (an_tid s' t) = tid_key (an_tid s t)" using assms(1) by (simp add: tid_frame_def del: split_paired_All)
  have k: "tidno (an_tid s' u) = tidno (an_tid s u)" "sched (an_tid s' u) = sched (an_tid s u)" for u
    using o [of u] tt by (cases "u = t", simp_all add: tid_key_def)+
  have q: "tidq_of s' u = tidq_of s u" for u
    using assms(1) k by (simp add: tidq_of_def TID_TO_ACTXQ_def tid_frame_def del: split_paired_All)
  have a: "axq_tidq (sc_txq s' p) = axq_tidq (sc_txq s p)" for p using assms(1) by (simp add: tid_frame_def del: split_paired_All)
  show "sched_inv s'" using assms(2) unfolding sched_inv_def k q a .
  show "\<forall>u. u \<noteq> t \<longrightarrow> \<not> stranded s' u" using assms(3) o by (simp add: stranded_def del: split_paired_All)
  show "tidq_of s' u = tidq_of s u" by (rule q)
qed

lemma sched_tid_run:
  assumes "tid_ready env s t" "currates_ok s" "buf_q (an_tid s t) \<noteq> [] \<longrightarrow> axq_depth (sc_txq s (tidq_of s t)) + 1 \<noteq> 0"
    "sched_inv s" "\<forall>u. u \<noteq> t \<longrightarrow> \<not> stranded s u"
  shows "\<exists>s'. sched_tid env (tidq_of s t) t s = Some s' \<and> sched_inv s' \<and> (\<forall>u. \<not> stranded s' u)"
proof -
  have "\<exists>s1. (if flag (an_tid s t) AND TID_AGGR_ENABLED = 0 then ath_tgt_tx_sched_normal env t s else ath_tgt_tx_sched_aggr env t s) = Some s1 \<and>
      tid_frame t s s1"
  proof (cases "buf_q (an_tid s t)")
    case Nil
    then have "ath_tgt_tx_sched_normal env t s = Some s" "ath_tgt_tx_sched_aggr env t s = Some s"
      by (subst ath_tgt_tx_sched_normal.simps, simp, subst ath_tgt_tx_sched_aggr.simps, simp)
    then show ?thesis by (simp add: tid_frame_def)
  next
    case (Cons b bs)
    then have d: "axq_depth (sc_txq s (tidq_of s t)) + 1 \<noteq> 0" using assms(3) by simp
    show ?thesis
    proof (cases "flag (an_tid s t) AND TID_AGGR_ENABLED = 0")
      case True
      then have "normal_ready env s t" using assms(1) by (simp add: tid_ready_def)
      from sched_normal_run [OF this assms(2) Cons d] show ?thesis using True by auto
    next
      case False
      then have "aggr_ready env s t" using assms(1) by (simp add: tid_ready_def)
      from sched_aggr_run [OF this assms(2) Cons d] show ?thesis using False by auto
    qed
  qed
  then obtain s1 where s1: "(if flag (an_tid s t) AND TID_AGGR_ENABLED = 0 then ath_tgt_tx_sched_normal env t s else ath_tgt_tx_sched_aggr env t s) = Some s1"
    "tid_frame t s s1" by blast
  note k = tid_frame_keeps [OF s1(2) assms(4,5)]
  note e = enqueue_keeps [OF k(1,2), unfolded k(3)]
  show ?thesis
  proof (cases "buf_q (an_tid s1 t) = []")
    case True
    then have "\<not> stranded s1 t" by (simp add: stranded_def)
    then show ?thesis using s1(1) True k(1,2) by (intro exI [of _ s1]) (auto simp: sched_tid_def)
  next
    case False
    then show ?thesis using s1(1) e(1,2) by (auto simp: sched_tid_def)
  qed
qed

section \<open>The scheduler\<close>

definition pop_tid :: "nat \<Rightarrow> tidref \<Rightarrow> tidref list \<Rightarrow> 'a owl_scheme \<Rightarrow> 'a owl_scheme" where
  "pop_tid q t ts s = upd_tid t (\<lambda>x. x\<lparr>sched := 0\<rparr>) (upd_txq q (\<lambda>x. x\<lparr>axq_tidq := ts\<rparr>) s)"

lemma pop_tid_fields:
  "an_tid (pop_tid q t ts s) t = (an_tid s t)\<lparr>sched := 0\<rparr>" "u \<noteq> t \<Longrightarrow> an_tid (pop_tid q t ts s) u = an_tid s u"
  "axq_tidq (sc_txq (pop_tid q t ts s) p) = (if p = q then ts else axq_tidq (sc_txq s p))"
  "axq_depth (sc_txq (pop_tid q t ts s) p) = axq_depth (sc_txq s p)" "tidq_of (pop_tid q t ts s) v = tidq_of s v"
  "txbufs (pop_tid q t ts s) = txbufs s" "currates_ok (pop_tid q t ts s) = currates_ok s"
  by (simp_all add: pop_tid_def upd_tid_def upd_txq_def tidq_of_def TID_TO_ACTXQ_def currates_ok_def)

lemma rates_ok_pop: "rates_ok env (pop_tid q t ts s) n = rates_ok env s n"
  by (rule rates_ok_cong) (simp_all add: pop_tid_def upd_tid_def upd_txq_def)

lemma tid_ready_pop: "tid_ready env (pop_tid q t ts s) v = tid_ready env s v"
proof -
  have s: "sendable env (pop_tid q t ts s) b = sendable env s b" for b
    unfolding sendable_def rates_ok_pop by (simp add: pop_tid_def upd_tid_def upd_txq_def ath_get_minrateidx_def Let_def)
  have a: "buf_q (an_tid (pop_tid q t ts s) v) = buf_q (an_tid s v)" "flag (an_tid (pop_tid q t ts s) v) = flag (an_tid s v)"
    "window_wf (an_tid (pop_tid q t ts s) v) = window_wf (an_tid s v)"
  proof -
    have v: "an_tid (pop_tid q t ts s) v = (if v = t then (an_tid s t)\<lparr>sched := 0\<rparr> else an_tid s v)"
      by (cases "v = t") (simp_all add: pop_tid_fields(1,2))
    show "buf_q (an_tid (pop_tid q t ts s) v) = buf_q (an_tid s v)" "flag (an_tid (pop_tid q t ts s) v) = flag (an_tid s v)"
      "window_wf (an_tid (pop_tid q t ts s) v) = window_wf (an_tid s v)" unfolding v by simp_all
  qed
  show ?thesis
    by (simp add: tid_ready_def normal_ready_def aggr_ready_def a s pop_tid_fields(5,6) rates_ok_pop)
qed

lemma pop_tid_keeps:
  assumes "sched_inv s" "axq_tidq (sc_txq s q) = t # ts" "\<forall>u. \<not> stranded s u"
  shows "sched_inv (pop_tid q t ts s)" "\<forall>u. u \<noteq> t \<longrightarrow> \<not> stranded (pop_tid q t ts s) u" "tidq_of s t = q"
proof -
  have i: "distinct (axq_tidq (sc_txq s p))" "v \<in> set (axq_tidq (sc_txq s p)) \<longleftrightarrow> sched (an_tid s v) \<noteq> 0 \<and> p = tidq_of s v" for p v
    using assms(1) by (simp_all add: sched_inv_def del: split_paired_All)
  show q: "tidq_of s t = q" using i(2) [of t q] assms(2) by simp
  have n: "t \<notin> set ts" "t \<notin> set (axq_tidq (sc_txq s p))" if "p \<noteq> q" for p
    using i(1) [of q] i(2) [of t p] assms(2) q that by auto
  have s: "sched (an_tid (pop_tid q t ts s) v) = (if v = t then 0 else sched (an_tid s v))" for v
    using pop_tid_fields(1) [of q t ts s] pop_tid_fields(2) [of v t q ts s] by simp
  have d: "distinct (if p = q then ts else axq_tidq (sc_txq s p))" for p using i(1) [of p] i(1) [of q] assms(2) by simp
  have m: "v \<in> set (if p = q then ts else axq_tidq (sc_txq s p)) \<longleftrightarrow> (if v = t then 0 else sched (an_tid s v)) \<noteq> 0 \<and> p = tidq_of s v" for p v
    using i(1) [of q] i(2) [of v p] i(2) [of t p] assms(2) q by auto
  show "sched_inv (pop_tid q t ts s)" unfolding sched_inv_def pop_tid_fields(3,5) s using d m by blast
  show "\<forall>u. u \<noteq> t \<longrightarrow> \<not> stranded (pop_tid q t ts s) u"
    using assms(3) pop_tid_fields(2) [of _ t q ts s] by (simp add: stranded_def del: split_paired_All)
qed

lemma no_stranded_queued:
  assumes "sched_inv s" "\<forall>u. \<not> stranded s u"
  shows "\<forall>t. buf_q (an_tid s t) \<noteq> [] \<and> paused (an_tid s t) = 0 \<longrightarrow> t \<in> set (axq_tidq (sc_txq s (tidq_of s t)))"
proof
  fix t
  have "\<not> stranded s t" using assms(2) by blast
  moreover have "t \<in> set (axq_tidq (sc_txq s (tidq_of s t))) \<longleftrightarrow> sched (an_tid s t) \<noteq> 0"
    using assms(1) by (simp add: sched_inv_def del: split_paired_All)
  ultimately show "buf_q (an_tid s t) \<noteq> [] \<and> paused (an_tid s t) = 0 \<longrightarrow> t \<in> set (axq_tidq (sc_txq s (tidq_of s t)))"
    by (auto simp: stranded_def)
qed

lemma sched_loop_run:
  assumes "sched_inv s" "\<forall>u. \<not> stranded s u" "currates_ok s" "axq_depth (sc_txq s q) + 1 \<noteq> 0"
    "axq_tidq (sc_txq s q) = ts" "\<forall>t\<in>set ts. tid_ready env s t"
  shows "\<exists>s'. sched_loop env q ts s = Some s' \<and> sched_inv s' \<and> (\<forall>u. \<not> stranded s' u)"
  using assms
proof (induction ts arbitrary: s)
  case Nil
  then show ?case by auto
next
  case (Cons t ts)
  let ?s = "pop_tid q t ts s"
  note k = pop_tid_keeps [OF Cons.prems(1,5,2)]
  have f: "currates_ok ?s" "axq_depth (sc_txq ?s q) + 1 \<noteq> 0" "axq_tidq (sc_txq ?s q) = ts" "\<forall>u\<in>set ts. tid_ready env ?s u"
    using Cons.prems(3,4,6) by (simp_all add: pop_tid_fields tid_ready_pop)
  show ?case
  proof (cases "paused (an_tid s t) = 0")
    case True
    have "tidq_of ?s t = q" using k(3) by (simp add: pop_tid_fields)
    then show ?thesis
      using sched_tid_run [of env ?s t] Cons.prems(6) f k(1,2) True
      by (simp add: tid_ready_pop pop_tid_def [symmetric] pop_tid_fields(1) Let_def del: split_paired_All)
  next
    case False
    then have "\<forall>u. \<not> stranded ?s u"
      using k(2) pop_tid_fields(1) [of q t ts s] by (metis (no_types, lifting) stranded_def ath_atx_tid.select_convs(9) ath_atx_tid.ext_inject ath_atx_tid.surjective ath_atx_tid.update_convs(10))
    from Cons.IH [OF k(1) this f] show ?thesis
      using False by (simp add: pop_tid_def [symmetric] pop_tid_fields(1) Let_def)
  qed
qed

text \<open>
  Property C17. Serving a hardware queue always returns, keeps the scheduler's queues consistent, and
  afterwards no unpaused TID with waiting frames is forgotten: each of them is in the queue of its access
  category again. A paused TID is in no queue; resuming it schedules it.
\<close>

theorem ath_tgt_txq_schedule_no_stranded:
  assumes "sched_inv s" "\<forall>t. \<not> stranded s t" "currates_ok s" "axq_depth (sc_txq s q) + 1 \<noteq> 0"
    "\<forall>t\<in>set (axq_tidq (sc_txq s q)). tid_ready env s t"
  shows "\<exists>s'. ath_tgt_txq_schedule env q s = Some s' \<and> sched_inv s' \<and>
    (\<forall>t. buf_q (an_tid s' t) \<noteq> [] \<and> paused (an_tid s' t) = 0 \<longrightarrow> t \<in> set (axq_tidq (sc_txq s' (tidq_of s' t))))"
proof -
  obtain s' where s': "ath_tgt_txq_schedule env q s = Some s'" "sched_inv s'" "\<forall>u. \<not> stranded s' u"
    using sched_loop_run [OF assms(1-4) refl assms(5)] unfolding ath_tgt_txq_schedule_def by blast
  then show ?thesis using no_stranded_queued by blast
qed

lemma max_count_pos: "2 \<le> unat (baw_size tid) \<Longrightarrow> 0 < max_count env tid"
proof -
  assume "2 \<le> unat (baw_size tid)"
  then have "1 \<le> unat (baw_size tid) div 2" by simp
  then have "(1 :: u32) \<le> ucast (baw_size tid div 2)" by (simp add: word_le_nat_alt unat_div)
  then have "(1 :: u32) \<le> min (ucast (baw_size tid div 2)) (max_subframes env)" by (simp add: max_subframes_def)
  then show ?thesis by (simp add: max_count_def word_le_nat_alt)
qed

lemma enqueue_axq_q: "axq_q (sc_txq (ath_tgt_tx_enqueue q t s) p) = axq_q (sc_txq s p)"
  by (simp add: ath_tgt_tx_enqueue_def upd_tid_def upd_txq_def)

text \<open>A TID that is served: its oldest frame can go out, in an aggregation session inside the block-ack window.\<close>

definition servable :: "owl_env \<Rightarrow> 'a owl_scheme \<Rightarrow> tidref \<Rightarrow> bufref \<Rightarrow> bufref list \<Rightarrow> bool" where
  "servable env s t b bs \<longleftrightarrow> paused (an_tid s t) = 0 \<and> buf_q (an_tid s t) = b # bs \<and> b \<notin> set bs \<and> tid_ready env s t \<and>
     (flag (an_tid s t) AND TID_AGGR_ENABLED \<noteq> 0 \<longrightarrow> 2 \<le> unat (baw_size (an_tid s t)) \<and>
      BAW_WITHIN (seq_start (an_tid s t)) (baw_size (an_tid s t)) (SEQNO_FROM_BF_SEQNO (bf_seqno (txbufs s b))))"

lemma serve_tid:
  assumes "servable env s t b bs" "currates_ok s" "axq_depth (sc_txq s (tidq_of s t)) + 1 \<noteq> 0" "sched (an_tid s t) = 0"
  shows "\<exists>s'. sched_tid env (tidq_of s t) t s = Some s' \<and> axq_q (sc_txq s' (tidq_of s t)) = axq_q (sc_txq s (tidq_of s t)) @ [b] \<and>
    b \<notin> set (buf_q (an_tid s' t)) \<and>
    axq_tidq (sc_txq s' (tidq_of s t)) = axq_tidq (sc_txq s (tidq_of s t)) @ (if buf_q (an_tid s' t) = [] then [] else [t])"
proof -
  have p: "paused (an_tid s t) = 0" "buf_q (an_tid s t) = b # bs" "b \<notin> set bs" using assms(1) by (simp_all add: servable_def)
  have "\<exists>s1. (if flag (an_tid s t) AND TID_AGGR_ENABLED = 0 then ath_tgt_tx_sched_normal env t s else ath_tgt_tx_sched_aggr env t s) = Some s1 \<and>
      (\<exists>qq. qq \<noteq> [] \<and> qq @ buf_q (an_tid s1 t) = b # bs) \<and> tid_frame t s s1 \<and> handed_over (tidq_of s t) b s s1"
  proof (cases "flag (an_tid s t) AND TID_AGGR_ENABLED = 0")
    case True
    then have "normal_ready env s t" using assms(1) by (simp add: servable_def tid_ready_def)
    from sched_normal_run [OF this assms(2) p(2) assms(3)] show ?thesis using True by (auto intro: exI [of _ "[b]"])
  next
    case False
    then have r: "aggr_ready env s t" "2 \<le> unat (baw_size (an_tid s t))"
      "BAW_WITHIN (seq_start (an_tid s t)) (baw_size (an_tid s t)) (SEQNO_FROM_BF_SEQNO (bf_seqno (txbufs s b)))"
      using assms(1) by (simp_all add: servable_def tid_ready_def)
    then have "0 < max_count env (an_tid s t)" by (intro max_count_pos)
    with sched_aggr_run [OF r(1) assms(2) p(2) assms(3)] r(3) show ?thesis using False by (auto split: if_splits)
  qed
  then obtain s1 qq where s1: "(if flag (an_tid s t) AND TID_AGGR_ENABLED = 0 then ath_tgt_tx_sched_normal env t s
      else ath_tgt_tx_sched_aggr env t s) = Some s1" "qq \<noteq> []" "qq @ buf_q (an_tid s1 t) = b # bs" "tid_frame t s s1"
      "handed_over (tidq_of s t) b s s1" by blast
  have k: "paused (an_tid s1 t) = 0" "sched (an_tid s1 t) = 0" "axq_tidq (sc_txq s1 q) = axq_tidq (sc_txq s q)" for q
    using s1(4) p(1) assms(4) by (simp_all add: tid_frame_def tid_key_def)
  have d: "b \<notin> set (buf_q (an_tid s1 t))" using s1(2,3) p(3) by (cases qq) auto
  let ?s2 = "if buf_q (an_tid s1 t) \<noteq> [] then ath_tgt_tx_enqueue (tidq_of s t) t s1 else s1"
  have "sched_tid env (tidq_of s t) t s = Some ?s2" using s1(1) by (simp add: sched_tid_def)
  moreover have "buf_q (an_tid ?s2 t) = buf_q (an_tid s1 t)" by (simp add: ath_tgt_tx_enqueue_def upd_tid_def upd_txq_def)
  moreover have "axq_q (sc_txq ?s2 (tidq_of s t)) = axq_q (sc_txq s (tidq_of s t)) @ [b]"
    using s1(5) by (simp add: handed_over_def enqueue_axq_q)
  moreover have "axq_tidq (sc_txq ?s2 (tidq_of s t)) = axq_tidq (sc_txq s (tidq_of s t)) @ (if buf_q (an_tid s1 t) = [] then [] else [t])"
    using k by (simp add: ath_tgt_tx_enqueue_def upd_tid_def upd_txq_def)
  ultimately show ?thesis using d by (intro exI [of _ ?s2]) simp
qed

lemma servable_pop: "u \<noteq> t \<Longrightarrow> servable env (pop_tid q u ts s) t b bs = servable env s t b bs"
  using pop_tid_fields(2) [of t u q ts s] by (simp add: servable_def tid_ready_pop pop_tid_fields(6))

lemma serve_loop:
  assumes "sched_inv s" "\<forall>t. \<not> stranded s t" "currates_ok s" "axq_depth (sc_txq s q) + 1 \<noteq> 0"
    "axq_tidq (sc_txq s q) = ps @ t # ts" "\<forall>p\<in>set ps. paused (an_tid s p) \<noteq> 0" "servable env s t b bs"
  shows "\<exists>s'. sched_loop env q (ps @ t # ts) s = Some s' \<and> axq_q (sc_txq s' q) = axq_q (sc_txq s q) @ [b] \<and>
    b \<notin> set (buf_q (an_tid s' t)) \<and> axq_tidq (sc_txq s' q) = ts @ (if buf_q (an_tid s' t) = [] then [] else [t])"
  using assms
proof (induction ps arbitrary: s)
  case Nil
  let ?s = "pop_tid q t ts s"
  have q: "tidq_of s t = q" using pop_tid_keeps(3) [OF Nil.prems(1) _ Nil.prems(2)] Nil.prems(5) by simp
  have tid: "an_tid ?s t = (an_tid s t)\<lparr>sched := 0\<rparr>" by (rule pop_tid_fields(1))
  have "servable env ?s t b bs"
    using Nil.prems(7) by (simp add: servable_def tid tid_ready_pop pop_tid_fields(6))
  moreover have "currates_ok ?s" "axq_depth (sc_txq ?s (tidq_of ?s t)) + 1 \<noteq> 0" "sched (an_tid ?s t) = 0" "tidq_of ?s t = q"
    using Nil.prems(3,4) by (simp_all add: pop_tid_fields(4,5,7) q tid)
  ultimately have "\<exists>s'. sched_tid env q t ?s = Some s' \<and> axq_q (sc_txq s' q) = axq_q (sc_txq ?s q) @ [b] \<and>
    b \<notin> set (buf_q (an_tid s' t)) \<and> axq_tidq (sc_txq s' q) = axq_tidq (sc_txq ?s q) @ (if buf_q (an_tid s' t) = [] then [] else [t])"
    using serve_tid [of env ?s t b bs] by simp
  moreover have "axq_tidq (sc_txq ?s q) = ts" "axq_q (sc_txq ?s q) = axq_q (sc_txq s q)"
    by (simp_all add: pop_tid_def upd_tid_def upd_txq_def)
  moreover have "sched_loop env q ([] @ t # ts) s = sched_tid env q t ?s"
    using Nil.prems(7) by (simp add: pop_tid_def [symmetric] tid servable_def Let_def)
  ultimately show ?case by simp
next
  case (Cons p ps)
  let ?s = "pop_tid q p (ps @ t # ts) s"
  have hd: "axq_tidq (sc_txq s q) = p # (ps @ t # ts)" using Cons.prems(5) by simp
  note k = pop_tid_keeps [OF Cons.prems(1) hd Cons.prems(2)]
  have d: "distinct (p # ps @ t # ts)" using Cons.prems(1) hd [symmetric] by (simp add: sched_inv_def)
  have tid: "an_tid ?s p = (an_tid s p)\<lparr>sched := 0\<rparr>" by (rule pop_tid_fields(1))
  then have "\<not> stranded ?s p" using Cons.prems(6) by (simp add: stranded_def)
  then have n: "\<forall>u. \<not> stranded ?s u" using k(2) by metis
  have "\<forall>u\<in>set ps. paused (an_tid ?s u) \<noteq> 0"
  proof
    fix u assume u: "u \<in> set ps"
    then have "an_tid ?s u = an_tid s u" using d by (intro pop_tid_fields(2)) auto
    then show "paused (an_tid ?s u) \<noteq> 0" using Cons.prems(6) u by simp
  qed
  moreover have "p \<noteq> t" using d by auto
  then have "servable env ?s t b bs" using Cons.prems(7) by (simp add: servable_pop)
  moreover have "currates_ok ?s" "axq_depth (sc_txq ?s q) + 1 \<noteq> 0" "axq_tidq (sc_txq ?s q) = ps @ t # ts"
    using Cons.prems(3,4) by (simp_all add: pop_tid_fields(3,4,7))
  moreover have "axq_q (sc_txq ?s q) = axq_q (sc_txq s q)" by (simp add: pop_tid_def upd_tid_def upd_txq_def)
  moreover have "sched_loop env q ((p # ps) @ t # ts) s = sched_loop env q (ps @ t # ts) ?s"
    using Cons.prems(6) by (simp add: pop_tid_def [symmetric] tid Let_def)
  ultimately show ?case using Cons.IH [of ?s] k(1) n by simp
qed

text \<open>
  Property C18. Serving a queue skips and drops the paused TIDs at its front, serves the first one that is not
  paused, and stops there: its oldest frame (with what is aggregated behind it) is appended to the hardware
  queue, the TIDs behind it stay in order, and it goes to their end if it still has frames. In an aggregation
  session the frame must be inside a block-ack window of at least two.
\<close>

theorem ath_tgt_txq_schedule_serves:
  assumes "sched_inv s" "\<forall>t. \<not> stranded s t" "currates_ok s" "axq_depth (sc_txq s q) + 1 \<noteq> 0"
    "axq_tidq (sc_txq s q) = ps @ t # ts" "\<forall>p\<in>set ps. paused (an_tid s p) \<noteq> 0" "servable env s t b bs"
  shows "\<exists>s'. ath_tgt_txq_schedule env q s = Some s' \<and> axq_q (sc_txq s' q) = axq_q (sc_txq s q) @ [b] \<and>
    b \<notin> set (buf_q (an_tid s' t)) \<and> axq_tidq (sc_txq s' q) = ts @ (if buf_q (an_tid s' t) = [] then [] else [t])"
  using serve_loop [OF assms] by (simp add: ath_tgt_txq_schedule_def assms(5))

section \<open>A frame from the host\<close>

text \<open>
  Property C19. A frame of an aggregation session is never lost: it is handed to the hardware at once, as the
  newest of its queue and marked outstanding, or it waits at the end of its TID's queue; and if that TID is
  not paused it is scheduled.
\<close>

theorem ath_tgt_handle_aggr_keeps_frame:
  assumes "sched_inv s" "\<forall>u. \<not> stranded s u" "currates_ok s" "ATH_AN_2_TID (txbufs s b) = Some t" "sendable env s b"
    "bf_txq (txbufs s b) = tidq_of s t" "window_wf (an_tid s t)"
  shows "\<exists>s'. ath_tgt_handle_aggr env b s = Some s' \<and> sched_inv s' \<and>
    (if axq_depth (sc_txq s (tidq_of s t)) \<ge> 1 \<or> buf_q (an_tid s t) \<noteq> [] \<or> paused (an_tid s t) \<noteq> 0 \<or>
        \<not> BAW_WITHIN (seq_start (an_tid s t)) (baw_size (an_tid s t)) (SEQNO_FROM_BF_SEQNO (bf_seqno (txbufs s b)))
     then buf_q (an_tid s' t) = buf_q (an_tid s t) @ [b]
     else handed_over (tidq_of s t) b s s' \<and> buf_q (an_tid s' t) = [] \<and> window_wf (an_tid s' t) \<and>
       baw_outstanding (an_tid s' t) = (if bf_isretried (txbufs s b) then baw_outstanding (an_tid s t)
         else insert (unat (bf_seqno (txbufs s b)) div 16) (baw_outstanding (an_tid s t)))) \<and>
    (\<forall>u. buf_q (an_tid s' u) \<noteq> [] \<and> paused (an_tid s' u) = 0 \<longrightarrow> u \<in> set (axq_tidq (sc_txq s' (tidq_of s' u))))"
proof -
  let ?s1 = "upd_buf b (\<lambda>bf. bf\<lparr>bf_comp := Some Comp_Aggr\<rparr>) s" and ?q = "tidq_of s t" and ?tid = "an_tid s t"
  let ?in = "BAW_WITHIN (seq_start ?tid) (baw_size ?tid) (SEQNO_FROM_BF_SEQNO (bf_seqno (txbufs s b)))"
  have o: "\<forall>u. u \<noteq> t \<longrightarrow> \<not> stranded s u" using assms(2) by blast
  show ?thesis
  proof (cases "axq_depth (sc_txq s ?q) \<ge> 1 \<or> buf_q ?tid \<noteq> [] \<or> paused ?tid \<noteq> 0 \<or> \<not> ?in")
    case True
    let ?s2 = "upd_tid t (\<lambda>x. x\<lparr>buf_q := buf_q x @ [b]\<rparr>) ?s1"
    let ?s3 = "ath_tgt_tx_enqueue ?q t ?s2"
    have "tid_frame t s ?s2" by (simp add: tid_frame_def tid_key_def upd_tid_def upd_buf_def)
    note k = tid_frame_keeps [OF this assms(1) o]
    note e = enqueue_keeps [OF k(1,2), unfolded k(3)]
    have "ath_tgt_handle_aggr env b s = Some ?s3"
      using True assms(4,6) by (simp add: ath_tgt_handle_aggr_def Let_def upd_buf_def)
    moreover have "buf_q (an_tid ?s3 t) = buf_q ?tid @ [b]" by (simp add: ath_tgt_tx_enqueue_def upd_tid_def upd_txq_def upd_buf_def)
    moreover have "\<forall>u. \<not> stranded ?s3 u" using e(2) by blast
    ultimately show ?thesis
      unfolding if_P [OF True] using e(1) no_stranded_queued [of ?s3] by (intro exI [of _ ?s3] conjI)
  next
    case False
    let ?s2 = "stats txaggr_nframes (upd_tid t (\<lambda>x. ath_tx_addto_baw x (txbufs ?s1 b)) ?s1)"
    have a: "ath_tx_addto_baw ?tid (txbufs ?s1 b) = ath_tx_addto_baw ?tid (txbufs s b)"
      by (simp add: ath_tx_addto_baw_def upd_buf_def)
    have fr: "tid_frame t s ?s2" by (simp add: tid_frame_def tid_key_def upd_tid_def upd_buf_def statsn_def)
    have r: "rates_ok env ?s2 n = rates_ok env s n" for n by (rule rates_ok_cong) (simp_all add: upd_tid_def upd_buf_def statsn_def)
    have m: "ath_get_minrateidx ?s2 v = ath_get_minrateidx s v" for v
      by (simp add: upd_tid_def upd_buf_def statsn_def ath_get_minrateidx_def Let_def)
    have "sendable env ?s2 b"
      using assms(5) unfolding sendable_def r m by (simp add: upd_tid_def upd_buf_def statsn_def Let_def)
    moreover have "currates_ok ?s2" using assms(3) by (simp add: currates_ok_def upd_tid_def upd_buf_def statsn_def)
    ultimately obtain s3 where s3: "ath_tgt_tx_send_normal env b ?s2 = Some s3" "txq_frame ?s2 s3" "handed_over (bf_txq (txbufs ?s2 b)) b ?s2 s3"
      using send_normal_returns by blast
    have h: "handed_over ?q b s s3" using s3(3) assms(6) by (simp add: handed_over_def upd_tid_def upd_buf_def statsn_def)
    have t3: "an_tid s3 t = ath_tx_addto_baw ?tid (txbufs s b)"
      using s3(2) a by (simp add: txq_frame_def upd_tid_def upd_buf_def statsn_def)
    note k = tid_frame_keeps [OF txq_tid_frame [OF fr s3(2)] assms(1) o]
    have "buf_q (an_tid s3 t) = []" using t3 False by simp
    moreover from this have "\<not> stranded s3 t" by (simp add: stranded_def)
    then have "\<forall>u. \<not> stranded s3 u" using k(2) by metis
    moreover have "ath_tgt_handle_aggr env b s = Some s3"
      using False assms(4,6) s3(1) by (simp add: ath_tgt_handle_aggr_def Let_def upd_buf_def)
    moreover have "window_wf (an_tid s3 t) \<and> baw_outstanding (an_tid s3 t) = (if bf_isretried (txbufs s b) then baw_outstanding ?tid
        else insert (unat (bf_seqno (txbufs s b)) div 16) (baw_outstanding ?tid))"
      using addto_baw_outstanding [of ?tid "txbufs s b"] assms(7) False unfolding t3 window_wf_def by simp
    ultimately show ?thesis
      unfolding if_not_P [OF False] using k(1) h no_stranded_queued [of s3] by (intro exI [of _ s3]) blast
  qed
qed

section \<open>A sample state\<close>

text \<open>The sample state of the aggregates, with the TID in the queue of its access category.\<close>

definition owl2 :: owl where
  "owl2 = owl0\<lparr>an_tid := (\<lambda>t. if t = (0, 0) then tid0\<lparr>sched := 1\<rparr> else tid0\<lparr>buf_q := [], baw_tail := 0, tx_buf_bitmap := replicate 4 0\<rparr>),
     txbufs := (\<lambda>b. (txbufs owl0 b)\<lparr>bf_txq := 1\<rparr>),
     sc_txq := (sc_txq owl0)(1 := (sc_txq owl0 1)\<lparr>axq_tidq := [(0, 0)]\<rparr>)\<rparr>"

lemma owl2_inv: "sched_inv owl2" "\<forall>t. \<not> stranded owl2 t"
  by (auto simp: sched_inv_def stranded_def owl2_def owl0_def tid0_def tidq_of_def TID_TO_ACTXQ_def TID_TO_WME_AC_def)

lemma owl2_ready:
  "currates_ok owl2" "axq_depth (sc_txq owl2 1) + 1 \<noteq> 0" "axq_tidq (sc_txq owl2 1) = [(0, 0)]" "paused (an_tid owl2 (0, 0)) = 0"
  "flag (an_tid owl2 (0, 0)) AND TID_AGGR_ENABLED \<noteq> 0" "aggr_ready env0 owl2 (0, 0)" "buf_q (an_tid owl2 (0, 0)) = 0 # [1, 2]"
  "2 \<le> unat (baw_size (an_tid owl2 (0, 0)))"
  "BAW_WITHIN (seq_start (an_tid owl2 (0, 0))) (baw_size (an_tid owl2 (0, 0))) (SEQNO_FROM_BF_SEQNO (bf_seqno (txbufs owl2 0)))"
  by code_simp+

theorem ath_tgt_txq_schedule_no_stranded_witness:
  "\<exists>s'. ath_tgt_txq_schedule env0 1 owl2 = Some s' \<and> sched_inv s'"
proof -
  have "\<forall>t\<in>set (axq_tidq (sc_txq owl2 1)). tid_ready env0 owl2 t" using owl2_ready(3,5,6) by (simp add: tid_ready_def)
  from ath_tgt_txq_schedule_no_stranded [OF owl2_inv owl2_ready(1,2) this] show ?thesis by blast
qed

text \<open>The same with a paused TID at the front of the queue.\<close>

definition owl3 :: owl where
  "owl3 = owl2\<lparr>an_tid := (an_tid owl2)((0, 2) := (an_tid owl2 (0, 2))\<lparr>tidno := 3, paused := 1, sched := 1\<rparr>),
     sc_txq := (sc_txq owl2)(1 := (sc_txq owl2 1)\<lparr>axq_tidq := [(0, 2), (0, 0)]\<rparr>)\<rparr>"

lemma owl3_inv: "sched_inv owl3" "\<forall>t. \<not> stranded owl3 t"
  by (auto simp: sched_inv_def stranded_def owl3_def owl2_def owl0_def tid0_def tidq_of_def TID_TO_ACTXQ_def TID_TO_WME_AC_def)

theorem ath_tgt_txq_schedule_serves_witness:
  "\<exists>s'. ath_tgt_txq_schedule env0 1 owl3 = Some s' \<and> axq_q (sc_txq s' 1) = [0] \<and> (0, 2) \<notin> set (axq_tidq (sc_txq s' 1))"
proof -
  have r: "currates_ok owl3" "axq_depth (sc_txq owl3 1) + 1 \<noteq> 0" "axq_tidq (sc_txq owl3 1) = [(0, 2)] @ (0, 0) # []"
    "\<forall>p\<in>set [(0, 2)]. paused (an_tid owl3 p) \<noteq> 0" "axq_q (sc_txq owl3 1) = []"
    by code_simp+
  have "paused (an_tid owl3 (0, 0)) = 0" "buf_q (an_tid owl3 (0, 0)) = 0 # [1, 2]" "0 \<notin> set [1, 2 :: nat]"
    "flag (an_tid owl3 (0, 0)) AND TID_AGGR_ENABLED \<noteq> 0" "aggr_ready env0 owl3 (0, 0)" "2 \<le> unat (baw_size (an_tid owl3 (0, 0)))"
    "BAW_WITHIN (seq_start (an_tid owl3 (0, 0))) (baw_size (an_tid owl3 (0, 0))) (SEQNO_FROM_BF_SEQNO (bf_seqno (txbufs owl3 0)))"
    by code_simp+
  then have "servable env0 owl3 (0, 0) 0 [1, 2]" by (simp add: servable_def tid_ready_def)
  with ath_tgt_txq_schedule_serves [OF owl3_inv r(1-4)] r(5) show ?thesis by fastforce
qed

theorem ath_tgt_handle_aggr_keeps_frame_witness:
  "\<exists>s'. ath_tgt_handle_aggr env0 4 owl2 = Some s' \<and> buf_q (an_tid s' (0, 0)) = [0, 1, 2, 4] \<and> sched_inv s'"
proof -
  have "ATH_AN_2_TID (txbufs owl2 4) = Some (0, 0)" "bf_txq (txbufs owl2 4) = tidq_of owl2 (0, 0)" "window_wf (an_tid owl2 (0, 0))"
    "rates_ok env0 owl2 0" "\<not> bf_ismcast (txbufs owl2 4)" "bf_node (txbufs owl2 4) = Some 0" by code_simp+
  moreover from this have "sendable env0 owl2 4" by (simp add: sendable_def Let_def)
  ultimately show ?thesis
    using ath_tgt_handle_aggr_keeps_frame [OF owl2_inv owl2_ready(1), of 4 "(0, 0)" env0] owl2_ready(7) by auto
qed

end
