(* ===== verification/Hal_Reg.thy ===== *)
theory Hal_Reg
  imports Owl_Buf
begin

text \<open>
  The registers of the wireless MAC (\<^verbatim>\<open>ar5416_hw.c\<close>, \<^verbatim>\<open>ah.c\<close>): interrupts, the clock, receive and transmit
  DMA. What the code does to the hardware is the list of its accesses, in order; what a read returns
  is a function of the accesses before it, the record \<open>io_env\<close>. The loops have the bounds of the code.
  The build defines none of \<^verbatim>\<open>AH_ASSERT\<close>, \<^verbatim>\<open>AR9100\<close>, \<^verbatim>\<open>AR5416_INT_MITIGATION\<close> and \<^verbatim>\<open>DEBUG\<close>:
  \<^verbatim>\<open>HALASSERT\<close> is empty.
\<close>

section \<open>Access to the hardware\<close>

record io_env =
  mac_val :: "io_op list \<Rightarrow> u32 \<Rightarrow> u32"
  soc_val :: "io_op list \<Rightarrow> u32 \<Rightarrow> u32"

record hal =
  io_log :: "io_op list"
  ah_maskReg :: u32
  ah_intrTxqs :: u32

definition io :: "io_op \<Rightarrow> 'a hal_scheme \<Rightarrow> 'a hal_scheme" where
  "io a h = h\<lparr>io_log := io_log h @ [a]\<rparr>"

definition ioread32_mac :: "'e io_env_scheme \<Rightarrow> u32 \<Rightarrow> 'a hal_scheme \<Rightarrow> u32 \<times> 'a hal_scheme" where
  "ioread32_mac env a h = (mac_val env (io_log h) a, io (Mac_Rd a) h)"

definition ioread32 :: "'e io_env_scheme \<Rightarrow> u32 \<Rightarrow> 'a hal_scheme \<Rightarrow> u32 \<times> 'a hal_scheme" where
  "ioread32 env a h = (soc_val env (io_log h) a, io (Soc_Rd a) h)"

abbreviation iowrite32_mac :: "u32 \<Rightarrow> u32 \<Rightarrow> 'a hal_scheme \<Rightarrow> 'a hal_scheme" where
  "iowrite32_mac a v \<equiv> io (Mac_Wr a v)"

abbreviation iowrite32 :: "u32 \<Rightarrow> u32 \<Rightarrow> 'a hal_scheme \<Rightarrow> 'a hal_scheme" where
  "iowrite32 a v \<equiv> io (Soc_Wr a v)"

definition OS_REG_RMW :: "'e io_env_scheme \<Rightarrow> u32 \<Rightarrow> u32 \<Rightarrow> u32 \<Rightarrow> 'a hal_scheme \<Rightarrow> 'a hal_scheme" where
  "OS_REG_RMW env r st cl h = (let (v, h) = ioread32_mac env r h in iowrite32_mac r (v AND NOT cl OR st) h)"

definition OS_REG_SET_BIT :: "'e io_env_scheme \<Rightarrow> u32 \<Rightarrow> u32 \<Rightarrow> 'a hal_scheme \<Rightarrow> 'a hal_scheme" where
  "OS_REG_SET_BIT env r f h = (let (v, h) = ioread32_mac env r h in iowrite32_mac r (v OR f) h)"

definition OS_REG_CLR_BIT :: "'e io_env_scheme \<Rightarrow> u32 \<Rightarrow> u32 \<Rightarrow> 'a hal_scheme \<Rightarrow> 'a hal_scheme" where
  "OS_REG_CLR_BIT env r f h = (let (v, h) = ioread32_mac env r h in iowrite32_mac r (v AND NOT f) h)"

section \<open>Register addresses and bits\<close>

abbreviation (input) AR_CR :: u32 where "AR_CR \<equiv> 0x0008"
abbreviation (input) AR_CR_RXE :: u32 where "AR_CR_RXE \<equiv> 0x04"
abbreviation (input) AR_CR_RXD :: u32 where "AR_CR_RXD \<equiv> 0x20"
abbreviation (input) AR_RXDP :: u32 where "AR_RXDP \<equiv> 0x000C"
abbreviation (input) AR_IER :: u32 where "AR_IER \<equiv> 0x0024"
abbreviation (input) AR_TXCFG :: u32 where "AR_TXCFG \<equiv> 0x0030"
abbreviation (input) AR_RXCFG :: u32 where "AR_RXCFG \<equiv> 0x0034"
abbreviation (input) AR_IMR :: u32 where "AR_IMR \<equiv> 0x00a0"
abbreviation (input) AR_ISR_RAC :: u32 where "AR_ISR_RAC \<equiv> 0x00c0"
abbreviation (input) AR_ISR_S0_S :: u32 where "AR_ISR_S0_S \<equiv> 0x00c4"
abbreviation (input) AR_ISR_S1_S :: u32 where "AR_ISR_S1_S \<equiv> 0x00c8"
abbreviation (input) AR_ISR_S2_S :: u32 where "AR_ISR_S2_S \<equiv> 0x00cc"
abbreviation (input) AR_Q_TXE :: u32 where "AR_Q_TXE \<equiv> 0x0840"
abbreviation (input) AR_Q_TXD :: u32 where "AR_Q_TXD \<equiv> 0x0880"
abbreviation (input) AR_D_GBL_IFS_MISC :: u32 where "AR_D_GBL_IFS_MISC \<equiv> 0x10f0"
abbreviation (input) AR_INTR_SYNC_CAUSE :: u32 where "AR_INTR_SYNC_CAUSE \<equiv> 0x4028"
abbreviation (input) AR_INTR_SYNC_ENABLE :: u32 where "AR_INTR_SYNC_ENABLE \<equiv> 0x402c"
abbreviation (input) AR_INTR_ASYNC_MASK :: u32 where "AR_INTR_ASYNC_MASK \<equiv> 0x4030"
abbreviation (input) AR_INTR_ASYNC_CAUSE :: u32 where "AR_INTR_ASYNC_CAUSE \<equiv> 0x4038"
abbreviation (input) AR_INTR_ASYNC_ENABLE :: u32 where "AR_INTR_ASYNC_ENABLE \<equiv> 0x403c"
abbreviation (input) AR_RTC_STATUS :: u32 where "AR_RTC_STATUS \<equiv> 0x7044"
abbreviation (input) AR_RX_FILTER :: u32 where "AR_RX_FILTER \<equiv> 0x803C"
abbreviation (input) AR_DIAG_SW :: u32 where "AR_DIAG_SW \<equiv> 0x8048"
abbreviation (input) AR_TSF_L32 :: u32 where "AR_TSF_L32 \<equiv> 0x804c"
abbreviation (input) AR_TSF_U32 :: u32 where "AR_TSF_U32 \<equiv> 0x8050"
abbreviation (input) AR_PHY_ERR :: u32 where "AR_PHY_ERR \<equiv> 0x810c"
abbreviation (input) AR_PCU_MISC :: u32 where "AR_PCU_MISC \<equiv> 0x8120"
abbreviation (input) AR_INTR_SPURIOUS :: u32 where "AR_INTR_SPURIOUS \<equiv> 0xffffffff"
abbreviation (input) AR_INTR_MAC_IRQ :: u32 where "AR_INTR_MAC_IRQ \<equiv> 0x2"
abbreviation (input) AR_INTR_SYNC_ALL :: u32 where "AR_INTR_SYNC_ALL \<equiv> 0x0003FFFF"
abbreviation (input) AR_PCU_QUIET_VMF :: u32 where "AR_PCU_QUIET_VMF \<equiv> 0x01040000"
abbreviation (input) AR_DIAG_FORCE_CH_IDLE_HIGH :: u32 where "AR_DIAG_FORCE_CH_IDLE_HIGH \<equiv> 0x00400000"
abbreviation (input) AR_IFS_IGNORE_BACKOFF :: u32 where "AR_IFS_IGNORE_BACKOFF \<equiv> 0x10000000"

definition AR_QTXDP :: "u32 \<Rightarrow> u32" where "AR_QTXDP q = 0x0800 + push_bit 2 q"
definition AR_QSTS :: "u32 \<Rightarrow> u32" where "AR_QSTS q = 0x0a00 + push_bit 2 q"

abbreviation (input) HAL_INT_RX :: u32 where "HAL_INT_RX \<equiv> 0x00000001"
abbreviation (input) HAL_INT_RXEOL :: u32 where "HAL_INT_RXEOL \<equiv> 0x00000010"
abbreviation (input) HAL_INT_RXORN :: u32 where "HAL_INT_RXORN \<equiv> 0x00000020"
abbreviation (input) HAL_INT_TX :: u32 where "HAL_INT_TX \<equiv> 0x00000040"
abbreviation (input) HAL_INT_TXURN :: u32 where "HAL_INT_TXURN \<equiv> 0x00000800"
abbreviation (input) HAL_INT_BMISS :: u32 where "HAL_INT_BMISS \<equiv> 0x00040000"
abbreviation (input) HAL_INT_CST :: u32 where "HAL_INT_CST \<equiv> 0x02000000"
abbreviation (input) HAL_INT_GTT :: u32 where "HAL_INT_GTT \<equiv> 0x20000000"
abbreviation (input) HAL_INT_FATAL :: u32 where "HAL_INT_FATAL \<equiv> 0x40000000"
abbreviation (input) HAL_INT_GLOBAL :: u32 where "HAL_INT_GLOBAL \<equiv> 0x80000000"

text \<open>RXNOFRM, RXDESC, RXEOL, RXORN, TXURN, TXDESC, MIB, RXPHY, RXKCM, SWBA, BMISS, GPIO.\<close>

definition HAL_INT_COMMON :: u32 where
  "HAL_INT_COMMON = 0x08 OR 0x02 OR 0x10 OR 0x20 OR 0x800 OR 0x80 OR 0x1000 OR 0x4000 OR 0x8000 OR 0x10000 OR
     HAL_INT_BMISS OR 0x01000000"

section \<open>Waiting\<close>

fun wait_loop :: "'e io_env_scheme \<Rightarrow> nat \<Rightarrow> u32 \<Rightarrow> u32 \<Rightarrow> u32 \<Rightarrow> 'a hal_scheme \<Rightarrow> bool \<times> 'a hal_scheme" where
  "wait_loop env 0 reg m val h = (False, h)"
| "wait_loop env (Suc n) reg m val h =
     (let (v, h) = ioread32_mac env reg h in
      if v AND m = val then (True, h) else wait_loop env n reg m val (io (Udelay 10) h))"

definition ath_hal_wait :: "'e io_env_scheme \<Rightarrow> u32 \<Rightarrow> u32 \<Rightarrow> u32 \<Rightarrow> 'a hal_scheme \<Rightarrow> bool \<times> 'a hal_scheme" where
  "ath_hal_wait env reg m val h =
     wait_loop env (if ath_hal_getcapability caps0 HAL_CAP_HT = 0 then 100000 else 1000) reg m val h"

section \<open>Interrupts\<close>

definition ar5416IsInterruptPending :: "'e io_env_scheme \<Rightarrow> 'a hal_scheme \<Rightarrow> bool \<times> 'a hal_scheme" where
  "ar5416IsInterruptPending env h =
     (let (host_isr, h) = ioread32_mac env AR_INTR_ASYNC_CAUSE h
      in (host_isr \<noteq> AR_INTR_SPURIOUS \<and> host_isr AND AR_INTR_MAC_IRQ \<noteq> 0, h))"

text \<open>The part of \<^verbatim>\<open>ar5416GetPendingInterrupts\<close> after the chip was found awake with a cause \<open>isr\<close>.\<close>

definition pending_misc :: "'e io_env_scheme \<Rightarrow> u32 \<Rightarrow> u32 \<Rightarrow> 'a hal_scheme \<Rightarrow> u32 \<times> 'a hal_scheme" where
  "pending_misc env isr masked h =
     (if isr AND 0x00800000 \<noteq> 0 then
        let (s2_s, h) = ioread32_mac env AR_ISR_S2_S h;
            masked = (if s2_s AND 0x00800000 \<noteq> 0 then masked OR HAL_INT_GTT else masked);
            masked = (if s2_s AND 0x00400000 \<noteq> 0 then masked OR HAL_INT_CST else masked)
        in (masked, h)
      else (masked, h))"

definition pending_tx :: "'e io_env_scheme \<Rightarrow> u32 \<Rightarrow> u32 \<Rightarrow> 'a hal_scheme \<Rightarrow> u32 \<times> 'a hal_scheme" where
  "pending_tx env isr masked h =
     (if isr AND (0x40 OR 0x80 OR 0x100 OR 0x400) \<noteq> 0 then
        let (s0_s, h) = ioread32_mac env AR_ISR_S0_S h;
            (s1_s, h) = ioread32_mac env AR_ISR_S1_S h;
            q = ah_intrTxqs h;
            q = q OR (s0_s AND 0x3FF);
            q = q OR drop_bit 16 (s0_s AND 0x03FF0000);
            q = q OR (s1_s AND 0x3FF);
            q = q OR drop_bit 16 (s1_s AND 0x03FF0000)
        in (masked OR HAL_INT_TX, h\<lparr>ah_intrTxqs := q\<rparr>)
      else (masked, h))"

definition clear_fatal :: "'e io_env_scheme \<Rightarrow> 'a hal_scheme \<Rightarrow> 'a hal_scheme" where
  "clear_fatal env h =
     (let (sync_cause, h) = ioread32_mac env AR_INTR_SYNC_CAUSE h in
      if sync_cause \<noteq> AR_INTR_SPURIOUS \<and> sync_cause AND (0x20 OR 0x40) \<noteq> 0
      then snd (ioread32_mac env AR_INTR_SYNC_CAUSE (iowrite32_mac AR_INTR_SYNC_CAUSE sync_cause h))
      else h)"

definition ar5416GetPendingInterrupts :: "'e io_env_scheme \<Rightarrow> 'a hal_scheme \<Rightarrow> bool \<times> u32 \<times> 'a hal_scheme" where
  "ar5416GetPendingInterrupts env h =
     (let (cause, h) = ioread32_mac env AR_INTR_ASYNC_CAUSE h in
      if cause AND AR_INTR_MAC_IRQ = 0 then (False, 0, h)
      else
        let (rtc, h) = ioread32_mac env AR_RTC_STATUS h in
        if rtc AND 0xf \<noteq> 0x2 then (False, 0, h)
        else
          let (isr, h) = ioread32_mac env AR_ISR_RAC h in
          if isr = 0xffffffff then (False, 0, h)
          else
            let masked = isr AND HAL_INT_COMMON;
                (masked, h) = pending_misc env isr masked h;
                masked = (if isr AND (0x1 OR 0x4) \<noteq> 0 then masked OR HAL_INT_RX else masked);
                (masked, h) = pending_tx env isr masked h
            in (True, masked, clear_fatal env h))"

definition imr_mask :: "u32 \<Rightarrow> u32" where
  "imr_mask ints =
     (let m = ints AND HAL_INT_COMMON;
          m = (if ints AND HAL_INT_TX \<noteq> 0 then m OR 0x40 OR 0x80 OR 0x100 OR 0x400 else m);
          m = (if ints AND HAL_INT_RX \<noteq> 0 then m OR 0x4 OR (0x1 OR 0x2) else m)
      in if ints AND (HAL_INT_GTT OR HAL_INT_CST) \<noteq> 0 then m OR 0x00800000 else m)"

definition ar5416SetInterrupts :: "'e io_env_scheme \<Rightarrow> u32 \<Rightarrow> 'a hal_scheme \<Rightarrow> u32 \<times> 'a hal_scheme" where
  "ar5416SetInterrupts env ints h =
     (let omask = ah_maskReg h;
          h = (if omask AND HAL_INT_GLOBAL \<noteq> 0 then snd (ioread32_mac env AR_IER (iowrite32_mac AR_IER 0 h)) else h);
          h = snd (ioread32_mac env AR_IMR (iowrite32_mac AR_IMR (imr_mask ints) h));
          h = h\<lparr>ah_maskReg := ints\<rparr>;
          h = (if ints AND HAL_INT_GLOBAL \<noteq> 0 then snd (ioread32_mac env AR_IER (iowrite32_mac AR_IER 1 h)) else h);
          h = iowrite32_mac AR_INTR_ASYNC_ENABLE AR_INTR_MAC_IRQ h;
          h = iowrite32_mac AR_INTR_ASYNC_MASK AR_INTR_MAC_IRQ h;
          h = iowrite32_mac AR_INTR_SYNC_ENABLE AR_INTR_SYNC_ALL h
      in (omask, h))"

section \<open>The clock\<close>

text \<open>The 64-bit clock is read in halves; the upper half is read until two reads agree, at most three times.\<close>

fun tsf_loop :: "'e io_env_scheme \<Rightarrow> nat \<Rightarrow> u32 \<Rightarrow> u32 \<times> u32 \<Rightarrow> 'a hal_scheme \<Rightarrow> (u32 \<times> u32) \<times> 'a hal_scheme" where
  "tsf_loop env 0 tsf_upper1 r h = (r, h)"
| "tsf_loop env (Suc n) tsf_upper1 r h =
     (let (tsf_lower, h) = ioread32_mac env AR_TSF_L32 h;
          (tsf_upper2, h) = ioread32_mac env AR_TSF_U32 h
      in if tsf_upper2 = tsf_upper1 then ((tsf_upper2, tsf_lower), h)
         else tsf_loop env n tsf_upper2 (tsf_upper2, tsf_lower) h)"

definition ar5416GetTsf64 :: "'e io_env_scheme \<Rightarrow> 'a hal_scheme \<Rightarrow> u64 \<times> 'a hal_scheme" where
  "ar5416GetTsf64 env h =
     (let (tsf_upper1, h) = ioread32_mac env AR_TSF_U32 h;
          ((tsf_upper2, tsf_lower), h) = tsf_loop env 3 tsf_upper1 (0, 0) h
      in (push_bit 32 (ucast tsf_upper2) OR ucast tsf_lower, h))"

section \<open>Receive\<close>

definition ar5416SetRxDP :: "u32 \<Rightarrow> 'a hal_scheme \<Rightarrow> 'a hal_scheme" where
  "ar5416SetRxDP rxdp h = iowrite32_mac AR_RXDP rxdp h"

definition ar5416StopDmaReceive :: "'e io_env_scheme \<Rightarrow> 'a hal_scheme \<Rightarrow> bool \<times> 'a hal_scheme" where
  "ar5416StopDmaReceive env h = ath_hal_wait env AR_CR AR_CR_RXE 0 (iowrite32_mac AR_CR AR_CR_RXD h)"

definition ar5416SetRxFilter :: "'e io_env_scheme \<Rightarrow> u32 \<Rightarrow> 'a hal_scheme \<Rightarrow> 'a hal_scheme" where
  "ar5416SetRxFilter env bits h =
     (let h = iowrite32_mac AR_RX_FILTER (bits AND 0xff OR 0x400) h;
          phybits = (if bits AND 0x200 \<noteq> 0 then 0x20 else 0);
          phybits = (if bits AND 0x100 \<noteq> 0 then phybits OR 0x00020000 OR 0x02000000 else phybits);
          h = iowrite32_mac AR_PHY_ERR phybits h;
          (v, h) = ioread32_mac env AR_RXCFG h
      in iowrite32_mac AR_RXCFG (if phybits \<noteq> 0 then v OR 0x10 else v AND NOT 0x10) h)"

definition ar5416EnableReceive :: "'a hal_scheme \<Rightarrow> 'a hal_scheme" where
  "ar5416EnableReceive h = iowrite32_mac AR_CR AR_CR_RXE h"

definition ar5416StopPcuReceive :: "'e io_env_scheme \<Rightarrow> 'a hal_scheme \<Rightarrow> 'a hal_scheme" where
  "ar5416StopPcuReceive env h = OS_REG_SET_BIT env AR_DIAG_SW 0x20 h"

section \<open>Transmit\<close>

definition MAX_TX_FIFO_THRESHOLD :: u32 where "MAX_TX_FIFO_THRESHOLD = 4096 div 64 - 1"

definition ar5416UpdateTxTrigLevel :: "'e io_env_scheme \<Rightarrow> bool \<Rightarrow> 'a hal_scheme \<Rightarrow> bool \<times> 'a hal_scheme" where
  "ar5416UpdateTxTrigLevel env bIncTrigLevel h =
     (let (omask, h) = ar5416SetInterrupts env (ah_maskReg h AND NOT HAL_INT_GLOBAL) h;
          (txcfg, h) = ioread32_mac env AR_TXCFG h;
          curLevel = drop_bit 4 (txcfg AND 0x3F0);
          newLevel =
            (if bIncTrigLevel then (if curLevel < MAX_TX_FIFO_THRESHOLD then curLevel + 1 else curLevel)
             else if curLevel > 1 then curLevel - 1 else curLevel);
          h = (if newLevel \<noteq> curLevel
               then iowrite32_mac AR_TXCFG (txcfg AND NOT 0x3F0 OR (push_bit 4 newLevel AND 0x3F0)) h else h);
          h = snd (ar5416SetInterrupts env omask h)
      in (newLevel \<noteq> curLevel, h))"

definition ar5416SetTxDP :: "u32 \<Rightarrow> u32 \<Rightarrow> 'a hal_scheme \<Rightarrow> 'a hal_scheme" where
  "ar5416SetTxDP q txdp h = iowrite32_mac (AR_QTXDP q) txdp h"

definition queue_bit :: "u32 \<Rightarrow> u32" where
  "queue_bit q = push_bit (unat q) 1"

definition ar5416StartTxDma :: "u32 \<Rightarrow> 'a hal_scheme \<Rightarrow> 'a hal_scheme" where
  "ar5416StartTxDma q h = iowrite32_mac AR_Q_TXE (queue_bit q) h"

definition ar5416NumTxPending :: "'e io_env_scheme \<Rightarrow> u32 \<Rightarrow> 'a hal_scheme \<Rightarrow> u32 \<times> 'a hal_scheme" where
  "ar5416NumTxPending env q h =
     (let (sts, h) = ioread32_mac env (AR_QSTS q) h; npend = sts AND 3 in
      if npend = 0 then
        let (txe, h) = ioread32_mac env AR_Q_TXE h in (if txe AND queue_bit q \<noteq> 0 then 1 else npend, h)
      else (npend, h))"

text \<open>Poll until the queue has nothing pending: \<open>True\<close> if it got there within \<open>n\<close> polls.\<close>

fun drain_poll :: "'e io_env_scheme \<Rightarrow> nat \<Rightarrow> nat \<Rightarrow> u32 \<Rightarrow> 'a hal_scheme \<Rightarrow> bool \<times> 'a hal_scheme" where
  "drain_poll env 0 usec q h = (False, h)"
| "drain_poll env (Suc n) usec q h =
     (let (np, h) = ar5416NumTxPending env q h in
      if np = 0 then (True, h) else drain_poll env n usec q (io (Udelay usec) h))"

definition ar5416StopTxDma :: "'e io_env_scheme \<Rightarrow> u32 \<Rightarrow> 'a hal_scheme \<Rightarrow> bool \<times> 'a hal_scheme" where
  "ar5416StopTxDma env q h =
     (let h = iowrite32_mac AR_Q_TXD (queue_bit q) h;
          (ok, h) = drain_poll env 1000 100 q h
      in (ok, iowrite32_mac AR_Q_TXD 0 h))"

fun abort_queues :: "'e io_env_scheme \<Rightarrow> u32 list \<Rightarrow> 'a hal_scheme \<Rightarrow> bool \<times> 'a hal_scheme" where
  "abort_queues env [] h = (True, h)"
| "abort_queues env (q # qs) h =
     (let (ok, h) = drain_poll env 1000 5 q h in if ok then abort_queues env qs h else (False, h))"

text \<open>A queue that does not drain ends the function at once: the abort bits stay set.\<close>

definition ar5416AbortTxDma :: "'e io_env_scheme \<Rightarrow> 'a hal_scheme \<Rightarrow> bool \<times> 'a hal_scheme" where
  "ar5416AbortTxDma env h =
     (let h = iowrite32_mac AR_Q_TXD 0x3FF h;
          h = OS_REG_SET_BIT env AR_PCU_MISC AR_PCU_QUIET_VMF h;
          h = OS_REG_SET_BIT env AR_DIAG_SW AR_DIAG_FORCE_CH_IDLE_HIGH h;
          h = OS_REG_SET_BIT env AR_D_GBL_IFS_MISC AR_IFS_IGNORE_BACKOFF h;
          (ok, h) = abort_queues env (map of_nat [0..<10]) h
      in if \<not> ok then (False, h)
         else
           let h = OS_REG_CLR_BIT env AR_PCU_MISC AR_PCU_QUIET_VMF h;
               h = OS_REG_CLR_BIT env AR_DIAG_SW AR_DIAG_FORCE_CH_IDLE_HIGH h;
               h = OS_REG_CLR_BIT env AR_D_GBL_IFS_MISC AR_IFS_IGNORE_BACKOFF h
           in (True, iowrite32_mac AR_Q_TXD 0 h))"

end
