(* ===== verification/Hal_Irq.thy ===== *)
theory Hal_Irq
  imports Hal_Reg
begin

text \<open>
  Properties of the register access (\<^verbatim>\<open>ar5416_hw.c\<close>): which interrupt causes can reach the driver, the
  64-bit clock, the transmit threshold, and the loops that stop transmit DMA.
\<close>

section \<open>What was done to the hardware\<close>

lemma io_log_io [simp]: "io_log (io a h) = io_log h @ [a]"
  by (simp add: io_def)

lemma maskReg_io [simp]: "ah_maskReg (io a h) = ah_maskReg h"
  by (simp add: io_def)

lemma read_simps [simp]:
  "fst (ioread32_mac env a h) = mac_val env (io_log h) a"
  "snd (ioread32_mac env a h) = io (Mac_Rd a) h"
  by (simp_all add: ioread32_mac_def)

text \<open>The accesses a computation adds to the log.\<close>

definition ops :: "'a hal_scheme \<Rightarrow> 'b hal_scheme \<Rightarrow> io_op list" where
  "ops h h' = drop (length (io_log h)) (io_log h')"

fun last_wr :: "u32 \<Rightarrow> io_op list \<Rightarrow> u32 option" where
  "last_wr r [] = None"
| "last_wr r (x # xs) = (case last_wr r xs of Some v \<Rightarrow> Some v
     | None \<Rightarrow> (case x of Mac_Wr a v \<Rightarrow> if a = r then Some v else None | _ \<Rightarrow> None))"

lemma last_wr_append:
  "last_wr r (xs @ ys) = (case last_wr r ys of Some v \<Rightarrow> Some v | None \<Rightarrow> last_wr r xs)"
  by (induction xs) (auto split: option.splits)

lemma last_wr_snoc_simps [simp]:
  "last_wr r (xs @ [Mac_Wr a v]) = (if a = r then Some v else last_wr r xs)"
  "last_wr r (xs @ [Mac_Rd a]) = last_wr r xs"
  "last_wr r (xs @ [Udelay n]) = last_wr r xs"
  by (simp_all add: last_wr_append)

fun delay :: "io_op list \<Rightarrow> nat" where
  "delay [] = 0"
| "delay (Udelay n # xs) = n + delay xs"
| "delay (_ # xs) = delay xs"

lemma delay_append [simp]: "delay (xs @ ys) = delay xs + delay ys"
  by (induction xs rule: delay.induct) simp_all

section \<open>Causes\<close>

text \<open>The cause for which the interrupt handler has a branch but the hardware layer no way to report it.\<close>

definition unreported :: u32 where
  "unreported = HAL_INT_FATAL"

lemma or_masked: "(x OR y) AND m = (0 :: u32) \<longleftrightarrow> x AND m = 0 \<and> y AND m = 0"
  by (simp add: bit.conj_disj_distrib2 or_eq_0_iff)

lemma unreported_simps [simp]:
  "HAL_INT_COMMON AND unreported = 0" "(x AND HAL_INT_COMMON) AND unreported = 0"
  "HAL_INT_GTT AND unreported = 0" "HAL_INT_CST AND unreported = 0"
  "even unreported" "HAL_INT_TX AND unreported = 0"
  by (simp_all add: unreported_def HAL_INT_COMMON_def and.assoc)

lemma pending_misc_masked:
  assumes "masked AND unreported = 0"
  shows "fst (pending_misc env isr masked h) AND unreported = 0"
  using assms by (simp add: pending_misc_def Let_def case_prod_beta or_masked)

lemma pending_tx_masked:
  assumes "masked AND unreported = 0"
  shows "fst (pending_tx env isr masked h) AND unreported = 0"
  using assms by (simp add: pending_tx_def Let_def case_prod_beta or_masked)

lemma or_rx_masked: "masked AND unreported = 0 \<Longrightarrow> (masked OR HAL_INT_RX) AND unreported = 0"
  unfolding or_masked by (simp add: unreported_def)

lemma pending_masked: "fst (snd (ar5416GetPendingInterrupts env h)) AND unreported = 0"
  unfolding ar5416GetPendingInterrupts_def Let_def case_prod_beta
  by (simp add: pending_tx_masked pending_misc_masked or_rx_masked)

lemma imr_mask_dead: "imr_mask (ints OR unreported) = imr_mask ints"
proof -
  have m: "(ints OR unreported) AND k = ints AND k" if "unreported AND k = 0" for k
    using that by (simp add: bit.conj_disj_distrib2)
  have "unreported AND HAL_INT_COMMON = 0"
    by (simp add: unreported_def HAL_INT_COMMON_def)
  moreover have "unreported AND HAL_INT_TX = 0" "unreported AND HAL_INT_RX = 0"
    "unreported AND (HAL_INT_GTT OR HAL_INT_CST) = 0"
    by (simp_all add: unreported_def)
  ultimately show ?thesis
    unfolding imr_mask_def by (simp only: m)
qed

lemma SetInterrupts_imr: "last_wr AR_IMR (ops h (snd (ar5416SetInterrupts env i h))) = Some (imr_mask i)"
  by (simp add: ar5416SetInterrupts_def ops_def Let_def)

text \<open>
  A fatal bus error cannot reach the driver: the causes that \<^verbatim>\<open>ar5416GetPendingInterrupts\<close>
  reports never contain the bit for which the interrupt handler schedules its fatal tasklet, and asking for
  it does not change the mask that \<^verbatim>\<open>ar5416SetInterrupts\<close> writes.
\<close>

theorem fatal_never_reported:
  "fst (snd (ar5416GetPendingInterrupts env h)) AND HAL_INT_FATAL = 0 \<and>
   last_wr AR_IMR (ops h (snd (ar5416SetInterrupts env (ints OR HAL_INT_FATAL) h))) =
     last_wr AR_IMR (ops h (snd (ar5416SetInterrupts env ints h)))"
  unfolding SetInterrupts_imr unreported_def [symmetric] imr_mask_dead
  by (simp add: pending_masked)

section \<open>The clock\<close>

text \<open>The registers show the halves of a 64-bit clock \<open>T\<close>, which may move on between two accesses.\<close>

definition tsf_clock :: "'e io_env_scheme \<Rightarrow> (nat \<Rightarrow> nat) \<Rightarrow> bool" where
  "tsf_clock env T \<longleftrightarrow> mono T \<and> (\<forall>n. T n < 2 ^ 64) \<and>
     (\<forall>log. mac_val env log AR_TSF_L32 = of_nat (T (length log)) \<and>
            mac_val env log AR_TSF_U32 = of_nat (T (length log) div 2 ^ 32))"

lemma join_halves:
  assumes "t < 2 ^ 64" "u = t div 2 ^ 32"
  shows "push_bit 32 (ucast (of_nat u :: u32)) OR ucast (of_nat t :: u32) = (of_nat t :: u64)"
proof -
  have "take_bit 32 (of_nat t :: u64) OR push_bit 32 (drop_bit 32 (of_nat t)) = of_nat t"
    by (rule bit_word_eqI) (auto simp: bit_simps)
  moreover have "ucast (of_nat t :: u32) = take_bit 32 (of_nat t :: u64)"
    by (rule bit_word_eqI) (auto simp: bit_simps)
  moreover have "ucast (of_nat u :: u32) = (drop_bit 32 (of_nat t) :: u64)"
  proof -
    have "u = drop_bit 32 (take_bit 64 t)"
      using assms by (simp add: drop_bit_eq_div take_bit_nat_eq_self)
    then show ?thesis
      by (intro bit_word_eqI) (auto simp: bit_simps simp del: of_nat_take_bit of_nat_drop_bit)
  qed
  ultimately show ?thesis by (simp add: or.commute)
qed

lemma upper_eq:
  assumes "a < 2 ^ 64" "b < 2 ^ 64"
  shows "(of_nat (a div 2 ^ 32) :: u32) = of_nat (b div 2 ^ 32) \<longleftrightarrow> a div 2 ^ 32 = b div (2 ^ 32 :: nat)"
proof -
  have "a div 2 ^ 32 < 2 ^ 32" "b div 2 ^ 32 < (2 ^ 32 :: nat)"
    using assms by (simp_all add: less_mult_imp_div_less)
  then show ?thesis by (auto simp: word_of_nat_eq_iff take_bit_nat_eq_self)
qed

text \<open>
  Property C24. The clock is read in halves, and the result is a value the clock had during the call, provided
  that it advances by less than \<open>2 ^ 32\<close> between the first and the last of the seven accesses.
\<close>

theorem ar5416GetTsf64_exact:
  assumes "tsf_clock env T" "T (length (io_log h) + 6) < T (length (io_log h)) + 2 ^ 32"
  shows "\<exists>k. k \<le> 6 \<and> fst (ar5416GetTsf64 env h) = of_nat (T (length (io_log h) + k))"
proof -
  let ?n = "length (io_log h)"
  let ?u = "\<lambda>k. T (?n + k) div 2 ^ 32"
  have lt: "T k < 2 ^ 64" for k using assms(1) by (simp add: tsf_clock_def)
  have "mono T" using assms(1) by (simp add: tsf_clock_def)
  then have m: "?u i \<le> ?u j" if "i \<le> j" for i j
    using that by (intro div_le_mono monoD [of T]) simp_all
  have w: "(of_nat (?u i) :: u32) = of_nat (?u j) \<longleftrightarrow> ?u i = ?u j" for i j
    by (rule upper_eq [OF lt lt])
  have r: "mac_val env log AR_TSF_L32 = of_nat (T (length log))"
    "mac_val env log AR_TSF_U32 = of_nat (T (length log) div 2 ^ 32)" for log
    using assms(1) by (simp_all add: tsf_clock_def)
  have last: "?u 6 \<le> ?u 0 + 1"
    using div_le_mono [of "T (?n + 6)" "T ?n + 2 ^ 32" "2 ^ 32"] assms(2) by simp
  show ?thesis
  proof (cases "?u 2 = ?u 0")
    case True
    then have "?u 2 = ?u 1" using m [of 0 1] m [of 1 2] by simp
    then have "fst (ar5416GetTsf64 env h) = of_nat (T (?n + 1))"
      using True join_halves [OF lt, of "?u 2" "?n + 1"] w [of 2 0]
      by (simp add: ar5416GetTsf64_def numeral_3_eq_3 Let_def case_prod_beta r add.commute)
    then show ?thesis by (intro exI [of _ 1]) simp
  next
    case False
    have n4: "?n + 4 = Suc (Suc (Suc (Suc ?n)))" by simp
    from False have "?u 4 = ?u 2" "?u 3 = ?u 2"
      using m [of 0 2] m [of 2 3] m [of 3 4] m [of 4 6] last by simp_all
    then have "fst (ar5416GetTsf64 env h) = of_nat (T (?n + 3))"
      using False join_halves [OF lt, of "?u 4" "?n + 3"] w [of 2 0] w [of 4 2] n4
      by (simp add: ar5416GetTsf64_def numeral_3_eq_3 Let_def case_prod_beta r add.commute)
    then show ?thesis by (intro exI [of _ 3]) simp
  qed
qed

text \<open>A clock whose lower half wraps around after the second access.\<close>

definition wrap_clock :: "nat \<Rightarrow> nat" where
  "wrap_clock n = min (4294967294 + n) 18446744073709551615"

definition io_wrap :: io_env where
  "io_wrap = \<lparr>mac_val = (\<lambda>log a. if a = AR_TSF_L32 then of_nat (wrap_clock (length log))
     else of_nat (wrap_clock (length log) div 2 ^ 32)), soc_val = (\<lambda>_ _. 0)\<rparr>"

definition hal0 :: hal where
  "hal0 = \<lparr>io_log = [], ah_maskReg = 0, ah_intrTxqs = 0\<rparr>"

theorem ar5416GetTsf64_exact_witness:
  "\<exists>k. k \<le> 6 \<and> fst (ar5416GetTsf64 io_wrap hal0) = of_nat (wrap_clock (0 + k))"
proof -
  have "tsf_clock io_wrap wrap_clock"
    by (auto simp: tsf_clock_def io_wrap_def wrap_clock_def mono_def min_def)
  then show ?thesis
    using ar5416GetTsf64_exact [of io_wrap wrap_clock hal0] by (simp add: hal0_def wrap_clock_def)
qed

section \<open>The transmit threshold\<close>

definition trig_level :: "u32 \<Rightarrow> u32" where
  "trig_level txcfg = drop_bit 4 (txcfg AND 0x3F0)"

lemma ftrig_mask: "(0x3F0 :: u32) = push_bit 4 (mask 6)"
  by (simp add: mask_eq_exp_minus_1)

lemma trig_level_less: "trig_level v < 64"
proof -
  have "trig_level v = take_bit 6 (drop_bit 4 v)"
    unfolding trig_level_def ftrig_mask by (rule bit_word_eqI) (auto simp: bit_simps)
  then show ?thesis by (simp add: take_bit_eq_mod word_mod_less_divisor)
qed

lemma trig_level_set:
  assumes "n < 64"
  shows "trig_level (v AND NOT 0x3F0 OR (push_bit 4 n AND 0x3F0)) = n"
    "(v AND NOT 0x3F0 OR (push_bit 4 n AND 0x3F0)) AND NOT 0x3F0 = v AND NOT 0x3F0"
proof -
  have "take_bit 6 n = n"
    using assms by (simp add: take_bit_eq_mod mod_word_less)
  moreover have "trig_level (v AND NOT 0x3F0 OR (push_bit 4 n AND 0x3F0)) = take_bit 6 n"
    unfolding trig_level_def ftrig_mask by (rule bit_word_eqI) (auto simp: bit_simps)
  ultimately show "trig_level (v AND NOT 0x3F0 OR (push_bit 4 n AND 0x3F0)) = n" by simp
  show "(v AND NOT 0x3F0 OR (push_bit 4 n AND 0x3F0)) AND NOT 0x3F0 = v AND NOT 0x3F0"
    unfolding ftrig_mask by (rule bit_word_eqI) (auto simp: bit_simps)
qed

definition irq_ops :: "u32 \<Rightarrow> u32 \<Rightarrow> io_op list" where
  "irq_ops omask ints =
     (if omask AND HAL_INT_GLOBAL \<noteq> 0 then [Mac_Wr AR_IER 0, Mac_Rd AR_IER] else []) @
     [Mac_Wr AR_IMR (imr_mask ints), Mac_Rd AR_IMR] @
     (if ints AND HAL_INT_GLOBAL \<noteq> 0 then [Mac_Wr AR_IER 1, Mac_Rd AR_IER] else []) @
     [Mac_Wr AR_INTR_ASYNC_ENABLE AR_INTR_MAC_IRQ, Mac_Wr AR_INTR_ASYNC_MASK AR_INTR_MAC_IRQ,
      Mac_Wr AR_INTR_SYNC_ENABLE AR_INTR_SYNC_ALL]"

lemma SetInterrupts_eqs:
  "fst (ar5416SetInterrupts env i h) = ah_maskReg h"
  "ah_maskReg (snd (ar5416SetInterrupts env i h)) = i"
  "io_log (snd (ar5416SetInterrupts env i h)) = io_log h @ irq_ops (ah_maskReg h) i"
  by (simp_all add: ar5416SetInterrupts_def irq_ops_def Let_def)

lemma irq_ops_wr [simp]: "last_wr AR_TXCFG (irq_ops a b) = None"
  by (simp add: irq_ops_def)

definition next_level :: "bool \<Rightarrow> u32 \<Rightarrow> u32" where
  "next_level inc c = (if inc then (if c < 63 then c + 1 else c) else if c > 1 then c - 1 else c)"

lemma next_level:
  assumes "c < 64"
  shows "next_level inc c < 64"
    "next_level inc c = c \<Longrightarrow> if inc then c = 63 else c \<le> 1"
    "next_level inc c \<noteq> c \<Longrightarrow> 1 \<le> next_level inc c \<and> next_level inc c \<le> 63 \<and>
       c = (if inc then next_level inc c - 1 else next_level inc c + 1)"
proof -
  have c: "unat c < 64" using assms by (simp add: word_less_nat_alt)
  show "next_level inc c < 64"
    using c by (auto simp: next_level_def word_less_nat_alt unat_word_ariths unat_sub_if')
  show "next_level inc c = c \<Longrightarrow> if inc then c = 63 else c \<le> 1"
    using c by (auto simp: next_level_def word_less_nat_alt word_le_nat_alt unat_eq_iff unat_word_ariths
        unat_sub_if' split: if_splits)
  show "next_level inc c \<noteq> c \<Longrightarrow> 1 \<le> next_level inc c \<and> next_level inc c \<le> 63 \<and>
       c = (if inc then next_level inc c - 1 else next_level inc c + 1)"
    using c by (auto simp: next_level_def word_less_nat_alt word_le_nat_alt unat_word_ariths unat_sub_if' split: if_splits)
qed

lemma UpdateTxTrigLevel_eqs:
  fixes env :: "'e io_env_scheme" and h :: "'a hal_scheme"
  defines "v \<equiv> mac_val env (io_log h @ irq_ops (ah_maskReg h) (ah_maskReg h AND NOT HAL_INT_GLOBAL)) AR_TXCFG"
  shows "ah_maskReg (snd (ar5416UpdateTxTrigLevel env inc h)) = ah_maskReg h"
    "fst (ar5416UpdateTxTrigLevel env inc h) \<longleftrightarrow> next_level inc (trig_level v) \<noteq> trig_level v"
    "last_wr AR_TXCFG (ops h (snd (ar5416UpdateTxTrigLevel env inc h))) =
      (if next_level inc (trig_level v) \<noteq> trig_level v
       then Some (v AND NOT 0x3F0 OR (push_bit 4 (next_level inc (trig_level v)) AND 0x3F0)) else None)"
  unfolding v_def ar5416UpdateTxTrigLevel_def MAX_TX_FIFO_THRESHOLD_def next_level_def trig_level_def
  by (simp_all add: Let_def case_prod_beta SetInterrupts_eqs ops_def last_wr_append)

text \<open>
  The transmit threshold moves by one step at a time inside its bounds 1 to 63, no other bit of
  the configuration register changes, nothing is written when the bound is reached, and the interrupt mask is
  what it was before.
\<close>

theorem ar5416UpdateTxTrigLevel_step:
  "\<exists>log. let v = mac_val env log AR_TXCFG; (changed, h') = ar5416UpdateTxTrigLevel env inc h in
     ah_maskReg h' = ah_maskReg h \<and>
     (case last_wr AR_TXCFG (ops h h') of
        None \<Rightarrow> \<not> changed \<and> (if inc then trig_level v = 63 else trig_level v \<le> 1)
      | Some w \<Rightarrow> changed \<and> w AND NOT 0x3F0 = v AND NOT 0x3F0 \<and> 1 \<le> trig_level w \<and> trig_level w \<le> 63 \<and>
          trig_level v = (if inc then trig_level w - 1 else trig_level w + 1))"
proof (intro exI)
  let ?log = "io_log h @ irq_ops (ah_maskReg h) (ah_maskReg h AND NOT HAL_INT_GLOBAL)"
  define v where "v = mac_val env ?log AR_TXCFG"
  define n where "n = next_level inc (trig_level v)"
  note eqs = UpdateTxTrigLevel_eqs [where env = env and h = h and inc = inc, folded v_def, folded n_def]
  note n = next_level [OF trig_level_less, of inc v, folded n_def]
  note w = trig_level_set [OF n(1), of v]
  show "let v = mac_val env ?log AR_TXCFG; (changed, h') = ar5416UpdateTxTrigLevel env inc h in
     ah_maskReg h' = ah_maskReg h \<and>
     (case last_wr AR_TXCFG (ops h h') of
        None \<Rightarrow> \<not> changed \<and> (if inc then trig_level v = 63 else trig_level v \<le> 1)
      | Some w \<Rightarrow> changed \<and> w AND NOT 0x3F0 = v AND NOT 0x3F0 \<and> 1 \<le> trig_level w \<and> trig_level w \<le> 63 \<and>
          trig_level v = (if inc then trig_level w - 1 else trig_level w + 1))"
    unfolding v_def [symmetric] Let_def case_prod_beta eqs
    using n(2) n(3) by (cases "n = trig_level v") ((simp_all only: w if_True if_False not_not simp_thms option.case; fail) |
        (simp only: w if_True if_False not_not simp_thms option.case, blast))+
qed

section \<open>Stopping transmit DMA\<close>

lemma NumTxPending_log:
  "\<exists>xs. io_log (snd (ar5416NumTxPending env q h)) = io_log h @ xs \<and> delay xs = 0 \<and> (\<forall>r. last_wr r xs = None)"
  by (simp add: ar5416NumTxPending_def Let_def case_prod_beta)

text \<open>A poll of queue \<open>q\<close> that finds nothing pending and the queue not enabled.\<close>

definition idle_seen :: "'e io_env_scheme \<Rightarrow> u32 \<Rightarrow> bool" where
  "idle_seen env q \<longleftrightarrow> (\<exists>log. mac_val env log (AR_QSTS q) AND 3 = 0 \<and>
     mac_val env (log @ [Mac_Rd (AR_QSTS q)]) AR_Q_TXE AND queue_bit q = 0)"

lemma drain_poll_log:
  "\<exists>xs. io_log (snd (drain_poll env n usec q h)) = io_log h @ xs \<and> (\<forall>r. last_wr r xs = None) \<and>
     delay xs \<le> n * usec \<and> (\<not> fst (drain_poll env n usec q h) \<longrightarrow> delay xs = n * usec) \<and>
     (fst (drain_poll env n usec q h) \<longrightarrow> idle_seen env q)"
proof (induction n arbitrary: h)
  case (Suc n)
  let ?r = "ar5416NumTxPending env q h"
  obtain xs where xs: "io_log (snd ?r) = io_log h @ xs" "delay xs = 0" "\<forall>r. last_wr r xs = None"
    using NumTxPending_log [of env q h] by blast
  show ?case
  proof (cases "fst ?r = 0")
    case True
    then have "idle_seen env q"
      unfolding idle_seen_def ar5416NumTxPending_def
      by (intro exI [of _ "io_log h"]) (simp add: Let_def case_prod_beta split: if_splits)
    then show ?thesis using True xs by (simp add: Let_def case_prod_beta)
  next
    case False
    let ?h = "io (Udelay usec) (snd ?r)"
    obtain ys where ys: "io_log (snd (drain_poll env n usec q ?h)) = io_log ?h @ ys" "\<forall>r. last_wr r ys = None"
      "delay ys \<le> n * usec" "\<not> fst (drain_poll env n usec q ?h) \<longrightarrow> delay ys = n * usec"
      "fst (drain_poll env n usec q ?h) \<longrightarrow> idle_seen env q"
      using Suc.IH [of ?h] by blast
    show ?thesis using False xs ys
      by (intro exI [of _ "xs @ [Udelay usec] @ ys"]) (auto simp: Let_def case_prod_beta last_wr_append)
  qed
qed simp

text \<open>
  Stopping the DMA of a queue always ends, within a tenth of a second of waiting, always takes the
  disable request back, and reports success only when a poll found the queue idle.
\<close>

theorem ar5416StopTxDma_ends:
  "let (ok, h') = ar5416StopTxDma env q h in
     last_wr AR_Q_TXD (ops h h') = Some 0 \<and> delay (ops h h') \<le> 100000 \<and>
     (if ok then idle_seen env q else delay (ops h h') = 100000)"
proof -
  let ?h = "iowrite32_mac AR_Q_TXD (queue_bit q) h"
  obtain xs where "io_log (snd (drain_poll env 1000 100 q ?h)) = io_log ?h @ xs" "\<forall>r. last_wr r xs = None"
    "delay xs \<le> 1000 * 100" "\<not> fst (drain_poll env 1000 100 q ?h) \<longrightarrow> delay xs = 1000 * 100"
    "fst (drain_poll env 1000 100 q ?h) \<longrightarrow> idle_seen env q"
    using drain_poll_log [of env 1000 100 q ?h] by blast
  then show ?thesis
    unfolding ar5416StopTxDma_def Let_def case_prod_beta by (simp add: ops_def last_wr_append)
qed

lemma abort_queues_log:
  "\<exists>xs. io_log (snd (abort_queues env qs h)) = io_log h @ xs \<and> (\<forall>r. last_wr r xs = None) \<and>
     delay xs \<le> length qs * 5000 \<and> (fst (abort_queues env qs h) \<longrightarrow> (\<forall>q\<in>set qs. idle_seen env q))"
proof (induction qs arbitrary: h)
  case (Cons q qs)
  let ?r = "drain_poll env 1000 5 q h"
  obtain xs where xs: "io_log (snd ?r) = io_log h @ xs" "\<forall>r. last_wr r xs = None"
    "delay xs \<le> 5000" "fst ?r \<longrightarrow> idle_seen env q"
    using drain_poll_log [of env 1000 5 q h] by auto
  obtain ys where ys: "io_log (snd (abort_queues env qs (snd ?r))) = io_log (snd ?r) @ ys"
    "\<forall>r. last_wr r ys = None" "delay ys \<le> length qs * 5000"
    "fst (abort_queues env qs (snd ?r)) \<longrightarrow> (\<forall>q\<in>set qs. idle_seen env q)"
    using Cons.IH [of "snd ?r"] by blast
  show ?case
  proof (cases "fst ?r")
    case True
    then show ?thesis using xs ys
      by (intro exI [of _ "xs @ ys"]) (auto simp: Let_def case_prod_beta last_wr_append)
  next
    case False
    then show ?thesis using xs
      by (intro exI [of _ xs]) (auto simp: Let_def case_prod_beta)
  qed
qed simp

lemma reg_rmw_simps [simp]:
  "io_log (OS_REG_SET_BIT env r f h) = io_log h @ [Mac_Rd r, Mac_Wr r (mac_val env (io_log h) r OR f)]"
  "io_log (OS_REG_CLR_BIT env r f h) = io_log h @ [Mac_Rd r, Mac_Wr r (mac_val env (io_log h) r AND NOT f)]"
  by (simp_all add: OS_REG_SET_BIT_def OS_REG_CLR_BIT_def Let_def case_prod_beta)

text \<open>
  Aborting all transmit DMA ends after at most fifty milliseconds of waiting. When every queue was
  found idle the disable request and the forced idle channel are taken back; when one was not, both stay in
  force: all ten queues stay disabled and the channel stays forced idle.
\<close>

theorem ar5416AbortTxDma_ends:
  "let (ok, h') = ar5416AbortTxDma env h in
     delay (ops h h') \<le> 50000 \<and>
     (if ok then list_all (\<lambda>q. idle_seen env (of_nat q)) [0..<10] \<and> last_wr AR_Q_TXD (ops h h') = Some 0 \<and>
        (\<exists>v. last_wr AR_DIAG_SW (ops h h') = Some (v AND NOT AR_DIAG_FORCE_CH_IDLE_HIGH))
      else last_wr AR_Q_TXD (ops h h') = Some 0x3FF \<and>
        (\<exists>v. last_wr AR_DIAG_SW (ops h h') = Some (v OR AR_DIAG_FORCE_CH_IDLE_HIGH)))"
proof -
  let ?h = "OS_REG_SET_BIT env AR_D_GBL_IFS_MISC AR_IFS_IGNORE_BACKOFF
      (OS_REG_SET_BIT env AR_DIAG_SW AR_DIAG_FORCE_CH_IDLE_HIGH
        (OS_REG_SET_BIT env AR_PCU_MISC AR_PCU_QUIET_VMF (iowrite32_mac AR_Q_TXD 0x3FF h)))"
  let ?r = "abort_queues env (map of_nat [0..<10]) ?h"
  obtain xs where xs: "io_log (snd ?r) = io_log ?h @ xs" "\<forall>r. last_wr r xs = None" "delay xs \<le> 50000"
    "fst ?r \<longrightarrow> (\<forall>q\<in>set (map of_nat [0..<10]). idle_seen env q)"
    using abort_queues_log [of env "map of_nat [0..<10]" ?h] by auto
  show ?thesis
  proof (cases "fst ?r")
    case True
    then have "list_all (\<lambda>q. idle_seen env (of_nat q)) [0..<10]"
      using xs(4) by (simp only: set_map set_upt list_all_iff) blast
    moreover have "fst (ar5416AbortTxDma env h)" "last_wr AR_Q_TXD (ops h (snd (ar5416AbortTxDma env h))) = Some 0"
      "delay (ops h (snd (ar5416AbortTxDma env h))) \<le> 50000"
      "\<exists>v. last_wr AR_DIAG_SW (ops h (snd (ar5416AbortTxDma env h))) = Some (v AND NOT AR_DIAG_FORCE_CH_IDLE_HIGH)"
      using True xs
      unfolding ar5416AbortTxDma_def Let_def case_prod_beta
      by (simp_all add: ops_def last_wr_append del: upt.simps) blast?
    ultimately show ?thesis unfolding Let_def case_prod_beta by (simp only: if_True simp_thms)
  next
    case False
    then have "\<not> fst (ar5416AbortTxDma env h)" "last_wr AR_Q_TXD (ops h (snd (ar5416AbortTxDma env h))) = Some 0x3FF"
      "delay (ops h (snd (ar5416AbortTxDma env h))) \<le> 50000"
      "\<exists>v. last_wr AR_DIAG_SW (ops h (snd (ar5416AbortTxDma env h))) = Some (v OR AR_DIAG_FORCE_CH_IDLE_HIGH)"
      using xs
      unfolding ar5416AbortTxDma_def Let_def case_prod_beta
      by (simp_all add: ops_def last_wr_append del: upt.simps) blast?
    then show ?thesis unfolding Let_def case_prod_beta by simp
  qed
qed

end
