(* ===== verification/Hal_Desc.thy ===== *)
theory Hal_Desc
  imports Hal_Reg
begin

text \<open>
  The DMA descriptors of the wireless MAC (\<^verbatim>\<open>ar5416desc.h\<close>, \<^verbatim>\<open>ar5416_hw.c\<close>): control words the driver
  writes and status words the hardware writes. A field of a word is given by its mask and its shift, as the
  macros \<^verbatim>\<open>SM\<close> and \<^verbatim>\<open>MS\<close> take it.
\<close>

section \<open>Fields\<close>

type_synonym field = "u32 \<times> nat"

definition SM :: "u32 \<Rightarrow> field \<Rightarrow> u32" where
  "SM v f = push_bit (snd f) v AND fst f"

definition MS :: "u32 \<Rightarrow> field \<Rightarrow> u32" where
  "MS v f = drop_bit (snd f) (v AND fst f)"

abbreviation (input) AR_FrameLen :: u32 where "AR_FrameLen \<equiv> 0x00000fff"
abbreviation (input) AR_VirtMoreFrag :: u32 where "AR_VirtMoreFrag \<equiv> 0x00001000"
abbreviation (input) AR_XmitPower :: field where "AR_XmitPower \<equiv> (0x003f0000, 16)"
abbreviation (input) AR_RTSEnable :: u32 where "AR_RTSEnable \<equiv> 0x00400000"
abbreviation (input) AR_VEOL :: u32 where "AR_VEOL \<equiv> 0x00800000"
abbreviation (input) AR_ClrDestMask :: u32 where "AR_ClrDestMask \<equiv> 0x01000000"
abbreviation (input) AR_TxIntrReq :: u32 where "AR_TxIntrReq \<equiv> 0x20000000"
abbreviation (input) AR_DestIdxValid :: u32 where "AR_DestIdxValid \<equiv> 0x40000000"
abbreviation (input) AR_CTSEnable :: u32 where "AR_CTSEnable \<equiv> 0x80000000"
abbreviation (input) AR_BufLen :: u32 where "AR_BufLen \<equiv> 0x00000fff"
abbreviation (input) AR_TxMore :: u32 where "AR_TxMore \<equiv> 0x00001000"
abbreviation (input) AR_DestIdx :: field where "AR_DestIdx \<equiv> (0x000fe000, 13)"
abbreviation (input) AR_FrameType :: field where "AR_FrameType \<equiv> (0x00f00000, 20)"
abbreviation (input) AR_NoAck :: u32 where "AR_NoAck \<equiv> 0x01000000"
abbreviation (input) AR_ExtOnly :: u32 where "AR_ExtOnly \<equiv> 0x08000000"
abbreviation (input) AR_ExtAndCtl :: u32 where "AR_ExtAndCtl \<equiv> 0x10000000"
abbreviation (input) AR_MoreAggr :: u32 where "AR_MoreAggr \<equiv> 0x20000000"
abbreviation (input) AR_IsAggr :: u32 where "AR_IsAggr \<equiv> 0x40000000"
abbreviation (input) AR_BurstDur :: field where "AR_BurstDur \<equiv> (0x00007fff, 0)"
abbreviation (input) AR_DurUpdateEn :: u32 where "AR_DurUpdateEn \<equiv> 0x00008000"
abbreviation (input) AR_AggrLen :: field where "AR_AggrLen \<equiv> (0x0000ffff, 0)"
abbreviation (input) AR_PadDelim :: field where "AR_PadDelim \<equiv> (0x03fc0000, 18)"
abbreviation (input) AR_EncrType :: field where "AR_EncrType \<equiv> (0x1c000000, 26)"
abbreviation (input) AR_RTSCTSRate :: field where "AR_RTSCTSRate \<equiv> (0x0ff00000, 20)"
abbreviation (input) AR_TxDone :: u32 where "AR_TxDone \<equiv> 0x00000001"
abbreviation (input) AR_SeqNum :: field where "AR_SeqNum \<equiv> (0x00001ffe, 1)"
abbreviation (input) AR_FinalTxIdx :: field where "AR_FinalTxIdx \<equiv> (0x00600000, 21)"
abbreviation (input) AR_RTSFailCnt :: field where "AR_RTSFailCnt \<equiv> (0x000000f0, 4)"
abbreviation (input) AR_DataFailCnt :: field where "AR_DataFailCnt \<equiv> (0x00000f00, 8)"
abbreviation (input) AR_VirtRetryCnt :: field where "AR_VirtRetryCnt \<equiv> (0x0000f000, 12)"
abbreviation (input) AR_Byte0 :: field where "AR_Byte0 \<equiv> (0x000000ff, 0)"
abbreviation (input) AR_Byte1 :: field where "AR_Byte1 \<equiv> (0x0000ff00, 8)"
abbreviation (input) AR_Byte2 :: field where "AR_Byte2 \<equiv> (0x00ff0000, 16)"
abbreviation (input) AR_Byte3 :: field where "AR_Byte3 \<equiv> (0xff000000, 24)"
abbreviation (input) AR_RxDone :: u32 where "AR_RxDone \<equiv> 0x00000001"
abbreviation (input) AR_RxFrameOK :: u32 where "AR_RxFrameOK \<equiv> 0x00000002"

text \<open>The fields of the four rate series.\<close>

definition AR_XmitDataTries :: "field list" where
  "AR_XmitDataTries = [(0x000f0000, 16), (0x00f00000, 20), (0x0f000000, 24), (0xf0000000, 28)]"

definition AR_XmitRate :: "field list" where
  "AR_XmitRate = [(0x000000ff, 0), (0x0000ff00, 8), (0x00ff0000, 16), (0xff000000, 24)]"

definition AR_PacketDur :: "field list" where
  "AR_PacketDur = [(0x00007fff, 0), (0x7fff0000, 16), (0x00007fff, 0), (0x7fff0000, 16)]"

definition AR_RTSCTSQual :: "u32 list" where
  "AR_RTSCTSQual = [0x00008000, 0x80000000, 0x00008000, 0x80000000]"

definition AR_2040_bits :: "u32 list" where
  "AR_2040_bits = [0x00000001, 0x00000020, 0x00000400, 0x00008000]"

definition AR_GI_bits :: "u32 list" where
  "AR_GI_bits = [0x00000002, 0x00000040, 0x00000800, 0x00010000]"

definition AR_STBC_bits :: "u32 list" where
  "AR_STBC_bits = [0x10000000, 0x20000000, 0x40000000, 0x80000000]"

definition AR_ChainSel :: "field list" where
  "AR_ChainSel = [(0x0000001c, 2), (0x00000380, 7), (0x00007000, 12), (0x000e0000, 17)]"

section \<open>Descriptors\<close>

text \<open>
  \<^verbatim>\<open>struct ar5416_desc_20\<close>, the transmit view. The receive view of the union starts at \<^verbatim>\<open>ctl2\<close>; a descriptor
  belongs to one of the two rings for good, so the views are two records.
\<close>

record ar5416_desc =
  ds_ctl0 :: u32
  ds_ctl1 :: u32
  ds_ctl2 :: u32
  ds_ctl3 :: u32
  ds_ctl4 :: u32
  ds_ctl5 :: u32
  ds_ctl6 :: u32
  ds_ctl7 :: u32
  ds_txstatus :: "u32 list"

record ar5416_rxdesc =
  rx_ctl0 :: u32
  rx_ctl1 :: u32
  ds_rxstatus :: "u32 list"

record hw_tx_status = ath_tx_status +
  ts_tstamp :: u32
  ts_rssi :: "u32 list"
  ts_virtcol :: u8
  ts_antenna :: u8
  ts_evm :: "u32 list"

record ath_rx_status =
  rs_tstamp :: u64
  rs_datalen :: u16
  rs_status :: u8
  rs_phyerr :: u8
  rs_rssi_combined :: u8
  rs_rssi_ctl :: "u8 list"
  rs_rssi_ext :: "u8 list"
  rs_keyix :: u8
  rs_rate :: u8
  rs_antenna :: u8
  rs_more :: u8
  rs_isaggr :: u8
  rs_moreaggr :: u8
  rs_num_delims :: u8
  rs_flags :: u8
  rs_dummy :: u8
  evm0 :: u32
  evm1 :: u32
  evm2 :: u32

section \<open>Transmit control words\<close>

abbreviation (input) HAL_TXDESC_VEOL :: u32 where "HAL_TXDESC_VEOL \<equiv> 0x0020"
abbreviation (input) HAL_TXDESC_EXT_ONLY :: u32 where "HAL_TXDESC_EXT_ONLY \<equiv> 0x0040"
abbreviation (input) HAL_TXDESC_EXT_AND_CTL :: u32 where "HAL_TXDESC_EXT_AND_CTL \<equiv> 0x0080"
abbreviation (input) HAL_TXDESC_VMF :: u32 where "HAL_TXDESC_VMF \<equiv> 0x0100"

definition flag_bit :: "u32 \<Rightarrow> u32 \<Rightarrow> u32 \<Rightarrow> u32" where
  "flag_bit flags f b = (if flags AND f \<noteq> 0 then b else 0)"

text \<open>The shift of \<^verbatim>\<open>isValidTxRate\<close> is defined for a rate code below 32.\<close>

definition VALID_TX_RATES :: u32 where
  "VALID_TX_RATES = fold (\<lambda>i m. m OR push_bit i 1)
     [0x0b, 0x0f, 0x0a, 0x0e, 0x09, 0x0d, 0x08, 0x0c, 0x1b, 0x1a, 0x1e, 0x19, 0x1d, 0x18, 0x1c] 0"

definition isValidTxRate :: "u32 \<Rightarrow> bool option" where
  "isValidTxRate r = do { require (unat r < 32); Some (push_bit (unat r) 1 AND VALID_TX_RATES \<noteq> 0) }"

definition setup_txdesc_ctl :: "u32 \<Rightarrow> u32 \<Rightarrow> u32 \<Rightarrow> u32 \<Rightarrow> u32 \<Rightarrow> u32 \<Rightarrow> u32 \<Rightarrow> ar5416_desc \<Rightarrow> ar5416_desc" where
  "setup_txdesc_ctl pktLen type txPower txRate0 txTries0 keyIx flags ads =
     (let txPower = (if txPower > 63 then 63 else txPower);
          ctl0 = (pktLen AND AR_FrameLen) OR push_bit 16 txPower
             OR flag_bit flags HAL_TXDESC_VEOL AR_VEOL
             OR flag_bit flags (ucast HAL_TXDESC_CLRDMASK) AR_ClrDestMask
             OR flag_bit flags (ucast HAL_TXDESC_INTREQ) AR_TxIntrReq;
          ctl1 = push_bit 20 type OR flag_bit flags (ucast HAL_TXDESC_NOACK) AR_NoAck;
          ads = ads\<lparr>ds_txstatus := (ds_txstatus ads)[9 := ds_txstatus ads ! 9 AND NOT AR_TxDone],
            ds_ctl0 := ctl0, ds_ctl1 := ctl1,
            ds_ctl2 := SM txTries0 (AR_XmitDataTries ! 0), ds_ctl3 := txRate0,
            ds_ctl7 := SM 1 (AR_ChainSel ! 0) OR SM 1 (AR_ChainSel ! 1) OR SM 1 (AR_ChainSel ! 2)
              OR SM 1 (AR_ChainSel ! 3)\<rparr>
      in if keyIx \<noteq> 0xFF
         then ads\<lparr>ds_ctl1 := ds_ctl1 ads OR SM keyIx AR_DestIdx, ds_ctl0 := ds_ctl0 ads OR AR_DestIdxValid\<rparr>
         else ads)"

definition ar5416SetupTxDesc :: "u32 \<Rightarrow> u32 \<Rightarrow> u32 \<Rightarrow> u32 \<Rightarrow> u32 \<Rightarrow> u32 \<Rightarrow> u32 \<Rightarrow> u32 \<Rightarrow> u32 \<Rightarrow>
    ar5416_desc \<Rightarrow> (bool \<times> ar5416_desc) option" where
  "ar5416SetupTxDesc pktLen type txPower txRate0 txTries0 keyIx flags rtsctsRate rtsctsDuration ads =
     (let ads = setup_txdesc_ctl pktLen type txPower txRate0 txTries0 keyIx flags ads in
      if flags AND (0x0004 OR 0x0008) \<noteq> 0 then do {
        valid \<leftarrow> isValidTxRate rtsctsRate;
        if \<not> valid then Some (False, ads)
        else Some (True, ads\<lparr>
          ds_ctl0 := ds_ctl0 ads OR (flag_bit flags 0x0008 AR_CTSEnable OR flag_bit flags 0x0004 AR_RTSEnable),
          ds_ctl2 := ds_ctl2 ads OR SM rtsctsDuration AR_BurstDur,
          ds_ctl3 := ds_ctl3 ads OR push_bit 20 rtsctsRate\<rparr>) }
      else Some (True, ads))"

definition ar5416FillTxDesc :: "u32 \<Rightarrow> bool \<Rightarrow> bool \<Rightarrow> ar5416_desc \<Rightarrow> ar5416_desc \<Rightarrow> ar5416_desc" where
  "ar5416FillTxDesc segLen firstSeg lastSeg ds0 ads =
     (let ads =
        (if firstSeg then ads\<lparr>ds_ctl1 := ds_ctl1 ads OR (segLen OR (if lastSeg then 0 else AR_TxMore))\<rparr>
         else if lastSeg then ads\<lparr>ds_ctl0 := 0, ds_ctl1 := segLen, ds_ctl2 := ds_ctl2 ds0, ds_ctl3 := ds_ctl3 ds0\<rparr>
         else ads\<lparr>ds_ctl0 := 0, ds_ctl1 := segLen OR AR_TxMore, ds_ctl2 := 0, ds_ctl3 := 0\<rparr>)
      in ads\<lparr>ds_txstatus := (ds_txstatus ads)[0 := 0, 1 := 0]\<rparr>)"

definition ar5416FillKeyTxDesc :: "u32 \<Rightarrow> ar5416_desc \<Rightarrow> ar5416_desc" where
  "ar5416FillKeyTxDesc keyType ads = ads\<lparr>ds_ctl6 := SM keyType AR_EncrType\<rparr>"

definition ar5416Set11nTxDesc :: "u32 \<Rightarrow> u32 \<Rightarrow> u32 \<Rightarrow> u32 \<Rightarrow> u32 \<Rightarrow> u32 \<Rightarrow> ar5416_desc \<Rightarrow> ar5416_desc" where
  "ar5416Set11nTxDesc pktLen type txPower keyIx keyType flags ads =
     (let txPower = (if txPower > 63 then 63 else txPower) in
      ads\<lparr>ds_ctl0 := (pktLen AND AR_FrameLen)
             OR flag_bit flags HAL_TXDESC_VMF AR_VirtMoreFrag
             OR SM txPower AR_XmitPower
             OR flag_bit flags 0x0004 AR_RTSEnable
             OR flag_bit flags HAL_TXDESC_VEOL AR_VEOL
             OR flag_bit flags 0x0001 AR_ClrDestMask
             OR flag_bit flags 0x0010 AR_TxIntrReq
             OR (if keyIx \<noteq> 0xFF then AR_DestIdxValid else 0)
             OR flag_bit flags 0x0008 AR_CTSEnable,
           ds_ctl1 := (if keyIx \<noteq> 0xFF then SM keyIx AR_DestIdx else 0)
             OR SM type AR_FrameType
             OR flag_bit flags 0x0002 AR_NoAck
             OR flag_bit flags HAL_TXDESC_EXT_ONLY AR_ExtOnly
             OR flag_bit flags HAL_TXDESC_EXT_AND_CTL AR_ExtAndCtl,
           ds_ctl6 := SM keyType AR_EncrType\<rparr>)"

section \<open>The rate scenario\<close>

text \<open>The macros on entry \<open>i\<close> of the series.\<close>

definition set11nTries :: "HAL_11N_RATE_SERIES list \<Rightarrow> nat \<Rightarrow> u32" where
  "set11nTries series i = SM (Tries (series ! i)) (AR_XmitDataTries ! i)"

definition set11nRate :: "HAL_11N_RATE_SERIES list \<Rightarrow> nat \<Rightarrow> u32" where
  "set11nRate series i = SM (Rate (series ! i)) (AR_XmitRate ! i)"

definition set11nPktDurRTSCTS :: "HAL_11N_RATE_SERIES list \<Rightarrow> nat \<Rightarrow> u32" where
  "set11nPktDurRTSCTS series i =
     SM (PktDuration (series ! i)) (AR_PacketDur ! i) OR flag_bit (RateFlags (series ! i)) 0x1 (AR_RTSCTSQual ! i)"

definition set11nRateFlags :: "HAL_11N_RATE_SERIES list \<Rightarrow> nat \<Rightarrow> u32" where
  "set11nRateFlags series i = flag_bit (RateFlags (series ! i)) 0x2 (AR_2040_bits ! i)
     OR flag_bit (RateFlags (series ! i)) 0x4 (AR_GI_bits ! i)
     OR flag_bit (RateFlags (series ! i)) 0x8 (AR_STBC_bits ! i)
     OR SM (ChSel (series ! i)) (AR_ChainSel ! i)"

definition ar5416Set11nRateScenario :: "bool \<Rightarrow> u32 \<Rightarrow> HAL_11N_RATE_SERIES list \<Rightarrow> u32 \<Rightarrow> ar5416_desc \<Rightarrow>
    ar5416_desc option" where
  "ar5416Set11nRateScenario durUpdateEn rtsctsRate series flags ads = do {
     require (4 \<le> length series);
     let ctl0 = ds_ctl0 ads;
     let ctl0 =
       (if flags AND (0x0004 OR 0x0008) \<noteq> 0
        then if flags AND 0x0004 \<noteq> 0 then ctl0 AND NOT AR_CTSEnable OR AR_RTSEnable
             else ctl0 AND NOT AR_RTSEnable OR AR_CTSEnable
        else ctl0 AND NOT (AR_RTSEnable OR AR_CTSEnable));
     Some (ads\<lparr>ds_ctl0 := ctl0,
       ds_ctl2 := set11nTries series 0 OR set11nTries series 1 OR set11nTries series 2 OR set11nTries series 3
         OR (if durUpdateEn then AR_DurUpdateEn else 0),
       ds_ctl3 := set11nRate series 0 OR set11nRate series 1 OR set11nRate series 2 OR set11nRate series 3,
       ds_ctl4 := set11nPktDurRTSCTS series 0 OR set11nPktDurRTSCTS series 1,
       ds_ctl5 := set11nPktDurRTSCTS series 2 OR set11nPktDurRTSCTS series 3,
       ds_ctl7 := set11nRateFlags series 0 OR set11nRateFlags series 1 OR set11nRateFlags series 2
         OR set11nRateFlags series 3 OR SM rtsctsRate AR_RTSCTSRate\<rparr>) }"

section \<open>Aggregates\<close>

definition ar5416Set11nAggrFirst :: "u32 \<Rightarrow> u32 \<Rightarrow> ar5416_desc \<Rightarrow> ar5416_desc" where
  "ar5416Set11nAggrFirst aggrLen numDelims ads =
     (let ads = ads\<lparr>ds_ctl1 := ds_ctl1 ads OR (AR_IsAggr OR AR_MoreAggr)\<rparr>;
          ads = ads\<lparr>ds_ctl6 := ds_ctl6 ads AND NOT (fst AR_AggrLen OR fst AR_PadDelim)\<rparr>
      in ads\<lparr>ds_ctl6 := ds_ctl6 ads OR (SM aggrLen AR_AggrLen OR SM numDelims AR_PadDelim)\<rparr>)"

definition ar5416Set11nAggrMiddle :: "u32 \<Rightarrow> ar5416_desc \<Rightarrow> ar5416_desc" where
  "ar5416Set11nAggrMiddle numDelims ads =
     ads\<lparr>ds_ctl1 := ds_ctl1 ads OR (AR_IsAggr OR AR_MoreAggr),
         ds_ctl6 := ds_ctl6 ads AND NOT (fst AR_PadDelim) OR SM numDelims AR_PadDelim\<rparr>"

definition ar5416Set11nAggrLast :: "ar5416_desc \<Rightarrow> ar5416_desc" where
  "ar5416Set11nAggrLast ads =
     ads\<lparr>ds_ctl1 := (ds_ctl1 ads OR AR_IsAggr) AND NOT AR_MoreAggr,
         ds_ctl6 := ds_ctl6 ads AND NOT (fst AR_PadDelim)\<rparr>"

definition ar5416Clr11nAggr :: "ar5416_desc \<Rightarrow> ar5416_desc" where
  "ar5416Clr11nAggr ads = ads\<lparr>ds_ctl1 := ds_ctl1 ads AND (NOT AR_IsAggr AND NOT AR_MoreAggr)\<rparr>"

definition ar5416Set11nBurstDuration :: "u32 \<Rightarrow> ar5416_desc \<Rightarrow> ar5416_desc" where
  "ar5416Set11nBurstDuration burstDuration ads =
     ads\<lparr>ds_ctl2 := ds_ctl2 ads AND NOT (fst AR_BurstDur) OR SM burstDuration AR_BurstDur\<rparr>"

definition ar5416Set11nVirtualMoreFrag :: "u32 \<Rightarrow> ar5416_desc \<Rightarrow> ar5416_desc" where
  "ar5416Set11nVirtualMoreFrag vmf ads =
     (if vmf \<noteq> 0 then ads\<lparr>ds_ctl0 := ds_ctl0 ads OR AR_VirtMoreFrag\<rparr>
      else ads\<lparr>ds_ctl0 := ds_ctl0 ads AND NOT AR_VirtMoreFrag\<rparr>)"

section \<open>Transmit status\<close>

definition bit_if :: "u32 \<Rightarrow> u32 \<Rightarrow> u8 \<Rightarrow> u8" where
  "bit_if w m b = (if w AND m \<noteq> 0 then b else 0)"

text \<open>
  The status copied out of a completed descriptor. The EVM macros name the words 5 to 7, the first of which
  also holds the signal strengths.
\<close>

definition tx_status_of :: "u32 list \<Rightarrow> hw_tx_status \<Rightarrow> hw_tx_status" where
  "tx_status_of st ts =
     ts\<lparr>ts_seqnum := ucast (MS (st ! 9) AR_SeqNum),
        ts_tstamp := st ! 2,
        ts_status := bit_if (st ! 1) 0x2 HAL_TXERR_XRETRY OR bit_if (st ! 1) 0x8 HAL_TXERR_FILT
          OR bit_if (st ! 1) 0x4 HAL_TXERR_FIFO OR bit_if (st ! 9) 0x20000 HAL_TXERR_XTXOP
          OR bit_if (st ! 1) 0x80000 HAL_TXERR_TIMER_EXPIRED,
        ts_flags := bit_if (st ! 1) 0x40000 HAL_TX_DESC_CFG_ERR OR bit_if (st ! 1) 0x20000 HAL_TX_DATA_UNDERRUN
          OR bit_if (st ! 1) 0x10000 HAL_TX_DELIM_UNDERRUN OR bit_if (st ! 0) 0x40000000 HAL_TX_BA,
        ts_ba_low := (if st ! 0 AND 0x40000000 \<noteq> 0 then st ! 3 else ts_ba_low ts),
        ts_ba_high := (if st ! 0 AND 0x40000000 \<noteq> 0 then st ! 4 else ts_ba_high ts),
        ts_rate := ucast (MS (st ! 9) AR_FinalTxIdx),
        ts_rssi := [MS (st ! 5) AR_Byte3, MS (st ! 0) AR_Byte0, MS (st ! 0) AR_Byte1, MS (st ! 0) AR_Byte2,
          MS (st ! 5) AR_Byte0, MS (st ! 5) AR_Byte1, MS (st ! 5) AR_Byte2],
        ts_evm := [st ! 5, st ! 6, st ! 7],
        ts_shortretry := ucast (MS (st ! 1) AR_RTSFailCnt),
        ts_longretry := ucast (MS (st ! 1) AR_DataFailCnt),
        ts_virtcol := ucast (MS (st ! 1) AR_VirtRetryCnt),
        ts_antenna := 0\<rparr>"

definition ar5416ProcTxDesc :: "'e io_env_scheme \<Rightarrow> ar5416_desc \<Rightarrow> hw_tx_status \<Rightarrow> 'a hal_scheme \<Rightarrow>
    HAL_STATUS \<times> ar5416_desc \<times> hw_tx_status \<times> 'a hal_scheme" where
  "ar5416ProcTxDesc env ads ts h =
     (if ds_txstatus ads ! 9 AND AR_TxDone = 0 then (HAL_EINPROGRESS, ads, ts, h)
      else
        let st = (ds_txstatus ads)[9 := ds_txstatus ads ! 9 AND NOT AR_TxDone];
            h = (if st ! 1 AND 0x20000 \<noteq> 0 then snd (ar5416UpdateTxTrigLevel env True h) else h);
            h = (if st ! 1 AND 0x10000 \<noteq> 0 then snd (ar5416UpdateTxTrigLevel env True h) else h)
        in (HAL_OK, ads\<lparr>ds_txstatus := st\<rparr>, tx_status_of st ts, h))"

section \<open>Receive descriptors\<close>

definition ar5416SetupRxDesc :: "u32 \<Rightarrow> u32 \<Rightarrow> ar5416_rxdesc \<Rightarrow> ar5416_rxdesc" where
  "ar5416SetupRxDesc sz flags ads =
     ads\<lparr>rx_ctl1 := (sz AND AR_BufLen) OR flag_bit flags 0x0020 0x2000,
         ds_rxstatus := (ds_rxstatus ads)[8 := ds_rxstatus ads ! 8 AND NOT AR_RxDone]\<rparr>"

text \<open>The error bits: the first that is set, in the order CRC, PHY, decryption, Michael.\<close>

definition rx_error :: "u32 \<Rightarrow> ath_rx_status \<Rightarrow> ath_rx_status" where
  "rx_error s8 rs =
     (if s8 AND AR_RxFrameOK \<noteq> 0 then rs
      else if s8 AND 0x4 \<noteq> 0 then rs\<lparr>rs_status := rs_status rs OR 0x01\<rparr>
      else if s8 AND 0x10 \<noteq> 0 then rs\<lparr>rs_status := rs_status rs OR 0x02, rs_phyerr := ucast (MS s8 AR_Byte1)\<rparr>
      else if s8 AND 0x8 \<noteq> 0 then rs\<lparr>rs_status := rs_status rs OR 0x08\<rparr>
      else if s8 AND 0x20 \<noteq> 0 then rs\<lparr>rs_status := rs_status rs OR 0x10\<rparr>
      else rs)"

definition rx_status_of :: "u32 list \<Rightarrow> ath_rx_status \<Rightarrow> ath_rx_status" where
  "rx_status_of st rs =
     (let s8 = st ! 8;
          rs = rs\<lparr>rs_status := 0,
            rs_datalen := ucast (st ! 1 AND 0x00000fff),
            rs_tstamp := ucast (st ! 2),
            rs_rssi_combined := ucast (MS (st ! 4) AR_Byte3),
            rs_rssi_ctl := [ucast (MS (st ! 0) AR_Byte0), ucast (MS (st ! 0) AR_Byte1), ucast (MS (st ! 0) AR_Byte2)],
            rs_rssi_ext := [ucast (MS (st ! 4) AR_Byte0), ucast (MS (st ! 4) AR_Byte1), ucast (MS (st ! 4) AR_Byte2)],
            rs_keyix := (if s8 AND 0x100 \<noteq> 0 then ucast (MS s8 (0xfe00, 9)) else 0xFF),
            rs_rate := ucast (MS (st ! 0) AR_Byte3),
            rs_more := (if st ! 1 AND 0x1000 \<noteq> 0 then 1 else 0),
            rs_isaggr := (if s8 AND 0x20000 \<noteq> 0 then 1 else 0),
            rs_moreaggr := (if s8 AND 0x10000 \<noteq> 0 then 1 else 0),
            rs_flags := bit_if (st ! 3) 0x1 0x04 OR bit_if (st ! 3) 0x2 0x08 OR bit_if s8 0x40 0x10
              OR bit_if s8 0x40000 0x20 OR bit_if s8 0x40000000 0x40\<rparr>
      in (rx_error s8 rs)\<lparr>evm0 := st ! 4, evm1 := st ! 5, evm2 := st ! 6\<rparr>)"

text \<open>\<open>nds\<close> is the descriptor the link of \<open>ads\<close> points to, \<open>pa\<close> the address of \<open>ads\<close>.\<close>

definition ar5416ProcRxDescFast :: "'e io_env_scheme \<Rightarrow> ar5416_rxdesc \<Rightarrow> u32 \<Rightarrow> ar5416_rxdesc \<Rightarrow> ath_rx_status \<Rightarrow>
    'a hal_scheme \<Rightarrow> HAL_STATUS \<times> ath_rx_status \<times> 'a hal_scheme" where
  "ar5416ProcRxDescFast env ads pa nds rs h =
     (if ds_rxstatus ads ! 8 AND AR_RxDone = 0 then (HAL_EINPROGRESS, rs, h)
      else if ds_rxstatus nds ! 8 AND AR_RxDone = 0 then
        let (rxdp, h) = ioread32_mac env AR_RXDP h in
        if rxdp = pa then (HAL_EINPROGRESS, rs, h) else (HAL_OK, rx_status_of (ds_rxstatus ads) rs, h)
      else (HAL_OK, rx_status_of (ds_rxstatus ads) rs, h))"

end
