(* ===== verification/Hal_View.thy ===== *)
theory Hal_View
  imports Hal_Desc
begin

text \<open>
  What the hardware reads in a transmit descriptor, as an abstract record, and the effect on it of each
  operation of \<^verbatim>\<open>ar5416_hw.c\<close>. The operations on the words refine the abstract ones; so does
  a sequence of the calls the transmit path makes.
\<close>

section \<open>Fields of a word\<close>

named_theorems view_simps \<open>fields and bits of the words built by the descriptor operations\<close>

definition fld :: "nat \<Rightarrow> nat \<Rightarrow> u32 \<Rightarrow> u32" where
  "fld s w x = take_bit w (drop_bit s x)"

lemma fld_or [view_simps]: "fld s w (x OR y) = fld s w x OR fld s w y"
  by (simp add: fld_def)

lemma fld_and [view_simps]: "fld s w (x AND y) = fld s w x AND fld s w y"
  by (simp add: fld_def)

lemma fld_take [view_simps]: "take_bit w (fld s w x) = fld s w x"
  by (simp add: fld_def)

lemma fld_mask: "m = mask w \<Longrightarrow> fld s w x AND m = fld s w x"
  by (simp add: fld_take flip: take_bit_eq_mask)

lemma fld_masks [view_simps]:
  "fld s 3 x AND 0x7 = fld s 3 x" "fld s 4 x AND 0xF = fld s 4 x" "fld s 6 x AND 0x3F = fld s 6 x"
  "fld s 7 x AND 0x7F = fld s 7 x" "fld s 8 x AND 0xFF = fld s 8 x" "fld s 15 x AND 0x7FFF = fld s 15 x"
  "fld s 16 x AND 0xFFFF = fld s 16 x"
  by (rule fld_mask, simp add: mask_eq_exp_minus_1)+

lemma fld_push_same [view_simps]: "s + w \<le> 32 \<Longrightarrow> fld s w (push_bit s (take_bit w v)) = take_bit w v"
  by (rule bit_word_eqI) (auto simp: fld_def bit_simps)

lemma fld_push_low [view_simps]: "t + u \<le> s \<Longrightarrow> fld s w (push_bit t (take_bit u v)) = 0"
  by (rule bit_word_eqI) (auto simp: fld_def bit_simps)

lemma fld_push_high [view_simps]: "s + w \<le> t \<Longrightarrow> fld s w (push_bit t (take_bit u v)) = 0"
  by (rule bit_word_eqI) (auto simp: fld_def bit_simps)

lemma fld_take_same [view_simps]: "fld 0 w (take_bit w v) = take_bit w v"
  by (simp add: fld_def)

lemma fld_take_low [view_simps]: "u \<le> s \<Longrightarrow> fld s w (take_bit u v) = 0"
  by (rule bit_word_eqI) (auto simp: fld_def bit_simps)

lemma fld_flag_bit [view_simps]: "fld s w b = 0 \<Longrightarrow> fld s w (flag_bit fl f b) = 0"
  by (simp add: flag_bit_def fld_def)

lemma fld_if [view_simps]: "fld s w b = 0 \<Longrightarrow> fld s w (if c then b else 0) = 0"
  by (simp add: fld_def)

lemma bit_flag_bit [view_simps]: "bit (flag_bit fl f b) n \<longleftrightarrow> fl AND f \<noteq> 0 \<and> bit b n"
  by (simp add: flag_bit_def)

lemma bit_if_word [view_simps]: "bit (if c then b else 0 :: u32) n \<longleftrightarrow> c \<and> bit b n"
  by simp

lemma bit_push_take [view_simps]:
  "bit (push_bit t (take_bit u v) :: u32) n \<longleftrightarrow> n < 32 \<and> t \<le> n \<and> n - t < u \<and> bit v (n - t)"
  by (auto simp: bit_simps)

lemma SM_mask: "m = push_bit s (mask w) \<Longrightarrow> SM v (m, s) = push_bit s (take_bit w v)"
  by (rule bit_word_eqI) (auto simp: SM_def bit_simps)

lemma SM_fields [view_simps]:
  "SM v AR_XmitPower = push_bit 16 (take_bit 6 v)" "SM v AR_DestIdx = push_bit 13 (take_bit 7 v)"
  "SM v AR_FrameType = push_bit 20 (take_bit 4 v)" "SM v AR_BurstDur = push_bit 0 (take_bit 15 v)"
  "SM v AR_AggrLen = push_bit 0 (take_bit 16 v)" "SM v AR_PadDelim = push_bit 18 (take_bit 8 v)"
  "SM v AR_EncrType = push_bit 26 (take_bit 3 v)" "SM v AR_RTSCTSRate = push_bit 20 (take_bit 8 v)"
  by (rule SM_mask, simp add: mask_eq_exp_minus_1)+

lemma AR_FrameLen_take [view_simps]: "x AND AR_FrameLen = take_bit 12 x"
  by (simp add: take_bit_eq_mask mask_eq_exp_minus_1)

section \<open>The abstract descriptor\<close>

record rate_view =
  rv_tries :: u32
  rv_rate :: u32
  rv_dur :: u32
  rv_rtscts :: bool
  rv_40 :: bool
  rv_sgi :: bool
  rv_stbc :: bool
  rv_chains :: u32

record tx_view =
  tv_len :: u32
  tv_vmf :: bool
  tv_power :: u32
  tv_rts :: bool
  tv_cts :: bool
  tv_veol :: bool
  tv_clrdest :: bool
  tv_intreq :: bool
  tv_keyvalid :: bool
  tv_key :: u32
  tv_seglen :: u32
  tv_more :: bool
  tv_type :: u32
  tv_noack :: bool
  tv_extonly :: bool
  tv_extctl :: bool
  tv_moreaggr :: bool
  tv_isaggr :: bool
  tv_burst :: u32
  tv_durupd :: bool
  tv_series :: "rate_view list"
  tv_aggrlen :: u32
  tv_delims :: u32
  tv_encr :: u32
  tv_rtsrate :: u32

text \<open>Entry \<open>i\<close> of the rate series, read from the words 2, 3, 4 or 5, and 7.\<close>

definition rate_view_of :: "ar5416_desc \<Rightarrow> nat \<Rightarrow> rate_view" where
  "rate_view_of d i =
     (let ctl = (if i < 2 then ds_ctl4 d else ds_ctl5 d); j = 16 * (i mod 2) in
      \<lparr>rv_tries = fld (16 + 4 * i) 4 (ds_ctl2 d), rv_rate = fld (8 * i) 8 (ds_ctl3 d),
       rv_dur = fld j 15 ctl, rv_rtscts = bit ctl (j + 15),
       rv_40 = bit (ds_ctl7 d) (5 * i), rv_sgi = bit (ds_ctl7 d) (5 * i + 1), rv_stbc = bit (ds_ctl7 d) (28 + i),
       rv_chains = fld (5 * i + 2) 3 (ds_ctl7 d)\<rparr>)"

definition tx_view_of :: "ar5416_desc \<Rightarrow> tx_view" where
  "tx_view_of d =
     \<lparr>tv_len = fld 0 12 (ds_ctl0 d), tv_vmf = bit (ds_ctl0 d) 12, tv_power = fld 16 6 (ds_ctl0 d),
      tv_rts = bit (ds_ctl0 d) 22, tv_cts = bit (ds_ctl0 d) 31, tv_veol = bit (ds_ctl0 d) 23,
      tv_clrdest = bit (ds_ctl0 d) 24, tv_intreq = bit (ds_ctl0 d) 29, tv_keyvalid = bit (ds_ctl0 d) 30,
      tv_key = fld 13 7 (ds_ctl1 d), tv_seglen = fld 0 12 (ds_ctl1 d), tv_more = bit (ds_ctl1 d) 12,
      tv_type = fld 20 4 (ds_ctl1 d), tv_noack = bit (ds_ctl1 d) 24, tv_extonly = bit (ds_ctl1 d) 27,
      tv_extctl = bit (ds_ctl1 d) 28, tv_moreaggr = bit (ds_ctl1 d) 29, tv_isaggr = bit (ds_ctl1 d) 30,
      tv_burst = fld 0 15 (ds_ctl2 d), tv_durupd = bit (ds_ctl2 d) 15,
      tv_series = map (rate_view_of d) [0..<4],
      tv_aggrlen = fld 0 16 (ds_ctl6 d), tv_delims = fld 18 8 (ds_ctl6 d), tv_encr = fld 26 3 (ds_ctl6 d),
      tv_rtsrate = fld 20 8 (ds_ctl7 d)\<rparr>"

section \<open>The abstract operations\<close>

definition view_Set11nTxDesc :: "u32 \<Rightarrow> u32 \<Rightarrow> u32 \<Rightarrow> u32 \<Rightarrow> u32 \<Rightarrow> u32 \<Rightarrow> tx_view \<Rightarrow> tx_view" where
  "view_Set11nTxDesc pktLen type txPower keyIx keyType flags v =
     v\<lparr>tv_len := take_bit 12 pktLen, tv_vmf := flags AND HAL_TXDESC_VMF \<noteq> 0, tv_power := min 63 txPower,
       tv_rts := flags AND 0x4 \<noteq> 0, tv_cts := flags AND 0x8 \<noteq> 0, tv_veol := flags AND HAL_TXDESC_VEOL \<noteq> 0,
       tv_clrdest := flags AND 0x1 \<noteq> 0, tv_intreq := flags AND 0x10 \<noteq> 0, tv_keyvalid := keyIx \<noteq> 0xFF,
       tv_key := (if keyIx \<noteq> 0xFF then take_bit 7 keyIx else 0), tv_seglen := 0, tv_more := False,
       tv_type := take_bit 4 type, tv_noack := flags AND 0x2 \<noteq> 0, tv_extonly := flags AND HAL_TXDESC_EXT_ONLY \<noteq> 0,
       tv_extctl := flags AND HAL_TXDESC_EXT_AND_CTL \<noteq> 0, tv_moreaggr := False, tv_isaggr := False,
       tv_aggrlen := 0, tv_delims := 0, tv_encr := take_bit 3 keyType\<rparr>"

definition view_rate :: "HAL_11N_RATE_SERIES \<Rightarrow> rate_view" where
  "view_rate r = \<lparr>rv_tries = take_bit 4 (Tries r), rv_rate = take_bit 8 (Rate r), rv_dur = take_bit 15 (PktDuration r),
     rv_rtscts = (RateFlags r AND 0x1 \<noteq> 0), rv_40 = (RateFlags r AND 0x2 \<noteq> 0), rv_sgi = (RateFlags r AND 0x4 \<noteq> 0),
     rv_stbc = (RateFlags r AND 0x8 \<noteq> 0), rv_chains = take_bit 3 (ChSel r)\<rparr>"

definition view_Set11nRateScenario :: "bool \<Rightarrow> u32 \<Rightarrow> HAL_11N_RATE_SERIES list \<Rightarrow> u32 \<Rightarrow> tx_view \<Rightarrow> tx_view option" where
  "view_Set11nRateScenario durUpdateEn rtsctsRate series flags v = do {
     require (4 \<le> length series);
     Some (v\<lparr>tv_rts := flags AND 0x4 \<noteq> 0, tv_cts := flags AND 0x4 = 0 \<and> flags AND 0x8 \<noteq> 0,
       tv_burst := 0, tv_durupd := durUpdateEn, tv_series := map view_rate (take 4 series),
       tv_rtsrate := take_bit 8 rtsctsRate\<rparr>) }"

definition view_FillKeyTxDesc :: "u32 \<Rightarrow> tx_view \<Rightarrow> tx_view" where
  "view_FillKeyTxDesc keyType v = v\<lparr>tv_aggrlen := 0, tv_delims := 0, tv_encr := take_bit 3 keyType\<rparr>"

definition view_Set11nAggrFirst :: "u32 \<Rightarrow> u32 \<Rightarrow> tx_view \<Rightarrow> tx_view" where
  "view_Set11nAggrFirst aggrLen numDelims v = v\<lparr>tv_moreaggr := True, tv_isaggr := True,
     tv_aggrlen := take_bit 16 aggrLen, tv_delims := take_bit 8 numDelims\<rparr>"

definition view_Set11nAggrMiddle :: "u32 \<Rightarrow> tx_view \<Rightarrow> tx_view" where
  "view_Set11nAggrMiddle numDelims v = v\<lparr>tv_moreaggr := True, tv_isaggr := True, tv_delims := take_bit 8 numDelims\<rparr>"

definition view_Set11nAggrLast :: "tx_view \<Rightarrow> tx_view" where
  "view_Set11nAggrLast v = v\<lparr>tv_moreaggr := False, tv_isaggr := True, tv_delims := 0\<rparr>"

definition view_Clr11nAggr :: "tx_view \<Rightarrow> tx_view" where
  "view_Clr11nAggr v = v\<lparr>tv_moreaggr := False, tv_isaggr := False\<rparr>"

text \<open>
  \<^verbatim>\<open>ar5416SetupTxDesc\<close> writes the RTS/CTS rate into the word of the series rates: shifted by 20 bits it lies
  over the rates of the series 2 and 3.
\<close>

definition view_setup :: "u32 \<Rightarrow> u32 \<Rightarrow> u32 \<Rightarrow> u32 \<Rightarrow> u32 \<Rightarrow> u32 \<Rightarrow> u32 \<Rightarrow> tx_view \<Rightarrow> tx_view" where
  "view_setup pktLen type txPower rw txTries0 keyIx flags v =
     v\<lparr>tv_len := take_bit 12 pktLen, tv_vmf := False, tv_power := min 63 txPower, tv_rts := False, tv_cts := False,
       tv_veol := flags AND HAL_TXDESC_VEOL \<noteq> 0, tv_clrdest := flags AND 0x1 \<noteq> 0, tv_intreq := flags AND 0x10 \<noteq> 0,
       tv_keyvalid := keyIx \<noteq> 0xFF, tv_key := (if keyIx \<noteq> 0xFF then take_bit 7 keyIx else 0),
       tv_seglen := 0, tv_more := False, tv_type := take_bit 4 type, tv_noack := flags AND 0x2 \<noteq> 0,
       tv_extonly := False, tv_extctl := False, tv_moreaggr := False, tv_isaggr := False,
       tv_burst := 0, tv_durupd := False, tv_rtsrate := 0,
       tv_series := map (\<lambda>i. (tv_series v ! i)\<lparr>rv_tries := (if i = 0 then take_bit 4 txTries0 else 0),
         rv_rate := fld (8 * i) 8 rw, rv_40 := False, rv_sgi := False, rv_stbc := False, rv_chains := 1\<rparr>) [0..<4]\<rparr>"

definition view_SetupTxDesc :: "u32 \<Rightarrow> u32 \<Rightarrow> u32 \<Rightarrow> u32 \<Rightarrow> u32 \<Rightarrow> u32 \<Rightarrow> u32 \<Rightarrow> u32 \<Rightarrow> u32 \<Rightarrow> tx_view \<Rightarrow>
    (bool \<times> tx_view) option" where
  "view_SetupTxDesc pktLen type txPower txRate0 txTries0 keyIx flags rtsctsRate rtsctsDuration v =
     (if flags AND (0x0004 OR 0x0008) \<noteq> 0 then do {
        valid \<leftarrow> isValidTxRate rtsctsRate;
        if \<not> valid then Some (False, view_setup pktLen type txPower txRate0 txTries0 keyIx flags v)
        else Some (True, (view_setup pktLen type txPower (txRate0 OR push_bit 20 rtsctsRate) txTries0 keyIx flags v)
          \<lparr>tv_rts := flags AND 0x4 \<noteq> 0, tv_cts := flags AND 0x8 \<noteq> 0, tv_burst := take_bit 15 rtsctsDuration\<rparr>) }
      else Some (True, view_setup pktLen type txPower txRate0 txTries0 keyIx flags v))"

definition view_FillTxDesc :: "u32 \<Rightarrow> bool \<Rightarrow> tx_view \<Rightarrow> tx_view" where
  "view_FillTxDesc segLen lastSeg v = v\<lparr>tv_seglen := tv_seglen v OR segLen, tv_more := tv_more v \<or> \<not> lastSeg\<rparr>"

section \<open>Refinement of the operations\<close>

lemma upt_4 [view_simps]: "[0..<4] = [0, 1, 2, 3 :: nat]"
  by (simp add: upt_rec numeral_eq_Suc)

lemma fld_numeral [view_simps]: "fld s w (numeral k) = take_bit w (drop_bit s (numeral k))"
  "fld s w (- numeral k) = take_bit w (drop_bit s (- numeral k))" "fld s w 0 = 0" "fld s w 1 = take_bit w (drop_bit s 1)"
  by (simp_all add: fld_def)

lemma refine_AggrFirst: "tx_view_of (ar5416Set11nAggrFirst l n d) = view_Set11nAggrFirst l n (tx_view_of d)"
  by (simp add: tx_view_of_def ar5416Set11nAggrFirst_def view_Set11nAggrFirst_def rate_view_of_def Let_def
      view_simps bit_simps)

lemma refine_AggrMiddle: "tx_view_of (ar5416Set11nAggrMiddle n d) = view_Set11nAggrMiddle n (tx_view_of d)"
  by (simp add: tx_view_of_def ar5416Set11nAggrMiddle_def view_Set11nAggrMiddle_def rate_view_of_def Let_def
      view_simps bit_simps)

lemma refine_AggrLast: "tx_view_of (ar5416Set11nAggrLast d) = view_Set11nAggrLast (tx_view_of d)"
  by (simp add: tx_view_of_def ar5416Set11nAggrLast_def view_Set11nAggrLast_def rate_view_of_def Let_def
      view_simps bit_simps)

lemma refine_Clr11nAggr: "tx_view_of (ar5416Clr11nAggr d) = view_Clr11nAggr (tx_view_of d)"
  by (simp add: tx_view_of_def ar5416Clr11nAggr_def view_Clr11nAggr_def rate_view_of_def Let_def
      view_simps bit_simps)

lemma refine_FillKey: "tx_view_of (ar5416FillKeyTxDesc k d) = view_FillKeyTxDesc k (tx_view_of d)"
  by (simp add: tx_view_of_def ar5416FillKeyTxDesc_def view_FillKeyTxDesc_def rate_view_of_def Let_def
      view_simps bit_simps)

lemma refine_BurstDuration: "tx_view_of (ar5416Set11nBurstDuration n d) = (tx_view_of d)\<lparr>tv_burst := take_bit 15 n\<rparr>"
  by (simp add: tx_view_of_def ar5416Set11nBurstDuration_def rate_view_of_def Let_def view_simps bit_simps)

lemma refine_VirtualMoreFrag: "tx_view_of (ar5416Set11nVirtualMoreFrag n d) = (tx_view_of d)\<lparr>tv_vmf := n \<noteq> 0\<rparr>"
  by (simp add: tx_view_of_def ar5416Set11nVirtualMoreFrag_def rate_view_of_def Let_def view_simps bit_simps)

lemma min_63: "min 63 p = take_bit 6 (if p > 63 then 63 else p :: u32)"
proof (cases "p > 63")
  case False
  then have "take_bit 6 p = p"
    by (simp add: take_bit_eq_mod mod_word_less word_le_nat_alt word_less_nat_alt)
  then show ?thesis using False by (simp add: min_def)
qed (simp add: min_def less_imp_le)

lemma refine_Set11nTxDesc:
  "tx_view_of (ar5416Set11nTxDesc l t p k kt fl d) = view_Set11nTxDesc l t p k kt fl (tx_view_of d)"
proof -
  obtain q where q: "(if p > 63 then 63 else p) = q" "min 63 p = take_bit 6 q"
    using min_63 by blast
  show ?thesis
    unfolding ar5416Set11nTxDesc_def Let_def q(1)
    by (simp add: tx_view_of_def view_Set11nTxDesc_def rate_view_of_def view_simps bit_simps q(2))
qed

lemma fields_nth [view_simps]:
  "SM v (AR_XmitDataTries ! 0) = push_bit 16 (take_bit 4 v)" "SM v (AR_XmitDataTries ! 1) = push_bit 20 (take_bit 4 v)"
  "SM v (AR_XmitDataTries ! 2) = push_bit 24 (take_bit 4 v)" "SM v (AR_XmitDataTries ! 3) = push_bit 28 (take_bit 4 v)"
  "SM v (AR_XmitRate ! 0) = push_bit 0 (take_bit 8 v)" "SM v (AR_XmitRate ! 1) = push_bit 8 (take_bit 8 v)"
  "SM v (AR_XmitRate ! 2) = push_bit 16 (take_bit 8 v)" "SM v (AR_XmitRate ! 3) = push_bit 24 (take_bit 8 v)"
  "SM v (AR_PacketDur ! 0) = push_bit 0 (take_bit 15 v)" "SM v (AR_PacketDur ! 1) = push_bit 16 (take_bit 15 v)"
  "SM v (AR_PacketDur ! 2) = push_bit 0 (take_bit 15 v)" "SM v (AR_PacketDur ! 3) = push_bit 16 (take_bit 15 v)"
  "SM v (AR_ChainSel ! 0) = push_bit 2 (take_bit 3 v)" "SM v (AR_ChainSel ! 1) = push_bit 7 (take_bit 3 v)"
  "SM v (AR_ChainSel ! 2) = push_bit 12 (take_bit 3 v)" "SM v (AR_ChainSel ! 3) = push_bit 17 (take_bit 3 v)"
  unfolding AR_XmitDataTries_def AR_XmitRate_def AR_PacketDur_def AR_ChainSel_def
  by (simp_all only: nth_Cons_0 nth_Cons_numeral nth_Cons_Suc One_nat_def numeral_2_eq_2 numeral_3_eq_3)
    ((rule SM_mask, simp add: mask_eq_exp_minus_1)+)

lemma bits_nth [view_simps]:
  "AR_RTSCTSQual ! 0 = 0x00008000" "AR_RTSCTSQual ! 1 = 0x80000000" "AR_RTSCTSQual ! 2 = 0x00008000"
  "AR_RTSCTSQual ! 3 = 0x80000000"
  "AR_2040_bits ! 0 = 0x1" "AR_2040_bits ! 1 = 0x20" "AR_2040_bits ! 2 = 0x400" "AR_2040_bits ! 3 = 0x8000"
  "AR_GI_bits ! 0 = 0x2" "AR_GI_bits ! 1 = 0x40" "AR_GI_bits ! 2 = 0x800" "AR_GI_bits ! 3 = 0x10000"
  "AR_STBC_bits ! 0 = 0x10000000" "AR_STBC_bits ! 1 = 0x20000000" "AR_STBC_bits ! 2 = 0x40000000"
  "AR_STBC_bits ! 3 = 0x80000000"
  by (simp_all add: AR_RTSCTSQual_def AR_2040_bits_def AR_GI_bits_def AR_STBC_bits_def numeral_2_eq_2 numeral_3_eq_3)

lemmas nth_Suc_0 [view_simps] = fields_nth [unfolded One_nat_def] bits_nth [unfolded One_nat_def]

lemma take_4: "4 \<le> length xs \<Longrightarrow> take 4 xs = [xs ! 0, xs ! 1, xs ! 2, xs ! 3]"
  by (intro nth_equalityI) (auto simp: less_Suc_eq numeral_eq_Suc)

definition prot_ctl0 :: "u32 \<Rightarrow> u32 \<Rightarrow> u32" where
  "prot_ctl0 fl x = (if fl AND (0x0004 OR 0x0008) \<noteq> 0
        then if fl AND 0x0004 \<noteq> 0 then x AND NOT AR_CTSEnable OR AR_RTSEnable
             else x AND NOT AR_RTSEnable OR AR_CTSEnable
        else x AND NOT (AR_RTSEnable OR AR_CTSEnable))"

lemma prot_ctl0_view:
  "fld 0 12 (prot_ctl0 fl x) = fld 0 12 x" "fld 16 6 (prot_ctl0 fl x) = fld 16 6 x"
  "bit (prot_ctl0 fl x) 12 = bit x 12" "bit (prot_ctl0 fl x) 23 = bit x 23" "bit (prot_ctl0 fl x) 24 = bit x 24"
  "bit (prot_ctl0 fl x) 29 = bit x 29" "bit (prot_ctl0 fl x) 30 = bit x 30"
  "bit (prot_ctl0 fl x) 22 \<longleftrightarrow> fl AND 0x4 \<noteq> 0" "bit (prot_ctl0 fl x) 31 \<longleftrightarrow> fl AND 0x4 = 0 \<and> fl AND 0x8 \<noteq> 0"
proof -
  have f: "fl AND 12 = 0 \<longleftrightarrow> fl AND 4 = 0 \<and> fl AND 8 = 0"
    using bit.conj_disj_distrib [of fl 4 8] by (simp add: or_eq_0_iff)
  have v: "fld 0 12 (x AND m OR k) = fld 0 12 x" if "fld 0 12 m = mask 12" "fld 0 12 k = 0" for m k
    using that by (simp add: view_simps fld_mask)
  show "fld 0 12 (prot_ctl0 fl x) = fld 0 12 x" "fld 16 6 (prot_ctl0 fl x) = fld 16 6 x"
    "bit (prot_ctl0 fl x) 12 = bit x 12" "bit (prot_ctl0 fl x) 23 = bit x 23" "bit (prot_ctl0 fl x) 24 = bit x 24"
    "bit (prot_ctl0 fl x) 29 = bit x 29" "bit (prot_ctl0 fl x) 30 = bit x 30"
    "bit (prot_ctl0 fl x) 22 \<longleftrightarrow> fl AND 0x4 \<noteq> 0" "bit (prot_ctl0 fl x) 31 \<longleftrightarrow> fl AND 0x4 = 0 \<and> fl AND 0x8 \<noteq> 0"
    by (simp_all add: prot_ctl0_def f view_simps bit_simps)
qed

lemma refine_RateScenario:
  "map_option tx_view_of (ar5416Set11nRateScenario du rr ss fl d) = view_Set11nRateScenario du rr ss fl (tx_view_of d)"
proof (cases "4 \<le> length ss")
  case True
  then show ?thesis
    unfolding ar5416Set11nRateScenario_def view_Set11nRateScenario_def Let_def prot_ctl0_def [symmetric]
    by (simp add: require_def tx_view_of_def rate_view_of_def view_rate_def take_4 view_simps bit_simps
        prot_ctl0_view set11nTries_def set11nRate_def set11nPktDurRTSCTS_def set11nRateFlags_def
        del: add_2_eq_Suc add_2_eq_Suc')
qed (simp add: ar5416Set11nRateScenario_def view_Set11nRateScenario_def require_def)

lemma clip_63: "(if p > 63 then 63 else p) = take_bit 6 (if p > 63 then 63 else p :: u32)"
  using min_63 [of p] by (auto simp: min_def)

lemma refine_setup:
  assumes "t < 16"
  shows "tx_view_of (setup_txdesc_ctl l t p r n k fl d) = view_setup l t p r n k fl (tx_view_of d)"
proof -
  have "take_bit 4 t = t" using assms by (simp add: take_bit_eq_mod mod_word_less)
  then obtain u where t: "t = take_bit 4 u" by metis
  obtain q where q: "(if p > 63 then 63 else p) = take_bit 6 q" "min 63 p = take_bit 6 q"
    using min_63 clip_63 by metis
  show ?thesis
    unfolding setup_txdesc_ctl_def Let_def q(1)
    by (simp add: t tx_view_of_def view_setup_def rate_view_of_def Let_def view_simps bit_simps q(2)
        del: add_2_eq_Suc add_2_eq_Suc')
qed

lemma refine_SetupTxDesc:
  assumes "t < 16"
  shows "map_option (\<lambda>(ok, d). (ok, tx_view_of d)) (ar5416SetupTxDesc l t p r n k fl rr rd d) =
    view_SetupTxDesc l t p r n k fl rr rd (tx_view_of d)"
proof -
  let ?s = "setup_txdesc_ctl l t p r n k fl d"
  have c3: "ds_ctl3 ?s = r" by (simp add: setup_txdesc_ctl_def Let_def)
  have v: "tx_view_of (?s\<lparr>ds_ctl0 := ds_ctl0 ?s OR (flag_bit fl 0x0008 AR_CTSEnable OR flag_bit fl 0x0004 AR_RTSEnable),
      ds_ctl2 := ds_ctl2 ?s OR SM rd AR_BurstDur, ds_ctl3 := ds_ctl3 ?s OR push_bit 20 rr\<rparr>) =
    (view_setup l t p (r OR push_bit 20 rr) n k fl (tx_view_of d))
      \<lparr>tv_rts := fl AND 0x4 \<noteq> 0, tv_cts := fl AND 0x8 \<noteq> 0, tv_burst := take_bit 15 rd\<rparr>"
  proof -
    have s: "tx_view_of (setup_txdesc_ctl l t p (r OR push_bit 20 rr) n k fl d) =
        view_setup l t p (r OR push_bit 20 rr) n k fl (tx_view_of d)"
      by (rule refine_setup [OF assms])
    have e: "setup_txdesc_ctl l t p (r OR push_bit 20 rr) n k fl d = ?s\<lparr>ds_ctl3 := ds_ctl3 ?s OR push_bit 20 rr\<rparr>"
      by (simp add: setup_txdesc_ctl_def Let_def)
    have z: "\<not> tv_rts (tx_view_of ?s)" "\<not> tv_cts (tx_view_of ?s)" "tv_burst (tx_view_of ?s) = 0"
      by (simp_all add: refine_setup [OF assms] view_setup_def)
    show ?thesis
      unfolding s [symmetric] e
      using z by (simp add: tx_view_of_def rate_view_of_def view_simps bit_simps)
  qed
  show ?thesis
    unfolding ar5416SetupTxDesc_def view_SetupTxDesc_def Let_def
    by (cases "isValidTxRate rr") (simp_all add: refine_setup [OF assms] v)
qed

lemma refine_FillTxDesc:
  assumes "n < 4096"
  shows "tx_view_of (ar5416FillTxDesc n True l d0 d) = view_FillTxDesc n l (tx_view_of d)"
proof -
  have "take_bit 12 n = n" using assms by (simp add: take_bit_eq_mod mod_word_less)
  then obtain q where "n = take_bit 12 q" by metis
  then show ?thesis
    by (simp add: ar5416FillTxDesc_def view_FillTxDesc_def Let_def tx_view_of_def rate_view_of_def view_simps bit_simps)
qed

section \<open>The calls of the transmit path\<close>

text \<open>
  Each call the transmit path logs, carried out on the descriptors: unsigned arguments widen to 32 bits.
  \<^verbatim>\<open>ah_set11nTxDesc\<close> has one caller, which passes the power 60 and an unsigned key index; the power and the
  key index of \<^verbatim>\<open>ah_setupTxDesc\<close> are those of the logged call.
\<close>

definition hal_exec :: "(bufref \<Rightarrow> ar5416_desc) \<Rightarrow> owl_act \<Rightarrow> (bufref \<Rightarrow> ar5416_desc) option" where
  "hal_exec D a = (case a of
     Hal_set11nTxDesc b l t k kt fl \<Rightarrow>
       Some (D(b := ar5416Set11nTxDesc (ucast l) (ucast t) 60 (ucast k) (ucast kt) (ucast fl) (D b)))
   | Hal_setupTxDesc b pl hl t p r n k fl rr rd \<Rightarrow> do {
       (ok, d) \<leftarrow> ar5416SetupTxDesc (of_int pl) (ucast t) p r n k (ucast fl) rr rd (D b);
       Some (D(b := d)) }
   | Hal_fillKeyTxDesc b kt \<Rightarrow> Some (D(b := ar5416FillKeyTxDesc (ucast kt) (D b)))
   | Hal_fillTxDesc b n f l \<Rightarrow> Some (D(b := ar5416FillTxDesc n f l (D b) (D b)))
   | Hal_clr11nAggr b \<Rightarrow> Some (D(b := ar5416Clr11nAggr (D b)))
   | Hal_set11nBurstDuration b \<Rightarrow> Some (D(b := ar5416Set11nBurstDuration 0 (D b)))
   | Hal_set11nVirtualMoreFrag b \<Rightarrow> Some (D(b := ar5416Set11nVirtualMoreFrag 0 (D b)))
   | Hal_set11nAggrFirst b l n \<Rightarrow> Some (D(b := ar5416Set11nAggrFirst (ucast l) (ucast n) (D b)))
   | Hal_set11nAggrMiddle b n \<Rightarrow> Some (D(b := ar5416Set11nAggrMiddle (ucast n) (D b)))
   | Hal_set11nAggrLast b \<Rightarrow> Some (D(b := ar5416Set11nAggrLast (D b)))
   | Hal_set11nRateScenario b du rr series fl \<Rightarrow> do {
       d \<leftarrow> ar5416Set11nRateScenario (du \<noteq> 0) rr series fl (D b);
       Some (D(b := d)) }
   | _ \<Rightarrow> Some D)"

definition view_exec :: "(bufref \<Rightarrow> tx_view) \<Rightarrow> owl_act \<Rightarrow> (bufref \<Rightarrow> tx_view) option" where
  "view_exec V a = (case a of
     Hal_set11nTxDesc b l t k kt fl \<Rightarrow>
       Some (V(b := view_Set11nTxDesc (ucast l) (ucast t) 60 (ucast k) (ucast kt) (ucast fl) (V b)))
   | Hal_setupTxDesc b pl hl t p r n k fl rr rd \<Rightarrow> do {
       (ok, v) \<leftarrow> view_SetupTxDesc (of_int pl) (ucast t) p r n k (ucast fl) rr rd (V b);
       Some (V(b := v)) }
   | Hal_fillKeyTxDesc b kt \<Rightarrow> Some (V(b := view_FillKeyTxDesc (ucast kt) (V b)))
   | Hal_fillTxDesc b n f l \<Rightarrow> Some (V(b := view_FillTxDesc n l (V b)))
   | Hal_clr11nAggr b \<Rightarrow> Some (V(b := view_Clr11nAggr (V b)))
   | Hal_set11nBurstDuration b \<Rightarrow> Some (V(b := (V b)\<lparr>tv_burst := 0\<rparr>))
   | Hal_set11nVirtualMoreFrag b \<Rightarrow> Some (V(b := (V b)\<lparr>tv_vmf := False\<rparr>))
   | Hal_set11nAggrFirst b l n \<Rightarrow> Some (V(b := view_Set11nAggrFirst (ucast l) (ucast n) (V b)))
   | Hal_set11nAggrMiddle b n \<Rightarrow> Some (V(b := view_Set11nAggrMiddle (ucast n) (V b)))
   | Hal_set11nAggrLast b \<Rightarrow> Some (V(b := view_Set11nAggrLast (V b)))
   | Hal_set11nRateScenario b du rr series fl \<Rightarrow> do {
       v \<leftarrow> view_Set11nRateScenario (du \<noteq> 0) rr series fl (V b);
       Some (V(b := v)) }
   | _ \<Rightarrow> Some V)"

text \<open>The frame type has 4 bits, and a frame is one segment of less than 4096 bytes.\<close>

definition act_ok :: "owl_act \<Rightarrow> bool" where
  "act_ok a = (case a of Hal_setupTxDesc b pl hl t p r n k fl rr rd \<Rightarrow> t < 16
     | Hal_fillTxDesc b n f l \<Rightarrow> f \<and> n < 4096 | _ \<Rightarrow> True)"

definition views :: "(bufref \<Rightarrow> ar5416_desc) \<Rightarrow> bufref \<Rightarrow> tx_view" where
  "views D b = tx_view_of (D b)"

lemma views_upd: "views (D(b := d)) = (views D)(b := tx_view_of d)"
  by (auto simp: views_def)

lemma ucast_type_less: "t < 16 \<Longrightarrow> (ucast (t :: u8) :: u32) < 16"
  by (simp add: word_less_nat_alt)

lemma hal_exec_refines:
  assumes "act_ok a"
  shows "map_option views (hal_exec D a) = view_exec (views D) a"
proof (cases a)
  case (Hal_setupTxDesc b pl hl t p r n k fl rr rd)
  then have t: "(ucast t :: u32) < 16" using assms by (simp add: act_ok_def ucast_type_less)
  have r: "view_SetupTxDesc (of_int pl) (ucast t) p r n k (ucast fl) rr rd (views D b) =
      map_option (\<lambda>(ok, d). (ok, tx_view_of d))
        (ar5416SetupTxDesc (of_int pl) (ucast t) p r n k (ucast fl) rr rd (D b))"
    by (simp add: views_def refine_SetupTxDesc [OF t])
  show ?thesis
    unfolding hal_exec_def view_exec_def Hal_setupTxDesc owl_act.case r
    by (cases "ar5416SetupTxDesc (of_int pl) (ucast t) p r n k (ucast fl) rr rd (D b)")
      (auto simp: views_upd)
next
  case (Hal_set11nRateScenario b du rr series fl)
  have r: "view_Set11nRateScenario (du \<noteq> 0) rr series fl (views D b) =
      map_option tx_view_of (ar5416Set11nRateScenario (du \<noteq> 0) rr series fl (D b))"
    by (simp add: views_def refine_RateScenario)
  show ?thesis
    unfolding hal_exec_def view_exec_def Hal_set11nRateScenario owl_act.case r
    by (cases "ar5416Set11nRateScenario (du \<noteq> 0) rr series fl (D b)") (auto simp: views_upd)
next
  case (Hal_fillTxDesc b n f l)
  then show ?thesis
    using assms by (simp add: hal_exec_def view_exec_def act_ok_def views_upd refine_FillTxDesc) (simp add: views_def)
qed (simp_all add: hal_exec_def view_exec_def views_upd,
  simp_all add: views_def refine_AggrFirst refine_AggrMiddle refine_AggrLast refine_Clr11nAggr refine_FillKey
    refine_BurstDuration refine_VirtualMoreFrag refine_Set11nTxDesc)

lemma hal_run_refines:
  "list_all act_ok as \<Longrightarrow> map_option views (foldM hal_exec D as) = foldM view_exec (views D) as"
proof (induction as arbitrary: D)
  case (Cons a as)
  then have a: "view_exec (views D) a = map_option views (hal_exec D a)" "list_all act_ok as"
    by (simp_all add: hal_exec_refines)
  show ?case using Cons.IH [OF a(2)] by (cases "hal_exec D a") (simp_all add: a(1))
qed simp

text \<open>
  Property C22. The descriptor operations refine the operations on the abstract descriptor, whatever the
  transmit path calls and in whatever order: what the hardware reads in the control words after the calls
  is the abstract descriptor after the abstract calls, field by field, as long as frame types have four
  bits and segments are below 4096 bytes.
\<close>

theorem descriptor_calls_refine:
  "list_all act_ok as \<Longrightarrow> map_option views (foldM hal_exec D as) = foldM view_exec (views D) as"
  by (rule hal_run_refines)

definition desc0 :: ar5416_desc where
  "desc0 = \<lparr>ds_ctl0 = 0xFFFFFFFF, ds_ctl1 = 0xFFFFFFFF, ds_ctl2 = 0, ds_ctl3 = 0, ds_ctl4 = 0, ds_ctl5 = 0,
     ds_ctl6 = 0xFFFFFFFF, ds_ctl7 = 0, ds_txstatus = replicate 10 0\<rparr>"

definition calls0 :: "owl_act list" where
  "calls0 = [Hal_set11nTxDesc 0 1500 0 3 2 1, Hal_fillTxDesc 0 1500 True True, Hal_set11nAggrMiddle 0 10,
     Hal_set11nAggrFirst 0 3000 10, Hal_setupTxDesc 1 24 0 0 60 0x0b 11 0xFF 0x11 0 0, Hal_set11nAggrLast 1]"

theorem descriptor_calls_refine_witness:
  "map_option views (foldM hal_exec (\<lambda>_. desc0) calls0) = foldM view_exec (views (\<lambda>_. desc0)) calls0 \<and>
   map_option (\<lambda>V. (tv_isaggr (V 0), tv_moreaggr (V 0), tv_aggrlen (V 0), tv_delims (V 0), tv_len (V 0), tv_moreaggr (V 1)))
     (foldM view_exec (views (\<lambda>_. desc0)) calls0) = Some (True, True, 3000, 10, 1500, False)"
proof -
  have "list_all act_ok calls0" by code_simp
  moreover have "map_option (\<lambda>V. (tv_isaggr (V 0), tv_moreaggr (V 0), tv_aggrlen (V 0), tv_delims (V 0), tv_len (V 0), tv_moreaggr (V 1)))
     (foldM view_exec (views (\<lambda>_. desc0)) calls0) = Some (True, True, 3000, 10, 1500, False)"
    by code_simp
  ultimately show ?thesis using descriptor_calls_refine [of calls0] by blast
qed

end
