(* ===== verification/Hal_Aggr.thy ===== *)
theory Hal_Aggr
  imports Hal_View Owl_Live
begin

text \<open>
  The composition of the driver and the hardware layer: the descriptors of an aggregate that
  \<^verbatim>\<open>ath_tgt_tx_form_aggr\<close> forms and \<^verbatim>\<open>ath_tgt_tx_sched_aggr\<close> hands over are delimited for the hardware.
\<close>

section \<open>What the driver logs\<close>

lemma foldM_keeps:
  assumes "\<And>s x s'. f s x = Some s' \<Longrightarrow> P s \<Longrightarrow> P s'" "foldM f s xs = Some s'" "P s"
  shows "P s'"
  using assms(2,3)
proof (induction xs arbitrary: s)
  case (Cons x xs)
  from Cons.prems(1) obtain u where "f s x = Some u" "foldM f u xs = Some s'"
    by (auto split: Option.bind_splits)
  with Cons.IH assms(1) Cons.prems(2) show ?case by blast
qed simp

lemma findrate_logs:
  "ath_tgt_rate_findrate env n series s = Some (rcs, p, s') \<Longrightarrow> acts s' = acts s \<and> txbufs s' = txbufs s"
  by (auto simp: ath_tgt_rate_findrate_def upd_node_def split: Option.bind_splits)

lemma lookup_logs:
  "ath_lookup_rate env n b s = Some (l, s') \<Longrightarrow>
    acts s' = acts s \<and> (\<forall>x. bf_ndelim (txbufs s' x) = bf_ndelim (txbufs s x))"
  by (auto simp: ath_lookup_rate_def Let_def upd_buf_def require_def dest!: findrate_logs split: Option.bind_splits if_splits)

definition middle :: "'a owl_scheme \<Rightarrow> bufref \<Rightarrow> owl_act" where
  "middle s b = Hal_set11nAggrMiddle b (bf_ndelim (txbufs s b))"

lemma form_add_logs:
  assumes "form_add t b bs g s = (g', s')"
  shows "ag_q g' = ag_q g @ [b]" "acts s' = acts s @ [middle s' b]"
    "x \<noteq> b \<Longrightarrow> bf_ndelim (txbufs s' x) = bf_ndelim (txbufs s x)"
  using assms by (auto simp: form_add_def Let_def owl_upd middle_def)

lemma form_loop_logs:
  assumes "form_loop env t bs g s = Some (st, g', s')" "distinct (ag_q g @ bs)"
  shows "\<exists>new. ag_q g' = ag_q g @ new \<and> acts s' = acts s @ map (middle s') new \<and>
    distinct (ag_q g @ new) \<and> set new \<subseteq> set bs \<and>
    (\<forall>x. x \<notin> set new \<longrightarrow> bf_ndelim (txbufs s' x) = bf_ndelim (txbufs s x))"
  using assms
proof (induction env t bs g s arbitrary: st g' s' rule: form_loop.induct)
  case (2 env t b bs g s)
  let ?g = "\<lambda>l. g\<lparr>ag_lim := Some l\<rparr>"
  show ?case
  proof (cases "BAW_WITHIN (seq_start (an_tid s t)) (baw_size (an_tid s t)) (SEQNO_FROM_BF_SEQNO (bf_seqno (txbufs s b)))")
    case False
    then show ?thesis using 2(2,3) by (auto simp: Let_def intro!: exI [of _ "[]"])
  next
    case True
    then obtain l s1 where l: "(case ag_lim g of Some l \<Rightarrow> Some (l, s) | None \<Rightarrow> ath_lookup_rate env (fst t) b s) = Some (l, s1)"
      using 2(2) by (auto simp: Let_def split: Option.bind_splits)
    have s1: "acts s1 = acts s" "\<And>x. bf_ndelim (txbufs s1 x) = bf_ndelim (txbufs s x)"
      using l by (auto split: option.splits dest!: lookup_logs)
    obtain g2 s2 where g2: "form_add t b bs (?g l) s1 = (g2, s2)" by fastforce
    show ?thesis
    proof (cases "g' = ?g l \<and> s' = s1")
      case True
      then show ?thesis using 2(3) s1 by (intro exI [of _ "[]"]) auto
    next
      case False
      from 2(2) \<open>BAW_WITHIN _ _ _\<close> l False g2 have loop: "form_loop env t bs g2 s2 = Some (st, g', s')"
        and c: "\<not> (ag_q (?g l) \<noteq> [] \<and> uint l < uint (ag_al (?g l)) + uint (ag_bpad (?g l)) + uint (4 + bf_pktlen (txbufs s b)))"
          "\<not> of_nat (length (ag_q (?g l))) \<ge> min (ucast (baw_size (an_tid s t) div 2)) (max_subframes env)"
          "bf_comp (txbufs s b) = Some Comp_Aggr"
        by (auto simp: Let_def require_def split: if_splits)
      note add = form_add_logs [OF g2]
      have d: "distinct (ag_q g2 @ bs)" using 2(3) add(1) by auto
      have "\<exists>new. ag_q g' = ag_q g2 @ new \<and> acts s' = acts s2 @ map (middle s') new \<and>
          distinct (ag_q g2 @ new) \<and> set new \<subseteq> set bs \<and>
          (\<forall>x. x \<notin> set new \<longrightarrow> bf_ndelim (txbufs s' x) = bf_ndelim (txbufs s2 x))"
        using 2(1) [OF refl refl _ l refl refl refl _ c(2) _ g2 [symmetric] refl loop d] True c by (simp add: require_def)
      then obtain new where new: "ag_q g' = ag_q g2 @ new" "acts s' = acts s2 @ map (middle s') new"
          "distinct (ag_q g2 @ new)" "set new \<subseteq> set bs"
          "\<And>x. x \<notin> set new \<Longrightarrow> bf_ndelim (txbufs s' x) = bf_ndelim (txbufs s2 x)" by blast
      have "b \<notin> set new" using new(3) add(1) by auto
      then have "middle s' b = middle s2 b" by (simp add: middle_def new(5))
      then show ?thesis
        using new add s1 by (intro exI [of _ "b # new"]) (auto simp: middle_def)
    qed
  qed
qed (auto intro!: exI [of _ "[]"])

lemma form_aggr_logs:
  assumes "ath_tgt_tx_form_aggr env t s = Some (st, q, s')" "distinct (buf_q (an_tid s t))"
  shows "acts s' = acts s @ map (middle s') q \<and> distinct q"
proof -
  obtain first rest where f: "buf_q (an_tid s t) = first # rest"
    using assms(1) by (auto simp: ath_tgt_tx_form_aggr_def split: list.splits)
  then obtain g s1 where l: "form_loop env t (first # rest) aggr0 s = Some (st, g, s1)" "q = ag_q g"
    "s' = upd_buf first (\<lambda>bf. bf\<lparr>bf_al := ag_al g, bf_nframes := of_nat (length (ag_q g))\<rparr>) s1"
    using assms(1) by (auto simp: ath_tgt_tx_form_aggr_def Let_def simp del: form_loop.simps split: Option.bind_splits)
  have "middle s' = middle s1" by (auto simp: l(3) middle_def upd_buf_def)
  moreover have "distinct (ag_q aggr0 @ first # rest)" using assms(2) f by (simp add: aggr0_def)
  ultimately show ?thesis
    using form_loop_logs [OF l(1)] l(2) by (auto simp: l(3) aggr0_def upd_buf_def)
qed

lemma rate_series_length:
  "foldM (\<lambda>xs rc. do { x \<leftarrow> rate_series env s bf pm rc; Some (xs @ [x]) }) xs rcs = Some ys \<Longrightarrow>
    length ys = length xs + length rcs"
  by (induction rcs arbitrary: xs) (auto split: Option.bind_splits)

lemma set_rate_logs:
  assumes "ath_buf_set_rate env b s = Some s'"
  shows "\<exists>rr series fl. length series = 4 \<and> s' = emit (Hal_set11nRateScenario b 1 rr series fl) s"
proof -
  from assms obtain rr series fl pm where
    "foldM (\<lambda>xs rc. do { x \<leftarrow> rate_series env s (txbufs s b) pm rc; Some (xs @ [x]) }) [] (take 4 (bf_rcs (txbufs s b))) = Some series"
    "4 \<le> length (bf_rcs (txbufs s b))" "s' = emit (Hal_set11nRateScenario b 1 rr series fl) s"
    by (auto simp: ath_buf_set_rate_def Let_def require_def split: Option.bind_splits if_splits)
  then show ?thesis
    using rate_series_length by (intro exI [of _ rr] exI [of _ series] exI [of _ fl]) fastforce
qed

text \<open>The calls that leave the control words alone.\<close>

definition aside :: "owl_act \<Rightarrow> bool" where
  "aside a \<longleftrightarrow> (\<forall>V. view_exec V a = Some V) \<and> act_ok a"

lemma aside_run: "list_all aside as \<Longrightarrow> foldM view_exec V as = Some V \<and> list_all act_ok as"
  by (induction as) (auto simp: aside_def)

lemma add_ucast_logs:
  "\<exists>as. acts (ath_tgt_txq_add_ucast env b s) = acts s @ as \<and> list_all aside as \<and>
     txbufs (ath_tgt_txq_add_ucast env b s) = txbufs s"
  by (auto simp: ath_tgt_txq_add_ucast_def Let_def owl_upd ATH_TXQ_INSERT_TAIL_def ah_procTxDesc_def
      aside_def view_exec_def act_ok_def split: prod.splits option.splits)

lemma send_aggr_logs:
  assumes "send_aggr env b lst s = Some s'" "b \<noteq> lst"
  shows "\<exists>rr series fl as. length series = 4 \<and> list_all aside as \<and>
    acts s' = acts s @ [Hal_set11nRateScenario b 1 rr series fl,
      Hal_set11nAggrFirst b (bf_al (txbufs s' b)) (bf_ndelim (txbufs s b)), Hal_set11nAggrLast lst] @ as \<and>
    (\<forall>x. x \<noteq> lst \<longrightarrow> bf_ndelim (txbufs s' x) = bf_ndelim (txbufs s x))"
proof -
  let ?s1 = "upd_buf b (\<lambda>bf. bf\<lparr>bf_isaggr := True\<rparr>)
     (upd_buf lst (\<lambda>bf. bf\<lparr>bf_next := None, bf_ndelim := 0\<rparr>) (set_link (bf_lastds (txbufs s lst)) None s))"
  obtain s2 where s2: "ath_buf_set_rate env b ?s1 = Some s2"
    using assms(1) by (auto simp: send_aggr_def Let_def split: Option.bind_splits)
  let ?s3 = "emit (Hal_set11nAggrLast lst) (upd_buf b (\<lambda>bf. bf\<lparr>bf_lastds := bf_lastds (txbufs s2 lst)\<rparr>)
     (emit (Hal_set11nAggrFirst b (bf_al (txbufs s2 b)) (bf_ndelim (txbufs s2 b))) s2))"
  have s': "s' = ath_tgt_txq_add_ucast env b ?s3"
    using assms(1) s2 by (simp add: send_aggr_def Let_def) (simp add: owl_upd)
  obtain rr series fl where r: "length series = 4" "s2 = emit (Hal_set11nRateScenario b 1 rr series fl) ?s1"
    using set_rate_logs [OF s2] by blast
  obtain as where as: "acts s' = acts ?s3 @ as" "list_all aside as" "txbufs s' = txbufs ?s3"
    using add_ucast_logs [of env b ?s3] unfolding s' by blast
  have n: "bf_ndelim (txbufs s' x) = bf_ndelim (txbufs s x)" if "x \<noteq> lst" for x
    using that by (simp add: as(3) r(2) owl_upd)
  have d: "bf_ndelim (txbufs s2 b) = bf_ndelim (txbufs s b)" "bf_al (txbufs s' b) = bf_al (txbufs s2 b)"
    using assms(2) by (simp_all add: as(3) r(2) owl_upd)
  have "acts s' = acts s @ [Hal_set11nRateScenario b 1 rr series fl,
      Hal_set11nAggrFirst b (bf_al (txbufs s' b)) (bf_ndelim (txbufs s b)), Hal_set11nAggrLast lst] @ as"
    unfolding as(1) d [symmetric] by (simp add: d(2) r(2) emit_def upd_buf_def set_link_def)
  then show ?thesis using r(1) as(2) n by blast
qed

section \<open>What the hardware sees\<close>

lemma run_middles:
  "foldM view_exec V (map (middle s) q) =
     Some (\<lambda>b. if b \<in> set q then view_Set11nAggrMiddle (ucast (bf_ndelim (txbufs s b))) (V b) else V b)"
  by (induction q arbitrary: V) (auto simp: middle_def view_exec_def view_Set11nAggrMiddle_def fun_eq_iff)

text \<open>An aggregate in the descriptors: \<open>nd\<close> gives the delimiters behind each frame, \<open>al\<close> is the length.\<close>

definition delimited :: "(bufref \<Rightarrow> tx_view) \<Rightarrow> (bufref \<Rightarrow> u8) \<Rightarrow> u16 \<Rightarrow> bufref list \<Rightarrow> bool" where
  "delimited V nd al q \<longleftrightarrow> list_all (\<lambda>b. tv_isaggr (V b)) q \<and>
     list_all (\<lambda>b. tv_moreaggr (V b) \<and> tv_delims (V b) = ucast (nd b)) (butlast q) \<and>
     \<not> tv_moreaggr (V (last q)) \<and> tv_delims (V (last q)) = 0 \<and> tv_aggrlen (V (hd q)) = ucast al"

lemma take_bit_ucast:
  "take_bit 8 (ucast (x :: u8) :: u32) = ucast x" "take_bit 16 (ucast (y :: u16) :: u32) = ucast y"
  by (rule bit_word_eqI, auto simp: bit_simps dest: bit_imp_le_length)+

lemma aggregate_run:
  assumes "distinct q" "2 \<le> length q" "length series = 4" "list_all aside as"
  shows "\<exists>V'. foldM view_exec V (map (middle s) q @ [Hal_set11nRateScenario (hd q) 1 rr series fl,
      Hal_set11nAggrFirst (hd q) al (bf_ndelim (txbufs s (hd q))), Hal_set11nAggrLast (last q)] @ as) = Some V' \<and>
    delimited V' (\<lambda>b. bf_ndelim (txbufs s b)) al q"
proof -
  obtain h m l where q: "q = h # m @ [l]"
    using assms(2) by (cases q; cases "tl q" rule: rev_cases) auto
  have d: "h \<noteq> l" "h \<notin> set m" "l \<notin> set m" using assms(1) q by auto
  define V1 where "V1 = (\<lambda>b. if b \<in> set q then view_Set11nAggrMiddle (ucast (bf_ndelim (txbufs s b))) (V b) else V b)"
  have m: "foldM view_exec V (map (middle s) q) = Some V1" by (simp add: V1_def run_middles)
  have v1: "V1 b = view_Set11nAggrMiddle (ucast (bf_ndelim (txbufs s b))) (V b)" if "b \<in> set q" for b
    using that by (simp add: V1_def)
  obtain v where v: "view_Set11nRateScenario True rr series fl (V1 h) = Some v" "tv_isaggr v = tv_isaggr (V1 h)"
    using assms(3) by (simp add: view_Set11nRateScenario_def require_def)
  let ?V = "V1(h := view_Set11nAggrFirst (ucast al) (ucast (bf_ndelim (txbufs s h))) v)"
  let ?V' = "?V(l := view_Set11nAggrLast (?V l))"
  have "foldM view_exec V1 ([Hal_set11nRateScenario h 1 rr series fl,
      Hal_set11nAggrFirst h al (bf_ndelim (txbufs s h)), Hal_set11nAggrLast l] @ as) = Some ?V'"
    using v(1) aside_run [OF assms(4)] by (simp add: view_exec_def)
  moreover have "delimited ?V' (\<lambda>b. bf_ndelim (txbufs s b)) al q"
    using d v1 by (auto simp: delimited_def q list_all_iff butlast_append view_Set11nAggrFirst_def view_Set11nAggrLast_def
        view_Set11nAggrMiddle_def take_bit_ucast)
  ultimately show ?thesis
    unfolding foldM_append m using q by auto
qed

lemma aggregate_acts_ok:
  "list_all aside as \<Longrightarrow> list_all act_ok (map (middle s) q @ [Hal_set11nRateScenario b 1 rr series fl,
      Hal_set11nAggrFirst b al nd, Hal_set11nAggrLast l] @ as)"
  by (auto simp: list_all_iff aside_def middle_def act_ok_def [of "Hal_set11nAggrMiddle _ _"]
      act_ok_def [of "Hal_set11nAggrFirst _ _ _"] act_ok_def [of "Hal_set11nAggrLast _"]
      act_ok_def [of "Hal_set11nRateScenario _ _ _ _ _"])

lemma delimited_cong:
  assumes "\<forall>b\<in>set (butlast q). nd b = nd' b"
  shows "delimited V nd al q = delimited V nd' al q"
  using assms by (auto simp: delimited_def list_all_iff)

text \<open>
  Property C23. The descriptors of an aggregate are delimited for the hardware. For a TID that can send,
  the driver forms an aggregate; when it has two frames or more, handing it over returns, and the calls it
  makes of the hardware layer leave, whatever the descriptors held before: every frame marked as part of an
  aggregate, \<^verbatim>\<open>AR_MoreAggr\<close> set in all but the last and clear in the last, the number of delimiters of each
  frame but the last in its descriptor and 0 in the last, and the length of the aggregate in the first.
\<close>

theorem aggregate_seen_by_hardware:
  assumes "aggr_ready env s t" "currates_ok s" "distinct (buf_q (an_tid s t))" "buf_q (an_tid s t) = b # bs"
  shows "\<exists>st q s1. ath_tgt_tx_form_aggr env t s = Some (st, q, s1) \<and>
    (if 2 \<le> length q then
       \<exists>s2 as V. send_aggr env b (last q) s1 = Some s2 \<and> acts s2 = acts s @ as \<and>
         map_option views (foldM hal_exec D as) = Some V \<and>
         delimited V (\<lambda>x. bf_ndelim (txbufs s2 x)) (bf_al (txbufs s2 b)) q
     else True)"
proof -
  obtain st q s1 where f: "ath_tgt_tx_form_aggr env t s = Some (st, q, s1)" "q @ buf_q (an_tid s1 t) = b # bs"
      "currates_ok s1" "q \<noteq> [] \<longrightarrow> rates_set s1 (bf_rcs (txbufs s1 b))"
    using form_aggr_frame [OF assms(1,2,4)] by blast
  have l: "acts s1 = acts s @ map (middle s1) q" "distinct q"
    using form_aggr_logs [OF f(1) assms(3)] by simp_all
  show ?thesis
  proof (cases "2 \<le> length q")
    case True
    then have h: "hd q = b" "q \<noteq> []" "b \<noteq> last q"
      using f(2) l(2) by (cases q; auto)+
    then obtain s2 where s2: "send_aggr env b (last q) s1 = Some s2"
      using send_aggr_run [OF f(3)] f(4) by blast
    obtain rr series fl as where a: "length series = 4" "list_all aside as"
      "acts s2 = acts s1 @ [Hal_set11nRateScenario b 1 rr series fl,
        Hal_set11nAggrFirst b (bf_al (txbufs s2 b)) (bf_ndelim (txbufs s1 b)), Hal_set11nAggrLast (last q)] @ as"
      "\<forall>x. x \<noteq> last q \<longrightarrow> bf_ndelim (txbufs s2 x) = bf_ndelim (txbufs s1 x)"
      using send_aggr_logs [OF s2 h(3)] by blast
    define calls where "calls = map (middle s1) q @ [Hal_set11nRateScenario b 1 rr series fl,
        Hal_set11nAggrFirst b (bf_al (txbufs s2 b)) (bf_ndelim (txbufs s1 b)), Hal_set11nAggrLast (last q)] @ as"
    obtain V where V: "foldM view_exec (views D) calls = Some V"
        "delimited V (\<lambda>x. bf_ndelim (txbufs s1 x)) (bf_al (txbufs s2 b)) q"
      using aggregate_run [OF l(2) True a(1,2), of "views D" s1 rr fl "bf_al (txbufs s2 b)"] h(1)
      unfolding calls_def by blast
    have "\<forall>x\<in>set (butlast q). bf_ndelim (txbufs s1 x) = bf_ndelim (txbufs s2 x)"
    proof
      fix x assume "x \<in> set (butlast q)"
      then have "x \<noteq> last q" using l(2) h(2) by (cases q rule: rev_cases) auto
      then show "bf_ndelim (txbufs s1 x) = bf_ndelim (txbufs s2 x)" using a(4) by simp
    qed
    then have "delimited V (\<lambda>x. bf_ndelim (txbufs s2 x)) (bf_al (txbufs s2 b)) q"
      using V(2) delimited_cong [of q "\<lambda>x. bf_ndelim (txbufs s1 x)" "\<lambda>x. bf_ndelim (txbufs s2 x)"] by simp
    moreover have "map_option views (foldM hal_exec D calls) = Some V"
      using hal_run_refines [of calls D] V(1) aggregate_acts_ok [OF a(2)] unfolding calls_def by metis
    moreover have "acts s2 = acts s @ calls" using a(3) l(1) by (simp add: calls_def)
    ultimately show ?thesis using f(1) s2 True by auto
  qed (use f(1) in auto)
qed

text \<open>Two retried multicast frames of 100 bytes: their rate is fixed, and their limit is 8192 bytes.\<close>

definition owl_agg :: owl where
  "owl_agg = owl2\<lparr>an_tid := (\<lambda>t. tid0\<lparr>buf_q := [0, 1]\<rparr>),
     txbufs := (\<lambda>b. bf0\<lparr>bf_seqno := of_nat (16 * (b + 5)), bf_isretried := True, bf_lastds := b, bf_txq := 1,
       bf_ismcast := True, bf_rcs := map (\<lambda>r. r\<lparr>rcs_max4msframelen := 8192\<rparr>) rc0_series\<rparr>)\<rparr>"

lemma owl_agg_lookup:
  "\<exists>rcs. ath_lookup_rate env0 0 0 owl_agg = Some (8192, upd_buf 0 (\<lambda>bf. bf\<lparr>bf_rcs := rcs\<rparr>) owl_agg)"
proof -
  have "map_option fst (ath_lookup_rate env0 0 0 owl_agg) = Some 8192" "bf_ismcast (txbufs owl_agg 0)" by code_simp+
  then show ?thesis
    by (auto simp: ath_lookup_rate_def Let_def split: Option.bind_splits if_splits)
qed

lemma owl_agg_fields:
  "BAW_WITHIN (seq_start (an_tid owl_agg (0, 0))) (baw_size (an_tid owl_agg (0, 0))) (SEQNO_FROM_BF_SEQNO (bf_seqno (txbufs owl_agg 0)))"
  "BAW_WITHIN (seq_start (an_tid owl_agg (0, 0))) (baw_size (an_tid owl_agg (0, 0))) (SEQNO_FROM_BF_SEQNO (bf_seqno (txbufs owl_agg 1)))"
  "buf_q (an_tid owl_agg (0, 0)) = [0, 1]" "bf_pktlen (txbufs owl_agg b) = 100" "bf_keytype (txbufs owl_agg b) = 0"
  "bf_comp (txbufs owl_agg b) = Some Comp_Aggr" "bf_retries (txbufs owl_agg b) = 0"
  "min (ucast (baw_size (an_tid owl_agg (0, 0)) div 2)) (max_subframes env0) = 17"
  "ATH_AGGR_GET_NDELIM 100 = 38" "PADBYTES 104 = 0" "key_delims 0 = 0" "\<not> (17 :: u32) \<le> 1"
  by code_simp+

lemma owl_agg_forms: "map_option (\<lambda>(st, q, s). q) (ath_tgt_tx_form_aggr env0 (0, 0) owl_agg) = Some [0, 1]"
proof -
  obtain rcs where l: "ath_lookup_rate env0 0 0 owl_agg = Some (8192, upd_buf 0 (\<lambda>bf. bf\<lparr>bf_rcs := rcs\<rparr>) owl_agg)"
    using owl_agg_lookup by blast
  show ?thesis
    using owl_agg_fields by (simp add: ath_tgt_tx_form_aggr_def Let_def l aggr0_def require_def form_add_def owl_upd)
qed

theorem aggregate_seen_by_hardware_witness:
  "\<exists>st s1 s2 as V. ath_tgt_tx_form_aggr env0 (0, 0) owl_agg = Some (st, [0, 1], s1) \<and>
     send_aggr env0 0 1 s1 = Some s2 \<and> acts s2 = acts owl_agg @ as \<and>
     map_option views (foldM hal_exec (\<lambda>_. desc0) as) = Some V \<and> tv_moreaggr (V 0) \<and> \<not> tv_moreaggr (V 1)"
proof -
  have r: "aggr_ready env0 owl_agg (0, 0)" "currates_ok owl_agg" "distinct (buf_q (an_tid owl_agg (0, 0)))"
    "buf_q (an_tid owl_agg (0, 0)) = 0 # [1]"
    by code_simp+
  from aggregate_seen_by_hardware [OF r, of "\<lambda>_. desc0"] owl_agg_forms show ?thesis
    by (auto simp: delimited_def)
qed

end
