(* ===== verification/Hal_Mgmt.thy ===== *)
theory Hal_Mgmt
  imports Hal_Aggr Owl_Errors
begin

text \<open>
  A management frame from the host to the descriptor: what \<^verbatim>\<open>ath_tgt_send_mgt\<close> does with a frame for a
  known node, and what the hardware then reads in the descriptor of its buffer.
\<close>

section \<open>A frame the driver can send\<close>

text \<open>
  A free buffer \<open>b\<close>, a known node \<open>n\<close> of interface \<open>v\<close>, a management frame with a whole header that is not
  sent under RTS, and rates in the table.
\<close>

definition mgt_ready :: "'a owl_scheme \<Rightarrow> ath_mgt_hdr \<Rightarrow> u8 list \<Rightarrow> bufref \<Rightarrow> nat \<Rightarrow> nat \<Rightarrow> bool" where
  "mgt_ready s mh f b n v \<longleftrightarrow>
     sc_txbuf s \<noteq> [] \<and> hd (sc_txbuf s) = b \<and> bf_skbhead (txbufs s b) = [] \<and>
     n = unat (mh_ni_index mh) \<and> n < ATH_NODE_MAX \<and> an_valid (sc_sta s n) \<and> ni_vap (sc_sta s n) = Some v \<and>
     unat (mh_vap_index mh) < ATH_VAP_MAX \<and>
     24 \<le> length f \<and> length f + 4 < 4096 \<and> f ! 0 AND 0x0C = 0 \<and>
     (f ! 4 AND 1 \<noteq> 0 \<or> length f + 4 \<le> unat (iv_rtsthreshold (sc_vap s v))) \<and>
     unat (ath_get_minrateidx s (unat (mh_vap_index mh))) < length (sc_currates s) \<and>
     unat (sc_protrix s) < length (sc_currates s)"

text \<open>The rate code of a frame: the lowest rate of the interface, with the bit of the short preamble.\<close>

definition mgt_rate :: "'a owl_scheme \<Rightarrow> ath_mgt_hdr \<Rightarrow> u8" where
  "mgt_rate s mh =
     (let r = sc_currates s ! unat (ath_get_minrateidx s (unat (mh_vap_index mh)))
      in hr_rateCode r OR (if mh_flags mh = 1 then hr_shortPreamble r else 0))"

text \<open>The frame with its sequence number, least significant byte first.\<close>

definition mgt_frame :: "u16 \<Rightarrow> u8 list \<Rightarrow> u8 list" where
  "mgt_frame sn f = f[22 := ucast (push_bit 4 sn), 23 := ucast (drop_bit 4 sn)]"

section \<open>What the hardware reads\<close>

text \<open>The descriptor of a frame \<open>f\<close>, before (\<open>v0\<close>) and after the calls.\<close>

definition mgt_view :: "ath_mgt_hdr \<Rightarrow> u8 list \<Rightarrow> u8 \<Rightarrow> u8 \<Rightarrow> tx_view \<Rightarrow> tx_view \<Rightarrow> bool" where
  "mgt_view mh f code cm v0 v \<longleftrightarrow>
     tv_len v = of_nat (length f + 4) \<and> tv_seglen v = of_nat (length f) \<and> \<not> tv_more v \<and> tv_power v = 60 \<and>
     tv_type v = (if f ! 0 AND 0xF0 = 0x50 then 4 else if f ! 0 AND 0xF0 = 0x90 then 1 else 0) \<and>
     tv_noack v = (f ! 4 AND 1 \<noteq> 0) \<and> tv_intreq v \<and> tv_clrdest v \<and> \<not> tv_rts v \<and> \<not> tv_cts v \<and>
     \<not> tv_isaggr v \<and> \<not> tv_moreaggr v \<and>
     tv_series v = replicate 4 \<lparr>rv_tries = 2, rv_rate = ucast code, rv_dur = 0, rv_rtscts = False, rv_40 = False,
       rv_sgi = False, rv_stbc = False, rv_chains = take_bit 3 (ucast cm)\<rparr> \<and>
     tv_keyvalid v \<and> tv_key v = (if f ! 1 AND 0x40 \<noteq> 0 then take_bit 7 (ucast (mh_keyix mh)) else 127) \<and>
     tv_encr v = (if f ! 1 AND 0x40 \<noteq> 0 \<and> f ! 0 AND 0xF0 = 0xB0 then take_bit 3 (ucast (mh_keytype mh)) else tv_encr v0)"

section \<open>What the driver logs\<close>

definition mgt_series :: "u8 \<Rightarrow> u8 \<Rightarrow> HAL_11N_RATE_SERIES list" where
  "mgt_series code cm = replicate 4 \<lparr>Tries = 2, Rate = ucast code, PktDuration = 0, ChSel = ucast cm, RateFlags = 0\<rparr>"

definition mgt_calls :: "ath_mgt_hdr \<Rightarrow> u8 list \<Rightarrow> u8 \<Rightarrow> u8 \<Rightarrow> bufref \<Rightarrow> int \<Rightarrow> owl_act list" where
  "mgt_calls mh f code cm b hdrlen =
     (let iswep = (f ! 1 AND 0x40 \<noteq> 0);
          ismcast = (f ! 4 AND 1 \<noteq> 0)
      in [Hal_setupTxDesc b (int (length f + 4)) hdrlen (snd (mgt_type (f ! 0))) 60 (ucast code) (if ismcast then 1 else 11)
            (scast (mgt_keyix iswep mh)) (if ismcast then 0x13 else 0x11) 0 0]
         @ (if iswep \<and> f ! 0 AND 0xF0 = 0xB0 then [Hal_fillKeyTxDesc b (mh_keytype mh)] else [])
         @ [Hal_fillTxDesc b (of_nat (length f)) True True, Hal_set11nRateScenario b 0 0 (mgt_series code cm) 0])"

lemma keyix_valid: "sint (k :: u8) \<noteq> uint HAL_TXKEYIX_INVALID" "(scast (k :: u8) :: u32) \<noteq> 0xFF"
proof -
  have "sint k < 128" using sint_lt [of k] by simp
  then show "sint k \<noteq> uint HAL_TXKEYIX_INVALID" by simp
  show "(scast k :: u32) \<noteq> 0xFF"
  proof
    assume "(scast k :: u32) = 0xFF"
    then have "bit (scast k :: u32) 8 = bit (0xFF :: u32) 8" "bit (scast k :: u32) 7 = bit (0xFF :: u32) 7" by simp_all
    then show False by (simp add: bit_simps)
  qed
qed

lemma mgt_seqno_run:
  assumes "24 \<le> length (frames s skb)"
  shows "\<exists>s'. mgt_seqno skb n s = Some s' \<and> acts s' = acts s \<and> txbufs s' = txbufs s \<and> sc_txq s' = sc_txq s \<and>
    sc_txbuf s' = sc_txbuf s \<and> sc_currates s' = sc_currates s \<and> sc_ic s' = sc_ic s \<and>
    frames s' = (frames s)(skb := mgt_frame (ni_txseqmgmt (sc_sta s n)) (frames s skb)) \<and>
    ni_txseqmgmt (sc_sta s' n) = INCR_seq (ni_txseqmgmt (sc_sta s n))"
proof -
  have "(ucast (drop_bit 8 (push_bit 4 sn)) :: u8) = ucast (drop_bit 4 sn)" for sn :: u16
    by (rule bit_word_eqI) (auto simp: bit_simps)
  then show ?thesis
    using assms by (simp add: mgt_seqno_def set_frame_byte_def set_at_def Let_def upd_node_def mgt_frame_def
        IEEE80211_SEQ_SEQ_SHIFT_def)
qed

lemma txqaddbuf_logs:
  "\<exists>as. acts (ath_tgt_txqaddbuf q b d s) = acts s @ as \<and> list_all aside as \<and> txbufs (ath_tgt_txqaddbuf q b d s) = txbufs s \<and>
     sc_txbuf (ath_tgt_txqaddbuf q b d s) = sc_txbuf s \<and> frames (ath_tgt_txqaddbuf q b d s) = frames s \<and>
     sc_sta (ath_tgt_txqaddbuf q b d s) = sc_sta s \<and>
     axq_q (sc_txq (ath_tgt_txqaddbuf q b d s) q) = axq_q (sc_txq s q) @ [b]"
  by (auto simp: ath_tgt_txqaddbuf_def Let_def owl_upd ATH_TXQ_INSERT_TAIL_def aside_def view_exec_def act_ok_def
      split: option.splits)

lemma filltxdesc_logs:
  assumes "bf_skbhead (txbufs s b) = [skb]"
  shows "acts (ath_filltxdesc b s) = acts s @ [Hal_fillTxDesc b (of_nat (length (frames s skb))) True True]"
    "txbufs (ath_filltxdesc b s) = (txbufs s)(b := (txbufs s b)\<lparr>bf_lastds := b\<rparr>)"
    "sc_txbuf (ath_filltxdesc b s) = sc_txbuf s" "frames (ath_filltxdesc b s) = frames s"
    "sc_sta (ath_filltxdesc b s) = sc_sta s" "sc_txq (ath_filltxdesc b s) = sc_txq s" "sc_ic (ath_filltxdesc b s) = sc_ic s"
  using assms by (simp_all add: ath_filltxdesc_def skb_first_def owl_upd Let_def)

lemma mgt_hand_over_run:
  fixes s :: "'a owl_scheme" and mh :: ath_mgt_hdr and code :: u8 and hl :: int
  assumes "bf_skbhead (txbufs s b) = [skb]" "length f = length (frames s skb)"
  defines "s' \<equiv> mgt_hand_over mh b (f ! 0) (f ! 1 AND 0x40 \<noteq> 0) (int (length f + 4)) hl (snd (mgt_type (f ! 0))) (ucast code)
      (if f ! 4 AND 1 \<noteq> 0 then 1 else 11) (if f ! 4 AND 1 \<noteq> 0 then 0x13 else 0x11) 0 0 s"
  shows "\<exists>as. acts s' = acts s @ mgt_calls mh f code (ic_tx_chainmask (sc_ic s)) b hl @ as \<and> list_all aside as \<and>
     bf_skb (txbufs s' b) = bf_skb (txbufs s b) \<and> bf_node (txbufs s' b) = bf_node (txbufs s b) \<and>
     sc_txbuf s' = sc_txbuf s \<and> frames s' = frames s \<and> sc_sta s' = sc_sta s \<and>
     axq_q (sc_txq s' 1) = axq_q (sc_txq s 1) @ [b]"
proof -
  define c where "c \<longleftrightarrow> f ! 1 AND 0x40 \<noteq> 0 \<and> f ! 0 AND 0xF0 = 0xB0"
  define fl :: u16 where "fl = (if f ! 4 AND 1 \<noteq> 0 then 0x13 else 0x11)"
  define a where "a = Hal_setupTxDesc b (int (length f + 4)) hl (snd (mgt_type (f ! 0))) 60 (ucast code)
    (if f ! 4 AND 1 \<noteq> 0 then 1 else 11) (scast (mgt_keyix (f ! 1 AND 0x40 \<noteq> 0) mh)) fl 0 0"
  define s0 where "s0 = upd_buf b (\<lambda>bf. bf\<lparr>bf_flags := fl\<rparr>) (emit a s)"
  define s1 where "s1 = (if c then emit (Hal_fillKeyTxDesc b (mh_keytype mh)) s0 else s0)"
  define s2 where "s2 = emit (Hal_set11nRateScenario b 0 0 (mgt_series code (ic_tx_chainmask (sc_ic s))) 0) (ath_filltxdesc b s1)"
  have f1: "bf_skbhead (txbufs s1 b) = [skb]" "frames s1 = frames s" "sc_txbuf s1 = sc_txbuf s" "sc_sta s1 = sc_sta s"
    "sc_txq s1 = sc_txq s" "sc_ic s1 = sc_ic s" "bf_skb (txbufs s1 b) = bf_skb (txbufs s b)"
    "bf_node (txbufs s1 b) = bf_node (txbufs s b)"
    "acts s1 = acts s @ a # (if c then [Hal_fillKeyTxDesc b (mh_keytype mh)] else [])"
    using assms(1) by (simp_all add: s1_def s0_def owl_upd)
  note f2 = filltxdesc_logs [OF f1(1)]
  have s': "s' = ath_tgt_txqaddbuf 1 b (bf_lastds (txbufs s2 b)) s2"
    by (simp only: s'_def mgt_hand_over_def Let_def s2_def mgt_series_def f2(7) f1(6) c_def [symmetric] a_def [symmetric]
        fl_def [symmetric] keyix_valid(1) s0_def [symmetric] s1_def [symmetric] simp_thms)
  have "acts s2 = acts s @ mgt_calls mh f code (ic_tx_chainmask (sc_ic s)) b hl"
    by (simp add: s2_def emit_def f2 f1 mgt_calls_def a_def fl_def c_def Let_def assms(2))
  moreover have "bf_skb (txbufs s2 b) = bf_skb (txbufs s b)" "bf_node (txbufs s2 b) = bf_node (txbufs s b)"
      "sc_txbuf s2 = sc_txbuf s" "frames s2 = frames s" "sc_sta s2 = sc_sta s" "sc_txq s2 = sc_txq s"
    by (simp_all add: s2_def emit_def f2 f1)
  ultimately show ?thesis using txqaddbuf_logs [of 1 b "bf_lastds (txbufs s2 b)" s2] by (auto simp: s')
qed

lemma anyhdrsize_mgt: "2 \<le> length f \<Longrightarrow> f ! 0 AND 0x0C = 0 \<Longrightarrow> \<exists>hl. ieee80211_anyhdrsize f = Some hl"
  by (cases f) (auto simp: ieee80211_anyhdrsize_def ieee80211_hdrsize_def at_def require_def)

lemma mgt_send_run:
  fixes s :: "'a owl_scheme" and skb :: nbufref
  defines "f \<equiv> frames s skb"
  assumes "mgt_ready s0 mh f b n v" "s = s0\<lparr>sc_txbuf := bs\<rparr>"
  shows "\<exists>s' hl as. mgt_send env mh skb endpt b n s = Some s' \<and> list_all aside as \<and>
     acts s' = acts s @ Dma_Map b (Some skb) # mgt_calls mh f (mgt_rate s mh) (ic_tx_chainmask (sc_ic s)) b hl @ as \<and>
     sc_txbuf s' = bs \<and> axq_q (sc_txq s' 1) = axq_q (sc_txq s 1) @ [b] \<and>
     frames s' = (frames s)(skb := mgt_frame (ni_txseqmgmt (sc_sta s n)) f) \<and>
     ni_txseqmgmt (sc_sta s' n) = INCR_seq (ni_txseqmgmt (sc_sta s n)) \<and>
     bf_skb (txbufs s' b) = Some skb \<and> bf_node (txbufs s' b) = Some n"
proof -
  define rix where "rix = ath_get_minrateidx s (unat (mh_vap_index mh))"
  have rix: "rix = ath_get_minrateidx s0 (unat (mh_vap_index mh))"
    by (simp add: rix_def assms(3) ath_get_minrateidx_def Let_def)
  have l: "24 \<le> length f" "f ! 0 AND 0x0C = 0" "unat (mh_vap_index mh) < ATH_VAP_MAX" "unat rix < length (sc_currates s)"
    "unat (sc_protrix s) < length (sc_currates s)" "ni_vap (sc_sta s n) = Some v" "bf_skbhead (txbufs s b) = []"
    "f ! 4 AND 1 \<noteq> 0 \<or> \<not> length f + 4 > unat (iv_rtsthreshold (sc_vap s v))"
    using assms(2,3) by (auto simp: mgt_ready_def rix)
  then obtain hl where hl: "ieee80211_anyhdrsize f = Some hl" using anyhdrsize_mgt [of f] by auto
  define sI where "sI = upd_buf b (\<lambda>bf. bf\<lparr>bf_endpt := endpt, bf_cookie := mh_cookie mh, bf_protmode := mh_flags mh AND 3,
               bf_skb := Some skb, bf_skbhead := bf_skbhead bf @ [skb]\<rparr>) (emit (Dma_Map b (Some skb)) s)"
  define s1 where "s1 = upd_buf b (\<lambda>bf. bf\<lparr>bf_rcs := rc0_series[0 := (rc0_series ! 0)\<lparr>rcs_rix := rix, rcs_tries := 11\<rparr>],
               bf_node := Some n\<rparr>) sI"
  have sI: "sc_currates sI = sc_currates s" "ath_get_minrateidx sI v = ath_get_minrateidx s v" for v
    by (simp_all add: sI_def owl_upd ath_get_minrateidx_def Let_def)
  have s1: "acts s1 = acts s @ [Dma_Map b (Some skb)]" "sc_currates s1 = sc_currates s" "sc_protrix s1 = sc_protrix s"
     "sc_sta s1 = sc_sta s" "sc_vap s1 = sc_vap s" "frames s1 = frames s" "sc_txbuf s1 = sc_txbuf s" "sc_txq s1 = sc_txq s"
     "sc_ic s1 = sc_ic s" "bf_skbhead (txbufs s1 b) = [skb]" "bf_skb (txbufs s1 b) = Some skb" "bf_node (txbufs s1 b) = Some n"
    using l(7) by (simp_all add: s1_def sI_def owl_upd)
  define mc where "mc \<longleftrightarrow> f ! 4 AND 1 \<noteq> 0"
  define prot where "prot \<longleftrightarrow> mh_flags mh AND 3 \<noteq> 0 \<and> hr_phy (sc_currates s ! unat rix) = IEEE80211_T_OFDM \<and> \<not> mc"
  define s2 where "s2 = stat_if prot ast_tx_protect s1"
  have s2: "acts s2 = acts s1" "sc_sta s2 = sc_sta s1" "frames s2 = frames s1" "sc_txbuf s2 = sc_txbuf s1" "sc_txq s2 = sc_txq s1"
     "sc_ic s2 = sc_ic s1" "txbufs s2 = txbufs s1"
    by (simp_all add: s2_def owl_upd)
  obtain s3 where s3: "mgt_seqno skb n s2 = Some s3" "acts s3 = acts s2" "txbufs s3 = txbufs s2" "sc_txq s3 = sc_txq s2"
      "sc_txbuf s3 = sc_txbuf s2" "sc_ic s3 = sc_ic s2"
      "frames s3 = (frames s2)(skb := mgt_frame (ni_txseqmgmt (sc_sta s2 n)) (frames s2 skb))"
      "ni_txseqmgmt (sc_sta s3 n) = INCR_seq (ni_txseqmgmt (sc_sta s2 n))"
    using mgt_seqno_run [of s2 skb n] l(1) by (auto simp: s2 s1 f_def)
  define s' where "s' = mgt_hand_over mh b (f ! 0) (f ! 1 AND 0x40 \<noteq> 0) (int (length f + 4)) hl (snd (mgt_type (f ! 0)))
      (ucast (mgt_rate s mh)) (if f ! 4 AND 1 \<noteq> 0 then 1 else 11) (if f ! 4 AND 1 \<noteq> 0 then 0x13 else 0x11) 0 0 s3"
  have run: "mgt_send env mh skb endpt b n s = Some s'"
  proof -
    have fne: "f \<noteq> []" using l(1) by auto
    have r: "at f 0 = Some (f ! 0)" "at f 1 = Some (f ! 1)" "at f 4 = Some (f ! 4)"
      "\<exists>r. at (sc_currates s) (unat rix) = Some r \<and> hr_phy r = hr_phy (sc_currates s ! unat rix)"
      "\<exists>p. at (sc_currates s) (unat (sc_protrix s)) = Some p"
      "rate_code (sc_currates s) rix (mh_flags mh = 1) = Some (ucast (mgt_rate s mh))"
      "require (unat (mh_vap_index mh) < ATH_VAP_MAX) = Some ()"
      using l fne by (simp_all add: at_def rate_code_def mgt_rate_def rix_def Let_def require_def)
    obtain ty where ty: "mgt_type (f ! 0) = (HAL_TXDESC_CLRDMASK, ty)" "snd (mgt_type (f ! 0)) = ty"
      using l(2) by (simp add: mgt_type_def)
    have fl: "(if mc then HAL_TXDESC_CLRDMASK OR HAL_TXDESC_NOACK else HAL_TXDESC_CLRDMASK) AND HAL_TXDESC_NOACK = 0 \<longleftrightarrow> \<not> mc"
      "(if mc then HAL_TXDESC_CLRDMASK OR HAL_TXDESC_NOACK else HAL_TXDESC_CLRDMASK) OR HAL_TXDESC_INTREQ = (if mc then 0x13 else 0x11)"
      by simp_all
    obtain r p where rp: "at (sc_currates s) (unat rix) = Some r" "hr_phy r = hr_phy (sc_currates s ! unat rix)"
      "at (sc_currates s) (unat (sc_protrix s)) = Some p" using r(4,5) by blast
    have front: "mgt_send env mh skb endpt b n s = do {
        let flags = (if mc then HAL_TXDESC_CLRDMASK OR HAL_TXDESC_NOACK else HAL_TXDESC_CLRDMASK);
        s3 \<leftarrow> mgt_seqno skb n (stat_if (mh_flags mh AND 3 \<noteq> 0 \<and> hr_phy r = IEEE80211_T_OFDM \<and> \<not> mc) ast_tx_protect s1);
        Some (mgt_hand_over mh b (f ! 0) (f ! 1 AND 64 \<noteq> 0) (int (length f + 4)) hl ty (ucast (mgt_rate s mh))
          (if mc then 1 else 11) (flags OR HAL_TXDESC_INTREQ) 0 0 s3) }"
      unfolding mgt_send_def
      apply (simp only: Let_def f_def [symmetric] r hl ty bind.simps(2) prod.case sI_def [symmetric] sI rix_def [symmetric] rp(1,3)
          s1_def [symmetric] s1(2,3,4,5) l(6) mc_def [symmetric])
      using l(8) by (cases mc) (simp_all add: mgt_cts_def mc_def)
    show ?thesis
      using s3(1) unfolding front s'_def s2_def prot_def rp(2) by (cases mc) (simp_all add: ty mc_def)
  qed
  have h: "bf_skbhead (txbufs s3 b) = [skb]" "length f = length (frames s3 skb)"
    using s3 by (simp_all add: s2 s1 f_def mgt_frame_def)
  from mgt_hand_over_run [OF h, of mh hl "mgt_rate s mh", folded s'_def] run show ?thesis
    using s3 by (auto simp: s2 s1 f_def assms(3) intro!: exI [of _ s'] exI [of _ hl])
qed

section \<open>From the host to the hardware\<close>

lemma unat_small: "n < 4096 \<Longrightarrow> unat (of_nat n :: u32) = n"
  by (simp add: unsigned_of_nat take_bit_nat_eq_self)

lemma take_bit_small: "n < 4096 \<Longrightarrow> take_bit 12 (of_nat n :: u32) = of_nat n"
  by (simp add: take_bit_eq_mod mod_word_less word_less_nat_alt unat_small del: of_nat_mod)

lemma take_bit_4: "take_bit 4 (2 :: u32) = 2" "take_bit 8 (ucast (x :: u8) :: u32) = ucast x"
  by (simp, rule bit_word_eqI, auto simp: bit_simps dest: bit_imp_le_length)

lemma key_field: "take_bit 7 (scast (mgt_keyix w mh) :: u32) = (if w then take_bit 7 (ucast (mh_keyix mh)) else 127)"
proof (cases w)
  case True
  show ?thesis unfolding mgt_keyix_def using True by (simp, intro bit_word_eqI) (auto simp: bit_simps)
next
  case False
  have "take_bit 7 (scast (0xFF :: u8) :: u32) = 127" by code_simp
  then show ?thesis using False by (simp add: mgt_keyix_def)
qed

lemma mgt_calls_view:
  assumes "length f + 4 < 4096" "f ! 0 AND 0x0C = 0"
  shows "\<exists>V'. foldM view_exec V (Dma_Map b k # mgt_calls mh f code cm b hl) = Some V' \<and> mgt_view mh f code cm (V b) (V' b)"
proof -
  let ?auth = "f ! 1 AND 0x40 \<noteq> 0 \<and> f ! 0 AND 0xF0 = 0xB0"
  define fl :: u16 where "fl = (if f ! 4 AND 1 \<noteq> 0 then 0x13 else 0x11)"
  define typ4 where "typ4 = snd (mgt_type (f ! 0))"
  define tries0 :: u32 where "tries0 = (if f ! 4 AND 1 \<noteq> 0 then 1 else 11)"
  define v1 where "v1 = view_setup (of_int (int (length f + 4))) (ucast typ4) 60 (ucast code) tries0
    (scast (mgt_keyix (f ! 1 AND 0x40 \<noteq> 0) mh)) (ucast fl) (V b)"
  define v2 where "v2 = (if ?auth then view_FillKeyTxDesc (ucast (mh_keytype mh)) v1 else v1)"
  define v3 where "v3 = view_FillTxDesc (of_nat (length f)) True v2"
  define v4 where "v4 = v3\<lparr>tv_rts := False, tv_cts := False, tv_burst := 0, tv_durupd := False,
    tv_series := map view_rate (mgt_series code cm), tv_rtsrate := 0\<rparr>"
  have fl: "(ucast fl :: u32) AND 12 = 0" "(ucast fl :: u32) AND 1 \<noteq> 0" "(ucast fl :: u32) AND 0x10 \<noteq> 0"
    "(ucast fl :: u32) AND 2 \<noteq> 0 \<longleftrightarrow> f ! 4 AND 1 \<noteq> 0"
    by (simp_all add: fl_def)
  have "foldM view_exec V (Dma_Map b k # mgt_calls mh f code cm b hl) = Some (V(b := v4))"
    unfolding mgt_calls_def Let_def fl_def [symmetric] typ4_def [symmetric] tries0_def [symmetric]
    by (cases "f ! 1 AND 0x40 \<noteq> 0"; cases "f ! 0 AND 0xF0 = 0xB0") (simp_all add: view_exec_def view_SetupTxDesc_def fl v1_def v2_def v3_def v4_def
      view_Set11nRateScenario_def require_def mgt_series_def)
  moreover have "mgt_view mh f code cm (V b) v4"
  proof -
    have tyx: "(ucast typ4 :: u32) = (if f ! 0 AND 0xF0 = 0x50 then 4 else if f ! 0 AND 0xF0 = 0x90 then 1 else 0)"
      using assms(2) by (simp add: typ4_def mgt_type_def)
    then have typ4: "take_bit 4 (ucast typ4 :: u32) = (if f ! 0 AND 0xF0 = 0x50 then 4 else if f ! 0 AND 0xF0 = 0x90 then 1 else 0)"
      by (simp add: tyx)
    have v1: "tv_len v1 = of_nat (length f + 4)" "tv_seglen v1 = 0" "\<not> tv_more v1" "tv_power v1 = 60"
       "tv_type v1 = take_bit 4 (ucast typ4)" "tv_noack v1 = (f ! 4 AND 1 \<noteq> 0)" "tv_intreq v1" "tv_clrdest v1" "\<not> tv_isaggr v1"
       "\<not> tv_moreaggr v1" "tv_keyvalid v1" "tv_key v1 = (if f ! 1 AND 0x40 \<noteq> 0 then take_bit 7 (ucast (mh_keyix mh)) else 127)"
       "tv_encr v1 = tv_encr (V b)"
      using take_bit_small [OF assms(1)] fl
      by (simp_all add: v1_def view_setup_def keyix_valid(2) key_field)
    have s: "tv_series v4 = replicate 4 \<lparr>rv_tries = 2, rv_rate = ucast code, rv_dur = 0, rv_rtscts = False, rv_40 = False,
       rv_sgi = False, rv_stbc = False, rv_chains = take_bit 3 (ucast cm)\<rparr>"
      by (simp add: v4_def mgt_series_def view_rate_def take_bit_4)
    show ?thesis
      unfolding mgt_view_def s
      by (simp add: v4_def v3_def v2_def view_FillTxDesc_def view_FillKeyTxDesc_def v1 typ4)
  qed
  ultimately show ?thesis by auto
qed

lemma mgt_calls_ok:
  assumes "length f + 4 < 4096" "list_all aside as"
  shows "list_all act_ok (Dma_Map b k # mgt_calls mh f code cm b hl @ as)"
  using assms by (auto simp: mgt_calls_def act_ok_def mgt_type_def aside_def list_all_iff Let_def word_less_nat_alt unat_small)

text \<open>
  Property C12. A management frame the driver can send is sent: the call returns, the first free buffer is
  the last of queue 1 and holds the frame for its node, the frame carries the sequence number of the node
  in its header, and the number is counted up. The calls of the hardware layer leave the descriptor of that buffer as
  \<^verbatim>\<open>mgt_view\<close> says, whatever it held: the length with its checksum, the type, four series of two tries at the
  lowest rate, no acknowledgement for a group address, the key index of a protected frame. The index is
  marked as valid for every frame; without protection it is 127, and the cipher is the one of the last
  frame in this buffer, unless the frame is a protected authentication frame.
\<close>

theorem mgt_frame_seen_by_hardware:
  fixes s :: "'a owl_scheme"
  assumes "mgt_ready s mh (frames s skb) b n v"
  shows "\<exists>s' as V. ath_tgt_send_mgt env mh skb endpt s = Some s' \<and>
     sc_txbuf s' = tl (sc_txbuf s) \<and> axq_q (sc_txq s' 1) = axq_q (sc_txq s 1) @ [b] \<and>
     bf_skb (txbufs s' b) = Some skb \<and> bf_node (txbufs s' b) = Some n \<and>
     frames s' = (frames s)(skb := mgt_frame (ni_txseqmgmt (sc_sta s n)) (frames s skb)) \<and>
     ni_txseqmgmt (sc_sta s' n) = INCR_seq (ni_txseqmgmt (sc_sta s n)) \<and>
     acts s' = acts s @ as \<and> map_option views (foldM hal_exec D as) = Some V \<and>
     mgt_view mh (frames s skb) (mgt_rate s mh) (ic_tx_chainmask (sc_ic s)) (tx_view_of (D b)) (V b)"
proof -
  let ?f = "frames s skb"
  obtain bs where bs: "sc_txbuf s = b # bs"
    using assms by (cases "sc_txbuf s") (auto simp: mgt_ready_def)
  have node: "ath_tgt_find_node (s\<lparr>sc_txbuf := bs\<rparr>) (unat (mh_ni_index mh)) = Some (Some n)"
    using assms by (auto simp: mgt_ready_def ath_tgt_find_node_def require_def)
  have l: "length ?f + 4 < 4096" "?f ! 0 AND 0x0C = 0" using assms by (simp_all add: mgt_ready_def)
  have r: "mgt_rate (s\<lparr>sc_txbuf := bs\<rparr>) mh = mgt_rate s mh"
    by (simp add: mgt_rate_def ath_get_minrateidx_def Let_def)
  have rdy: "mgt_ready s mh (frames (s\<lparr>sc_txbuf := bs\<rparr>) skb) b n v" using assms by simp
  from mgt_send_run [OF rdy refl, where env = env and endpt = endpt] obtain s' hl as where
    s': "mgt_send env mh skb endpt b n (s\<lparr>sc_txbuf := bs\<rparr>) = Some s'" "list_all aside as"
     "acts s' = acts s @ Dma_Map b (Some skb) # mgt_calls mh ?f (mgt_rate s mh) (ic_tx_chainmask (sc_ic s)) b hl @ as"
     "sc_txbuf s' = bs" "axq_q (sc_txq s' 1) = axq_q (sc_txq s 1) @ [b]"
     "frames s' = (frames s)(skb := mgt_frame (ni_txseqmgmt (sc_sta s n)) ?f)"
     "ni_txseqmgmt (sc_sta s' n) = INCR_seq (ni_txseqmgmt (sc_sta s n))"
     "bf_skb (txbufs s' b) = Some skb" "bf_node (txbufs s' b) = Some n"
    by (auto simp: r)
  let ?calls = "Dma_Map b (Some skb) # mgt_calls mh ?f (mgt_rate s mh) (ic_tx_chainmask (sc_ic s)) b hl"
  obtain V where V: "foldM view_exec (views D) ?calls = Some V"
      "mgt_view mh ?f (mgt_rate s mh) (ic_tx_chainmask (sc_ic s)) (views D b) (V b)"
    using mgt_calls_view [OF l] by blast
  have "foldM view_exec (views D) (?calls @ as) = Some V"
    using aside_run [OF s'(2), of V] by (simp only: foldM_append V(1) bind.simps(2))
  then have "map_option views (foldM hal_exec D (?calls @ as)) = Some V"
    using hal_run_refines [of "?calls @ as" D] mgt_calls_ok [OF l(1) s'(2)] by simp
  then show ?thesis
    using s' V(2) node bs by (auto simp: ath_tgt_send_mgt_def views_def intro!: exI [of _ "?calls @ as"])
qed

text \<open>
  An unprotected deauthentication frame of 26 bytes, for the node 0, in the buffer 3, whose descriptor names
  the cipher 7.
\<close>

definition mh0 :: ath_mgt_hdr where
  "mh0 = \<lparr>mh_ni_index = 0, mh_vap_index = 0, mh_flags = 0, mh_keytype = 0, mh_keyix = 0, mh_cookie = 7\<rparr>"

definition owl_mgt :: owl where
  "owl_mgt = owl0\<lparr>sc_currates := replicate 12 (hr0\<lparr>hr_phy := 0, hr_rateCode := 0x1b\<rparr>), txbufs := (\<lambda>b. bf0\<lparr>bf_skbhead := []\<rparr>),
     frames := (\<lambda>k. [0xC0, 0x00] @ replicate 24 0)\<rparr>"

theorem mgt_frame_seen_by_hardware_witness:
  "\<exists>s' as V. ath_tgt_send_mgt env0 mh0 20 4 owl_mgt = Some s' \<and> sc_txbuf s' = [4, 5, 6, 7, 8] \<and>
     acts s' = acts owl_mgt @ as \<and> map_option views (foldM hal_exec (\<lambda>_. desc0) as) = Some V \<and>
     tv_len (V 3) = 30 \<and> tv_keyvalid (V 3) \<and> tv_key (V 3) = 127 \<and> tv_encr (V 3) = 7"
proof -
  have r: "mgt_ready owl_mgt mh0 (frames owl_mgt 20) 3 0 0" by code_simp
  have e: "tv_encr (tx_view_of desc0) = 7" "sc_txbuf owl_mgt = [3, 4, 5, 6, 7, 8]" "length (frames owl_mgt 20) = 26"
    "frames owl_mgt 20 ! Suc 0 AND 0x40 = 0" "frames owl_mgt 20 ! 4 AND 1 = 0"
    by code_simp+
  from mgt_frame_seen_by_hardware [OF r, of env0 4 "\<lambda>_. desc0"] show ?thesis
    by (auto simp: mgt_view_def e)
qed

end
