(* ===== verification/Ath_State.thy ===== *)
theory Ath_State
  imports Owl_Comp Owl_Prep Hal_Desc Htc
begin

text \<open>
  The whole softc of the driver (\<^verbatim>\<open>if_athvar.h\<close>): the transmit path's part, \<^typ>\<open>owl\<close>, extended by the
  receive path, the interrupt state and the data of interfaces and nodes that only \<^verbatim>\<open>if_ath.c\<close> uses.
  Received frames are network buffers in the memory \<open>sc_mem\<close>. Receive buffers and descriptors are numbers;
  the bus address of a descriptor is its number.

  Calls of the hardware layer, register accesses, replies, events, messages and tasklets are appended to
  the list of calls, in order. What the hardware answers is a function of the calls so far, the record
  \<open>ath_env\<close>. The core is big-endian: \<^verbatim>\<open>adf_os_ntohl\<close> and \<^verbatim>\<open>adf_os_ntohs\<close> are the identity.
\<close>

section \<open>State\<close>

record ath_env = owl_env +
  isPending :: "owl_act list \<Rightarrow> bool"
  getPending :: "owl_act list \<Rightarrow> u32"
  getTsf64 :: "owl_act list \<Rightarrow> u64"
  numTxPending :: "owl_act list \<Rightarrow> u32"
  procRxDesc :: "owl_act list \<Rightarrow> HAL_STATUS \<times> ath_rx_status"
  mac_reg :: "owl_act list \<Rightarrow> u32 \<Rightarrow> u32"
  soc_reg :: "owl_act list \<Rightarrow> u32 \<Rightarrow> u32"
  getRateTable :: "nat \<Rightarrow> hal_rate list option"
  reply_buf :: "owl_act list \<Rightarrow> bool"

record ath_rx_buf =
  rxb_done :: bool
  rxb_skb :: addr
  rxb_skbhead :: nbuf_qhead
  bf_rx_status :: ath_rx_status

record ath_rx_desc =
  ds_nbuf :: addr
  rxd_link :: "nat option"
  ds_data :: addr

record vap_more =
  iv_vapindex :: u8
  iv_opmode :: u8
  iv_myaddr :: "u8 list"
  iv_ath_cap :: u8
  iv_nodeindex :: u8
  iv_bss :: "nat option"
  av_bcbuf :: "bufref option"
  av_rate_mask :: "u32 list"
  av_valid :: bool

record node_more =
  ni_macaddr :: "u8 list"
  ni_bssid :: "u8 list"
  ni_is_vapnode :: u8
  ni_flags :: u16
  ni_htcap :: u16

record ath_interrupt_stats =
  ast_rx :: u32
  ast_rxorn :: u32
  ast_rxeol :: u32
  ast_txurn :: u32
  ast_txto :: u32
  ast_cst :: u32

record ath_rx_stats =
  ast_rx_nobuf :: u32
  ast_rx_send :: u32
  ast_rx_done :: u32

record softc = owl +
  sc_mem :: fw_mem
  sc_rxbuf :: "nat list"
  rxbufs :: "nat \<Rightarrow> ath_rx_buf"
  sc_rxdesc :: "nat list"
  sc_rxdesc_idle :: "nat list"
  rxdescs :: "nat \<Rightarrow> ath_rx_desc"
  sc_rxdesc_held :: "nat option"
  sc_rxlink :: "nat option"
  sc_rxbufsize :: int
  sc_cachelsz :: u16
  sc_int_stats :: ath_interrupt_stats
  sc_rx_stats :: ath_rx_stats
  sc_invalid :: bool
  sc_bhalq :: u8
  sc_swba_tsf :: u64
  sc_bbuf :: "bufref list"
  sc_uapsdq :: nat
  sc_vapx :: "nat \<Rightarrow> vap_more"
  sc_stax :: "nat \<Rightarrow> node_more"
  sc_rates :: "hal_rate list option list"
  sc_rixmap :: "u8 \<Rightarrow> u8"
  reset_pll :: bool
  clock_set :: bool
  headroom :: "nbufref \<Rightarrow> u8 list"

abbreviation (input) RX_ENDPOINT_ID :: u8 where "RX_ENDPOINT_ID \<equiv> 3"
abbreviation (input) ATH_RXBUF :: nat where "ATH_RXBUF \<equiv> 11"
abbreviation (input) ATH_RXDESC :: nat where "ATH_RXDESC \<equiv> 11"
abbreviation (input) ATH_TXBUF :: nat where "ATH_TXBUF \<equiv> 33"
abbreviation (input) RX_HEADER_SPACE :: u32 where "RX_HEADER_SPACE \<equiv> 8 + 40"
abbreviation (input) CABQ_NUM :: nat where "CABQ_NUM \<equiv> 8"
abbreviation (input) UAPSDQ_NUM :: nat where "UAPSDQ_NUM \<equiv> 9"

section \<open>Access\<close>

definition upd_rxbuf :: "nat \<Rightarrow> (ath_rx_buf \<Rightarrow> ath_rx_buf) \<Rightarrow> 'a softc_scheme \<Rightarrow> 'a softc_scheme" where
  "upd_rxbuf i f s = s\<lparr>rxbufs := (rxbufs s)(i := f (rxbufs s i))\<rparr>"

definition upd_rxdesc :: "nat \<Rightarrow> (ath_rx_desc \<Rightarrow> ath_rx_desc) \<Rightarrow> 'a softc_scheme \<Rightarrow> 'a softc_scheme" where
  "upd_rxdesc d f s = s\<lparr>rxdescs := (rxdescs s)(d := f (rxdescs s d))\<rparr>"

definition upd_vapx :: "nat \<Rightarrow> (vap_more \<Rightarrow> vap_more) \<Rightarrow> 'a softc_scheme \<Rightarrow> 'a softc_scheme" where
  "upd_vapx v f s = s\<lparr>sc_vapx := (sc_vapx s)(v := f (sc_vapx s v))\<rparr>"

definition upd_vap :: "nat \<Rightarrow> (ath_vap_target \<Rightarrow> ath_vap_target) \<Rightarrow> 'a softc_scheme \<Rightarrow> 'a softc_scheme" where
  "upd_vap v f s = s\<lparr>sc_vap := (sc_vap s)(v := f (sc_vap s v))\<rparr>"

definition upd_nodex :: "nat \<Rightarrow> (node_more \<Rightarrow> node_more) \<Rightarrow> 'a softc_scheme \<Rightarrow> 'a softc_scheme" where
  "upd_nodex n f s = s\<lparr>sc_stax := (sc_stax s)(n := f (sc_stax s n))\<rparr>"

definition drv :: "drv_act \<Rightarrow> 'a softc_scheme \<Rightarrow> 'a softc_scheme" where
  "drv a s = emit (Drv a) s"

definition setInterrupts :: "u32 \<Rightarrow> 'a softc_scheme \<Rightarrow> 'a softc_scheme" where
  "setInterrupts m s = emit (Hal_setInterrupts m) s"

definition schedule_tq :: "tqueue \<Rightarrow> 'a softc_scheme \<Rightarrow> 'a softc_scheme" where
  "schedule_tq q s = drv (Tq_Schedule q) s"

definition read_tsf :: "ath_env \<Rightarrow> 'a softc_scheme \<Rightarrow> u64 \<times> 'a softc_scheme" where
  "read_tsf env s = (getTsf64 env (acts s), drv Hal_getTsf64 s)"

definition read_mac :: "ath_env \<Rightarrow> u32 \<Rightarrow> 'a softc_scheme \<Rightarrow> u32 \<times> 'a softc_scheme" where
  "read_mac env a s = (mac_reg env (acts s) a, drv (Io (Mac_Rd a)) s)"

definition read_soc :: "ath_env \<Rightarrow> u32 \<Rightarrow> 'a softc_scheme \<Rightarrow> u32 \<times> 'a softc_scheme" where
  "read_soc env a s = (soc_reg env (acts s) a, drv (Io (Soc_Rd a)) s)"

text \<open>A routine of the hardware layer run in the driver: its accesses are logged as the driver's.\<close>

definition run_hal :: "ath_env \<Rightarrow> (io_env \<Rightarrow> hal \<Rightarrow> 'x \<times> hal) \<Rightarrow> 'a softc_scheme \<Rightarrow> 'x \<times> 'a softc_scheme" where
  "run_hal env f s =
     (let log = (\<lambda>l. acts s @ map (\<lambda>a. Drv (Io a)) l);
          (x, h) = f \<lparr>mac_val = (\<lambda>l. mac_reg env (log l)), soc_val = (\<lambda>l. soc_reg env (log l))\<rparr>
                     \<lparr>io_log = [], ah_maskReg = 0, ah_intrTxqs = 0\<rparr>
      in (x, s\<lparr>acts := log (io_log h)\<rparr>))"

text \<open>The driver's environment, as the transmit path sees it.\<close>

definition owl_part :: "ath_env \<Rightarrow> owl_env" where
  "owl_part env = owl_env.truncate env"

section \<open>Bytes\<close>

definition be16 :: "(nat \<Rightarrow> u8) \<Rightarrow> nat \<Rightarrow> u16" where
  "be16 d i = push_bit 8 (ucast (d i)) OR ucast (d (i + 1))"

definition be32 :: "(nat \<Rightarrow> u8) \<Rightarrow> nat \<Rightarrow> u32" where
  "be32 d i = push_bit 24 (ucast (d i)) OR push_bit 16 (ucast (d (i + 1))) OR push_bit 8 (ucast (d (i + 2))) OR ucast (d (i + 3))"

definition bytes16 :: "u16 \<Rightarrow> u8 list" where
  "bytes16 x = [ucast (drop_bit 8 x), ucast x]"

definition bytes32 :: "u32 \<Rightarrow> u8 list" where
  "bytes32 x = [ucast (drop_bit 24 x), ucast (drop_bit 16 x), ucast (drop_bit 8 x), ucast x]"

definition bytes64 :: "u64 \<Rightarrow> u8 list" where
  "bytes64 x = bytes32 (ucast (drop_bit 32 x)) @ bytes32 (ucast x)"

definition bytes_at :: "(nat \<Rightarrow> u8) \<Rightarrow> nat \<Rightarrow> nat \<Rightarrow> u8 list" where
  "bytes_at d i n = map (\<lambda>k. d (i + k)) [0..<n]"

fun write_bytes :: "addr \<Rightarrow> u8 list \<Rightarrow> fw_mem \<Rightarrow> fw_mem" where
  "write_bytes a [] m = m"
| "write_bytes a (x # xs) m = write_bytes (a + 1) xs (wr8 a x m)"

end
