(* ===== verification/Ath_Rx.thy ===== *)
theory Ath_Rx
  imports Ath_State
begin

text \<open>
  The receive path of \<^verbatim>\<open>if_ath.c\<close>: the ring of receive descriptors with one descriptor held back, the
  collection of received frames from the descriptors, their delivery to HTC and the return of their buffers.
\<close>

section \<open>The clock of a frame\<close>

text \<open>
  The difference is taken in 64 bits and its low word read as a signed number; \<^verbatim>\<open>rstamp\<close> has 32 bits, and
  so has \<^verbatim>\<open>tsf_low\<close>.
\<close>

definition extend_tsf :: "u64 \<Rightarrow> u32 \<Rightarrow> u64" where
  "extend_tsf tsf rstamp = tsf + scast (rstamp - ucast tsf)"

definition ath_extend_tsf :: "ath_env \<Rightarrow> u32 \<Rightarrow> 'a softc_scheme \<Rightarrow> u64 \<times> 'a softc_scheme" where
  "ath_extend_tsf env rstamp s = (let (tsf, s) = read_tsf env s in (extend_tsf tsf rstamp, s))"

section \<open>Descriptors\<close>

definition ath_alloc_skb_align :: "'a softc_scheme \<Rightarrow> (addr \<times> 'a softc_scheme) option" where
  "ath_alloc_skb_align s = do {
     (skb, m) \<leftarrow> buf_pool_static_alloc_buf_align POOL_ID_WLAN_RX_BUF RX_HEADER_SPACE (ucast (sc_cachelsz s)) (sc_mem s);
     Some (skb, s\<lparr>sc_mem := m\<rparr>) }"

text \<open>A descriptor without a buffer gets one; \<^verbatim>\<open>False\<close> when the pool is empty.\<close>

definition rxdesc_fill :: "nat \<Rightarrow> 'a softc_scheme \<Rightarrow> (bool \<times> 'a softc_scheme) option" where
  "rxdesc_fill d s =
     (if ds_nbuf (rxdescs s d) = NULL then do {
        (skb, s) \<leftarrow> ath_alloc_skb_align s;
        let s = upd_rxdesc d (ds_nbuf_update (\<lambda>_. skb)) s;
        if skb = NULL then Some (False, s)
        else do {
          segs \<leftarrow> adf_nbuf_dmamap_info (sc_mem s) skb;
          seg \<leftarrow> at segs 0;
          Some (True, upd_rxdesc d (ds_data_update (\<lambda>_. fst seg)) s) } }
      else Some (True, s))"

text \<open>
  The descriptor given is held back and the one held before is handed to the hardware. The result is
  \<^verbatim>\<open>False\<close> for \<^verbatim>\<open>ENOMEM\<close>; the descriptor held before is then held again.
\<close>

definition ath_rxdesc_init :: "nat \<Rightarrow> 'a softc_scheme \<Rightarrow> (bool \<times> 'a softc_scheme) option" where
  "ath_rxdesc_init ds s =
     (case sc_rxdesc_held s of
        None \<Rightarrow> Some (True, s\<lparr>sc_rxdesc_held := Some ds\<rparr>)
      | Some d \<Rightarrow> do {
          (ok, s) \<leftarrow> rxdesc_fill d (s\<lparr>sc_rxdesc_held := Some ds\<rparr>);
          if \<not> ok
          then Some (False, s\<lparr>sc_rxdesc_held := Some d,
                 sc_rx_stats := (sc_rx_stats s)\<lparr>ast_rx_nobuf := ast_rx_nobuf (sc_rx_stats s) + 1\<rparr>\<rparr>)
          else do {
            let s = upd_rxdesc d (rxd_link_update (\<lambda>_. None)) s;
            _ \<leftarrow> adf_nbuf_peek_header (sc_mem s) (ds_nbuf (rxdescs s d));
            room \<leftarrow> adf_nbuf_tailroom (sc_mem s) (ds_nbuf (rxdescs s d));
            let s = drv (Hal_setupRxDesc d room) s;
            let s = (case sc_rxlink s of
                       None \<Rightarrow> drv (Hal_setRxDP d) s
                     | Some l \<Rightarrow> upd_rxdesc l (rxd_link_update (\<lambda>_. Some d)) s);
            Some (True, drv Hal_enableReceive (s\<lparr>sc_rxlink := Some d\<rparr>)) } })"

text \<open>
  A sent frame comes back: each of its fragments goes to the pool and revives one idle descriptor. The
  loop ends with the idle descriptors or the fragments.
\<close>

fun rx_complete_loop :: "nat list \<Rightarrow> nbuf_qhead \<Rightarrow> 'a softc_scheme \<Rightarrow> 'a softc_scheme option" where
  "rx_complete_loop [] q s = Some s"
| "rx_complete_loop (d # ds) q s = do {
     (buf_tmp, q, m) \<leftarrow> adf_nbuf_queue_remove q (sc_mem s);
     let s = s\<lparr>sc_mem := m\<rparr>;
     if buf_tmp = NULL then Some s
     else do {
       m \<leftarrow> buf_pool_static_free_buf POOL_ID_WLAN_RX_BUF buf_tmp (sc_mem s);
       (_, s) \<leftarrow> ath_rxdesc_init d (s\<lparr>sc_mem := m\<rparr>);
       let s = s\<lparr>sc_rxdesc_idle := remove1 d (sc_rxdesc_idle s), sc_rxdesc := sc_rxdesc s @ [d]\<rparr>;
       rx_complete_loop ds q s } }"

definition ath_rx_complete :: "addr \<Rightarrow> 'a softc_scheme \<Rightarrow> 'a softc_scheme option" where
  "ath_rx_complete buf s = do {
     (q, m) \<leftarrow> adf_nbuf_split_to_frag buf (sc_mem s);
     rx_complete_loop (sc_rxdesc_idle s) q (s\<lparr>sc_mem := m\<rparr>) }"

definition tgt_HTCSendCompleteHandler :: "u8 \<Rightarrow> addr \<Rightarrow> 'a softc_scheme \<Rightarrow> 'a softc_scheme option" where
  "tgt_HTCSendCompleteHandler Endpt buf s =
     (if Endpt = RX_ENDPOINT_ID
      then ath_rx_complete buf
             (s\<lparr>sc_rx_stats := (sc_rx_stats s)\<lparr>ast_rx_done := ast_rx_done (sc_rx_stats s) + 1\<rparr>\<rparr>)
      else Some s)"

section \<open>Collecting frames\<close>

text \<open>The element behind \<open>x\<close> in a tail queue.\<close>

fun tailq_next :: "nat list \<Rightarrow> nat \<Rightarrow> nat option" where
  "tailq_next [] x = None"
| "tailq_next (y # ys) x = (if y = x then (case ys of [] \<Rightarrow> None | z # _ \<Rightarrow> Some z) else tailq_next ys x)"

definition tailq_first :: "nat list \<Rightarrow> nat option" where
  "tailq_first xs = (case xs of [] \<Rightarrow> None | x # _ \<Rightarrow> Some x)"

text \<open>A descriptor that was read goes to the tail of the ring, or to the idle list when it got no buffer.\<close>

definition requeue_desc :: "nat \<Rightarrow> 'a softc_scheme \<Rightarrow> 'a softc_scheme option" where
  "requeue_desc d s = do {
     (ok, s) \<leftarrow> ath_rxdesc_init d s;
     let s = s\<lparr>sc_rxdesc := remove1 d (sc_rxdesc s)\<rparr>;
     Some (if ok then s\<lparr>sc_rxdesc := sc_rxdesc s @ [d]\<rparr> else s\<lparr>sc_rxdesc_idle := sc_rxdesc_idle s @ [d]\<rparr>) }"

text \<open>
  The descriptors from \<open>d\<close> to \<open>t\<close> give their buffers away: to the queue of a frame, or back to the
  pool when the packet is too long. The last descriptor of the ring must not be read.
\<close>

partial_function (option) take_frame :: "nat \<Rightarrow> nat \<Rightarrow> nbuf_qhead \<Rightarrow> 'a softc_scheme \<Rightarrow>
    (nbuf_qhead \<times> 'a softc_scheme) option" where
  "take_frame d t q s = do {
     (q, m) \<leftarrow> adf_nbuf_queue_add q (ds_nbuf (rxdescs s d)) (sc_mem s);
     let s = upd_rxdesc d (ds_nbuf_update (\<lambda>_. NULL)) (s\<lparr>sc_mem := m\<rparr>);
     nxt \<leftarrow> tailq_next (sc_rxdesc s) d;
     s \<leftarrow> requeue_desc d s;
     if d = t then Some (q, s) else take_frame nxt t q s }"

partial_function (option) drop_frame :: "nat \<Rightarrow> nat \<Rightarrow> 'a softc_scheme \<Rightarrow> 'a softc_scheme option" where
  "drop_frame d t s = do {
     nxt \<leftarrow> tailq_next (sc_rxdesc s) d;
     m \<leftarrow> buf_pool_static_free_buf POOL_ID_WLAN_RX_BUF (ds_nbuf (rxdescs s d)) (sc_mem s);
     let s = upd_rxdesc d (ds_nbuf_update (\<lambda>_. NULL)) (s\<lparr>sc_mem := m\<rparr>);
     s \<leftarrow> requeue_desc d s;
     if d = t then Some s else drop_frame nxt t s }"

text \<open>A frame without data gets the length the hardware reports.\<close>

definition rx_put_len :: "nat \<Rightarrow> u16 \<Rightarrow> 'a softc_scheme \<Rightarrow> 'a softc_scheme option" where
  "rx_put_len d n s = do {
     len \<leftarrow> adf_nbuf_len (sc_mem s) (ds_nbuf (rxdescs s d));
     if len = 0 then do {
       (_, m) \<leftarrow> adf_nbuf_put_tail (ds_nbuf (rxdescs s d)) (ucast n) (sc_mem s);
       Some (s\<lparr>sc_mem := m\<rparr>) }
     else Some s }"

definition finish_frame :: "nat \<Rightarrow> nat \<Rightarrow> nat \<Rightarrow> u16 \<Rightarrow> 'a softc_scheme \<Rightarrow> 'a softc_scheme option" where
  "finish_frame bf h t frame_len s = do {
     (q, s) \<leftarrow> take_frame h t adf_nbuf_queue_init s;
     (skb, _, m) \<leftarrow> adf_nbuf_create_frm_frag q (sc_mem s);
     Some (upd_rxbuf bf (\<lambda>b. b\<lparr>rxb_skb := skb, rxb_done := True,
        bf_rx_status := (bf_rx_status b)\<lparr>rs_datalen := frame_len\<rparr>\<rparr>) (s\<lparr>sc_mem := m\<rparr>)) }"

text \<open>
  The loop: \<open>ds\<close> is the descriptor looked at, \<open>h\<close> the first of the frame, \<open>bf\<close> the receive buffer for it,
  \<open>len\<close> the data so far. The receive buffers are walked in the order of their queue; behind the last the
  code reads a NULL pointer.
\<close>

partial_function (option) uapsd_loop :: "ath_env \<Rightarrow> nat option \<Rightarrow> nat option \<Rightarrow> nat option \<Rightarrow> nat \<Rightarrow> u16 \<Rightarrow>
    'a softc_scheme \<Rightarrow> 'a softc_scheme option" where
  "uapsd_loop env ds h bf cnt len s =
     (case ds of
        None \<Rightarrow> Some s
      | Some d \<Rightarrow>
          if cnt + 1 = ATH_RXBUF - 1 then do { h0 \<leftarrow> h; drop_frame h0 d s }
          else (case rxd_link (rxdescs s d) of
             None \<Rightarrow> Some s
           | Some l \<Rightarrow> do {
               b \<leftarrow> bf;
               if rxb_done (rxbufs s b) then uapsd_loop env ds h bf (cnt + 1) len s
               else
                 let (st, rs) = procRxDesc env (acts s); s = drv (Hal_procRxDescFast d l) s in
                 if st = HAL_EINPROGRESS then Some s
                 else do {
                   let s = upd_rxbuf b (bf_rx_status_update (\<lambda>_. rs)) s;
                   s \<leftarrow> rx_put_len d (rs_datalen rs) s;
                   let len = len + rs_datalen rs;
                   let nxt = tailq_next (sc_rxdesc s) d;
                   if rs_more rs = 0 then do {
                     h0 \<leftarrow> h;
                     s \<leftarrow> finish_frame b h0 d len s;
                     uapsd_loop env nxt nxt (tailq_next (sc_rxbuf s) b) 0 0 s }
                   else uapsd_loop env nxt h bf (cnt + 1) len s } }))"

definition ath_uapsd_processtriggers :: "ath_env \<Rightarrow> 'a softc_scheme \<Rightarrow> 'a softc_scheme option" where
  "ath_uapsd_processtriggers env s =
     uapsd_loop env (tailq_first (sc_rxdesc s)) (tailq_first (sc_rxdesc s)) (tailq_first (sc_rxbuf s)) 0 0 s"

section \<open>Start\<close>

fun startrecv_loop :: "nat list \<Rightarrow> 'a softc_scheme \<Rightarrow> (bool \<times> 'a softc_scheme) option" where
  "startrecv_loop [] s = Some (True, s)"
| "startrecv_loop (d # ds) s = do {
     (ok, s) \<leftarrow> ath_rxdesc_init d s;
     if ok then startrecv_loop ds s else Some (False, s) }"

definition ath_startrecv :: "'a softc_scheme \<Rightarrow> (bool \<times> 'a softc_scheme) option" where
  "ath_startrecv s = do {
     let s = s\<lparr>sc_rxbufsize := 1024 + 512 + 128, sc_rxlink := None, sc_rxdesc_held := None\<rparr>;
     (ok, s) \<leftarrow> startrecv_loop (sc_rxdesc s) s;
     if \<not> ok then Some (False, s)
     else do { d \<leftarrow> tailq_first (sc_rxdesc s); Some (True, drv (Hal_setRxDP d) s) } }"

section \<open>Delivery\<close>

definition rx_status_bytes :: "u64 \<Rightarrow> ath_rx_status \<Rightarrow> u8 list" where
  "rx_status_bytes tsf rs = bytes64 tsf @ bytes16 (rs_datalen rs) @ [rs_status rs, rs_phyerr rs, rs_rssi_combined rs] @
     rs_rssi_ctl rs @ rs_rssi_ext rs @ [rs_keyix rs, rs_rate rs, rs_antenna rs, rs_more rs, rs_isaggr rs,
     rs_moreaggr rs, rs_num_delims rs, rs_flags rs, rs_dummy rs] @ bytes32 (evm0 rs) @ bytes32 (evm1 rs) @ bytes32 (evm2 rs)"

text \<open>
  The status goes in front of the frame with its time stamp extended; it is 40 bytes. A receive buffer at the
  head that is done and has no frame makes the loop look at the same buffer again, forever.
\<close>

definition rx_deliver :: "ath_env \<Rightarrow> nat \<Rightarrow> 'a softc_scheme \<Rightarrow> 'a softc_scheme option" where
  "rx_deliver env b s = do {
     let skb = rxb_skb (rxbufs s b);
     let s = upd_rxbuf b (rxb_skb_update (\<lambda>_. NULL)) (s\<lparr>sc_rxbuf := remove1 b (sc_rxbuf s)\<rparr>);
     (rxhdr, m) \<leftarrow> adf_nbuf_push_head skb 40 (sc_mem s);
     let rs = bf_rx_status (rxbufs s b);
     let (tsf, s) = ath_extend_tsf env (ucast (rs_tstamp rs)) s;
     let s = s\<lparr>sc_mem := write_bytes rxhdr (rx_status_bytes tsf rs) m\<rparr>;
     let s = drv (Htc_Send RX_ENDPOINT_ID (unat skb)) s;
     let s = s\<lparr>sc_rx_stats := (sc_rx_stats s)\<lparr>ast_rx_send := ast_rx_send (sc_rx_stats s) + 1\<rparr>\<rparr>;
     let s = upd_rxbuf b (rxb_done_update (\<lambda>_. False)) s;
     Some (s\<lparr>sc_rxbuf := sc_rxbuf s @ [b]\<rparr>) }"

partial_function (option) rx_tasklet_loop :: "ath_env \<Rightarrow> 'a softc_scheme \<Rightarrow> 'a softc_scheme option" where
  "rx_tasklet_loop env s =
     (case sc_rxbuf s of
        [] \<Rightarrow> Some s
      | b # _ \<Rightarrow>
          if \<not> rxb_done (rxbufs s b) then Some s
          else if rxb_skb (rxbufs s b) = NULL then rx_tasklet_loop env s
          else do { s \<leftarrow> rx_deliver env b s; rx_tasklet_loop env s })"

definition ath_tgt_rx_tasklet :: "ath_env \<Rightarrow> 'a softc_scheme \<Rightarrow> 'a softc_scheme option" where
  "ath_tgt_rx_tasklet env s = do {
     s \<leftarrow> rx_tasklet_loop env s;
     let s = s\<lparr>sc_imask := sc_imask s OR 0x1\<rparr>;
     Some (setInterrupts (sc_imask s) s) }"

end
