(* ===== verification/Ath_Intr.thy ===== *)
theory Ath_Intr
  imports Ath_Rx
begin

text \<open>
  Beacons, the hardware queues as a whole, and the interrupt handler with its tasklets (\<^verbatim>\<open>if_ath.c\<close>).
\<close>

section \<open>Beacons\<close>

abbreviation (input) MAX_RATE_POWER :: u32 where "MAX_RATE_POWER \<equiv> 63"

definition ath_beacon_setup :: "bufref \<Rightarrow> nat \<Rightarrow> nbufref \<Rightarrow> 'a softc_scheme \<Rightarrow> 'a softc_scheme option" where
  "ath_beacon_setup b v skb s = do {
     let s = set_link b None s;
     let rix = ath_get_minrateidx s v;
     r \<leftarrow> at (sc_currates s) (unat rix);
     let rate = ucast (hr_rateCode r);
     let len = length (frames s skb);
     let s = emit (Hal_setupTxDesc b (int len + 4) 24 3 MAX_RATE_POWER rate 1 (ucast HAL_TXKEYIX_INVALID) HAL_TXDESC_NOACK 0 0) s;
     let s = emit (Hal_fillTxDesc b (of_nat ((len + 3) div 4 * 4)) True True) s;
     let none = \<lparr>Tries = 0, Rate = 0, PktDuration = 0, ChSel = 0, RateFlags = 0\<rparr>;
     let series = [none\<lparr>Tries := 1, Rate := rate, ChSel := ucast (ic_tx_chainmask (sc_ic s))\<rparr>, none, none, none];
     Some (emit (Hal_set11nRateScenario b 0 0 series 0) s) }"

text \<open>
  The driver pulls its own header of 4 bytes off a beacon and pushes it back before the buffer goes back; in
  between the bytes stay in the headroom of the buffer.
\<close>

definition pull_hdr :: "nbufref \<Rightarrow> 'a softc_scheme \<Rightarrow> 'a softc_scheme" where
  "pull_hdr k s = s\<lparr>headroom := (headroom s)(k := take 4 (frames s k)), frames := (frames s)(k := drop 4 (frames s k))\<rparr>"

definition push_hdr :: "nbufref \<Rightarrow> 'a softc_scheme \<Rightarrow> 'a softc_scheme" where
  "push_hdr k s = s\<lparr>frames := (frames s)(k := headroom s k @ frames s k)\<rparr>"

text \<open>
  The beacon buffer of an interface holds the last beacon; it goes back to the host when the next one comes.
  \<open>hdr_buf\<close> says whether HTC passed the header in a buffer of its own, which is an assertion failure.
\<close>

definition ath_tgt_send_beacon :: "bool \<Rightarrow> nbufref \<Rightarrow> u8 \<Rightarrow> 'a softc_scheme \<Rightarrow> 'a softc_scheme option" where
  "ath_tgt_send_beacon hdr_buf nbuf EndPt s = do {
     require (\<not> hdr_buf);
     vap_index \<leftarrow> at (frames s nbuf) 0;
     let v = unat vap_index;
     require (v < ATH_VAP_MAX);
     let s = pull_hdr nbuf s;
     b \<leftarrow> av_bcbuf (sc_vapx s v);
     let s = upd_buf b (\<lambda>bf. bf\<lparr>bf_endpt := EndPt\<rparr>) s;
     let s = (case bf_skb (txbufs s b) of
                None \<Rightarrow> s
              | Some skb \<Rightarrow> emit (Htc_ReturnBuffers EndPt skb) (push_hdr skb (emit (Dma_Unmap b) s)));
     let s = emit (Dma_Map b (Some nbuf)) (upd_buf b (\<lambda>bf. bf\<lparr>bf_skb := Some nbuf\<rparr>) s);
     s \<leftarrow> ath_beacon_setup b v nbuf s;
     let q = ucast (sc_bhalq s);
     Some (emit (Hal_startTxDma q) (emit (Hal_setTxDP q b) (emit (Hal_stopTxDma q) s))) }"

section \<open>The hardware queues\<close>

definition ath_tx_stopdma :: "nat \<Rightarrow> 'a softc_scheme \<Rightarrow> 'a softc_scheme" where
  "ath_tx_stopdma q s = emit (Hal_stopTxDma (axq_qnum (sc_txq s q))) s"

definition ath_tx_draintxq :: "ath_env \<Rightarrow> nat \<Rightarrow> 'a softc_scheme \<Rightarrow> 'a softc_scheme option" where
  "ath_tx_draintxq env q s = owltgt_tx_processq (owl_part env) q OWL_TXQ_STOPPED s"

definition ATH_TXQ_SETUP :: "'a softc_scheme \<Rightarrow> nat \<Rightarrow> bool" where
  "ATH_TXQ_SETUP s i = bit (sc_txqsetup s) i"

text \<open>The TIDs that wait for a queue are taken off it one by one and drained.\<close>

fun drain_tids :: "nat \<Rightarrow> tidref list \<Rightarrow> 'a softc_scheme \<Rightarrow> 'a softc_scheme" where
  "drain_tids q [] s = s"
| "drain_tids q (t # ts) s = drain_tids q ts (ath_tgt_tid_drain t
     (upd_tid t (\<lambda>x. x\<lparr>sched := 0\<rparr>) (upd_txq q (\<lambda>x. x\<lparr>axq_tidq := ts\<rparr>) s)))"

definition ath_draintxq :: "ath_env \<Rightarrow> 'a softc_scheme \<Rightarrow> 'a softc_scheme option" where
  "ath_draintxq env s = do {
     let s = (ath_tx_status_clear s)\<lparr>sc_tx_draining := True\<rparr>;
     let s = emit (Hal_stopTxDma (ucast (sc_bhalq s))) s;
     let s = fold (\<lambda>i s. if ATH_TXQ_SETUP s i then ath_tx_stopdma i s else s) [0..<HAL_NUM_TX_QUEUES] s;
     s \<leftarrow> foldM (\<lambda>s i.
            if ATH_TXQ_SETUP s i then do {
              s \<leftarrow> owltgt_tx_processq (owl_part env) i OWL_TXQ_STOPPED s;
              Some (drain_tids i (axq_tidq (sc_txq s i)) s) }
            else Some s) s [0..<HAL_NUM_TX_QUEUES];
     Some (s\<lparr>sc_tx_draining := False\<rparr>) }"

text \<open>\<^verbatim>\<open>sc_txqsetup\<close> has 8 bits: the bits of the queues 8 and 9 are lost.\<close>

definition ath_tgt_txq_setup :: "'a softc_scheme \<Rightarrow> 'a softc_scheme" where
  "ath_tgt_txq_setup s =
     (let s = fold (\<lambda>q s. (upd_txq q (\<lambda>_. \<lparr>axq_qnum = of_nat q, axq_link = None, axq_q = [], axq_depth = 0,
                axq_linkbuf = None, axq_tidq = []\<rparr>) s)\<lparr>sc_txqsetup := sc_txqsetup s OR ucast (push_bit q (1 :: u32))\<rparr>)
                [0..<HAL_NUM_TX_QUEUES] (s\<lparr>sc_txqsetup := 0\<rparr>)
      in s\<lparr>sc_uapsdq := UAPSDQ_NUM, sc_cabq := CABQ_NUM,
           sc_ac2q := (sc_ac2q s)(0 := 0, 1 := 1, 2 := 2, 3 := 3)\<rparr>)"

section \<open>Frames from the host\<close>

text \<open>
  Content after the beacon interval goes back to the host: the difference of the clocks is cut to 32 bits.
\<close>

definition tgt_HTCRecv_cabhandler :: "ath_env \<Rightarrow> u8 \<Rightarrow> ath_data_hdr \<Rightarrow> nbufref \<Rightarrow> 'a softc_scheme \<Rightarrow> 'a softc_scheme option" where
  "tgt_HTCRecv_cabhandler env EndPt dh buf s =
     (let (tsf, s) = read_tsf env s; tmp = ucast (tsf - sc_swba_tsf s) :: u32 in
      if tmp > 9000 then Some (emit (Htc_ReturnBuffers EndPt buf) s)
      else tgt_HTCRecvMessageHandler (owl_part env) EndPt dh buf s)"

section \<open>Interrupts\<close>

definition wmi_event :: "u16 \<Rightarrow> u8 list \<Rightarrow> 'a softc_scheme \<Rightarrow> 'a softc_scheme" where
  "wmi_event evt_id xs s = emit (Wmi_Event evt_id xs) s"

definition bump_int :: "bool \<Rightarrow> (ath_interrupt_stats \<Rightarrow> ath_interrupt_stats) \<Rightarrow> 'a softc_scheme \<Rightarrow> 'a softc_scheme" where
  "bump_int c f s = (if c then s\<lparr>sc_int_stats := f (sc_int_stats s)\<rparr> else s)"

text \<open>The alert for the next beacon: the clock, the frames left in the beacon queue, and the queue of queue 8 is drained.\<close>

definition intr_swba :: "ath_env \<Rightarrow> 'a softc_scheme \<Rightarrow> 'a softc_scheme option" where
  "intr_swba env s =
     (let (tsf, s) = read_tsf env s;
          pend = numTxPending env (acts s);
          s = drv (Hal_numTxPending (ucast (sc_bhalq s))) s;
          (tsf2, s) = read_tsf env s;
          s = wmi_event 0x1002 (bytes64 tsf @ [ucast pend]) (s\<lparr>sc_swba_tsf := tsf2\<rparr>)
      in ath_tx_draintxq env 8 s)"

definition intr_rx :: "ath_env \<Rightarrow> u32 \<Rightarrow> 'a softc_scheme \<Rightarrow> 'a softc_scheme option" where
  "intr_rx env status s = do {
     let s = bump_int (status AND 0x1 \<noteq> 0) (\<lambda>x. x\<lparr>ast_rx := ast_rx x + 1\<rparr>) s;
     s \<leftarrow> ath_uapsd_processtriggers env s;
     let s = s\<lparr>sc_imask := sc_imask s AND NOT 0x1\<rparr>;
     Some (schedule_tq sc_rxtq (setInterrupts (sc_imask s) s)) }"

definition intr_causes :: "ath_env \<Rightarrow> u32 \<Rightarrow> 'a softc_scheme \<Rightarrow> 'a softc_scheme option" where
  "intr_causes env status s = do {
     s \<leftarrow> (if status AND HAL_INT_SWBA \<noteq> 0 then intr_swba env s else Some s);
     let s = bump_int (status AND 0x20 \<noteq> 0) (\<lambda>x. x\<lparr>ast_rxorn := ast_rxorn x + 1\<rparr>) s;
     let s = bump_int (status AND 0x10 \<noteq> 0) (\<lambda>x. x\<lparr>ast_rxeol := ast_rxeol x + 1\<rparr>) s;
     s \<leftarrow> (if status AND (0x1 OR 0x10 OR 0x20) \<noteq> 0 then intr_rx env status s else Some s);
     let s = (if status AND 0x800 \<noteq> 0
              then drv (Hal_updateTxTrigLevel True) (bump_int True (\<lambda>x. x\<lparr>ast_txurn := ast_txurn x + 1\<rparr>) s) else s);
     let s = schedule_tq sc_txtq s;
     let s = (if status AND 0x40000 \<noteq> 0 then schedule_tq sc_bmisstq s else s);
     let s = bump_int (status AND 0x20000000 \<noteq> 0) (\<lambda>x. x\<lparr>ast_txto := ast_txto x + 1\<rparr>) s;
     Some (bump_int (status AND 0x02000000 \<noteq> 0) (\<lambda>x. x\<lparr>ast_cst := ast_cst x + 1\<rparr>) s) }"

text \<open>The result tells whether the interrupt was the MAC's.\<close>

definition ath_intr :: "ath_env \<Rightarrow> 'a softc_scheme \<Rightarrow> (bool \<times> 'a softc_scheme) option" where
  "ath_intr env s =
     (if sc_invalid s then Some (False, s)
      else
        let pending = isPending env (acts s); s = drv Hal_isInterruptPending s in
        if \<not> pending then Some (False, s)
        else
          let status = getPending env (acts s) AND sc_imask s; s = drv Hal_getPendingInterrupts s in
          if status AND 0x40000000 \<noteq> 0 then Some (True, schedule_tq sc_fataltq (setInterrupts 0 s))
          else do { s \<leftarrow> intr_causes env status s; Some (True, s) })"

definition ath_fatal_tasklet :: "'a softc_scheme \<Rightarrow> 'a softc_scheme" where
  "ath_fatal_tasklet s = wmi_event 0x1003 [] s"

definition ath_bmiss_tasklet :: "'a softc_scheme \<Rightarrow> 'a softc_scheme" where
  "ath_bmiss_tasklet s = wmi_event 0x1005 [] s"

end
