(* ===== verification/Ath_Cmd.thy ===== *)
theory Ath_Cmd
  imports Ath_Intr
begin

text \<open>
  The WMI commands of \<^verbatim>\<open>if_ath.c\<close> and their dispatch table. A handler gets the number of the command, its
  sequence number, the bytes from the data pointer on and the length of the data. Structures have the layout
  of the compiler for the core: the two that are copied in from the host are not packed, so a 16-bit field
  lies at an even offset.
\<close>

section \<open>Replies\<close>

type_synonym 'a command = "u16 \<Rightarrow> u16 \<Rightarrow> (nat \<Rightarrow> u8) \<Rightarrow> int \<Rightarrow> 'a softc_scheme \<Rightarrow> 'a softc_scheme option"

text \<open>
  A reply needs a buffer of the WMI service; without one the firmware asserts. \<open>reply_buf\<close> says when there is
  one (\<^verbatim>\<open>send_reply\<close> has the allocation and the message on the wire).
\<close>

definition wmi_cmd_rsp :: "ath_env \<Rightarrow> u16 \<Rightarrow> u16 \<Rightarrow> u8 list \<Rightarrow> 'a softc_scheme \<Rightarrow> 'a softc_scheme option" where
  "wmi_cmd_rsp env cmd_id SeqNo xs s = do {
     require (reply_buf env (acts s));
     Some (drv (Wmi_Reply cmd_id SeqNo xs) s) }"

section \<open>Interrupts and statistics\<close>

definition ath_enable_intr_tgt :: "ath_env \<Rightarrow> 'a command" where
  "ath_enable_intr_tgt env Command SeqNo data datalen s =
     (let intr = (if datalen = 4 then be32 data 0 else 0);
          s = (if intr AND HAL_INT_SWBA \<noteq> 0 then s\<lparr>sc_imask := sc_imask s OR HAL_INT_SWBA\<rparr>
               else s\<lparr>sc_imask := sc_imask s AND NOT HAL_INT_SWBA\<rparr>);
          s = (if intr AND 0x40000 \<noteq> 0 then s\<lparr>sc_imask := sc_imask s OR 0x40000\<rparr> else s)
      in wmi_cmd_rsp env Command SeqNo [] (setInterrupts (sc_imask s) s))"

text \<open>The capability test is for a status other than \<^verbatim>\<open>HAL_OK\<close>, which an unknown capability has.\<close>

definition ath_init_tgt :: "ath_env \<Rightarrow> 'a command" where
  "ath_init_tgt env Command SeqNo data datalen s =
     (let m = 0x1 OR 0x40 OR 0x10 OR 0x20 OR 0x40000000 OR 0x80000000 OR 0x20000000;
          m = (if ath_hal_getcapability caps0 HAL_CAP_HT \<noteq> 0 then m OR 0x02000000 else m);
          s = drv Os_Setup_Intr (s\<lparr>sc_imask := m\<rparr>)
      in wmi_cmd_rsp env Command SeqNo [] (setInterrupts (sc_imask s) s))"

definition ath_disable_intr_tgt :: "ath_env \<Rightarrow> 'a command" where
  "ath_disable_intr_tgt env Command SeqNo data datalen s = wmi_cmd_rsp env Command SeqNo [] (setInterrupts 0 s)"

definition ath_int_stats_tgt :: "ath_env \<Rightarrow> 'a command" where
  "ath_int_stats_tgt env Command SeqNo data datalen s =
     (let x = sc_int_stats s in
      wmi_cmd_rsp env Command SeqNo (concat (map bytes32
        [ast_rx x, ast_rxorn x, ast_rxeol x, ast_txurn x, ast_txto x, ast_cst x])) s)"

definition ath_tx_stats_tgt :: "ath_env \<Rightarrow> 'a command" where
  "ath_tx_stats_tgt env Command SeqNo data datalen s =
     wmi_cmd_rsp env Command SeqNo (concat (map (\<lambda>c. bytes32 (sc_tx_stats s c))
       [ast_tx_xretries, ast_tx_fifoerr, ast_tx_filtered, ast_tx_timer_exp, ast_tx_shortretry, ast_tx_longretry,
        tx_qnull, tx_noskbs, tx_nobufs])) s"

definition ath_rx_stats_tgt :: "ath_env \<Rightarrow> 'a command" where
  "ath_rx_stats_tgt env Command SeqNo data datalen s =
     (let x = sc_rx_stats s in
      wmi_cmd_rsp env Command SeqNo (concat (map bytes32 [ast_rx_nobuf x, ast_rx_send x, ast_rx_done x])) s)"

definition ath_get_tgt_version :: "ath_env \<Rightarrow> 'a command" where
  "ath_get_tgt_version env Command SeqNo data datalen s = wmi_cmd_rsp env Command SeqNo (bytes16 1 @ bytes16 4) s"

section \<open>Aggregation, interfaces and nodes\<close>

definition ath_enable_aggr_tgt :: "ath_env \<Rightarrow> 'a command" where
  "ath_enable_aggr_tgt env Command SeqNo data datalen s = do {
     let n = unat (data 0);
     let tidno = unat (data 1);
     s \<leftarrow> (if n \<ge> ATH_NODE_MAX then Some s
           else if \<not> an_valid (sc_sta s n) then Some s
           else if tidno \<ge> WME_NUM_TID then Some s
           else if data 2 \<noteq> 0 then Some (upd_tid (n, tidno) (\<lambda>x. x\<lparr>flag := flag x OR TID_AGGR_ENABLED\<rparr>) s)
           else if flag (an_tid s (n, tidno)) AND TID_AGGR_ENABLED \<noteq> 0
           then ath_tgt_tx_cleanup (owl_part env) (n, tidno) True
                  (upd_tid (n, tidno) (\<lambda>x. x\<lparr>flag := flag x AND NOT TID_AGGR_ENABLED\<rparr>) s)
           else Some s);
     wmi_cmd_rsp env Command SeqNo [] s }"

definition ath_ic_update_tgt :: "ath_env \<Rightarrow> 'a command" where
  "ath_ic_update_tgt env Command SeqNo data datalen s =
     wmi_cmd_rsp env Command SeqNo [] (s\<lparr>sc_ic := \<lparr>ic_ampdu_limit = be32 data 0, ic_enable_coex = data 5 \<noteq> 0,
       ic_tx_chainmask = data 6\<rparr>\<rparr>)"

text \<open>12 bytes are copied into the interface.\<close>

definition ath_vap_create_tgt :: "ath_env \<Rightarrow> 'a command" where
  "ath_vap_create_tgt env Command SeqNo data datalen s = do {
     let v = unat (data 0);
     require (v < ATH_VAP_MAX);
     require (\<not> av_valid (sc_vapx s v));
     let s = upd_vap v (\<lambda>x. x\<lparr>iv_rtsthreshold := be16 data 10\<rparr>) s;
     let s = upd_vapx v (\<lambda>x. x\<lparr>iv_vapindex := data 0, iv_opmode := data 1, iv_myaddr := bytes_at data 2 6,
               iv_ath_cap := data 8, av_bcbuf := tailq_first (sc_bbuf s), av_valid := True\<rparr>) s;
     wmi_cmd_rsp env Command SeqNo [] s }"

text \<open>22 bytes are copied into the node.\<close>

definition copy_node :: "nat \<Rightarrow> (nat \<Rightarrow> u8) \<Rightarrow> 'a softc_scheme \<Rightarrow> 'a softc_scheme" where
  "copy_node n data s =
     upd_nodex n (\<lambda>x. x\<lparr>ni_macaddr := bytes_at data 0 6, ni_bssid := bytes_at data 6 6, ni_is_vapnode := data 14,
         ni_flags := be16 data 16, ni_htcap := be16 data 18\<rparr>)
       (upd_node n (\<lambda>x. x\<lparr>ni_nodeindex := data 12, ni_vapindex := data 13, ni_maxampdu := be16 data 20\<rparr>) s)"

definition reset_node :: "nat \<Rightarrow> 'a softc_scheme \<Rightarrow> 'a softc_scheme" where
  "reset_node n s = upd_node n (\<lambda>x. x\<lparr>ni_txseqmgmt := 0, ni_iv16 := 0, ni_iv32 := 0\<rparr>) s"

definition ath_node_create_tgt :: "ath_env \<Rightarrow> 'a command" where
  "ath_node_create_tgt env Command SeqNo data datalen s = do {
     let n = unat (data 12);
     require (n < ATH_NODE_MAX);
     let s = copy_node n data s;
     let v = unat (ni_vapindex (sc_sta s n));
     require (v < ATH_VAP_MAX);
     let s = upd_node n (\<lambda>x. x\<lparr>ni_vap := Some v\<rparr>) s;
     let s = (if ni_is_vapnode (sc_stax s n) = 1 then upd_vapx v (\<lambda>x. x\<lparr>iv_nodeindex := of_nat n\<rparr>) s else s);
     let s = reset_node n (upd_node n (\<lambda>x. x\<lparr>an_valid := True\<rparr>) s);
     wmi_cmd_rsp env Command SeqNo [] (owl_tgt_node_init n s) }"

definition ath_node_cleanup_tgt :: "ath_env \<Rightarrow> 'a command" where
  "ath_node_cleanup_tgt env Command SeqNo data datalen s = do {
     require (unat (data 0) < ATH_NODE_MAX);
     wmi_cmd_rsp env Command SeqNo [] (upd_node (unat (data 0)) (\<lambda>x. x\<lparr>an_valid := False\<rparr>) s) }"

definition ath_node_update_tgt :: "ath_env \<Rightarrow> 'a command" where
  "ath_node_update_tgt env Command SeqNo data datalen s = do {
     let n = unat (data 12);
     require (n < ATH_NODE_MAX);
     let s = copy_node n data s;
     let v = unat (ni_vapindex (sc_sta s n));
     require (v < ATH_VAP_MAX);
     wmi_cmd_rsp env Command SeqNo [] (reset_node n (upd_node n (\<lambda>x. x\<lparr>ni_vap := Some v\<rparr>) s)) }"

definition ath_node_vdelete_tgt :: "u8 \<Rightarrow> 'a softc_scheme \<Rightarrow> 'a softc_scheme" where
  "ath_node_vdelete_tgt vi s =
     fold (\<lambda>i s. if ni_vapindex (sc_sta s i) = vi then upd_node i (\<lambda>x. x\<lparr>an_valid := False\<rparr>) s else s)
       [0..<ATH_NODE_MAX] s"

definition ath_vap_delete_tgt :: "ath_env \<Rightarrow> 'a command" where
  "ath_vap_delete_tgt env Command SeqNo data datalen s = do {
     let v = unat (data 0);
     require (v < ATH_VAP_MAX);
     let s = upd_vapx v (\<lambda>x. x\<lparr>av_valid := False, av_bcbuf := None\<rparr>) s;
     wmi_cmd_rsp env Command SeqNo [] (ath_node_vdelete_tgt (data 0) s) }"

section \<open>Registers\<close>

text \<open>The address is a signed int: one with the top bit set is taken for a register of the MAC.\<close>

definition ath_reg_read_filter :: "ath_env \<Rightarrow> u32 \<Rightarrow> 'a softc_scheme \<Rightarrow> u32 \<times> 'a softc_scheme" where
  "ath_reg_read_filter env addr s =
     (if addr AND 0xffffe000 = 0x2000 then
        let (_, s) = read_mac env addr s;
            (_, s) = run_hal env (\<lambda>io. ath_hal_wait io 0x407c 0x00030000 0) s;
            (v, s) = read_mac env 0x407c s
        in (v AND 0x0000ffff, s)
      else if sint addr > 0xffff then read_soc env addr s
      else read_mac env addr s)"

text \<open>The array for the values has 32 words; the loop does not check the length of the data.\<close>

fun reg_read_loop :: "ath_env \<Rightarrow> (nat \<Rightarrow> u8) \<Rightarrow> nat \<Rightarrow> nat \<Rightarrow> u8 list \<Rightarrow> 'a softc_scheme \<Rightarrow>
    (u8 list \<times> 'a softc_scheme) option" where
  "reg_read_loop env data i 0 xs s = Some (xs, s)"
| "reg_read_loop env data i (Suc n) xs s = do {
     let (v, s) = ath_reg_read_filter env (be32 data (4 * i)) s;
     require (i < 32);
     reg_read_loop env data (Suc i) n (xs @ bytes32 v) s }"

text \<open>The number of rounds of a loop that goes from 0 to \<open>datalen\<close> in steps of \<open>k\<close>.\<close>

definition rounds :: "int \<Rightarrow> nat \<Rightarrow> nat" where
  "rounds datalen k = (nat datalen + k - 1) div k"

definition ath_hal_reg_read_tgt :: "ath_env \<Rightarrow> 'a command" where
  "ath_hal_reg_read_tgt env Command SeqNo data datalen s = do {
     (xs, s) \<leftarrow> reg_read_loop env data 0 (rounds datalen 4) [] s;
     wmi_cmd_rsp env Command SeqNo (take (nat datalen) xs) s }"

definition write_mac :: "u32 \<Rightarrow> u32 \<Rightarrow> 'a softc_scheme \<Rightarrow> 'a softc_scheme" where
  "write_mac a v s = drv (Io (Mac_Wr a v)) s"

definition write_soc :: "u32 \<Rightarrow> u32 \<Rightarrow> 'a softc_scheme \<Rightarrow> 'a softc_scheme" where
  "write_soc a v s = drv (Io (Soc_Wr a v)) s"

text \<open>The clock is reset once, by the first write to its register (the build for the AR9271).\<close>

definition ath_pll_reset_ones :: "ath_env \<Rightarrow> 'a softc_scheme \<Rightarrow> 'a softc_scheme" where
  "ath_pll_reset_ones env s =
     (if reset_pll s then s
      else
        let s = write_soc 0x50044 0 s;
            (v, s) = read_mac env 0x786c s; s = write_mac 0x786c (v OR 0x6000000) s;
            (v, s) = read_mac env 0x786c s; s = write_mac 0x786c (v AND NOT 0x6000000) s
        in (write_soc 0x50044 0x20 s)\<lparr>reset_pll := True\<rparr>)"

definition ath_hal_reg_write_filter :: "ath_env \<Rightarrow> u32 \<Rightarrow> u32 \<Rightarrow> 'a softc_scheme \<Rightarrow> 'a softc_scheme" where
  "ath_hal_reg_write_filter env reg val s =
     (if reg > 0xffff then
        let s = write_soc reg val s in
        if reg = 0x50040 \<and> \<not> clock_set s then (drv Clock_Init s)\<lparr>clock_set := True\<rparr> else s
      else write_mac reg val (if reg = 0x7014 then ath_pll_reset_ones env s else s))"

definition ath_hal_reg_write_tgt :: "ath_env \<Rightarrow> 'a command" where
  "ath_hal_reg_write_tgt env Command SeqNo data datalen s =
     (let s = fold (\<lambda>i. ath_hal_reg_write_filter env (be32 data (8 * i)) (be32 data (8 * i + 4))) [0..<rounds datalen 8] s
      in wmi_cmd_rsp env Command SeqNo [] s)"

definition reg_rmw :: "ath_env \<Rightarrow> u32 \<Rightarrow> u32 \<Rightarrow> u32 \<Rightarrow> 'a softc_scheme \<Rightarrow> 'a softc_scheme" where
  "reg_rmw env reg sets clr s =
     (let (val, s) = ath_reg_read_filter env reg s;
          val = val AND NOT clr;
          val = val OR sets
      in ath_hal_reg_write_filter env reg val s)"

definition ath_hal_reg_rmw_tgt :: "ath_env \<Rightarrow> 'a command" where
  "ath_hal_reg_rmw_tgt env Command SeqNo data datalen s =
     (let s = fold (\<lambda>i. reg_rmw env (be32 data (12 * i)) (be32 data (12 * i + 4)) (be32 data (12 * i + 8)))
                [0..<rounds datalen 12] s
      in wmi_cmd_rsp env Command SeqNo [] s)"

section \<open>Queues and DMA\<close>

definition ath_tx_draintxq_tgt :: "ath_env \<Rightarrow> 'a command" where
  "ath_tx_draintxq_tgt env Command SeqNo data datalen s = do {
     let q = unat (be32 data 0);
     require (q < HAL_NUM_TX_QUEUES);
     s \<leftarrow> ath_tx_draintxq env q s;
     wmi_cmd_rsp env Command SeqNo [] s }"

definition ath_draintxq_tgt :: "ath_env \<Rightarrow> 'a command" where
  "ath_draintxq_tgt env Command SeqNo data datalen s = do {
     s \<leftarrow> ath_draintxq env s;
     wmi_cmd_rsp env Command SeqNo [] s }"

definition ath_aborttx_dma_tgt :: "ath_env \<Rightarrow> 'a command" where
  "ath_aborttx_dma_tgt env Command SeqNo data datalen s = wmi_cmd_rsp env Command SeqNo [] (drv Hal_abortTxDma s)"

definition ath_aborttxq_tgt :: "ath_env \<Rightarrow> 'a command" where
  "ath_aborttxq_tgt env Command SeqNo data datalen s = do {
     s \<leftarrow> foldM (\<lambda>s i. if ATH_TXQ_SETUP s i then ath_tx_draintxq env i s else Some s) s [0..<HAL_NUM_TX_QUEUES];
     wmi_cmd_rsp env Command SeqNo [] s }"

text \<open>The hardware layer shifts 1 by the number of the queue, which must be below 32.\<close>

definition ath_stop_tx_dma_tgt :: "ath_env \<Rightarrow> 'a command" where
  "ath_stop_tx_dma_tgt env Command SeqNo data datalen s = do {
     s \<leftarrow> (if datalen = 0 then Some s
           else do { let q = be32 data 0; require (unat q < 32); Some (emit (Hal_stopTxDma q) s) });
     wmi_cmd_rsp env Command SeqNo [] s }"

section \<open>Receiving\<close>

definition ath_startrecv_tgt :: "ath_env \<Rightarrow> 'a command" where
  "ath_startrecv_tgt env Command SeqNo data datalen s = do {
     (_, s) \<leftarrow> ath_startrecv s;
     wmi_cmd_rsp env Command SeqNo [] s }"

definition ath_stoprecv_tgt :: "ath_env \<Rightarrow> 'a command" where
  "ath_stoprecv_tgt env Command SeqNo data datalen s =
     (let s = drv Hal_stopDmaReceive (drv (Hal_setRxFilter 0) (drv Hal_stopPcuReceive s))
      in wmi_cmd_rsp env Command SeqNo [] (s\<lparr>sc_rxlink := None\<rparr>))"

text \<open>
  A receive buffer with a frame releases the head of its own buffer queue, which is not its frame, and
  stays marked as done.
\<close>

fun flush_loop :: "nat list \<Rightarrow> 'a softc_scheme \<Rightarrow> 'a softc_scheme option" where
  "flush_loop [] s = Some s"
| "flush_loop (b # bs) s =
     (if rxb_skb (rxbufs s b) \<noteq> NULL then do {
        (p, q, m) \<leftarrow> adf_nbuf_queue_remove (rxb_skbhead (rxbufs s b)) (sc_mem s);
        m \<leftarrow> buf_pool_static_free_buf POOL_ID_WLAN_RX_BUF p m;
        flush_loop bs (upd_rxbuf b (\<lambda>x. x\<lparr>rxb_skbhead := q, rxb_skb := NULL\<rparr>) (s\<lparr>sc_mem := m\<rparr>)) }
      else flush_loop bs s)"

definition ath_flushrecv_tgt :: "ath_env \<Rightarrow> 'a command" where
  "ath_flushrecv_tgt env Command SeqNo data datalen s = do {
     s \<leftarrow> flush_loop (sc_rxbuf s) s;
     wmi_cmd_rsp env Command SeqNo [] s }"

section \<open>Modes and rates\<close>

definition ath_rate_setup :: "ath_env \<Rightarrow> nat \<Rightarrow> 'a softc_scheme \<Rightarrow> bool \<times> 'a softc_scheme" where
  "ath_rate_setup env mode s =
     (if mode = 0 \<or> mode = 1
      then let s = s\<lparr>sc_rates := (sc_rates s)[mode := getRateTable env mode]\<rparr>
           in (sc_rates s ! mode \<noteq> None, s)
      else (False, s))"

definition ath_setcurmode :: "nat \<Rightarrow> 'a softc_scheme \<Rightarrow> 'a softc_scheme option" where
  "ath_setcurmode mode s = do {
     r \<leftarrow> at (sc_rates s) mode;
     rt \<leftarrow> r;
     let map = fold (\<lambda>i m. m(hr_rateCode (rt ! i) := of_nat i)) [0..<length rt] (\<lambda>_. 0xff);
     Some (s\<lparr>sc_rixmap := map, sc_currates := rt, sc_curmode := mode, sc_protrix := (if mode = 1 then 3 else 0)\<rparr>) }"

definition ath_setcurmode_tgt :: "ath_env \<Rightarrow> 'a command" where
  "ath_setcurmode_tgt env Command SeqNo data datalen s = do {
     s \<leftarrow> ath_setcurmode (unat (be16 data 0)) s;
     wmi_cmd_rsp env Command SeqNo [] s }"

text \<open>The two rate sets behind the head of a command: each has a count and room for 30 rates.\<close>

definition rate_sets :: "(nat \<Rightarrow> u8) \<Rightarrow> nat \<Rightarrow> ieee80211_rate" where
  "rate_sets data i = \<lparr>rates = \<lparr>rs_nrates = data i, rs_rates = bytes_at data (i + 1) 30\<rparr>,
     htrates = \<lparr>rs_nrates = data (i + 31), rs_rates = bytes_at data (i + 32) 30\<rparr>\<rparr>"

text \<open>The node of the interface, \<^verbatim>\<open>iv_bss\<close>, is NULL unless some code has set it.\<close>

definition handle_rc_state_change_cmd :: "ath_env \<Rightarrow> 'a command" where
  "handle_rc_state_change_cmd env Command SeqNo data datalen s = do {
     let v = unat (data 0);
     require (v < ATH_VAP_MAX);
     rt \<leftarrow> hwRateTable (owl_part env) (sc_curmode s);
     n \<leftarrow> iv_bss (sc_vapx s v);
     an \<leftarrow> an_rcnode (sc_sta s n);
     (asc, an) \<leftarrow> ath_rate_newstate (merlin env) rt (ucast (ic_tx_chainmask (sc_ic s))) (be32 data 4) (rate_sets data 8)
                   (sc_rc s) an;
     let s = upd_node n (\<lambda>x. x\<lparr>an_rcnode := Some an\<rparr>) (s\<lparr>sc_rc := asc\<rparr>);
     wmi_cmd_rsp env Command SeqNo [] s }"

definition handle_rc_rate_update_cmd :: "ath_env \<Rightarrow> 'a command" where
  "handle_rc_rate_update_cmd env Command SeqNo data datalen s = do {
     let n = unat (data 0);
     require (n < ATH_NODE_MAX);
     rt \<leftarrow> hwRateTable (owl_part env) (sc_curmode s);
     an \<leftarrow> an_rcnode (sc_sta s n);
     an \<leftarrow> ath_rate_node_update (merlin env) rt (data 1 \<noteq> 0) (be32 data 4) (rate_sets data 8) an;
     wmi_cmd_rsp env Command SeqNo [] (upd_node n (\<lambda>x. x\<lparr>an_rcnode := Some an\<rparr>) s) }"

text \<open>The lowest rate of a mask. The array of masks and the one of lowest rates have one entry per band.\<close>

definition mask_minrate :: "u32 \<Rightarrow> u8 option" where
  "mask_minrate m = map_option of_nat (List.find (\<lambda>i. push_bit i 1 AND m \<noteq> 0) [0..<32])"

definition ath_rc_mask_tgt :: "ath_env \<Rightarrow> 'a command" where
  "ath_rc_mask_tgt env Command SeqNo data datalen s = do {
     let v = unat (data 0);
     let band = unat (data 1);
     require (v < ATH_VAP_MAX \<and> band < 2);
     let m = be32 data 2;
     let s = upd_vapx v (\<lambda>x. x\<lparr>av_rate_mask := (av_rate_mask x)[band := m]\<rparr>) s;
     let s = (if m \<noteq> 0
              then (case mask_minrate m of
                      Some i \<Rightarrow> upd_vap v (\<lambda>x. x\<lparr>av_minrateidx := (av_minrateidx x)[band := i]\<rparr>) s
                    | None \<Rightarrow> s)
              else upd_vap v (\<lambda>x. x\<lparr>av_minrateidx := (av_minrateidx x)[band := 0]\<rparr>) s);
     wmi_cmd_rsp env Command SeqNo [] s }"

section \<open>Echo, detaching\<close>

text \<open>
  The echo hands its own context, the softc, to \<^verbatim>\<open>wmi_cmd_rsp\<close>, which reads it as the context of WMI: there
  is no defined result.
\<close>

definition handle_echo_command :: "'a command" where
  "handle_echo_command Command SeqNo data datalen s = None"

definition dispatch_magpie_sys_cmds :: "'a command" where
  "dispatch_magpie_sys_cmds Command SeqNo data datalen s = None"

text \<open>
  The frames of a buffer go to the pool of receive buffers, those of transmit buffers too. Buffers of the
  transmit path are logged, those of the receive path are in memory.
\<close>

definition cleanup_txbuf :: "bufref \<Rightarrow> 'a softc_scheme \<Rightarrow> 'a softc_scheme" where
  "cleanup_txbuf b s =
     (let bf = txbufs s b;
          s = (if bf_skbhead bf \<noteq> []
               then upd_buf b (\<lambda>bf. bf\<lparr>bf_skbhead := [], bf_skb := None\<rparr>)
                      (fold (\<lambda>k. drv (Rx_Pool_Free k)) (bf_skbhead bf) (emit (Dma_Unmap b) s))
               else case bf_skb bf of
                 None \<Rightarrow> s
               | Some k \<Rightarrow> upd_buf b (\<lambda>bf. bf\<lparr>bf_skb := None\<rparr>) (drv (Rx_Pool_Free k) (emit (Dma_Unmap b) s)))
      in upd_buf b (\<lambda>bf. bf\<lparr>bf_node := None\<rparr>) s)"

partial_function (option) drain_rxq :: "nbuf_qhead \<Rightarrow> fw_mem \<Rightarrow> (nbuf_qhead \<times> fw_mem) option" where
  "drain_rxq q m =
     (if adf_nbuf_queue_len q = 0 then Some (q, m)
      else do {
        (p, q, m) \<leftarrow> adf_nbuf_queue_remove q m;
        m \<leftarrow> buf_pool_static_free_buf POOL_ID_WLAN_RX_BUF p m;
        drain_rxq q m })"

definition cleanup_rxbuf :: "nat \<Rightarrow> 'a softc_scheme \<Rightarrow> 'a softc_scheme option" where
  "cleanup_rxbuf b s =
     (if adf_nbuf_queue_len (rxb_skbhead (rxbufs s b)) \<noteq> 0 then do {
        (q, m) \<leftarrow> drain_rxq (rxb_skbhead (rxbufs s b)) (sc_mem s);
        Some (upd_rxbuf b (\<lambda>x. x\<lparr>rxb_skbhead := q, rxb_skb := NULL\<rparr>) (s\<lparr>sc_mem := m\<rparr>)) }
      else if rxb_skb (rxbufs s b) \<noteq> NULL then do {
        m \<leftarrow> buf_pool_static_free_buf POOL_ID_WLAN_RX_BUF (rxb_skb (rxbufs s b)) (sc_mem s);
        Some (upd_rxbuf b (rxb_skb_update (\<lambda>_. NULL)) (s\<lparr>sc_mem := m\<rparr>)) }
      else Some s)"

text \<open>
  The descriptor memory of both paths is there from the attachment on. The softc itself is freed at the end
  of the command, so what the command leaves in it is read by nobody; the pointer to the buffer held back is
  not cleared here. The receive descriptors live in the memory that is freed.
\<close>

definition ath_desc_free :: "'a softc_scheme \<Rightarrow> 'a softc_scheme option" where
  "ath_desc_free s = do {
     let s = (fold cleanup_txbuf (sc_txbuf s @ [sc_txbuf_held s]) s)\<lparr>sc_txbuf := []\<rparr>;
     s \<leftarrow> foldM (\<lambda>s b. cleanup_rxbuf b s) s (sc_rxbuf s);
     Some (s\<lparr>sc_rxbuf := []\<rparr>) }"

definition ath_detach_tgt :: "ath_env \<Rightarrow> 'a command" where
  "ath_detach_tgt env Command SeqNo data datalen s = do {
     s \<leftarrow> ath_desc_free s;
     wmi_cmd_rsp env Command SeqNo [] (drv Hal_detach s) }"

section \<open>The dispatch table\<close>

definition Magpie_Sys_DispatchEntries :: "ath_env \<Rightarrow> ('a command \<times> u16) list" where
  "Magpie_Sys_DispatchEntries env =
     [(handle_echo_command, 0x0001),
      (dispatch_magpie_sys_cmds, 0x0002),
      (ath_get_tgt_version env, 0x0003),
      (ath_disable_intr_tgt env, 0x0004),
      (ath_enable_intr_tgt env, 0x0005),
      (ath_init_tgt env, 0x0006),
      (ath_aborttxq_tgt env, 0x0007),
      (ath_stop_tx_dma_tgt env, 0x0008),
      (ath_aborttx_dma_tgt env, 0x0009),
      (ath_tx_draintxq_tgt env, 0x000a),
      (ath_draintxq_tgt env, 0x000b),
      (ath_startrecv_tgt env, 0x000c),
      (ath_stoprecv_tgt env, 0x000d),
      (ath_flushrecv_tgt env, 0x000e),
      (ath_setcurmode_tgt env, 0x000f),
      (ath_node_create_tgt env, 0x0010),
      (ath_node_cleanup_tgt env, 0x0011),
      (ath_vap_delete_tgt env, 0x0012),
      (ath_vap_create_tgt env, 0x0013),
      (ath_hal_reg_read_tgt env, 0x0014),
      (ath_hal_reg_write_tgt env, 0x0015),
      (handle_rc_state_change_cmd env, 0x0016),
      (handle_rc_rate_update_cmd env, 0x0017),
      (ath_ic_update_tgt env, 0x0018),
      (ath_enable_aggr_tgt env, 0x0019),
      (ath_detach_tgt env, 0x001a),
      (ath_node_update_tgt env, 0x001b),
      (ath_int_stats_tgt env, 0x001c),
      (ath_tx_stats_tgt env, 0x001d),
      (ath_rx_stats_tgt env, 0x001e),
      (ath_rc_mask_tgt env, 0x001f),
      (ath_hal_reg_rmw_tgt env, 0x0020)]"

text \<open>A command without an entry is dropped without a reply.\<close>

definition run_command :: "ath_env \<Rightarrow> 'a command" where
  "run_command env Command SeqNo data datalen s =
     (case find (\<lambda>(h, i). i = Command) (Magpie_Sys_DispatchEntries env) of
        Some (h, _) \<Rightarrow> h Command SeqNo data datalen s
      | None \<Rightarrow> Some s)"

end
