(* ===== verification/Owl_Keep.thy ===== *)
theory Owl_Keep
  imports Owl_Comp Owl_Prep
begin

text \<open>
  What the transmit path leaves alone: the rest of the softc, which belongs to the receive path and the
  commands (\<^verbatim>\<open>if_ath.c\<close>), and the replies to the host. One equation for each function of \<^verbatim>\<open>if_owl.c\<close>.
\<close>

section \<open>The part that is kept\<close>

definition reply_of :: "owl_act \<Rightarrow> (u16 \<times> u16) option" where
  "reply_of a = (case a of Drv (Wmi_Reply c n _) \<Rightarrow> Some (c, n) | _ \<Rightarrow> None)"

definition replies :: "owl_act list \<Rightarrow> (u16 \<times> u16) list" where
  "replies l = List.map_filter reply_of l"

definition kept :: "'a owl_scheme \<Rightarrow> 'a \<times> (u16 \<times> u16) list" where
  "kept s = (owl.more s, replies (acts s))"

named_theorems keep_simps \<open>functions on the state that keep the rest of it\<close>
named_theorems keep \<open>steps that keep the rest of the state when they have a result\<close>

lemma replies_append [simp]: "replies (xs @ ys) = replies xs @ replies ys"
  by (simp add: replies_def map_filter_def)

lemma replies_Nil [simp]: "replies [] = []"
  by (simp add: replies_def map_filter_def)

lemma replies_single: "replies [a] = (case reply_of a of None \<Rightarrow> [] | Some r \<Rightarrow> [r])"
  by (cases "reply_of a") (simp_all add: replies_def map_filter_simps)

lemma kept_emit [keep_simps]: "reply_of a = None \<Longrightarrow> kept (emit a s) = kept s"
  by (simp add: kept_def emit_def replies_single)

lemma reply_of_simps [keep_simps]:
  "reply_of (Dma_Map b o1) = None" "reply_of (Dma_Unmap b) = None"
  "reply_of (Hal_set11nTxDesc b n1 k1 k2 k3 n2) = None"
  "reply_of (Hal_setupTxDesc b i1 i2 k1 w5 w1 w2 w6 n1 w3 w4) = None"
  "reply_of (Hal_fillKeyTxDesc b k1) = None" "reply_of (Hal_fillTxDesc b w1 p1 p2) = None"
  "reply_of (Hal_clr11nAggr b) = None" "reply_of (Hal_set11nBurstDuration b) = None"
  "reply_of (Hal_set11nVirtualMoreFrag b) = None" "reply_of (Hal_set11nAggrFirst b n1 k1) = None"
  "reply_of (Hal_set11nAggrMiddle b k1) = None" "reply_of (Hal_set11nAggrLast b) = None"
  "reply_of (Hal_set11nRateScenario b w1 w2 ss w3) = None" "reply_of (Hal_procTxDesc b) = None"
  "reply_of Hal_readTxe = None" "reply_of (Hal_setTxDP w1 b) = None" "reply_of (Hal_startTxDma w1) = None"
  "reply_of (Hal_stopTxDma w1) = None" "reply_of (Hal_setInterrupts w1) = None"
  "reply_of (Htc_ReturnBuffers k1 n) = None" "reply_of (Wmi_Event n1 xs) = None"
  by (simp_all add: reply_of_def)

lemma kept_fields [keep_simps]:
  "kept (s\<lparr>sc_tx_draining := a1\<rparr>) = kept s" "kept (s\<lparr>sc_txbuf_held := a2\<rparr>) = kept s"
  "kept (s\<lparr>sc_txbuf := a3\<rparr>) = kept s" "kept (s\<lparr>an_tid := a4\<rparr>) = kept s" "kept (s\<lparr>frames := a5\<rparr>) = kept s"
  "kept (s\<lparr>sc_rc := a6\<rparr>) = kept s" "kept (s\<lparr>tx_status := a7\<rparr>) = kept s" "kept (s\<lparr>ds_txstat := a8\<rparr>) = kept s"
  "kept (s\<lparr>sc_imask := a9\<rparr>) = kept s" "kept (s\<lparr>sc_txqsetup := a10\<rparr>) = kept s" "kept (s\<lparr>sc_cabq := a11\<rparr>) = kept s"
  "kept (s\<lparr>sc_ac2q := a12\<rparr>) = kept s" "kept (s\<lparr>sc_ic := a13\<rparr>) = kept s" "kept (s\<lparr>sc_currates := a14\<rparr>) = kept s"
  "kept (s\<lparr>sc_curmode := a15\<rparr>) = kept s" "kept (s\<lparr>sc_protrix := a16\<rparr>) = kept s"
  by (simp_all add: kept_def)

lemma kept_upd [keep_simps]:
  "kept (upd_buf b f1 s) = kept s" "kept (upd_tid t f2 s) = kept s" "kept (upd_txq q f3 s) = kept s"
  "kept (upd_node n f4 s) = kept s" "kept (set_link b l s) = kept s" "kept (statsn x k s) = kept s"
  by (simp_all add: kept_def upd_buf_def upd_tid_def upd_txq_def upd_node_def set_link_def statsn_def)

lemma kept_stat_if [keep_simps]: "kept (stat_if c x s) = kept s"
  by (simp add: stat_if_def keep_simps)

section \<open>Buffers and status\<close>

lemma kept_return_skbs [keep_simps]: "kept (return_skbs e ks s) = kept s"
  by (induction ks arbitrary: s) (simp_all add: keep_simps)

lemma kept_buf [keep_simps]:
  "kept (ath_dma_map b s) = kept s" "kept (ath_dma_unmap b s) = kept s" "kept (ath_filltxdesc b s) = kept s"
  "kept (clr_aggr b s) = kept s" "kept (ath_tgt_skb_free b s) = kept s"
  by (simp_all add: ath_dma_map_def ath_dma_unmap_def ath_filltxdesc_def clr_aggr_def ath_tgt_skb_free_def Let_def keep_simps)

lemma kept_setds [keep_simps]: "kept (ath_tx_tgt_setds b s) = kept s"
  by (simp add: ath_tx_tgt_setds_def Let_def keep_simps)

lemma kept_release [keep_simps]: "kept (ath_buf_comp b s) = kept s" "kept (ath_tx_freebuf b s) = kept s"
  by (simp_all add: ath_buf_comp_def ath_tx_freebuf_def ath_buf_toggle_def Let_def keep_simps)

lemma set_frame_byte_keeps [keep]: "set_frame_byte k i x s = Some s' \<Longrightarrow> kept s' = kept s"
  by (auto simp: set_frame_byte_def bind_eq_Some_conv keep_simps)

lemma toggle_retry_keeps [keep]: "ath_buf_toggle_retry b s = Some (h, s') \<Longrightarrow> kept s' = kept s"
  by (auto simp: ath_buf_toggle_retry_def Let_def keep_simps split: list.splits)

lemma buf_alloc_keeps [keep]: "ath_tx_buf_alloc s = Some (b, s') \<Longrightarrow> kept s' = kept s"
  by (auto simp: ath_tx_buf_alloc_def keep_simps split: list.splits)

lemma set_rate_keeps [keep]: "ath_buf_set_rate env b s = Some s' \<Longrightarrow> kept s' = kept s"
  by (auto simp: ath_buf_set_rate_def bind_eq_Some_conv Let_def keep_simps)

lemma findrate_keeps [keep]: "ath_tgt_rate_findrate env n ser s = Some (r, p, s') \<Longrightarrow> kept s' = kept s"
  by (auto simp: ath_tgt_rate_findrate_def bind_eq_Some_conv keep_simps)

lemma put_status_keeps [keep]: "put_status i e s = Some s' \<Longrightarrow> kept s' = kept s"
  by (auto simp: put_status_def bind_eq_Some_conv keep_simps)

lemma status_update_keeps [keep]: "ath_tx_status_update env b s = Some s' \<Longrightarrow> kept s' = kept s"
  by (auto simp: ath_tx_status_update_def bind_eq_Some_conv Let_def split: if_splits option.splits dest!: keep)

lemma status_update_aggr_keeps [keep]: "ath_tx_status_update_aggr env b ds rcs ok s = Some s' \<Longrightarrow> kept s' = kept s"
  by (auto simp: ath_tx_status_update_aggr_def bind_eq_Some_conv Let_def split: if_splits option.splits dest!: keep)

lemma kept_fold [keep_simps]: "(\<And>x s. kept (f x s) = kept s) \<Longrightarrow> kept (fold f xs s) = kept s"
  by (induction xs arbitrary: s) simp_all

lemma foldM_kept: "(\<And>x s s'. f s x = Some s' \<Longrightarrow> kept s' = kept s) \<Longrightarrow> foldM f s xs = Some s' \<Longrightarrow> kept s' = kept s"
  by (induction xs arbitrary: s) (force simp: bind_eq_Some_conv)+

lemma kept_status [keep_simps]: "kept (ath_tx_status_clear s) = kept s" "kept (ath_tx_status_send s) = kept s"
  by (simp_all add: ath_tx_status_clear_def ath_tx_status_send_def keep_simps)

lemma update_stats_keeps [keep]: "ath_update_stats b s = Some s' \<Longrightarrow> kept s' = kept s"
  by (auto simp: ath_update_stats_def bind_eq_Some_conv Let_def keep_simps split: if_splits)

lemma kept_aggr_stats [keep_simps]: "kept (ath_update_aggr_stats ds s) = kept s"
  by (simp add: ath_update_aggr_stats_def Let_def keep_simps)

lemma rate_complete_keeps [keep]: "ath_rate_tx_complete env n ds rcs k nb s = Some s' \<Longrightarrow> kept s' = kept s"
  by (auto simp: ath_rate_tx_complete_def bind_eq_Some_conv Let_def keep_simps)

lemma uc_comp_keeps [keep]: "ath_tx_uc_comp env b s = Some s' \<Longrightarrow> kept s' = kept s"
  by (auto simp: ath_tx_uc_comp_def bind_eq_Some_conv Let_def dest!: keep)

section \<open>Scheduling\<close>

lemma kept_procTxDesc: "kept (snd (ah_procTxDesc env d s)) = kept s"
  by (simp add: ah_procTxDesc_def Let_def keep_simps split: prod.split)

lemma procTxDesc_keeps [keep]: "ah_procTxDesc env d s = (st, s') \<Longrightarrow> kept s' = kept s"
  using kept_procTxDesc by (metis snd_conv)

lemma kept_queue [keep_simps]:
  "kept (ATH_TXQ_INSERT_TAIL q b s) = kept s" "kept (ATH_TXQ_REMOVE_HEAD q b s) = kept s"
  by (simp_all add: ATH_TXQ_INSERT_TAIL_def ATH_TXQ_REMOVE_HEAD_def keep_simps)

lemma kept_add [keep_simps]: "kept (ath_tgt_txq_add_ucast env b s) = kept s" "kept (ath_tgt_txqaddbuf q b d s) = kept s"
  by (simp_all add: ath_tgt_txq_add_ucast_def ath_tgt_txqaddbuf_def Let_def keep_simps kept_procTxDesc split: option.split)

lemma kept_enqueue [keep_simps]: "kept (ath_tgt_tx_enqueue q t s) = kept s" "kept (ath_aggr_pause_tid t s) = kept s"
  by (simp_all add: ath_tgt_tx_enqueue_def ath_aggr_pause_tid_def keep_simps)

lemma send_normal_keeps [keep]: "ath_tgt_tx_send_normal env b s = Some s' \<Longrightarrow> kept s' = kept s"
  by (auto simp: ath_tgt_tx_send_normal_def bind_eq_Some_conv Let_def keep_simps split: if_splits dest!: keep)

lemma sched_normal_keeps [keep]: "ath_tgt_tx_sched_normal env t s = Some s' \<Longrightarrow> kept s' = kept s"
proof (erule ath_tgt_tx_sched_normal.raw_induct [where P = "\<lambda>_ _ s s'. kept s' = kept s", rotated], goal_cases)
  case (1 f env t s s')
  from 1(2) show ?case
    by (auto simp: bind_eq_Some_conv keep_simps split: list.split_asm if_split_asm dest!: keep 1(1))
qed

lemma lookup_rate_keeps [keep]: "ath_lookup_rate env n b s = Some (l, s') \<Longrightarrow> kept s' = kept s"
  by (auto simp: ath_lookup_rate_def bind_eq_Some_conv Let_def keep_simps split: if_splits dest!: keep)

lemma form_add_keeps [keep]: "form_add t b bs g s = (g', s') \<Longrightarrow> kept s' = kept s"
  by (auto simp: form_add_def Let_def keep_simps)

lemma form_loop_keeps [keep]: "form_loop env t bs g s = Some (st, g', s') \<Longrightarrow> kept s' = kept s"
proof (induction bs arbitrary: g s)
  case Nil
  then show ?case by simp
next
  case (Cons b bs)
  from Cons.prems show ?case
    by (auto simp: bind_eq_Some_conv Let_def split: if_splits option.splits prod.splits dest!: keep Cons.IH)
qed

lemma form_aggr_keeps [keep]: "ath_tgt_tx_form_aggr env t s = Some (st, q, s') \<Longrightarrow> kept s' = kept s"
  by (auto simp: ath_tgt_tx_form_aggr_def bind_eq_Some_conv keep_simps simp del: form_loop.simps
      split: list.splits dest!: form_loop_keeps)

lemma send_single_keeps [keep]: "send_single env b s = Some s' \<Longrightarrow> kept s' = kept s"
  by (auto simp: send_single_def bind_eq_Some_conv Let_def keep_simps dest!: keep)

lemma send_aggr_keeps [keep]: "send_aggr env b l s = Some s' \<Longrightarrow> kept s' = kept s"
  by (auto simp: send_aggr_def bind_eq_Some_conv Let_def keep_simps dest!: keep)

lemma sched_aggr_keeps [keep]: "ath_tgt_tx_sched_aggr env t s = Some s' \<Longrightarrow> kept s' = kept s"
proof (erule ath_tgt_tx_sched_aggr.raw_induct [where P = "\<lambda>_ _ s s'. kept s' = kept s", rotated], goal_cases)
  case (1 f env t s s')
  show ?case
  proof (cases "buf_q (an_tid s t)")
    case Nil
    then show ?thesis using 1(2) by simp
  next
    case Cons
    then obtain st q s1 where a: "ath_tgt_tx_form_aggr env t s = Some (st, q, s1)"
      using 1(2) by (auto simp: bind_eq_Some_conv)
    have "kept s' = kept s1"
      using 1(2) Cons a by (cases q) (auto simp: bind_eq_Some_conv split: if_split_asm dest!: keep 1(1))
    then show ?thesis using form_aggr_keeps [OF a] by simp
  qed
qed

lemma sched_tid_keeps [keep]: "sched_tid env q t s = Some s' \<Longrightarrow> kept s' = kept s"
  by (auto simp: sched_tid_def bind_eq_Some_conv keep_simps split: if_splits dest!: keep)

lemma sched_loop_keeps [keep]: "sched_loop env q ts s = Some s' \<Longrightarrow> kept s' = kept s"
  by (induction ts arbitrary: s) (auto simp: Let_def keep_simps split: if_splits dest!: keep)

lemma schedule_keeps [keep]: "ath_tgt_txq_schedule env q s = Some s' \<Longrightarrow> kept s' = kept s"
  by (auto simp: ath_tgt_txq_schedule_def dest!: keep)

lemma resume_tid_keeps [keep]: "ath_aggr_resume_tid env t s = Some s' \<Longrightarrow> kept s' = kept s"
  by (auto simp: ath_aggr_resume_tid_def Let_def keep_simps split: if_splits dest!: keep)

section \<open>Completion\<close>

lemma set_retry_keeps [keep]: "ath_tx_set_retry b s = Some s' \<Longrightarrow> kept s' = kept s"
  by (auto simp: ath_tx_set_retry_def bind_eq_Some_conv Let_def keep_simps dest!: keep)

lemma update_baw_keeps [keep]: "tid_update_baw t q s = Some s' \<Longrightarrow> kept s' = kept s"
  by (auto simp: tid_update_baw_def bind_eq_Some_conv keep_simps)

lemma retry_subframe_keeps [keep]: "ath_tx_retry_subframe env b acc s = Some (acc', s') \<Longrightarrow> kept s' = kept s"
  by (auto simp: ath_tx_retry_subframe_def bind_eq_Some_conv Let_def keep_simps split: if_splits option.splits dest!: keep)

lemma bar_tx_keeps [keep]: "ath_bar_tx env t b s = Some s' \<Longrightarrow> kept s' = kept s"
  by (auto simp: ath_bar_tx_def bind_eq_Some_conv Let_def keep_simps)

lemma aggr_loop_keeps [keep]:
  assumes "aggr_loop env t acked ds rcs ob acc nbad s = Some (acc', n, s')"
  shows "kept s' = kept s"
proof -
  have "kept (snd (snd (acc', n, s'))) = kept s"
    using assms
  proof (rule aggr_loop.raw_induct [where P = "\<lambda>_ _ _ _ _ _ _ _ s r. kept (snd (snd r)) = kept s", rotated], goal_cases)
    case (1 f env t acked ds rcs ob acc nbad s r)
    from 1(2) show ?case
      by (auto simp: bind_eq_Some_conv Let_def keep_simps split: option.split_asm if_split_asm dest!: keep 1(1))
  qed
  then show ?thesis by simp
qed

lemma aggr_finish_keeps [keep]: "aggr_finish env q t acc s = Some s' \<Longrightarrow> kept s' = kept s"
  by (auto simp: aggr_finish_def bind_eq_Some_conv keep_simps split: option.split_asm if_split_asm dest!: keep)

lemma comp_aggr_error_keeps [keep]: "ath_tx_comp_aggr_error env b t s = Some s' \<Longrightarrow> kept s' = kept s"
  by (auto simp: ath_tx_comp_aggr_error_def bind_eq_Some_conv Let_def keep_simps dest!: keep)

lemma retry_unaggr_keeps [keep]: "ath_tx_retry_unaggr env b s = Some s' \<Longrightarrow> kept s' = kept s"
  by (auto simp: ath_tx_retry_unaggr_def bind_eq_Some_conv Let_def keep_simps split: if_split_asm dest!: keep)

lemma comp_unaggr_keeps [keep]: "ath_tx_comp_unaggr env b s = Some s' \<Longrightarrow> kept s' = kept s"
  by (auto simp: ath_tx_comp_unaggr_def bind_eq_Some_conv Let_def keep_simps split: if_split_asm dest!: keep)

section \<open>Clean-up\<close>

lemma tid_cleanup_keeps [keep]: "owl_tgt_tid_cleanup env t s = Some s' \<Longrightarrow> kept s' = kept s"
  by (auto simp: owl_tgt_tid_cleanup_def Let_def keep_simps split: if_split_asm dest!: keep)

lemma kept_node_init [keep_simps]: "kept (owl_tgt_node_init n s) = kept s"
  by (simp add: owl_tgt_node_init_def keep_simps)

lemma kept_tid_drain [keep_simps]: "kept (ath_tgt_tid_drain t s) = kept s"
  by (simp add: ath_tgt_tid_drain_def Let_def keep_simps)

lemma cleanup_loop_keeps [keep]: "cleanup_loop t d bs s = Some s' \<Longrightarrow> kept s' = kept s"
proof (induction bs arbitrary: d s)
  case Nil
  then show ?case by simp
next
  case (Cons b bs)
  from Cons.prems show ?case
    by (auto simp: bind_eq_Some_conv Let_def keep_simps split: if_split_asm dest!: keep Cons.IH)
qed

lemma cleanup_keeps [keep]: "ath_tgt_tx_cleanup env t d s = Some s' \<Longrightarrow> kept s' = kept s"
  by (auto simp: ath_tgt_tx_cleanup_def bind_eq_Some_conv Let_def keep_simps split: if_split_asm dest!: keep)

lemma cleanup_aggr_loop_keeps [keep]: "cleanup_aggr_loop env t ds rcs ob s = Some s' \<Longrightarrow> kept s' = kept s"
proof (erule cleanup_aggr_loop.raw_induct [where P = "\<lambda>_ _ _ _ _ s s'. kept s' = kept s", rotated], goal_cases)
  case (1 f env t ds rcs ob s s')
  from 1(2) show ?case
    by (auto simp: bind_eq_Some_conv Let_def keep_simps split: option.split_asm if_split_asm dest!: keep 1(1))
qed

lemma comp_cleanup_keeps [keep]: "ath_tx_comp_cleanup env b s = Some s' \<Longrightarrow> kept s' = kept s"
  by (auto simp: ath_tx_comp_cleanup_def bind_eq_Some_conv Let_def keep_simps split: if_split_asm dest!: keep)

section \<open>The completed queues\<close>

lemma comp_normal_keeps [keep]: "ath_tgt_tx_comp_normal env b s = Some s' \<Longrightarrow> kept s' = kept s"
  by (auto simp: ath_tgt_tx_comp_normal_def bind_eq_Some_conv Let_def keep_simps split: if_split_asm dest!: keep)

lemma comp_aggr_keeps [keep]: "ath_tgt_tx_comp_aggr env b s = Some s' \<Longrightarrow> kept s' = kept s"
  by (auto simp: ath_tgt_tx_comp_aggr_def bind_eq_Some_conv Let_def keep_simps split: if_split_asm dest!: keep)

lemma delba_keeps [keep]: "ath_tgt_delba_send env t s = Some s' \<Longrightarrow> kept s' = kept s"
  by (auto simp: ath_tgt_delba_send_def bind_eq_Some_conv Let_def keep_simps dest!: keep)

lemma bar_retry_keeps [keep]: "ath_bar_retry env b s = Some s' \<Longrightarrow> kept s' = kept s"
  by (auto simp: ath_bar_retry_def bind_eq_Some_conv Let_def keep_simps split: if_split_asm dest!: keep)

lemma bar_comp_keeps [keep]: "ath_bar_tx_comp env b s = Some s' \<Longrightarrow> kept s' = kept s"
  by (auto simp: ath_bar_tx_comp_def bind_eq_Some_conv Let_def keep_simps split: if_split_asm dest!: keep)

lemma complete_keeps [keep]: "bf_complete env b s = Some s' \<Longrightarrow> kept s' = kept s"
  by (auto simp: bf_complete_def bind_eq_Some_conv keep_simps split: option.split_asm comp_fn.split_asm dest!: keep)

lemma kept_take [keep_simps]:
  "kept (txq_reset_link q s) = kept s" "kept (processq_take q b s) = kept s" "kept (processq_status st d s) = kept s"
  by (simp_all add: txq_reset_link_def processq_take_def processq_status_def Let_def keep_simps)

lemma processq_keeps [keep]: "owltgt_tx_processq env q st s = Some s' \<Longrightarrow> kept s' = kept s"
proof (erule owltgt_tx_processq.raw_induct [where P = "\<lambda>_ _ _ s s'. kept s' = kept s", rotated], goal_cases)
  case (1 f env q st s s')
  from 1(2) show ?case
    by (auto simp: bind_eq_Some_conv Let_def keep_simps split: list.split_asm if_split_asm prod.split_asm dest!: keep 1(1))
qed

lemma process_cabq_keeps [keep]: "owltgt_tx_process_cabq env q s = Some s' \<Longrightarrow> kept s' = kept s"
  by (auto simp: owltgt_tx_process_cabq_def bind_eq_Some_conv Let_def keep_simps dest!: keep)

lemma tx_tasklet_keeps [keep]: "owl_tgt_tx_tasklet env s = Some s' \<Longrightarrow> kept s' = kept s"
  by (auto simp: owl_tgt_tx_tasklet_def bind_eq_Some_conv keep_simps split: if_split_asm
      dest!: foldM_kept [rotated] dest: keep)

section \<open>Frames from the host\<close>

lemma handle_normal_keeps [keep]: "ath_tgt_handle_normal env b s = Some s' \<Longrightarrow> kept s' = kept s"
  by (auto simp: ath_tgt_handle_normal_def bind_eq_Some_conv Let_def keep_simps dest!: keep)

lemma handle_aggr_keeps [keep]: "ath_tgt_handle_aggr env b s = Some s' \<Longrightarrow> kept s' = kept s"
  by (auto simp: ath_tgt_handle_aggr_def bind_eq_Some_conv Let_def keep_simps split: if_split_asm dest!: keep)

lemma crypto_encap_keeps [keep]: "ieee80211_tgt_crypto_encap n k keytype s = Some s' \<Longrightarrow> kept s' = kept s"
  unfolding ieee80211_tgt_crypto_encap_def Let_def bind_eq_Some_conv
  by (elim exE conjE, cases "keytype \<in> {HAL_KEY_TYPE_AES, HAL_KEY_TYPE_TKIP}")
    (simp_all only: insert_iff empty_iff if_True if_False simp_thms bind_eq_Some_conv option.inject, auto simp only: keep_simps)

lemma key_setup_keeps [keep]: "ath_key_setup b s = Some s' \<Longrightarrow> kept s' = kept s"
  by (auto simp: ath_key_setup_def bind_eq_Some_conv Let_def keep_simps split: if_split_asm dest!: keep)

lemma seqno_keeps [keep]: "ath_tgt_tx_seqno_normal b s = Some s' \<Longrightarrow> kept s' = kept s"
  by (auto simp: ath_tgt_tx_seqno_normal_def bind_eq_Some_conv Let_def keep_simps split: if_split_asm dest!: keep)

lemma txbuf_setup_keeps [keep]: "ath_tgt_txbuf_setup b dh s = Some s' \<Longrightarrow> kept s' = kept s"
  by (auto simp: ath_tgt_txbuf_setup_def bind_eq_Some_conv Let_def keep_simps dest!: keep)

lemma prepare_keeps [keep]: "ath_tgt_tx_prepare k dh s = Some (ob, s') \<Longrightarrow> kept s' = kept s"
  by (auto simp: ath_tgt_tx_prepare_def bind_eq_Some_conv Let_def keep_simps split: if_split_asm option.split_asm dest!: keep)

lemma mgt_seqno_keeps [keep]: "mgt_seqno k n s = Some s' \<Longrightarrow> kept s' = kept s"
  by (auto simp: mgt_seqno_def bind_eq_Some_conv Let_def keep_simps dest!: set_frame_byte_keeps)

lemma kept_hand_over [keep_simps]: "kept (mgt_hand_over mh b fc0 w pl hl ty r t0 fl rr rd s) = kept s"
  by (simp add: mgt_hand_over_def Let_def keep_simps)

lemma mgt_send_keeps [keep]: "mgt_send env mh k e b n s = Some s' \<Longrightarrow> kept s' = kept s"
  by (auto simp: mgt_send_def bind_eq_Some_conv Let_def keep_simps case_prod_beta dest!: mgt_seqno_keeps)

lemma send_mgt_keeps [keep]: "ath_tgt_send_mgt env mh k e s = Some s' \<Longrightarrow> kept s' = kept s"
  by (auto simp: ath_tgt_send_mgt_def bind_eq_Some_conv Let_def keep_simps split: list.split_asm option.split_asm dest!: keep)

lemma recv_message_keeps [keep]: "tgt_HTCRecvMessageHandler env e dh k s = Some s' \<Longrightarrow> kept s' = kept s"
  by (auto simp: tgt_HTCRecvMessageHandler_def bind_eq_Some_conv Let_def keep_simps split: option.split_asm if_split_asm
      dest!: keep)

end
