(* ===== verification/Ath_Driver.thy ===== *)
theory Ath_Driver
  imports Ath_Cmd Owl_Keep "HOL-Library.Multiset"
begin

text \<open>
  The driver as a whole: the events it handles, its runs, and what every run preserves. Commands, interrupts,
  tasklets, frames from the host and completions come in any order; HTC and WMI may change their own
  buffers in memory in between.
\<close>

section \<open>Events and runs\<close>

datatype ath_event =
    Ev_Command u16 u16 "nat \<Rightarrow> u8" int
  | Ev_Interrupt
  | Ev_Tasklet tqueue
  | Ev_Data u8 ath_data_hdr nbufref "u8 list"
  | Ev_Cab u8 ath_data_hdr nbufref "u8 list"
  | Ev_Mgmt u8 ath_mgt_hdr nbufref "u8 list"
  | Ev_Beacon bool nbufref u8 "u8 list"
  | Ev_Sent u8 addr

definition put_frame :: "nbufref \<Rightarrow> u8 list \<Rightarrow> 'a owl_scheme \<Rightarrow> 'a owl_scheme" where
  "put_frame k xs s = s\<lparr>frames := (frames s)(k := xs)\<rparr>"

fun handle :: "ath_env \<Rightarrow> ath_event \<Rightarrow> 'a softc_scheme \<Rightarrow> 'a softc_scheme option" where
  "handle env (Ev_Command c n data len) s = run_command env c n data len s"
| "handle env Ev_Interrupt s = map_option snd (ath_intr env s)"
| "handle env (Ev_Tasklet q) s = (case q of
       sc_rxtq \<Rightarrow> ath_tgt_rx_tasklet env s
     | sc_txtq \<Rightarrow> owl_tgt_tx_tasklet (owl_part env) s
     | sc_bmisstq \<Rightarrow> Some (ath_bmiss_tasklet s)
     | sc_fataltq \<Rightarrow> Some (ath_fatal_tasklet s))"
| "handle env (Ev_Data ep dh k xs) s = tgt_HTCRecvMessageHandler (owl_part env) ep dh k (put_frame k xs s)"
| "handle env (Ev_Cab ep dh k xs) s = tgt_HTCRecv_cabhandler env ep dh k (put_frame k xs s)"
| "handle env (Ev_Mgmt ep mh k xs) s = ath_tgt_send_mgt (owl_part env) mh k ep (put_frame k xs s)"
| "handle env (Ev_Beacon hdr k ep xs) s = ath_tgt_send_beacon hdr k ep (put_frame k xs s)"
| "handle env (Ev_Sent ep p) s = tgt_HTCSendCompleteHandler ep p s"

inductive ath_run :: "ath_env \<Rightarrow> 'a softc_scheme \<Rightarrow> ath_event list \<Rightarrow> 'a softc_scheme \<Rightarrow> bool"
  for env s where
  start: "ath_run env s [] s"
| event: "ath_run env s es s1 \<Longrightarrow> handle env e s1 = Some s2 \<Longrightarrow> ath_run env s (es @ [e]) s2"
| other: "ath_run env s es s1 \<Longrightarrow> ath_run env s es (s1\<lparr>sc_mem := m\<rparr>)"

section \<open>What is preserved\<close>

definition rxq :: "'a softc_scheme \<Rightarrow> nat multiset" where
  "rxq s = mset (sc_rxbuf s)"

definition stable :: "'a softc_scheme \<Rightarrow> nat multiset \<times> (nat \<Rightarrow> nat option)" where
  "stable s = (mset (sc_rxdesc s) + mset (sc_rxdesc_idle s), iv_bss \<circ> sc_vapx s)"

definition rest :: "'a softc_scheme \<Rightarrow> (u16 \<times> u16) list \<times> nat multiset \<times> nat multiset \<times> (nat \<Rightarrow> nat option)" where
  "rest s = (replies (acts s), rxq s, stable s)"

named_theorems rest_simps \<open>functions of the driver that keep the descriptors and the replies\<close>
named_theorems rest \<open>steps of the driver that keep the descriptors and the replies\<close>

lemma rest_of_kept:
  assumes "kept s' = kept (s :: 'a softc_scheme)"
  shows "rest s' = rest s"
proof -
  have "owl.more s' = owl.more s" "replies (acts s') = replies (acts s)" using assms by (simp_all add: kept_def)
  moreover from this(1) have "sc_rxdesc s' = sc_rxdesc s" "sc_rxdesc_idle s' = sc_rxdesc_idle s"
      "sc_rxbuf s' = sc_rxbuf s" "sc_vapx s' = sc_vapx s"
    by (cases s; cases s'; simp)+
  ultimately show ?thesis by (simp add: rest_def rxq_def stable_def)
qed

lemmas kept_total = kept_emit kept_fields kept_upd kept_stat_if kept_buf kept_setds kept_release kept_status
  kept_aggr_stats kept_queue kept_add kept_enqueue kept_node_init kept_tid_drain kept_take

lemmas rest_owl = kept_total [THEN rest_of_kept]
lemmas rest_owl_run = keep [THEN rest_of_kept]

lemma rest_fields [rest_simps]:
  "rest (s\<lparr>sc_mem := a1\<rparr>) = rest s" "rest (s\<lparr>rxbufs := a2\<rparr>) = rest s" "rest (s\<lparr>rxdescs := a3\<rparr>) = rest s"
  "rest (s\<lparr>sc_rxdesc_held := a4\<rparr>) = rest s" "rest (s\<lparr>sc_rxlink := a5\<rparr>) = rest s" "rest (s\<lparr>sc_rxbufsize := a6\<rparr>) = rest s"
  "rest (s\<lparr>sc_int_stats := a7\<rparr>) = rest s" "rest (s\<lparr>sc_rx_stats := a8\<rparr>) = rest s" "rest (s\<lparr>sc_swba_tsf := a9\<rparr>) = rest s"
  "rest (s\<lparr>sc_uapsdq := a10\<rparr>) = rest s" "rest (s\<lparr>sc_stax := a11\<rparr>) = rest s" "rest (s\<lparr>sc_rates := a12\<rparr>) = rest s"
  "rest (s\<lparr>sc_rixmap := a13\<rparr>) = rest s" "rest (s\<lparr>reset_pll := a14\<rparr>) = rest s" "rest (s\<lparr>clock_set := a15\<rparr>) = rest s"
  "rest (s\<lparr>sc_vap := a16\<rparr>) = rest s" "rest (s\<lparr>frames := a17\<rparr>) = rest s" "rest (s\<lparr>headroom := a18\<rparr>) = rest s"
  by (simp_all add: rest_def rxq_def stable_def)

lemma rest_upd [rest_simps]:
  "rest (upd_rxbuf b f1 s) = rest s" "rest (upd_rxdesc d f2 s) = rest s" "rest (upd_vap v f3 s) = rest s"
  "rest (upd_nodex n f4 s) = rest s" "rest (put_frame k xs s) = rest s"
  "rest (pull_hdr k s) = rest s" "rest (push_hdr k s) = rest s"
  by (simp_all add: pull_hdr_def push_hdr_def upd_rxbuf_def upd_rxdesc_def upd_vap_def upd_nodex_def put_frame_def rest_simps)

lemma rest_upd_vapx [rest_simps]: "(\<And>x. iv_bss (f x) = iv_bss x) \<Longrightarrow> rest (upd_vapx v f s) = rest s"
  by (auto simp: upd_vapx_def rest_def rxq_def stable_def fun_eq_iff)

lemma reply_of_drv [rest_simps]: "reply_of (Drv a) = (case a of Wmi_Reply c n _ \<Rightarrow> Some (c, n) | _ \<Rightarrow> None)"
  by (simp add: reply_of_def)

lemma rest_emit [rest_simps]: "reply_of a = None \<Longrightarrow> rest (emit a s) = rest s"
  by (rule rest_of_kept) (rule kept_emit)

lemma rest_drv [rest_simps]: "reply_of (Drv a) = None \<Longrightarrow> rest (drv a s) = rest s"
  by (simp add: drv_def rest_emit)

lemma rest_setInterrupts [rest_simps]: "rest (setInterrupts m s) = rest s" "rest (schedule_tq q s) = rest s"
    "rest (wmi_event c xs s) = rest s"
  by (simp_all add: setInterrupts_def schedule_tq_def wmi_event_def rest_simps keep_simps)

lemma rest_fold [rest_simps]: "(\<And>x s. rest (f x s) = rest s) \<Longrightarrow> rest (fold f xs s) = rest s"
  by (induction xs arbitrary: s) simp_all

lemma foldM_rest: "(\<And>x s s'. f s x = Some s' \<Longrightarrow> rest s' = rest s) \<Longrightarrow> foldM f s xs = Some s' \<Longrightarrow> rest s' = rest s"
  by (induction xs arbitrary: s) (force simp: bind_eq_Some_conv)+

lemma rest_read [rest]:
  "read_tsf env s = (v, s') \<Longrightarrow> rest s' = rest s" "read_mac env a s = (w, s') \<Longrightarrow> rest s' = rest s"
  "read_soc env a s = (w, s') \<Longrightarrow> rest s' = rest s"
  by (auto simp: read_tsf_def read_mac_def read_soc_def rest_simps)

lemma replies_Cons: "replies (a # l) = (case reply_of a of None \<Rightarrow> replies l | Some r \<Rightarrow> r # replies l)"
  by (cases "reply_of a") (simp_all add: replies_def map_filter_simps)

lemma replies_io: "replies (map (\<lambda>a. Drv (Io a)) l) = []"
  by (induction l) (simp_all add: replies_def map_filter_simps reply_of_def)

lemma run_hal_rest [rest]: "run_hal env f s = (x, s') \<Longrightarrow> rest s' = rest s"
  by (auto simp: run_hal_def Let_def rest_def rxq_def stable_def replies_io split: prod.split_asm)

lemma extend_tsf_rest [rest]: "ath_extend_tsf env r s = (t, s') \<Longrightarrow> rest s' = rest s"
  by (auto simp: ath_extend_tsf_def dest: rest split: prod.split_asm)

section \<open>The receive path\<close>

lemma alloc_skb_rest [rest]: "ath_alloc_skb_align s = Some (k, s') \<Longrightarrow> rest s' = rest s"
  by (auto simp: ath_alloc_skb_align_def bind_eq_Some_conv rest_simps)

definition ring :: "'a softc_scheme \<Rightarrow> nat list \<times> nat list \<times> nat list" where
  "ring s = (sc_rxdesc s, sc_rxdesc_idle s, sc_rxbuf s)"

lemma ring_simps:
  "ring (s\<lparr>sc_mem := a1\<rparr>) = ring s" "ring (s\<lparr>sc_rxdesc_held := a2\<rparr>) = ring s" "ring (s\<lparr>sc_rxlink := a3\<rparr>) = ring s"
  "ring (s\<lparr>sc_rx_stats := a4\<rparr>) = ring s" "ring (upd_rxdesc d f s) = ring s" "ring (drv a s) = ring s"
  "ring (upd_rxbuf b g s) = ring s"
  by (simp_all add: ring_def upd_rxdesc_def upd_rxbuf_def drv_def emit_def)

lemma rxdesc_fill_rest [rest]: "rxdesc_fill d s = Some (ok, s') \<Longrightarrow> rest s' = rest s"
  by (auto simp: rxdesc_fill_def bind_eq_Some_conv Let_def rest_simps split: if_split_asm dest: rest)

lemma rxdesc_fill_ring: "rxdesc_fill d s = Some (ok, s') \<Longrightarrow> ring s' = ring s"
  by (auto simp: rxdesc_fill_def ath_alloc_skb_align_def bind_eq_Some_conv Let_def ring_simps split: if_split_asm)

lemma rxdesc_init_rest [rest]: "ath_rxdesc_init d s = Some (ok, s') \<Longrightarrow> rest s' = rest s"
  by (auto simp: ath_rxdesc_init_def bind_eq_Some_conv Let_def rest_simps split: if_split_asm option.split_asm dest!: rest)

lemma rxdesc_init_ring: "ath_rxdesc_init d s = Some (ok, s') \<Longrightarrow> ring s' = ring s"
  by (auto simp: ath_rxdesc_init_def bind_eq_Some_conv Let_def ring_simps split: if_split_asm option.split_asm
      dest!: rxdesc_fill_ring)

lemma rest_move_idle:
  assumes "sc_rxdesc_idle s = d # ds"
  shows "rest (s\<lparr>sc_rxdesc_idle := remove1 d (sc_rxdesc_idle s), sc_rxdesc := sc_rxdesc s @ [d]\<rparr>) = rest s"
  using assms by (simp add: rest_def rxq_def stable_def)

lemma rx_complete_loop_rest:
  "rx_complete_loop ds q s = Some s' \<Longrightarrow> sc_rxdesc_idle s = ds \<Longrightarrow> rest s' = rest s"
proof (induction ds arbitrary: q s)
  case Nil
  then show ?case by simp
next
  case (Cons d ds)
  from Cons.prems(1) obtain p q1 m where a: "adf_nbuf_queue_remove q (sc_mem s) = Some (p, q1, m)"
    by (auto simp: bind_eq_Some_conv)
  show ?case
  proof (cases "p = NULL")
    case True
    then show ?thesis using Cons.prems(1) a by (auto simp: rest_simps)
  next
    case False
    then obtain m1 ok s1 where b: "ath_rxdesc_init d (s\<lparr>sc_mem := m1\<rparr>) = Some (ok, s1)"
      "rx_complete_loop ds q1 (s1\<lparr>sc_rxdesc_idle := remove1 d (sc_rxdesc_idle s1), sc_rxdesc := sc_rxdesc s1 @ [d]\<rparr>) = Some s'"
      using Cons.prems(1) a by (auto simp: bind_eq_Some_conv Let_def)
    have i: "sc_rxdesc_idle s1 = d # ds" using rxdesc_init_ring [OF b(1)] Cons.prems(2) by (simp add: ring_def)
    have "rest s' = rest (s1\<lparr>sc_rxdesc_idle := remove1 d (sc_rxdesc_idle s1), sc_rxdesc := sc_rxdesc s1 @ [d]\<rparr>)"
      by (rule Cons.IH [OF b(2)]) (simp add: i)
    also have "\<dots> = rest s1" using i by (rule rest_move_idle)
    also have "\<dots> = rest s" using rxdesc_init_rest [OF b(1)] by (simp add: rest_simps)
    finally show ?thesis .
  qed
qed

lemma rx_complete_rest [rest]: "ath_rx_complete p s = Some s' \<Longrightarrow> rest s' = rest s"
  by (auto simp: ath_rx_complete_def bind_eq_Some_conv rest_simps dest!: rx_complete_loop_rest)

lemma send_complete_rest [rest]: "tgt_HTCSendCompleteHandler ep p s = Some s' \<Longrightarrow> rest s' = rest s"
  by (auto simp: tgt_HTCSendCompleteHandler_def rest_simps split: if_split_asm dest!: rest)

lemma tailq_next_in: "tailq_next xs d = Some n \<Longrightarrow> d \<in> set xs"
  by (induction xs d rule: tailq_next.induct) (auto split: if_split_asm)

lemma requeue_desc_rest:
  assumes "requeue_desc d s = Some s'" "d \<in> set (sc_rxdesc s)"
  shows "rest s' = rest s"
proof -
  from assms(1) obtain ok s1 where a: "ath_rxdesc_init d s = Some (ok, s1)" and s': "s' = (let s = s1\<lparr>sc_rxdesc := remove1 d (sc_rxdesc s1)\<rparr>
      in if ok then s\<lparr>sc_rxdesc := sc_rxdesc s @ [d]\<rparr> else s\<lparr>sc_rxdesc_idle := sc_rxdesc_idle s @ [d]\<rparr>)"
    by (auto simp: requeue_desc_def bind_eq_Some_conv Let_def)
  have "d \<in># mset (sc_rxdesc s1)" using rxdesc_init_ring [OF a] assms(2) by (simp add: ring_def)
  then have "rest s' = rest s1" by (simp add: s' Let_def rest_def rxq_def stable_def)
  then show ?thesis using rxdesc_init_rest [OF a] by simp
qed

lemma take_frame_rest [rest]:
  assumes "take_frame d t q s = Some (q', s')"
  shows "rest s' = rest s"
proof -
  have "rest (snd (q', s')) = rest s"
    using assms
  proof (rule take_frame.raw_induct [where P = "\<lambda>_ _ _ s r. rest (snd r) = rest s", rotated], goal_cases)
    case (1 f d t q s r)
    from 1(2) obtain q1 m n s1 where a: "tailq_next (sc_rxdesc s) d = Some n"
        "requeue_desc d (upd_rxdesc d (ds_nbuf_update (\<lambda>_. NULL)) (s\<lparr>sc_mem := m\<rparr>)) = Some s1"
        "(if d = t then Some (q1, s1) else f n t q1 s1) = Some r"
      by (auto simp: bind_eq_Some_conv Let_def upd_rxdesc_def split: prod.split_asm)
    have "rest (snd r) = rest s1" using a(3) by (auto split: if_split_asm dest: 1(1))
    also have "\<dots> = rest s" using requeue_desc_rest [OF a(2)] tailq_next_in [OF a(1)]
      by (simp add: rest_simps) (simp add: upd_rxdesc_def)
    finally show ?case .
  qed
  then show ?thesis by simp
qed

lemma drop_frame_rest [rest]: "drop_frame d t s = Some s' \<Longrightarrow> rest s' = rest s"
proof (erule drop_frame.raw_induct [where P = "\<lambda>_ _ s s'. rest s' = rest s", rotated], goal_cases)
  case (1 f d t s s')
  from 1(2) obtain m n s1 where a: "tailq_next (sc_rxdesc s) d = Some n"
      "requeue_desc d (upd_rxdesc d (ds_nbuf_update (\<lambda>_. NULL)) (s\<lparr>sc_mem := m\<rparr>)) = Some s1"
      "(if d = t then Some s1 else f n t s1) = Some s'"
    by (auto simp: bind_eq_Some_conv Let_def)
  have "rest s' = rest s1" using a(3) by (auto split: if_split_asm dest: 1(1))
  also have "\<dots> = rest s" using requeue_desc_rest [OF a(2)] tailq_next_in [OF a(1)]
    by (simp add: rest_simps) (simp add: upd_rxdesc_def)
  finally show ?case .
qed

lemma put_len_rest [rest]: "rx_put_len d n s = Some s' \<Longrightarrow> rest s' = rest s"
  by (auto simp: rx_put_len_def bind_eq_Some_conv rest_simps split: if_split_asm)

lemma finish_frame_rest [rest]: "finish_frame b h t len s = Some s' \<Longrightarrow> rest s' = rest s"
  by (auto simp: finish_frame_def bind_eq_Some_conv rest_simps dest!: rest)

lemma uapsd_loop_rest [rest]: "uapsd_loop env ds h bf cnt len s = Some s' \<Longrightarrow> rest s' = rest s"
proof (erule uapsd_loop.raw_induct [where P = "\<lambda>_ _ _ _ _ _ s s'. rest s' = rest s", rotated], goal_cases)
  case (1 f env ds h bf cnt len s s')
  from 1(2) show ?case
    by (auto simp: bind_eq_Some_conv Let_def rest_simps split: option.split_asm if_split_asm prod.split_asm
        dest!: rest 1(1))
qed

lemma triggers_rest [rest]: "ath_uapsd_processtriggers env s = Some s' \<Longrightarrow> rest s' = rest s"
  by (simp add: ath_uapsd_processtriggers_def uapsd_loop_rest)

lemma startrecv_loop_rest [rest]: "startrecv_loop ds s = Some (ok, s') \<Longrightarrow> rest s' = rest s"
  by (induction ds arbitrary: s) (auto simp: bind_eq_Some_conv split: if_split_asm dest!: rest)

lemma startrecv_rest [rest]: "ath_startrecv s = Some (ok, s') \<Longrightarrow> rest s' = rest s"
  by (auto simp: ath_startrecv_def bind_eq_Some_conv Let_def rest_simps split: if_split_asm dest!: rest)

lemma rx_deliver_rest:
  "rx_deliver env b s = Some s' \<Longrightarrow> sc_rxbuf s = b # bs \<Longrightarrow> rest s' = rest s"
  by (auto simp: rx_deliver_def ath_extend_tsf_def read_tsf_def drv_def emit_def upd_rxbuf_def rest_def rxq_def
      stable_def replies_Cons reply_of_def bind_eq_Some_conv Let_def)

lemma rx_tasklet_loop_rest [rest]: "rx_tasklet_loop env s = Some s' \<Longrightarrow> rest s' = rest s"
proof (erule rx_tasklet_loop.raw_induct [where P = "\<lambda>_ s s'. rest s' = rest s", rotated], goal_cases)
  case (1 f env s s')
  from 1(2) show ?case
    by (auto simp: bind_eq_Some_conv split: list.split_asm if_split_asm dest: 1(1) dest!: rx_deliver_rest)
qed

lemma rx_tasklet_rest [rest]: "ath_tgt_rx_tasklet env s = Some s' \<Longrightarrow> rest s' = rest s"
  by (auto simp: ath_tgt_rx_tasklet_def bind_eq_Some_conv Let_def rest_simps rest_owl dest!: rest)

section \<open>Beacons, queues, interrupts\<close>

lemma beacon_setup_rest [rest]: "ath_beacon_setup b v k s = Some s' \<Longrightarrow> rest s' = rest s"
  by (auto simp: ath_beacon_setup_def bind_eq_Some_conv Let_def rest_simps keep_simps rest_owl)

lemma send_beacon_rest [rest]: "ath_tgt_send_beacon hdr k ep s = Some s' \<Longrightarrow> rest s' = rest s"
  by (auto simp: ath_tgt_send_beacon_def bind_eq_Some_conv Let_def rest_simps keep_simps rest_owl
      split: option.split_asm dest!: rest)

lemma draintxq_rest [rest]: "ath_tx_draintxq env q s = Some s' \<Longrightarrow> rest s' = rest s"
  by (auto simp: ath_tx_draintxq_def dest: rest_owl_run)

lemma kept_drain_tids: "kept (drain_tids q ts s) = kept s"
  by (induction q ts s rule: drain_tids.induct) (simp_all add: keep_simps)

lemma ath_draintxq_rest [rest]:
  assumes "ath_draintxq env s = Some s'"
  shows "rest s' = rest s"
proof -
  define s0 where "s0 = fold (\<lambda>i s. if ATH_TXQ_SETUP s i then ath_tx_stopdma i s else s) [0..<HAL_NUM_TX_QUEUES]
    (emit (Hal_stopTxDma (ucast (sc_bhalq s))) ((ath_tx_status_clear s)\<lparr>sc_tx_draining := True\<rparr>))"
  from assms obtain s1 where s1: "foldM (\<lambda>s i. if ATH_TXQ_SETUP s i then do {
              s \<leftarrow> owltgt_tx_processq (owl_part env) i OWL_TXQ_STOPPED s;
              Some (drain_tids i (axq_tidq (sc_txq s i)) s) }
            else Some s) s0 [0..<HAL_NUM_TX_QUEUES] = Some s1" "s' = s1\<lparr>sc_tx_draining := False\<rparr>"
    by (auto simp: ath_draintxq_def s0_def bind_eq_Some_conv Let_def ath_tx_status_clear_def)
  have "rest s0 = rest s"
    unfolding s0_def by (subst rest_fold) (simp_all add: ath_tx_stopdma_def rest_simps keep_simps rest_owl)
  moreover have "rest s1 = rest s0"
    by (rule foldM_rest [OF _ s1(1)])
      (auto simp: bind_eq_Some_conv kept_drain_tids [THEN rest_of_kept] split: if_split_asm dest: rest_owl_run)
  ultimately show ?thesis by (simp add: s1(2) rest_owl)
qed

lemma cabhandler_rest [rest]: "tgt_HTCRecv_cabhandler env ep dh k s = Some s' \<Longrightarrow> rest s' = rest s"
  by (auto simp: tgt_HTCRecv_cabhandler_def Let_def rest_simps keep_simps split: prod.split_asm if_split_asm
      dest!: rest rest_owl_run)

lemma rest_bump [rest_simps]: "rest (bump_int c f s) = rest s"
  by (simp add: bump_int_def rest_simps)

lemma intr_swba_rest [rest]: "intr_swba env s = Some s' \<Longrightarrow> rest s' = rest s"
  by (auto simp: intr_swba_def Let_def rest_simps split: prod.split_asm dest!: rest)

lemma intr_rx_rest [rest]: "intr_rx env st s = Some s' \<Longrightarrow> rest s' = rest s"
  by (auto simp: intr_rx_def bind_eq_Some_conv Let_def rest_simps rest_owl dest!: rest)

lemma intr_causes_rest [rest]: "intr_causes env st s = Some s' \<Longrightarrow> rest s' = rest s"
  by (auto simp: intr_causes_def bind_eq_Some_conv Let_def rest_simps split: if_split_asm dest!: rest)

lemma intr_rest [rest]: "ath_intr env s = Some (b, s') \<Longrightarrow> rest s' = rest s"
  by (auto simp: ath_intr_def bind_eq_Some_conv Let_def rest_simps split: if_split_asm dest!: rest)

section \<open>Commands\<close>

definition answered :: "u16 \<Rightarrow> u16 \<Rightarrow> 'a softc_scheme \<Rightarrow> 'a softc_scheme \<Rightarrow> bool" where
  "answered c n s s' \<longleftrightarrow> rest s' = (fst (rest s) @ [(c, n)], snd (rest s))"

named_theorems answers \<open>commands that reply once and keep the descriptors\<close>

lemma wmi_cmd_rsp_Some:
  "wmi_cmd_rsp env c n xs s = Some s' \<longleftrightarrow> reply_buf env (acts s) \<and> s' = drv (Wmi_Reply c n xs) s"
  by (auto simp: wmi_cmd_rsp_def require_def split: if_splits)

lemma rest_reply: "rest (drv (Wmi_Reply c n xs) s) = (fst (rest s) @ [(c, n)], snd (rest s))"
  by (simp add: drv_def emit_def rest_def rxq_def stable_def replies_single reply_of_def)

lemma answered_reply: "rest s1 = rest s \<Longrightarrow> answered c n s (drv (Wmi_Reply c n xs) s1)"
  by (simp add: answered_def rest_reply)

lemma rest_write [rest_simps]: "rest (write_mac a v s) = rest s" "rest (write_soc a v s) = rest s"
  by (simp_all add: write_mac_def write_soc_def rest_simps)

lemma answers_simple [answers]:
  "ath_enable_intr_tgt env c n d l s = Some s' \<Longrightarrow> answered c n s s'"
  "ath_disable_intr_tgt env c n d l s = Some s' \<Longrightarrow> answered c n s s'"
  "ath_init_tgt env c n d l s = Some s' \<Longrightarrow> answered c n s s'"
  "ath_int_stats_tgt env c n d l s = Some s' \<Longrightarrow> answered c n s s'"
  "ath_tx_stats_tgt env c n d l s = Some s' \<Longrightarrow> answered c n s s'"
  "ath_rx_stats_tgt env c n d l s = Some s' \<Longrightarrow> answered c n s s'"
  "ath_get_tgt_version env c n d l s = Some s' \<Longrightarrow> answered c n s s'"
  "ath_ic_update_tgt env c n d l s = Some s' \<Longrightarrow> answered c n s s'"
  "ath_aborttx_dma_tgt env c n d l s = Some s' \<Longrightarrow> answered c n s s'"
  "ath_stoprecv_tgt env c n d l s = Some s' \<Longrightarrow> answered c n s s'"
  by (auto simp: ath_enable_intr_tgt_def ath_disable_intr_tgt_def ath_init_tgt_def ath_int_stats_tgt_def
      ath_tx_stats_tgt_def ath_rx_stats_tgt_def ath_get_tgt_version_def ath_ic_update_tgt_def ath_aborttx_dma_tgt_def
      ath_stoprecv_tgt_def Let_def rest_simps rest_owl wmi_cmd_rsp_Some intro!: answered_reply)

lemma enable_aggr_answers [answers]: "ath_enable_aggr_tgt env c n d l s = Some s' \<Longrightarrow> answered c n s s'"
  by (auto simp: ath_enable_aggr_tgt_def bind_eq_Some_conv Let_def rest_owl wmi_cmd_rsp_Some split: if_split_asm intro!: answered_reply dest!: rest_owl_run)

lemma node_answers [answers]:
  "ath_vap_create_tgt env c n d l s = Some s' \<Longrightarrow> answered c n s s'"
  "ath_node_create_tgt env c n d l s = Some s' \<Longrightarrow> answered c n s s'"
  "ath_node_cleanup_tgt env c n d l s = Some s' \<Longrightarrow> answered c n s s'"
  "ath_node_update_tgt env c n d l s = Some s' \<Longrightarrow> answered c n s s'"
  "ath_vap_delete_tgt env c n d l s = Some s' \<Longrightarrow> answered c n s s'"
  by (auto simp: ath_vap_create_tgt_def ath_node_create_tgt_def ath_node_cleanup_tgt_def ath_node_update_tgt_def
      ath_vap_delete_tgt_def ath_node_vdelete_tgt_def copy_node_def reset_node_def bind_eq_Some_conv Let_def
      rest_simps rest_owl wmi_cmd_rsp_Some intro!: answered_reply)

lemma reg_read_filter_rest [rest]: "ath_reg_read_filter env a s = (v, s') \<Longrightarrow> rest s' = rest s"
  by (auto simp: ath_reg_read_filter_def Let_def split: if_split_asm prod.split_asm dest!: rest)

lemma reg_read_loop_rest [rest]: "reg_read_loop env d i k xs s = Some (ys, s') \<Longrightarrow> rest s' = rest s"
  by (induction env d i k xs s rule: reg_read_loop.induct)
    (auto simp: bind_eq_Some_conv split: prod.split_asm dest!: rest)

lemma pll_reset_rest [rest_simps]: "rest (ath_pll_reset_ones env s) = rest s"
  by (auto simp: ath_pll_reset_ones_def Let_def rest_simps split: prod.split dest!: rest)

lemma write_filter_rest [rest_simps]: "rest (ath_hal_reg_write_filter env r v s) = rest s"
  by (simp add: ath_hal_reg_write_filter_def Let_def rest_simps)

lemma reg_rmw_rest [rest_simps]: "rest (reg_rmw env r x y s) = rest s"
  by (auto simp: reg_rmw_def Let_def rest_simps split: prod.split dest!: rest)

lemma reg_answers [answers]:
  "ath_hal_reg_read_tgt env c n d l s = Some s' \<Longrightarrow> answered c n s s'"
  "ath_hal_reg_write_tgt env c n d l s = Some s' \<Longrightarrow> answered c n s s'"
  "ath_hal_reg_rmw_tgt env c n d l s = Some s' \<Longrightarrow> answered c n s s'"
  by (auto simp: ath_hal_reg_read_tgt_def ath_hal_reg_write_tgt_def ath_hal_reg_rmw_tgt_def bind_eq_Some_conv
      rest_simps wmi_cmd_rsp_Some intro!: answered_reply dest!: rest)

lemma queue_answers [answers]:
  "ath_tx_draintxq_tgt env c n d l s = Some s' \<Longrightarrow> answered c n s s'"
  "ath_draintxq_tgt env c n d l s = Some s' \<Longrightarrow> answered c n s s'"
  "ath_stop_tx_dma_tgt env c n d l s = Some s' \<Longrightarrow> answered c n s s'"
  "ath_startrecv_tgt env c n d l s = Some s' \<Longrightarrow> answered c n s s'"
  by (auto simp: ath_tx_draintxq_tgt_def ath_draintxq_tgt_def ath_stop_tx_dma_tgt_def ath_startrecv_tgt_def
      bind_eq_Some_conv Let_def rest_simps keep_simps wmi_cmd_rsp_Some split: if_split_asm intro!: answered_reply dest!: rest)

lemma aborttxq_answers [answers]: "ath_aborttxq_tgt env c n d l s = Some s' \<Longrightarrow> answered c n s s'"
  by (auto simp: ath_aborttxq_tgt_def bind_eq_Some_conv wmi_cmd_rsp_Some intro!: answered_reply
      dest!: foldM_rest [rotated] split: if_split_asm dest: draintxq_rest)

lemma flush_loop_rest [rest]: "flush_loop bs s = Some s' \<Longrightarrow> rest s' = rest s"
  by (induction bs s rule: flush_loop.induct) (auto simp: bind_eq_Some_conv rest_simps split: if_split_asm)

lemma flushrecv_answers [answers]: "ath_flushrecv_tgt env c n d l s = Some s' \<Longrightarrow> answered c n s s'"
  by (auto simp: ath_flushrecv_tgt_def bind_eq_Some_conv wmi_cmd_rsp_Some intro!: answered_reply dest!: rest)

lemma setcurmode_answers [answers]: "ath_setcurmode_tgt env c n d l s = Some s' \<Longrightarrow> answered c n s s'"
  by (auto simp: ath_setcurmode_tgt_def ath_setcurmode_def bind_eq_Some_conv Let_def rest_simps rest_owl
      wmi_cmd_rsp_Some intro!: answered_reply)

lemma rc_answers [answers]:
  "handle_rc_state_change_cmd env c n d l s = Some s' \<Longrightarrow> answered c n s s'"
  "handle_rc_rate_update_cmd env c n d l s = Some s' \<Longrightarrow> answered c n s s'"
  "ath_rc_mask_tgt env c n d l s = Some s' \<Longrightarrow> answered c n s s'"
  by (auto simp: handle_rc_state_change_cmd_def handle_rc_rate_update_cmd_def ath_rc_mask_tgt_def bind_eq_Some_conv
      Let_def rest_simps rest_owl wmi_cmd_rsp_Some intro!: answered_reply split: option.split)

lemma fold_free_rest: "rest (fold (\<lambda>k. drv (Rx_Pool_Free k)) ks s) = rest s"
  by (simp add: rest_simps)

lemma cleanup_txbuf_rest [rest_simps]: "rest (cleanup_txbuf b s) = rest s"
  by (simp add: cleanup_txbuf_def Let_def rest_simps keep_simps rest_owl fold_free_rest split: option.split)

lemma cleanup_rxbuf_rest [rest]: "cleanup_rxbuf b s = Some s' \<Longrightarrow> rest s' = rest s"
  by (auto simp: cleanup_rxbuf_def bind_eq_Some_conv rest_simps split: if_split_asm)

lemma desc_free_rest:
  assumes "ath_desc_free s = Some s'"
  shows "rest s' = (replies (acts s), {#}, stable s)"
proof -
  define s0 where "s0 = (fold cleanup_txbuf (sc_txbuf s @ [sc_txbuf_held s]) s)\<lparr>sc_txbuf := []\<rparr>"
  from assms obtain s1 where s1: "foldM (\<lambda>s b. cleanup_rxbuf b s) s0 (sc_rxbuf s0) = Some s1" "s' = s1\<lparr>sc_rxbuf := []\<rparr>"
    by (auto simp: ath_desc_free_def s0_def bind_eq_Some_conv)
  have "rest s1 = rest s0" by (rule foldM_rest [OF _ s1(1)]) (auto dest: rest)
  also have "rest s0 = rest s" by (simp add: s0_def rest_owl rest_simps)
  finally show ?thesis by (simp add: s1(2) rest_def rxq_def stable_def)
qed

lemma detach_rest: "ath_detach_tgt env c n d l s = Some s' \<Longrightarrow> rest s' = (replies (acts s) @ [(c, n)], {#}, stable s)"
  by (auto simp: ath_detach_tgt_def bind_eq_Some_conv wmi_cmd_rsp_Some rest_reply rest_simps dest!: desc_free_rest)

definition known :: "u16 \<Rightarrow> bool" where
  "known c \<longleftrightarrow> 1 \<le> unat c \<and> unat c \<le> 32"

lemma known_cases:
  assumes "known c"
  shows "c \<in> {1, 2, 3, 4, 5, 6, 7, 8, 9, 10, 11, 12, 13, 14, 15, 16, 17, 18, 19, 20, 21, 22, 23, 24, 25, 26, 27, 28,
    29, 30, 31, 32}"
proof -
  have "unat c \<in> set [1..<33]" using assms by (simp add: known_def)
  moreover have "c = of_nat (unat c)" by simp
  ultimately have "c \<in> set (map of_nat [1..<33])" by (metis image_eqI list.set_map)
  then show ?thesis by (simp add: upt_rec)
qed

lemma not_found_unknown:
  "find (\<lambda>(h, i). i = c) (Magpie_Sys_DispatchEntries env) = None \<Longrightarrow> \<not> known c"
  by (auto simp: Magpie_Sys_DispatchEntries_def split: if_split_asm dest: known_cases)

lemma run_command_rest:
  assumes "run_command env c n d l s = Some s'"
  shows "rest s' = (replies (acts s) @ (if known c then [(c, n)] else []), if c = 0x1a then {#} else rxq s, stable s)"
proof (cases "find (\<lambda>(h, i). i = c) (Magpie_Sys_DispatchEntries env :: ('a command \<times> u16) list)")
  case None
  then show ?thesis
    using assms not_found_unknown [OF None] by (auto simp: run_command_def rest_def known_def)
next
  case (Some r)
  then obtain h i where r: "r = (h, i)" by (cases r)
  have "(h, c) \<in> set (Magpie_Sys_DispatchEntries env)"
    using Some r by (auto simp: find_Some_iff in_set_conv_nth)
  moreover have "h c n d l s = Some s'" using assms Some r by (simp add: run_command_def)
  ultimately have i: "(h, c) \<in> set (Magpie_Sys_DispatchEntries env)" "h c n d l s = Some s'" by blast+
  have "answered c n s s' \<and> known c \<and> c \<noteq> 0x1a \<or> ath_detach_tgt env c n d l s = Some s' \<and> c = 0x1a"
    using i unfolding Magpie_Sys_DispatchEntries_def
    by (auto simp: known_def handle_echo_command_def dispatch_magpie_sys_cmds_def dest: answers)
  then show ?thesis
    using detach_rest [of env c n d l s s'] by (auto simp: answered_def rest_def known_def)
qed

section \<open>Every run\<close>

definition answers_of :: "ath_event \<Rightarrow> (u16 \<times> u16) list" where
  "answers_of e = (case e of Ev_Command c n _ _ \<Rightarrow> if known c then [(c, n)] else [] | _ \<Rightarrow> [])"

definition detaches :: "ath_event \<Rightarrow> bool" where
  "detaches e = (case e of Ev_Command c _ _ _ \<Rightarrow> c = 0x1a | _ \<Rightarrow> False)"

lemma tasklet_rest: "kept s' = kept s \<Longrightarrow> rest s' = rest (s :: 'a softc_scheme)"
  by (rule rest_of_kept)

lemma handle_rest:
  assumes "handle env e s = Some s'"
  shows "rest s' = (replies (acts s) @ answers_of e, if detaches e then {#} else rxq s, stable s)"
proof (cases e)
  case (Ev_Command c n d l)
  then show ?thesis using run_command_rest [of env c n d l s s'] assms by (simp add: answers_of_def detaches_def)
next
  case (Ev_Tasklet q)
  then have "rest s' = rest s"
    using assms by (cases q) (auto simp: ath_bmiss_tasklet_def ath_fatal_tasklet_def rest_simps dest: rest rest_owl_run)
  then show ?thesis by (simp add: Ev_Tasklet answers_of_def detaches_def rest_def)
next
  case Ev_Interrupt
  then have "rest s' = rest s" using assms by (auto dest: rest)
  then show ?thesis by (simp add: Ev_Interrupt answers_of_def detaches_def rest_def)
qed (use assms in \<open>auto simp: answers_of_def detaches_def rest_simps dest!: rest rest_owl_run simp flip: rest_def\<close>)

lemma ath_run_rest:
  "ath_run env s es s' \<Longrightarrow>
   rest s' = (replies (acts s) @ concat (map answers_of es), if list_ex detaches es then {#} else rxq s, stable s)"
proof (induction rule: ath_run.induct)
  case start
  then show ?case by (simp add: rest_def)
next
  case (event es s1 e s2)
  then show ?case using handle_rest [OF event.hyps(2)] by (auto simp: rest_def)
next
  case (other es s1 m)
  then show ?case by (simp add: rest_simps)
qed

end
