(* ===== verification/Ath_Props.thy ===== *)
theory Ath_Props
  imports Ath_Driver Owl_Aggr
begin

text \<open>
  Properties of the driver: the time stamp of a received frame, the delivery of received frames, the replies
  to commands and the conservation of receive descriptors in every run, and two commands that cannot be
  carried out.
\<close>

section \<open>The time stamp\<close>

lemma ucast_diff: "(ucast (x - y :: u64) :: u32) = ucast x - ucast y"
proof transfer
  fix x y :: int
  have "take_bit 32 (take_bit 64 (x - y)) = take_bit 32 (take_bit 32 x - take_bit 32 y)" by (simp add: take_bit_diff)
  moreover have "take_bit 32 (take_bit 64 x - take_bit 64 y) = take_bit 32 (take_bit 32 (take_bit 64 x) - take_bit 32 (take_bit 64 y))"
    by (simp only: take_bit_diff)
  ultimately show "take_bit LENGTH(32) (take_bit LENGTH(64) (x - y)) =
     take_bit LENGTH(32) (take_bit LENGTH(64) x - take_bit LENGTH(64) y)"
    by simp
qed

lemma scast_ucast_small:
  assumes "- (2 ^ 31) \<le> sint x" "sint x < 2 ^ 31"
  shows "scast (ucast x :: u32) = (x :: u64)"
  using assms
  apply transfer
  subgoal premises a for x
  proof -
    have "signed_take_bit 31 (take_bit 64 x) = signed_take_bit 31 (take_bit 32 (take_bit 64 x))"
      by (simp add: signed_take_bit_take_bit)
    also have "\<dots> = signed_take_bit 31 x" by (simp add: signed_take_bit_take_bit)
    also have "\<dots> = signed_take_bit 31 (signed_take_bit 63 x)" by simp
    also have "\<dots> = signed_take_bit 63 x" using a by (intro signed_take_bit_int_eq_self) simp_all
    finally have "take_bit 64 (signed_take_bit 31 (take_bit 64 x)) = take_bit 64 x"
      by (simp add: take_bit_signed_take_bit)
    then show ?thesis by (simp add: signed_take_bit_take_bit)
  qed
  done

lemma extend_tsf_exact:
  assumes "- (2 ^ 31) \<le> sint (t - now)" "sint (t - now) < 2 ^ 31"
  shows "extend_tsf now (ucast t) = t"
  using scast_ucast_small [OF assms] by (simp add: extend_tsf_def flip: ucast_diff)

text \<open>
  Property C28. The hardware stamps a frame with the low 32 bits of the clock. Whatever the clock says when
  the stamp is extended, up to 2^31 microseconds before or after the time \<open>t\<close> of the frame and on either side
  of a carry into the high word, the result is \<open>t\<close>; the clock is read once.
\<close>

theorem ath_extend_tsf_recovers_time:
  assumes "- (2 ^ 31) \<le> sint (t - getTsf64 env (acts s))" "sint (t - getTsf64 env (acts s)) < 2 ^ 31"
  shows "ath_extend_tsf env (ucast t) s = (t, drv Hal_getTsf64 s)"
  by (simp add: ath_extend_tsf_def read_tsf_def extend_tsf_exact [OF assms])

section \<open>Delivery of received frames\<close>

text \<open>A frame whose header can be extended: it has a buffer with a descriptor.\<close>

definition frame_ok :: "fw_mem \<Rightarrow> addr \<Rightarrow> bool" where
  "frame_ok m k \<longleftrightarrow> (case rd_vbuf m k of None \<Rightarrow> False | Some v \<Rightarrow> rd_vdesc m (desc_list v) \<noteq> None)"

lemma vbufs_write_bytes: "vbufs (write_bytes a xs m) = vbufs m" "vdescs (write_bytes a xs m) = vdescs m"
  by (induction xs arbitrary: a m) (simp_all add: wr8_def)

lemma frame_ok_write: "frame_ok (write_bytes a xs m) k = frame_ok m k"
  by (simp add: frame_ok_def rd_vbuf_def rd_vdesc_def vbufs_write_bytes split: option.split)

lemma push_head_frame:
  assumes "frame_ok m k"
  obtains a m' where "adf_nbuf_push_head k n m = Some (a, m')" "\<And>j. frame_ok m j \<Longrightarrow> frame_ok m' j"
proof -
  from assms obtain v d where v: "k \<noteq> NULL" "vbufs m k = Some v" "desc_list v \<noteq> NULL" "vdescs m (desc_list v) = Some d"
    by (auto simp: frame_ok_def rd_vbuf_def rd_vdesc_def split: option.split_asm if_split_asm)
  define d' where "d' = d\<lparr>data_offset := data_offset d - ucast n, data_size := data_size d + ucast n\<rparr>"
  define m' where "m' = m\<lparr>vdescs := (vdescs m)(desc_list v \<mapsto> d'), vbufs := (vbufs m)(k \<mapsto> v\<lparr>buf_length := buf_length v + ucast n\<rparr>)\<rparr>"
  have "adf_nbuf_push_head k n m = Some (buf_addr d' + ucast (data_offset d'), m')"
    using v by (simp add: adf_nbuf_push_head_def rd_vbuf_def rd_vdesc_def upd_vdesc_def upd_vbuf_def d'_def m'_def)
  moreover have "frame_ok m' j" if "frame_ok m j" for j
    using that v by (auto simp: frame_ok_def rd_vbuf_def rd_vdesc_def m'_def split: option.split_asm if_split_asm option.split)
  ultimately show ?thesis by (rule that)
qed

definition sends :: "'a softc_scheme \<Rightarrow> nat list \<Rightarrow> owl_act list" where
  "sends s bs = concat (map (\<lambda>b. [Drv Hal_getTsf64, Drv (Htc_Send RX_ENDPOINT_ID (unat (rxb_skb (rxbufs s b))))]) bs)"

lemma rx_deliver_step:
  assumes "sc_rxbuf s = b # bs" "frame_ok (sc_mem s) (rxb_skb (rxbufs s b))"
  obtains s1 where "rx_deliver env b s = Some s1" "sc_rxbuf s1 = bs @ [b]" "acts s1 = acts s @ sends s [b]"
    "rxbufs s1 = (rxbufs s)(b := rxbufs s b\<lparr>rxb_done := False, rxb_skb := NULL\<rparr>)"
    "\<And>k. frame_ok (sc_mem s) k \<Longrightarrow> frame_ok (sc_mem s1) k" "sc_imask s1 = sc_imask s"
proof -
  obtain a m' where p: "adf_nbuf_push_head (rxb_skb (rxbufs s b)) 40 (sc_mem s) = Some (a, m')"
      "\<And>j. frame_ok (sc_mem s) j \<Longrightarrow> frame_ok m' j"
    using push_head_frame [OF assms(2)] by blast
  have "\<exists>s1. rx_deliver env b s = Some s1"
    using p(1) by (simp add: rx_deliver_def ath_extend_tsf_def read_tsf_def upd_rxbuf_def Let_def)
  then obtain s1 where s1: "rx_deliver env b s = Some s1" ..
  show ?thesis
    by (rule that [OF s1]; insert s1 assms(1) p)
      (auto simp: rx_deliver_def ath_extend_tsf_def read_tsf_def drv_def emit_def upd_rxbuf_def Let_def sends_def
        frame_ok_write)
qed

lemma rx_tasklet_loop_delivers:
  assumes "sc_rxbuf s = bs @ cs" "distinct (bs @ cs)"
    and "\<forall>b\<in>set bs. rxb_done (rxbufs s b) \<and> frame_ok (sc_mem s) (rxb_skb (rxbufs s b))"
    and "cs = [] \<or> \<not> rxb_done (rxbufs s (hd cs))"
  shows "\<exists>s'. rx_tasklet_loop env s = Some s' \<and> acts s' = acts s @ sends s bs \<and> sc_rxbuf s' = cs @ bs \<and>
     sc_imask s' = sc_imask s \<and>
     rxbufs s' = (\<lambda>b. if b \<in> set bs then rxbufs s b\<lparr>rxb_done := False, rxb_skb := NULL\<rparr> else rxbufs s b)"
  using assms
proof (induction bs arbitrary: s cs)
  case Nil
  then show ?case by (subst rx_tasklet_loop.simps) (auto simp: sends_def split: list.split)
next
  case (Cons b bs)
  from Cons.prems have b: "sc_rxbuf s = b # (bs @ cs)" "frame_ok (sc_mem s) (rxb_skb (rxbufs s b))" "rxb_done (rxbufs s b)"
    by simp_all
  obtain s1 where s1: "rx_deliver env b s = Some s1" "sc_rxbuf s1 = (bs @ cs) @ [b]" "acts s1 = acts s @ sends s [b]"
    "rxbufs s1 = (rxbufs s)(b := rxbufs s b\<lparr>rxb_done := False, rxb_skb := NULL\<rparr>)"
    "\<And>k. frame_ok (sc_mem s) k \<Longrightarrow> frame_ok (sc_mem s1) k" "sc_imask s1 = sc_imask s"
    using rx_deliver_step [OF b(1,2)] by blast
  have other: "rxbufs s1 x = rxbufs s x" if "x \<noteq> b" for x using that by (simp add: s1(4))
  have "\<exists>s'. rx_tasklet_loop env s1 = Some s' \<and> acts s' = acts s1 @ sends s1 bs \<and> sc_rxbuf s' = (cs @ [b]) @ bs \<and>
     sc_imask s' = sc_imask s1 \<and>
     rxbufs s' = (\<lambda>x. if x \<in> set bs then rxbufs s1 x\<lparr>rxb_done := False, rxb_skb := NULL\<rparr> else rxbufs s1 x)"
  proof (rule Cons.IH)
    show "sc_rxbuf s1 = bs @ cs @ [b]" by (simp add: s1(2))
    show "distinct (bs @ cs @ [b])" using Cons.prems(2) by auto
    show "\<forall>x\<in>set bs. rxb_done (rxbufs s1 x) \<and> frame_ok (sc_mem s1) (rxb_skb (rxbufs s1 x))"
      using Cons.prems(2,3) s1(5) by (auto simp: s1(4))
    show "cs @ [b] = [] \<or> \<not> rxb_done (rxbufs s1 (hd (cs @ [b])))"
      using Cons.prems(2,4) by (cases cs) (auto simp: s1(4))
  qed
  moreover have "sends s1 bs = sends s bs"
    unfolding sends_def using Cons.prems(2) by (intro arg_cong [where f = concat] map_cong) (auto simp: s1(4))
  moreover have "rxb_skb (rxbufs s b) \<noteq> NULL" using b(2) by (auto simp: frame_ok_def rd_vbuf_def)
  moreover have "rx_tasklet_loop env s = rx_tasklet_loop env s1" if "rxb_skb (rxbufs s b) \<noteq> NULL"
    by (subst rx_tasklet_loop.simps) (simp add: b that s1(1))
  ultimately show ?case
    using Cons.prems(2) by (auto simp: s1(3,4,6) sends_def fun_eq_iff)
qed

text \<open>
  Property C27. The receive tasklet ends and delivers exactly the finished frames at the head of the list
  of receive buffers, each once, in order, with the clock read for each; the buffers go to the end of the list,
  empty and free for the next frames; nothing else changes in the buffers; receive interrupts are on again.
\<close>

theorem ath_tgt_rx_tasklet_delivers:
  assumes "sc_rxbuf s = bs @ cs" "distinct (bs @ cs)"
    and "list_all (\<lambda>b. rxb_done (rxbufs s b) \<and> frame_ok (sc_mem s) (rxb_skb (rxbufs s b))) bs"
    and "cs = [] \<or> \<not> rxb_done (rxbufs s (hd cs))"
  shows "\<exists>s'. ath_tgt_rx_tasklet env s = Some s' \<and>
     acts s' = acts s @ sends s bs @ [Hal_setInterrupts (sc_imask s OR 1)] \<and> sc_rxbuf s' = cs @ bs \<and>
     rxbufs s' = (\<lambda>b. if b \<in> set bs then rxbufs s b\<lparr>rxb_done := False, rxb_skb := NULL\<rparr> else rxbufs s b) \<and>
     bit (sc_imask s') 0"
proof -
  from assms(3) have "\<forall>b\<in>set bs. rxb_done (rxbufs s b) \<and> frame_ok (sc_mem s) (rxb_skb (rxbufs s b))"
    by (simp add: list_all_iff)
  then obtain s' where "rx_tasklet_loop env s = Some s'" "acts s' = acts s @ sends s bs" "sc_rxbuf s' = cs @ bs"
     "sc_imask s' = sc_imask s"
     "rxbufs s' = (\<lambda>b. if b \<in> set bs then rxbufs s b\<lparr>rxb_done := False, rxb_skb := NULL\<rparr> else rxbufs s b)"
    using rx_tasklet_loop_delivers [OF assms(1,2) _ assms(4)] by blast
  then show ?thesis by (simp add: ath_tgt_rx_tasklet_def setInterrupts_def emit_def Let_def bit_or_iff)
qed

section \<open>Every run\<close>

text \<open>
  Property C25. Whatever the driver handles, and in whatever order, the replies it sends are exactly the
  answers to the commands it has been given: one reply for each known command, in the order of the commands, with
  the number and the sequence number of its command. Interrupts, tasklets and frames send none. A run has a result:
  a command whose reply finds no buffer is an assertion failure, and the echo has no defined result.
\<close>

theorem ath_run_answers_commands:
  "ath_run env s es s' \<Longrightarrow> replies (acts s') = replies (acts s) @ concat (map answers_of es)"
  by (drule ath_run_rest) (simp add: rest_def)

text \<open>
  Property C26. No run loses or duplicates a receive descriptor: each stays in the ring or on the idle list.
  The receive buffers stay in their list until the driver is detached.
\<close>

theorem ath_run_conserves_descriptors:
  assumes "ath_run env s es s'"
  shows "mset (sc_rxdesc s' @ sc_rxdesc_idle s') = mset (sc_rxdesc s @ sc_rxdesc_idle s) \<and>
     mset (sc_rxbuf s') = (if list_ex detaches es then {#} else mset (sc_rxbuf s))"
  using ath_run_rest [OF assms] by (simp add: rest_def rxq_def stable_def)

text \<open>
  No run gives an interface the node of its cell, \<^verbatim>\<open>iv_bss\<close>. So the command that changes the
  state of the rate control of an interface, which starts with that node, never has a defined result.
\<close>

theorem rc_state_change_never_defined:
  assumes "ath_run env s es s'" "iv_bss (sc_vapx s (unat (d 0))) = None"
  shows "run_command env 0x0016 n d l s' = None"
proof -
  have "iv_bss \<circ> sc_vapx s' = iv_bss \<circ> sc_vapx s"
    using ath_run_rest [OF assms(1)] by (simp add: rest_def stable_def)
  then have "iv_bss (sc_vapx s' (unat (d 0))) = None" using assms(2) by (metis comp_apply)
  then show ?thesis
    by (simp add: run_command_def Magpie_Sys_DispatchEntries_def handle_rc_state_change_cmd_def Let_def split: Option.bind_split)
qed

section \<open>Flushing\<close>

lemma free_null: "at (bufQ m) i \<noteq> Some NULL \<Longrightarrow> buf_pool_static_free_buf i NULL m = None"
  by (cases "at (bufQ m) i") (simp_all add: buf_pool_static_free_buf_def pool_put_def upd_vbuf_def rd_vbuf_def)

lemma flush_loop_null:
  "b \<in> set bs \<Longrightarrow> rxb_skb (rxbufs s b) \<noteq> NULL \<Longrightarrow> \<forall>b\<in>set bs. rxb_skbhead (rxbufs s b) = adf_nbuf_queue_init \<Longrightarrow>
   at (bufQ (sc_mem s)) POOL_ID_WLAN_RX_BUF \<noteq> Some NULL \<Longrightarrow> flush_loop bs s = None"
  by (induction bs s rule: flush_loop.induct)
    (auto simp: adf_nbuf_queue_init_def adf_nbuf_queue_remove_def free_null)

text \<open>
  The queues of the receive buffers are empty from the attachment on. Then the command to flush the
  receive path, given while a received frame waits for its delivery and the pool has a free buffer, puts a
  NULL buffer into the pool instead of that frame: it has no defined result.
\<close>

theorem flushrecv_releases_null:
  assumes "b \<in> set (sc_rxbuf s)" "rxb_skb (rxbufs s b) \<noteq> NULL"
    and "list_all (\<lambda>b. rxb_skbhead (rxbufs s b) = adf_nbuf_queue_init) (sc_rxbuf s)"
    and "at (bufQ (sc_mem s)) POOL_ID_WLAN_RX_BUF \<noteq> Some NULL"
  shows "run_command env 0x000e n d l s = None"
proof -
  have "flush_loop (sc_rxbuf s) s = None"
    by (rule flush_loop_null [OF assms(1,2) _ assms(4)]) (use assms(3) in \<open>simp add: list_all_iff\<close>)
  then show ?thesis by (simp add: run_command_def Magpie_Sys_DispatchEntries_def ath_flushrecv_tgt_def)
qed

section \<open>A sample driver\<close>

text \<open>
  Two receive buffers: the first has a finished frame. Three descriptors, two with a network buffer. The hardware
  has no interrupt pending and its clock shows 18 * 2^32 + 4.
\<close>

definition rxs0 :: ath_rx_status where
  "rxs0 = \<lparr>rs_tstamp = 0xfffffffe, rs_datalen = 60, rs_status = 0, rs_phyerr = 0, rs_rssi_combined = 40, rs_rssi_ctl = [1, 2, 3],
     rs_rssi_ext = [4, 5, 6], rs_keyix = 0, rs_rate = 0x0b, rs_antenna = 0, rs_more = 0, rs_isaggr = 0, rs_moreaggr = 0,
     rs_num_delims = 0, rs_flags = 0, rs_dummy = 0, evm0 = 0, evm1 = 0, evm2 = 0\<rparr>"

definition aenv0 :: ath_env where
  "aenv0 = owl_env.extend Owl_Aggr.env0 \<lparr>isPending = (\<lambda>_. False), getPending = (\<lambda>_. 0), getTsf64 = (\<lambda>_. 0x1200000004),
     numTxPending = (\<lambda>_. 0), procRxDesc = (\<lambda>_. (HAL_EINPROGRESS, rxs0)), mac_reg = (\<lambda>_ _. 0), soc_reg = (\<lambda>_ _. 0),
     getRateTable = (\<lambda>_. None), reply_buf = (\<lambda>_. True)\<rparr>"

definition softc0 :: softc where
  "softc0 = owl.extend owl0 \<lparr>sc_mem = mem0\<lparr>vbufs := [0x1000 \<mapsto> vbuf0\<lparr>desc_list := 0x2000\<rparr>, 0x1020 \<mapsto> vbuf0\<lparr>desc_list := 0x2024\<rparr>],
       vdescs := [0x2000 \<mapsto> vdesc0, 0x2024 \<mapsto> vdesc0\<lparr>buf_addr := 0x5000\<rparr>],
       bufQ := replicate 10 0x1020\<rparr>,
     sc_rxbuf = [0, 1], rxbufs = (\<lambda>b. \<lparr>rxb_done = (b = 0), rxb_skb = (if b = 0 then 0x1000 else NULL),
       rxb_skbhead = adf_nbuf_queue_init, bf_rx_status = rxs0\<rparr>),
     sc_rxdesc = [0, 1, 2], sc_rxdesc_idle = [3], rxdescs = (\<lambda>d. \<lparr>ds_nbuf = 0x1020, rxd_link = None, ds_data = 0\<rparr>),
     sc_rxdesc_held = None, sc_rxlink = None, sc_rxbufsize = 0, sc_cachelsz = 64,
     sc_int_stats = \<lparr>ast_rx = 0, ast_rxorn = 0, ast_rxeol = 0, ast_txurn = 0, ast_txto = 0, ast_cst = 0\<rparr>,
     sc_rx_stats = \<lparr>ast_rx_nobuf = 0, ast_rx_send = 0, ast_rx_done = 0\<rparr>, sc_invalid = False, sc_bhalq = 9, sc_swba_tsf = 0,
     sc_bbuf = [34], sc_uapsdq = 9,
     sc_vapx = (\<lambda>v. \<lparr>iv_vapindex = of_nat v, iv_opmode = 1, iv_myaddr = replicate 6 0, iv_ath_cap = 0, iv_nodeindex = 0,
       iv_bss = None, av_bcbuf = None, av_rate_mask = [0, 0], av_valid = False\<rparr>),
     sc_stax = (\<lambda>n. \<lparr>ni_macaddr = replicate 6 0, ni_bssid = replicate 6 0, ni_is_vapnode = 0, ni_flags = 0, ni_htcap = 0\<rparr>),
     sc_rates = [None, None], sc_rixmap = (\<lambda>_. 0xff), reset_pll = False, clock_set = False,
     headroom = (\<lambda>_. [])\<rparr>"

lemma softc0_fields:
  "sc_rxbuf softc0 = [0, 1]" "sc_rxdesc softc0 = [0, 1, 2]" "sc_rxdesc_idle softc0 = [3]" "acts softc0 = []"
  "rxdescs softc0 = (\<lambda>d. \<lparr>ds_nbuf = 0x1020, rxd_link = None, ds_data = 0\<rparr>)"
  "iv_bss (sc_vapx softc0 v) = None" "sc_imask softc0 = 0"
  by (simp_all add: softc0_def owl.defs owl0_def)

lemma softc0_buffers:
  "adf_nbuf_tailroom (sc_mem softc0) 0x1020 = Some 40" "adf_nbuf_peek_header (sc_mem softc0) 0x1020 \<noteq> None"
  by (simp_all add: softc0_def owl.defs adf_nbuf_tailroom_def adf_nbuf_peek_header_def adf_nbuf_last_def rd_vbuf_def
      rd_vdesc_def desc_last.simps mem0_def vbuf0_def vdesc0_def)

lemma foldM_run: "foldM (\<lambda>s e. handle env e s) s es = Some s' \<Longrightarrow> ath_run env s es s'"
proof (induction es arbitrary: s' rule: rev_induct)
  case Nil
  then show ?case by (simp add: ath_run.start)
next
  case (snoc e es)
  then show ?case by (auto simp: foldM_append bind_eq_Some_conv intro: ath_run.event)
qed

text \<open>An interface is created between a tasklet, a version request and other commands; the second run starts the receive path.\<close>

definition events0 :: "ath_event list" where
  "events0 = [Ev_Command 0x0013 1 (\<lambda>_. 0) 12, Ev_Tasklet sc_bmisstq, Ev_Command 0x0003 2 (\<lambda>_. 0) 0, Ev_Interrupt,
     Ev_Command 0x0004 3 (\<lambda>_. 0) 0, Ev_Command 0x000d 4 (\<lambda>_. 0) 0]"

definition events1 :: "ath_event list" where
  "events1 = [Ev_Command 0x000c 5 (\<lambda>_. 0) 0, Ev_Tasklet sc_bmisstq, Ev_Command 0x0003 6 (\<lambda>_. 0) 0]"

lemma events0_run: "\<exists>s'. ath_run aenv0 softc0 events0 s'"
proof -
  have "\<not> Option.is_none (foldM (\<lambda>s e. handle aenv0 e s) softc0 events0)" by code_simp
  then show ?thesis by (auto simp: Option.is_none_def intro: foldM_run)
qed

lemma events1_run: "\<exists>s'. ath_run aenv0 softc0 events1 s'"
proof -
  obtain b s1 where "ath_startrecv softc0 = Some (b, s1)"
    using softc0_buffers by (fastforce simp: ath_startrecv_def softc0_fields Let_def ath_rxdesc_init_def rxdesc_fill_def
        upd_rxdesc_def drv_def emit_def tailq_first_def)
  moreover have "wmi_cmd_rsp aenv0 c n xs s = Some (drv (Wmi_Reply c n xs) s)" for c n xs and s :: softc
    by (simp add: wmi_cmd_rsp_def require_def aenv0_def owl_env.defs)
  ultimately have "\<exists>s'. foldM (\<lambda>s e. handle aenv0 e s) softc0 events1 = Some s'"
    by (simp add: events1_def run_command_def Magpie_Sys_DispatchEntries_def ath_startrecv_tgt_def ath_get_tgt_version_def)
  then show ?thesis by (auto intro: foldM_run)
qed

theorem ath_extend_tsf_recovers_time_witness:
  "fst (ath_extend_tsf aenv0 0xfffffffe softc0) = 0x11fffffffe"
proof -
  have t: "getTsf64 aenv0 (acts softc0) = 0x1200000004" by (simp add: aenv0_def owl_env.defs)
  have d: "sint ((0x11fffffffe :: u64) - 0x1200000004) = - 6" by code_simp
  have "ath_extend_tsf aenv0 (ucast (0x11fffffffe :: u64)) softc0 = (0x11fffffffe, drv Hal_getTsf64 softc0)"
    by (rule ath_extend_tsf_recovers_time) (unfold t, simp_all only: d, simp_all)
  moreover have "(ucast (0x11fffffffe :: u64) :: u32) = 0xfffffffe" by code_simp
  ultimately show ?thesis by (simp only: fst_conv)
qed

theorem ath_tgt_rx_tasklet_delivers_witness:
  "\<exists>s'. ath_tgt_rx_tasklet aenv0 softc0 = Some s' \<and>
     acts s' = [Drv Hal_getTsf64, Drv (Htc_Send 3 0x1000), Hal_setInterrupts 1] \<and> sc_rxbuf s' = [1, 0] \<and>
     \<not> rxb_done (rxbufs s' 0)"
proof -
  have "list_all (\<lambda>b. rxb_done (rxbufs softc0 b) \<and> frame_ok (sc_mem softc0) (rxb_skb (rxbufs softc0 b))) [0]"
    "\<not> rxb_done (rxbufs softc0 (hd [1]))" "sends softc0 [0] = [Drv Hal_getTsf64, Drv (Htc_Send 3 0x1000)]"
    by code_simp+
  then show ?thesis
    using ath_tgt_rx_tasklet_delivers [of softc0 "[0]" "[1]" aenv0] by (auto simp: softc0_fields)
qed

theorem ath_run_answers_commands_witness:
  "\<exists>s'. ath_run aenv0 softc0 events0 s' \<and> replies (acts s') = [(0x0013, 1), (0x0003, 2), (0x0004, 3), (0x000d, 4)]"
proof -
  obtain s' where s': "ath_run aenv0 softc0 events0 s'" using events0_run ..
  moreover have "concat (map answers_of events0) = [(0x0013, 1), (0x0003, 2), (0x0004, 3), (0x000d, 4)]" by code_simp
  ultimately show ?thesis using ath_run_answers_commands [OF s'] by (auto simp: softc0_fields)
qed

theorem ath_run_conserves_descriptors_witness:
  "\<exists>s'. ath_run aenv0 softc0 events1 s' \<and> mset (sc_rxdesc s' @ sc_rxdesc_idle s') = {#0, 1, 2, 3#} \<and> mset (sc_rxbuf s') = {#0, 1#}"
proof -
  obtain s' where s': "ath_run aenv0 softc0 events1 s'" using events1_run ..
  moreover have "\<not> list_ex detaches events1" by (simp add: events1_def detaches_def)
  ultimately show ?thesis using ath_run_conserves_descriptors [OF s'] by (auto simp: softc0_fields)
qed

theorem rc_state_change_never_defined_witness:
  "\<exists>s'. ath_run aenv0 softc0 events0 s' \<and> run_command aenv0 0x0016 9 (\<lambda>_. 0) 70 s' = None"
  using events0_run rc_state_change_never_defined softc0_fields(6) by blast

theorem flushrecv_releases_null_witness: "run_command aenv0 0x000e 9 (\<lambda>_. 0) 0 softc0 = None"
proof (rule flushrecv_releases_null [of 0])
  show "list_all (\<lambda>b. rxb_skbhead (rxbufs softc0 b) = adf_nbuf_queue_init) (sc_rxbuf softc0)" by code_simp
  show "rxb_skb (rxbufs softc0 0) \<noteq> NULL" by code_simp
  show "at (bufQ (sc_mem softc0)) POOL_ID_WLAN_RX_BUF \<noteq> Some NULL" by code_simp
qed (simp add: softc0_fields)

end
