(* ===== verification/Ath_Attach.thy ===== *)
theory Ath_Attach
  imports Ath_Cmd Wmi
begin

text \<open>
  The start of the driver and its place above HTC and WMI (\<^verbatim>\<open>if_ath.c\<close>): buffers and descriptors, the
  services it registers and the endpoints they are connected to, replies and events on the wire, the attachment.
  Allocations of memory succeed: the firmware asserts that.
\<close>

section \<open>Replies and events on the wire\<close>

text \<open>A reply without a buffer is an assertion failure; an event without one is dropped.\<close>

definition send_reply :: "'b WMI_SVC_CONTEXT_scheme htc_env \<Rightarrow> u16 \<Rightarrow> u16 \<Rightarrow> u8 list \<Rightarrow> 'b wmi_st \<Rightarrow> 'b wmi_st option" where
  "send_reply env cmd_id SeqNo xs s = do {
     (netbuf, s) \<leftarrow> WMI_AllocEvent env WMI_EVT_CLASS_CMD_REPLY s;
     require (netbuf \<noteq> NULL);
     s \<leftarrow> (if xs \<noteq> [] then do {
             (p, m) \<leftarrow> adf_nbuf_put_tail netbuf (of_nat (length xs)) (mem s);
             Some (s\<lparr>mem := write_bytes p xs m\<rparr>) }
           else Some s);
     WMI_SendEvent env netbuf cmd_id SeqNo s }"

definition send_event :: "'b WMI_SVC_CONTEXT_scheme htc_env \<Rightarrow> u16 \<Rightarrow> u8 list \<Rightarrow> 'b wmi_st \<Rightarrow> 'b wmi_st option" where
  "send_event env evt_id xs s = do {
     (netbuf, s) \<leftarrow> WMI_AllocEvent env WMI_EVT_CLASS_CMD_EVENT s;
     if netbuf = NULL then Some s
     else do {
       s \<leftarrow> (if xs \<noteq> [] \<and> length xs < 100 then do {
               (p, m) \<leftarrow> adf_nbuf_put_tail netbuf (of_nat (length xs)) (mem s);
               Some (s\<lparr>mem := write_bytes p xs m\<rparr>) }
             else Some s);
       WMI_SendEvent env netbuf evt_id 0 s } }"

section \<open>Services\<close>

record ath_endpoints = WMI_SVC_CONTEXT +
  wmi_command_ep :: u8
  beacon_ep :: u8
  cab_ep :: u8
  uapsd_ep :: u8
  mgmt_ep :: u8
  data_VO_ep :: u8
  data_VI_ep :: u8
  data_BE_ep :: u8
  data_BK_ep :: u8

type_synonym 'c drv_st = "'c ath_endpoints_scheme htc"

abbreviation (input) WMI_CONTROL_SVC :: u16 where "WMI_CONTROL_SVC \<equiv> 0x0100"
abbreviation (input) WMI_BEACON_SVC :: u16 where "WMI_BEACON_SVC \<equiv> 0x0101"
abbreviation (input) WMI_CAB_SVC :: u16 where "WMI_CAB_SVC \<equiv> 0x0102"
abbreviation (input) WMI_UAPSD_SVC :: u16 where "WMI_UAPSD_SVC \<equiv> 0x0103"
abbreviation (input) WMI_MGMT_SVC :: u16 where "WMI_MGMT_SVC \<equiv> 0x0104"
abbreviation (input) WMI_DATA_VO_SVC :: u16 where "WMI_DATA_VO_SVC \<equiv> 0x0105"
abbreviation (input) WMI_DATA_VI_SVC :: u16 where "WMI_DATA_VI_SVC \<equiv> 0x0106"
abbreviation (input) WMI_DATA_BE_SVC :: u16 where "WMI_DATA_BE_SVC \<equiv> 0x0107"
abbreviation (input) WMI_DATA_BK_SVC :: u16 where "WMI_DATA_BK_SVC \<equiv> 0x0108"

text \<open>The endpoint of a service is remembered; another service is an assertion failure.\<close>

definition set_endpoint :: "u16 \<Rightarrow> u8 \<Rightarrow> 'c ath_endpoints_scheme \<Rightarrow> 'c ath_endpoints_scheme option" where
  "set_endpoint sid eid a =
     (if sid = WMI_CONTROL_SVC then Some (a\<lparr>wmi_command_ep := eid\<rparr>)
      else if sid = WMI_BEACON_SVC then Some (a\<lparr>beacon_ep := eid\<rparr>)
      else if sid = WMI_CAB_SVC then Some (a\<lparr>cab_ep := eid\<rparr>)
      else if sid = WMI_UAPSD_SVC then Some (a\<lparr>uapsd_ep := eid\<rparr>)
      else if sid = WMI_MGMT_SVC then Some (a\<lparr>mgmt_ep := eid\<rparr>)
      else if sid = WMI_DATA_VO_SVC then Some (a\<lparr>data_VO_ep := eid\<rparr>)
      else if sid = WMI_DATA_VI_SVC then Some (a\<lparr>data_VI_ep := eid\<rparr>)
      else if sid = WMI_DATA_BE_SVC then Some (a\<lparr>data_BE_ep := eid\<rparr>)
      else if sid = WMI_DATA_BK_SVC then Some (a\<lparr>data_BK_ep := eid\<rparr>)
      else None)"

definition tgt_ServiceConnect :: "nat \<Rightarrow> nat \<Rightarrow> 'c drv_st \<Rightarrow> (u8 \<times> u8 \<times> 'c drv_st) option" where
  "tgt_ServiceConnect i eid s = do {
     sv \<leftarrow> at (services s) i;
     a \<leftarrow> set_endpoint (ServiceID sv) (of_nat eid) (app s);
     Some (0, 0, s\<lparr>app := a\<rparr>) }"

definition tgt_reg_service :: "nat \<Rightarrow> u16 \<Rightarrow> 'a htc \<Rightarrow> 'a htc option" where
  "tgt_reg_service i svcId s = do {
     sv \<leftarrow> at (services s) i;
     Some (HTC_RegisterService i (s\<lparr>services := (services s)[i := sv\<lparr>MaxSvcMsgSize := 1600, ServiceID := svcId\<rparr>]\<rparr>)) }"

text \<open>The dispatch table as WMI sees it: the handlers are the positions in the driver's table.\<close>

definition Magpie_Sys_Commands_Tbl :: "ath_env \<Rightarrow> WMI_DISPATCH_TABLE" where
  "Magpie_Sys_Commands_Tbl env = \<lparr>pContext = 0,
     pTable = map (\<lambda>i. \<lparr>pCmdHandler = Some i, CmdID = snd ((Magpie_Sys_DispatchEntries env :: (unit command \<times> u16) list) ! i),
                         CheckLength = 0\<rparr>) [0..<length (Magpie_Sys_DispatchEntries env :: (unit command \<times> u16) list)]\<rparr>"

text \<open>The eight services of the driver have the numbers 0 to 7, WMI has number 8.\<close>

definition tgt_hif_htc_wmi_init :: "ath_env \<Rightarrow> 'b WMI_SVC_CONTEXT_scheme htc_env \<Rightarrow> 'b WMI_SVC_CONTEXT_scheme \<Rightarrow>
    HTC_SERVICE list \<Rightarrow> fw_mem \<Rightarrow> 'b wmi_st option" where
  "tgt_hif_htc_wmi_init env henv a svcs m = do {
     s \<leftarrow> HTC_Init henv a svcs 320 (int ATH_TXBUF) (buf_pool_static_init m);
     s \<leftarrow> tgt_reg_service 0 WMI_BEACON_SVC s;
     s \<leftarrow> tgt_reg_service 1 WMI_CAB_SVC s;
     s \<leftarrow> tgt_reg_service 2 WMI_UAPSD_SVC s;
     s \<leftarrow> tgt_reg_service 3 WMI_MGMT_SVC s;
     s \<leftarrow> tgt_reg_service 4 WMI_DATA_BE_SVC s;
     s \<leftarrow> tgt_reg_service 5 WMI_DATA_BK_SVC s;
     s \<leftarrow> tgt_reg_service 6 WMI_DATA_VI_SVC s;
     s \<leftarrow> tgt_reg_service 7 WMI_DATA_VO_SVC s;
     s \<leftarrow> WMI_Init 8 2 8 s;
     HTC_Ready henv (WMI_RegisterDispatchTable (Magpie_Sys_Commands_Tbl env) s) }"

section \<open>Buffers and descriptors\<close>

text \<open>The buffers from \<open>first\<close> on are zeroed, get their own descriptor and are put into a list in order.\<close>

definition ath_descdma_setup :: "(nat \<Rightarrow> 'a softc_scheme \<Rightarrow> 'a softc_scheme) \<Rightarrow> nat \<Rightarrow> nat \<Rightarrow> 'a softc_scheme \<Rightarrow>
    nat list \<times> 'a softc_scheme" where
  "ath_descdma_setup zero first nbuf s = ([first..<first + nbuf], fold zero [first..<first + nbuf] s)"

definition zero_txbuf :: "nat \<Rightarrow> 'a softc_scheme \<Rightarrow> 'a softc_scheme" where
  "zero_txbuf b s = upd_buf b (\<lambda>_. \<lparr>bf_comp = None, bf_pktlen = 0, bf_seqno = 0, bf_keytype = 0, bf_ndelim = 0,
     bf_nframes = 0, bf_tidno = 0, bf_al = 0, bf_rcs = replicate 4 \<lparr>rcs_rix = 0, rcs_tries = 0, rcs_tx_chainmask = 0, rcs_flags = 0,
     rcs_max4msframelen = 0, rcs_txrateKbps = 0\<rparr>, bf_txq = 0, bf_retries = 0, bf_ismcast = False, bf_isaggr = False,
     bf_isretried = False, bf_node = None, bf_skbhead = [], bf_next = None, bf_endpt = 0, bf_cookie = 0, bf_hdrlen = 0,
     bf_keyix = 0, bf_atype = 0, bf_protmode = 0, bf_shpream = False, bf_skb = None, bf_lastds = b, bf_flags = 0,
     vap_index = 0\<rparr>) s"

definition zero_rxbuf :: "nat \<Rightarrow> 'a softc_scheme \<Rightarrow> 'a softc_scheme" where
  "zero_rxbuf b s = upd_rxbuf b (\<lambda>_. \<lparr>rxb_done = False, rxb_skb = NULL, rxb_skbhead = adf_nbuf_queue_init,
     bf_rx_status = \<lparr>rs_tstamp = 0, rs_datalen = 0, rs_status = 0, rs_phyerr = 0, rs_rssi_combined = 0,
       rs_rssi_ctl = replicate 3 0, rs_rssi_ext = replicate 3 0, rs_keyix = 0, rs_rate = 0, rs_antenna = 0, rs_more = 0,
       rs_isaggr = 0, rs_moreaggr = 0, rs_num_delims = 0, rs_flags = 0, rs_dummy = 0, evm0 = 0, evm1 = 0, evm2 = 0\<rparr>\<rparr>) s"

text \<open>The receive descriptors are linked in their order; the last has no link.\<close>

definition setup_rxdesc :: "nat \<Rightarrow> 'a softc_scheme \<Rightarrow> 'a softc_scheme" where
  "setup_rxdesc i s =
     (let s = upd_rxdesc i (ds_nbuf_update (\<lambda>_. NULL)) s;
          s = (if i = 0 then s else upd_rxdesc (i - 1) (rxd_link_update (\<lambda>_. Some i)) s);
          s = upd_rxdesc i (rxd_link_update (\<lambda>_. None)) s
      in s\<lparr>sc_rxdesc := sc_rxdesc s @ [i]\<rparr>)"

text \<open>
  34 transmit buffers, the first of which is held back, 11 receive buffers and descriptors, and the beacon
  buffer, which has number 34.
\<close>

definition ath_desc_alloc :: "'a softc_scheme \<Rightarrow> 'a softc_scheme option" where
  "ath_desc_alloc s = do {
     let (bs, s) = ath_descdma_setup zero_rxbuf 0 ATH_RXDESC s;
     let s = s\<lparr>sc_rxbuf := bs, sc_rxdesc := [], sc_rxdesc_idle := []\<rparr>;
     let s = fold setup_rxdesc [0..<ATH_RXDESC] s;
     let (bs, s) = ath_descdma_setup zero_txbuf 0 (ATH_TXBUF + 1) s;
     let s = s\<lparr>sc_txbuf := bs\<rparr>;
     let (bs, s) = ath_descdma_setup zero_txbuf (ATH_TXBUF + 1) 1 s;
     let s = s\<lparr>sc_bbuf := bs\<rparr>;
     b \<leftarrow> tailq_first (sc_txbuf s);
     let s = upd_buf b (\<lambda>bf. bf\<lparr>bf_isaggr := False, bf_isretried := False, bf_retries := 0\<rparr>) s;
     Some (s\<lparr>sc_txbuf := remove1 b (sc_txbuf s), sc_txbuf_held := b\<rparr>) }"

section \<open>Attachment\<close>

text \<open>
  \<open>csz\<close> is the cache line size the bus reports, \<open>rcmem\<close> what the memory allocated for the nodes' rate control
  holds. The hardware layer attaches without error.
\<close>

definition ath_tgt_attach :: "ath_env \<Rightarrow> 'b WMI_SVC_CONTEXT_scheme htc_env \<Rightarrow> 'b WMI_SVC_CONTEXT_scheme \<Rightarrow>
    HTC_SERVICE list \<Rightarrow> u8 \<Rightarrow> (nat \<Rightarrow> atheros_node) \<Rightarrow> 'a softc_scheme \<Rightarrow> ('b wmi_st \<times> 'a softc_scheme) option" where
  "ath_tgt_attach env henv a svcs csz rcmem s = do {
     let csz = (if csz = 0 then 16 else csz);
     let s = s\<lparr>sc_cachelsz := push_bit 2 (ucast csz)\<rparr>;
     h \<leftarrow> tgt_hif_htc_wmi_init env henv a svcs (sc_mem s);
     let s = s\<lparr>sc_mem := mem h, sc_bhalq := 9\<rparr>;
     let (_, s) = ath_rate_setup env 0 s;
     let (_, s) = ath_rate_setup env 1 s;
     let s = s\<lparr>sc_rc := ath_rate_attach\<rparr>;
     let s = fold (\<lambda>n. upd_node n (\<lambda>x. x\<lparr>an_rcnode := Some (rcmem n)\<rparr>)) [0..<ATH_NODE_MAX] s;
     s \<leftarrow> ath_desc_alloc s;
     m \<leftarrow> buf_pool_static_create_pool POOL_ID_WLAN_RX_BUF ATH_RXDESC 1664 (sc_mem s);
     let s = ath_tgt_txq_setup (s\<lparr>sc_mem := m\<rparr>);
     Some (h\<lparr>mem := m\<rparr>, setInterrupts 0 (s\<lparr>sc_imask := 0\<rparr>)) }"

section \<open>What the attachment establishes\<close>

lemma setup_rxdescs: "sc_rxdesc (fold setup_rxdesc [0..<n] s) = sc_rxdesc s @ [0..<n]"
  "sc_rxdesc_idle (fold setup_rxdesc [0..<n] s) = sc_rxdesc_idle s"
  by (induction n) (simp_all add: setup_rxdesc_def upd_rxdesc_def Let_def)

lemma setup_rxbuf: "sc_rxbuf (fold setup_rxdesc [0..<n] s) = sc_rxbuf s"
  "rxbufs (fold setup_rxdesc [0..<n] s) = rxbufs s"
  by (induction n) (simp_all add: setup_rxdesc_def upd_rxdesc_def Let_def)

lemma setup_links:
  "rxd_link (rxdescs (fold setup_rxdesc [0..<n] s) i) = (if i < n then if Suc i < n then Some (Suc i) else None
     else rxd_link (rxdescs s i))"
  by (induction n arbitrary: i) (auto simp: setup_rxdesc_def upd_rxdesc_def Let_def less_Suc_eq)

lemma zero_txbufs:
  "txbufs (fold zero_txbuf bs s) = (\<lambda>b. if b \<in> set bs then txbufs (zero_txbuf b s) b else txbufs s b)"
  by (induction bs arbitrary: s) (auto simp: zero_txbuf_def upd_buf_def fun_eq_iff)

lemma zero_txbuf_one:
  "sc_rxdesc (zero_txbuf b s) = sc_rxdesc s" "sc_rxdesc_idle (zero_txbuf b s) = sc_rxdesc_idle s"
  "sc_rxbuf (zero_txbuf b s) = sc_rxbuf s" "rxbufs (zero_txbuf b s) = rxbufs s"
  "rxdescs (zero_txbuf b s) = rxdescs s" "sc_txbuf (zero_txbuf b s) = sc_txbuf s"
  by (simp_all add: zero_txbuf_def upd_buf_def)

lemma zero_txbuf_frame:
  "sc_rxdesc (fold zero_txbuf bs s) = sc_rxdesc s" "sc_rxdesc_idle (fold zero_txbuf bs s) = sc_rxdesc_idle s"
  "sc_rxbuf (fold zero_txbuf bs s) = sc_rxbuf s" "rxbufs (fold zero_txbuf bs s) = rxbufs s"
  "rxdescs (fold zero_txbuf bs s) = rxdescs s"
  by (induction bs arbitrary: s) (simp_all add: zero_txbuf_one)

lemma zero_rxbufs:
  "rxbufs (fold zero_rxbuf bs s) = (\<lambda>b. if b \<in> set bs then rxbufs (zero_rxbuf b s) b else rxbufs s b)"
  by (induction bs arbitrary: s) (auto simp: zero_rxbuf_def upd_rxbuf_def fun_eq_iff)

text \<open>
  The ring has the descriptors 0 to 10, each linked to the next; the receive buffers are empty; 33 transmit
  buffers are free and the first is held back.
\<close>

lemma ath_desc_alloc_ring:
  "\<exists>s'. ath_desc_alloc s = Some s' \<and> sc_rxdesc s' = [0..<11] \<and> sc_rxdesc_idle s' = [] \<and> sc_rxbuf s' = [0..<11] \<and>
     (\<forall>i < 11. rxd_link (rxdescs s' i) = (if i < 10 then Some (Suc i) else None)) \<and>
     (\<forall>b < 11. \<not> rxb_done (rxbufs s' b) \<and> rxb_skb (rxbufs s' b) = NULL \<and> rxb_skbhead (rxbufs s' b) = adf_nbuf_queue_init) \<and>
     sc_txbuf s' = [1..<34] \<and> sc_txbuf_held s' = 0 \<and> sc_bbuf s' = [34]"
proof -
  have "[0..<34] = 0 # [1..<34]" by (simp add: upt_conv_Cons)
  then show ?thesis
    by (simp add: ath_desc_alloc_def ath_descdma_setup_def tailq_first_def upd_buf_def setup_rxdescs setup_rxbuf
        setup_links zero_txbuf_frame zero_txbuf_one zero_rxbufs zero_rxbuf_def upd_rxbuf_def Let_def del: upt_Suc)
qed

text \<open>Every command of the table is found by WMI at its own position.\<close>

lemma dispatch_table_complete:
  "map (\<lambda>c. scan_tables [Magpie_Sys_Commands_Tbl env] (of_nat c) 0) [1..<33] = map (\<lambda>c. Some (0, c - 1)) [1..<33]"
  by (simp add: Magpie_Sys_Commands_Tbl_def Magpie_Sys_DispatchEntries_def upt_rec)

end
