(* ===== verification/Cmnos_List.thy ===== *)
theory Cmnos_List
  imports Fw_Mem
begin

text \<open>
  Linked lists changed in the middle: what the walks of the ROM modules along their lists rely on when they
  take an element out or put one in.
\<close>

lemma chain_ConsI: "nx x = Some q \<Longrightarrow> chain nx q xs \<Longrightarrow> x \<noteq> NULL \<Longrightarrow> chain nx x (x # xs)"
  by simp

lemma chain_ConsE: "chain nx p (x # xs) \<Longrightarrow> (\<And>q. p = x \<Longrightarrow> x \<noteq> NULL \<Longrightarrow> nx x = Some q \<Longrightarrow> chain nx q xs \<Longrightarrow> P) \<Longrightarrow> P"
  by (auto split: option.splits)

lemma chain_split: "chain nx p (us @ t # ts) \<Longrightarrow> nx t = Some q \<Longrightarrow> chain nx q ts"
  by (induction us arbitrary: p) (auto split: option.splits)

lemma chain_remove:
  assumes "chain nx p (us @ t # ts)" "us \<noteq> []" "nx t = Some q"
  shows "chain (nx(last us \<mapsto> q)) p (us @ ts)"
  using assms
proof (induction us arbitrary: p)
  case (Cons u us)
  have d: "distinct (u # us @ t # ts)" using chain_distinct [OF Cons.prems(1)] by simp
  obtain r where r: "p = u" "u \<noteq> NULL" "nx u = Some r" "chain nx r (us @ t # ts)"
    using Cons.prems(1) by (auto elim: chain_ConsE simp del: chain.simps)
  show ?case
  proof (cases "us = []")
    case True
    then have "chain nx q ts" using r(4) Cons.prems(3) chain_split [of nx r us t ts q] by simp
    then have "chain (nx(u \<mapsto> q)) q ts" using d by (subst chain_fun_upd_notin) auto
    then have "chain (nx(u \<mapsto> q)) u (u # ts)" by (rule chain_ConsI [rotated]) (use r in simp_all)
    then show ?thesis unfolding True r(1) by (simp only: last_ConsL append_Cons append_Nil simp_thms)
  next
    case False
    then have "(nx(last us \<mapsto> q)) u = Some r" using d r(3) by auto
    then have "chain (nx(last us \<mapsto> q)) u (u # us @ ts)"
      by (rule chain_ConsI) (use Cons.IH [OF r(4) False Cons.prems(3)] r(2) in simp_all)
    then show ?thesis using False unfolding r(1) by (simp only: last_ConsR append_Cons simp_thms not_False_eq_True if_False)
  qed
qed simp

lemma chain_insert:
  assumes "chain nx p (us @ ts)" "us \<noteq> []" "nx (last us) = Some q" "x \<noteq> NULL" "x \<notin> set (us @ ts)"
  shows "chain (nx(x \<mapsto> q, last us \<mapsto> x)) p (us @ x # ts)"
  using assms
proof (induction us arbitrary: p)
  case (Cons u us)
  have d: "distinct (u # us @ ts)" using chain_distinct [OF Cons.prems(1)] by simp
  obtain r where r: "p = u" "u \<noteq> NULL" "nx u = Some r" "chain nx r (us @ ts)"
    using Cons.prems(1) by (auto elim: chain_ConsE simp del: chain.simps)
  show ?case
  proof (cases "us = []")
    case True
    let ?nx = "nx(x \<mapsto> q, u \<mapsto> x)"
    have "chain ?nx q ts" using True r(3,4) Cons.prems d by (subst chain_fun_upd_notin, simp)+ simp
    then have "chain ?nx x (x # ts)" by (rule chain_ConsI [rotated]) (use Cons.prems in auto)
    then have "chain ?nx u (u # x # ts)" by (rule chain_ConsI [rotated]) (use r in auto)
    then show ?thesis unfolding True r(1) by (simp only: last_ConsL append_Cons append_Nil simp_thms)
  next
    case False
    then have "(nx(x \<mapsto> q, last us \<mapsto> x)) u = Some r" using d r(3) Cons.prems(5) by auto
    then have "chain (nx(x \<mapsto> q, last us \<mapsto> x)) u (u # us @ x # ts)"
      by (rule chain_ConsI) (use Cons.IH [OF r(4) False] Cons.prems False r(2) in simp_all)
    then show ?thesis using False unfolding r(1) by (simp only: last_ConsR append_Cons simp_thms not_False_eq_True if_False)
  qed
qed simp

end
