(* ===== verification/Cmnos_Tasklet.thy ===== *)
theory Cmnos_Tasklet
  imports Cmnos_List
begin

text \<open>
  The tasklets of the ROM (\<^verbatim>\<open>cmnos_tasklet.c\<close>): deferred calls on a linked list, which the main loop
  empties. A tasklet is a structure at an address, its link the address of the next; the function it calls and
  the argument are code and data pointers. What the functions do is a parameter of the run; they may change
  the list.
\<close>

section \<open>State and operations\<close>

datatype A_TASKLET_STATE = A_TASKLET_STATE_DISABLE | A_TASKLET_STATE_SCHEDULED | A_TASKLET_STATE_RUNNING

record A_tasklet =
  func :: addr
  targ :: addr
  tstate :: A_TASKLET_STATE
  tnext :: addr

record tasklet_context =
  tasklets :: "addr \<Rightarrow> A_tasklet"
  schedule_tasks :: addr

type_synonym 'a tasklet_func = "addr \<Rightarrow> addr \<Rightarrow> 'a tasklet_context_scheme \<Rightarrow> 'a tasklet_context_scheme option"

definition upd_tasklet :: "addr \<Rightarrow> (A_tasklet \<Rightarrow> A_tasklet) \<Rightarrow> 'a tasklet_context_scheme \<Rightarrow> 'a tasklet_context_scheme" where
  "upd_tasklet t f s = s\<lparr>tasklets := (tasklets s)(t := f (tasklets s t))\<rparr>"

definition cmnos_tasklet_init :: "'a tasklet_context_scheme \<Rightarrow> 'a tasklet_context_scheme" where
  "cmnos_tasklet_init s = s\<lparr>schedule_tasks := NULL\<rparr>"

definition cmnos_tasklet_init_task :: "addr \<Rightarrow> addr \<Rightarrow> addr \<Rightarrow> 'a tasklet_context_scheme \<Rightarrow> 'a tasklet_context_scheme option" where
  "cmnos_tasklet_init_task fn arg t s = do {
     require (t \<noteq> NULL);
     Some (upd_tasklet t (\<lambda>_. \<lparr>func = fn, targ = arg, tstate = A_TASKLET_STATE_DISABLE, tnext = NULL\<rparr>) s) }"

definition cmnos_tasklet_schedule :: "addr \<Rightarrow> 'a tasklet_context_scheme \<Rightarrow> 'a tasklet_context_scheme option" where
  "cmnos_tasklet_schedule t s = do {
     require (t \<noteq> NULL);
     if tstate (tasklets s t) = A_TASKLET_STATE_SCHEDULED then Some s
     else do {
       let s = upd_tasklet t (tstate_update (\<lambda>_. A_TASKLET_STATE_SCHEDULED)) s;
       if schedule_tasks s = NULL then Some (s\<lparr>schedule_tasks := t\<rparr>)
       else Some ((upd_tasklet t (tnext_update (\<lambda>_. schedule_tasks s)) s)\<lparr>schedule_tasks := t\<rparr>) } }"

text \<open>The walk along the list with the tasklet before \<open>tmp\<close>.\<close>

partial_function (option) disable_walk :: "addr \<Rightarrow> addr \<Rightarrow> addr \<Rightarrow> 'a tasklet_context_scheme \<Rightarrow>
    'a tasklet_context_scheme option" where
  "disable_walk t prev tmp s =
     (if tmp = NULL then Some s
      else if tmp = t then
        Some (upd_tasklet t (tstate_update (\<lambda>_. A_TASKLET_STATE_DISABLE))
          (if prev = NULL then s\<lparr>schedule_tasks := NULL\<rparr>
           else upd_tasklet prev (tnext_update (\<lambda>_. tnext (tasklets s tmp))) s))
      else disable_walk t tmp (tnext (tasklets s tmp)) s)"

definition cmnos_tasklet_disable :: "addr \<Rightarrow> 'a tasklet_context_scheme \<Rightarrow> 'a tasklet_context_scheme option" where
  "cmnos_tasklet_disable t s = do {
     require (t \<noteq> NULL);
     if tstate (tasklets s t) \<noteq> A_TASKLET_STATE_SCHEDULED then Some s
     else disable_walk t NULL (schedule_tasks s) s }"

partial_function (option) cmnos_tasklet_run :: "'a tasklet_func \<Rightarrow> 'a tasklet_context_scheme \<Rightarrow> 'a tasklet_context_scheme option" where
  "cmnos_tasklet_run call s =
     (if schedule_tasks s = NULL then Some (s\<lparr>schedule_tasks := NULL\<rparr>)
      else do {
        let tmp = schedule_tasks s;
        let s = s\<lparr>schedule_tasks := tnext (tasklets s tmp)\<rparr>;
        let s = upd_tasklet tmp (tnext_update (\<lambda>_. NULL)) s;
        let s = upd_tasklet tmp (tstate_update (\<lambda>_. A_TASKLET_STATE_RUNNING)) s;
        s \<leftarrow> call (func (tasklets s tmp)) (targ (tasklets s tmp)) s;
        let s = upd_tasklet tmp (tstate_update (\<lambda>_. A_TASKLET_STATE_DISABLE)) s;
        cmnos_tasklet_run call s })"

section \<open>The list of scheduled tasklets\<close>

text \<open>
  \<open>scheduled s ts\<close>: the list is \<open>ts\<close>, in the order in which its tasklets will run; exactly these are marked
  as scheduled, and the others have no link.
\<close>

definition tlinks :: "(addr \<Rightarrow> A_tasklet) \<Rightarrow> addr \<Rightarrow> addr option" where
  "tlinks f p = Some (tnext (f p))"

definition scheduled :: "'a tasklet_context_scheme \<Rightarrow> addr list \<Rightarrow> bool" where
  "scheduled s ts \<longleftrightarrow> chain (tlinks (tasklets s)) (schedule_tasks s) ts \<and>
     (\<forall>t. t \<noteq> NULL \<longrightarrow> (tstate (tasklets s t) = A_TASKLET_STATE_SCHEDULED \<longleftrightarrow> t \<in> set ts)) \<and>
     (\<forall>t. t \<noteq> NULL \<longrightarrow> t \<notin> set ts \<longrightarrow> tnext (tasklets s t) = NULL)"

lemma tlinks_upd [simp]: "tlinks (f(t := x)) = (tlinks f)(t \<mapsto> tnext x)"
  by (auto simp: tlinks_def)

lemma chain_tl_Cons: "chain (tlinks f) p (x # xs) \<longleftrightarrow> p = x \<and> x \<noteq> NULL \<and> chain (tlinks f) (tnext (f x)) xs"
  by (simp add: tlinks_def [of f x])

lemma scheduledD:
  assumes "scheduled s ts"
  shows "chain (tlinks (tasklets s)) (schedule_tasks s) ts" "distinct ts" "NULL \<notin> set ts" "schedule_tasks s = NULL \<longleftrightarrow> ts = []"
    "t \<noteq> NULL \<Longrightarrow> tstate (tasklets s t) = A_TASKLET_STATE_SCHEDULED \<longleftrightarrow> t \<in> set ts"
    "t \<noteq> NULL \<Longrightarrow> t \<notin> set ts \<Longrightarrow> tnext (tasklets s t) = NULL"
  using assms chain_distinct chain_not_NULL by (auto simp: scheduled_def dest: chain_head)

text \<open>Scheduling puts a tasklet in front, once.\<close>

lemma schedule_list:
  assumes "scheduled s ts" "t \<noteq> NULL"
  shows "\<exists>s'. cmnos_tasklet_schedule t s = Some s' \<and> scheduled s' (if t \<in> set ts then ts else t # ts) \<and>
    tasklet_context.more s' = tasklet_context.more s \<and> (\<forall>x. func (tasklets s' x) = func (tasklets s x) \<and> targ (tasklets s' x) = targ (tasklets s x))"
proof (cases "t \<in> set ts")
  case True
  then show ?thesis using assms scheduledD(5) [OF assms] by (simp add: cmnos_tasklet_schedule_def require_def)
next
  case False
  then show ?thesis
    using assms(2) scheduledD [OF assms(1)] 
    by (auto simp: cmnos_tasklet_schedule_def require_def scheduled_def Let_def upd_tasklet_def chain_fun_upd_notin)
qed

text \<open>
  Functions that leave the tasklets alone are called once each, in the order of the list; then no tasklet is
  scheduled. \<open>eff\<close> is what they do to the rest of the state.
\<close>

definition idle :: "addr list \<Rightarrow> (addr \<Rightarrow> A_tasklet) \<Rightarrow> addr \<Rightarrow> A_tasklet" where
  "idle ts f t = (if t \<in> set ts then (f t)\<lparr>tstate := A_TASKLET_STATE_DISABLE, tnext := NULL\<rparr> else f t)"

lemma idle_simps [simp]: "idle [] f = f" "func (idle ts f t) = func (f t)" "targ (idle ts f t) = targ (f t)"
  by (simp_all add: idle_def fun_eq_iff)

lemma idle_Cons: "t \<notin> set ts \<Longrightarrow>
    idle ts (f(t := (f t)\<lparr>tnext := NULL, tstate := A_TASKLET_STATE_DISABLE\<rparr>)) = idle (t # ts) f"
  by (auto simp: idle_def fun_eq_iff)

definition lift_call :: "(addr \<Rightarrow> addr \<Rightarrow> 'a \<Rightarrow> 'a option) \<Rightarrow> 'a tasklet_func" where
  "lift_call eff fn arg s = map_option (\<lambda>m. tasklet_context.more_update (\<lambda>_. m) s) (eff fn arg (tasklet_context.more s))"

lemma stopped_code [simp]:
  "func ((f(t := (f t)\<lparr>tnext := NULL, tstate := A_TASKLET_STATE_DISABLE\<rparr>)) x) = func (f x)"
  "targ ((f(t := (f t)\<lparr>tnext := NULL, tstate := A_TASKLET_STATE_DISABLE\<rparr>)) x) = targ (f x)"
  by simp_all

lemma chain_run:
  fixes s :: "'a tasklet_context_scheme"
  assumes "chain (tlinks (tasklets s)) (schedule_tasks s) ts"
  shows "cmnos_tasklet_run (lift_call eff) s =
    map_option (\<lambda>m. \<lparr>tasklets = idle ts (tasklets s), schedule_tasks = NULL, \<dots> = m\<rparr>)
      (foldM (\<lambda>m t. eff (func (tasklets s t)) (targ (tasklets s t)) m) (tasklet_context.more s) ts)"
  using assms
proof (induction ts arbitrary: s)
  case Nil
  then have "schedule_tasks s = NULL" by simp
  then show ?case by (subst cmnos_tasklet_run.simps) (cases s; simp)
next
  case (Cons t ts)
  let ?t = "(tasklets s t)\<lparr>tnext := NULL, tstate := A_TASKLET_STATE_DISABLE\<rparr>"
  define s1 where "s1 m = \<lparr>tasklets = (tasklets s)(t := ?t), schedule_tasks = tnext (tasklets s t), \<dots> = m\<rparr>" for m :: 'a
  have hd: "schedule_tasks s = t" "t \<noteq> NULL" "chain (tlinks (tasklets s)) (tnext (tasklets s t)) ts" "t \<notin> set ts"
    using Cons.prems chain_distinct [OF Cons.prems] unfolding chain_tl_Cons by simp_all
  have wf: "chain (tlinks (tasklets (s1 m))) (schedule_tasks (s1 m)) ts" for m
    using hd by (simp add: s1_def chain_fun_upd_notin)
  have "cmnos_tasklet_run (lift_call eff) s =
      do { m \<leftarrow> eff (func (tasklets s t)) (targ (tasklets s t)) (tasklet_context.more s); cmnos_tasklet_run (lift_call eff) (s1 m) }"
    using hd by (subst cmnos_tasklet_run.simps)
      (auto simp: lift_call_def upd_tasklet_def s1_def Let_def map_option_case intro!: arg_cong [where f = "cmnos_tasklet_run _"] split: option.split)
  then show ?case
    using Cons.IH [OF wf]
    by (simp add: s1_def idle_Cons [OF hd(4)] map_option_bind comp_def del: fun_upd_apply)
qed

lemmas run_list = chain_run [OF scheduledD(1)]

section \<open>Taking a tasklet off the list\<close>

text \<open>The walk reaches a scheduled tasklet with its predecessor in hand.\<close>

lemma disable_walk_finds:
  assumes "chain (tlinks (tasklets s)) tmp (us @ t # ts)" "t \<notin> set us"
  shows "disable_walk t prev tmp s = disable_walk t (last (prev # us)) t s"
  using assms
proof (induction us arbitrary: prev tmp)
  case (Cons u us)
  then have "tmp = u" "u \<noteq> NULL" "u \<noteq> t" "chain (tlinks (tasklets s)) (tnext (tasklets s u)) (us @ t # ts)"
    by (auto simp: chain_tl_Cons simp del: chain.simps)
  then show ?case
    using Cons.IH [of "tnext (tasklets s u)" u] Cons.prems(2) by (subst disable_walk.simps) simp
qed simp

text \<open>A tasklet that is not at the head is taken out; its own link stays, so the second part of
  \<^const>\<open>scheduled\<close> holds but not the third.\<close>

lemma disable_inner:
  assumes "scheduled s (us @ t # ts)" "us \<noteq> []"
  shows "\<exists>s'. cmnos_tasklet_disable t s = Some s' \<and> chain (tlinks (tasklets s')) (schedule_tasks s') (us @ ts) \<and>
    tstate (tasklets s' t) = A_TASKLET_STATE_DISABLE \<and> tnext (tasklets s' t) = tnext (tasklets s t)"
proof -
  note d = scheduledD [OF assms(1)]
  let ?u = "last us"
  have n: "t \<noteq> NULL" "?u \<noteq> NULL" "?u \<noteq> t" "t \<notin> set us" using d(2,3) last_in_set [OF assms(2)] by force+
  let ?s' = "upd_tasklet t (tstate_update (\<lambda>_. A_TASKLET_STATE_DISABLE))
      (upd_tasklet ?u (tnext_update (\<lambda>_. tnext (tasklets s t))) s)"
  have "cmnos_tasklet_disable t s = Some ?s'"
    using n d disable_walk_finds [OF d(1) n(4)] assms(2)
    by (subst (asm) (2) disable_walk.simps) (simp add: cmnos_tasklet_disable_def require_def)
  moreover have "chain ((tlinks (tasklets s))(?u \<mapsto> tnext (tasklets s t))) (schedule_tasks s) (us @ ts)"
    by (rule chain_remove [OF d(1) assms(2)]) (simp add: tlinks_def)
  ultimately show ?thesis
    using n fun_upd_idem [of "tlinks (tasklets s)" t] by (simp add: upd_tasklet_def fun_upd_twist tlinks_def [of _ t])
qed

text \<open>A tasklet that is scheduled while the list already starts with it is linked to itself; the others are lost.\<close>

lemma schedule_head_twice:
  "t \<noteq> NULL \<Longrightarrow> schedule_tasks s = t \<Longrightarrow> tstate (tasklets s t) \<noteq> A_TASKLET_STATE_SCHEDULED \<Longrightarrow>
    \<exists>s'. cmnos_tasklet_schedule t s = Some s' \<and> schedule_tasks s' = t \<and> tnext (tasklets s' t) = t"
  by (simp add: cmnos_tasklet_schedule_def require_def upd_tasklet_def Let_def)

section \<open>Tasklets that are off the list but marked\<close>

text \<open>Schedulings and runs in any order.\<close>

datatype tasklet_op = Schedule addr | Run

fun tasklet_step :: "(addr \<Rightarrow> addr \<Rightarrow> 'a \<Rightarrow> 'a option) \<Rightarrow> 'a tasklet_context_scheme \<Rightarrow> tasklet_op \<Rightarrow> 'a tasklet_context_scheme option" where
  "tasklet_step eff s (Schedule t) = cmnos_tasklet_schedule t s"
| "tasklet_step eff s Run = cmnos_tasklet_run (lift_call eff) s"

text \<open>The tasklets of \<open>us\<close> are marked without being on the list, \<open>t\<close> is off the list too, and all is well with the others.\<close>

definition off_list :: "addr \<Rightarrow> addr list \<Rightarrow> addr list \<Rightarrow> 'a tasklet_context_scheme \<Rightarrow> bool" where
  "off_list t us vs s \<longleftrightarrow> chain (tlinks (tasklets s)) (schedule_tasks s) vs \<and> set vs \<inter> set (t # us) = {} \<and>
     (\<forall>u\<in>set us. u \<noteq> NULL \<and> tstate (tasklets s u) = A_TASKLET_STATE_SCHEDULED) \<and>
     (\<forall>v. v \<noteq> NULL \<longrightarrow> v \<notin> set (t # us) \<longrightarrow> (tstate (tasklets s v) = A_TASKLET_STATE_SCHEDULED \<longleftrightarrow> v \<in> set vs) \<and>
       (v \<notin> set vs \<longrightarrow> tnext (tasklets s v) = NULL))"

lemma off_list_schedule:
  assumes "off_list t us vs s" "v \<noteq> t" "cmnos_tasklet_schedule v s = Some s'"
  shows "\<exists>vs'. off_list t us vs' s'"
proof (cases "v \<in> set us \<or> v \<in> set vs")
  case True
  have "v \<noteq> NULL" using assms(3) by (simp add: cmnos_tasklet_schedule_def require_def split: if_splits)
  then have "tstate (tasklets s v) = A_TASKLET_STATE_SCHEDULED" using True assms(1) unfolding off_list_def by auto
  then show ?thesis using assms(1,3) \<open>v \<noteq> NULL\<close> by (auto simp: cmnos_tasklet_schedule_def require_def)
next
  case False
  have n: "v \<noteq> NULL" using assms(3) by (simp add: cmnos_tasklet_schedule_def require_def split: if_splits)
  then have st: "tstate (tasklets s v) \<noteq> A_TASKLET_STATE_SCHEDULED" "tnext (tasklets s v) = NULL"
    using False assms(1,2) by (auto simp: off_list_def)
  have c: "chain (tlinks (tasklets s)) (schedule_tasks s) vs" using assms(1) by (simp add: off_list_def)
  then have e: "schedule_tasks s = NULL \<longleftrightarrow> vs = []" using chain_not_NULL [OF c] by (auto dest: chain_head)
  define x where "x = (tasklets s v)\<lparr>tstate := A_TASKLET_STATE_SCHEDULED, tnext := schedule_tasks s\<rparr>"
  have x: "(tasklets s v)\<lparr>tstate := A_TASKLET_STATE_SCHEDULED\<rparr> = x" if "schedule_tasks s = NULL"
    unfolding x_def that by (rule A_tasklet.equality) (simp_all add: st(2))
  have s': "s' = s\<lparr>tasklets := (tasklets s)(v := x), schedule_tasks := v\<rparr>"
    using assms(3) n st(1) x by (auto simp: cmnos_tasklet_schedule_def require_def upd_tasklet_def x_def Let_def split: if_splits)
  have f: "tstate x = A_TASKLET_STATE_SCHEDULED" "tnext x = schedule_tasks s" by (simp_all add: x_def)
  have "chain (tlinks (tasklets s')) (schedule_tasks s') (v # vs)"
    using c False n by (simp add: s' f chain_fun_upd_notin)
  moreover have "set (v # vs) \<inter> set (t # us) = {}" using assms(1,2) False by (auto simp: off_list_def)
  moreover have "\<forall>u\<in>set us. u \<noteq> NULL \<and> tstate (tasklets s' u) = A_TASKLET_STATE_SCHEDULED"
    using assms(1) by (simp add: s' f off_list_def)
  moreover have "(tstate (tasklets s' w) = A_TASKLET_STATE_SCHEDULED \<longleftrightarrow> w \<in> set (v # vs)) \<and> (w \<notin> set (v # vs) \<longrightarrow> tnext (tasklets s' w) = NULL)"
    if "w \<noteq> NULL" "w \<notin> set (t # us)" for w
    using assms(1) that by (cases "w = v") (simp_all add: s' f off_list_def)
  ultimately have "off_list t us (v # vs) s'" unfolding off_list_def by blast
  then show ?thesis by blast
qed

lemma off_list_run:
  assumes "off_list t us vs s" "cmnos_tasklet_run (lift_call eff) s = Some s'"
  shows "off_list t us [] s'"
proof -
  have "chain (tlinks (tasklets s)) (schedule_tasks s) vs" using assms(1) by (simp add: off_list_def)
  then obtain m where "s' = \<lparr>tasklets = idle vs (tasklets s), schedule_tasks = NULL, \<dots> = m\<rparr>"
    using chain_run [of s vs eff] assms(2) by (metis (no_types, lifting) map_option_eq_Some)
  then show ?thesis using assms(1) by (auto simp: off_list_def idle_def)
qed

lemma off_list_steps:
  assumes "off_list t us vs s" "Schedule t \<notin> set ops" "foldM (tasklet_step eff) s ops = Some s'"
  shows "\<exists>vs'. off_list t us vs' s'"
  using assms
proof (induction ops arbitrary: s vs)
  case (Cons op ops)
  then obtain s1 where s1: "tasklet_step eff s op = Some s1" "foldM (tasklet_step eff) s1 ops = Some s'"
    by (cases "tasklet_step eff s op") auto
  then obtain vs1 where "off_list t us vs1 s1"
    using Cons.prems(1,2) off_list_schedule off_list_run by (cases op) fastforce+
  then show ?case using Cons.IH s1(2) Cons.prems(2) by auto
qed auto

section \<open>Properties\<close>

definition tasklets0 :: "nat tasklet_context_scheme" where
  "tasklets0 = \<lparr>tasklets = (\<lambda>t. if t = 0x10 then \<lparr>func = 1, targ = 7, tstate = A_TASKLET_STATE_SCHEDULED, tnext = 0x20\<rparr>
       else if t = 0x20 then \<lparr>func = 2, targ = 8, tstate = A_TASKLET_STATE_SCHEDULED, tnext = NULL\<rparr>
       else \<lparr>func = 0, targ = 0, tstate = A_TASKLET_STATE_DISABLE, tnext = NULL\<rparr>),
     schedule_tasks = 0x10, \<dots> = 0\<rparr>"

lemma tasklets0_scheduled: "scheduled tasklets0 [0x10, 0x20]"
  by (simp add: scheduled_def tasklets0_def tlinks_def)

text \<open>
  Property C31. A run of the tasklets calls the function of each scheduled tasklet exactly once with its
  argument, in the order of the list, and ends, when the functions do, with no tasklet scheduled; a tasklet
  scheduled later comes first, and one scheduled twice is called once. The functions leave the tasklets alone, as
  those of the driver do.
\<close>

theorem cmnos_tasklet_run_calls_each_once:
  fixes s :: "'a tasklet_context_scheme"
  assumes "scheduled s ts" "t \<noteq> NULL"
  shows "\<exists>s'. cmnos_tasklet_schedule t s = Some s' \<and> cmnos_tasklet_run (lift_call eff) s' =
    map_option (\<lambda>m. \<lparr>tasklets = idle (List.insert t ts) (tasklets s'), schedule_tasks = NULL, \<dots> = m\<rparr>)
      (foldM (\<lambda>m t. eff (func (tasklets s t)) (targ (tasklets s t)) m) (tasklet_context.more s) (List.insert t ts))"
proof -
  obtain s' where s': "cmnos_tasklet_schedule t s = Some s'" "scheduled s' (List.insert t ts)"
    "tasklet_context.more s' = tasklet_context.more s"
    "\<And>x. func (tasklets s' x) = func (tasklets s x)" "\<And>x. targ (tasklets s' x) = targ (tasklets s x)"
    using schedule_list [OF assms] by (auto simp: List.insert_def)
  then show ?thesis
    using run_list [OF s'(2), of eff] by simp
qed

theorem cmnos_tasklet_run_calls_each_once_witness:
  "\<exists>s'. cmnos_tasklet_schedule 0x30 tasklets0 = Some s' \<and>
     map_option tasklet_context.more (cmnos_tasklet_run (lift_call (\<lambda>f a n. Some (n * 10 + unat f))) s') = Some 12"
  using cmnos_tasklet_run_calls_each_once [OF tasklets0_scheduled, where t = "0x30" and eff = "\<lambda>f a n. Some (n * 10 + unat f)"]
  by (auto simp: List.insert_def) (simp add: tasklets0_def)

text \<open>
  Property C32. Disabling the tasklet at the head of the list drops the whole list. The tasklets behind it stay
  marked as scheduled, and as long as the disabled one is not scheduled itself, whatever else is scheduled and
  run, scheduling them has no effect and no run calls them. Scheduling the disabled one next brings all of
  them back, because it has kept its link.
\<close>

theorem cmnos_tasklet_disable_strands:
  fixes s :: "'a tasklet_context_scheme"
  assumes "scheduled s (t # ts)"
  shows "\<exists>s'. cmnos_tasklet_disable t s = Some s' \<and>
    (\<forall>ops eff s''. Schedule t \<notin> set ops \<and> foldM (tasklet_step eff) s' ops = Some s'' \<longrightarrow>
      (\<forall>u\<in>set ts. tstate (tasklets s'' u) = A_TASKLET_STATE_SCHEDULED \<and> cmnos_tasklet_schedule u s'' = Some s'') \<and>
      (\<exists>vs. set vs \<inter> set (t # ts) = {} \<and> (\<forall>eff'. cmnos_tasklet_run (lift_call eff') s'' =
        map_option (\<lambda>m. \<lparr>tasklets = idle vs (tasklets s''), schedule_tasks = NULL, \<dots> = m\<rparr>)
          (foldM (\<lambda>m v. eff' (func (tasklets s'' v)) (targ (tasklets s'' v)) m) (tasklet_context.more s'') vs)))) \<and>
    (\<exists>s''. cmnos_tasklet_schedule t s' = Some s'' \<and> scheduled s'' (t # ts))"
proof -
  note d = scheduledD [OF assms]
  have t: "schedule_tasks s = t" "t \<noteq> NULL" "NULL \<notin> set ts" "t \<notin> set ts" "chain (tlinks (tasklets s)) (tnext (tasklets s t)) ts"
    using d(1,2,3) by (auto simp: tlinks_def)
  let ?s' = "upd_tasklet t (tstate_update (\<lambda>_. A_TASKLET_STATE_DISABLE)) (s\<lparr>schedule_tasks := NULL\<rparr>)"
  have dis: "cmnos_tasklet_disable t s = Some ?s'"
    using t d(5) [of t] by (subst cmnos_tasklet_disable_def, subst disable_walk.simps) (simp add: require_def)
  have m: "\<forall>u\<in>set ts. u \<noteq> NULL \<and> u \<noteq> t \<and> tstate (tasklets s u) = A_TASKLET_STATE_SCHEDULED"
    using t(3,4) d(5) by (metis list.set_intros(2))
  have off: "off_list t ts [] ?s'" using t(2) m d(5,6) by (simp add: off_list_def upd_tasklet_def)
  have "(\<forall>u\<in>set ts. tstate (tasklets s'' u) = A_TASKLET_STATE_SCHEDULED \<and> cmnos_tasklet_schedule u s'' = Some s'') \<and>
      (\<exists>vs. set vs \<inter> set (t # ts) = {} \<and> (\<forall>eff'. cmnos_tasklet_run (lift_call eff') s'' =
        map_option (\<lambda>m. \<lparr>tasklets = idle vs (tasklets s''), schedule_tasks = NULL, \<dots> = m\<rparr>)
          (foldM (\<lambda>m v. eff' (func (tasklets s'' v)) (targ (tasklets s'' v)) m) (tasklet_context.more s'') vs)))"
    if ops: "Schedule t \<notin> set ops" "foldM (tasklet_step eff) ?s' ops = Some s''" for ops eff s''
  proof -
    obtain vs where vs: "off_list t ts vs s''" using off_list_steps [OF off ops] by blast
    then have c: "chain (tlinks (tasklets s'')) (schedule_tasks s'') vs" "set vs \<inter> set (t # ts) = {}"
      "\<forall>u\<in>set ts. u \<noteq> NULL \<and> tstate (tasklets s'' u) = A_TASKLET_STATE_SCHEDULED" by (simp_all add: off_list_def)
    have "\<forall>u\<in>set ts. tstate (tasklets s'' u) = A_TASKLET_STATE_SCHEDULED \<and> cmnos_tasklet_schedule u s'' = Some s''"
      using c(3) by (simp add: cmnos_tasklet_schedule_def require_def)
    then show ?thesis using chain_run [OF c(1)] c(2) by blast
  qed
  moreover have "\<exists>s''. cmnos_tasklet_schedule t ?s' = Some s'' \<and> scheduled s'' (t # ts)"
    using t(2-5) m d(5,6) by (auto simp: cmnos_tasklet_schedule_def require_def upd_tasklet_def scheduled_def chain_fun_upd_notin Let_def)
  ultimately show ?thesis using dis by blast
qed

theorem cmnos_tasklet_disable_strands_witness:
  "\<exists>s'. cmnos_tasklet_disable 0x10 tasklets0 = Some s' \<and> cmnos_tasklet_schedule 0x20 s' = Some s' \<and>
    (\<exists>s''. cmnos_tasklet_schedule 0x10 s' = Some s'' \<and> scheduled s'' [0x10, 0x20])"
proof -
  obtain s' where s': "cmnos_tasklet_disable 0x10 tasklets0 = Some s'"
    "\<And>ops eff s''. Schedule 0x10 \<notin> set ops \<Longrightarrow> foldM (tasklet_step eff) s' ops = Some s'' \<Longrightarrow> cmnos_tasklet_schedule 0x20 s'' = Some s''"
    "\<exists>s''. cmnos_tasklet_schedule 0x10 s' = Some s'' \<and> scheduled s'' [0x10, 0x20]"
    using cmnos_tasklet_disable_strands [OF tasklets0_scheduled] by auto
  then show ?thesis using s'(2) [of "[]" "\<lambda>f a n. Some n" s'] by auto
qed

end
