(* ===== verification/Cmnos_Timer.thy ===== *)
theory Cmnos_Timer
  imports Cmnos_List
begin

text \<open>
  The timers of the ROM (\<^verbatim>\<open>cmnos_timer.c\<close>): a linked list of armed timers in the order in which they
  expire. Times are values of the cycle counter of the CPU, which has 32 bits and wraps around; what a reading
  of it gives is a function of the number of readings so far. A timer is a structure at an address; what the
  functions of the timers do is a parameter of the handler, and they may arm and disarm timers.
\<close>

section \<open>State and operations\<close>

record cmnos_timer_t =
  timer_next :: addr
  timer_expire :: u32
  timer_period :: u32
  timer_function :: addr
  timer_arg :: addr

record timer_context =
  timers :: "addr \<Rightarrow> cmnos_timer_t"
  timer_list :: addr
  nreads :: nat

type_synonym 'a timer_func = "addr \<Rightarrow> addr \<Rightarrow> addr \<Rightarrow> 'a timer_context_scheme \<Rightarrow> 'a timer_context_scheme option"

text \<open>The CPU runs at 40 MHz, so a millisecond has 40000 ticks.\<close>

definition MILLIS_TO_TIMER_TICKS :: "u32 \<Rightarrow> u32" where
  "MILLIS_TO_TIMER_TICKS ms = ms * (40 * 1000)"

definition TIMER_IS_EARLIER :: "u32 \<Rightarrow> u32 \<Rightarrow> bool" where
  "TIMER_IS_EARLIER t1 t2 \<longleftrightarrow> sint (t1 - t2) \<le> 0"

definition upd_timer :: "addr \<Rightarrow> (cmnos_timer_t \<Rightarrow> cmnos_timer_t) \<Rightarrow> 'a timer_context_scheme \<Rightarrow> 'a timer_context_scheme" where
  "upd_timer t f s = s\<lparr>timers := (timers s)(t := f (timers s t))\<rparr>"

definition cmnos_timer_setfn :: "addr \<Rightarrow> addr \<Rightarrow> addr \<Rightarrow> 'a timer_context_scheme \<Rightarrow> 'a timer_context_scheme option" where
  "cmnos_timer_setfn t fn arg s = do {
     require (t \<noteq> NULL);
     Some (upd_timer t (\<lambda>x. x\<lparr>timer_next := NULL, timer_expire := 0, timer_function := fn, timer_arg := arg\<rparr>) s) }"

text \<open>The walk to the first armed timer that does not expire before the new one.\<close>

partial_function (option) arm_walk :: "u32 \<Rightarrow> addr \<Rightarrow> addr \<Rightarrow> 'a timer_context_scheme \<Rightarrow> (addr \<times> addr) option" where
  "arm_walk expire prev cur s =
     (if cur = NULL then Some (prev, cur)
      else if TIMER_IS_EARLIER expire (timer_expire (timers s cur)) then Some (prev, cur)
      else arm_walk expire cur (timer_next (timers s cur)) s)"

definition cmnos_timer_arm :: "(nat \<Rightarrow> u32) \<Rightarrow> addr \<Rightarrow> u32 \<Rightarrow> 'a timer_context_scheme \<Rightarrow> 'a timer_context_scheme option" where
  "cmnos_timer_arm NOW t milliseconds s = do {
     require (t \<noteq> NULL);
     let expire = NOW (nreads s) + MILLIS_TO_TIMER_TICKS milliseconds;
     let s = s\<lparr>nreads := Suc (nreads s)\<rparr>;
     (prev, cur) \<leftarrow> arm_walk expire NULL (timer_list s) s;
     let s = upd_timer t (\<lambda>x. x\<lparr>timer_next := cur, timer_expire := expire\<rparr>) s;
     if prev \<noteq> NULL then Some (upd_timer prev (timer_next_update (\<lambda>_. t)) s)
     else Some (s\<lparr>timer_list := t\<rparr>) }"

partial_function (option) disarm_walk :: "addr \<Rightarrow> addr \<Rightarrow> addr \<Rightarrow> 'a timer_context_scheme \<Rightarrow> (addr \<times> addr) option" where
  "disarm_walk t prev cur s =
     (if cur = NULL then Some (prev, cur)
      else if t = cur then Some (prev, cur)
      else disarm_walk t cur (timer_next (timers s cur)) s)"

definition cmnos_timer_disarm :: "addr \<Rightarrow> 'a timer_context_scheme \<Rightarrow> 'a timer_context_scheme option" where
  "cmnos_timer_disarm t s = do {
     require (t \<noteq> NULL);
     (prev, cur) \<leftarrow> disarm_walk t NULL (timer_list s) s;
     let s = (if cur \<noteq> NULL then
                if prev \<noteq> NULL then upd_timer prev (timer_next_update (\<lambda>_. timer_next (timers s cur))) s
                else s\<lparr>timer_list := timer_next (timers s cur)\<rparr>
              else s);
     Some (upd_timer t (\<lambda>x. x\<lparr>timer_next := NULL, timer_period := 0\<rparr>) s) }"

definition cmnos_timer_init :: "'a timer_context_scheme \<Rightarrow> 'a timer_context_scheme" where
  "cmnos_timer_init s = s\<lparr>timer_list := NULL\<rparr>"

text \<open>The counter is read once for every timer that is looked at.\<close>

partial_function (option) cmnos_timer_handler :: "(nat \<Rightarrow> u32) \<Rightarrow> 'a timer_func \<Rightarrow> 'a timer_context_scheme \<Rightarrow>
    'a timer_context_scheme option" where
  "cmnos_timer_handler NOW call s =
     (if timer_list s = NULL then Some s
      else if \<not> TIMER_IS_EARLIER (timer_expire (timers s (timer_list s))) (NOW (nreads s)) then Some (s\<lparr>nreads := Suc (nreads s)\<rparr>)
      else do {
        let s = s\<lparr>nreads := Suc (nreads s)\<rparr>;
        let t = timer_list s;
        let s = s\<lparr>timer_list := timer_next (timers s t)\<rparr>;
        let s = upd_timer t (timer_next_update (\<lambda>_. NULL)) s;
        s \<leftarrow> call (timer_function (timers s t)) t (timer_arg (timers s t)) s;
        cmnos_timer_handler NOW call s })"

section \<open>The list of armed timers\<close>

definition mlinks :: "(addr \<Rightarrow> cmnos_timer_t) \<Rightarrow> addr \<Rightarrow> addr option" where
  "mlinks f p = Some (timer_next (f p))"

definition armed :: "'a timer_context_scheme \<Rightarrow> addr list \<Rightarrow> bool" where
  "armed s ts \<longleftrightarrow> chain (mlinks (timers s)) (timer_list s) ts"

lemma mlinks_upd [simp]: "mlinks (f(t := x)) = (mlinks f)(t \<mapsto> timer_next x)"
  by (auto simp: mlinks_def)

lemma chain_ml_Cons: "chain (mlinks f) p (x # xs) \<longleftrightarrow> p = x \<and> x \<noteq> NULL \<and> chain (mlinks f) (timer_next (f x)) xs"
  by (simp add: mlinks_def [of f x])

lemma armedD:
  assumes "armed s ts"
  shows "distinct ts" "NULL \<notin> set ts" "timer_list s = NULL \<longleftrightarrow> ts = []"
  using assms chain_distinct chain_not_NULL by (auto simp: armed_def dest: chain_head)

text \<open>The expiry of the timers, and the timers in front of a new one.\<close>

abbreviation (input) expiry :: "'a timer_context_scheme \<Rightarrow> addr \<Rightarrow> u32" where
  "expiry s t \<equiv> timer_expire (timers s t)"

lemma arm_walk_list:
  assumes "chain (mlinks (timers s)) cur ts"
  shows "arm_walk e prev cur s = Some (last (prev # takeWhile (\<lambda>t. \<not> TIMER_IS_EARLIER e (expiry s t)) ts),
    hd (dropWhile (\<lambda>t. \<not> TIMER_IS_EARLIER e (expiry s t)) ts @ [NULL]))"
  using assms
proof (induction ts arbitrary: prev cur)
  case Nil
  then show ?case by (subst arm_walk.simps) simp
next
  case (Cons t ts)
  then have "cur = t" "t \<noteq> NULL" "chain (mlinks (timers s)) (timer_next (timers s t)) ts"
    by (auto simp: chain_ml_Cons simp del: chain.simps)
  then show ?case using Cons.IH by (subst arm_walk.simps) auto
qed

lemma disarm_walk_list:
  assumes "chain (mlinks (timers s)) cur ts"
  shows "disarm_walk t prev cur s = Some (last (prev # takeWhile (\<lambda>x. x \<noteq> t) ts), hd (dropWhile (\<lambda>x. x \<noteq> t) ts @ [NULL]))"
  using assms
proof (induction ts arbitrary: prev cur)
  case Nil
  then show ?case by (subst disarm_walk.simps) simp
next
  case (Cons u ts)
  then have "cur = u" "u \<noteq> NULL" "chain (mlinks (timers s)) (timer_next (timers s u)) ts"
    by (auto simp: chain_ml_Cons simp del: chain.simps)
  then show ?case using Cons.IH by (subst disarm_walk.simps) auto
qed

text \<open>The link of the last element in front of a split list is the head of the rest.\<close>

lemma chain_last_link: "chain (mlinks f) p (us @ ts) \<Longrightarrow> us \<noteq> [] \<Longrightarrow> timer_next (f (last us)) = hd (ts @ [NULL])"
proof (induction us arbitrary: p)
  case (Cons u us)
  then show ?case
    by (cases us; cases ts) (auto simp: chain_ml_Cons simp del: chain.simps(2))
qed simp

text \<open>Arming a timer that is not armed puts it in front of the first one that does not expire before it.\<close>

lemma arm_list:
  fixes NOW :: "nat \<Rightarrow> u32" and ms :: u32
  assumes "armed s ts" "t \<noteq> NULL" "t \<notin> set ts"
  defines "e \<equiv> NOW (nreads s) + MILLIS_TO_TIMER_TICKS ms"
  defines "P \<equiv> \<lambda>x. \<not> TIMER_IS_EARLIER e (expiry s x)"
  shows "\<exists>s'. cmnos_timer_arm NOW t ms s = Some s' \<and> armed s' (takeWhile P ts @ t # dropWhile P ts) \<and>
    expiry s' t = e \<and> (\<forall>x. x \<noteq> t \<longrightarrow> expiry s' x = expiry s x) \<and> nreads s' = Suc (nreads s) \<and>
    timer_context.more s' = timer_context.more s"
proof -
  define us vs where "us = takeWhile P ts" "vs = dropWhile P ts"
  then have ts: "ts = us @ vs" and uv: "takeWhile P ts = us" "dropWhile P ts = vs" by simp_all
  have c: "chain (mlinks (timers s)) (timer_list s) (us @ vs)" using assms(1) by (simp add: armed_def ts)
  have fr: "t \<notin> set us" "t \<notin> set vs" "NULL \<notin> set us"
    using assms(3) armedD [OF assms(1)] by (auto simp: ts)
  have w: "arm_walk e NULL (timer_list s) (s\<lparr>nreads := Suc (nreads s)\<rparr>) = Some (last (NULL # us), hd (vs @ [NULL]))"
    using arm_walk_list [of "s\<lparr>nreads := Suc (nreads s)\<rparr>" "timer_list s" ts e NULL] assms(1) uv
    by (simp add: armed_def P_def)
  show ?thesis
  proof (cases "us = []")
    case True
    have h: "hd (vs @ [NULL]) = timer_list s" using c True by (cases vs) simp_all
    have "chain ((mlinks (timers s))(t \<mapsto> timer_list s)) (timer_list s) vs"
      using c True fr by (subst chain_fun_upd_notin) simp_all
    then have "chain ((mlinks (timers s))(t \<mapsto> timer_list s)) t (t # vs)"
      using assms(2) by (intro chain_ConsI) simp_all
    then show ?thesis
      using w assms(2) unfolding uv
      by (simp add: True h cmnos_timer_arm_def require_def Let_def e_def armed_def upd_timer_def del: chain.simps)
  next
    case False
    then have u: "last us \<noteq> NULL" "last us \<noteq> t" using fr last_in_set [OF False] by metis+
    have q: "mlinks (timers s) (last us) = Some (hd (vs @ [NULL]))"
      using chain_last_link [OF c False] by (simp add: mlinks_def)
    have "chain ((mlinks (timers s))(t \<mapsto> hd (vs @ [NULL]), last us \<mapsto> t)) (timer_list s) (us @ t # vs)"
      using fr assms(2) by (intro chain_insert [OF c False q]) auto
    then show ?thesis
      using False u w assms(2) unfolding uv
      by (simp add: cmnos_timer_arm_def require_def Let_def e_def armed_def upd_timer_def del: chain.simps)
  qed
qed

text \<open>Disarming takes the timer out, if it is armed.\<close>

lemma disarm_list:
  assumes "armed s ts" "t \<noteq> NULL"
  shows "\<exists>s'. cmnos_timer_disarm t s = Some s' \<and> armed s' (remove1 t ts) \<and> (\<forall>x. expiry s' x = expiry s x)"
proof -
  define us vs where uv: "us = takeWhile (\<lambda>x. x \<noteq> t) ts" "vs = dropWhile (\<lambda>x. x \<noteq> t) ts"
  have ts: "ts = us @ vs" by (simp add: uv)
  have c: "chain (mlinks (timers s)) (timer_list s) (us @ vs)" using assms(1) by (simp add: armed_def ts)
  note d = armedD [OF assms(1)]
  have fr: "t \<notin> set us" "NULL \<notin> set us" using d(2) by (auto simp: uv dest: set_takeWhileD)
  have w: "disarm_walk t NULL (timer_list s) s = Some (last (NULL # us), hd (vs @ [NULL]))"
    using disarm_walk_list [of s "timer_list s" ts t NULL] assms(1) by (simp add: armed_def uv)
  show ?thesis
  proof (cases vs)
    case Nil
    then have "chain ((mlinks (timers s))(t \<mapsto> NULL)) (timer_list s) ts" "remove1 t ts = ts"
      using c fr ts by (simp_all add: chain_fun_upd_notin remove1_idem)
    then show ?thesis
      using w assms(2) Nil by (simp add: cmnos_timer_disarm_def require_def upd_timer_def armed_def)
  next
    case (Cons v vs')
    then have v: "v = t" using hd_dropWhile [of "\<lambda>x. x \<noteq> t" ts] by (simp add: uv)
    have r: "remove1 t ts = us @ vs'" using fr Cons v by (simp add: ts remove1_append)
    have tv: "t \<notin> set vs'" using d(1) Cons v by (simp add: ts)
    show ?thesis
    proof (cases "us = []")
      case True
      then have "chain ((mlinks (timers s))(t \<mapsto> NULL)) (timer_next (timers s t)) vs'"
        using c Cons v tv by (subst chain_fun_upd_notin) (simp_all add: mlinks_def [of _ t])
      then show ?thesis
        using True w r assms(2) Cons v
        by (simp add: cmnos_timer_disarm_def require_def upd_timer_def armed_def)
    next
      case False
      then have u: "last us \<noteq> NULL" "last us \<noteq> t" using fr last_in_set [OF False] by metis+
      have "chain ((mlinks (timers s))(last us \<mapsto> timer_next (timers s t))) (timer_list s) (us @ vs')"
        using c Cons v False by (intro chain_remove [of _ _ _ t]) (simp_all add: mlinks_def)
      then have "chain ((mlinks (timers s))(last us \<mapsto> timer_next (timers s t), t \<mapsto> NULL)) (timer_list s) (us @ vs')"
        using fr tv by (subst chain_fun_upd_notin) auto
      then show ?thesis
        using False u w r assms(2) Cons v
        by (simp add: cmnos_timer_disarm_def require_def upd_timer_def armed_def)
    qed
  qed
qed

section \<open>Order\<close>

text \<open>
  The times that count are those less than 2 ^ 31 ticks after some instant \<open>base\<close>; on these the comparison
  with wrap-around is the order of the distances from it.
\<close>

definition after :: "u32 \<Rightarrow> u32 \<Rightarrow> nat" where
  "after base x = unat (x - base)"

lemma uint_small: "unat (x :: u32) < 2 ^ 31 \<Longrightarrow> uint x < 2 ^ 31"
proof -
  assume "unat x < 2 ^ 31"
  then have "int (unat x) < int (2 ^ 31)" by (simp only: of_nat_less_iff)
  then show ?thesis by simp
qed

lemma sint_small: "unat (x :: u32) < 2 ^ 31 \<Longrightarrow> sint x = uint x"
  using uint_small [of x] signed_take_bit_int_eq_self [of 31 "uint x"] uint_ge_0 [of x]
  by (simp add: sint_uint)

lemma sint_diff_small:
  assumes "unat (x :: u32) < 2 ^ 31" "unat (y :: u32) < 2 ^ 31"
  shows "sint (x - y) = uint x - uint y"
proof -
  have "signed_take_bit 31 (uint x - uint y) = uint x - uint y"
    using uint_small [OF assms(1)] uint_small [OF assms(2)] uint_ge_0 [of x] uint_ge_0 [of y]
    by (intro signed_take_bit_int_eq_self) linarith+
  then show ?thesis
    using sint_small [OF assms(1)] sint_small [OF assms(2)] by (simp add: sint_word_ariths)
qed

lemma TIMER_IS_EARLIER_after:
  "after base x < 2 ^ 31 \<Longrightarrow> after base y < 2 ^ 31 \<Longrightarrow> TIMER_IS_EARLIER x y \<longleftrightarrow> after base x \<le> after base y"
  using sint_diff_small [of "x - base" "y - base"] by (simp add: TIMER_IS_EARLIER_def after_def word_le_nat_alt [symmetric] word_le_def)

definition in_order :: "u32 \<Rightarrow> 'a timer_context_scheme \<Rightarrow> addr list \<Rightarrow> bool" where
  "in_order base s ts \<longleftrightarrow> sorted (map (\<lambda>t. after base (expiry s t)) ts) \<and> (\<forall>t \<in> set ts. after base (expiry s t) < 2 ^ 31)"

lemma insort_key_split:
  "insort_key f x xs = takeWhile (\<lambda>y. \<not> f x \<le> f y) xs @ x # dropWhile (\<lambda>y. \<not> f x \<le> f y) xs"
  by (induction xs) auto

lemma insort_key_cong: "(\<And>y. y \<in> set xs \<Longrightarrow> f y = g y) \<Longrightarrow> f x = g x \<Longrightarrow> insort_key f x xs = insort_key g x xs"
  by (induction xs) auto

lemma arm_in_order:
  fixes NOW :: "nat \<Rightarrow> u32" and ms :: u32
  assumes "armed s ts" "t \<noteq> NULL" "t \<notin> set ts" "in_order base s ts"
    "after base (NOW (nreads s) + MILLIS_TO_TIMER_TICKS ms) < 2 ^ 31"
  shows "\<exists>s'. cmnos_timer_arm NOW t ms s = Some s' \<and> in_order base s' (insort_key (\<lambda>x. after base (expiry s' x)) t ts) \<and>
    armed s' (insort_key (\<lambda>x. after base (expiry s' x)) t ts) \<and> expiry s' t = NOW (nreads s) + MILLIS_TO_TIMER_TICKS ms"
proof -
  let ?e = "NOW (nreads s) + MILLIS_TO_TIMER_TICKS ms"
  let ?P = "\<lambda>x. \<not> TIMER_IS_EARLIER ?e (expiry s x)"
  obtain s' where s': "cmnos_timer_arm NOW t ms s = Some s'" "armed s' (takeWhile ?P ts @ t # dropWhile ?P ts)"
    "expiry s' t = ?e" "\<And>x. x \<noteq> t \<Longrightarrow> expiry s' x = expiry s x"
    using arm_list [OF assms(1-3), of NOW ms] by blast
  let ?f = "\<lambda>x. after base (expiry s' x)"
  have P: "?P x = (\<not> ?f t \<le> ?f x)" if "x \<in> set ts" for x
  proof -
    have "x \<noteq> t" using assms(3) that by auto
    then show ?thesis
      using assms(4,5) that s'(3) s'(4) [of x] TIMER_IS_EARLIER_after [of base ?e "expiry s x"]
      by (simp add: in_order_def)
  qed
  have "insort_key ?f t ts = takeWhile ?P ts @ t # dropWhile ?P ts"
    unfolding insort_key_split using P by (simp cong: takeWhile_cong dropWhile_cong)
  moreover have "in_order base s' (insort_key ?f t ts)"
  proof -
    have eq: "map ?f ts = map (\<lambda>x. after base (expiry s x)) ts"
      by (intro map_cong refl arg_cong [where f = "after base"] s'(4)) (use assms(3) in auto)
    have "sorted (map ?f ts)" unfolding eq using assms(4) by (simp add: in_order_def)
    moreover have "?f x < 2 ^ 31" if "x \<in> set ts" for x
      using that assms(3,4) s'(4) by (metis in_order_def)
    ultimately show ?thesis
      using assms(5) s'(3) by (auto simp: in_order_def set_insort_key sorted_insort_key)
  qed
  ultimately show ?thesis using s'(1-3) by auto
qed

section \<open>The handler\<close>

text \<open>Functions that leave the timers alone; \<open>eff\<close> is what they do to the rest of the state.\<close>

definition lift_timer :: "(addr \<Rightarrow> addr \<Rightarrow> addr \<Rightarrow> 'a \<Rightarrow> 'a option) \<Rightarrow> 'a timer_func" where
  "lift_timer eff fn t arg s = map_option (\<lambda>m. timer_context.more_update (\<lambda>_. m) s) (eff fn t arg (timer_context.more s))"

text \<open>How many timers of the list are due when the counter is read anew for each.\<close>

fun due :: "(nat \<Rightarrow> u32) \<Rightarrow> nat \<Rightarrow> (addr \<Rightarrow> cmnos_timer_t) \<Rightarrow> addr list \<Rightarrow> addr list" where
  "due NOW n f [] = []"
| "due NOW n f (t # ts) = (if TIMER_IS_EARLIER (timer_expire (f t)) (NOW n) then t # due NOW (Suc n) f ts else [])"

lemma unlinked_code [simp]:
  "timer_function ((f(t := (f t)\<lparr>timer_next := NULL\<rparr>)) x) = timer_function (f x)"
  "timer_arg ((f(t := (f t)\<lparr>timer_next := NULL\<rparr>)) x) = timer_arg (f x)"
  "timer_expire ((f(t := (f t)\<lparr>timer_next := NULL\<rparr>)) x) = timer_expire (f x)"
  by simp_all

lemma due_cong: "(\<And>t. t \<in> set ts \<Longrightarrow> timer_expire (f t) = timer_expire (g t)) \<Longrightarrow> due NOW n f ts = due NOW n g ts"
  by (induction ts arbitrary: n) auto

lemma due_unlink [simp]: "due NOW n (f(t := (f t)\<lparr>timer_next := NULL\<rparr>)) ts = due NOW n f ts"
  by (rule due_cong) simp

lemma due_prefix: "due NOW n f ts @ drop (length (due NOW n f ts)) ts = ts"
  by (induction ts arbitrary: n) auto

definition unlink :: "addr list \<Rightarrow> (addr \<Rightarrow> cmnos_timer_t) \<Rightarrow> addr \<Rightarrow> cmnos_timer_t" where
  "unlink ds f t = (if t \<in> set ds then (f t)\<lparr>timer_next := NULL\<rparr> else f t)"

lemma unlink_simps [simp]: "unlink [] f = f"
  "timer_function (unlink ds f t) = timer_function (f t)" "timer_arg (unlink ds f t) = timer_arg (f t)"
  "timer_expire (unlink ds f t) = timer_expire (f t)"
  by (simp_all add: unlink_def fun_eq_iff)

lemma unlink_Cons: "unlink ds (f(t := (f t)\<lparr>timer_next := NULL\<rparr>)) = unlink (t # ds) f"
  by (auto simp: unlink_def fun_eq_iff)

lemma handler_list:
  fixes s :: "'a timer_context_scheme" and NOW :: "nat \<Rightarrow> u32"
  assumes "armed s ts"
  shows "cmnos_timer_handler NOW (lift_timer eff) s =
      map_option (\<lambda>m. \<lparr>timers = unlink (due NOW (nreads s) (timers s) ts) (timers s),
          timer_list = hd (drop (length (due NOW (nreads s) (timers s) ts)) ts @ [NULL]),
          nreads = nreads s + length (due NOW (nreads s) (timers s) ts) +
            (if due NOW (nreads s) (timers s) ts = ts then 0 else 1), \<dots> = m\<rparr>)
        (foldM (\<lambda>m t. eff (timer_function (timers s t)) t (timer_arg (timers s t)) m) (timer_context.more s)
          (due NOW (nreads s) (timers s) ts))"
  using assms(1)
proof (induction ts arbitrary: s)
  case Nil
  then show ?case by (subst cmnos_timer_handler.simps) (cases s; simp add: armed_def)
next
  case (Cons t ts)
  let ?t = "(timers s t)\<lparr>timer_next := NULL\<rparr>"
  define s1 where "s1 m = \<lparr>timers = (timers s)(t := ?t), timer_list = timer_next (timers s t), nreads = Suc (nreads s), \<dots> = m\<rparr>"
    for m :: 'a
  have hd: "timer_list s = t" "t \<noteq> NULL" using Cons.prems by (auto simp: armed_def)
  have step: "cmnos_timer_handler NOW (lift_timer eff) s =
      (if TIMER_IS_EARLIER (expiry s t) (NOW (nreads s)) then do {
         m \<leftarrow> eff (timer_function (timers s t)) t (timer_arg (timers s t)) (timer_context.more s);
         cmnos_timer_handler NOW (lift_timer eff) (s1 m) }
       else Some (s\<lparr>nreads := Suc (nreads s)\<rparr>))"
    using hd by (subst cmnos_timer_handler.simps)
      (auto simp: lift_timer_def upd_timer_def s1_def Let_def map_option_case intro!: arg_cong [where f = "cmnos_timer_handler _ _"]
        split: option.split)
  have wf: "armed (s1 m) ts" for m
    using Cons.prems armedD(1) [OF Cons.prems] by (auto simp: armed_def s1_def mlinks_def [of _ t] chain_fun_upd_notin)
  show ?case
    using Cons.IH [OF wf] hd unfolding step
    by (cases s) (simp add: s1_def unlink_Cons map_option_bind comp_def del: fun_upd_apply)
qed

text \<open>With the list in order and one reading for all, the timers that are due are the ones that have expired.\<close>

lemma due_const:
  assumes "in_order base s ts" "after base now < 2 ^ 31"
  shows "due (\<lambda>_. now) n (timers s) ts = filter (\<lambda>t. after base (expiry s t) \<le> after base now) ts \<and>
    drop (length (due (\<lambda>_. now) n (timers s) ts)) ts = filter (\<lambda>t. after base now < after base (expiry s t)) ts"
  using assms
proof (induction ts arbitrary: n)
  case (Cons t ts)
  have o: "in_order base s ts" "after base (expiry s t) < 2 ^ 31" "\<forall>x \<in> set ts. after base (expiry s t) \<le> after base (expiry s x)"
    using Cons.prems(1) by (auto simp: in_order_def)
  have e: "TIMER_IS_EARLIER (expiry s t) now \<longleftrightarrow> after base (expiry s t) \<le> after base now"
    using o(2) Cons.prems(2) by (rule TIMER_IS_EARLIER_after)
  have "filter (\<lambda>t. after base (expiry s t) \<le> after base now) ts = []"
    "filter (\<lambda>t. after base now < after base (expiry s t)) ts = ts" if "\<not> after base (expiry s t) \<le> after base now"
    using that o(3) by (auto simp: filter_empty_conv filter_id_conv)
  then show ?case using Cons.IH [OF o(1) Cons.prems(2), of "Suc n"] e by auto
qed simp

lemma handler_armed:
  assumes "armed s ts" "cmnos_timer_handler NOW (lift_timer eff) s = Some s'"
  shows "armed s' (drop (length (due NOW (nreads s) (timers s) ts)) ts)"
proof -
  let ?ds = "due NOW (nreads s) (timers s) ts"
  let ?rs = "drop (length ?ds) ts"
  have s': "timers s' = unlink ?ds (timers s)" "timer_list s' = hd (?rs @ [NULL])"
    using assms(2) unfolding handler_list [OF assms(1)] by auto
  have ts: "ts = ?ds @ ?rs" by (simp add: due_prefix)
  have d: "set ?ds \<inter> set ?rs = {}" using armedD(1) [OF assms(1)] by (subst (asm) ts) (simp only: distinct_append)
  have "chain (mlinks (unlink ?ds (timers s))) p ?rs = chain (mlinks (timers s)) p ?rs" for p
    using d by (intro chain_cong) (auto simp: mlinks_def unlink_def)
  moreover have "chain (mlinks (timers s)) (hd (?rs @ [NULL])) ?rs"
  proof (cases ?rs)
    case (Cons r rs)
    then have "chain (mlinks (timers s)) (timer_list s) (?ds @ r # rs)" using assms(1) ts by (simp add: armed_def)
    then show ?thesis using Cons chain_append by (simp del: chain.simps)
  qed simp
  ultimately show ?thesis using s' by (simp add: armed_def)
qed

section \<open>Properties\<close>

definition timers0 :: "addr list timer_context_scheme" where
  "timers0 = \<lparr>timers = (\<lambda>t. if t = 0x10 then \<lparr>timer_next = 0x20, timer_expire = 0xFFFFFFF0, timer_period = 0, timer_function = 1, timer_arg = 7\<rparr>
       else if t = 0x20 then \<lparr>timer_next = NULL, timer_expire = 100000, timer_period = 0, timer_function = 2, timer_arg = 8\<rparr>
       else \<lparr>timer_next = NULL, timer_expire = 0, timer_period = 0, timer_function = 3, timer_arg = 9\<rparr>),
     timer_list = 0x10, nreads = 0, \<dots> = []\<rparr>"

lemma timers0_armed: "armed timers0 [0x10, 0x20]" "in_order 0xFFFFFF00 timers0 [0x10, 0x20]" "nreads timers0 = 0"
  by (simp_all add: armed_def timers0_def mlinks_def in_order_def after_def)

text \<open>
  Property C33. Arming a timer puts it into the list of armed timers at the place of its expiry, before the
  timers that expire at the same time, and the list stays in order, across the wrap-around of the cycle
  counter, as long as all the times lie within 2^31 ticks.
\<close>

theorem cmnos_timer_arm_keeps_order:
  fixes NOW :: "nat \<Rightarrow> u32" and ms :: u32
  assumes "armed s ts" "t \<noteq> NULL" "t \<notin> set ts" "in_order base s ts"
    "after base (NOW (nreads s) + MILLIS_TO_TIMER_TICKS ms) < 2 ^ 31"
  shows "\<exists>s'. cmnos_timer_arm NOW t ms s = Some s' \<and> expiry s' t = NOW (nreads s) + MILLIS_TO_TIMER_TICKS ms \<and>
    armed s' (insort_key (\<lambda>x. after base (expiry s' x)) t ts) \<and>
    in_order base s' (insort_key (\<lambda>x. after base (expiry s' x)) t ts)"
  using arm_in_order [where NOW = NOW and ms = ms, OF assms] by blast

theorem cmnos_timer_arm_keeps_order_witness:
  "\<exists>s'. cmnos_timer_arm (\<lambda>_. 0xFFFFFF00) 0x30 1 timers0 = Some s' \<and> expiry s' 0x30 = 0xFFFFFF00 + MILLIS_TO_TIMER_TICKS 1 \<and>
    armed s' (insort_key (\<lambda>x. after 0xFFFFFF00 (expiry s' x)) 0x30 [0x10, 0x20]) \<and>
    in_order 0xFFFFFF00 s' (insort_key (\<lambda>x. after 0xFFFFFF00 (expiry s' x)) 0x30 [0x10, 0x20])"
  by (rule cmnos_timer_arm_keeps_order [where NOW = "\<lambda>_. 0xFFFFFF00", OF timers0_armed(1) _ _ timers0_armed(2)])
    (simp_all add: after_def MILLIS_TO_TIMER_TICKS_def)

text \<open>
  Property C34. The handler calls the functions of exactly the armed timers that have expired, each once, the
  earliest first, and leaves the others armed in their order, when the clock does not move while it runs and the
  functions leave the timers alone.
\<close>

theorem cmnos_timer_handler_fires_expired:
  fixes s :: "'a timer_context_scheme"
  assumes "armed s ts" "in_order base s ts" "after base now < 2 ^ 31"
  shows "map_option timer_context.more (cmnos_timer_handler (\<lambda>_. now) (lift_timer eff) s) =
      foldM (\<lambda>m t. eff (timer_function (timers s t)) t (timer_arg (timers s t)) m) (timer_context.more s)
        (filter (\<lambda>t. after base (expiry s t) \<le> after base now) ts) \<and>
    pred_option (\<lambda>s'. armed s' (filter (\<lambda>t. after base now < after base (expiry s t)) ts))
      (cmnos_timer_handler (\<lambda>_. now) (lift_timer eff) s)"
proof -
  note d = due_const [OF assms(2,3), of "nreads s"]
  have "pred_option (\<lambda>s'. armed s' (filter (\<lambda>t. after base now < after base (expiry s t)) ts))
      (cmnos_timer_handler (\<lambda>_. now) (lift_timer eff) s)"
    using handler_armed [OF assms(1), of "\<lambda>_. now" eff] d by (auto simp: pred_option_def)
  then show ?thesis
    unfolding handler_list [OF assms(1)] by (simp add: d option.map_comp comp_def option.map_ident)
qed

theorem cmnos_timer_handler_fires_expired_witness:
  "map_option timer_context.more (cmnos_timer_handler (\<lambda>_. 16) (lift_timer (\<lambda>f t a xs. Some (xs @ [t]))) timers0) = Some [0x10]"
  using cmnos_timer_handler_fires_expired [OF timers0_armed(1,2), of 16 "\<lambda>f t a xs. Some (xs @ [t])"]
  by (simp add: after_def) (simp add: timers0_def)

text \<open>A walk that starts at a timer linked to itself does not come back.\<close>

lemma arm_walk_loop:
  assumes "t \<noteq> NULL" "timer_next (timers s t) = t" "\<not> TIMER_IS_EARLIER e (expiry s t)"
  shows "arm_walk e prev t s = None"
proof -
  have "\<not> (cur = t \<and> s' = s \<and> e' = e)" if "arm_walk e' prev cur s' = Some r" for e' prev cur s' r
    using that
  proof (rule arm_walk.raw_induct [where P = "\<lambda>e' prev cur s' r. \<not> (cur = t \<and> s' = s \<and> e' = e)", rotated], goal_cases)
    case (1 f e' prev cur s' r)
    then show ?case using assms by (auto split: if_split_asm)
  qed
  then show ?thesis by (metis not_None_eq)
qed

text \<open>
  Property C35. Arming a timer that is armed already and first in the list, for a time not after its old one or
  not after that of the second timer (or for any time when there is no second one), links it to itself; arming a
  timer for a later time then never returns.
\<close>

theorem cmnos_timer_rearm_loops:
  fixes NOW :: "nat \<Rightarrow> u32" and ms :: u32
  assumes "armed s (t # ts)" "e = NOW (nreads s) + MILLIS_TO_TIMER_TICKS ms"
    "TIMER_IS_EARLIER e (expiry s t) \<or> ts = [] \<or> TIMER_IS_EARLIER e (expiry s (hd ts))"
    "\<not> TIMER_IS_EARLIER (NOW (Suc (nreads s)) + MILLIS_TO_TIMER_TICKS ms') e"
  shows "\<exists>s'. cmnos_timer_arm NOW t ms s = Some s' \<and> timer_next (timers s' t) = t \<and> cmnos_timer_arm NOW u ms' s' = None"
proof -
  have t: "timer_list s = t" "t \<noteq> NULL" "chain (mlinks (timers s)) (timer_next (timers s t)) ts"
    using assms(1) by (auto simp: armed_def mlinks_def)
  let ?s' = "upd_timer t (\<lambda>x. x\<lparr>timer_next := t, timer_expire := e\<rparr>) (s\<lparr>nreads := Suc (nreads s)\<rparr>)"
  have "timer_list ?s' = t" using t(1) by (simp add: upd_timer_def)
  moreover have "cmnos_timer_arm NOW t ms s = Some ?s'"
  proof (cases "TIMER_IS_EARLIER e (expiry s t)")
    case True
    then show ?thesis
      using t by (subst cmnos_timer_arm_def, subst arm_walk.simps) (simp add: require_def upd_timer_def assms(2) [symmetric])
  next
    case False
    then have "\<exists>cur. arm_walk e NULL t s = Some (t, cur)"
      using t assms(3) arm_walk_list [of s t "t # ts" e NULL] by (cases ts) (auto simp: mlinks_def)
    then obtain cur where "arm_walk e NULL t (s\<lparr>nreads := Suc (nreads s)\<rparr>) = Some (t, cur)"
      using t assms(1,3) False arm_walk_list [of "s\<lparr>nreads := Suc (nreads s)\<rparr>" t "t # ts" e NULL]
      by (cases ts) (auto simp: mlinks_def armed_def)
    then show ?thesis
      using t by (cases "timers s t") (simp add: cmnos_timer_arm_def require_def upd_timer_def assms(2) [symmetric])
  qed
  moreover have "cmnos_timer_arm NOW u ms' ?s' = None"
    using t assms(4) arm_walk_loop [of t "?s'\<lparr>nreads := Suc (Suc (nreads s))\<rparr>" "NOW (Suc (nreads s)) + MILLIS_TO_TIMER_TICKS ms'" NULL]
    by (simp add: cmnos_timer_arm_def require_def upd_timer_def)
  ultimately show ?thesis by (simp add: upd_timer_def)
qed

theorem cmnos_timer_rearm_loops_witness:
  "\<exists>s'. cmnos_timer_arm (\<lambda>_. 0xFFFF0000) 0x10 1 timers0 = Some s' \<and> timer_next (timers s' 0x10) = 0x10 \<and>
    cmnos_timer_arm (\<lambda>_. 0xFFFF0000) 0x30 2 s' = None"
  by (rule cmnos_timer_rearm_loops [OF timers0_armed(1) refl, where NOW = "\<lambda>_. 0xFFFF0000"])
    (simp_all add: timers0_def TIMER_IS_EARLIER_def MILLIS_TO_TIMER_TICKS_def)

end
