(* ===== verification/Dma_Engine.thy ===== *)
theory Dma_Engine
  imports Cmnos_List
begin

text \<open>
  The DMA engine of the ROM (\<^verbatim>\<open>dma_engine.c\<close>, \<^verbatim>\<open>desc.c\<close>): queues of hardware descriptors between the
  firmware and the USB controller. A hardware descriptor is the buffer \<^verbatim>\<open>hw_desc_buf\<close> inside a
  \<^verbatim>\<open>VDESC\<close>, 16 bytes behind its start; the map \<open>hwd\<close> holds these buffers with the fields the engine
  gives them. A queue ends in a terminator: a descriptor that belongs to the firmware and into which the first
  descriptor of the next packet is copied, which then becomes the terminator itself.
\<close>

section \<open>State\<close>

record zsDmaDesc =
  dctrl :: u16
  dstatus :: u16
  totalLen :: u16
  dataSize :: u16
  lastAddr :: addr
  dataAddr :: addr
  nextAddr :: addr

record zsDmaQueue =
  qhead :: addr
  terminator :: addr

record zsTxDmaQueue = zsDmaQueue +
  xmited_buf_head :: addr
  xmited_buf_tail :: addr

record dma =
  fw :: fw_mem
  hwd :: "addr \<Rightarrow> zsDmaDesc"

abbreviation (input) ZM_OWN_BITS_MASK :: u16 where "ZM_OWN_BITS_MASK \<equiv> 0x3"
abbreviation (input) ZM_OWN_BITS_SW :: u16 where "ZM_OWN_BITS_SW \<equiv> 0x0"
abbreviation (input) ZM_OWN_BITS_HW :: u16 where "ZM_OWN_BITS_HW \<equiv> 0x1"
abbreviation (input) ZM_OWN_BITS_SE :: u16 where "ZM_OWN_BITS_SE \<equiv> 0x2"
abbreviation (input) ZM_LS_BIT :: u16 where "ZM_LS_BIT \<equiv> 0x100"
abbreviation (input) ZM_FS_BIT :: u16 where "ZM_FS_BIT \<equiv> 0x200"

definition VDESC_HW_TO_VDESC :: "addr \<Rightarrow> addr" where
  "VDESC_HW_TO_VDESC p = p - 16"

definition VDESC_TO_USBDESC :: "addr \<Rightarrow> addr" where
  "VDESC_TO_USBDESC v = v + 16"

definition upd_hwd :: "addr \<Rightarrow> (zsDmaDesc \<Rightarrow> zsDmaDesc) \<Rightarrow> 'a dma_scheme \<Rightarrow> 'a dma_scheme" where
  "upd_hwd p f s = s\<lparr>hwd := (hwd s)(p := f (hwd s p))\<rparr>"

definition init_usb_desc :: "addr \<Rightarrow> 'a dma_scheme \<Rightarrow> 'a dma_scheme" where
  "init_usb_desc p s = upd_hwd p (\<lambda>_. \<lparr>dctrl = 0, dstatus = ZM_OWN_BITS_SW, totalLen = 0, dataSize = 0, lastAddr = NULL,
     dataAddr = 0, nextAddr = NULL\<rparr>) s"

section \<open>Queues of descriptors\<close>

text \<open>The descriptors from \<open>tmp\<close> to the last of the packet become the hardware's.\<close>

partial_function (option) mark_chain :: "(zsDmaDesc \<Rightarrow> zsDmaDesc) \<Rightarrow> addr \<Rightarrow> addr \<Rightarrow> 'a dma_scheme \<Rightarrow> 'a dma_scheme option" where
  "mark_chain f desc tmp s = do {
     let s = upd_hwd tmp f s;
     if lastAddr (hwd s desc) = tmp then Some s
     else mark_chain f desc (nextAddr (hwd s tmp)) s }"

definition set_own :: "u16 \<Rightarrow> u16" where
  "set_own x = x OR ZM_OWN_BITS_HW"

definition clear_own :: "u16 \<Rightarrow> u16" where
  "clear_own x = x AND NOT ZM_OWN_BITS_MASK"

text \<open>The terminator takes over the first descriptor of the packet, which becomes the new terminator.\<close>

definition swap_terminator :: "'q zsDmaQueue_scheme \<Rightarrow> addr \<Rightarrow> 'a dma_scheme \<Rightarrow> ('q zsDmaQueue_scheme \<times> 'a dma_scheme) option" where
  "swap_terminator q desc s = do {
     let tdesc = hwd s desc;
     let s = upd_hwd desc (dstatus_update clear_own) s;
     let tdesc = dstatus_update clear_own tdesc;
     m \<leftarrow> vdesc_swap_vdesc (VDESC_HW_TO_VDESC (terminator q)) (VDESC_HW_TO_VDESC desc) (fw s);
     let s = upd_hwd (terminator q) (\<lambda>_. tdesc) (s\<lparr>fw := m\<rparr>);
     let s = upd_hwd (terminator q) (dstatus_update set_own) s;
     Some (q\<lparr>terminator := desc\<rparr>, s) }"

definition zfDmaReclaimPacket :: "'q zsDmaQueue_scheme \<Rightarrow> addr \<Rightarrow> 'a dma_scheme \<Rightarrow> ('q zsDmaQueue_scheme \<times> 'a dma_scheme) option" where
  "zfDmaReclaimPacket q desc s = do {
     s \<leftarrow> mark_chain (\<lambda>d. d\<lparr>dstatus := ZM_OWN_BITS_HW, dctrl := 0, totalLen := 0\<rparr>) desc desc s;
     let s = upd_hwd (lastAddr (hwd s desc)) (nextAddr_update (\<lambda>_. desc)) s;
     swap_terminator q desc s }"

definition zfDmaPutPacket :: "'q zsDmaQueue_scheme \<Rightarrow> addr \<Rightarrow> 'a dma_scheme \<Rightarrow> ('q zsDmaQueue_scheme \<times> 'a dma_scheme) option" where
  "zfDmaPutPacket q desc s = do {
     s \<leftarrow> mark_chain (dstatus_update (\<lambda>x. set_own (clear_own x))) desc desc s;
     let s = upd_hwd (lastAddr (hwd s desc)) (nextAddr_update (\<lambda>_. desc)) s;
     let s = (if lastAddr (hwd s desc) = desc then upd_hwd desc (lastAddr_update (\<lambda>_. terminator q)) s else s);
     swap_terminator q desc s }"

text \<open>The head of the queue, when the hardware is done with it, and NULL otherwise.\<close>

definition zfDmaGetPacket :: "'q zsDmaQueue_scheme \<Rightarrow> 'a dma_scheme \<Rightarrow> addr \<times> 'q zsDmaQueue_scheme" where
  "zfDmaGetPacket q s =
     (let own = dstatus (hwd s (qhead q)) AND ZM_OWN_BITS_MASK
      in if qhead q = terminator q then (NULL, q)
         else if own = ZM_OWN_BITS_SW \<or> own = ZM_OWN_BITS_SE
         then (qhead q, q\<lparr>qhead := nextAddr (hwd s (lastAddr (hwd s (qhead q))))\<rparr>)
         else (NULL, q))"

section \<open>Start\<close>

definition DMAengine_init_rx_queue :: "'q zsDmaQueue_scheme \<Rightarrow> 'a dma_scheme \<Rightarrow> ('q zsDmaQueue_scheme \<times> 'a dma_scheme) option" where
  "DMAengine_init_rx_queue q s = do {
     (desc, m) \<leftarrow> vdesc_alloc_desc (fw s);
     let s = s\<lparr>fw := m\<rparr>;
     if desc \<noteq> NULL then
       let p = VDESC_TO_USBDESC desc in Some (q\<lparr>qhead := p, terminator := p\<rparr>, init_usb_desc p s)
     else Some (q, s) }"

definition DMAengine_init_tx_queue :: "'q zsTxDmaQueue_scheme \<Rightarrow> 'a dma_scheme \<Rightarrow> ('q zsTxDmaQueue_scheme \<times> 'a dma_scheme) option" where
  "DMAengine_init_tx_queue q s = do {
     (q, s) \<leftarrow> DMAengine_init_rx_queue q s;
     Some (q\<lparr>xmited_buf_head := NULL, xmited_buf_tail := NULL\<rparr>, s) }"

text \<open>
  The descriptors of a chain are initialised and linked; the result is the first and the last hardware
  descriptor. \<open>fill\<close> writes what the direction needs.
\<close>

partial_function (option) config_walk :: "addr \<Rightarrow> addr option \<Rightarrow> addr option \<Rightarrow> 'a dma_scheme \<Rightarrow>
    (addr option \<times> addr option \<times> 'a dma_scheme) option" where
  "config_walk theDesc h prev s =
     (if theDesc = NULL then Some (h, prev, s)
      else do {
        v \<leftarrow> rd_vdesc (fw s) theDesc;
        let p = VDESC_TO_USBDESC theDesc;
        let s = init_usb_desc p s;
        m \<leftarrow> upd_vdesc theDesc (data_offset_update (\<lambda>_. 0)) (fw s);
        let s = upd_hwd p (\<lambda>d. d\<lparr>dataAddr := buf_addr v, dataSize := buf_size v\<rparr>) (s\<lparr>fw := m\<rparr>);
        case prev of
          None \<Rightarrow> config_walk (next_desc v) (Some p) (Some p) s
        | Some pr \<Rightarrow> config_walk (next_desc v) h (Some p) (upd_hwd pr (nextAddr_update (\<lambda>_. p)) s) })"

definition config_queue :: "'q zsDmaQueue_scheme \<Rightarrow> addr \<Rightarrow> 'a dma_scheme \<Rightarrow> ('q zsDmaQueue_scheme \<times> 'a dma_scheme) option" where
  "config_queue q theDesc s = do {
     (h, prev, s) \<leftarrow> config_walk theDesc None None s;
     headUsbDesc \<leftarrow> h;
     pr \<leftarrow> prev;
     zfDmaReclaimPacket q headUsbDesc (upd_hwd headUsbDesc (lastAddr_update (\<lambda>_. pr)) s) }"

definition DMAengine_return_recv_buf :: "'q zsDmaQueue_scheme \<Rightarrow> addr \<Rightarrow> 'a dma_scheme \<Rightarrow> ('q zsDmaQueue_scheme \<times> 'a dma_scheme) option" where
  "DMAengine_return_recv_buf q buf s = do {
     b \<leftarrow> rd_vbuf (fw s) buf;
     (q, s) \<leftarrow> config_queue q (desc_list b) s;
     m \<leftarrow> vbuf_free_vbuf buf (fw s);
     Some (q, s\<lparr>fw := m\<rparr>) }"

text \<open>Each new descriptor has its own data buffer and goes in front of the earlier ones.\<close>

fun alloc_descs :: "nat \<Rightarrow> u16 \<Rightarrow> addr \<Rightarrow> fw_mem \<Rightarrow> (addr \<times> fw_mem) option" where
  "alloc_descs 0 buf_sz h m = Some (h, m)"
| "alloc_descs (Suc n) buf_sz h m = do {
     (desc, m) \<leftarrow> vdesc_alloc_desc m;
     require (desc \<noteq> NULL);
     (a, m) \<leftarrow> cmnos_allocram (ucast buf_sz) m;
     m \<leftarrow> upd_vdesc desc (\<lambda>d. d\<lparr>buf_addr := a, buf_size := buf_sz, next_desc := h, data_offset := 0, data_size := 0,
            control := 0\<rparr>) m;
     alloc_descs n buf_sz desc m }"

definition DMAengine_config_rx_queue :: "'q zsDmaQueue_scheme \<Rightarrow> nat \<Rightarrow> u16 \<Rightarrow> 'a dma_scheme \<Rightarrow>
    ('q zsDmaQueue_scheme \<times> 'a dma_scheme) option" where
  "DMAengine_config_rx_queue q num_desc buf_sz s = do {
     (h, m) \<leftarrow> alloc_descs num_desc buf_sz NULL (fw s);
     config_queue q h (s\<lparr>fw := m\<rparr>) }"

section \<open>Sending\<close>

text \<open>As in \<^const>\<open>config_walk\<close>, with the data the descriptors describe; the first carries the length of the packet.\<close>

partial_function (option) xmit_walk :: "u16 \<Rightarrow> addr \<Rightarrow> addr option \<Rightarrow> addr option \<Rightarrow> 'a dma_scheme \<Rightarrow>
    (addr option \<times> addr option \<times> 'a dma_scheme) option" where
  "xmit_walk len cur h prev s =
     (if cur = NULL then Some (h, prev, s)
      else do {
        v \<leftarrow> rd_vdesc (fw s) cur;
        let p = VDESC_TO_USBDESC cur;
        let s = init_usb_desc p s;
        let s = upd_hwd p (\<lambda>d. d\<lparr>dataSize := data_size v, dataAddr := buf_addr v + ucast (data_offset v), dctrl := 0, dstatus := 0\<rparr>) s;
        case prev of
          None \<Rightarrow> xmit_walk len (next_desc v) (Some p) (Some p)
                    (upd_hwd p (\<lambda>d. d\<lparr>dctrl := dctrl d OR ZM_FS_BIT, totalLen := len\<rparr>) s)
        | Some pr \<Rightarrow> xmit_walk len (next_desc v) h (Some p) (upd_hwd pr (nextAddr_update (\<lambda>_. p)) s) })"

definition DMAengine_xmit_buf :: "'q zsTxDmaQueue_scheme \<Rightarrow> addr \<Rightarrow> 'a dma_scheme \<Rightarrow> ('q zsTxDmaQueue_scheme \<times> 'a dma_scheme) option" where
  "DMAengine_xmit_buf q buf s = do {
     b \<leftarrow> rd_vbuf (fw s) buf;
     (h, l, s) \<leftarrow> xmit_walk (buf_length b) (desc_list b) None None s;
     headUsbDesc \<leftarrow> h;
     usb \<leftarrow> l;
     let s = upd_hwd usb (dctrl_update (\<lambda>x. x OR ZM_LS_BIT)) s;
     let s = upd_hwd headUsbDesc (lastAddr_update (\<lambda>_. usb)) s;
     (q, m) \<leftarrow> (if xmited_buf_head q = NULL \<and> xmited_buf_tail q = NULL then do {
                 m \<leftarrow> upd_vbuf buf (next_buf_update (\<lambda>_. buf)) (fw s);
                 Some (q\<lparr>xmited_buf_head := buf, xmited_buf_tail := buf\<rparr>, m) }
               else do {
                 m \<leftarrow> upd_vbuf (xmited_buf_tail q) (next_buf_update (\<lambda>_. buf)) (fw s);
                 Some (q\<lparr>xmited_buf_tail := buf\<rparr>, m) });
     zfDmaPutPacket q headUsbDesc (s\<lparr>fw := m\<rparr>) }"

definition DMAengine_has_compl_packets :: "'q zsDmaQueue_scheme \<Rightarrow> 'a dma_scheme \<Rightarrow> bool" where
  "DMAengine_has_compl_packets q s \<longleftrightarrow>
     qhead q \<noteq> terminator q \<and> dstatus (hwd s (qhead q)) AND ZM_OWN_BITS_MASK \<noteq> ZM_OWN_BITS_HW"

section \<open>Reaping\<close>

text \<open>The chain of descriptors of a packet becomes the chain of the buffer.\<close>

partial_function (option) relink_walk :: "addr \<Rightarrow> addr option \<Rightarrow> 'a dma_scheme \<Rightarrow> 'a dma_scheme option" where
  "relink_walk cur prev s = do {
     let v = VDESC_HW_TO_VDESC cur;
     m \<leftarrow> upd_vdesc v (data_size_update (\<lambda>_. dataSize (hwd s cur))) (fw s);
     m \<leftarrow> (case prev of None \<Rightarrow> Some m | Some pv \<Rightarrow> upd_vdesc pv (next_desc_update (\<lambda>_. v)) m);
     if dctrl (hwd s cur) AND ZM_LS_BIT \<noteq> 0 then do {
       m \<leftarrow> upd_vdesc v (next_desc_update (\<lambda>_. NULL)) m;
       Some (s\<lparr>fw := m\<rparr>) }
     else if nextAddr (hwd s cur) = NULL then Some (s\<lparr>fw := m\<rparr>)
     else relink_walk (nextAddr (hwd s cur)) (Some v) (s\<lparr>fw := m\<rparr>) }"

definition relinkUSBDescToVdesc :: "addr \<Rightarrow> addr \<Rightarrow> 'a dma_scheme \<Rightarrow> 'a dma_scheme option" where
  "relinkUSBDescToVdesc buf desc s = do {
     m \<leftarrow> upd_vbuf buf (\<lambda>b. b\<lparr>desc_list := VDESC_HW_TO_VDESC desc, buf_length := totalLen (hwd s desc)\<rparr>) (fw s);
     relink_walk desc None (s\<lparr>fw := m\<rparr>) }"

definition DMAengine_reap_recv_buf :: "'q zsDmaQueue_scheme \<Rightarrow> 'a dma_scheme \<Rightarrow> (addr \<times> 'q zsDmaQueue_scheme \<times> 'a dma_scheme) option" where
  "DMAengine_reap_recv_buf q s =
     (let (desc, q) = zfDmaGetPacket q s
      in if desc = NULL then Some (NULL, q, s)
         else do {
           (buf, m) \<leftarrow> vbuf_alloc_vbuf (fw s);
           require (buf \<noteq> NULL);
           s \<leftarrow> relinkUSBDescToVdesc buf desc (s\<lparr>fw := m\<rparr>);
           Some (buf, q, s) })"

definition DMAengine_reap_xmited_buf :: "'q zsTxDmaQueue_scheme \<Rightarrow> 'a dma_scheme \<Rightarrow> (addr \<times> 'q zsTxDmaQueue_scheme \<times> 'a dma_scheme) option" where
  "DMAengine_reap_xmited_buf q s =
     (let (desc, q) = zfDmaGetPacket q s
      in if desc = NULL then Some (NULL, q, s)
         else do {
           let sentBuf = xmited_buf_head q;
           b \<leftarrow> rd_vbuf (fw s) sentBuf;
           let q = (if xmited_buf_head q = xmited_buf_tail q then q\<lparr>xmited_buf_head := NULL, xmited_buf_tail := NULL\<rparr>
                    else q\<lparr>xmited_buf_head := next_buf b\<rparr>);
           m \<leftarrow> upd_vbuf sentBuf (next_buf_update (\<lambda>_. NULL)) (fw s);
           s \<leftarrow> relinkUSBDescToVdesc sentBuf desc (s\<lparr>fw := m\<rparr>);
           Some (sentBuf, q, s) })"

text \<open>The bytes of each word of the data are reversed; the last word may reach behind the data.\<close>

definition bswap_word :: "addr \<Rightarrow> (addr \<Rightarrow> u8) \<Rightarrow> addr \<Rightarrow> u8" where
  "bswap_word a f = f(a := f (a + 3), a + 1 := f (a + 2), a + 2 := f (a + 1), a + 3 := f a)"

definition swapData :: "addr \<Rightarrow> 'a dma_scheme \<Rightarrow> 'a dma_scheme" where
  "swapData p s =
     (let n = unat (dataSize (hwd s p));
          len = n div 4 + (if n mod 4 \<noteq> 0 then 1 else 0)
      in s\<lparr>fw := (fw s)\<lparr>bytes := fold (\<lambda>i. bswap_word (dataAddr (hwd s p) + 4 * of_nat i)) [0..<len] (bytes (fw s))\<rparr>\<rparr>)"

end
