(* ===== verification/Dma_Queue.thy ===== *)
theory Dma_Queue
  imports Dma_Engine
begin

text \<open>
  What the queues of the DMA engine guarantee. A queue is the list of its descriptors between the head and the
  terminator, linked in that order; a packet is a segment of it whose first descriptor knows the last. The
  exchange with the terminator keeps the contents: what a packet describes is described by the descriptors the
  queue has for it.
\<close>

section \<open>Linked descriptors\<close>

fun links :: "(addr \<Rightarrow> zsDmaDesc) \<Rightarrow> addr list \<Rightarrow> addr \<Rightarrow> bool" where
  "links H [] nx \<longleftrightarrow> True"
| "links H (d # ds) nx \<longleftrightarrow> nextAddr (H d) = hd (ds @ [nx]) \<and> links H ds nx"

lemma links_append: "links H (xs @ ys) nx \<longleftrightarrow> links H xs (hd (ys @ [nx])) \<and> links H ys nx"
  by (induction xs) (auto simp: hd_append)

lemma links_cong: "(\<And>d. d \<in> set ds \<Longrightarrow> nextAddr (H d) = nextAddr (H' d)) \<Longrightarrow> links H ds nx = links H' ds nx"
  by (induction ds) auto

definition ring :: "(addr \<Rightarrow> zsDmaDesc) \<Rightarrow> 'q zsDmaQueue_scheme \<Rightarrow> addr list \<Rightarrow> bool" where
  "ring H q ds \<longleftrightarrow> links H ds (terminator q) \<and> qhead q = hd (ds @ [terminator q]) \<and>
     distinct (ds @ [terminator q]) \<and> NULL \<notin> set (ds @ [terminator q])"

section \<open>Descriptors and their buffers\<close>

lemma hw_vdesc [simp]: "VDESC_HW_TO_VDESC (VDESC_TO_USBDESC v) = v" "VDESC_TO_USBDESC (VDESC_HW_TO_VDESC p) = p"
  by (simp_all add: VDESC_HW_TO_VDESC_def VDESC_TO_USBDESC_def)

lemma vdesc_eq [simp]: "VDESC_HW_TO_VDESC p = VDESC_HW_TO_VDESC q \<longleftrightarrow> p = q" "VDESC_TO_USBDESC p = VDESC_TO_USBDESC q \<longleftrightarrow> p = q"
  by (simp_all add: VDESC_HW_TO_VDESC_def VDESC_TO_USBDESC_def)

type_synonym slot = "addr \<times> u16 \<times> u16 \<times> u16 \<times> u16"

definition vslot :: "VDESC \<Rightarrow> slot" where
  "vslot v = (buf_addr v, buf_size v, data_offset v, data_size v, control v)"

definition vdesc_of :: "fw_mem \<Rightarrow> addr \<Rightarrow> VDESC option" where
  "vdesc_of m p = rd_vdesc m (VDESC_HW_TO_VDESC p)"

definition slot :: "fw_mem \<Rightarrow> addr \<Rightarrow> slot option" where
  "slot m p = map_option vslot (vdesc_of m p)"

lemma mark_chain_links:
  assumes "links (hwd s) ds nx" "ds \<noteq> []" "distinct ds" "lastAddr (hwd s p) = last ds"
    "\<And>x. nextAddr (f x) = nextAddr x" "\<And>x. lastAddr (f x) = lastAddr x"
  shows "mark_chain f p (hd ds) s = Some (s\<lparr>hwd := \<lambda>d. if d \<in> set ds then f (hwd s d) else hwd s d\<rparr>)"
  using assms(1-4)
proof (induction ds arbitrary: s)
  case (Cons d ds)
  let ?s = "upd_hwd d f s"
  have l: "lastAddr (hwd ?s p) = lastAddr (hwd s p)" by (simp add: upd_hwd_def assms(6))
  show ?case
  proof (cases "ds = []")
    case True
    then show ?thesis
      using Cons.prems l by (subst mark_chain.simps) (auto simp: upd_hwd_def fun_eq_iff intro!: dma.equality)
  next
    case False
    have "links (hwd ?s) ds nx"
      using Cons.prems(1,3) by (subst links_cong [of _ _ "hwd s"]) (auto simp: upd_hwd_def)
    then have IH: "mark_chain f p (hd ds) ?s = Some (?s\<lparr>hwd := \<lambda>x. if x \<in> set ds then f (hwd ?s x) else hwd ?s x\<rparr>)"
      using Cons.IH [of ?s] Cons.prems False l by simp
    have "last ds \<noteq> d" using Cons.prems(3) False last_in_set by fastforce
    moreover have "nextAddr (hwd ?s d) = hd ds"
      using Cons.prems(1) False by (cases ds) (simp_all add: upd_hwd_def assms(5))
    ultimately show ?thesis
      using Cons.prems(3,4) False l IH
      by (subst mark_chain.simps) (auto simp: Let_def upd_hwd_def fun_eq_iff)
  qed
qed simp

section \<open>The exchange with the terminator\<close>

text \<open>What a descriptor tells the hardware about its data.\<close>

definition same_data :: "zsDmaDesc \<Rightarrow> zsDmaDesc \<Rightarrow> bool" where
  "same_data a b \<longleftrightarrow> dctrl a = dctrl b \<and> totalLen a = totalLen b \<and> dataSize a = dataSize b \<and> dataAddr a = dataAddr b"

definition exchange :: "addr \<Rightarrow> addr \<Rightarrow> fw_mem \<Rightarrow> fw_mem \<Rightarrow> bool" where
  "exchange t p m m' \<longleftrightarrow> slot m' t = slot m p \<and> slot m' p = slot m t \<and>
     (\<forall>d. d \<noteq> t \<longrightarrow> d \<noteq> p \<longrightarrow> vdesc_of m' d = vdesc_of m d) \<and> vbufs m' = vbufs m \<and> bytes m' = bytes m \<and>
     free_buf_head m' = free_buf_head m \<and> nVbufNum m' = nVbufNum m"

lemma exchange_slot: "exchange t p m m' \<Longrightarrow> d \<noteq> t \<Longrightarrow> d \<noteq> p \<Longrightarrow> slot m' d = slot m d"
  by (simp add: exchange_def slot_def)

lemma swap_terminator_eff:
  assumes "vdesc_of (fw s) (terminator q) \<noteq> None" "vdesc_of (fw s) p \<noteq> None" "terminator q \<noteq> p"
  shows "\<exists>m. swap_terminator q p s = Some (q\<lparr>terminator := p\<rparr>, s\<lparr>fw := m,
      hwd := (hwd s)(p := dstatus_update clear_own (hwd s p), terminator q := dstatus_update (\<lambda>x. set_own (clear_own x)) (hwd s p))\<rparr>) \<and>
    exchange (terminator q) p (fw s) m"
proof -
  let ?t = "VDESC_HW_TO_VDESC (terminator q)" and ?p = "VDESC_HW_TO_VDESC p"
  obtain x y where xy: "vdescs (fw s) ?t = Some x" "vdescs (fw s) ?p = Some y" "?t \<noteq> NULL" "?p \<noteq> NULL"
    using assms(1,2) by (auto simp: vdesc_of_def rd_vdesc_def split: if_split_asm)
  note sw = vdesc_swap_vdesc_exchanges [OF xy(3,4,1,2)]
  show ?thesis
    using xy assms(3)
    by (auto simp: swap_terminator_def sw exchange_def slot_def vslot_def vdesc_of_def rd_vdesc_def upd_hwd_def Let_def comp_def)
qed

text \<open>A new packet goes behind the ones of the queue, in descriptors of which the first is the old terminator.\<close>

lemma put_packet:
  assumes "ring (hwd s) q es" "links (hwd s) ds nx" "ds \<noteq> []" "distinct (es @ terminator q # ds)" "NULL \<notin> set ds"
    "lastAddr (hwd s (hd ds)) = last ds" "\<And>d. d \<in> insert (terminator q) (set ds) \<Longrightarrow> vdesc_of (fw s) d \<noteq> None"
  shows "\<exists>m H. zfDmaPutPacket q (hd ds) s = Some (q\<lparr>terminator := hd ds\<rparr>, s\<lparr>fw := m, hwd := H\<rparr>) \<and>
    ring H (q\<lparr>terminator := hd ds\<rparr>) (es @ terminator q # tl ds) \<and>
    lastAddr (H (terminator q)) = last (terminator q # tl ds) \<and>
    (\<forall>d \<in> set es. H d = hwd s d) \<and> (\<forall>d \<in> set (tl ds). same_data (H d) (hwd s d)) \<and>
    same_data (H (terminator q)) (hwd s (hd ds)) \<and> exchange (terminator q) (hd ds) (fw s) m"
proof -
  obtain p rs where ds: "ds = p # rs" using assms(3) by (cases ds) auto
  let ?own = "dstatus_update (\<lambda>x. set_own (clear_own x))"
  define H1 where "H1 = (\<lambda>d. if d \<in> set ds then ?own (hwd s d) else hwd s d)"
  define H2 where "H2 = H1(last ds := (H1 (last ds))\<lparr>nextAddr := p\<rparr>)"
  define H3 where "H3 = (if rs = [] then H2(p := (H2 p)\<lparr>lastAddr := terminator q\<rparr>) else H2)"
  define H where "H = H3(p := dstatus_update clear_own (H3 p), terminator q := ?own (H3 p))"
  have dist: "p \<notin> set rs" "distinct rs" "terminator q \<noteq> p" "terminator q \<notin> set rs" "last ds \<in> set ds"
    "p \<notin> set es" "\<And>d. d \<in> set es \<Longrightarrow> d \<noteq> terminator q \<and> d \<notin> set rs"
    using assms(4) by (auto simp: ds)
  have m: "mark_chain ?own p p s = Some (s\<lparr>hwd := H1\<rparr>)"
    using mark_chain_links [OF assms(2), of p ?own] assms(4,6) by (simp add: ds H1_def)
  have last: "last ds = p \<longleftrightarrow> rs = []" using dist(1) by (auto simp: ds)
  have la: "lastAddr (H1 p) = last ds" "lastAddr (H2 p) = last ds" using assms(6) by (auto simp: H1_def H2_def ds)
  obtain m' where m': "swap_terminator q p (s\<lparr>hwd := H3\<rparr>) = Some (q\<lparr>terminator := p\<rparr>, s\<lparr>fw := m', hwd := H\<rparr>)"
    "exchange (terminator q) p (fw s) m'"
    using swap_terminator_eff [of "s\<lparr>hwd := H3\<rparr>" q p] assms(7) dist(3) by (auto simp: H_def ds)
  have put: "zfDmaPutPacket q p s = Some (q\<lparr>terminator := p\<rparr>, s\<lparr>fw := m', hwd := H\<rparr>)"
    using m' la last by (auto simp: zfDmaPutPacket_def m upd_hwd_def H3_def H2_def split: if_splits)
  have Hes: "H d = hwd s d" if "d \<in> set es" for d
    using that dist assms(4) by (auto simp: H_def H3_def H2_def H1_def ds)
  have Hrs: "same_data (H d) (hwd s d)" "d \<noteq> last ds \<Longrightarrow> nextAddr (H d) = nextAddr (hwd s d)" if "d \<in> set rs" for d
    using that dist by (auto simp: H_def H3_def H2_def H1_def ds same_data_def)
  have HT: "same_data (H (terminator q)) (hwd s p)" "lastAddr (H (terminator q)) = last (terminator q # rs)"
    using dist la by (auto simp: H_def H3_def H2_def H1_def ds same_data_def)
  have nT: "nextAddr (H (terminator q)) = hd (rs @ [p])"
    using assms(2) dist by (cases rs) (auto simp: H_def H3_def H2_def H1_def ds)
  have lr: "links H rs p"
  proof (cases rs rule: rev_cases)
    case (snoc xs x)
    have "links (hwd s) xs x" using assms(2) by (simp add: ds snoc links_append)
    moreover have "nextAddr (H x) = p"
      using dist snoc by (auto simp: H_def H3_def H2_def H1_def ds)
    moreover have "nextAddr (H d) = nextAddr (hwd s d)" if "d \<in> set xs" for d
      using Hrs(2) [of d] that dist snoc by (auto simp: ds)
    ultimately show ?thesis using snoc by (simp add: links_append links_cong [of xs H "hwd s"])
  qed simp
  have le: "links H es (terminator q)"
    using assms(1) Hes by (simp add: ring_def links_cong [of es H "hwd s"])
  have "ring H (q\<lparr>terminator := p\<rparr>) (es @ terminator q # rs)"
    using assms(1,4,5) le lr nT by (auto simp: ring_def links_append ds hd_append)
  then show ?thesis
    unfolding ds list.sel using put Hes Hrs HT m'(2) by (intro exI [of _ m'] exI [of _ H] conjI ballI) simp_all
qed

section \<open>Packets\<close>

text \<open>
  \<open>packet m H ds\<close>: the descriptors \<open>ds\<close> describe the data of their \<^verbatim>\<open>VDESC\<close>s, the first knows the
  last, and the last alone is marked as the end. \<open>payload m H ds\<close> is the length the packet announces and the
  data it describes.
\<close>

definition describes :: "zsDmaDesc \<Rightarrow> slot option \<Rightarrow> bool" where
  "describes d sl \<longleftrightarrow> (case sl of None \<Rightarrow> False | Some (a, bsz, off, sz, c) \<Rightarrow> dataSize d = sz \<and> dataAddr d = a + ucast off)"

definition packet :: "fw_mem \<Rightarrow> (addr \<Rightarrow> zsDmaDesc) \<Rightarrow> addr list \<Rightarrow> bool" where
  "packet m H ds \<longleftrightarrow> ds \<noteq> [] \<and> lastAddr (H (hd ds)) = last ds \<and> (\<forall>d \<in> set ds. describes (H d) (slot m d)) \<and>
     (\<forall>d \<in> set (butlast ds). dctrl (H d) AND ZM_LS_BIT = 0) \<and> dctrl (H (last ds)) AND ZM_LS_BIT \<noteq> 0"

definition payload :: "fw_mem \<Rightarrow> (addr \<Rightarrow> zsDmaDesc) \<Rightarrow> addr list \<Rightarrow> u16 \<times> slot option list" where
  "payload m H ds = (totalLen (H (hd ds)), map (slot m) ds)"

text \<open>
  The state of the transmit queue: the packets in the hardware's hands or done, and the buffers they came
  from, in order.
\<close>

definition xmited :: "(addr \<rightharpoonup> VBUF) \<Rightarrow> addr \<Rightarrow> addr \<Rightarrow> addr list \<Rightarrow> bool" where
  "xmited V h t bufs \<longleftrightarrow> distinct bufs \<and> NULL \<notin> set bufs \<and> (\<forall>b \<in> set bufs. V b \<noteq> None) \<and>
     (if bufs = [] then h = NULL \<and> t = NULL else h = hd bufs \<and> t = last bufs) \<and>
     successively (\<lambda>b c. map_option next_buf (V b) = Some c) bufs"

definition tx_queue :: "'a dma_scheme \<Rightarrow> 'q zsTxDmaQueue_scheme \<Rightarrow> addr list \<Rightarrow> addr list list \<Rightarrow> bool" where
  "tx_queue s q bufs pkts \<longleftrightarrow> ring (hwd s) q (concat pkts) \<and> length bufs = length pkts \<and>
     (\<forall>ds \<in> set pkts. packet (fw s) (hwd s) ds) \<and> vdesc_of (fw s) (terminator q) \<noteq> None \<and>
     xmited (vbufs (fw s)) (xmited_buf_head q) (xmited_buf_tail q) bufs"

lemma packet_cong:
  assumes "\<And>d. d \<in> set ds \<Longrightarrow> H' d = H d" "\<And>d. d \<in> set ds \<Longrightarrow> slot m' d = slot m d"
  shows "packet m' H' ds = packet m H ds" "ds \<noteq> [] \<Longrightarrow> payload m' H' ds = payload m H ds"
proof -
  have "\<And>d. d \<in> set (butlast ds) \<Longrightarrow> H' d = H d" using assms(1) in_set_butlastD by fast
  then show "packet m' H' ds = packet m H ds" "ds \<noteq> [] \<Longrightarrow> payload m' H' ds = payload m H ds"
    using assms by (auto simp: packet_def payload_def)
qed

lemma packet_moved:
  assumes "packet m H (p # rs)" "same_data (H' t) (H p)" "\<And>d. d \<in> set rs \<Longrightarrow> same_data (H' d) (H d)"
    "slot m' t = slot m p" "\<And>d. d \<in> set rs \<Longrightarrow> slot m' d = slot m d" "lastAddr (H' t) = last (t # rs)"
  shows "packet m' H' (t # rs)" "payload m' H' (t # rs) = payload m H (p # rs)"
proof -
  have "describes (H' d) (slot m' d)" if "d \<in> set (t # rs)" for d
    using that assms by (auto simp: packet_def describes_def same_data_def split: option.splits)
  then show "packet m' H' (t # rs)"
    using assms by (cases rs rule: rev_cases) (auto simp: packet_def same_data_def)
  show "payload m' H' (t # rs) = payload m H (p # rs)"
    using assms by (simp add: payload_def same_data_def)
qed

section \<open>Sending a buffer\<close>

definition fill :: "VDESC \<Rightarrow> zsDmaDesc" where
  "fill v = \<lparr>dctrl = 0, dstatus = 0, totalLen = 0, dataSize = data_size v, lastAddr = NULL,
     dataAddr = buf_addr v + ucast (data_offset v), nextAddr = NULL\<rparr>"

text \<open>The walk behind the first descriptor: \<open>H\<close> has the descriptors filled and linked.\<close>

lemma xmit_walk_links:
  assumes "chain (vd_next (vdescs (fw s))) cur vs" "nextAddr (hwd s pr) = NULL" "pr \<notin> VDESC_TO_USBDESC ` set vs"
  shows "\<exists>H. xmit_walk len cur h (Some pr) s = Some (h, Some (last (pr # map VDESC_TO_USBDESC vs)), s\<lparr>hwd := H\<rparr>) \<and>
    links H (pr # map VDESC_TO_USBDESC vs) NULL \<and>
    (\<forall>v \<in> set vs. (H (VDESC_TO_USBDESC v))\<lparr>nextAddr := NULL\<rparr> = fill (the (vdescs (fw s) v))) \<and>
    (H pr)\<lparr>nextAddr := NULL\<rparr> = hwd s pr \<and>
    (\<forall>d. d \<notin> insert pr (VDESC_TO_USBDESC ` set vs) \<longrightarrow> H d = hwd s d)"
  using assms
proof (induction vs arbitrary: cur pr s)
  case Nil
  then show ?case by (intro exI [of _ "hwd s"]) (subst xmit_walk.simps, cases s, simp)
next
  case (Cons v vs)
  let ?p = "VDESC_TO_USBDESC v" and ?ds = "map VDESC_TO_USBDESC vs"
  obtain x where x: "cur = v" "v \<noteq> NULL" "vdescs (fw s) v = Some x" "chain (vd_next (vdescs (fw s))) (next_desc x) vs"
    using Cons.prems(1) by (auto simp: chain_vd_Cons simp del: chain.simps)
  have d: "v \<notin> set vs" "pr \<noteq> ?p" "pr \<notin> set ?ds"
    using chain_distinct [OF Cons.prems(1)] Cons.prems(3) by auto
  let ?s = "s\<lparr>hwd := (hwd s)(?p := fill x, pr := (hwd s pr)\<lparr>nextAddr := ?p\<rparr>)\<rparr>"
  have p: "nextAddr (hwd ?s ?p) = NULL" "?p \<notin> VDESC_TO_USBDESC ` set vs" using d by (auto simp: fill_def)
  obtain H where H: "xmit_walk len (next_desc x) h (Some ?p) ?s = Some (h, Some (last (?p # ?ds)), ?s\<lparr>hwd := H\<rparr>)"
    "links H (?p # ?ds) NULL" "\<forall>u \<in> set vs. (H (VDESC_TO_USBDESC u))\<lparr>nextAddr := NULL\<rparr> = fill (the (vdescs (fw s) u))"
    "(H ?p)\<lparr>nextAddr := NULL\<rparr> = hwd ?s ?p" "\<forall>d. d \<notin> insert ?p (VDESC_TO_USBDESC ` set vs) \<longrightarrow> H d = hwd ?s d"
    using Cons.IH [of ?s "next_desc x" ?p] x(4) p by auto
  have w: "xmit_walk len cur h (Some pr) s = xmit_walk len (next_desc x) h (Some ?p) ?s"
    using x d by (subst xmit_walk.simps) (simp add: rd_vdesc_def init_usb_desc_def upd_hwd_def fill_def Let_def fun_upd_twist)
  have Hp: "H pr = (hwd s pr)\<lparr>nextAddr := ?p\<rparr>" using H(5) d by auto
  show ?case
  proof (intro exI [of _ H] conjI)
    show "xmit_walk len cur h (Some pr) s = Some (h, Some (last (pr # map VDESC_TO_USBDESC (v # vs))), s\<lparr>hwd := H\<rparr>)"
      using w H(1) by simp
    show "links H (pr # map VDESC_TO_USBDESC (v # vs)) NULL" using H(2) Hp by simp
    show "\<forall>u \<in> set (v # vs). (H (VDESC_TO_USBDESC u))\<lparr>nextAddr := NULL\<rparr> = fill (the (vdescs (fw s) u))"
      using H(3,4) x(3) d by simp
    show "(H pr)\<lparr>nextAddr := NULL\<rparr> = hwd s pr" using Hp Cons.prems(2) by simp
    show "\<forall>d. d \<notin> insert pr (VDESC_TO_USBDESC ` set (v # vs)) \<longrightarrow> H d = hwd s d"
      using H(5) by auto
  qed
qed

lemma butlast_not_last: "distinct xs \<Longrightarrow> x \<in> set (butlast xs) \<Longrightarrow> x \<noteq> last xs"
  by (cases xs rule: rev_cases) auto

lemma or_and_absorb: "(x OR y) AND y = (y :: 'a::len word)"
  by (rule bit_word_eqI) (auto simp: bit_simps)

text \<open>The whole packet, before it is put into the queue.\<close>

lemma xmit_walk_packet:
  assumes "chain (vd_next (vdescs (fw s))) cur (v # vs)"
  defines "ds \<equiv> map VDESC_TO_USBDESC (v # vs)"
  shows "\<exists>H. xmit_walk len cur None None s = Some (Some (hd ds), Some (last ds), s\<lparr>hwd := H\<rparr>) \<and> links H ds NULL \<and>
    (\<forall>d. d \<notin> set ds \<longrightarrow> H d = hwd s d) \<and>
    (let H = H(last ds := dctrl_update (\<lambda>x. x OR ZM_LS_BIT) (H (last ds)));
         H = H(hd ds := (H (hd ds))\<lparr>lastAddr := last ds\<rparr>)
     in links H ds NULL \<and> packet (fw s) H ds \<and> payload (fw s) H ds = (len, map (slot (fw s)) ds))"
proof -
  let ?p = "VDESC_TO_USBDESC v" and ?rs = "map VDESC_TO_USBDESC vs"
  obtain x where x: "cur = v" "v \<noteq> NULL" "vdescs (fw s) v = Some x" "chain (vd_next (vdescs (fw s))) (next_desc x) vs"
    using assms(1) by (auto simp: chain_vd_Cons simp del: chain.simps)
  have d: "distinct (v # vs)" using chain_distinct [OF assms(1)] .
  have rd: "\<exists>y. rd_vdesc (fw s) u = Some y \<and> vdescs (fw s) u = Some y" if "u \<in> set (v # vs)" for u
    using that assms(1) chain_dom [OF assms(1) that] chain_not_NULL [OF assms(1)]
    by (force simp: rd_vdesc_def vd_next_def)
  have pn: "?p \<notin> VDESC_TO_USBDESC ` set vs" using d by auto
  let ?f = "(fill x)\<lparr>dctrl := ZM_FS_BIT, totalLen := len\<rparr>"
  let ?s = "s\<lparr>hwd := (hwd s)(?p := ?f)\<rparr>"
  obtain H where H: "xmit_walk len (next_desc x) (Some ?p) (Some ?p) ?s = Some (Some ?p, Some (last (?p # ?rs)), ?s\<lparr>hwd := H\<rparr>)"
    "links H (?p # ?rs) NULL" "\<And>u. u \<in> set vs \<Longrightarrow> (H (VDESC_TO_USBDESC u))\<lparr>nextAddr := NULL\<rparr> = fill (the (vdescs (fw s) u))"
    "(H ?p)\<lparr>nextAddr := NULL\<rparr> = ?f" "\<And>d. d \<notin> insert ?p (VDESC_TO_USBDESC ` set vs) \<Longrightarrow> H d = hwd ?s d"
    using xmit_walk_links [of ?s "next_desc x" vs ?p len "Some ?p"] x(4) pn by (auto simp: fill_def)
  have w: "xmit_walk len cur None None s = xmit_walk len (next_desc x) (Some ?p) (Some ?p) ?s"
    using x by (subst xmit_walk.simps) (simp add: rd_vdesc_def init_usb_desc_def upd_hwd_def fill_def Let_def)
  define H1 where "H1 = H(last ds := dctrl_update (\<lambda>x. x OR ZM_LS_BIT) (H (last ds)))"
  define H2 where "H2 = H1(?p := (H1 ?p)\<lparr>lastAddr := last ds\<rparr>)"
  have n: "nextAddr (H2 e) = nextAddr (H e)" "dataSize (H2 e) = dataSize (H e)" "dataAddr (H2 e) = dataAddr (H e)"
    "totalLen (H2 e) = totalLen (H e)" for e
    by (auto simp: H2_def H1_def)
  have sz: "dataSize (H e) = data_size y \<and> dataAddr (H e) = buf_addr y + ucast (data_offset y) \<and>
      dctrl (H e) AND ZM_LS_BIT = 0"
    if "e = VDESC_TO_USBDESC u" "u \<in> set (v # vs)" "vdescs (fw s) u = Some y" for e u y
  proof (cases "u = v")
    case True
    then show ?thesis using H(4) that x(3) by (cases "H ?p") (auto simp: fill_def)
  next
    case False
    then show ?thesis using H(3) [of u] that by (cases "H e") (auto simp: fill_def)
  qed
  have "describes (H2 e) (slot (fw s) e)" if "e \<in> set ds" for e
  proof -
    obtain u where u: "u \<in> set (v # vs)" "e = VDESC_TO_USBDESC u" using \<open>e \<in> set ds\<close> by (auto simp: ds_def)
    then obtain y where "rd_vdesc (fw s) u = Some y" "vdescs (fw s) u = Some y" using rd by blast
    then show ?thesis using sz [OF u(2,1)] u by (simp add: describes_def slot_def vdesc_of_def vslot_def n)
  qed
  moreover have "dctrl (H2 e) AND ZM_LS_BIT = 0" if "e \<in> set (butlast ds)" for e
  proof -
    obtain u where u: "u \<in> set (v # vs)" "e = VDESC_TO_USBDESC u" using in_set_butlastD [OF \<open>e \<in> set (butlast ds)\<close>] by (auto simp: ds_def)
    then obtain y where y: "vdescs (fw s) u = Some y" using rd by blast
    have dd: "distinct ds" using d by (auto simp: ds_def distinct_map inj_on_def)
    have "e \<noteq> last ds" using dd \<open>e \<in> set (butlast ds)\<close> by (rule butlast_not_last)
    then have "dctrl (H2 e) = dctrl (H e)" by (simp add: H2_def H1_def)
    then show ?thesis using sz [OF u(2,1) y] by simp
  qed
  moreover have "dctrl (H2 (last ds)) AND ZM_LS_BIT \<noteq> 0"
    by (auto simp: H2_def H1_def or_and_absorb)
  ultimately have "packet (fw s) H2 ds" by (simp add: packet_def ds_def H2_def)
  moreover have "links H2 ds NULL" using H(2) by (subst links_cong [of _ _ H]) (simp_all add: n ds_def)
  moreover have "payload (fw s) H2 ds = (len, map (slot (fw s)) ds)"
    using H(4) by (cases "H ?p") (auto simp: payload_def ds_def n fill_def)
  ultimately show ?thesis
    using w H by (intro exI [of _ H]) (simp add: ds_def H2_def H1_def Let_def)
qed

text \<open>The list of buffers on their way.\<close>

lemma xmited_append:
  assumes "xmited V h t bufs" "buf \<notin> set bufs" "buf \<noteq> NULL" "V buf = Some b"
  shows "bufs = [] \<Longrightarrow> xmited (V(buf \<mapsto> b\<lparr>next_buf := buf\<rparr>)) buf buf (bufs @ [buf])"
    "bufs \<noteq> [] \<Longrightarrow> V t = Some x \<Longrightarrow> xmited (V(t \<mapsto> x\<lparr>next_buf := buf\<rparr>)) h buf (bufs @ [buf])"
proof -
  show "bufs = [] \<Longrightarrow> xmited (V(buf \<mapsto> b\<lparr>next_buf := buf\<rparr>)) buf buf (bufs @ [buf])"
    using assms by (simp add: xmited_def)
  assume "bufs \<noteq> []" "V t = Some x"
  then obtain bs where bs: "bufs = bs @ [t]" using assms(1) by (cases bufs rule: rev_cases) (auto simp: xmited_def)
  let ?N = "\<lambda>V b c. map_option next_buf (V b) = Some c" and ?V = "V(t \<mapsto> x\<lparr>next_buf := buf\<rparr>)"
  have d: "t \<notin> set bs" "successively (?N V) bs" "bs \<noteq> [] \<Longrightarrow> ?N V (last bs) t" "h = hd (bs @ [t])"
    using assms(1) by (auto simp: xmited_def bs successively_append_iff)
  have "successively (?N ?V) bs"
    using d(2) by (subst successively_cong [where Q = "?N V"]) (use d(1) in auto)
  moreover have "?N ?V (last bs) t" if "bs \<noteq> []"
  proof -
    have "last bs \<noteq> t" using d(1) last_in_set [OF that] by metis
    then show ?thesis using d(3) [OF that] by simp
  qed
  ultimately have "successively (?N ?V) (bs @ [t] @ [buf])"
    by (cases "bs = []") (simp_all add: successively_append_iff)
  then show "xmited ?V h buf (bufs @ [buf])"
    using assms d(4) bs by (auto simp: xmited_def hd_append)
qed

lemma xmited_tail:
  assumes "xmited V h t bufs" "bufs \<noteq> []"
  shows "t \<in> set bufs" "h \<in> set bufs" "t \<noteq> NULL" "h \<noteq> NULL" "\<exists>x. V t = Some x" "\<exists>x. V h = Some x"
proof -
  show "t \<in> set bufs" "h \<in> set bufs" using assms by (simp_all add: xmited_def)
  then show "t \<noteq> NULL" "h \<noteq> NULL" "\<exists>x. V t = Some x" "\<exists>x. V h = Some x"
    using assms by (force simp: xmited_def)+
qed

text \<open>Sending appends the packet to the queue; nothing of the earlier ones changes.\<close>

lemma xmit_appends:
  fixes q :: "'q zsTxDmaQueue_scheme" and s :: "'a dma_scheme"
  assumes q: "tx_queue s q bufs pkts" and buf: "rd_vbuf (fw s) buf = Some b" "buf \<notin> set bufs"
    and vs: "chain (vd_next (vdescs (fw s))) (desc_list b) (v # vs)"
    and fresh: "VDESC_TO_USBDESC ` set (v # vs) \<inter> set (NULL # concat pkts @ [terminator q]) = {}"
  defines "ds \<equiv> terminator q # map VDESC_TO_USBDESC vs"
  shows "\<exists>q' s'. DMAengine_xmit_buf q buf s = Some (q', s') \<and> tx_queue s' q' (bufs @ [buf]) (pkts @ [ds]) \<and>
    terminator q' = VDESC_TO_USBDESC v \<and>
    map (payload (fw s') (hwd s')) (pkts @ [ds]) =
      map (payload (fw s) (hwd s)) pkts @ [(buf_length b, map (slot (fw s)) (map VDESC_TO_USBDESC (v # vs)))]"
proof -
  let ?ds0 = "map VDESC_TO_USBDESC (v # vs)"
  have r: "ring (hwd s) q (concat pkts)" "length bufs = length pkts" "\<And>ds. ds \<in> set pkts \<Longrightarrow> packet (fw s) (hwd s) ds"
    "vdesc_of (fw s) (terminator q) \<noteq> None" "xmited (vbufs (fw s)) (xmited_buf_head q) (xmited_buf_tail q) bufs"
    using q by (auto simp: tx_queue_def)
  have b: "buf \<noteq> NULL" "vbufs (fw s) buf = Some b" using buf(1) by (auto simp: rd_vbuf_def split: if_split_asm)
  obtain H where H: "xmit_walk (buf_length b) (desc_list b) None None s = Some (Some (hd ?ds0), Some (last ?ds0), s\<lparr>hwd := H\<rparr>)"
    "\<And>d. d \<notin> set ?ds0 \<Longrightarrow> H d = hwd s d" and
    P: "let H = H(last ?ds0 := dctrl_update (\<lambda>x. x OR ZM_LS_BIT) (H (last ?ds0)));
         H = H(hd ?ds0 := (H (hd ?ds0))\<lparr>lastAddr := last ?ds0\<rparr>)
     in links H ?ds0 NULL \<and> packet (fw s) H ?ds0 \<and> payload (fw s) H ?ds0 = (buf_length b, map (slot (fw s)) ?ds0)"
    using xmit_walk_packet [OF vs, of "buf_length b"] by blast
  define H1 where "H1 = H(last ?ds0 := dctrl_update (\<lambda>x. x OR ZM_LS_BIT) (H (last ?ds0)))"
  define H2 where "H2 = H1(hd ?ds0 := (H1 (hd ?ds0))\<lparr>lastAddr := last ?ds0\<rparr>)"
  have P: "links H2 ?ds0 NULL" "packet (fw s) H2 ?ds0" "payload (fw s) H2 ?ds0 = (buf_length b, map (slot (fw s)) ?ds0)"
    using P by (simp_all only: H2_def H1_def Let_def)
  have H2: "H2 d = hwd s d" if "d \<notin> set ?ds0" for d
    using that H(2) last_in_set [of ?ds0] by (auto simp: H2_def H1_def)
  define m where "m = (if bufs = [] then (fw s)\<lparr>vbufs := (vbufs (fw s))(buf \<mapsto> b\<lparr>next_buf := buf\<rparr>)\<rparr>
    else (fw s)\<lparr>vbufs := (vbufs (fw s))(xmited_buf_tail q \<mapsto> (the (vbufs (fw s) (xmited_buf_tail q)))\<lparr>next_buf := buf\<rparr>)\<rparr>)"
  define q1 where "q1 = (if bufs = [] then q\<lparr>xmited_buf_head := buf, xmited_buf_tail := buf\<rparr> else q\<lparr>xmited_buf_tail := buf\<rparr>)"
  have m: "vdescs m = vdescs (fw s)" "xmited (vbufs m) (xmited_buf_head q1) (xmited_buf_tail q1) (bufs @ [buf])"
    using xmited_append [OF r(5) buf(2) b] xmited_tail [OF r(5)] by (auto simp: m_def q1_def)
  have mo: "vdesc_of m = vdesc_of (fw s)" "slot m = slot (fw s)"
    by (simp_all add: fun_eq_iff slot_def vdesc_of_def rd_vdesc_def m(1))
  have q1: "qhead q1 = qhead q" "terminator q1 = terminator q" by (simp_all add: q1_def)
  let ?s = "s\<lparr>hwd := H2, fw := m\<rparr>"
  have x: "DMAengine_xmit_buf q buf s = zfDmaPutPacket q1 (hd ?ds0) ?s"
  proof (cases "bufs = []")
    case True
    then have "xmited_buf_head q = NULL" "xmited_buf_tail q = NULL" using r(5) by (simp_all add: xmited_def)
    then show ?thesis
      using True b H(1) buf(1)
      by (simp add: DMAengine_xmit_buf_def upd_hwd_def H1_def H2_def upd_vbuf_def rd_vbuf_def m_def q1_def Let_def del: list.map list.sel last.simps)
  next
    case False
    then show ?thesis
      using xmited_tail [OF r(5) False] b H(1) buf(1)
      by (auto simp: DMAengine_xmit_buf_def upd_hwd_def H1_def H2_def upd_vbuf_def rd_vbuf_def m_def q1_def Let_def simp del: list.map list.sel last.simps)
  qed
  have dist: "distinct (concat pkts @ terminator q1 # ?ds0)"
    using r(1) fresh chain_distinct [OF vs] by (auto simp: ring_def q1 distinct_map inj_on_def)
  have nn: "NULL \<notin> set ?ds0" using fresh by auto
  have ring: "ring (hwd ?s) q1 (concat pkts)"
  proof -
    have "links H2 (concat pkts) (terminator q) = links (hwd s) (concat pkts) (terminator q)"
      using fresh by (intro links_cong) (simp, subst H2, auto)
    then show ?thesis using r(1) q1 by (simp add: ring_def)
  qed
  have vd: "vdesc_of (fw ?s) d \<noteq> None" if "d \<in> insert (terminator q1) (set ?ds0)" for d
    using that r(4) P(2) by (auto simp: mo q1 packet_def describes_def slot_def split: option.splits)
  obtain m' H' where put: "zfDmaPutPacket q1 (hd ?ds0) ?s = Some (q1\<lparr>terminator := hd ?ds0\<rparr>, ?s\<lparr>fw := m', hwd := H'\<rparr>)"
    "ring H' (q1\<lparr>terminator := hd ?ds0\<rparr>) (concat pkts @ terminator q1 # tl ?ds0)"
    "lastAddr (H' (terminator q1)) = last (terminator q1 # tl ?ds0)"
    "\<forall>d \<in> set (concat pkts). H' d = hwd ?s d" "\<forall>d \<in> set (tl ?ds0). same_data (H' d) (hwd ?s d)"
    "same_data (H' (terminator q1)) (hwd ?s (hd ?ds0))" "exchange (terminator q1) (hd ?ds0) (fw ?s) m'"
    using put_packet [OF ring _ _ dist nn _ vd, of NULL] P(1,2) by (auto simp: packet_def)
  have sl: "slot m' d = slot (fw s) d" if "d \<noteq> terminator q" "d \<noteq> VDESC_TO_USBDESC v" for d
    using exchange_slot [OF put(7)] that by (simp add: q1 mo)
  have ex: "slot m' (terminator q) = slot (fw s) (VDESC_TO_USBDESC v)"
    "slot m' (VDESC_TO_USBDESC v) = slot (fw s) (terminator q)" "vbufs m' = vbufs m"
    using put(7) by (simp_all add: exchange_def q1 mo)
  have d: "d \<noteq> terminator q" "d \<noteq> VDESC_TO_USBDESC v" if "d \<in> VDESC_TO_USBDESC ` set vs" for d
  proof -
    have "terminator q \<notin> VDESC_TO_USBDESC ` set vs" "VDESC_TO_USBDESC v \<notin> VDESC_TO_USBDESC ` set vs"
      using dist by (simp_all add: q1)
    then show "d \<noteq> terminator q" "d \<noteq> VDESC_TO_USBDESC v" using that by metis+
  qed
  have old: "H' d = hwd s d" "slot m' d = slot (fw s) d" if "d \<in> set (concat pkts)" for d
  proof -
    have "d \<noteq> terminator q" "d \<notin> set ?ds0" using that dist by (auto simp: q1)
    then show "H' d = hwd s d" "slot m' d = slot (fw s) d"
      using put(4) that H2 [of d] sl [of d] by auto
  qed
  note new = packet_moved [OF P(2) [simplified], of H' "terminator q" m']
  have nw: "packet m' H' ds" "payload m' H' ds = (buf_length b, map (slot (fw s)) ?ds0)"
    using new put(3,5,6) d sl ex P(3) by (auto simp: ds_def q1)
  have pk: "packet m' H' p" "payload m' H' p = payload (fw s) (hwd s) p" if "p \<in> set pkts" for p
  proof -
    have o: "\<And>d. d \<in> set p \<Longrightarrow> H' d = hwd s d" "\<And>d. d \<in> set p \<Longrightarrow> slot m' d = slot (fw s) d" using old that by auto
    have "p \<noteq> []" using r(3) [OF that] by (simp add: packet_def)
    then show "packet m' H' p" "payload m' H' p = payload (fw s) (hwd s) p"
      using packet_cong [OF o, of p] r(3) [OF that] by simp_all
  qed
  have t: "vdesc_of m' (VDESC_TO_USBDESC v) \<noteq> None"
    using ex(2) r(4) by (auto simp: slot_def)
  let ?q' = "q1\<lparr>terminator := hd ?ds0\<rparr>" and ?s' = "?s\<lparr>fw := m', hwd := H'\<rparr>"
  have tx: "tx_queue ?s' ?q' (bufs @ [buf]) (pkts @ [ds])"
    using put(2) r(2) pk(1) nw(1) t m(2) ex(3) by (auto simp: tx_queue_def ds_def q1)
  show ?thesis
    using x put(1) tx pk(2) nw(2) by (intro exI [of _ ?q'] exI [of _ ?s']) simp
qed

section \<open>Reaping a packet\<close>

lemma relink_walk_links:
  assumes "links (hwd s) ds nx" "ds \<noteq> []" "distinct ds" "NULL \<notin> set ds"
    "\<forall>d \<in> set ds. describes (hwd s d) (slot (fw s) d)"
    "\<forall>d \<in> set (butlast ds). dctrl (hwd s d) AND ZM_LS_BIT = 0" "dctrl (hwd s (last ds)) AND ZM_LS_BIT \<noteq> 0"
    "pred_option (\<lambda>pv. pv \<notin> VDESC_HW_TO_VDESC ` set ds \<and> rd_vdesc (fw s) pv \<noteq> None) prev"
  shows "\<exists>m. relink_walk (hd ds) prev s = Some (s\<lparr>fw := m\<rparr>) \<and>
    chain (vd_next (vdescs m)) (VDESC_HW_TO_VDESC (hd ds)) (map VDESC_HW_TO_VDESC ds) \<and>
    (\<forall>d \<in> set ds. slot m d = slot (fw s) d) \<and>
    (\<forall>p. p \<notin> VDESC_HW_TO_VDESC ` set ds \<longrightarrow> rd_vdesc m p =
       (if prev = Some p then map_option (next_desc_update (\<lambda>_. VDESC_HW_TO_VDESC (hd ds))) (rd_vdesc (fw s) p) else rd_vdesc (fw s) p)) \<and>
    vbufs m = vbufs (fw s) \<and> bytes m = bytes (fw s)"
  using assms
proof (induction ds arbitrary: s prev)
  case (Cons d ds)
  let ?v = "VDESC_HW_TO_VDESC d"
  obtain x where x: "?v \<noteq> NULL" "vdescs (fw s) ?v = Some x" "data_size x = dataSize (hwd s d)"
    using Cons.prems(5)
    by (auto simp: describes_def slot_def vdesc_of_def rd_vdesc_def vslot_def split: option.splits if_splits)
  have xx: "x\<lparr>data_size := dataSize (hwd s d)\<rparr> = x" using x(3) by (cases x) simp
  define m0 where "m0 = (case prev of None \<Rightarrow> fw s | Some pv \<Rightarrow>
      (fw s)\<lparr>vdescs := (vdescs (fw s))(pv \<mapsto> (the (vdescs (fw s) pv))\<lparr>next_desc := ?v\<rparr>)\<rparr>)"
  have pv: "\<exists>y. pv \<noteq> NULL \<and> vdescs (fw s) pv = Some y \<and> pv \<noteq> ?v" if "prev = Some pv" for pv
    using Cons.prems(8) that by (auto simp: rd_vdesc_def split: if_split_asm)
  have up: "upd_vdesc ?v (data_size_update (\<lambda>_. dataSize (hwd s d))) (fw s) = Some (fw s)"
    using x xx by (simp add: upd_vdesc_def rd_vdesc_def fun_upd_idem)
  have lk: "(case prev of None \<Rightarrow> Some (fw s) | Some pv \<Rightarrow> upd_vdesc pv (next_desc_update (\<lambda>_. ?v)) (fw s)) = Some m0"
    using pv by (auto simp: m0_def upd_vdesc_def rd_vdesc_def split: option.split)
  have m0: "vdescs m0 ?v = Some x" "vbufs m0 = vbufs (fw s)" "bytes m0 = bytes (fw s)"
    "rd_vdesc m0 p = (if prev = Some p then map_option (next_desc_update (\<lambda>_. ?v)) (rd_vdesc (fw s) p) else rd_vdesc (fw s) p)" for p
    using x pv by (auto simp: m0_def rd_vdesc_def split: option.split)
  have sl0: "slot m0 e = slot (fw s) e" for e
    using pv by (auto simp: slot_def vdesc_of_def m0(4) vslot_def [abs_def] option.map_comp comp_def)
  show ?case
  proof (cases "ds = []")
    case True
    define m where "m = m0\<lparr>vdescs := (vdescs m0)(?v \<mapsto> x\<lparr>next_desc := NULL\<rparr>)\<rparr>"
    have "upd_vdesc ?v (next_desc_update (\<lambda>_. NULL)) m0 = Some m"
      using x(1) m0(1) by (simp add: upd_vdesc_def rd_vdesc_def m_def)
    then have "relink_walk d prev s = Some (s\<lparr>fw := m\<rparr>)"
      using True Cons.prems(7) by (subst relink_walk.simps) (simp add: up lk Let_def)
    moreover have "rd_vdesc m p = rd_vdesc m0 p" if "p \<noteq> ?v" for p using that by (simp add: m_def rd_vdesc_def)
    moreover have "slot m d = slot (fw s) d"
      unfolding sl0 [symmetric] using m0(1) x(1) by (simp add: slot_def vdesc_of_def rd_vdesc_def m_def vslot_def)
    ultimately show ?thesis
      using True x(1) m0 by (intro exI [of _ m]) (simp add: m_def vd_next_def)
  next
    case False
    then have "last ds \<in> set ds" "d \<in> set (butlast (d # ds))" by simp_all
    then have ls: "dctrl (hwd s d) AND ZM_LS_BIT = 0" using Cons.prems(6) by blast
    have nx: "nextAddr (hwd s d) = hd ds" "hd ds \<noteq> NULL" "hd ds \<in> set ds"
      using False Cons.prems(1,4) by (cases ds; simp)+
    have st: "relink_walk d prev s = relink_walk (hd ds) (Some ?v) (s\<lparr>fw := m0\<rparr>)"
      using ls nx by (subst relink_walk.simps) (simp add: up lk Let_def)
    have pr: "links (hwd (s\<lparr>fw := m0\<rparr>)) ds nx" "distinct ds" "NULL \<notin> set ds"
      "\<forall>d \<in> set ds. describes (hwd (s\<lparr>fw := m0\<rparr>) d) (slot (fw (s\<lparr>fw := m0\<rparr>)) d)"
      "\<forall>d \<in> set (butlast ds). dctrl (hwd (s\<lparr>fw := m0\<rparr>) d) AND ZM_LS_BIT = 0"
      "dctrl (hwd (s\<lparr>fw := m0\<rparr>) (last ds)) AND ZM_LS_BIT \<noteq> 0"
      "pred_option (\<lambda>pv. pv \<notin> VDESC_HW_TO_VDESC ` set ds \<and> rd_vdesc (fw (s\<lparr>fw := m0\<rparr>)) pv \<noteq> None) (Some ?v)"
      using Cons.prems False x(1) m0(1) by (auto simp: sl0 rd_vdesc_def)
    obtain m where m: "relink_walk (hd ds) (Some ?v) (s\<lparr>fw := m0\<rparr>) = Some (s\<lparr>fw := m\<rparr>)"
      "chain (vd_next (vdescs m)) (VDESC_HW_TO_VDESC (hd ds)) (map VDESC_HW_TO_VDESC ds)"
      "\<forall>d \<in> set ds. slot m d = slot m0 d"
      "\<And>p. p \<notin> VDESC_HW_TO_VDESC ` set ds \<Longrightarrow> rd_vdesc m p =
         (if Some ?v = Some p then map_option (next_desc_update (\<lambda>_. VDESC_HW_TO_VDESC (hd ds))) (rd_vdesc m0 p) else rd_vdesc m0 p)"
      "vbufs m = vbufs m0" "bytes m = bytes m0"
      using Cons.IH [OF pr(1) False pr(2-7)] by auto
    have vn: "?v \<notin> VDESC_HW_TO_VDESC ` set ds" using Cons.prems(3) by auto
    have mv: "rd_vdesc m ?v = Some (x\<lparr>next_desc := VDESC_HW_TO_VDESC (hd ds)\<rparr>)"
      using m(4) [OF vn] m0(1) x(1) by (simp add: rd_vdesc_def)
    then have "chain (vd_next (vdescs m)) ?v (map VDESC_HW_TO_VDESC (d # ds))"
      using m(2) x(1) by (simp add: chain_vd_Cons rd_vdesc_def split: if_split_asm del: chain.simps)
    moreover have "slot m d = slot (fw s) d"
      unfolding sl0 [symmetric] using mv m0(1) x(1) by (simp add: slot_def vdesc_of_def vslot_def rd_vdesc_def)
    moreover have "rd_vdesc m p = rd_vdesc m0 p" if "p \<notin> VDESC_HW_TO_VDESC ` set (d # ds)" for p
      using m(4) [of p] that by auto
    ultimately show ?thesis
      using st m(1,3,5,6) sl0 m0 by (intro exI [of _ m]) simp
  qed
qed simp

lemma xmited_remove:
  assumes "xmited V h t (b # bufs)" "V b = Some x"
  shows "xmited (V(b \<mapsto> y)) (if h = t then NULL else next_buf x) (if h = t then NULL else t) bufs"
proof -
  have d: "b \<notin> set bufs" "h = b" "t = last (b # bufs)" using assms(1) by (auto simp: xmited_def)
  have ht: "h = t \<longleftrightarrow> bufs = []" using d by (auto split: if_splits)
  have n: "bufs \<noteq> [] \<Longrightarrow> next_buf x = hd bufs"
    using assms by (auto simp: xmited_def successively_Cons)
  have "successively (\<lambda>c e. map_option next_buf (V c) = Some e) bufs"
    using assms(1) by (cases bufs) (simp_all add: xmited_def)
  then have "successively (\<lambda>c e. map_option next_buf ((V(b \<mapsto> y)) c) = Some e) bufs"
    by (subst successively_cong [where Q = "\<lambda>c e. map_option next_buf (V c) = Some e"]) (use d(1) in auto)
  then show ?thesis
    using assms(1) d n unfolding ht by (auto simp: xmited_def)
qed

text \<open>What a buffer holds: its length and the data of its descriptors.\<close>

definition holds :: "fw_mem \<Rightarrow> addr \<Rightarrow> u16 \<times> slot option list \<Rightarrow> bool" where
  "holds m buf c \<longleftrightarrow> (\<exists>b vs. rd_vbuf m buf = Some b \<and> chain (vd_next (vdescs m)) (desc_list b) vs \<and>
     c = (buf_length b, map (\<lambda>v. map_option vslot (rd_vdesc m v)) vs))"

text \<open>A packet the hardware is done with comes back as the oldest buffer, with the data it described.\<close>

lemma reap_oldest:
  fixes q :: "'q zsTxDmaQueue_scheme" and s :: "'a dma_scheme"
  assumes q: "tx_queue s q (b # bufs) (ds # pkts)"
    and own: "dstatus (hwd s (qhead q)) AND ZM_OWN_BITS_MASK \<in> {ZM_OWN_BITS_SW, ZM_OWN_BITS_SE}"
  shows "\<exists>q' s'. DMAengine_reap_xmited_buf q s = Some (b, q', s') \<and> tx_queue s' q' bufs pkts \<and>
    terminator q' = terminator q \<and> holds (fw s') b (payload (fw s) (hwd s) ds) \<and>
    map (payload (fw s') (hwd s')) pkts = map (payload (fw s) (hwd s)) pkts"
proof -
  have r: "ring (hwd s) q (ds @ concat pkts)" "length bufs = length pkts" "packet (fw s) (hwd s) ds"
    "\<And>ds. ds \<in> set pkts \<Longrightarrow> packet (fw s) (hwd s) ds" "vdesc_of (fw s) (terminator q) \<noteq> None"
    "xmited (vbufs (fw s)) (xmited_buf_head q) (xmited_buf_tail q) (b # bufs)"
    using q by (auto simp: tx_queue_def)
  have p: "ds \<noteq> []" "lastAddr (hwd s (hd ds)) = last ds" "\<forall>d \<in> set ds. describes (hwd s d) (slot (fw s) d)"
    "\<forall>d \<in> set (butlast ds). dctrl (hwd s d) AND ZM_LS_BIT = 0" "dctrl (hwd s (last ds)) AND ZM_LS_BIT \<noteq> 0"
    using r(3) by (auto simp: packet_def)
  define nx where "nx = hd (concat pkts @ [terminator q])"
  have k: "links (hwd s) ds nx" "links (hwd s) (concat pkts) (terminator q)" "qhead q = hd ds" "hd ds \<in> set ds"
    using r(1) p(1) by (auto simp: ring_def links_append nx_def)
  have dist: "distinct (ds @ concat pkts @ [terminator q])" "NULL \<notin> set (ds @ concat pkts @ [terminator q])"
    using r(1) by (auto simp: ring_def)
  have hdn: "qhead q \<noteq> terminator q" "qhead q \<noteq> NULL" using dist k(3,4) by auto
  have lastn: "nextAddr (hwd s (last ds)) = nx"
    using k(1) p(1) by (cases ds rule: rev_cases) (auto simp: links_append)
  have get: "zfDmaGetPacket q s = (hd ds, q\<lparr>qhead := nx\<rparr>)"
    using own hdn k(3) p(2) lastn by (simp add: zfDmaGetPacket_def Let_def)
  obtain x where x: "b \<noteq> NULL" "vbufs (fw s) b = Some x" "xmited_buf_head q = b"
    using r(6) by (auto simp: xmited_def)
  define q' where "q' = (if b = xmited_buf_tail q then q\<lparr>qhead := nx, xmited_buf_head := NULL, xmited_buf_tail := NULL\<rparr>
    else q\<lparr>qhead := nx, xmited_buf_head := next_buf x\<rparr>)"
  define y where "y = x\<lparr>next_buf := NULL, desc_list := VDESC_HW_TO_VDESC (hd ds), buf_length := totalLen (hwd s (hd ds))\<rparr>"
  define m1 where "m1 = (fw s)\<lparr>vbufs := (vbufs (fw s))(b \<mapsto> y)\<rparr>"
  have m1: "slot m1 = slot (fw s)" "rd_vdesc m1 = rd_vdesc (fw s)"
    by (simp_all add: m1_def slot_def vdesc_of_def rd_vdesc_def fun_eq_iff)
  obtain m where m: "relink_walk (hd ds) None (s\<lparr>fw := m1\<rparr>) = Some (s\<lparr>fw := m\<rparr>)"
    "chain (vd_next (vdescs m)) (VDESC_HW_TO_VDESC (hd ds)) (map VDESC_HW_TO_VDESC ds)"
    "\<forall>d \<in> set ds. slot m d = slot (fw s) d"
    "\<And>p. p \<notin> VDESC_HW_TO_VDESC ` set ds \<Longrightarrow> rd_vdesc m p = rd_vdesc (fw s) p" "vbufs m = vbufs m1"
    using relink_walk_links [of "s\<lparr>fw := m1\<rparr>" ds nx None] k(1) p dist by (auto simp: m1)
  have run: "DMAengine_reap_xmited_buf q s = Some (b, q', s\<lparr>fw := m\<rparr>)"
    using hdn k(3) x m(1)
    by (simp add: DMAengine_reap_xmited_buf_def get relinkUSBDescToVdesc_def rd_vbuf_def upd_vbuf_def q'_def m1_def y_def Let_def)
  have q'f: "qhead q' = nx" "terminator q' = terminator q" by (simp_all add: q'_def)
  have xm: "xmited (vbufs m) (xmited_buf_head q') (xmited_buf_tail q') bufs"
    using xmited_remove [OF r(6) x(2), of y] x(3) m(5) by (cases "b = xmited_buf_tail q") (simp_all add: q'_def m1_def)
  have old: "slot m d = slot (fw s) d" if "d \<notin> set ds" for d
    using m(4) [of "VDESC_HW_TO_VDESC d"] that by (simp add: slot_def vdesc_of_def image_iff)
  have pk: "packet m (hwd s) p" "payload m (hwd s) p = payload (fw s) (hwd s) p" if "p \<in> set pkts" for p
  proof -
    have "slot m d = slot (fw s) d" if "d \<in> set p" for d
      using m(3) old [of d] by (cases "d \<in> set ds") auto
    then show "packet m (hwd s) p" "payload m (hwd s) p = payload (fw s) (hwd s) p"
      using packet_cong [of p "hwd s" "hwd s" m "fw s"] r(4) [OF that] by (auto simp: packet_def)
  qed
  have t: "vdesc_of m (terminator q) \<noteq> None"
    using old [of "terminator q"] r(5) dist by (auto simp: slot_def)
  have tx: "tx_queue (s\<lparr>fw := m\<rparr>) q' bufs pkts"
    using r(2) pk t xm dist k(2) by (auto simp: tx_queue_def ring_def q'f nx_def)
  have "map_option vslot (rd_vdesc m (VDESC_HW_TO_VDESC d)) = slot (fw s) d" if "d \<in> set ds" for d
    using m(3) that by (simp add: slot_def vdesc_of_def)
  then have "holds m b (payload (fw s) (hwd s) ds)"
    using m(2,5) x(1) by (auto simp: holds_def payload_def rd_vbuf_def m1_def y_def intro!: exI [of _ "map VDESC_HW_TO_VDESC ds"])
  then show ?thesis
    using run tx pk(2) q'f(2) by (intro exI [of _ q'] exI [of _ "s\<lparr>fw := m\<rparr>"]) simp
qed

lemma reap_nothing:
  "dstatus (hwd s (qhead q)) AND ZM_OWN_BITS_MASK \<notin> {ZM_OWN_BITS_SW, ZM_OWN_BITS_SE} \<or> qhead q = terminator q \<Longrightarrow>
    DMAengine_reap_xmited_buf q s = Some (NULL, q, s)"
  by (auto simp: DMAengine_reap_xmited_buf_def zfDmaGetPacket_def Let_def)

section \<open>Runs\<close>

text \<open>
  The firmware sends buffers and reaps them; in between the hardware changes the status of descriptors. The
  buffers and packets on their way, and what has been sent and reaped so far, are recorded beside the state. A
  buffer that is sent is not on its way and its descriptors are not in the queue.
\<close>

definition sendable :: "'a dma_scheme \<Rightarrow> zsTxDmaQueue \<Rightarrow> addr list \<Rightarrow> addr list list \<Rightarrow> addr \<Rightarrow> addr list \<Rightarrow> bool" where
  "sendable s q bufs pkts buf vs \<longleftrightarrow> vs \<noteq> [] \<and> buf \<notin> set bufs \<and>
     pred_option (\<lambda>b. chain (vd_next (vdescs (fw s))) (desc_list b) vs) (rd_vbuf (fw s) buf) \<and> rd_vbuf (fw s) buf \<noteq> None \<and>
     VDESC_TO_USBDESC ` set vs \<inter> set (NULL # concat pkts @ [terminator q]) = {}"

type_synonym message = "addr \<times> u16 \<times> slot option list"

inductive tx_run :: "'a dma_scheme \<Rightarrow> zsTxDmaQueue \<Rightarrow> addr list \<Rightarrow> addr list list \<Rightarrow> message list \<Rightarrow> message list \<Rightarrow> bool" where
  start: "tx_queue s q [] [] \<Longrightarrow> tx_run s q [] [] [] []"
| send: "tx_run s q bufs pkts sent got \<Longrightarrow> sendable s q bufs pkts buf vs \<Longrightarrow> holds (fw s) buf c \<Longrightarrow>
    DMAengine_xmit_buf q buf s = Some (q', s') \<Longrightarrow>
    tx_run s' q' (bufs @ [buf]) (pkts @ [terminator q # map VDESC_TO_USBDESC (tl vs)]) (sent @ [(buf, c)]) got"
| hardware: "tx_run s q bufs pkts sent got \<Longrightarrow> (\<And>d. (H d)\<lparr>dstatus := 0\<rparr> = (hwd s d)\<lparr>dstatus := 0\<rparr>) \<Longrightarrow>
    tx_run (s\<lparr>hwd := H\<rparr>) q bufs pkts sent got"
| reap: "tx_run s q bufs pkts sent got \<Longrightarrow> DMAengine_reap_xmited_buf q s = Some (buf, q', s') \<Longrightarrow> buf \<noteq> NULL \<Longrightarrow>
    holds (fw s') buf c \<Longrightarrow> tx_run s' q' (tl bufs) (tl pkts) sent (got @ [(buf, c)])"

lemma holds_unique: "holds m buf c \<Longrightarrow> holds m buf c' \<Longrightarrow> c = c'"
  by (auto simp: holds_def dest: chain_unique)

lemma hardware_keeps:
  assumes "tx_queue s q bufs pkts" "\<And>d. (H d)\<lparr>dstatus := 0\<rparr> = (hwd s d)\<lparr>dstatus := 0\<rparr>"
  shows "tx_queue (s\<lparr>hwd := H\<rparr>) q bufs pkts" "payload m H ds = payload m (hwd s) ds"
proof -
  have f: "dctrl (H d) = dctrl (hwd s d)" "totalLen (H d) = totalLen (hwd s d)" "dataSize (H d) = dataSize (hwd s d)"
    "lastAddr (H d) = lastAddr (hwd s d)" "dataAddr (H d) = dataAddr (hwd s d)" "nextAddr (H d) = nextAddr (hwd s d)" for d
    using assms(2) [of d] by (cases "H d"; cases "hwd s d"; simp)+
  have "links H ds nx = links (hwd s) ds nx" for ds nx by (rule links_cong) (simp add: f)
  moreover have "describes (H d) sl = describes (hwd s d) sl" for d sl by (simp add: describes_def f split: option.split)
  ultimately show "tx_queue (s\<lparr>hwd := H\<rparr>) q bufs pkts"
    using assms(1) by (simp add: tx_queue_def ring_def packet_def f)
  show "payload m H ds = payload m (hwd s) ds" by (simp add: payload_def f)
qed

lemma tx_run_fifo:
  assumes "tx_run s q bufs pkts sent got"
  shows "tx_queue s q bufs pkts \<and> sent = got @ zip bufs (map (payload (fw s) (hwd s)) pkts)"
  using assms
proof induction
  case (start s q)
  then show ?case by simp
next
  case (send s q bufs pkts sent got buf vs c q' s')
  obtain v vs' where v: "vs = v # vs'" using send.hyps(2) by (cases vs) (auto simp: sendable_def)
  obtain b where b: "rd_vbuf (fw s) buf = Some b" "chain (vd_next (vdescs (fw s))) (desc_list b) (v # vs')"
    using send.hyps(2) v by (auto simp: sendable_def)
  have ren: "map (slot (fw s)) (map VDESC_TO_USBDESC (v # vs')) = map (\<lambda>v. map_option vslot (rd_vdesc (fw s) v)) (v # vs')"
    by (simp add: slot_def vdesc_of_def)
  have "holds (fw s) buf (buf_length b, map (slot (fw s)) (map VDESC_TO_USBDESC (v # vs')))"
    unfolding ren holds_def using b by blast
  then have c: "c = (buf_length b, map (slot (fw s)) (map VDESC_TO_USBDESC (v # vs')))"
    using holds_unique send.hyps(3) by blast
  let ?ds = "terminator q # map VDESC_TO_USBDESC vs'"
  have IH: "tx_queue s q bufs pkts" "sent = got @ zip bufs (map (payload (fw s) (hwd s)) pkts)" using send.IH by auto
  have "buf \<notin> set bufs" "VDESC_TO_USBDESC ` set (v # vs') \<inter> set (NULL # concat pkts @ [terminator q]) = {}"
    using send.hyps(2) unfolding sendable_def v by auto
  then have x: "tx_queue s' q' (bufs @ [buf]) (pkts @ [?ds])"
    "map (payload (fw s') (hwd s')) (pkts @ [?ds]) = map (payload (fw s) (hwd s)) pkts @ [c]"
    using xmit_appends [OF IH(1) b(1) _ b(2)] send.hyps(4) c by auto
  have "length bufs = length pkts" using IH(1) by (simp add: tx_queue_def)
  then have "zip (bufs @ [buf]) (map (payload (fw s') (hwd s')) (pkts @ [?ds])) = zip bufs (map (payload (fw s) (hwd s)) pkts) @ [(buf, c)]"
    unfolding x(2) by simp
  then show ?case
    unfolding v list.sel using x(1) IH(2) by simp
next
  case (hardware s q bufs pkts sent got H)
  then show ?case using hardware_keeps [of s q bufs pkts H] by simp
next
  case (reap s q bufs pkts sent got buf q' s' c)
  have own: "dstatus (hwd s (qhead q)) AND ZM_OWN_BITS_MASK \<in> {ZM_OWN_BITS_SW, ZM_OWN_BITS_SE} \<and> qhead q \<noteq> terminator q"
    using reap_nothing [of s q] reap.hyps(2,3) by force
  obtain b bs ds ps where bp: "bufs = b # bs" "pkts = ds # ps"
    using reap.IH own by (cases bufs; cases pkts) (auto simp: tx_queue_def ring_def)
  have IH: "tx_queue s q (b # bs) (ds # ps)" "sent = got @ (b, payload (fw s) (hwd s) ds) # zip bs (map (payload (fw s) (hwd s)) ps)"
    using reap.IH by (simp_all add: bp)
  have "buf = b" "tx_queue s' q' bs ps" "holds (fw s') b (payload (fw s) (hwd s) ds)"
    "map (payload (fw s') (hwd s')) ps = map (payload (fw s) (hwd s)) ps"
    using reap_oldest [OF IH(1)] own reap.hyps(2) by auto
  note x = this
  have "sent = (got @ [(buf, c)]) @ zip bs (map (payload (fw s') (hwd s')) ps)"
    unfolding x(4) using IH(2) x(1) holds_unique [OF reap.hyps(4), of "payload (fw s) (hwd s) ds"] x(3) by simp
  then show ?case using x(2) by (simp only: bp list.sel)
qed

section \<open>Properties\<close>

text \<open>The hardware gives every descriptor back.\<close>

definition hw_done :: "'a dma_scheme \<Rightarrow> 'a dma_scheme" where
  "hw_done s = s\<lparr>hwd := \<lambda>d. (hwd s d)\<lparr>dstatus := clear_own (dstatus (hwd s d))\<rparr>\<rparr>"

text \<open>
  A buffer at 0x1000 with two descriptors, at 0x2000 and 0x2040, and an empty queue with its terminator in the
  descriptor at 0x2080.
\<close>

definition dma0 :: dma where
  "dma0 = \<lparr>fw = \<lparr>vbufs = [0x1000 \<mapsto> \<lparr>desc_list = 0x2000, next_buf = NULL, buf_length = 70, ctx = []\<rparr>],
       vdescs = [0x2000 \<mapsto> \<lparr>next_desc = 0x2040, buf_addr = 0x8000, buf_size = 64, data_offset = 8, data_size = 50, control = 0, hw_desc_buf = []\<rparr>,
                 0x2040 \<mapsto> \<lparr>next_desc = NULL, buf_addr = 0x9000, buf_size = 64, data_offset = 0, data_size = 20, control = 0, hw_desc_buf = []\<rparr>,
                 0x2080 \<mapsto> \<lparr>next_desc = NULL, buf_addr = NULL, buf_size = 0, data_offset = 0, data_size = 0, control = 0, hw_desc_buf = []\<rparr>],
       bytes = (\<lambda>_. 0), allocram_current_addr = 0, allocram_remaining_bytes = 0, free_buf_head = NULL, nVbufNum = 0,
       free_vdesc_head = NULL, bufQ = []\<rparr>,
     hwd = (\<lambda>_. \<lparr>dctrl = 0, dstatus = 0, totalLen = 0, dataSize = 0, lastAddr = NULL, dataAddr = 0, nextAddr = NULL\<rparr>)\<rparr>"

definition queue0 :: zsTxDmaQueue where
  "queue0 = \<lparr>qhead = 0x2090, terminator = 0x2090, xmited_buf_head = NULL, xmited_buf_tail = NULL\<rparr>"

definition message0 :: "u16 \<times> slot option list" where
  "message0 = (70, [Some (0x8000, 64, 8, 50, 0), Some (0x9000, 64, 0, 20, 0)])"

lemma dma0_start: "tx_queue dma0 queue0 [] []"
  by (simp add: tx_queue_def ring_def queue0_def dma0_def vdesc_of_def rd_vdesc_def VDESC_HW_TO_VDESC_def xmited_def)

lemma dma0_sendable: "sendable dma0 queue0 [] [] 0x1000 [0x2000, 0x2040]" "holds (fw dma0) 0x1000 message0"
proof -
  have c: "rd_vbuf (fw dma0) 0x1000 = Some \<lparr>desc_list = 0x2000, next_buf = NULL, buf_length = 70, ctx = []\<rparr>"
    "chain (vd_next (vdescs (fw dma0))) 0x2000 [0x2000, 0x2040]"
    by (simp_all add: dma0_def rd_vbuf_def vd_next_def)
  then show "sendable dma0 queue0 [] [] 0x1000 [0x2000, 0x2040]"
    by (simp add: sendable_def VDESC_TO_USBDESC_def queue0_def del: chain.simps)
  have "message0 = (70, map (\<lambda>v. map_option vslot (rd_vdesc (fw dma0) v)) [0x2000, 0x2040])"
    by (simp add: message0_def dma0_def rd_vdesc_def vslot_def)
  then show "holds (fw dma0) 0x1000 message0"
    using c unfolding holds_def by (intro exI [of _ "[0x2000, 0x2040]"] exI conjI) (rule c(1), simp_all del: chain.simps)
qed

lemma clear_own_SW: "clear_own x AND ZM_OWN_BITS_MASK = 0"
  unfolding clear_own_def by (rule bit_word_eqI) (simp only: bit_and_iff bit_not_iff bit_0_eq, auto)

text \<open>
  Property C29. In every run of the transmit queue, with the hardware changing the status of descriptors at any
  time, the buffers come back in the order in which they were sent, each once and with the data it was sent
  with: what was sent is what came back followed by what the packets in the queue describe.
\<close>

theorem dma_tx_queue_fifo:
  assumes "tx_run s q bufs pkts sent got"
  shows "sent = got @ zip bufs (map (payload (fw s) (hwd s)) pkts) \<and> tx_queue s q bufs pkts"
  using tx_run_fifo [OF assms] by simp

theorem dma_tx_queue_fifo_witness:
  "\<exists>(s :: dma) q ds. tx_run s q [0x1000] [ds] [(0x1000, message0)] [] \<and> payload (fw s) (hwd s) ds = message0"
proof -
  obtain q s where x: "DMAengine_xmit_buf queue0 0x1000 dma0 = Some (q, s)"
    using xmit_appends [OF dma0_start, of "0x1000" _ "0x2000" "[0x2040]"] dma0_sendable(1) by (auto simp: sendable_def)
  then have "tx_run s q [0x1000] [[0x2090, 0x2050]] [(0x1000, message0)] []"
    using tx_run.send [OF tx_run.start [OF dma0_start] dma0_sendable x] by (simp add: queue0_def VDESC_TO_USBDESC_def)
  then have "tx_run s q [0x1000] [[0x2090, 0x2050]] [(0x1000, message0)] [] \<and>
      payload (fw s) (hwd s) [0x2090, 0x2050] = message0"
    using dma_tx_queue_fifo [of s q "[0x1000]" "[[0x2090, 0x2050]]" "[(0x1000, message0)]" "[]"] by simp
  then show ?thesis by blast
qed

text \<open>
  Property C30. A buffer that is sent on an empty queue is accepted, and when the hardware has given the
  descriptors back the next reaping returns this buffer, holding the same data, and the queue is empty again,
  although the first descriptor of the packet has been exchanged for the terminator.
\<close>

theorem dma_send_reap_roundtrip:
  assumes "tx_queue s q [] []" "sendable s q [] [] buf vs" "holds (fw s) buf c"
  shows "\<exists>q1 s1 q2 s2. DMAengine_xmit_buf q buf s = Some (q1, s1) \<and>
    DMAengine_reap_xmited_buf q1 (hw_done s1) = Some (buf, q2, s2) \<and> holds (fw s2) buf c \<and> tx_queue s2 q2 [] []"
proof -
  obtain v vs' b where v: "vs = v # vs'" "rd_vbuf (fw s) buf = Some b" "chain (vd_next (vdescs (fw s))) (desc_list b) (v # vs')"
    "VDESC_TO_USBDESC ` set (v # vs') \<inter> set (NULL # concat [] @ [terminator q]) = {}"
    using assms(2) by (cases vs) (auto simp: sendable_def)
  obtain q1 s1 where x: "DMAengine_xmit_buf q buf s = Some (q1, s1)"
    using xmit_appends [OF assms(1) v(2) _ v(3,4)] by auto
  then have r: "tx_run s1 q1 [buf] [terminator q # map VDESC_TO_USBDESC vs'] [(buf, c)] []"
    using tx_run.send [OF tx_run.start [OF assms(1)] assms(2,3) x] v(1) by simp
  have t: "tx_run (hw_done s1) q1 [buf] [terminator q # map VDESC_TO_USBDESC vs'] [(buf, c)] []"
    unfolding hw_done_def by (rule tx_run.hardware [OF r]) simp
  note f = tx_run_fifo [OF t]
  have "dstatus (hwd (hw_done s1) (qhead q1)) AND ZM_OWN_BITS_MASK \<in> {ZM_OWN_BITS_SW, ZM_OWN_BITS_SE}"
    by (simp add: hw_done_def clear_own_SW)
  then show ?thesis
    using reap_oldest [OF conjunct1 [OF f]] x f by auto
qed

theorem dma_send_reap_roundtrip_witness:
  "\<exists>q1 s1 q2 s2. DMAengine_xmit_buf queue0 0x1000 dma0 = Some (q1, s1) \<and>
    DMAengine_reap_xmited_buf q1 (hw_done s1) = Some (0x1000, q2, s2) \<and> holds (fw s2) 0x1000 message0 \<and> tx_queue s2 q2 [] []"
  using dma_send_reap_roundtrip [OF dma0_start dma0_sendable] .

end
