(* ===== verification/Hif_Usb.thy ===== *)
theory Hif_Usb
  imports Dma_Queue
begin

unbundle bit_operations_syntax

text \<open>
  The USB interface of the host (\<^verbatim>\<open>HIF_usb.c\<close> with its patches, \<^verbatim>\<open>usb_api_main_patch.c\<close>,
  \<^verbatim>\<open>usb_api_k2_patch.c\<close>). Data endpoints are served by the DMA engine's queues. Commands of the host arrive on
  endpoint 4 and events leave on endpoint 3, in packets of at most 64 bytes that the firmware moves word by word
  between memory and the FIFO of the endpoint.

  What the code does to the controller is the list of its accesses, in order; what a read returns, and what the
  DMA has made of the hardware descriptors when they are polled, is a function of the accesses before it. The
  layer above, HTC, is the pair of callbacks it registers. A function that may not return because it jumps
  to the boot code has a sum as its result: \<open>Inl\<close> with the last state before the jump, \<open>Inr\<close> when it returns.
\<close>

section \<open>State\<close>

datatype usb_op = Rd8 u32 | Wr8 u32 u8 | Rd32 u32 | Wr32 u32 u32 | Dma_Poll | Delay_Us u32 | Uart_Hwinit u32 u32
  | Power_Off | Restore_Printf

record usb_hw =
  rd8_val :: "usb_op list \<Rightarrow> u32 \<Rightarrow> u8"
  rd32_val :: "usb_op list \<Rightarrow> u32 \<Rightarrow> u32"
  dma_val :: "usb_op list \<Rightarrow> (addr \<Rightarrow> zsDmaDesc) \<Rightarrow> addr \<Rightarrow> zsDmaDesc"

record 's usb_env = usb_hw +
  recv_buf :: "addr \<Rightarrow> 's \<Rightarrow> 's option"
  send_buf_done :: "addr \<Rightarrow> 's \<Rightarrow> 's option"

record usb_io = dma +
  usb_log :: "usb_op list"

text \<open>
  The context \<^verbatim>\<open>g_hifUSBCtx\<close> without the callbacks, and the static variables of \<^verbatim>\<open>usb_status_in_patch\<close> (\<open>in_\<close>)
  and \<^verbatim>\<open>usb_reg_out_patch\<close> (\<open>out_\<close>).
\<close>

record hif_usb = usb_io +
  dnQ :: zsDmaQueue
  upQ :: zsTxDmaQueue
  hpdnQ :: zsDmaQueue
  mpdnQ :: zsDmaQueue
  cmdQueue :: addr
  ev_head :: addr
  ev_tail :: addr
  in_new :: bool
  in_evntbuf :: addr
  in_regaddr :: addr
  in_buf_len :: u16
  out_new :: bool
  out_buf :: addr
  out_regaddr :: addr
  out_cmd_len :: u16

section \<open>Access to the controller\<close>

definition usb_do :: "usb_op \<Rightarrow> 'a usb_io_scheme \<Rightarrow> 'a usb_io_scheme" where
  "usb_do x s = s\<lparr>usb_log := usb_log s @ [x]\<rparr>"

definition ioread8 :: "'e usb_hw_scheme \<Rightarrow> u32 \<Rightarrow> 'a usb_io_scheme \<Rightarrow> u8 \<times> 'a usb_io_scheme" where
  "ioread8 env a s = (rd8_val env (usb_log s) a, usb_do (Rd8 a) s)"

definition iord32 :: "'e usb_hw_scheme \<Rightarrow> u32 \<Rightarrow> 'a usb_io_scheme \<Rightarrow> u32 \<times> 'a usb_io_scheme" where
  "iord32 env a s = (rd32_val env (usb_log s) a, usb_do (Rd32 a) s)"

abbreviation iowr8 :: "u32 \<Rightarrow> u8 \<Rightarrow> 'a usb_io_scheme \<Rightarrow> 'a usb_io_scheme" where
  "iowr8 a v \<equiv> usb_do (Wr8 a v)"

abbreviation iowr32 :: "u32 \<Rightarrow> u32 \<Rightarrow> 'a usb_io_scheme \<Rightarrow> 'a usb_io_scheme" where
  "iowr32 a v \<equiv> usb_do (Wr32 a v)"

definition io8_rmw :: "'e usb_hw_scheme \<Rightarrow> u32 \<Rightarrow> u8 \<Rightarrow> u8 \<Rightarrow> 'a usb_io_scheme \<Rightarrow> 'a usb_io_scheme" where
  "io8_rmw env a st cl s = (let (v, s) = ioread8 env a s in iowr8 a (v AND NOT cl OR st) s)"

definition io32_rmw :: "'e usb_hw_scheme \<Rightarrow> u32 \<Rightarrow> u32 \<Rightarrow> u32 \<Rightarrow> 'a usb_io_scheme \<Rightarrow> 'a usb_io_scheme" where
  "io32_rmw env a st cl s = (let (v, s) = iord32 env a s in iowr32 a (v AND NOT cl OR st) s)"

text \<open>The controller's registers; its bytes are numbered from the other end of the word.\<close>

definition usb8 :: "u32 \<Rightarrow> u32" where "usb8 off = 0x00010000 OR (off XOR 3)"
definition usb32 :: "u32 \<Rightarrow> u32" where "usb32 off = 0x00010000 OR off"

abbreviation (input) ZM_CBUS_FIFO_SIZE_OFFSET :: u32 where "ZM_CBUS_FIFO_SIZE_OFFSET \<equiv> 0x100"
abbreviation (input) ZM_INTR_MASK_BYTE_6_OFFSET :: u32 where "ZM_INTR_MASK_BYTE_6_OFFSET \<equiv> 0x17"
abbreviation (input) ZM_EP3_BYTE_COUNT_HIGH_OFFSET :: u32 where "ZM_EP3_BYTE_COUNT_HIGH_OFFSET \<equiv> 0xAE"
abbreviation (input) ZM_EP4_BYTE_COUNT_LOW_OFFSET :: u32 where "ZM_EP4_BYTE_COUNT_LOW_OFFSET \<equiv> 0xBF"
abbreviation (input) ZM_EP3_DATA_OFFSET :: u32 where "ZM_EP3_DATA_OFFSET \<equiv> 0xF8"
abbreviation (input) ZM_EP4_DATA_OFFSET :: u32 where "ZM_EP4_DATA_OFFSET \<equiv> 0xFC"
abbreviation (input) ZM_SOC_USB_DMA_RESET_OFFSET :: u32 where "ZM_SOC_USB_DMA_RESET_OFFSET \<equiv> 0x118"
abbreviation (input) MAGPIE_REG_USB_INTERRUPT :: u32 where "MAGPIE_REG_USB_INTERRUPT \<equiv> 0x00055000"
abbreviation (input) MAGPIE_REG_USB_INTERRUPT_MASK :: u32 where "MAGPIE_REG_USB_INTERRUPT_MASK \<equiv> 0x00055004"
abbreviation (input) MAGPIE_REG_USB_RX0_DESC_START :: u32 where "MAGPIE_REG_USB_RX0_DESC_START \<equiv> 0x00055800"
abbreviation (input) MAGPIE_REG_USB_RX0_DMA_START :: u32 where "MAGPIE_REG_USB_RX0_DMA_START \<equiv> 0x00055804"
abbreviation (input) MAGPIE_REG_USB_RX1_DESC_START :: u32 where "MAGPIE_REG_USB_RX1_DESC_START \<equiv> 0x00055900"
abbreviation (input) MAGPIE_REG_USB_RX1_DMA_START :: u32 where "MAGPIE_REG_USB_RX1_DMA_START \<equiv> 0x00055904"
abbreviation (input) MAGPIE_REG_USB_RX2_DESC_START :: u32 where "MAGPIE_REG_USB_RX2_DESC_START \<equiv> 0x00055a00"
abbreviation (input) MAGPIE_REG_USB_RX2_DMA_START :: u32 where "MAGPIE_REG_USB_RX2_DMA_START \<equiv> 0x00055a04"
abbreviation (input) MAGPIE_REG_USB_TX0_DESC_START :: u32 where "MAGPIE_REG_USB_TX0_DESC_START \<equiv> 0x00055C00"
abbreviation (input) MAGPIE_REG_USB_TX0_DMA_START :: u32 where "MAGPIE_REG_USB_TX0_DMA_START \<equiv> 0x00055C04"
abbreviation (input) MAGPIE_REG_RST_PWDN_CTRL_ADDR :: u32 where "MAGPIE_REG_RST_PWDN_CTRL_ADDR \<equiv> 0x00050044"
abbreviation (input) MAGPIE_REG_RST_STATUS_ADDR :: u32 where "MAGPIE_REG_RST_STATUS_ADDR \<equiv> 0x0005004C"
abbreviation (input) MAGPIE_REG_USB_RX0_SWAP_DATA :: u32 where "MAGPIE_REG_USB_RX0_SWAP_DATA \<equiv> 0x0005581C"
abbreviation (input) MAGPIE_REG_USB_RX1_SWAP_DATA :: u32 where "MAGPIE_REG_USB_RX1_SWAP_DATA \<equiv> 0x0005591C"
abbreviation (input) MAGPIE_REG_USB_RX2_SWAP_DATA :: u32 where "MAGPIE_REG_USB_RX2_SWAP_DATA \<equiv> 0x00055a1C"
abbreviation (input) MAGPIE_REG_USB_TX0_SWAP_DATA :: u32 where "MAGPIE_REG_USB_TX0_SWAP_DATA \<equiv> 0x00055C18"
abbreviation (input) ZM_INTR_SOURCE_7_OFFSET :: u32 where "ZM_INTR_SOURCE_7_OFFSET \<equiv> 0x28"
abbreviation (input) DEBUG_SYSTEM_STATE :: u32 where "DEBUG_SYSTEM_STATE \<equiv> 0x00527ff4"
abbreviation (input) SUS_MAGIC_PATTERN :: u32 where "SUS_MAGIC_PATTERN \<equiv> 0x5F535553"

abbreviation (input) HIF_USB_PIPE_TX :: int where "HIF_USB_PIPE_TX \<equiv> 1"
abbreviation (input) HIF_USB_PIPE_INTERRUPT :: int where "HIF_USB_PIPE_INTERRUPT \<equiv> 3"
abbreviation (input) HIF_USB_PIPE_COMMAND :: int where "HIF_USB_PIPE_COMMAND \<equiv> 4"
abbreviation (input) HIF_USB_PIPE_HP_TX :: int where "HIF_USB_PIPE_HP_TX \<equiv> 5"
abbreviation (input) HIF_USB_PIPE_MP_TX :: int where "HIF_USB_PIPE_MP_TX \<equiv> 6"

definition mUSB_STATUS_IN_INT_ENABLE :: "'e usb_hw_scheme \<Rightarrow> 'a usb_io_scheme \<Rightarrow> 'a usb_io_scheme" where
  "mUSB_STATUS_IN_INT_ENABLE env s =
     (let (v, s) = ioread8 env (usb8 ZM_INTR_MASK_BYTE_6_OFFSET) s in iowr8 (usb8 ZM_INTR_MASK_BYTE_6_OFFSET) (v AND 0xbf) s)"

definition mUSB_STATUS_IN_INT_DISABLE :: "'e usb_hw_scheme \<Rightarrow> 'a usb_io_scheme \<Rightarrow> 'a usb_io_scheme" where
  "mUSB_STATUS_IN_INT_DISABLE env s =
     (let (v, s) = ioread8 env (usb8 ZM_INTR_MASK_BYTE_6_OFFSET) s in iowr8 (usb8 ZM_INTR_MASK_BYTE_6_OFFSET) (v OR 0xc0) s)"

definition mUSB_EP3_XFER_DONE :: "'e usb_hw_scheme \<Rightarrow> 'a usb_io_scheme \<Rightarrow> 'a usb_io_scheme" where
  "mUSB_EP3_XFER_DONE env s =
     (let (v, s) = ioread8 env (usb8 ZM_EP3_BYTE_COUNT_HIGH_OFFSET) s
      in iowr8 (usb8 ZM_EP3_BYTE_COUNT_HIGH_OFFSET) (v OR 0x08) s)"

text \<open>Words of memory, most significant byte first.\<close>

definition ld32 :: "(addr \<Rightarrow> u8) \<Rightarrow> addr \<Rightarrow> u32" where
  "ld32 f a = push_bit 24 (ucast (f a)) OR push_bit 16 (ucast (f (a + 1))) OR push_bit 8 (ucast (f (a + 2))) OR ucast (f (a + 3))"

definition st32 :: "addr \<Rightarrow> u32 \<Rightarrow> (addr \<Rightarrow> u8) \<Rightarrow> addr \<Rightarrow> u8" where
  "st32 a v f = f(a := ucast (drop_bit 24 v), a + 1 := ucast (drop_bit 16 v), a + 2 := ucast (drop_bit 8 v), a + 3 := ucast v)"

section \<open>Suspension\<close>

definition iowr32_all :: "(u32 \<times> u32) list \<Rightarrow> 'a usb_io_scheme \<Rightarrow> 'a usb_io_scheme" where
  "iowr32_all xs s = fold (\<lambda>(a, v). iowr32 a v) xs s"

definition fw_usb_reset_fifo :: "'e usb_hw_scheme \<Rightarrow> 'a usb_io_scheme \<Rightarrow> 'a usb_io_scheme" where
  "fw_usb_reset_fifo env s =
     (let s = io8_rmw env 0x100ae 0x10 0 s;
          s = io8_rmw env 0x100af 0x10 0 s;
          s = mUSB_STATUS_IN_INT_DISABLE env s;
          s = iowr32 MAGPIE_REG_RST_STATUS_ADDR SUS_MAGIC_PATTERN s;
          s = iowr32 (usb32 ZM_SOC_USB_DMA_RESET_OFFSET) 0 s;
          s = iowr32 MAGPIE_REG_RST_PWDN_CTRL_ADDR 0x4 s;
          s = io32_rmw env MAGPIE_REG_RST_PWDN_CTRL_ADDR 0x1 0 s;
          s = iowr32 MAGPIE_REG_RST_PWDN_CTRL_ADDR 0 s;
          s = iowr32 (usb32 ZM_SOC_USB_DMA_RESET_OFFSET) 0x1 s;
          s = iowr32 0x50040 0x200 s
      in usb_do (Uart_Hwinit 22000000 19200) s)"

text \<open>At most 50 milliseconds are waited for the frame number to stand still; the result says whether it did.\<close>

fun sof_loop :: "'e usb_hw_scheme \<Rightarrow> nat \<Rightarrow> u32 \<Rightarrow> 'a usb_io_scheme \<Rightarrow> bool \<times> 'a usb_io_scheme" where
  "sof_loop env 0 sof_no s = (False, s)"
| "sof_loop env (Suc n) sof_no s =
     (let s = usb_do (Delay_Us 1000) s;
          (sof_no_new, s) = iord32 env 0x10004 s
      in if sof_no_new = sof_no then (True, s) else sof_loop env n sof_no_new s)"

definition debug_state :: "'e usb_hw_scheme \<Rightarrow> u32 \<Rightarrow> 'a usb_io_scheme \<Rightarrow> 'a usb_io_scheme" where
  "debug_state env v s = (let (x, s) = iord32 env DEBUG_SYSTEM_STATE s in iowr32 DEBUG_SYSTEM_STATE (x AND NOT 0xffff OR v) s)"

text \<open>All that happens before the jump to the boot code, which does not return.\<close>

definition fw_usb_suspend_reboot :: "'e usb_hw_scheme \<Rightarrow> 'a usb_io_scheme \<Rightarrow> 'a usb_io_scheme" where
  "fw_usb_suspend_reboot env s =
     (let s = io8_rmw env (usb8 ZM_INTR_SOURCE_7_OFFSET) 0 0x4 s;
          s = iowr32 MAGPIE_REG_RST_STATUS_ADDR SUS_MAGIC_PATTERN s;
          s = fw_usb_reset_fifo env s;
          s = usb_do Power_Off s;
          s = debug_state env 0x1000 s;
          (gpio_in, s) = iord32 env 0x1000404c s;
          s = iowr32 0x1000404c 0 s;
          (pupd, s) = iord32 env 0x10004088 s;
          s = iowr32 0x10004088 0xA982AA6A s;
          (sof_no, s) = iord32 env 0x10004 s;
          (still, s) = sof_loop env 50 sof_no s;
          s = usb_do Restore_Printf s;
          s = (if still then io32_rmw env 0x10000 0x8 0 s else s);
          s = debug_state env 0x1100 s;
          s = iowr32 0x1000404c gpio_in s;
          s = iowr32 0x10004088 pupd s;
          s = debug_state env 0x1200 s;
          s = iowr32 MAGPIE_REG_RST_PWDN_CTRL_ADDR 0x2 s;
          s = io32_rmw env MAGPIE_REG_RST_PWDN_CTRL_ADDR 0x1 0 s;
          s = iowr32 MAGPIE_REG_RST_PWDN_CTRL_ADDR 0 s;
          s = usb_do (Delay_Us 1000) s;
          s = mUSB_STATUS_IN_INT_DISABLE env s;
          s = iowr32_all [(MAGPIE_REG_USB_RX0_SWAP_DATA, 1), (MAGPIE_REG_USB_TX0_SWAP_DATA, 1),
                (MAGPIE_REG_USB_RX1_SWAP_DATA, 1), (MAGPIE_REG_USB_RX2_SWAP_DATA, 1)] s;
          (x, s) = iord32 env DEBUG_SYSTEM_STATE s
      in if drop_bit 16 (x AND NOT 0xffff) = 0x5342 then iowr32 0x50040 0x300 s else s)"

definition cold_reboot :: "'a usb_io_scheme \<Rightarrow> 'a usb_io_scheme" where
  "cold_reboot s = iowr32 MAGPIE_REG_RST_STATUS_ADDR 0 s"

section \<open>Buffers of the command and the event endpoint\<close>

definition usbfifo_get_command_buf :: "'a hif_usb_scheme \<Rightarrow> (addr \<times> 'a hif_usb_scheme) option" where
  "usbfifo_get_command_buf s = do {
     let buf = cmdQueue s;
     b \<leftarrow> rd_vbuf (fw s) buf;
     let s = s\<lparr>cmdQueue := next_buf b\<rparr>;
     m \<leftarrow> upd_vbuf buf (next_buf_update (\<lambda>_. NULL)) (fw s);
     Some (buf, s\<lparr>fw := m\<rparr>) }"

text \<open>
  The first descriptor of the buffer is described to \<^verbatim>\<open>DMA_Engine_swap_data\<close>, which reverses the bytes of each
  word of its data.
\<close>

definition swap_buf :: "addr \<Rightarrow> 'a hif_usb_scheme \<Rightarrow> 'a hif_usb_scheme option" where
  "swap_buf buf s = do {
     b \<leftarrow> rd_vbuf (fw s) buf;
     v \<leftarrow> rd_vdesc (fw s) (desc_list b);
     let p = VDESC_TO_USBDESC (desc_list b);
     let s = upd_hwd p (\<lambda>d. d\<lparr>dataSize := data_size v, dataAddr := buf_addr v + ucast (data_offset v)\<rparr>) s;
     Some (swapData p s) }"

definition usbfifo_recv_command :: "'a hif_usb_scheme usb_env \<Rightarrow> addr \<Rightarrow> 'a hif_usb_scheme \<Rightarrow> 'a hif_usb_scheme option" where
  "usbfifo_recv_command env buf s = do { s \<leftarrow> swap_buf buf s; recv_buf env buf s }"

text \<open>On an empty queue the link of the buffer at NULL is written.\<close>

definition usbfifo_get_event_buf :: "'a hif_usb_scheme \<Rightarrow> (addr \<times> 'a hif_usb_scheme) option" where
  "usbfifo_get_event_buf s = do {
     let buf = ev_head s;
     s \<leftarrow> (if ev_head s = ev_tail s then Some (s\<lparr>ev_head := NULL, ev_tail := NULL\<rparr>)
           else do { b \<leftarrow> rd_vbuf (fw s) buf; Some (s\<lparr>ev_head := next_buf b\<rparr>) });
     m \<leftarrow> upd_vbuf buf (next_buf_update (\<lambda>_. NULL)) (fw s);
     Some (buf, s\<lparr>fw := m\<rparr>) }"

definition usbfifo_send_event_done :: "'a hif_usb_scheme usb_env \<Rightarrow> addr \<Rightarrow> 'a hif_usb_scheme \<Rightarrow> 'a hif_usb_scheme option" where
  "usbfifo_send_event_done env buf s = send_buf_done env buf s"

definition send_buffer_via_fifo :: "'a hif_usb_scheme usb_env \<Rightarrow> addr \<Rightarrow> 'a hif_usb_scheme \<Rightarrow> 'a hif_usb_scheme option" where
  "send_buffer_via_fifo env buf s = do {
     s \<leftarrow> swap_buf buf s;
     s \<leftarrow> (if ev_head s = NULL then Some (s\<lparr>ev_head := buf, ev_tail := buf\<rparr>)
           else do { m \<leftarrow> upd_vbuf (ev_tail s) (next_buf_update (\<lambda>_. buf)) (fw s); Some (s\<lparr>fw := m, ev_tail := buf\<rparr>) });
     Some (mUSB_STATUS_IN_INT_ENABLE env s) }"

section \<open>Endpoint 3: events to the host\<close>

text \<open>Whole words to the FIFO, and the rest of one to three bytes, for which the FIFO is made narrower.\<close>

fun ep3_words :: "nat \<Rightarrow> 'a hif_usb_scheme \<Rightarrow> 'a hif_usb_scheme" where
  "ep3_words 0 s = s"
| "ep3_words (Suc n) s =
     ep3_words n (let s' = iowr32 (usb32 ZM_EP3_DATA_OFFSET) (ld32 (bytes (fw s)) (in_regaddr s)) s
                  in s'\<lparr>in_regaddr := in_regaddr s + 4\<rparr>)"

definition ep3_rest :: "u16 \<Rightarrow> 'a hif_usb_scheme \<Rightarrow> 'a hif_usb_scheme" where
  "ep3_rest remainder s =
     (if remainder = 0 then s
      else let s = (if remainder = 3 then iowr32 (usb32 ZM_CBUS_FIFO_SIZE_OFFSET) 0x7 s
                    else if remainder = 2 then iowr32 (usb32 ZM_CBUS_FIFO_SIZE_OFFSET) 0x3 s
                    else if remainder = 1 then iowr32 (usb32 ZM_CBUS_FIFO_SIZE_OFFSET) 0x1 s else s);
               s = iowr32 (usb32 ZM_EP3_DATA_OFFSET) (ld32 (bytes (fw s)) (in_regaddr s)) s
           in iowr32 (usb32 ZM_CBUS_FIFO_SIZE_OFFSET) 0xF s)"

definition usb_status_in :: "'a hif_usb_scheme usb_env \<Rightarrow> 'a hif_usb_scheme \<Rightarrow> 'a hif_usb_scheme option" where
  "usb_status_in env s = do {
     (go, s) \<leftarrow> (if in_new s then do {
         (ev, s) \<leftarrow> usbfifo_get_event_buf s;
         let s = s\<lparr>in_evntbuf := ev\<rparr>;
         if ev \<noteq> NULL then do {
           b \<leftarrow> rd_vbuf (fw s) ev;
           v \<leftarrow> rd_vdesc (fw s) (desc_list b);
           Some (True, s\<lparr>in_regaddr := buf_addr v + ucast (data_offset v), in_buf_len := buf_length b, in_new := False\<rparr>) }
         else Some (False, mUSB_STATUS_IN_INT_DISABLE env s) }
       else Some (True, s));
     if \<not> go then Some s
     else do {
       let n = in_buf_len s;
       let reg_buf_len = (if n > 64 then 64 else n);
       let s = (if n > 64 then s\<lparr>in_buf_len := n - 64\<rparr> else s);
       let s = ep3_words (unat (reg_buf_len div 4)) s;
       let s = ep3_rest (reg_buf_len mod 4) s;
       let s = mUSB_EP3_XFER_DONE env s;
       if in_evntbuf s \<noteq> NULL \<and> \<not> n > 64 then do {
         s \<leftarrow> usbfifo_send_event_done env (in_evntbuf s) s;
         Some (s\<lparr>in_new := True\<rparr>) }
       else Some s } }"

section \<open>Endpoint 4: commands of the host\<close>

definition fw_usbfifo_recv_command :: "'a hif_usb_scheme usb_env \<Rightarrow> addr \<Rightarrow> 'a hif_usb_scheme \<Rightarrow>
    ('a hif_usb_scheme + 'a hif_usb_scheme) option" where
  "fw_usbfifo_recv_command env buf s = do {
     b \<leftarrow> rd_vbuf (fw s) buf;
     v \<leftarrow> rd_vdesc (fw s) (desc_list b);
     if ld32 (bytes (fw s)) (buf_addr v + ucast (data_offset v)) = 0xFFFFFFFF
     then Some (Inl (fw_usb_suspend_reboot env s))
     else map_option Inr (usbfifo_recv_command env buf s) }"

fun ep4_words :: "'e usb_hw_scheme \<Rightarrow> nat \<Rightarrow> 'a hif_usb_scheme \<Rightarrow> 'a hif_usb_scheme" where
  "ep4_words env 0 s = s"
| "ep4_words env (Suc n) s =
     ep4_words env n (let (ep4_data, s) = iord32 env (usb32 ZM_EP4_DATA_OFFSET) s
       in s\<lparr>fw := (fw s)\<lparr>bytes := st32 (out_regaddr s) ep4_data (bytes (fw s))\<rparr>, out_regaddr := out_regaddr s + 4\<rparr>)"

fun ep4_drain :: "'e usb_hw_scheme \<Rightarrow> nat \<Rightarrow> 'a usb_io_scheme \<Rightarrow> 'a usb_io_scheme" where
  "ep4_drain env 0 s = s"
| "ep4_drain env (Suc n) s = ep4_drain env n (snd (iord32 env (usb32 ZM_EP4_DATA_OFFSET) s))"

text \<open>A new command takes a buffer; \<open>False\<close> when there is none.\<close>

definition reg_out_start :: "'a hif_usb_scheme \<Rightarrow> (bool \<times> 'a hif_usb_scheme) option" where
  "reg_out_start s =
     (if out_new s then do {
        (buf, s) \<leftarrow> usbfifo_get_command_buf s;
        let s = s\<lparr>out_buf := buf, out_cmd_len := 0\<rparr>;
        if buf = NULL then Some (False, s)
        else do {
          b \<leftarrow> rd_vbuf (fw s) buf;
          v \<leftarrow> rd_vdesc (fw s) (desc_list b);
          Some (True, s\<lparr>out_regaddr := buf_addr v, out_new := False\<rparr>) } }
      else Some (out_buf s \<noteq> NULL, s))"

text \<open>The last packet of a command: the buffer goes up.\<close>

definition reg_out_last :: "'a hif_usb_scheme usb_env \<Rightarrow> addr \<Rightarrow> 'a hif_usb_scheme \<Rightarrow> ('a hif_usb_scheme + 'a hif_usb_scheme) option" where
  "reg_out_last env d s = do {
     m \<leftarrow> upd_vdesc d (\<lambda>v. v\<lparr>next_desc := NULL, data_offset := 0, data_size := out_cmd_len s, control := 0\<rparr>) (fw s);
     m \<leftarrow> upd_vbuf (out_buf s) (\<lambda>b. b\<lparr>next_buf := NULL, buf_length := out_cmd_len s\<rparr>) m;
     r \<leftarrow> fw_usbfifo_recv_command env (out_buf s) (s\<lparr>fw := m\<rparr>);
     Some (case r of Inl s \<Rightarrow> Inl s | Inr s \<Rightarrow> Inr (s\<lparr>out_new := True\<rparr>)) }"

text \<open>The words of a packet of that many bytes.\<close>

definition fifo_words :: "u16 \<Rightarrow> u16" where
  "fifo_words n = (if n mod 4 \<noteq> 0 then drop_bit 2 n + 1 else drop_bit 2 n)"

text \<open>On an error the packet is read and dropped: as many words as it has bytes.\<close>

definition usb_reg_out :: "'a hif_usb_scheme usb_env \<Rightarrow> 'a hif_usb_scheme \<Rightarrow> ('a hif_usb_scheme + 'a hif_usb_scheme) option" where
  "usb_reg_out env s = do {
     let (n8, s) = ioread8 env (usb8 ZM_EP4_BYTE_COUNT_LOW_OFFSET) s;
     let usbfifolen = (ucast n8 :: u16);
     if usbfifolen > 64 then Some (Inl (cold_reboot s))
     else do {
       (ok, s) \<leftarrow> reg_out_start s;
       if \<not> ok then Some (Inr (ep4_drain env (unat usbfifolen) s))
       else do {
         let s = s\<lparr>out_cmd_len := out_cmd_len s + usbfifolen\<rparr>;
         b \<leftarrow> rd_vbuf (fw s) (out_buf s);
         v \<leftarrow> rd_vdesc (fw s) (desc_list b);
         if out_cmd_len s > buf_size v then Some (Inr (ep4_drain env (unat usbfifolen) s))
         else do {
           let s = ep4_words env (unat (fifo_words usbfifolen)) s;
           if usbfifolen < 64 then reg_out_last env (desc_list b) s else Some (Inr s) } } } }"

section \<open>The interface\<close>

definition HIFusb_init :: "'a hif_usb_scheme \<Rightarrow> 'a hif_usb_scheme option" where
  "HIFusb_init s = do {
     (q, s) \<leftarrow> DMAengine_init_rx_queue (dnQ s) s;
     let s = s\<lparr>dnQ := q\<rparr>;
     (q, s) \<leftarrow> DMAengine_init_tx_queue (upQ s) s;
     let s = s\<lparr>upQ := q\<rparr>;
     (q, s) \<leftarrow> DMAengine_init_rx_queue (hpdnQ s) s;
     let s = s\<lparr>hpdnQ := q\<rparr>;
     (q, s) \<leftarrow> DMAengine_init_rx_queue (mpdnQ s) s;
     let s = s\<lparr>mpdnQ := q\<rparr>;
     Some (s\<lparr>ev_head := NULL, ev_tail := NULL, cmdQueue := NULL\<rparr>) }"

definition HIFusb_start :: "'a hif_usb_scheme \<Rightarrow> 'a hif_usb_scheme" where
  "HIFusb_start s = iowr32_all [(MAGPIE_REG_USB_RX0_DESC_START, qhead (dnQ s)), (MAGPIE_REG_USB_TX0_DESC_START, qhead (upQ s)),
     (MAGPIE_REG_USB_RX1_DESC_START, qhead (hpdnQ s)), (MAGPIE_REG_USB_RX2_DESC_START, qhead (mpdnQ s)),
     (MAGPIE_REG_USB_INTERRUPT_MASK, 0xffffffff), (MAGPIE_REG_USB_RX0_DMA_START, 1), (MAGPIE_REG_USB_RX1_DMA_START, 1),
     (MAGPIE_REG_USB_RX2_DMA_START, 1)] s"

text \<open>A buffer for each descriptor goes in front of the queue of command buffers.\<close>

partial_function (option) config_command_pipe :: "addr \<Rightarrow> 'a hif_usb_scheme \<Rightarrow> 'a hif_usb_scheme option" where
  "config_command_pipe theDesc s =
     (if theDesc = NULL then Some s
      else do {
        (buf, m) \<leftarrow> vbuf_alloc_vbuf (fw s);
        m \<leftarrow> upd_vbuf buf (desc_list_update (\<lambda>_. theDesc)) m;
        v \<leftarrow> rd_vdesc m theDesc;
        m \<leftarrow> upd_vdesc theDesc (next_desc_update (\<lambda>_. NULL)) m;
        m \<leftarrow> (if cmdQueue s = NULL then Some m else upd_vbuf buf (next_buf_update (\<lambda>_. cmdQueue s)) m);
        config_command_pipe (next_desc v) (s\<lparr>fw := m, cmdQueue := buf\<rparr>) })"

definition enable_rx :: "int \<Rightarrow> 'a usb_io_scheme \<Rightarrow> 'a usb_io_scheme" where
  "enable_rx pipe s =
     (if pipe = HIF_USB_PIPE_TX then iowr32 MAGPIE_REG_USB_RX0_DMA_START 1 s
      else if pipe = HIF_USB_PIPE_HP_TX then iowr32 MAGPIE_REG_USB_RX1_DMA_START 1 s
      else if pipe = HIF_USB_PIPE_MP_TX then iowr32 MAGPIE_REG_USB_RX2_DMA_START 1 s
      else s)"

text \<open>The queue of a pipe and its replacement; another pipe is an assertion failure.\<close>

definition get_queue_from_pipe :: "int \<Rightarrow> 'a hif_usb_scheme \<Rightarrow> (zsDmaQueue \<times> (zsDmaQueue \<Rightarrow> 'a hif_usb_scheme \<Rightarrow> 'a hif_usb_scheme)) option" where
  "get_queue_from_pipe pipe s =
     (if pipe = HIF_USB_PIPE_TX then Some (dnQ s, \<lambda>q. dnQ_update (\<lambda>_. q))
      else if pipe = HIF_USB_PIPE_HP_TX then Some (hpdnQ s, \<lambda>q. hpdnQ_update (\<lambda>_. q))
      else if pipe = HIF_USB_PIPE_MP_TX then Some (mpdnQ s, \<lambda>q. mpdnQ_update (\<lambda>_. q))
      else None)"

definition HIFusb_get_max_msg_len :: "int \<Rightarrow> int" where
  "HIFusb_get_max_msg_len pipe = (if pipe = HIF_USB_PIPE_INTERRUPT \<or> pipe = HIF_USB_PIPE_COMMAND then 512 else 1600)"

definition HIFusb_is_pipe_supported :: "int \<Rightarrow> bool" where
  "HIFusb_is_pipe_supported pipe \<longleftrightarrow> \<not> (pipe < HIF_USB_PIPE_TX \<or> pipe > HIF_USB_PIPE_MP_TX)"

definition HIFusb_get_default_pipe :: "u8 \<times> u8" where
  "HIFusb_get_default_pipe = (of_int HIF_USB_PIPE_COMMAND, of_int HIF_USB_PIPE_INTERRUPT)"

definition HIFusb_config_pipe :: "int \<Rightarrow> int \<Rightarrow> 'a hif_usb_scheme \<Rightarrow> 'a hif_usb_scheme option" where
  "HIFusb_config_pipe pipe creditCount s =
     (if pipe = HIF_USB_PIPE_COMMAND then do {
        (h, m) \<leftarrow> alloc_descs (nat creditCount) (of_int (HIFusb_get_max_msg_len pipe)) NULL (fw s);
        config_command_pipe h (s\<lparr>fw := m\<rparr>) }
      else do {
        (q, put) \<leftarrow> get_queue_from_pipe pipe s;
        (q, s) \<leftarrow> DMAengine_config_rx_queue q (nat creditCount) (of_int (HIFusb_get_max_msg_len pipe)) s;
        Some (enable_rx pipe (put q s)) })"

definition HIFusb_send_buffer :: "'a hif_usb_scheme usb_env \<Rightarrow> int \<Rightarrow> addr \<Rightarrow> 'a hif_usb_scheme \<Rightarrow> 'a hif_usb_scheme option" where
  "HIFusb_send_buffer env pipe buf s =
     (if pipe = HIF_USB_PIPE_INTERRUPT then send_buffer_via_fifo env buf s
      else do {
        (q, s) \<leftarrow> DMAengine_xmit_buf (upQ s) buf s;
        Some (iowr32 MAGPIE_REG_USB_TX0_DMA_START 1 (s\<lparr>upQ := q\<rparr>)) })"

definition HIFusb_return_recv_buf :: "int \<Rightarrow> addr \<Rightarrow> 'a hif_usb_scheme \<Rightarrow> 'a hif_usb_scheme option" where
  "HIFusb_return_recv_buf pipe buf s =
     (if pipe = HIF_USB_PIPE_COMMAND then
        if cmdQueue s = NULL then Some (s\<lparr>cmdQueue := buf\<rparr>)
        else do { m \<leftarrow> upd_vbuf buf (next_buf_update (\<lambda>_. cmdQueue s)) (fw s); Some (s\<lparr>fw := m, cmdQueue := buf\<rparr>) }
      else do {
        (q, put) \<leftarrow> get_queue_from_pipe pipe s;
        (q, s) \<leftarrow> DMAengine_return_recv_buf q buf s;
        Some (enable_rx pipe (put q s)) })"

section \<open>The interrupt handler\<close>

text \<open>What the DMA has done by now becomes visible when a queue is polled.\<close>

definition poll :: "'e usb_hw_scheme \<Rightarrow> 'a usb_io_scheme \<Rightarrow> 'a usb_io_scheme" where
  "poll env s = usb_do Dma_Poll (s\<lparr>hwd := dma_val env (usb_log s) (hwd s)\<rparr>)"

definition handle_tx_complete_isr :: "'a hif_usb_scheme usb_env \<Rightarrow> 'a hif_usb_scheme \<Rightarrow> 'a hif_usb_scheme option" where
  "handle_tx_complete_isr env s = do {
     (buf, q, s) \<leftarrow> DMAengine_reap_xmited_buf (upQ s) s;
     send_buf_done env buf (s\<lparr>upQ := q\<rparr>) }"

definition handle_rx_complete_isr :: "'a hif_usb_scheme usb_env \<Rightarrow> 'a hif_usb_scheme \<Rightarrow> 'a hif_usb_scheme option" where
  "handle_rx_complete_isr env s = do {
     (buf, q, s) \<leftarrow> DMAengine_reap_recv_buf (dnQ s) s;
     recv_buf env buf (s\<lparr>dnQ := q\<rparr>) }"

definition handle_hp_rx_complete_isr :: "'a hif_usb_scheme usb_env \<Rightarrow> 'a hif_usb_scheme \<Rightarrow> 'a hif_usb_scheme option" where
  "handle_hp_rx_complete_isr env s = do {
     (buf, q, s) \<leftarrow> DMAengine_reap_recv_buf (hpdnQ s) s;
     recv_buf env buf (s\<lparr>hpdnQ := q\<rparr>) }"

definition handle_mp_rx_complete_isr :: "'a hif_usb_scheme usb_env \<Rightarrow> 'a hif_usb_scheme \<Rightarrow> 'a hif_usb_scheme option" where
  "handle_mp_rx_complete_isr env s = do {
     (buf, q, s) \<leftarrow> DMAengine_reap_recv_buf (mpdnQ s) s;
     recv_buf env buf (s\<lparr>mpdnQ := q\<rparr>) }"

partial_function (option) hp_loop :: "'a hif_usb_scheme usb_env \<Rightarrow> 'a hif_usb_scheme \<Rightarrow> 'a hif_usb_scheme option" where
  "hp_loop env s = do {
     let s = poll env s;
     if DMAengine_has_compl_packets (hpdnQ s) s then do { s \<leftarrow> handle_hp_rx_complete_isr env s; hp_loop env s }
     else Some s }"

partial_function (option) mp_loop :: "'a hif_usb_scheme usb_env \<Rightarrow> 'a hif_usb_scheme \<Rightarrow> 'a hif_usb_scheme option" where
  "mp_loop env s = do {
     let s = poll env s;
     if DMAengine_has_compl_packets (mpdnQ s) s then do { s \<leftarrow> handle_mp_rx_complete_isr env s; mp_loop env s }
     else Some s }"

partial_function (option) up_dn_loop :: "'a hif_usb_scheme usb_env \<Rightarrow> 'a hif_usb_scheme \<Rightarrow> 'a hif_usb_scheme option" where
  "up_dn_loop env s = do {
     let s = poll env s;
     let up = DMAengine_has_compl_packets (upQ s) s;
     s \<leftarrow> (if up then handle_tx_complete_isr env s else Some s);
     let s = poll env s;
     let dn = DMAengine_has_compl_packets (dnQ s) s;
     s \<leftarrow> (if dn then handle_rx_complete_isr env s else Some s);
     if up \<or> dn then up_dn_loop env s else Some s }"

definition HIFusb_isr_handler :: "'a hif_usb_scheme usb_env \<Rightarrow> 'a hif_usb_scheme \<Rightarrow> 'a hif_usb_scheme option" where
  "HIFusb_isr_handler env s = do {
     let (intr, s) = iord32 env MAGPIE_REG_USB_INTERRUPT s;
     if intr AND (0x10000 OR 0x1 OR 0x2 OR 0x4) \<noteq> 0 then do {
       s \<leftarrow> hp_loop env s;
       s \<leftarrow> mp_loop env s;
       up_dn_loop env s }
     else Some s }"

end
