(* ===== verification/Hif_Stream.thy ===== *)
theory Hif_Stream
  imports Hif_Usb
begin

text \<open>
  The command and event endpoints carry bytes: the words of the FIFO hold the first byte of a packet lowest, memory
  holds the highest byte of a word first, and the firmware reverses the words of the buffer. A command of the host
  arrives byte for byte, in however many packets it was sent; an event leaves so.
\<close>

section \<open>Words in memory\<close>

definition le_bytes :: "u32 \<Rightarrow> u8 list" where
  "le_bytes w = [ucast w, ucast (drop_bit 8 w), ucast (drop_bit 16 w), ucast (drop_bit 24 w)]"

lemma le_bytes_ones: "le_bytes 0xFFFFFFFF = [0xFF, 0xFF, 0xFF, 0xFF]"
  by (simp add: le_bytes_def)

definition mem_bytes :: "(addr \<Rightarrow> u8) \<Rightarrow> addr \<Rightarrow> nat \<Rightarrow> u8 list" where
  "mem_bytes f a n = map (\<lambda>i. f (a + of_nat i)) [0..<n]"

fun put_words :: "addr \<Rightarrow> u32 list \<Rightarrow> (addr \<Rightarrow> u8) \<Rightarrow> addr \<Rightarrow> u8" where
  "put_words a [] f = f"
| "put_words a (w # ws) f = put_words (a + 4) ws (st32 a w f)"

lemma le_bytes_length [simp]: "length (le_bytes w) = 4"
  by (simp add: le_bytes_def)

lemma put_words_append: "put_words a (xs @ ys) f = put_words (a + 4 * of_nat (length xs)) ys (put_words a xs f)"
  by (induction xs arbitrary: a f) (simp_all add: algebra_simps)

lemma addr_neq: "i < 2 ^ 32 \<Longrightarrow> j < 2 ^ 32 \<Longrightarrow> i \<noteq> j \<Longrightarrow> (a :: addr) + of_nat i \<noteq> a + of_nat j"
proof
  assume b: "i < 2 ^ 32" "j < 2 ^ 32" "i \<noteq> j" and "a + of_nat i = a + of_nat j"
  then have "unat (of_nat i :: addr) = unat (of_nat j :: addr)" by simp
  then show False using b by (simp add: unat_of_nat)
qed

lemma addr_off: "(a :: addr) + of_nat i + of_nat k = a + of_nat (i + k)"
  by (simp only: of_nat_add add.assoc)

lemma addr_eq: "i < 2 ^ 32 \<Longrightarrow> j < 2 ^ 32 \<Longrightarrow> (a :: addr) + of_nat i = a + of_nat j \<longleftrightarrow> i = j"
  using addr_neq by blast

lemma st32_other:
  assumes "i + 4 < 2 ^ 32" "j < 2 ^ 32" "j < i \<or> i + 4 \<le> j"
  shows "st32 (a + of_nat i) w f (a + of_nat j) = f (a + of_nat j)"
proof -
  have "a + of_nat i + of_nat k \<noteq> a + of_nat j" if "k < 4" for k
    unfolding addr_off using assms that by (intro addr_neq) auto
  from this [of 0] this [of 1] this [of 2] this [of 3] show ?thesis
    by (simp add: st32_def)
qed

text \<open>Where the \<open>i\<close>-th byte of a stored word stands.\<close>

lemma st32_byte: "r < 4 \<Longrightarrow> st32 a w f (a + of_nat (3 - r)) = le_bytes w ! r"
proof -
  assume "r < 4"
  then consider "r = 0" | "r = 1" | "r = 2" | "r = 3" by linarith
  then show ?thesis
    by cases (simp_all add: st32_def le_bytes_def)
qed

lemma put_words_other:
  assumes "i + 4 * length ws < 2 ^ 32" "j < 2 ^ 32" "j < i \<or> i + 4 * length ws \<le> j"
  shows "put_words (a + of_nat i) ws f (a + of_nat j) = f (a + of_nat j)"
  using assms
proof (induction ws arbitrary: i f)
  case (Cons w ws)
  have "put_words (a + of_nat (i + 4)) ws (st32 (a + of_nat i) w f) (a + of_nat j) = st32 (a + of_nat i) w f (a + of_nat j)"
    using Cons.prems by (intro Cons.IH) auto
  moreover have "st32 (a + of_nat i) w f (a + of_nat j) = f (a + of_nat j)"
    using Cons.prems by (intro st32_other) auto
  moreover have "a + of_nat i + 4 = a + of_nat (i + 4)" by simp
  ultimately show ?case by (simp only: put_words.simps)
qed simp

lemma put_words_byte:
  assumes "k < length ws" "4 * length ws < 2 ^ 32" "r < 4"
  shows "put_words a ws f (a + of_nat (4 * k + (3 - r))) = le_bytes (ws ! k) ! r"
proof -
  have s: "ws = take k ws @ ws ! k # drop (Suc k) ws" using assms(1) by (rule id_take_nth_drop)
  define g where "g = put_words a (take k ws) f"
  have k: "length (take k ws) = k" using assms(1) by simp
  have a: "a + of_nat (4 * k + (3 - r)) = a + 4 * of_nat k + of_nat (3 - r)" by simp
  have b: "a + 4 * of_nat k + 4 = a + of_nat (4 * k + 4)" by simp
  have "put_words a ws f = put_words (a + of_nat (4 * k + 4)) (drop (Suc k) ws) (st32 (a + 4 * of_nat k) (ws ! k) g)"
    unfolding g_def by (subst s, subst put_words_append) (simp add: k add.assoc algebra_simps del: length_take)
  moreover have "put_words (a + of_nat (4 * k + 4)) (drop (Suc k) ws) (st32 (a + 4 * of_nat k) (ws ! k) g) (a + of_nat (4 * k + (3 - r)))
      = st32 (a + 4 * of_nat k) (ws ! k) g (a + of_nat (4 * k + (3 - r)))"
    using assms by (intro put_words_other) auto
  ultimately show ?thesis
    unfolding a using st32_byte [OF assms(3), of "a + 4 * of_nat k" "ws ! k" g] by simp
qed

section \<open>The reversal of the words\<close>

lemma bswap_word_byte: "r < 4 \<Longrightarrow> bswap_word a f (a + of_nat r) = f (a + of_nat (3 - r))"
proof -
  assume "r < 4"
  then consider "r = 0" | "r = 1" | "r = 2" | "r = 3" by linarith
  then show ?thesis by cases (simp_all add: bswap_word_def)
qed

lemma bswap_word_other:
  assumes "i + 4 < 2 ^ 32" "j < 2 ^ 32" "j < i \<or> i + 4 \<le> j"
  shows "bswap_word (a + of_nat i) f (a + of_nat j) = f (a + of_nat j)"
proof -
  have "a + of_nat i + of_nat k \<noteq> a + of_nat j" if "k < 4" for k
    unfolding addr_off using assms that by (intro addr_neq) auto
  from this [of 0] this [of 1] this [of 2] this [of 3] show ?thesis
    by (simp add: bswap_word_def)
qed

definition bswap_words :: "addr \<Rightarrow> nat \<Rightarrow> (addr \<Rightarrow> u8) \<Rightarrow> addr \<Rightarrow> u8" where
  "bswap_words a n = fold (\<lambda>i. bswap_word (a + 4 * of_nat i)) [0..<n]"

lemma bswap_words_other:
  assumes "4 * n < 2 ^ 32" "j < 2 ^ 32" "4 * n \<le> j"
  shows "bswap_words a n f (a + of_nat j) = f (a + of_nat j)"
  using assms
proof (induction n)
  case (Suc n)
  have "bswap_word (a + of_nat (4 * n)) (bswap_words a n f) (a + of_nat j) = bswap_words a n f (a + of_nat j)"
    using Suc.prems by (intro bswap_word_other) auto
  then show ?case using Suc by (simp add: bswap_words_def)
qed (simp add: bswap_words_def)

lemma bswap_words_byte:
  assumes "k < n" "4 * n < 2 ^ 32" "r < 4"
  shows "bswap_words a n f (a + of_nat (4 * k + r)) = f (a + of_nat (4 * k + (3 - r)))"
  using assms(1,2)
proof (induction n)
  case (Suc n)
  let ?g = "bswap_words a n f"
  have e: "bswap_words a (Suc n) f = bswap_word (a + of_nat (4 * n)) ?g" by (simp add: bswap_words_def)
  show ?case
  proof (cases "k = n")
    case True
    have "bswap_word (a + of_nat (4 * n)) ?g (a + of_nat (4 * n) + of_nat r) = ?g (a + of_nat (4 * n) + of_nat (3 - r))"
      by (rule bswap_word_byte [OF assms(3)])
    also have "\<dots> = f (a + of_nat (4 * n + (3 - r)))"
      using bswap_words_other [of n "4 * n + (3 - r)" a f] Suc.prems by (simp add: algebra_simps)
    finally show ?thesis unfolding e using True by (simp add: algebra_simps)
  next
    case False
    then have "bswap_word (a + of_nat (4 * n)) ?g (a + of_nat (4 * k + r)) = ?g (a + of_nat (4 * k + r))"
      using Suc.prems assms(3) by (intro bswap_word_other) auto
    then show ?thesis unfolding e using Suc.IH False Suc.prems by simp
  qed
qed simp

lemma concat_le_bytes_nth:
  "i < 4 * length ws \<Longrightarrow> concat (map le_bytes ws) ! i = le_bytes (ws ! (i div 4)) ! (i mod 4)"
proof (induction ws arbitrary: i)
  case (Cons w ws)
  show ?case
  proof (cases "i < 4")
    case False
    then obtain j where j: "i = j + 4" by (metis add.commute le_add_diff_inverse not_less)
    have "i div 4 = Suc (j div 4)" "i mod 4 = j mod 4" using j by auto
    then show ?thesis using Cons j by (simp add: nth_append)
  qed (simp add: nth_append)
qed simp

lemma concat_le_bytes_length [simp]: "length (concat (map le_bytes ws)) = 4 * length ws"
  by (induction ws) simp_all

text \<open>Words stored from a FIFO and reversed: the bytes in the order of the FIFO.\<close>

lemma swapped_words:
  assumes "4 * length ws < 2 ^ 32" "n \<le> 4 * length ws" "k = length ws"
  shows "mem_bytes (bswap_words a k (put_words a ws f)) a n = take n (concat (map le_bytes ws))"
proof (rule nth_equalityI)
  fix i assume "i < length (mem_bytes (bswap_words a k (put_words a ws f)) a n)"
  then have i: "i < n" by (simp add: mem_bytes_def)
  have d: "i = 4 * (i div 4) + i mod 4" "i mod 4 < 4" "i div 4 < length ws" using i assms(2) by auto
  have "bswap_words a k (put_words a ws f) (a + of_nat i) = put_words a ws f (a + of_nat (4 * (i div 4) + (3 - i mod 4)))"
    using bswap_words_byte [of "i div 4" k "i mod 4" a "put_words a ws f"] d assms(1,3) by simp
  also have "\<dots> = le_bytes (ws ! (i div 4)) ! (i mod 4)"
    by (rule put_words_byte [OF d(3) assms(1) d(2)])
  finally show "mem_bytes (bswap_words a k (put_words a ws f)) a n ! i = take n (concat (map le_bytes ws)) ! i"
    using i assms(2) concat_le_bytes_nth [of i ws] by (simp add: mem_bytes_def)
qed (use assms(2) in \<open>simp add: mem_bytes_def\<close>)

section \<open>The command endpoint\<close>

abbreviation EP4_COUNT :: u32 where "EP4_COUNT \<equiv> usb8 ZM_EP4_BYTE_COUNT_LOW_OFFSET"
abbreviation EP4_DATA :: u32 where "EP4_DATA \<equiv> usb32 ZM_EP4_DATA_OFFSET"

text \<open>The next \<open>n\<close> words of the FIFO.\<close>

fun ep4_vals :: "'e usb_hw_scheme \<Rightarrow> nat \<Rightarrow> usb_op list \<Rightarrow> u32 list" where
  "ep4_vals env 0 l = []"
| "ep4_vals env (Suc n) l = rd32_val env l EP4_DATA # ep4_vals env n (l @ [Rd32 EP4_DATA])"

lemma ep4_vals_length [simp]: "length (ep4_vals env n l) = n"
  by (induction n arbitrary: l) simp_all

lemma ep4_words_eq:
  "ep4_words env n s = s\<lparr>fw := (fw s)\<lparr>bytes := put_words (out_regaddr s) (ep4_vals env n (usb_log s)) (bytes (fw s))\<rparr>,
     out_regaddr := out_regaddr s + 4 * of_nat n, usb_log := usb_log s @ replicate n (Rd32 EP4_DATA)\<rparr>"
  by (induction n arbitrary: s) (simp_all add: iord32_def usb_do_def Let_def algebra_simps)

definition nwords :: "nat \<Rightarrow> nat" where
  "nwords n = (n + 3) div 4"

lemma nwords_bounds: "n \<le> 4 * nwords n" "4 * nwords n \<le> n + 3"
  by (simp_all add: nwords_def)

text \<open>
  The controller delivers the packets \<open>ps\<close>: the count is the length of the packet, and the words hold its bytes, the
  first lowest. What is read behind the end of a packet is arbitrary.
\<close>

fun feeds :: "'e usb_hw_scheme \<Rightarrow> usb_op list \<Rightarrow> u8 list list \<Rightarrow> bool" where
  "feeds env l [] \<longleftrightarrow> True"
| "feeds env l (p # ps) \<longleftrightarrow> rd8_val env l EP4_COUNT = of_nat (length p) \<and> length p \<le> 64 \<and>
     take (length p) (concat (map le_bytes (ep4_vals env (nwords (length p)) (l @ [Rd8 EP4_COUNT])))) = p \<and>
     feeds env (l @ Rd8 EP4_COUNT # replicate (nwords (length p)) (Rd32 EP4_DATA)) ps"

text \<open>How the host sends a command: full packets, and a shorter one, perhaps empty, as the last.\<close>

function packets :: "u8 list \<Rightarrow> u8 list list" where
  "packets cmd = (if length cmd < 64 then [cmd] else take 64 cmd # packets (drop 64 cmd))"
  by auto
termination by (relation "measure length") auto

declare packets.simps [simp del]

fun run_out :: "'a hif_usb_scheme usb_env \<Rightarrow> nat \<Rightarrow> 'a hif_usb_scheme \<Rightarrow> ('a hif_usb_scheme + 'a hif_usb_scheme) option" where
  "run_out env 0 s = Some (Inr s)"
| "run_out env (Suc n) s = do {
     r \<leftarrow> usb_reg_out env s;
     case r of Inl s \<Rightarrow> Some (Inl s) | Inr s \<Rightarrow> run_out env n s }"

text \<open>In the middle of a command: the bytes \<open>got\<close> are in the buffer.\<close>

definition receiving :: "'a hif_usb_scheme \<Rightarrow> addr \<Rightarrow> VBUF \<Rightarrow> VDESC \<Rightarrow> (addr \<Rightarrow> u8) \<Rightarrow> u8 list \<Rightarrow> bool" where
  "receiving s buf b v f got \<longleftrightarrow> \<not> out_new s \<and> out_buf s = buf \<and> rd_vbuf (fw s) buf = Some b \<and>
     rd_vdesc (fw s) (desc_list b) = Some v \<and> out_cmd_len s = of_nat (length got) \<and> length got \<le> unat (buf_size v) \<and>
     out_regaddr s = buf_addr v + of_nat (length got) \<and>
     (\<exists>ws. 4 * length ws = length got \<and> concat (map le_bytes ws) = got \<and> bytes (fw s) = put_words (buf_addr v) ws f)"

lemma receivingD:
  assumes "receiving s buf b v f got"
  shows "\<not> out_new s" "out_buf s = buf" "rd_vbuf (fw s) buf = Some b" "rd_vdesc (fw s) (desc_list b) = Some v"
    "out_cmd_len s = of_nat (length got)" "length got \<le> unat (buf_size v)" "out_regaddr s = buf_addr v + of_nat (length got)"
  using assms unfolding receiving_def by blast+

definition taken :: "'e usb_hw_scheme \<Rightarrow> u8 list \<Rightarrow> 'a hif_usb_scheme \<Rightarrow> 'a hif_usb_scheme" where
  "taken env p s = ep4_words env (nwords (length p))
     ((usb_do (Rd8 EP4_COUNT) s)\<lparr>out_cmd_len := out_cmd_len s + of_nat (length p)\<rparr>)"

lemma words_of_count:
  assumes "n \<le> 64"
  shows "unat (fifo_words (of_nat n)) = nwords n"
proof -
  have n: "unat (of_nat n :: u16) = n" using assms by (simp add: unat_of_nat)
  have "unat (of_nat n mod 4 :: u16) = n mod 4" "unat (drop_bit 2 (of_nat n :: u16)) = n div 4"
    by (simp_all add: unat_mod_distrib unat_div_distrib n drop_bit_eq_div)
  moreover have "unat (drop_bit 2 (of_nat n :: u16) + 1) = n div 4 + 1"
    using assms calculation(2) by (subst unat_add_lem [THEN iffD1]) simp_all
  moreover have "n mod 4 = 0 \<Longrightarrow> nwords n = n div 4" "n mod 4 \<noteq> 0 \<Longrightarrow> nwords n = n div 4 + 1"
    unfolding nwords_def by presburger+
  moreover have "of_nat n mod 4 = (0 :: u16) \<longleftrightarrow> n mod 4 = 0"
    using calculation(1) by (metis unat_eq_zero)
  ultimately show ?thesis by (simp add: fifo_words_def)
qed

lemma unat_lt2p_u16: "unat (x :: u16) < 65536"
  by (rule order_less_le_trans [OF unsigned_less]) simp

lemma cmd_len_fits:
  assumes "length got + length p \<le> unat (x :: u16)"
  shows "\<not> (of_nat (length got) + of_nat (length p) :: u16) > x"
proof -
  have "unat x < 65536" using unat_lt2p_u16 by simp
  then have "length got + length p < 65536" using assms by linarith
  then have "unat (of_nat (length got + length p) :: u16) = length got + length p"
    by (simp add: unat_of_nat del: of_nat_add)
  then show ?thesis using assms by (simp add: word_less_nat_alt)
qed

lemma reg_out_packet:
  assumes "receiving s buf b v f got" "feeds env (usb_log s) (p # ps)" "length got + length p \<le> unat (buf_size v)"
  shows "usb_reg_out env s = (if length p < 64 then reg_out_last env (desc_list b) (taken env p s) else Some (Inr (taken env p s)))"
proof -
  have c: "rd8_val env (usb_log s) EP4_COUNT = of_nat (length p)" "length p \<le> 64" using assms(2) by auto
  have u: "(ucast (of_nat (length p) :: u8) :: u16) = of_nat (length p)"
    using c(2) by (simp add: unat_eq_iff unat_of_nat unsigned_ucast_eq take_bit_nat_eq_self)
  have l: "\<not> (of_nat (length p) :: u16) > 64" "(of_nat (length p) :: u16) < 64 \<longleftrightarrow> length p < 64"
    using c(2) by (simp_all add: word_less_nat_alt unat_of_nat)
  have r: "\<not> out_new s" "out_buf s = buf" "rd_vbuf (fw s) buf = Some b" "rd_vdesc (fw s) (desc_list b) = Some v"
    "out_cmd_len s = of_nat (length got)" using assms(1) by (auto simp: receiving_def)
  then have "buf \<noteq> NULL" by (auto simp: rd_vbuf_def)
  then show ?thesis
    using r l cmd_len_fits [OF assms(3)] words_of_count [OF c(2)]
    by (simp add: usb_reg_out_def ioread8_def Let_def u c(1) reg_out_start_def usb_do_def taken_def)
qed

lemma taken_eff:
  assumes "receiving s buf b v f got" "feeds env (usb_log s) (p # ps)"
  shows "\<exists>ws. length ws = nwords (length got + length p) \<and> take (length got + length p) (concat (map le_bytes ws)) = got @ p \<and>
    bytes (fw (taken env p s)) = put_words (buf_addr v) ws f \<and>
    (length p = 64 \<longrightarrow> 4 * length ws = length got + length p)"
proof -
  obtain ws where ws: "4 * length ws = length got" "concat (map le_bytes ws) = got" "bytes (fw s) = put_words (buf_addr v) ws f"
    using assms(1) by (auto simp: receiving_def)
  let ?vs = "ep4_vals env (nwords (length p)) (usb_log s @ [Rd8 EP4_COUNT])"
  have a: "out_regaddr s = buf_addr v + 4 * of_nat (length ws)"
    using assms(1) unfolding receiving_def ws(1) [symmetric] by simp
  have "bytes (fw (taken env p s)) = put_words (buf_addr v) (ws @ ?vs) f"
    by (simp add: taken_def ep4_words_eq usb_do_def put_words_append a ws(3))
  moreover have "length (ws @ ?vs) = nwords (length got + length p)"
    unfolding length_append ep4_vals_length nwords_def using ws(1) by presburger
  moreover have "take (length got + length p) (concat (map le_bytes (ws @ ?vs))) = got @ p"
    using assms(2) ws(2) by simp
  moreover have "length p = 64 \<Longrightarrow> 4 * length (ws @ ?vs) = length got + length p"
    using ws(1) by (simp add: nwords_def)
  ultimately show ?thesis by blast
qed

lemma taken_fields:
  "vbufs (fw (taken env p s)) = vbufs (fw s)" "vdescs (fw (taken env p s)) = vdescs (fw s)" "out_buf (taken env p s) = out_buf s"
  "out_new (taken env p s) = out_new s" "out_cmd_len (taken env p s) = out_cmd_len s + of_nat (length p)"
  "out_regaddr (taken env p s) = out_regaddr s + 4 * of_nat (nwords (length p))"
  "usb_log (taken env p s) = usb_log s @ Rd8 EP4_COUNT # replicate (nwords (length p)) (Rd32 EP4_DATA)"
  "cmdQueue (taken env p s) = cmdQueue s" "rd_vbuf (fw (taken env p s)) = rd_vbuf (fw s)" "rd_vdesc (fw (taken env p s)) = rd_vdesc (fw s)"
  by (simp_all add: taken_def ep4_words_eq usb_do_def rd_vbuf_def rd_vdesc_def fun_eq_iff)

lemma receiving_more:
  assumes "receiving s buf b v f got" "feeds env (usb_log s) (p # ps)" "length got + 64 \<le> unat (buf_size v)" "length p = 64"
  shows "receiving (taken env p s) buf b v f (got @ p)" "feeds env (usb_log (taken env p s)) ps"
proof -
  obtain ws where ws: "take (length got + length p) (concat (map le_bytes ws)) = got @ p"
    "bytes (fw (taken env p s)) = put_words (buf_addr v) ws f" "4 * length ws = length got + length p"
    using taken_eff [OF assms(1,2)] assms(4) by auto
  have c: "concat (map le_bytes ws) = got @ p" using ws(1) unfolding ws(3) [symmetric] by simp
  have n: "nwords 64 = 16" by (simp add: nwords_def)
  have "4 * length ws = length (got @ p)" using ws(3) by simp
  then have "\<exists>ws. 4 * length ws = length (got @ p) \<and> concat (map le_bytes ws) = got @ p \<and>
      bytes (fw (taken env p s)) = put_words (buf_addr v) ws f"
    using c ws(2) by blast
  then show "receiving (taken env p s) buf b v f (got @ p)"
    using assms(1,3) unfolding receiving_def
    by (elim conjE, intro conjI) (simp_all add: taken_fields n assms(4))
  show "feeds env (usb_log (taken env p s)) ps" using assms(2) by (simp add: taken_fields)
qed

lemma ld32_le: "f a = ucast (drop_bit 24 w) \<Longrightarrow> f (a + 1) = ucast (drop_bit 16 w) \<Longrightarrow> f (a + 2) = ucast (drop_bit 8 w) \<Longrightarrow>
    f (a + 3) = ucast w \<Longrightarrow> ld32 f a = w"
proof (rule bit_word_eqI)
  fix n assume f: "f a = ucast (drop_bit 24 w)" "f (a + 1) = ucast (drop_bit 16 w)" "f (a + 2) = ucast (drop_bit 8 w)"
    "f (a + 3) = ucast w" and n: "n < LENGTH(32)"
  from n consider "n < 8" | "8 \<le> n" "n < 16" | "16 \<le> n" "n < 24" | "24 \<le> n" "n < 32" by fastforce
  then show "bit (ld32 f a) n = bit w n"
    by cases (auto simp add: ld32_def f bit_simps less_diff_conv2)
qed

lemma put_words_first:
  assumes "4 * length (w # ws) < 2 ^ 32"
  shows "ld32 (put_words a (w # ws) f) a = w"
proof -
  have b: "put_words a (w # ws) f (a + of_nat (3 - r)) = le_bytes w ! r" if "r < 4" for r
    using put_words_byte [of 0 "w # ws" r a f] assms that by simp
  show ?thesis
    using b [of 0] b [of 1] b [of 2] b [of 3] by (intro ld32_le) (simp_all add: le_bytes_def)
qed

lemma swapData_words:
  "swapData p s = s\<lparr>fw := (fw s)\<lparr>bytes := bswap_words (dataAddr (hwd s p)) (nwords (unat (dataSize (hwd s p)))) (bytes (fw s))\<rparr>\<rparr>"
proof -
  have "n div 4 + (if n mod 4 \<noteq> 0 then 1 else 0) = nwords n" for n
    unfolding nwords_def by presburger
  then show ?thesis unfolding swapData_def Let_def bswap_words_def by simp
qed

text \<open>A buffer that holds a command of the host.\<close>

definition holds_command :: "fw_mem \<Rightarrow> addr \<Rightarrow> u8 list \<Rightarrow> bool" where
  "holds_command m buf cmd \<longleftrightarrow> (\<exists>b v. rd_vbuf m buf = Some b \<and> rd_vdesc m (desc_list b) = Some v \<and>
     next_buf b = NULL \<and> next_desc v = NULL \<and> buf_length b = of_nat (length cmd) \<and> data_size v = of_nat (length cmd) \<and>
     data_offset v = 0 \<and> mem_bytes (bytes m) (buf_addr v) (length cmd) = cmd)"

lemma reg_out_last_delivers:
  assumes "rd_vbuf (fw s) (out_buf s) = Some b" "rd_vdesc (fw s) (desc_list b) = Some v"
    "out_cmd_len s = of_nat (length cmd)" "length cmd \<le> unat (buf_size v)"
    "bytes (fw s) = put_words (buf_addr v) ws f" "length ws = nwords (length cmd)"
    "take (length cmd) (concat (map le_bytes ws)) = cmd" "4 \<le> length cmd" "take 4 cmd \<noteq> [0xFF, 0xFF, 0xFF, 0xFF]"
  shows "\<exists>s'. reg_out_last env (desc_list b) s = map_option (\<lambda>s. Inr (s\<lparr>out_new := True\<rparr>)) (recv_buf env (out_buf s) s') \<and>
    holds_command (fw s') (out_buf s) cmd \<and> cmdQueue s' = cmdQueue s"
proof -
  let ?n = "length cmd" and ?buf = "out_buf s" and ?d = "desc_list b"
  have n: "?n < 65536" using assms(4) unat_lt2p_u16 [of "buf_size v"] by linarith
  then have un: "unat (of_nat ?n :: u16) = ?n" by (simp add: unat_of_nat)
  have len: "4 * length ws < 2 ^ 32" using n nwords_bounds(2) [of ?n] assms(6) by simp
  define v' where "v' = v\<lparr>next_desc := NULL, data_offset := 0, data_size := of_nat ?n, control := 0\<rparr>"
  define b' where "b' = b\<lparr>next_buf := NULL, buf_length := of_nat ?n\<rparr>"
  define m where "m = (fw s)\<lparr>vdescs := (vdescs (fw s))(?d \<mapsto> v'), vbufs := (vbufs (fw s))(?buf \<mapsto> b')\<rparr>"
  have nz: "?buf \<noteq> NULL" "?d \<noteq> NULL" "vbufs (fw s) ?buf = Some b" "vdescs (fw s) ?d = Some v"
    using assms(1,2) by (auto simp: rd_vbuf_def rd_vdesc_def split: if_splits)
  have mem: "rd_vbuf m ?buf = Some b'" "rd_vdesc m ?d = Some v'" "desc_list b' = ?d" "bytes m = put_words (buf_addr v) ws f"
    using nz assms(5) by (simp_all add: m_def rd_vbuf_def rd_vdesc_def b'_def)
  have vf: "buf_addr v' = buf_addr v" "data_offset v' = 0" "data_size v' = of_nat ?n" "next_desc v' = NULL"
    by (simp_all add: v'_def)
  obtain w ws' where w: "ws = w # ws'"
    using assms(6,8) by (cases ws) (auto simp: nwords_def)
  have "le_bytes w = take 4 (concat (map le_bytes ws))" by (simp add: w)
  also have "\<dots> = take 4 (take ?n (concat (map le_bytes ws)))" using assms(8) by simp
  also have "\<dots> = take 4 cmd" by (simp only: assms(7))
  finally have "le_bytes w \<noteq> le_bytes 0xFFFFFFFF" using assms(9) by (metis le_bytes_ones)
  then have "w \<noteq> 0xFFFFFFFF" by blast
  then have first: "ld32 (bytes m) (buf_addr v) \<noteq> 0xFFFFFFFF"
    using put_words_first [of w ws' "buf_addr v" f] len by (simp add: mem(4) w)
  define s1 where "s1 = upd_hwd (VDESC_TO_USBDESC ?d) (\<lambda>d. d\<lparr>dataSize := of_nat ?n, dataAddr := buf_addr v\<rparr>) (s\<lparr>fw := m\<rparr>)"
  define s' where "s' = swapData (VDESC_TO_USBDESC ?d) s1"
  have hw: "dataAddr (hwd s1 (VDESC_TO_USBDESC ?d)) = buf_addr v" "dataSize (hwd s1 (VDESC_TO_USBDESC ?d)) = of_nat ?n" "fw s1 = m"
    by (simp_all add: s1_def upd_hwd_def)
  have b2: "fw s' = m\<lparr>bytes := bswap_words (buf_addr v) (length ws) (put_words (buf_addr v) ws f)\<rparr>"
    by (simp add: s'_def swapData_words hw un assms(6) mem(4))
  define m1 where "m1 = (fw s)\<lparr>vdescs := (vdescs (fw s))(?d \<mapsto> v')\<rparr>"
  have u: "upd_vdesc ?d (\<lambda>v. v\<lparr>next_desc := NULL, data_offset := 0, data_size := out_cmd_len s, control := 0\<rparr>) (fw s) = Some m1"
    "upd_vbuf ?buf (\<lambda>b. b\<lparr>next_buf := NULL, buf_length := out_cmd_len s\<rparr>) m1 = Some m"
    using nz by (simp_all add: upd_vdesc_def upd_vbuf_def rd_vbuf_def rd_vdesc_def m1_def m_def v'_def b'_def assms(3))
  have "fw_usbfifo_recv_command env ?buf (s\<lparr>fw := m\<rparr>) = map_option Inr (recv_buf env ?buf s')"
    using first by (simp add: fw_usbfifo_recv_command_def usbfifo_recv_command_def swap_buf_def mem(1-3) vf s'_def s1_def Let_def)
  then have "reg_out_last env ?d s = map_option (\<lambda>s. Inr (s\<lparr>out_new := True\<rparr>)) (recv_buf env ?buf s')"
    by (cases "recv_buf env ?buf s'") (simp_all add: reg_out_last_def u)
  moreover have "holds_command (fw s') ?buf cmd"
    unfolding holds_command_def
  proof (intro exI conjI)
    show "rd_vbuf (fw s') ?buf = Some b'" "rd_vdesc (fw s') (desc_list b') = Some v'"
      using mem(1,2) nz(1,2) by (simp_all add: b2 rd_vbuf_def rd_vdesc_def mem(3))
    show "mem_bytes (bytes (fw s')) (buf_addr v') ?n = cmd"
      using swapped_words [OF len _ refl, of ?n "buf_addr v" f] nwords_bounds(1) [of ?n] assms(6,7) by (simp add: b2 vf)
  qed (simp_all add: b'_def vf)
  moreover have "cmdQueue s' = cmdQueue s" by (simp add: s'_def s1_def upd_hwd_def swapData_words)
  ultimately show ?thesis by blast
qed

text \<open>The endpoint waits for a command and has a buffer of its own for it.\<close>

definition out_ready :: "'a hif_usb_scheme \<Rightarrow> addr \<Rightarrow> VBUF \<Rightarrow> VDESC \<Rightarrow> bool" where
  "out_ready s buf b v \<longleftrightarrow> out_new s \<and> cmdQueue s = buf \<and> rd_vbuf (fw s) buf = Some b \<and> rd_vdesc (fw s) (desc_list b) = Some v"

definition out_begin :: "addr \<Rightarrow> VBUF \<Rightarrow> VDESC \<Rightarrow> 'a hif_usb_scheme \<Rightarrow> 'a hif_usb_scheme" where
  "out_begin buf b v s = s\<lparr>cmdQueue := next_buf b, fw := (fw s)\<lparr>vbufs := (vbufs (fw s))(buf \<mapsto> b\<lparr>next_buf := NULL\<rparr>)\<rparr>,
     out_buf := buf, out_cmd_len := 0, out_regaddr := buf_addr v, out_new := False\<rparr>"

lemma reg_out_begin:
  fixes s :: "'a hif_usb_scheme"
  assumes "out_ready s buf b v" "\<not> rd8_val env (usb_log s) EP4_COUNT > 64"
  shows "usb_reg_out env s = usb_reg_out env (out_begin buf b v s)"
proof -
  have r: "out_new s" "cmdQueue s = buf" "buf \<noteq> NULL" "vbufs (fw s) buf = Some b" "desc_list b \<noteq> NULL"
    "vdescs (fw s) (desc_list b) = Some v"
    using assms(1) by (auto simp: out_ready_def rd_vbuf_def rd_vdesc_def split: if_splits)
  then have b: "reg_out_start (usb_do x s) = Some (True, out_begin buf b v (usb_do x s))" for x
    by (simp add: usb_do_def reg_out_start_def usbfifo_get_command_buf_def rd_vbuf_def rd_vdesc_def upd_vbuf_def
        out_begin_def Let_def)
  have o: "usb_do x (out_begin buf b v s) = out_begin buf b v (usb_do x s)" for x
    by (cases s) (simp add: usb_do_def out_begin_def)
  have c: "reg_out_start (out_begin buf b v s') = Some (True, out_begin buf b v s')" for s' :: "'a hif_usb_scheme"
    using r(3) by (simp add: reg_out_start_def out_begin_def)
  have l: "usb_log (out_begin buf b v s) = usb_log s" by (simp add: out_begin_def)
  have "\<not> (ucast (rd8_val env (usb_log s) EP4_COUNT) :: u16) > 64"
    using assms(2) by (simp add: word_less_nat_alt unsigned_ucast_eq take_bit_nat_eq_self)
  then show ?thesis
    by (simp add: usb_reg_out_def ioread8_def Let_def l b c o)
qed

lemma out_begin_receiving:
  "out_ready s buf b v \<Longrightarrow> receiving (out_begin buf b v s) buf (b\<lparr>next_buf := NULL\<rparr>) v (bytes (fw s)) []"
  by (auto simp: out_ready_def receiving_def out_begin_def rd_vbuf_def rd_vdesc_def intro!: exI [of _ "[]"] split: if_splits)

text \<open>From any point of a command on, the rest of its packets deliver it.\<close>

lemma run_out_delivers:
  assumes "receiving s buf b v f got" "feeds env (usb_log s) (packets rest)" "length (got @ rest) \<le> unat (buf_size v)"
    "4 \<le> length (got @ rest)" "take 4 (got @ rest) \<noteq> [0xFF, 0xFF, 0xFF, 0xFF]"
  shows "\<exists>s'. run_out env (length (packets rest)) s = map_option (\<lambda>s. Inr (s\<lparr>out_new := True\<rparr>)) (recv_buf env buf s') \<and>
    holds_command (fw s') buf (got @ rest) \<and> cmdQueue s' = cmdQueue s"
  using assms
proof (induction rest arbitrary: s got rule: packets.induct)
  case (1 rest)
  show ?case
  proof (cases "length rest < 64")
    case True
    then have p: "packets rest = [rest]" by (simp add: packets.simps)
    let ?t = "taken env rest s"
    have f: "feeds env (usb_log s) [rest]" using 1(3) p by simp
    obtain ws where ws: "length ws = nwords (length (got @ rest))"
      "take (length (got @ rest)) (concat (map le_bytes ws)) = got @ rest" "bytes (fw ?t) = put_words (buf_addr v) ws f"
      using taken_eff [OF 1(2) f] unfolding length_append by blast
    have t: "rd_vbuf (fw ?t) (out_buf ?t) = Some b" "rd_vdesc (fw ?t) (desc_list b) = Some v" "out_buf ?t = buf"
      "out_cmd_len ?t = of_nat (length (got @ rest))"
      using receivingD [OF 1(2)] by (simp_all add: taken_fields)
    obtain s' where s': "reg_out_last env (desc_list b) ?t = map_option (\<lambda>s. Inr (s\<lparr>out_new := True\<rparr>)) (recv_buf env buf s')"
      "holds_command (fw s') buf (got @ rest)" "cmdQueue s' = cmdQueue ?t"
      using reg_out_last_delivers [OF t(1,2,4) 1(4) ws(3,1,2) 1(5,6), of env] unfolding t(3) by blast
    have "usb_reg_out env s = map_option (\<lambda>s. Inr (s\<lparr>out_new := True\<rparr>)) (recv_buf env buf s')"
      using reg_out_packet [OF 1(2) f] 1(4) True s'(1) by simp
    then have "run_out env (length (packets rest)) s = map_option (\<lambda>s. Inr (s\<lparr>out_new := True\<rparr>)) (recv_buf env buf s')"
      by (cases "recv_buf env buf s'") (simp_all add: p)
    then show ?thesis using s' by (auto simp: taken_fields)
  next
    case False
    let ?p = "take 64 rest" and ?r = "drop 64 rest"
    have p: "packets rest = ?p # packets ?r" by (subst packets.simps) (use False in simp)
    have l: "length ?p = 64" "length got + 64 \<le> unat (buf_size v)" "length got + length ?p \<le> unat (buf_size v)"
      using False 1(4) by simp_all
    have f: "feeds env (usb_log s) (?p # packets ?r)" using 1(3) p by simp
    have e: "(got @ ?p) @ ?r = got @ rest" by simp
    note r = receiving_more [OF 1(2) f l(2,1)]
    obtain s' where s': "run_out env (length (packets ?r)) (taken env ?p s) =
        map_option (\<lambda>s. Inr (s\<lparr>out_new := True\<rparr>)) (recv_buf env buf s')"
      "holds_command (fw s') buf (got @ rest)" "cmdQueue s' = cmdQueue (taken env ?p s)"
      using 1(1) [OF False r] 1(4-6) unfolding e by blast
    have "usb_reg_out env s = Some (Inr (taken env ?p s))"
      using reg_out_packet [OF 1(2) f l(3)] l(1) by simp
    then show ?thesis using s' by (auto simp: p taken_fields)
  qed
qed

lemma packets_nonempty: "packets cmd = hd (packets cmd) # tl (packets cmd)"
  by (subst packets.simps, subst (2 3) packets.simps) simp

lemma run_out_begin:
  assumes "out_ready s buf b v" "feeds env (usb_log s) ps" "ps \<noteq> []"
  shows "run_out env (length ps) s = run_out env (length ps) (out_begin buf b v s)"
proof -
  obtain p qs where p: "ps = p # qs" using assms(3) by (cases ps) auto
  have "rd8_val env (usb_log s) EP4_COUNT = of_nat (length p)" "length p \<le> 64" using assms(2) by (simp_all add: p)
  then have "\<not> rd8_val env (usb_log s) EP4_COUNT > 64" by (simp add: word_less_nat_alt unat_of_nat)
  then show ?thesis using reg_out_begin [OF assms(1)] by (simp add: p)
qed

lemma command_delivered:
  assumes "out_ready s buf b v" "feeds env (usb_log s) (packets cmd)" "4 \<le> length cmd" "length cmd \<le> unat (buf_size v)"
    "take 4 cmd \<noteq> [0xFF, 0xFF, 0xFF, 0xFF]"
  shows "\<exists>s'. run_out env (length (packets cmd)) s = map_option (\<lambda>s. Inr (s\<lparr>out_new := True\<rparr>)) (recv_buf env buf s') \<and>
    holds_command (fw s') buf cmd \<and> cmdQueue s' = next_buf b"
proof -
  have "packets cmd \<noteq> []" using packets_nonempty by (metis list.distinct(1))
  note run = run_out_begin [OF assms(1,2) this]
  have l: "usb_log (out_begin buf b v s) = usb_log s" "cmdQueue (out_begin buf b v s) = next_buf b" by (simp_all add: out_begin_def)
  show ?thesis
    using run_out_delivers [OF out_begin_receiving [OF assms(1)], of env cmd] assms(2-5) unfolding run l append_Nil by blast
qed

section \<open>A command that never ends\<close>

lemma run_out_add:
  "run_out env (m + n) s = do { r \<leftarrow> run_out env m s; case r of Inl s \<Rightarrow> Some (Inl s) | Inr s \<Rightarrow> run_out env n s }"
proof (induction m arbitrary: s)
  case (Suc m)
  then show ?case by (cases "usb_reg_out env s") (auto split: sum.split)
qed simp

text \<open>The host sends full packets only; all words it sends are \<open>w\<close>.\<close>

definition floods :: "'e usb_hw_scheme \<Rightarrow> u32 \<Rightarrow> bool" where
  "floods env w \<longleftrightarrow> (\<forall>l. rd8_val env l EP4_COUNT = 64 \<and> rd32_val env l EP4_DATA = w)"

definition blk :: "u32 \<Rightarrow> u8 list" where
  "blk w = concat (replicate 16 (le_bytes w))"

lemma flood_vals: "floods env w \<Longrightarrow> ep4_vals env n l = replicate n w"
  by (induction n arbitrary: l) (simp_all add: floods_def)

lemma blk_length: "length (blk w) = 64"
  by (simp add: blk_def length_concat sum_list_replicate)

lemma flood_feeds: "floods env w \<Longrightarrow> feeds env l (replicate n (blk w))"
proof (induction n arbitrary: l)
  case (Suc n)
  have "concat (map le_bytes (replicate 16 w)) = blk w" by (simp add: blk_def)
  then show ?case
    using Suc blk_length [of w] by (simp add: flood_vals [OF Suc.prems] nwords_def) (simp add: floods_def)
qed simp

text \<open>The buffer is full: the counter goes on, the write pointer stays.\<close>

definition stuck :: "'a hif_usb_scheme \<Rightarrow> addr \<Rightarrow> VBUF \<Rightarrow> VDESC \<Rightarrow> nat \<Rightarrow> bool" where
  "stuck s buf b v c \<longleftrightarrow> \<not> out_new s \<and> out_buf s = buf \<and> rd_vbuf (fw s) buf = Some b \<and>
     rd_vdesc (fw s) (desc_list b) = Some v \<and> out_cmd_len s = of_nat c \<and> out_regaddr s = buf_addr v + of_nat (unat (buf_size v))"

lemma ep4_drain_eq: "ep4_drain env n s = s\<lparr>usb_log := usb_log s @ replicate n (Rd32 EP4_DATA)\<rparr>"
  by (induction n arbitrary: s) (simp_all add: iord32_def usb_do_def)

lemma stuck_step:
  assumes "stuck s buf b v c" "floods env w" "unat (buf_size v) < c + 64" "c + 64 < 65536"
  shows "\<exists>s'. usb_reg_out env s = Some (Inr s') \<and> stuck s' buf b v (c + 64) \<and> bytes (fw s') = bytes (fw s)"
proof -
  have s: "\<not> out_new s" "out_buf s = buf" "rd_vbuf (fw s) buf = Some b" "rd_vdesc (fw s) (desc_list b) = Some v"
    "out_cmd_len s = of_nat c" "out_regaddr s = buf_addr v + of_nat (unat (buf_size v))"
    using assms(1) by (auto simp: stuck_def)
  have "unat (of_nat (c + 64) :: u16) = c + 64" using assms(4) by (simp add: unat_of_nat del: of_nat_add)
  then have "(of_nat c + 64 :: u16) > buf_size v" using assms(3) by (simp add: word_less_nat_alt)
  moreover have "buf \<noteq> NULL" using s(3) by (auto simp: rd_vbuf_def)
  moreover have "rd8_val env l EP4_COUNT = 64" for l using assms(2) by (simp add: floods_def)
  ultimately have "usb_reg_out env s = Some (Inr (ep4_drain env 64 ((usb_do (Rd8 EP4_COUNT) s)\<lparr>out_cmd_len := of_nat c + 64\<rparr>)))"
    using s by (simp add: usb_reg_out_def ioread8_def Let_def reg_out_start_def usb_do_def)
  then show ?thesis using s by (simp add: ep4_drain_eq stuck_def usb_do_def)
qed

lemma stuck_run:
  assumes "stuck s buf b v c" "floods env w" "unat (buf_size v) < c + 64" "c + 64 * n < 65536"
  shows "\<exists>s'. run_out env n s = Some (Inr s') \<and> stuck s' buf b v (c + 64 * n)"
  using assms
proof (induction n arbitrary: s c)
  case (Suc n)
  obtain s1 where s1: "usb_reg_out env s = Some (Inr s1)" "stuck s1 buf b v (c + 64)"
    using stuck_step [OF Suc.prems(1-3)] Suc.prems(4) by auto
  show ?case
    using Suc.IH [OF s1(2) Suc.prems(2)] Suc.prems(3,4) s1(1) by (simp add: algebra_simps)
qed simp

lemma fill_run:
  assumes "receiving s buf b v f got" "floods env w" "length got + 64 * k \<le> unat (buf_size v)"
  shows "\<exists>s' got'. run_out env k s = Some (Inr s') \<and> receiving s' buf b v f got' \<and> length got' = length got + 64 * k"
  using assms
proof (induction k arbitrary: s got)
  case (Suc k)
  have f: "feeds env (usb_log s) [blk w]" using flood_feeds [OF Suc.prems(2), of _ 1] by simp
  have l: "length got + 64 \<le> unat (buf_size v)" "length got + length (blk w) \<le> unat (buf_size v)"
    using Suc.prems(3) by (simp_all add: blk_length)
  note r = receiving_more(1) [OF Suc.prems(1) f l(1) blk_length]
  have "usb_reg_out env s = Some (Inr (taken env (blk w) s))"
    using reg_out_packet [OF Suc.prems(1) f l(2)] by (simp add: blk_length)
  then show ?case
    using Suc.IH [OF r Suc.prems(2)] Suc.prems(3) by (simp add: blk_length add.assoc)
qed auto

lemma put_words_ld32:
  assumes "k < length ws" "4 * length ws < 2 ^ 32"
  shows "ld32 (put_words a ws f) (a + 4 * of_nat k) = ws ! k"
proof -
  have b: "put_words a ws f (a + 4 * of_nat k + of_nat (3 - r)) = le_bytes (ws ! k) ! r" if "r < 4" for r
    using put_words_byte [OF assms that, of a f] by (simp add: add.assoc)
  show ?thesis
    using b [of 0] b [of 1] b [of 2] b [of 3] by (intro ld32_le) (simp_all add: le_bytes_def)
qed

lemma wrap_step:
  assumes "stuck s buf b v 65472" "floods env w" "unat (buf_size v) = 512"
  shows "\<exists>s'. usb_reg_out env s = Some (Inr s') \<and>
    bytes (fw s') = put_words (buf_addr v + 512) (replicate 16 w) (bytes (fw s))"
proof -
  have s: "\<not> out_new s" "out_buf s = buf" "rd_vbuf (fw s) buf = Some b" "rd_vdesc (fw s) (desc_list b) = Some v"
    "out_cmd_len s = 65472" "out_regaddr s = buf_addr v + 512"
    using assms(1,3) by (auto simp: stuck_def)
  have "out_cmd_len s + 64 = 0" unfolding s(5) by simp
  moreover have "buf \<noteq> NULL" using s(3) by (auto simp: rd_vbuf_def)
  moreover have "rd8_val env l EP4_COUNT = 64" for l using assms(2) by (simp add: floods_def)
  ultimately have "usb_reg_out env s = Some (Inr (ep4_words env 16 ((usb_do (Rd8 EP4_COUNT) s)\<lparr>out_cmd_len := 0\<rparr>)))"
    using s(1-4) by (simp add: usb_reg_out_def ioread8_def Let_def reg_out_start_def usb_do_def fifo_words_def)
  then show ?thesis using s by (simp add: ep4_words_eq flood_vals [OF assms(2)] usb_do_def)
qed

lemma flood_overflows:
  assumes "out_ready s buf b v" "buf_size v = 512" "floods env w"
  shows "\<exists>s'. run_out env 1024 s = Some (Inr s') \<and> (\<forall>i < 16. ld32 (bytes (fw s')) (buf_addr v + 512 + 4 * of_nat i) = w)"
proof -
  let ?b = "b\<lparr>next_buf := NULL\<rparr>" and ?s = "out_begin buf b v s"
  have start: "run_out env 1024 s = run_out env (8 + (1015 + 1)) ?s"
    using run_out_begin [OF assms(1) flood_feeds [OF assms(3)], of "1024"] by simp
  obtain s1 got where s1: "run_out env 8 ?s = Some (Inr s1)" "receiving s1 buf ?b v (bytes (fw s)) got" "length got = 512"
    using fill_run [OF out_begin_receiving [OF assms(1)] assms(3), of 8] assms(2) by auto
  have "stuck s1 buf ?b v 512"
    using receivingD [OF s1(2)] by (simp add: stuck_def s1(3) assms(2))
  then obtain s2 where s2: "run_out env 1015 s1 = Some (Inr s2)" "stuck s2 buf ?b v 65472"
    using stuck_run [of s1 buf ?b v 512 env w 1015] assms(2,3) by auto
  obtain s3 where s3: "usb_reg_out env s2 = Some (Inr s3)"
    "bytes (fw s3) = put_words (buf_addr v + 512) (replicate 16 w) (bytes (fw s2))"
    using wrap_step [OF s2(2) assms(3)] assms(2) by auto
  have "run_out env 1024 s = Some (Inr s3)"
    unfolding start run_out_add s1(1) s2(1) by (simp add: s2(1) s3(1) del: run_out.simps(2)) (simp add: s3(1))
  moreover have "ld32 (bytes (fw s3)) (buf_addr v + 512 + 4 * of_nat i) = w" if "i < 16" for i
    using put_words_ld32 [of i "replicate 16 w" "buf_addr v + 512"] that by (simp add: s3(2))
  ultimately show ?thesis by blast
qed

end
