(* ===== verification/Hif_Event.thy ===== *)
theory Hif_Event
  imports Hif_Stream
begin

text \<open>
  The event endpoint: what the host receives of an event, packet by packet, and the properties of both endpoints.
\<close>

section \<open>What the host sees\<close>

abbreviation EP3_COUNT :: u32 where "EP3_COUNT \<equiv> usb8 ZM_EP3_BYTE_COUNT_HIGH_OFFSET"
abbreviation EP3_DATA :: u32 where "EP3_DATA \<equiv> usb32 ZM_EP3_DATA_OFFSET"
abbreviation FIFO_SIZE :: u32 where "FIFO_SIZE \<equiv> usb32 ZM_CBUS_FIFO_SIZE_OFFSET"

text \<open>
  The controller takes from a word as many bytes as its FIFO is wide, the lowest first, and sends the packet when the
  transfer is done.
\<close>

definition fifo_width :: "u32 \<Rightarrow> nat" where
  "fifo_width m = (if m = 0x1 then 1 else if m = 0x3 then 2 else if m = 0x7 then 3 else 4)"

fun sent_packets :: "nat \<Rightarrow> u8 list \<Rightarrow> usb_op list \<Rightarrow> u8 list list" where
  "sent_packets w p [] = []"
| "sent_packets w p (Wr32 a v # l) =
     (if a = EP3_DATA then sent_packets w (p @ take w (le_bytes v)) l
      else if a = FIFO_SIZE then sent_packets (fifo_width v) p l
      else sent_packets w p l)"
| "sent_packets w p (Wr8 a v # l) = (if a = EP3_COUNT then p # sent_packets w [] l else sent_packets w p l)"
| "sent_packets w p (x # l) = sent_packets w p l"

lemma regs_differ: "EP3_DATA \<noteq> FIFO_SIZE" "FIFO_SIZE \<noteq> EP3_DATA"
  by (simp_all add: usb32_def)

function in_packets :: "u8 list \<Rightarrow> u8 list list" where
  "in_packets ev = (if length ev \<le> 64 then [ev] else take 64 ev # in_packets (drop 64 ev))"
  by auto
termination by (relation "measure length") auto

declare in_packets.simps [simp del]

section \<open>Bytes with their words reversed\<close>

definition swapped_bytes :: "(addr \<Rightarrow> u8) \<Rightarrow> addr \<Rightarrow> nat \<Rightarrow> u8 list" where
  "swapped_bytes f a n = map (\<lambda>i. f (a + of_nat (4 * (i div 4) + (3 - i mod 4)))) [0..<n]"

lemma bswap_swapped:
  assumes "4 * nwords n < 2 ^ 32"
  shows "swapped_bytes (bswap_words a (nwords n) f) a n = mem_bytes f a n"
proof -
  have "bswap_words a (nwords n) f (a + of_nat (4 * (i div 4) + (3 - i mod 4))) = f (a + of_nat i)" if "i < n" for i
  proof -
    have k: "i div 4 < nwords n" using that unfolding nwords_def by presburger
    have "i mod 4 < 4" by simp
    then have "3 - (3 - i mod 4) = i mod 4" "3 - i mod 4 < 4" by arith+
    then show ?thesis
      using bswap_words_byte [OF k assms, of "3 - i mod 4" a f] by simp
  qed
  then show ?thesis by (simp add: swapped_bytes_def mem_bytes_def)
qed

lemma le_bytes_ld32: "le_bytes (ld32 f a) = [f (a + 3), f (a + 2), f (a + 1), f a]"
proof -
  have "ucast (ld32 f a) = f (a + 3)" "ucast (drop_bit 8 (ld32 f a)) = f (a + 2)"
    "ucast (drop_bit 16 (ld32 f a)) = f (a + 1)" "ucast (drop_bit 24 (ld32 f a)) = f a"
    unfolding ld32_def by (rule bit_word_eqI, auto simp: bit_simps dest: bit_imp_le_length)+
  then show ?thesis by (simp add: le_bytes_def)
qed

definition mem_words :: "(addr \<Rightarrow> u8) \<Rightarrow> addr \<Rightarrow> nat \<Rightarrow> u32 list" where
  "mem_words f a n = map (\<lambda>k. ld32 f (a + 4 * of_nat k)) [0..<n]"

lemma mem_words_swapped:
  assumes "n \<le> 4 * k"
  shows "take n (concat (map le_bytes (mem_words f a k))) = swapped_bytes f a n"
proof (rule nth_equalityI)
  fix i assume "i < length (take n (concat (map le_bytes (mem_words f a k))))"
  then have i: "i < n" by simp
  have d: "i mod 4 < 4" "i div 4 < k" using i assms by auto
  have l: "i < 4 * length (mem_words f a k)" using i assms by (simp add: mem_words_def)
  have w: "mem_words f a k ! (i div 4) = ld32 f (a + 4 * of_nat (i div 4))" using d(2) by (simp add: mem_words_def)
  consider "i mod 4 = 0" | "i mod 4 = 1" | "i mod 4 = 2" | "i mod 4 = 3" using d(1) by linarith
  then have "le_bytes (ld32 f (a + 4 * of_nat (i div 4))) ! (i mod 4) = f (a + of_nat (4 * (i div 4) + (3 - i mod 4)))"
    by cases (simp_all add: le_bytes_ld32 ac_simps)
  then show "take n (concat (map le_bytes (mem_words f a k))) ! i = swapped_bytes f a n ! i"
    using i concat_le_bytes_nth [OF l] w by (simp add: swapped_bytes_def)
next
  have "length (mem_words f a k) = k" by (simp add: mem_words_def)
  then show "length (take n (concat (map le_bytes (mem_words f a k)))) = length (swapped_bytes f a n)"
    using assms by (simp add: swapped_bytes_def)
qed

lemma swapped_bytes_split:
  "m \<le> n \<Longrightarrow> m mod 4 = 0 \<Longrightarrow> take m (swapped_bytes f a n) = swapped_bytes f a m \<and>
    drop m (swapped_bytes f a n) = swapped_bytes f (a + of_nat m) (n - m)"
proof -
  assume "m \<le> n" "m mod 4 = 0"
  then obtain k where k: "m = 4 * k" by auto
  have "(i + m) div 4 = i div 4 + k" "(i + m) mod 4 = i mod 4" for i unfolding k by auto
  then have "f (a + of_nat (4 * ((i + m) div 4) + (3 - (i + m) mod 4))) = f (a + of_nat m + of_nat (4 * (i div 4) + (3 - i mod 4)))" for i
    unfolding k by (simp add: algebra_simps)
  then have "drop m (swapped_bytes f a n) = swapped_bytes f (a + of_nat m) (n - m)"
    by (intro nth_equalityI) (simp_all add: swapped_bytes_def add.commute less_diff_conv del: of_nat_add of_nat_mult)
  moreover have "take m (swapped_bytes f a n) = swapped_bytes f a m"
    using \<open>m \<le> n\<close> by (simp add: swapped_bytes_def take_map)
  ultimately show ?thesis by blast
qed

section \<open>One packet\<close>

lemma ep3_words_eq:
  "ep3_words n s = s\<lparr>in_regaddr := in_regaddr s + 4 * of_nat n,
     usb_log := usb_log s @ map (Wr32 EP3_DATA) (mem_words (bytes (fw s)) (in_regaddr s) n)\<rparr>"
proof (induction n arbitrary: s)
  case (Suc n)
  have "mem_words f a (Suc n) = ld32 f a # mem_words f (a + 4) n" for f a
    by (simp add: mem_words_def upt_conv_Cons map_Suc_upt [symmetric] del: upt_Suc) (simp add: comp_def algebra_simps)
  then show ?case by (simp add: Suc usb_do_def Let_def algebra_simps)
qed (simp add: mem_words_def)

text \<open>The accesses for a packet of \<open>n\<close> bytes from \<open>a\<close>.\<close>

definition packet_ops :: "(addr \<Rightarrow> u8) \<Rightarrow> addr \<Rightarrow> nat \<Rightarrow> usb_op list" where
  "packet_ops f a n = map (Wr32 EP3_DATA) (mem_words f a (n div 4)) @
     (if n mod 4 = 0 then []
      else [Wr32 FIFO_SIZE (if n mod 4 = 3 then 0x7 else if n mod 4 = 2 then 0x3 else 0x1),
            Wr32 EP3_DATA (ld32 f (a + 4 * of_nat (n div 4))), Wr32 FIFO_SIZE 0xF])"

lemma sent_words: "sent_packets 4 p (map (Wr32 EP3_DATA) ws @ l) = sent_packets 4 (p @ concat (map le_bytes ws)) l"
  by (induction ws arbitrary: p) simp_all

lemma sent_packet:
  "sent_packets 4 [] (packet_ops f a n @ Rd8 x # Wr8 EP3_COUNT v # l) = swapped_bytes f a n # sent_packets 4 [] l"
proof -
  let ?q = "n div 4" and ?r = "n mod 4"
  have n: "n = 4 * ?q + ?r" "?r < 4" by simp_all
  have len: "length (mem_words f a k) = k" for k by (simp add: mem_words_def)
  have c: "concat (map le_bytes (mem_words f a ?q)) @ take ?r (le_bytes (ld32 f (a + 4 * of_nat ?q))) = swapped_bytes f a n"
  proof -
    have "mem_words f a (Suc ?q) = mem_words f a ?q @ [ld32 f (a + 4 * of_nat ?q)]" by (simp add: mem_words_def)
    moreover have "take n (concat (map le_bytes (mem_words f a (Suc ?q)))) = swapped_bytes f a n"
      by (rule mem_words_swapped) simp
    ultimately show ?thesis by (simp add: len) (metis mod_div_decomp add_diff_cancel_left' mult.commute)
  qed
  have w: "?r \<noteq> 0 \<Longrightarrow> fifo_width (if ?r = 3 then 0x7 else if ?r = 2 then 0x3 else 0x1) = ?r"
    using n(2) by (auto simp: fifo_width_def)
  show ?thesis
  proof (cases "?r = 0")
    case True
    then show ?thesis using c by (simp add: packet_ops_def sent_words)
  next
    case False
    then show ?thesis
      using c w by (simp add: packet_ops_def sent_words regs_differ fifo_width_def [of "0xF"])
  qed
qed

section \<open>One event\<close>

fun run_in :: "'a hif_usb_scheme usb_env \<Rightarrow> nat \<Rightarrow> 'a hif_usb_scheme \<Rightarrow> 'a hif_usb_scheme option" where
  "run_in env 0 s = Some s"
| "run_in env (Suc n) s = do { s \<leftarrow> usb_status_in env s; run_in env n s }"

text \<open>In the middle of an event: \<open>n\<close> bytes from \<open>a\<close> are left.\<close>

definition sending :: "'a hif_usb_scheme \<Rightarrow> addr \<Rightarrow> addr \<Rightarrow> nat \<Rightarrow> bool" where
  "sending s buf a n \<longleftrightarrow> \<not> in_new s \<and> in_evntbuf s = buf \<and> buf \<noteq> NULL \<and> in_regaddr s = a \<and> in_buf_len s = of_nat n \<and> n < 65536"

definition in_put_packet :: "'e usb_hw_scheme \<Rightarrow> nat \<Rightarrow> 'a hif_usb_scheme \<Rightarrow> 'a hif_usb_scheme" where
  "in_put_packet env n s = mUSB_EP3_XFER_DONE env (ep3_rest (of_nat (n mod 4)) (ep3_words (n div 4) s))"

lemma xfer_done_eff: "\<exists>v. mUSB_EP3_XFER_DONE env s = s\<lparr>usb_log := usb_log s @ [Rd8 EP3_COUNT, Wr8 EP3_COUNT v]\<rparr>"
  by (rule exI) (simp add: mUSB_EP3_XFER_DONE_def ioread8_def usb_do_def Let_def)

lemma put_packet_eff:
  "\<exists>v. in_put_packet env n s = s\<lparr>in_regaddr := in_regaddr s + 4 * of_nat (n div 4),
     usb_log := usb_log s @ packet_ops (bytes (fw s)) (in_regaddr s) n @ [Rd8 EP3_COUNT, Wr8 EP3_COUNT v]\<rparr>"
proof -
  have r: "n mod 4 < 4" by simp
  let ?t = "s\<lparr>in_regaddr := in_regaddr s + 4 * of_nat (n div 4),
     usb_log := usb_log s @ packet_ops (bytes (fw s)) (in_regaddr s) n\<rparr>"
  consider "n mod 4 = 0" | "n mod 4 = 1" | "n mod 4 = 2" | "n mod 4 = 3" using r by linarith
  then have "ep3_rest (of_nat (n mod 4)) (ep3_words (n div 4) s) = ?t"
    by cases (simp_all add: ep3_words_eq ep3_rest_def usb_do_def Let_def packet_ops_def)
  then show ?thesis using xfer_done_eff [of env ?t] by (auto simp: in_put_packet_def)
qed

lemma put_packet_keeps [simp]: "fw (in_put_packet env n s) = fw s" "ev_head (in_put_packet env n s) = ev_head s"
  "ev_tail (in_put_packet env n s) = ev_tail s"
  using put_packet_eff [of env n s] by auto

lemma count_parts:
  assumes "n \<le> 64"
  shows "unat ((of_nat n :: u16) div 4) = n div 4" "(of_nat n :: u16) mod 4 = of_nat (n mod 4)"
proof -
  have n: "unat (of_nat n :: u16) = n" using assms by (simp add: unat_of_nat)
  show "unat ((of_nat n :: u16) div 4) = n div 4" by (simp add: unat_div_distrib n)
  have "n mod 4 < 4" by simp
  then have "unat (of_nat (n mod 4) :: u16) = n mod 4" by (simp add: unat_of_nat)
  then show "(of_nat n :: u16) mod 4 = of_nat (n mod 4)" by (intro unat_eqI) (simp add: unat_mod_distrib n)
qed

lemma status_in_more:
  assumes "sending s buf a n" "64 < n"
  shows "usb_status_in env s = Some (in_put_packet env 64 (s\<lparr>in_buf_len := of_nat (n - 64)\<rparr>))"
proof -
  have "(of_nat n :: u16) > 64" using assms by (simp add: sending_def word_less_nat_alt unat_of_nat)
  moreover have "(of_nat n - 64 :: u16) = of_nat (n - 64)" using assms(2) by (simp add: of_nat_diff)
  ultimately show ?thesis
    using assms(1) by (simp add: usb_status_in_def sending_def Let_def in_put_packet_def)
qed

lemma status_in_last:
  assumes "sending s buf a n" "n \<le> 64"
  shows "usb_status_in env s = map_option (in_new_update (\<lambda>_. True)) (send_buf_done env buf (in_put_packet env n s))"
proof -
  have l: "\<not> (of_nat n :: u16) > 64" using assms by (simp add: word_less_nat_alt unat_of_nat)
  have "in_evntbuf (in_put_packet env n s) = buf"
    using put_packet_eff [of env n s] assms(1) by (auto simp: sending_def)
  then show ?thesis
    using assms(1) l count_parts [OF assms(2)]
    by (cases "send_buf_done env buf (in_put_packet env n s)")
      (simp_all add: usb_status_in_def sending_def Let_def in_put_packet_def usbfifo_send_event_done_def)
qed

lemma sent_packets_packet:
  "sent_packets 4 [] (packet_ops f a n @ [Rd8 x, Wr8 EP3_COUNT v] @ l) = swapped_bytes f a n # sent_packets 4 [] l"
  using sent_packet [of f a n x v l] by simp

lemma in_packets_nonempty: "in_packets ev \<noteq> []"
  by (subst in_packets.simps) simp

text \<open>The rest of an event leaves, and then its buffer is handed back.\<close>

lemma run_in_sends:
  assumes "sending s buf a n" "swapped_bytes (bytes (fw s)) a n = ev"
  shows "\<exists>s' l. run_in env (length (in_packets ev)) s = map_option (in_new_update (\<lambda>_. True)) (send_buf_done env buf s') \<and>
    usb_log s' = usb_log s @ l \<and> sent_packets 4 [] l = in_packets ev \<and> fw s' = fw s \<and> ev_head s' = ev_head s \<and> ev_tail s' = ev_tail s"
  using assms
proof (induction ev arbitrary: s a n rule: in_packets.induct)
  case (1 ev)
  have n: "length ev = n" using 1(3) by (auto simp: swapped_bytes_def)
  show ?case
  proof (cases "n \<le> 64")
    case True
    then have p: "in_packets ev = [ev]" using n by (simp add: in_packets.simps)
    let ?t = "in_put_packet env n s"
    obtain v where v: "?t = s\<lparr>in_regaddr := in_regaddr s + 4 * of_nat (n div 4),
        usb_log := usb_log s @ packet_ops (bytes (fw s)) (in_regaddr s) n @ [Rd8 EP3_COUNT, Wr8 EP3_COUNT v]\<rparr>"
      using put_packet_eff by blast
    have a: "in_regaddr s = a" using 1(2) by (simp add: sending_def)
    have "run_in env (length (in_packets ev)) s = map_option (in_new_update (\<lambda>_. True)) (send_buf_done env buf ?t)"
      using status_in_last [OF 1(2) True, of env] by (cases "send_buf_done env buf ?t") (simp_all add: p)
    moreover have "sent_packets 4 [] (packet_ops (bytes (fw s)) (in_regaddr s) n @ [Rd8 EP3_COUNT, Wr8 EP3_COUNT v]) = in_packets ev"
      using sent_packets_packet [of "bytes (fw s)" a n EP3_COUNT v "[]"] 1(3) by (simp add: a p)
    ultimately show ?thesis
      by (intro exI [of _ ?t] exI [of _ "packet_ops (bytes (fw s)) (in_regaddr s) n @ [Rd8 EP3_COUNT, Wr8 EP3_COUNT v]"]) (simp add: v)
  next
    case False
    then have p: "in_packets ev = take 64 ev # in_packets (drop 64 ev)" using n by (subst in_packets.simps) simp
    let ?t = "in_put_packet env 64 (s\<lparr>in_buf_len := of_nat (n - 64)\<rparr>)"
    obtain v where v: "?t = s\<lparr>in_buf_len := of_nat (n - 64), in_regaddr := in_regaddr s + 4 * of_nat (64 div 4),
        usb_log := usb_log s @ packet_ops (bytes (fw s)) (in_regaddr s) 64 @ [Rd8 EP3_COUNT, Wr8 EP3_COUNT v]\<rparr>"
      using put_packet_eff [of env 64 "s\<lparr>in_buf_len := of_nat (n - 64)\<rparr>"] by auto
    have a: "in_regaddr s = a" using 1(2) by (simp add: sending_def)
    have s: "take 64 ev = swapped_bytes (bytes (fw s)) a 64" "swapped_bytes (bytes (fw ?t)) (a + 64) (n - 64) = drop 64 ev"
      using swapped_bytes_split [of 64 n "bytes (fw s)" a] False 1(3) by simp_all
    have t: "sending ?t buf (a + 64) (n - 64)" using 1(2) by (auto simp: sending_def v)
    obtain s' l where s': "run_in env (length (in_packets (drop 64 ev))) ?t =
        map_option (in_new_update (\<lambda>_. True)) (send_buf_done env buf s')"
      "usb_log s' = usb_log ?t @ l" "sent_packets 4 [] l = in_packets (drop 64 ev)" "fw s' = fw ?t" "ev_head s' = ev_head ?t" "ev_tail s' = ev_tail ?t"
      using 1(1) [OF _ t s(2)] False n by auto
    have "run_in env (length (in_packets ev)) s = map_option (in_new_update (\<lambda>_. True)) (send_buf_done env buf s')"
      using status_in_more [OF 1(2), of env] False s'(1) by (simp add: p)
    moreover have "sent_packets 4 [] (packet_ops (bytes (fw s)) (in_regaddr s) 64 @ [Rd8 EP3_COUNT, Wr8 EP3_COUNT v] @ l) = in_packets ev"
      unfolding sent_packets_packet s'(3) p s(1) a ..
    ultimately show ?thesis
      using s'(2,4-6)
      by (intro exI [of _ s'] exI [of _ "packet_ops (bytes (fw s)) (in_regaddr s) 64 @ [Rd8 EP3_COUNT, Wr8 EP3_COUNT v] @ l"]) (simp add: v)
  qed
qed

section \<open>Events in their queue\<close>

text \<open>The queue of events and the first of them, \<open>ev\<close>, in memory as it goes to the FIFO.\<close>

definition ev_queue :: "'a hif_usb_scheme \<Rightarrow> addr list \<Rightarrow> bool" where
  "ev_queue s bufs \<longleftrightarrow> xmited (vbufs (fw s)) (ev_head s) (ev_tail s) bufs"

definition holds_event :: "fw_mem \<Rightarrow> addr \<Rightarrow> u8 list \<Rightarrow> bool" where
  "holds_event m buf ev \<longleftrightarrow> (\<exists>b v. rd_vbuf m buf = Some b \<and> rd_vdesc m (desc_list b) = Some v \<and>
     buf_length b = of_nat (length ev) \<and> length ev < 65536 \<and>
     swapped_bytes (bytes m) (buf_addr v + ucast (data_offset v)) (length ev) = ev)"

lemma event_sent:
  assumes "in_new s" "ev_queue s (buf # bufs)" "holds_event (fw s) buf ev"
  shows "\<exists>s' l. run_in env (length (in_packets ev)) s = map_option (in_new_update (\<lambda>_. True)) (send_buf_done env buf s') \<and>
    usb_log s' = usb_log s @ l \<and> sent_packets 4 [] l = in_packets ev \<and> ev_queue s' bufs"
proof -
  obtain b v where b: "rd_vbuf (fw s) buf = Some b" "rd_vdesc (fw s) (desc_list b) = Some v" "buf_length b = of_nat (length ev)"
    "length ev < 65536" "swapped_bytes (bytes (fw s)) (buf_addr v + ucast (data_offset v)) (length ev) = ev"
    using assms(3) by (auto simp: holds_event_def)
  let ?a = "buf_addr v + ucast (data_offset v)"
  have bn: "buf \<noteq> NULL" "vbufs (fw s) buf = Some b" using b(1) by (auto simp: rd_vbuf_def split: if_splits)
  have h: "ev_head s = buf" using assms(2) by (simp add: ev_queue_def xmited_def)
  define y where "y = b\<lparr>next_buf := NULL\<rparr>"
  define q where "q = s\<lparr>ev_head := if ev_head s = ev_tail s then NULL else next_buf b,
     ev_tail := if ev_head s = ev_tail s then NULL else ev_tail s, fw := (fw s)\<lparr>vbufs := (vbufs (fw s))(buf \<mapsto> y)\<rparr>\<rparr>"
  have get: "usbfifo_get_event_buf s = Some (buf, q)"
    using bn h by (auto simp: usbfifo_get_event_buf_def rd_vbuf_def upd_vbuf_def q_def y_def Let_def intro!: hif_usb.equality)
  define t where "t = q\<lparr>in_evntbuf := buf, in_regaddr := ?a, in_buf_len := of_nat (length ev), in_new := False\<rparr>"
  have q: "rd_vbuf (fw q) buf = Some y" "rd_vdesc (fw q) = rd_vdesc (fw s)" "desc_list y = desc_list b" "buf_length y = buf_length b"
    using bn by (simp_all add: q_def rd_vbuf_def rd_vdesc_def fun_eq_iff y_def)
  have t: "sending t buf ?a (length ev)" "swapped_bytes (bytes (fw t)) ?a (length ev) = ev" "\<not> in_new t" "usb_log t = usb_log s"
    using b bn by (simp_all add: sending_def t_def q_def)
  have "ev_queue t bufs"
    using xmited_remove [of "vbufs (fw s)" "ev_head s" "ev_tail s" buf bufs b y] assms(2) bn(2)
    by (simp add: ev_queue_def t_def q_def)
  moreover have "usb_status_in env s = usb_status_in env t"
    using get q b(2,3) bn assms(1) t(3) by (simp add: usb_status_in_def t_def Let_def)
  moreover obtain n where "length (in_packets ev) = Suc n" using in_packets_nonempty [of ev] by (cases "in_packets ev") auto
  ultimately show ?thesis
    using run_in_sends [OF t(1,2), of env] t(4) by (auto simp: ev_queue_def)
qed

lemma swap_buf_eff:
  assumes "rd_vbuf (fw s) buf = Some b" "rd_vdesc (fw s) (desc_list b) = Some v"
  shows "\<exists>H. swap_buf buf s = Some (s\<lparr>hwd := H, fw := (fw s)\<lparr>bytes :=
    bswap_words (buf_addr v + ucast (data_offset v)) (nwords (unat (data_size v))) (bytes (fw s))\<rparr>\<rparr>)"
  by (rule exI) (simp add: swap_buf_def assms swapData_words upd_hwd_def Let_def)

lemma int_enable_eff: "\<exists>x v. mUSB_STATUS_IN_INT_ENABLE env s = s\<lparr>usb_log := usb_log s @ [Rd8 x, Wr8 (usb8 0x17) v]\<rparr>"
  by (intro exI) (simp add: mUSB_STATUS_IN_INT_ENABLE_def ioread8_def usb_do_def Let_def)

lemma send_event_queued:
  assumes "ev_queue s bufs" "buf \<notin> set bufs" "rd_vbuf (fw s) buf = Some b" "rd_vdesc (fw s) (desc_list b) = Some v"
    "buf_length b = data_size v" "mem_bytes (bytes (fw s)) (buf_addr v + ucast (data_offset v)) (unat (data_size v)) = ev"
  shows "\<exists>s'. send_buffer_via_fifo env buf s = Some s' \<and> ev_queue s' (bufs @ [buf]) \<and> holds_event (fw s') buf ev \<and>
    in_new s' = in_new s"
proof -
  let ?a = "buf_addr v + ucast (data_offset v)" and ?n = "unat (data_size v)"
  have bn: "buf \<noteq> NULL" "vbufs (fw s) buf = Some b" using assms(3) by (auto simp: rd_vbuf_def split: if_splits)
  have n: "length ev = ?n" "?n < 65536" using assms(6) unat_lt2p_u16 by (auto simp: mem_bytes_def)
  obtain H where H: "swap_buf buf s = Some (s\<lparr>hwd := H, fw := (fw s)\<lparr>bytes := bswap_words ?a (nwords ?n) (bytes (fw s))\<rparr>\<rparr>)"
    using swap_buf_eff [OF assms(3,4)] by blast
  define s1 where "s1 = s\<lparr>hwd := H, fw := (fw s)\<lparr>bytes := bswap_words ?a (nwords ?n) (bytes (fw s))\<rparr>\<rparr>"
  have "4 * nwords ?n < 2 ^ 32" using nwords_bounds(2) [of ?n] n(2) by simp
  then have sw: "swapped_bytes (bytes (fw s1)) ?a (length ev) = ev"
    using bswap_swapped [of ?n ?a "bytes (fw s)"] assms(6) n(1) by (simp add: s1_def)
  have len: "data_size v = of_nat (length ev)" by (simp add: n(1))
  have x: "xmited (vbufs (fw s1)) (ev_head s1) (ev_tail s1) bufs" using assms(1) by (simp add: ev_queue_def s1_def)
  have ev: "holds_event m buf ev" if "vbufs m buf = Some b'" "desc_list b' = desc_list b" "buf_length b' = buf_length b"
    "vdescs m = vdescs (fw s)" "bytes m = bytes (fw s1)" for m b'
  proof -
    have "rd_vbuf m buf = Some b'" using that(1) bn(1) by (simp add: rd_vbuf_def)
    moreover have "rd_vdesc m (desc_list b') = Some v" using that(2,4) assms(4) by (simp add: rd_vdesc_def split: if_splits)
    moreover have "buf_length b' = of_nat (length ev)" by (simp only: that(3) assms(5) len)
    moreover have "length ev < 65536" by (simp only: n)
    moreover have "swapped_bytes (bytes m) ?a (length ev) = ev" using sw by (simp only: that(5))
    ultimately show ?thesis unfolding holds_event_def by blast
  qed
  show ?thesis
  proof (cases "bufs = []")
    case True
    then have "ev_head s1 = NULL" using x by (simp add: xmited_def)
    then have "send_buffer_via_fifo env buf s = Some (mUSB_STATUS_IN_INT_ENABLE env (s1\<lparr>ev_head := buf, ev_tail := buf\<rparr>))"
      using H by (simp add: send_buffer_via_fifo_def s1_def)
    moreover have "xmited (vbufs (fw s1)) buf buf [buf]" using bn by (simp add: xmited_def s1_def)
    ultimately show ?thesis
      using int_enable_eff [of env "s1\<lparr>ev_head := buf, ev_tail := buf\<rparr>"] True ev [of "fw s1" b] bn
      by (auto simp: ev_queue_def s1_def)
  next
    case False
    have h: "ev_head s1 \<noteq> NULL" "ev_tail s1 \<noteq> NULL" "ev_tail s1 \<in> set bufs"
    proof -
      have "ev_head s1 \<in> set bufs" "ev_tail s1 \<in> set bufs" "NULL \<notin> set bufs"
        using x xmited_tail(1,2) [OF x False] by (simp_all add: xmited_def)
      then show "ev_head s1 \<noteq> NULL" "ev_tail s1 \<noteq> NULL" "ev_tail s1 \<in> set bufs" by metis+
    qed
    obtain t where t: "vbufs (fw s1) (ev_tail s1) = Some t" using x h(3) by (auto simp: xmited_def)
    define m where "m = (fw s1)\<lparr>vbufs := (vbufs (fw s1))(ev_tail s1 \<mapsto> t\<lparr>next_buf := buf\<rparr>)\<rparr>"
    have "send_buffer_via_fifo env buf s = Some (mUSB_STATUS_IN_INT_ENABLE env (s1\<lparr>fw := m, ev_tail := buf\<rparr>))"
      using H h t by (simp add: send_buffer_via_fifo_def upd_vbuf_def rd_vbuf_def m_def flip: s1_def)
    moreover have "xmited (vbufs m) (ev_head s1) buf (bufs @ [buf])"
      using xmited_append(2) [OF x assms(2) bn(1) _ False t, of b] bn(2) by (simp add: m_def s1_def)
    moreover have "vbufs m buf = Some b" using h(3) assms(2) bn(2) by (auto simp: m_def s1_def)
    ultimately show ?thesis
      using int_enable_eff [of env "s1\<lparr>fw := m, ev_tail := buf\<rparr>"] ev [of m b]
      by (auto simp: ev_queue_def m_def s1_def)
  qed
qed

section \<open>Properties\<close>

text \<open>
  A command buffer at 0x1000 with its data at 0x8000, and an idle context. The controllers below deliver one word
  again and again: in two packets, of 64 and of 8 bytes, or in full packets for ever.
\<close>

definition mem1 :: fw_mem where
  "mem1 = \<lparr>vbufs = [0x1000 \<mapsto> \<lparr>desc_list = 0x2000, next_buf = NULL, buf_length = 8, ctx = []\<rparr>],
     vdescs = [0x2000 \<mapsto> \<lparr>next_desc = NULL, buf_addr = 0x8000, buf_size = 512, data_offset = 0, data_size = 8, control = 0, hw_desc_buf = []\<rparr>],
     bytes = (\<lambda>a. ucast a), allocram_current_addr = 0, allocram_remaining_bytes = 0, free_buf_head = NULL, nVbufNum = 0,
     free_vdesc_head = NULL, bufQ = []\<rparr>"

definition hif1 :: "addr \<Rightarrow> hif_usb" where
  "hif1 cq = \<lparr>fw = mem1, hwd = (\<lambda>_. \<lparr>dctrl = 0, dstatus = 0, totalLen = 0, dataSize = 0, lastAddr = NULL, dataAddr = 0, nextAddr = NULL\<rparr>),
     usb_log = [], dnQ = \<lparr>qhead = NULL, terminator = NULL\<rparr>,
     upQ = \<lparr>qhead = NULL, terminator = NULL, xmited_buf_head = NULL, xmited_buf_tail = NULL\<rparr>,
     hpdnQ = \<lparr>qhead = NULL, terminator = NULL\<rparr>, mpdnQ = \<lparr>qhead = NULL, terminator = NULL\<rparr>,
     cmdQueue = cq, ev_head = NULL, ev_tail = NULL, in_new = True, in_evntbuf = NULL, in_regaddr = 0, in_buf_len = 0,
     out_new = True, out_buf = NULL, out_regaddr = 0, out_cmd_len = 0\<rparr>"

definition controller :: "(usb_op list \<Rightarrow> u8) \<Rightarrow> hif_usb usb_env" where
  "controller cnt = \<lparr>rd8_val = (\<lambda>l _. cnt l), rd32_val = (\<lambda>_ _. 0x04030201), dma_val = (\<lambda>_ H. H),
     recv_buf = (\<lambda>_. Some), send_buf_done = (\<lambda>_. Some)\<rparr>"

definition two_packets :: "hif_usb usb_env" where
  "two_packets = controller (\<lambda>l. if l = [] then 64 else 8)"

lemma two_packets_callbacks: "recv_buf two_packets buf s = Some s" "send_buf_done two_packets buf s = Some s"
  by (simp_all add: two_packets_def controller_def)

definition command1 :: "nat \<Rightarrow> u8 list" where
  "command1 n = concat (replicate n [1, 2, 3, 4])"

lemma hif1_ready: "\<exists>b v. out_ready (hif1 0x1000) 0x1000 b v \<and> buf_size v = 512"
  by (simp add: out_ready_def hif1_def mem1_def rd_vbuf_def rd_vdesc_def)

lemma controller_vals: "ep4_vals (controller cnt) n l = replicate n 0x04030201"
  by (induction n arbitrary: l) (simp_all add: controller_def)

lemma le_bytes_1234: "le_bytes 0x04030201 = [1, 2, 3, 4]"
  by (simp add: le_bytes_def)

lemma command1_simps: "length (command1 n) = 4 * n" "0 < n \<Longrightarrow> take 4 (command1 n) \<noteq> [0xFF, 0xFF, 0xFF, 0xFF]"
  "command1 18 = command1 16 @ command1 2"
proof -
  show "length (command1 n) = 4 * n" by (induction n) (simp_all add: command1_def)
  show "0 < n \<Longrightarrow> take 4 (command1 n) \<noteq> [0xFF, 0xFF, 0xFF, 0xFF]" by (cases n) (simp_all add: command1_def)
  show "command1 18 = command1 16 @ command1 2"
    unfolding command1_def using replicate_add [of 16 2 "[1, 2, 3, 4] :: u8 list"] by simp
qed

lemma two_packets_feeds: "feeds two_packets [] [command1 16, command1 2]"
proof -
  have "concat (map le_bytes (replicate n 0x04030201)) = command1 n" for n
    by (simp add: command1_def le_bytes_1234)
  then have t: "take (4 * n) (concat (map le_bytes (replicate n 0x04030201))) = command1 n" for n
    by (simp add: command1_simps(1))
  have "nwords 64 = 16" "nwords 8 = 2" by (simp_all add: nwords_def)
  then show ?thesis
    using t [of 16] t [of 2] by (simp add: command1_simps(1) two_packets_def controller_vals) (simp add: controller_def)
qed

text \<open>
  Property C36. A command of the host that fits in a command buffer, has four bytes or more and does not begin
  with the suspend pattern (four bytes 255) arrives byte for byte in the packets of 64 bytes and a shorter last one
  that the controller makes of it: the words of the FIFO are put together and reversed, and the layer above is called once,
  with the buffer that holds the command; the endpoint is then ready for the next command.
\<close>

theorem usb_command_delivered:
  assumes "out_ready s buf b v" "feeds env (usb_log s) (packets cmd)" "4 \<le> length cmd" "length cmd \<le> unat (buf_size v)"
    "take 4 cmd \<noteq> [0xFF, 0xFF, 0xFF, 0xFF]"
  shows "\<exists>s'. run_out env (length (packets cmd)) s = map_option (\<lambda>s. Inr (s\<lparr>out_new := True\<rparr>)) (recv_buf env buf s') \<and>
    holds_command (fw s') buf cmd \<and> cmdQueue s' = next_buf b"
  using assms by (rule command_delivered)

theorem usb_command_delivered_witness:
  "\<exists>s'. run_out two_packets 2 (hif1 0x1000) = Some (Inr (s'\<lparr>out_new := True\<rparr>)) \<and> holds_command (fw s') 0x1000 (command1 18)"
proof -
  have p: "packets (command1 18) = [command1 16, command1 2]"
    by (simp add: packets.simps command1_simps)
  obtain b v where r: "out_ready (hif1 0x1000) 0x1000 b v" "buf_size v = 512" using hif1_ready by blast
  have l: "usb_log (hif1 c) = []" for c by (simp add: hif1_def)
  have f: "feeds two_packets (usb_log (hif1 0x1000)) (packets (command1 18))" unfolding p l by (rule two_packets_feeds)
  have c: "4 \<le> length (command1 18)" "length (command1 18) \<le> unat (buf_size v)" "take 4 (command1 18) \<noteq> [0xFF, 0xFF, 0xFF, 0xFF]"
    using command1_simps(2) [of 18] command1_simps(2) [of 16] by (simp_all add: command1_simps(1) r(2))
  show ?thesis
    using usb_command_delivered [OF r(1) f c] unfolding p
    by (simp add: two_packets_callbacks numeral_2_eq_2 del: run_out.simps) blast
qed

text \<open>
  Property C39. A command of 64 bytes without an empty packet behind it is not delivered: the endpoint waits, and the
  next command of the host is appended to it; the layer above gets both as one command.
\<close>

theorem usb_full_packet_merges:
  assumes "out_ready s buf b v" "length c1 = 64" "feeds env (usb_log s) (c1 # packets c2)" "64 + length c2 \<le> unat (buf_size v)"
    "take 4 c1 \<noteq> [0xFF, 0xFF, 0xFF, 0xFF]"
  shows "\<exists>s1 s'. usb_reg_out env s = Some (Inr s1) \<and> \<not> out_new s1 \<and>
    run_out env (length (packets c2)) s1 = map_option (\<lambda>s. Inr (s\<lparr>out_new := True\<rparr>)) (recv_buf env buf s') \<and>
    holds_command (fw s') buf (c1 @ c2)"
proof -
  let ?b = "b\<lparr>next_buf := NULL\<rparr>" and ?s = "out_begin buf b v s"
  note r = out_begin_receiving [OF assms(1)]
  have l: "usb_log ?s = usb_log s" by (simp add: out_begin_def)
  have f: "feeds env (usb_log ?s) (c1 # packets c2)" using assms(3) l by simp
  have "rd8_val env (usb_log s) EP4_COUNT = 64" using assms(2,3) by simp
  then have "usb_reg_out env s = usb_reg_out env ?s" by (intro reg_out_begin [OF assms(1)]) simp
  moreover have "usb_reg_out env ?s = Some (Inr (taken env c1 ?s))"
    using reg_out_packet [OF r f] assms(2,4) by simp
  moreover have m: "receiving (taken env c1 ?s) buf ?b v (bytes (fw s)) ([] @ c1)" "feeds env (usb_log (taken env c1 ?s)) (packets c2)"
    using receiving_more [OF r f _ assms(2)] assms(4) by simp_all
  moreover have "\<not> out_new (taken env c1 ?s)" using receivingD(1) [OF m(1)] .
  ultimately show ?thesis
    using run_out_delivers [OF m] assms(2,4,5) by fastforce
qed

theorem usb_full_packet_merges_witness:
  "\<exists>s1 s'. usb_reg_out two_packets (hif1 0x1000) = Some (Inr s1) \<and> \<not> out_new s1 \<and>
    run_out two_packets 1 s1 = Some (Inr (s'\<lparr>out_new := True\<rparr>)) \<and> holds_command (fw s') 0x1000 (command1 16 @ command1 2)"
proof -
  have p: "packets (command1 2) = [command1 2]" by (simp add: packets.simps command1_simps)
  obtain b v where r: "out_ready (hif1 0x1000) 0x1000 b v" "buf_size v = 512" using hif1_ready by blast
  have l: "usb_log (hif1 c) = []" for c by (simp add: hif1_def)
  have f: "feeds two_packets (usb_log (hif1 0x1000)) (command1 16 # packets (command1 2))" unfolding p l by (rule two_packets_feeds)
  have c: "length (command1 16) = 64" "64 + length (command1 2) \<le> unat (buf_size v)" "take 4 (command1 16) \<noteq> [0xFF, 0xFF, 0xFF, 0xFF]"
    using command1_simps(2) [of 18] command1_simps(2) [of 16] by (simp_all add: command1_simps(1) r(2))
  show ?thesis
    using usb_full_packet_merges [OF r(1) c(1) f c(2,3)] unfolding p
    by (simp add: two_packets_callbacks del: run_out.simps)
qed

text \<open>
  Property C38. The counter of the bytes of a command has 16 bits and goes on when the buffer is full. A host that
  sends 1024 full packets and no shorter one makes it wrap around, and the words of the last packet are stored behind
  the end of the buffer.
\<close>

theorem usb_flood_overflows:
  assumes "out_ready s buf b v" "buf_size v = 512" "floods env w"
  shows "\<exists>s'. run_out env 1024 s = Some (Inr s') \<and> (\<forall>i < 16. ld32 (bytes (fw s')) (buf_addr v + 512 + 4 * of_nat i) = w)"
  using assms by (rule flood_overflows)

theorem usb_flood_overflows_witness:
  "\<exists>s'. run_out (controller (\<lambda>_. 64)) 1024 (hif1 0x1000) = Some (Inr s') \<and> ld32 (bytes (fw s')) 0x8200 = 0x04030201"
proof -
  have "out_ready (hif1 0x1000) 0x1000 \<lparr>desc_list = 0x2000, next_buf = NULL, buf_length = 8, ctx = []\<rparr>
      \<lparr>next_desc = NULL, buf_addr = 0x8000, buf_size = 512, data_offset = 0, data_size = 8, control = 0, hw_desc_buf = []\<rparr>"
    by (simp add: out_ready_def hif1_def mem1_def rd_vbuf_def rd_vdesc_def)
  moreover have "floods (controller (\<lambda>_. 64)) 0x04030201" by (simp add: floods_def controller_def)
  ultimately obtain s' where s': "run_out (controller (\<lambda>_. 64)) 1024 (hif1 0x1000) = Some (Inr s')"
    "\<forall>i < 16. ld32 (bytes (fw s')) (0x8000 + 512 + 4 * of_nat i) = 0x04030201"
    using usb_flood_overflows [of "hif1 0x1000"] by fastforce
  from s'(2) [rule_format, of 0] have "ld32 (bytes (fw s')) 0x8200 = 0x04030201" by simp
  with s'(1) show ?thesis by blast
qed

text \<open>
  Property C37. An event that is sent on the idle endpoint reaches the host byte for byte, in packets of 64 bytes and a
  shorter last one, and then its buffer, and nothing else, is handed back.
\<close>

theorem usb_event_reaches_host:
  assumes "in_new s" "ev_queue s []" "rd_vbuf (fw s) buf = Some b" "rd_vdesc (fw s) (desc_list b) = Some v"
    "buf_length b = data_size v" "mem_bytes (bytes (fw s)) (buf_addr v + ucast (data_offset v)) (unat (data_size v)) = ev"
  shows "\<exists>s1 s2 l. send_buffer_via_fifo env buf s = Some s1 \<and>
    run_in env (length (in_packets ev)) s1 = map_option (in_new_update (\<lambda>_. True)) (send_buf_done env buf s2) \<and>
    usb_log s2 = usb_log s1 @ l \<and> sent_packets 4 [] l = in_packets ev \<and> ev_queue s2 []"
proof -
  obtain s1 where s1: "send_buffer_via_fifo env buf s = Some s1" "ev_queue s1 [buf]" "holds_event (fw s1) buf ev" "in_new s1"
    using send_event_queued [OF assms(2) _ assms(3-6), of env] assms(1) by auto
  then show ?thesis using event_sent [OF s1(4,2,3), of env] by blast
qed

theorem usb_event_reaches_host_witness:
  "\<exists>s1 s2 l. send_buffer_via_fifo two_packets 0x1000 (hif1 NULL) = Some s1 \<and>
    usb_status_in two_packets s1 = Some (s2\<lparr>in_new := True\<rparr>) \<and> usb_log s2 = usb_log s1 @ l \<and>
    sent_packets 4 [] l = [[0, 1, 2, 3, 4, 5, 6, 7]]"
proof -
  let ?b = "\<lparr>desc_list = 0x2000, next_buf = NULL, buf_length = 8, ctx = []\<rparr>"
  let ?v = "\<lparr>next_desc = NULL, buf_addr = 0x8000, buf_size = 512, data_offset = 0, data_size = 8, control = 0, hw_desc_buf = []\<rparr>"
  have a: "in_new (hif1 NULL)" "ev_queue (hif1 NULL) []" "rd_vbuf (fw (hif1 NULL)) 0x1000 = Some ?b"
    "rd_vdesc (fw (hif1 NULL)) (desc_list ?b) = Some ?v" "buf_length ?b = data_size ?v"
    by (simp_all add: hif1_def mem1_def ev_queue_def xmited_def rd_vbuf_def rd_vdesc_def)
  have m: "mem_bytes (bytes (fw (hif1 NULL))) (buf_addr ?v + ucast (data_offset ?v)) (unat (data_size ?v)) = [0, 1, 2, 3, 4, 5, 6, 7]"
    by (simp add: mem_bytes_def hif1_def mem1_def upt_conv_Cons)
  have p: "in_packets [0, 1, 2, 3, 4, 5, 6, 7] = [[0, 1, 2, 3, 4, 5, 6, 7]]" by (simp add: in_packets.simps)
  show ?thesis
    using usb_event_reaches_host [OF a m, of two_packets] unfolding p
    by (auto simp: two_packets_callbacks bind_eq_Some_conv)
qed

text \<open>
  Property C40. Both endpoints follow a NULL pointer when their queue is empty: a packet of the host without a free
  command buffer, and a status interrupt without an event, which occurs after every last event, have no result; the
  code tests for a buffer only after it has written its link.
\<close>

theorem usb_empty_queues_fault:
  assumes "rd8_val env (usb_log s) EP4_COUNT \<le> 64"
  shows "(out_new s \<and> cmdQueue s = NULL \<longrightarrow> usb_reg_out env s = None) \<and>
    (in_new s \<and> ev_queue s [] \<longrightarrow> usb_status_in env s = None)"
proof -
  have "\<not> (ucast (rd8_val env (usb_log s) EP4_COUNT) :: u16) > 64"
    using assms by (simp add: word_less_nat_alt word_le_nat_alt unsigned_ucast_eq take_bit_nat_eq_self)
  then show ?thesis
    by (simp add: usb_reg_out_def ioread8_def Let_def reg_out_start_def usb_do_def usbfifo_get_command_buf_def rd_vbuf_def
        usb_status_in_def usbfifo_get_event_buf_def ev_queue_def xmited_def upd_vbuf_def)
qed

theorem usb_empty_queues_fault_witness:
  "usb_reg_out two_packets (hif1 NULL) = None \<and> usb_status_in two_packets (hif1 NULL) = None"
proof -
  have "rd8_val two_packets (usb_log (hif1 NULL)) EP4_COUNT \<le> 64" by (simp add: two_packets_def controller_def hif1_def)
  moreover have "out_new (hif1 NULL)" "cmdQueue (hif1 NULL) = NULL" "in_new (hif1 NULL)" "ev_queue (hif1 NULL) []"
    by (simp_all add: hif1_def ev_queue_def xmited_def)
  ultimately show ?thesis using usb_empty_queues_fault [of two_packets "hif1 NULL"] by blast
qed

end
