(* ===== verification/Spec2Isabelle.thy ===== *)
theory Spec2Isabelle
  imports Htc_Inv Buf_Pool Wmi Rate_Find Owl_Crypto Owl_Errors Owl_Live Hal_Irq Hal_Aggr Hal_Mgmt Ath_Props Ath_Attach
    Cmnos_Tasklet Cmnos_Timer Hif_Event
begin

text \<open>
  Verification of the firmware of the AR7010 and AR9271 wireless USB adapters
  (\<^verbatim>\<open>open-ath9k-htc-firmware\<close>).

  \<^bold>\<open>The program.\<close> The firmware runs on a 32-bit big-endian core between a USB device controller and an
  802.11n MAC. The host's driver talks to it over HTC, a credit-based protocol of endpoints and services on
  the USB pipes; WMI, a command and event protocol, is one HTC service; frames to transmit and received
  frames travel on others. The target's transmit path keeps software queues per node and traffic identifier
  (TID), forms aggregates, keeps the block-ack window, chooses rates and reports the fate of each frame.
  Everything runs in one thread: interrupts only set flags, tasklets and the main loop do the work, so the
  model is sequential and every handler is a function on the state.

  \<^bold>\<open>Execution model\<close> (\<^verbatim>\<open>Fw_Prelude\<close>). Machine integers are words of their C width. A handler is a function
  into an option: \<open>None\<close> stands for undefined behaviour or a failed assertion, \<open>Some\<close> for the result and
  the new state. Error codes that C returns are ordinary values. Pointers into static arrays are indices; NULL
  is \<open>None\<close>; tail queues are lists. Loops without a bound of their own are partial functions whose
  termination is a theorem.

  \<^bold>\<open>The theories, from the bottom.\<close>
    \<^item> Memory: \<^verbatim>\<open>Fw_Mem\<close> (\<^verbatim>\<open>cmnos_allocram.c\<close>, \<^verbatim>\<open>vbuf.c\<close>, \<^verbatim>\<open>vdesc.c\<close>: the boot allocator and the
      free lists of buffer headers and descriptors), \<^verbatim>\<open>Nbuf\<close> (\<^verbatim>\<open>adf_nbuf.c\<close>: network buffers as chains of
      descriptors over byte memory), \<^verbatim>\<open>Buf_Pool\<close> (\<^verbatim>\<open>buf_pool_static.c\<close>). The locales \<open>alloc_pool\<close>,
      \<open>object_pool\<close> and \<open>buf_queue\<close> state what the clients rely on: allocation and release conserve a
      multiset of objects, queues are first-in first-out. They are interpreted on the free lists, the pools
      and the buffer queues of the code.
    \<^item> HTC: \<^verbatim>\<open>Htc\<close> translates \<^verbatim>\<open>htc.c\<close>; \<^verbatim>\<open>Htc_Send\<close> determines the bytes and the accounting of a sent
      message; \<^verbatim>\<open>Htc_Inv\<close> proves the invariant of the context for every entry point and, by rule induction,
      for every reachable state. The layers above HTC are the locale \<open>htc_client\<close>; it is interpreted for
      arbitrary service callbacks.
    \<^item> WMI: \<^verbatim>\<open>Wmi\<close> (\<^verbatim>\<open>wmi_svc.c\<close>).
    \<^item> Rate control: \<^verbatim>\<open>Rate_Tables\<close> (\<^verbatim>\<open>ar5416Phy.c\<close>), \<^verbatim>\<open>Ratectrl\<close> (\<^verbatim>\<open>ratectrl_11n_ln.c\<close>),
      \<^verbatim>\<open>Rate_Sort\<close> (the exchange sort is the stable library sort), \<^verbatim>\<open>Rate_Inv\<close> (the invariant of a node's
      rate state under the update after a transmission), \<^verbatim>\<open>Rate_Find\<close> (the choice of the retry series).
    \<^item> Transmit path (\<^verbatim>\<open>if_owl.c\<close>): \<^verbatim>\<open>Tx_State\<close> and \<^verbatim>\<open>Baw\<close> (the block-ack window, a ring of 128 bits,
      refined to a list of flags; the locale \<open>ack_window\<close> is its interface), \<^verbatim>\<open>Owl_State\<close> (the part of the
      softc the path works on), \<^verbatim>\<open>Owl_Buf\<close> (descriptors, release, the buffer held back), \<^verbatim>\<open>Owl_Rate\<close> (rate
      scenario, status for the host), \<^verbatim>\<open>Owl_Sched\<close> (hardware queues, scheduler, aggregates), \<^verbatim>\<open>Owl_Comp\<close>
      (completion, retries, block-ack requests, clean-up, the tasklet), \<^verbatim>\<open>Owl_Prep\<close> (frames from the host).
    \<^item> Properties of the transmit path: \<^verbatim>\<open>Owl_Aggr\<close> (an aggregate is a prefix of the queue inside the window
      and the limits, with its exact length), \<^verbatim>\<open>Owl_Done\<close> (its completion conserves buffers and frames and
      updates the window), \<^verbatim>\<open>Owl_Live\<close> (the scheduler returns, strands no TID, and hands over the oldest
      frame), \<^verbatim>\<open>Owl_Crypto\<close> (packet and sequence numbers), \<^verbatim>\<open>Owl_Errors\<close> (error paths, status events),
      \<^verbatim>\<open>Owl_Keep\<close> (what the transmit path leaves alone).
    \<^item> Hardware layer: \<^verbatim>\<open>Hal_Reg\<close> (the register programs of \<^verbatim>\<open>ar5416_hw.c\<close> and \<^verbatim>\<open>ah.c\<close>; a program is a
      function on a log of register accesses, and what the chip answers is a function of the log), \<^verbatim>\<open>Hal_Irq\<close>
      (the interrupts that can reach the driver, the stop of transmit DMA, the clock), \<^verbatim>\<open>Hal_Desc\<close> (the control and
      status words of descriptors), \<^verbatim>\<open>Hal_View\<close> (the words refine an abstract descriptor), \<^verbatim>\<open>Hal_Aggr\<close> (the
      descriptors of an aggregate are delimited for the hardware), \<^verbatim>\<open>Hal_Mgmt\<close> (a management frame from the
      host to the fields of its descriptor).
    \<^item> Driver (\<^verbatim>\<open>if_ath.c\<close>): \<^verbatim>\<open>Ath_State\<close> (the whole softc, the transmit path's part extended; the log of
      calls holds the driver's calls, with the register accesses of the hardware layer, in their order),
      \<^verbatim>\<open>Ath_Rx\<close> (the ring of receive descriptors, reassembly and delivery of frames), \<^verbatim>\<open>Ath_Intr\<close> (beacons,
      draining, the interrupt handler and its tasklets), \<^verbatim>\<open>Ath_Cmd\<close> (the handlers of the WMI commands and
      their table), \<^verbatim>\<open>Ath_Attach\<close> (start-up, services, replies and events on the wire), \<^verbatim>\<open>Ath_Driver\<close> (the
      driver as a step relation over commands, interrupts, tasklets, frames and completions; the invariants of
      its runs), \<^verbatim>\<open>Ath_Props\<close> (its properties).
    \<^item> ROM (\<^verbatim>\<open>src/sboot\<close>): \<^verbatim>\<open>Cmnos_List\<close> (linked lists changed in the middle), \<^verbatim>\<open>Cmnos_Tasklet\<close>
      (\<^verbatim>\<open>cmnos_tasklet.c\<close>), \<^verbatim>\<open>Cmnos_Timer\<close> (\<^verbatim>\<open>cmnos_timer.c\<close>), \<^verbatim>\<open>Dma_Engine\<close> (\<^verbatim>\<open>dma_engine.c\<close>, \<^verbatim>\<open>desc.c\<close>:
      queues of hardware descriptors that end in a terminator), \<^verbatim>\<open>Dma_Queue\<close> (the queue as a list of packets;
      by rule induction over its runs, buffers come back in order and with their data).
    \<^item> USB: \<^verbatim>\<open>Hif_Usb\<close> (\<^verbatim>\<open>HIF_usb.c\<close> and its patches \<^verbatim>\<open>k2_HIF_usb_patch.c\<close>, \<^verbatim>\<open>usb_api_main_patch.c\<close>,
      \<^verbatim>\<open>usb_api_k2_patch.c\<close>: pipes, the command and the event endpoint, the interrupt handler, suspension),
      \<^verbatim>\<open>Hif_Stream\<close> (commands as packets of words: what arrives in memory, and what happens when a buffer is
      too small), \<^verbatim>\<open>Hif_Event\<close> (events leave byte for byte; the properties of both endpoints). The answers of
      the controller are functions of the accesses before them; the layer above is a pair of functions.

  \<^bold>\<open>Interfaces to code outside the model.\<close> Calls of the hardware layer, of HTC and of WMI by the transmit
  path are appended to a list in the order of the calls; what the hardware answers is a function of that
  list, a field of the record \<open>owl_env\<close>. The calls of HTC into its services and into HIF, and those of WMI
  into the command handlers, are functions of the records \<open>htc_env\<close> and \<open>WMI_DISPATCH_ENTRY\<close>. A network
  buffer of the transmit path occupies one DMA segment, as the firmware's own assertion demands.

  \<^bold>\<open>Hypotheses on the state.\<close> The theorems on aggregates and the scheduler assume what the firmware's
  configuration establishes: a block-ack window below 128, a rate state whose indices are rows of the table
  (established and kept by the rate control, \<^verbatim>\<open>Rate_Inv\<close>), and a current rate table that covers those
  rows. Each has a witness on a concrete state.

  \<^bold>\<open>Not modelled.\<close> The rate tables of the hardware layer (\<^verbatim>\<open>ar5416_phy.c\<close>) and the PCI glue
  (\<^verbatim>\<open>if_ath_pci.c\<close>), the control endpoint and the FIFOs of the USB controller (\<^verbatim>\<open>usb_api.c\<close>, \<^verbatim>\<open>usb_fifo.c\<close>), the PCI and GMAC interfaces, console, strings, serial flash, EEPROM and clocks of the ROM
  (\<^verbatim>\<open>cmnos\<close>), the boot loader's own copy of \<^verbatim>\<open>htc.c\<close>, which the target's replaces, start-up code and
  exception handlers, the debug shell, the host's patches. They program devices or move bytes between them;
  what the modelled code relies on is a parameter.
\<close>

end
